(* ===== verification/Prelude.thy ===== *)
theory Prelude
  imports Main "HOL-Library.Word" "HOL-Library.Finite_Map" "HOL-Library.List_Lexorder"
begin

text \<open>
  Shared vocabulary of the development: the machine integers, the result type of a Rust call
  that may return an error or panic, byte strings and the ASCII and UTF-8 operations of Rust's
  standard library on them, little-endian encodings, and the generic facts on lists and finite
  maps that the component theories use.

  Conventions, used everywhere below.
  \<^item> A Rust integer of a fixed width is a word of that width, so additions wrap as they do in
    a release build. A \<open>usize\<close> that counts the elements of something in memory is a \<open>nat\<close>.
  \<^item> \<open>Vec<u8>\<close>, \<open>&[u8]\<close>, \<open>String\<close> and \<open>&str\<close> are lists of bytes; a Rust string is its UTF-8
    encoding, which is what its length, its slices and its comparisons are about.
  \<^item> A \<open>HashMap\<close> or \<open>BTreeMap\<close> is a finite map, a \<open>BTreeSet\<close> a finite set.
  \<^item> \<open>Result<T, E>\<close> is an outcome: \<open>Ok\<close>, \<open>Err\<close>, or \<open>Panic\<close> where the Rust code would index out
    of range or slice past the end.
\<close>

unbundle bit_operations_syntax

named_theorems model_defs \<open>definitions a component's proofs unfold\<close>

section \<open>Machine integers and results\<close>

type_synonym u8 = "8 word"
type_synonym u16 = "16 word"
type_synonym u32 = "32 word"
type_synonym u64 = "64 word"
type_synonym bytes = "u8 list"

datatype ('e, 'a) outcome = Ok 'a | Err 'e | Panic

fun obind :: "('e, 'a) outcome \<Rightarrow> ('a \<Rightarrow> ('e, 'b) outcome) \<Rightarrow> ('e, 'b) outcome" where
  "obind (Ok a) f = f a"
| "obind (Err e) f = Err e"
| "obind Panic f = Panic"

fun omap_err :: "('e \<Rightarrow> 'd) \<Rightarrow> ('e, 'a) outcome \<Rightarrow> ('d, 'a) outcome" where
  "omap_err g (Ok a) = Ok a"
| "omap_err g (Err e) = Err (g e)"
| "omap_err g Panic = Panic"

definition panics :: "('e, 'a) outcome \<Rightarrow> bool" where
  "panics x \<longleftrightarrow> x = Panic"

lemma panics_simps [simp]: "\<not> panics (Ok a)" "\<not> panics (Err e)" "panics Panic"
  by (simp_all add: panics_def)

lemma obind_Ok_conv: "obind x f = Ok b \<longleftrightarrow> (\<exists>a. x = Ok a \<and> f a = Ok b)"
  by (cases x) auto

lemma obind_Err_conv: "obind x f = Err e \<longleftrightarrow> x = Err e \<or> (\<exists>a. x = Ok a \<and> f a = Err e)"
  by (cases x) auto

lemma obind_Panic_conv: "obind x f = Panic \<longleftrightarrow> x = Panic \<or> (\<exists>a. x = Ok a \<and> f a = Panic)"
  by (cases x) auto

lemma omap_err_conv [simp]:
  "omap_err g x = Ok a \<longleftrightarrow> x = Ok a"
  "omap_err g x = Panic \<longleftrightarrow> x = Panic"
  by (cases x; simp; fail)+

lemma obind_no_panic:
  "x \<noteq> Panic \<Longrightarrow> (\<And>a. x = Ok a \<Longrightarrow> f a \<noteq> Panic) \<Longrightarrow> obind x f \<noteq> Panic"
  by (cases x) auto

text \<open>\<open>saturating_sub\<close> and \<open>saturating_mul\<close>.\<close>

definition sat_sub :: "'w::len word \<Rightarrow> 'w word \<Rightarrow> 'w word" where
  "sat_sub a b = (if a < b then 0 else a - b)"

definition sat_mul :: "'w::len word \<Rightarrow> 'w word \<Rightarrow> 'w word" where
  "sat_mul a b = (if unat a * unat b < 2 ^ LENGTH('w) then a * b else - 1)"

lemma unat_sat_sub: "unat (sat_sub a b) = unat a - unat b"
  by (auto simp: sat_sub_def unat_sub_if' word_less_nat_alt word_le_nat_alt)

section \<open>Lists the way the Rust code uses them\<close>

text \<open>\<open>Iterator::position\<close>, \<open>Vec::remove\<close>, and checked indexing and slicing.\<close>

fun find_index :: "('a \<Rightarrow> bool) \<Rightarrow> 'a list \<Rightarrow> nat option" where
  "find_index P [] = None"
| "find_index P (x # xs) = (if P x then Some 0 else map_option Suc (find_index P xs))"

definition remove_nth :: "nat \<Rightarrow> 'a list \<Rightarrow> 'a list" where
  "remove_nth i xs = take i xs @ drop (Suc i) xs"

definition slice :: "nat \<Rightarrow> nat \<Rightarrow> 'a list \<Rightarrow> ('e, 'a list) outcome" where
  "slice i j xs = (if i \<le> j \<and> j \<le> length xs then Ok (take (j - i) (drop i xs)) else Panic)"

definition index :: "'a list \<Rightarrow> nat \<Rightarrow> ('e, 'a) outcome" where
  "index xs i = (if i < length xs then Ok (xs ! i) else Panic)"

lemma find_index_None: "find_index P xs = None \<longleftrightarrow> (\<forall>x \<in> set xs. \<not> P x)"
  by (induction xs) auto

lemma find_index_Some:
  "find_index P xs = Some i \<Longrightarrow> i < length xs \<and> P (xs ! i) \<and> (\<forall>j < i. \<not> P (xs ! j))"
proof (induction xs arbitrary: i)
  case (Cons x xs)
  show ?case
  proof (cases "P x")
    case False
    with Cons.prems obtain k where k: "find_index P xs = Some k" "i = Suc k"
      by auto
    from Cons.IH [OF k(1)] k(2) False show ?thesis
      by (auto simp: less_Suc_eq_0_disj)
  qed (use Cons.prems in auto)
qed simp

lemma find_index_Some_iff:
  "find_index P xs = Some i \<longleftrightarrow> i < length xs \<and> P (xs ! i) \<and> (\<forall>j < i. \<not> P (xs ! j))"
proof
  assume R: "i < length xs \<and> P (xs ! i) \<and> (\<forall>j < i. \<not> P (xs ! j))"
  then obtain k where k: "find_index P xs = Some k"
    by (cases "find_index P xs") (auto simp: find_index_None)
  from find_index_Some [OF k] R have "k = i"
    by (meson linorder_neqE_nat)
  with k show "find_index P xs = Some i" by simp
qed (rule find_index_Some)

lemma find_index_append:
  "find_index P (xs @ ys) = (case find_index P xs of Some i \<Rightarrow> Some i
     | None \<Rightarrow> map_option (\<lambda>i. length xs + i) (find_index P ys))"
  by (cases "find_index P ys"; induction xs) (auto split: option.splits)

lemma find_index_map: "find_index P (map f xs) = find_index (P \<circ> f) xs"
  by (induction xs) auto

lemma find_in:
  assumes "\<exists>x \<in> set xs. P x"
  obtains x where "find P xs = Some x" "P x" "x \<in> set xs"
proof -
  from assms have "find P xs \<noteq> None" unfolding find_None_iff by blast
  then obtain x where x: "find P xs = Some x" by blast
  then obtain i where "i < length xs" "P (xs ! i)" "x = xs ! i" unfolding find_Some_iff by blast
  with x that show ?thesis by simp
qed

lemma set_remove_nth: "set (remove_nth i xs) \<subseteq> set xs"
  by (auto simp: remove_nth_def dest: in_set_takeD in_set_dropD)

lemma length_remove_nth: "i < length xs \<Longrightarrow> length (remove_nth i xs) = length xs - 1"
  by (simp add: remove_nth_def)

lemma map_remove_nth: "map f (remove_nth i xs) = remove_nth i (map f xs)"
  by (simp add: remove_nth_def take_map drop_map)

lemma set_conv_remove_nth: "i < length xs \<Longrightarrow> set xs = insert (xs ! i) (set (remove_nth i xs))"
  by (subst (1) id_take_nth_drop [of i xs]) (auto simp: remove_nth_def)

lemma distinct_remove_nth: "distinct xs \<Longrightarrow> distinct (remove_nth i xs)"
  by (simp add: remove_nth_def set_take_disj_set_drop_if_distinct)

lemma nth_notin_remove_nth: "distinct xs \<Longrightarrow> i < length xs \<Longrightarrow> xs ! i \<notin> set (remove_nth i xs)"
  by (metis distinct.simps(2) distinct_append id_take_nth_drop remove_nth_def Un_iff set_append
      disjoint_insert(1) list.set(2))

lemma slice_Ok [simp]: "slice i j xs = Ok ys \<longleftrightarrow> i \<le> j \<and> j \<le> length xs \<and> ys = take (j - i) (drop i xs)"
  by (auto simp: slice_def)

lemma slice_not_Err [simp]: "slice i j xs \<noteq> Err e"
  by (simp add: slice_def)

lemma index_Ok [simp]: "index xs i = Ok x \<longleftrightarrow> i < length xs \<and> x = xs ! i"
  by (auto simp: index_def)

lemma take_while_find_index:
  "find_index P xs = Some i \<Longrightarrow> take i xs = takeWhile (\<lambda>x. \<not> P x) xs"
  by (induction xs arbitrary: i) (auto split: if_splits)

section \<open>ASCII\<close>

text \<open>A string literal of the source, as bytes.\<close>

definition ascii :: "string \<Rightarrow> bytes" where
  "ascii s = map of_char s"

definition is_upper :: "u8 \<Rightarrow> bool" where
  "is_upper b \<longleftrightarrow> 0x41 \<le> b \<and> b \<le> 0x5A"

definition is_lower :: "u8 \<Rightarrow> bool" where
  "is_lower b \<longleftrightarrow> 0x61 \<le> b \<and> b \<le> 0x7A"

definition is_digit :: "u8 \<Rightarrow> bool" where
  "is_digit b \<longleftrightarrow> 0x30 \<le> b \<and> b \<le> 0x39"

definition is_alnum :: "u8 \<Rightarrow> bool" where
  "is_alnum b \<longleftrightarrow> is_upper b \<or> is_lower b \<or> is_digit b"

text \<open>\<open>to_ascii_lowercase\<close>, \<open>to_ascii_uppercase\<close> and \<open>eq_ignore_ascii_case\<close>.\<close>

definition lower :: "u8 \<Rightarrow> u8" where
  "lower b = (if is_upper b then b + 0x20 else b)"

definition upper :: "u8 \<Rightarrow> u8" where
  "upper b = (if is_lower b then b - 0x20 else b)"

abbreviation lowercase :: "bytes \<Rightarrow> bytes" where
  "lowercase \<equiv> map lower"

definition eq_nocase :: "bytes \<Rightarrow> bytes \<Rightarrow> bool" where
  "eq_nocase a b \<longleftrightarrow> lowercase a = lowercase b"

definition is_ascii :: "bytes \<Rightarrow> bool" where
  "is_ascii s \<longleftrightarrow> (\<forall>b \<in> set s. b < 0x80)"

lemma lower_not_upper: "\<not> is_upper (lower b)"
  by (auto simp: lower_def is_upper_def word_le_nat_alt unat_word_ariths)

lemma lower_idem [simp]: "lower (lower b) = lower b"
  by (simp add: lower_def [of "lower b"] lower_not_upper)

lemma lowercase_idem [simp]: "lowercase (lowercase s) = lowercase s"
  by (simp add: comp_def)

lemma eq_nocase_refl [simp]: "eq_nocase a a"
  by (simp add: eq_nocase_def)

lemma eq_nocase_sym: "eq_nocase a b = eq_nocase b a"
  by (auto simp: eq_nocase_def)

lemma eq_nocase_trans: "eq_nocase a b \<Longrightarrow> eq_nocase b c \<Longrightarrow> eq_nocase a c"
  by (simp add: eq_nocase_def)

section \<open>Decimal\<close>

text \<open>An unsigned integer as \<open>format!("{n}")\<close> prints it.\<close>

fun decimal :: "nat \<Rightarrow> bytes" where
  "decimal n = (if n < 10 then [word_of_nat (0x30 + n)] else decimal (n div 10) @ [word_of_nat (0x30 + n mod 10)])"

declare decimal.simps [simp del]

lemma decimal_not_Nil [simp]: "decimal n \<noteq> []"
  by (subst decimal.simps) simp

lemma length_decimal: "n < 10 ^ Suc k \<Longrightarrow> length (decimal n) \<le> Suc k"
proof (induction k arbitrary: n)
  case 0
  then show ?case by (subst decimal.simps) simp
next
  case (Suc k)
  have "n div 10 < 10 ^ Suc k" using Suc.prems by (simp add: less_mult_imp_div_less mult.commute)
  from Suc.IH [OF this] show ?case by (subst decimal.simps) simp
qed

lemma decimal_digits: "b \<in> set (decimal n) \<Longrightarrow> is_digit b"
proof (induction n rule: decimal.induct)
  case (1 n)
  have digit: "is_digit (word_of_nat (0x30 + d))" if "d < 10" for d
  proof -
    from that have "unat (word_of_nat (0x30 + d) :: u8) = 0x30 + d"
      by (simp add: unat_of_nat del: of_nat_add)
    with that show ?thesis by (simp add: is_digit_def word_le_nat_alt del: of_nat_add)
  qed
  show ?case
  proof (cases "n < 10")
    case True
    with 1(2) have "b = word_of_nat (0x30 + n)" by (subst (asm) decimal.simps) simp
    with digit [OF True] show ?thesis by (simp only:)
  next
    case False
    with 1(2) have "b \<in> set (decimal (n div 10)) \<or> b = word_of_nat (0x30 + n mod 10)"
      by (subst (asm) decimal.simps) auto
    with 1(1) [OF False] digit [of "n mod 10"] show ?thesis by (auto simp del: of_nat_add)
  qed
qed

definition digits_val :: "bytes \<Rightarrow> nat" where
  "digits_val s = fold (\<lambda>b a. 10 * a + (unat b - 0x30)) s 0"

lemma digits_val_decimal [simp]: "digits_val (decimal n) = n"
proof (induction n rule: decimal.induct)
  case (1 n)
  have digit: "unat (word_of_nat (0x30 + d) :: u8) - 0x30 = d" if "d < 10" for d
    using that by (simp add: unat_of_nat del: of_nat_add)
  show ?case
  proof (cases "n < 10")
    case True
    then show ?thesis by (subst decimal.simps) (simp add: digits_val_def digit del: of_nat_add)
  next
    case False
    with 1 digit [of "n mod 10"] show ?thesis
      by (subst decimal.simps) (simp add: digits_val_def del: of_nat_add)
  qed
qed

lemma lower_digit: "is_digit b \<Longrightarrow> lower b = b"
  by (auto simp: lower_def is_upper_def is_digit_def word_le_nat_alt)

lemma lowercase_decimal: "lowercase (decimal n) = decimal n"
  using decimal_digits by (intro map_idI lower_digit)

lemma decimal_inject [simp]: "decimal m = decimal n \<longleftrightarrow> m = n"
  by (metis digits_val_decimal)

section \<open>Little-endian integers\<close>

text \<open>
  \<open>le_bytes n v\<close> is \<open>v.to_le_bytes()\<close> of an \<open>n\<close>-byte integer, \<open>of_le bs\<close> is \<open>from_le_bytes\<close>.
\<close>

fun le_val :: "bytes \<Rightarrow> nat" where
  "le_val [] = 0"
| "le_val (b # bs) = unat b + 256 * le_val bs"

fun le_bytes :: "nat \<Rightarrow> nat \<Rightarrow> bytes" where
  "le_bytes 0 v = []"
| "le_bytes (Suc n) v = word_of_nat (v mod 256) # le_bytes n (v div 256)"

definition of_le :: "bytes \<Rightarrow> 'w::len word" where
  "of_le bs = word_of_nat (le_val bs)"

abbreviation le16 :: "u16 \<Rightarrow> bytes" where "le16 v \<equiv> le_bytes 2 (unat v)"
abbreviation le32 :: "u32 \<Rightarrow> bytes" where "le32 v \<equiv> le_bytes 4 (unat v)"
abbreviation le64 :: "u64 \<Rightarrow> bytes" where "le64 v \<equiv> le_bytes 8 (unat v)"

lemma le_bytes_numeral:
  "le_bytes (numeral k) v = word_of_nat (v mod 256) # le_bytes (pred_numeral k) (v div 256)"
  by (simp only: numeral_eq_Suc [of k] le_bytes.simps)

lemma length_le_bytes [simp]: "length (le_bytes n v) = n"
  by (induction n arbitrary: v) auto

lemma unat_byte [simp]: "unat (word_of_nat (v mod 256) :: u8) = v mod 256"
  by (simp add: unat_of_nat)

lemma le_val_le_bytes: "le_val (le_bytes n v) = v mod 256 ^ n"
proof (induction n arbitrary: v)
  case (Suc n)
  have "v mod 256 + 256 * (v div 256 mod 256 ^ n) = v mod (256 * 256 ^ n)"
    by (metis add.commute mod_mult2_eq)
  with Suc show ?case by simp
qed simp

lemma le_val_less: "le_val bs < 256 ^ length bs"
proof (induction bs)
  case (Cons b bs)
  have "unat b < 256" using unsigned_less [of b] by simp
  with Cons show ?case by simp
qed simp

lemma le_bytes_le_val: "le_bytes (length bs) (le_val bs) = bs"
proof (induction bs)
  case (Cons b bs)
  have "unat b < 256" using unsigned_less [of b] by simp
  with Cons show ?case by simp
qed simp

lemma of_le_le_bytes:
  fixes w :: "'w::len word"
  assumes "LENGTH('w) \<le> 8 * n"
  shows "of_le (le_bytes n (unat w)) = w"
proof -
  have "unat w < 2 ^ LENGTH('w)" by (rule unsigned_less)
  also have "\<dots> \<le> 2 ^ (8 * n)" using assms by (intro power_increasing) auto
  also have "\<dots> = 256 ^ n" by (simp add: power_mult)
  finally show ?thesis by (simp add: of_le_def le_val_le_bytes)
qed

lemma of_le16 [simp]: "of_le (le16 v) = v"
  by (rule of_le_le_bytes) simp

lemma of_le32 [simp]: "of_le (le32 v) = v"
  by (rule of_le_le_bytes) simp

lemma of_le64 [simp]: "of_le (le64 v) = v"
  by (rule of_le_le_bytes) simp

lemma le_bytes_of_le:
  assumes "length bs = n" and "8 * n \<le> LENGTH('w::len)"
  shows "le_bytes n (unat (of_le bs :: 'w word)) = bs"
proof -
  have "le_val bs < 256 ^ n" using le_val_less [of bs] assms(1) by simp
  also have "(256::nat) ^ n = 2 ^ (8 * n)" by (simp add: power_mult)
  also have "\<dots> \<le> 2 ^ LENGTH('w)" using assms(2) by (intro power_increasing) auto
  finally have "unat (of_le bs :: 'w word) = le_val bs"
    by (simp add: of_le_def unat_of_nat)
  then show ?thesis using le_bytes_le_val [of bs] assms(1) by simp
qed

lemma unat_of_le:
  assumes "8 * length bs \<le> LENGTH('w::len)"
  shows "unat (of_le bs :: 'w word) = le_val bs"
proof -
  have "le_val bs < 256 ^ length bs" by (rule le_val_less)
  also have "(256::nat) ^ length bs = 2 ^ (8 * length bs)" by (simp add: power_mult)
  also have "\<dots> \<le> 2 ^ LENGTH('w)" using assms by (intro power_increasing) auto
  finally show ?thesis by (simp add: of_le_def unat_of_nat)
qed

section \<open>UTF-8\<close>

text \<open>
  \<open>std::str::from_utf8\<close> accepts exactly the well-formed byte sequences of the Unicode
  standard's table 3-7.
\<close>

definition is_cont :: "u8 \<Rightarrow> bool" where
  "is_cont b \<longleftrightarrow> 0x80 \<le> b \<and> b \<le> 0xBF"

fun utf8_valid :: "bytes \<Rightarrow> bool" where
  "utf8_valid [] = True"
| "utf8_valid (b # bs) =
     (if b < 0x80 then utf8_valid bs
      else if 0xC2 \<le> b \<and> b \<le> 0xDF then
        (case bs of c # r \<Rightarrow> is_cont c \<and> utf8_valid r | _ \<Rightarrow> False)
      else if 0xE0 \<le> b \<and> b \<le> 0xEF then
        (case bs of c # d # r \<Rightarrow>
           is_cont c \<and> (b = 0xE0 \<longrightarrow> 0xA0 \<le> c) \<and> (b = 0xED \<longrightarrow> c \<le> 0x9F) \<and> is_cont d \<and> utf8_valid r
         | _ \<Rightarrow> False)
      else if 0xF0 \<le> b \<and> b \<le> 0xF4 then
        (case bs of c # d # e # r \<Rightarrow>
           is_cont c \<and> (b = 0xF0 \<longrightarrow> 0x90 \<le> c) \<and> (b = 0xF4 \<longrightarrow> c \<le> 0x8F) \<and> is_cont d \<and> is_cont e \<and>
           utf8_valid r
         | _ \<Rightarrow> False)
      else False)"

lemma ascii_utf8_valid: "is_ascii s \<Longrightarrow> utf8_valid s"
  by (induction s) (auto simp: is_ascii_def)

text \<open>
  \<open>str::trim\<close> removes characters with the Unicode \<open>White_Space\<close> property from both ends: the
  encodings of U+0009 to U+000D, U+0020, U+0085, U+00A0, U+1680, U+2000 to U+200A, U+2028,
  U+2029, U+202F, U+205F and U+3000.
\<close>

definition white_space :: "bytes list" where
  "white_space =
     [[0x09], [0x0A], [0x0B], [0x0C], [0x0D], [0x20], [0xC2, 0x85], [0xC2, 0xA0],
      [0xE1, 0x9A, 0x80],
      [0xE2, 0x80, 0x80], [0xE2, 0x80, 0x81], [0xE2, 0x80, 0x82], [0xE2, 0x80, 0x83],
      [0xE2, 0x80, 0x84], [0xE2, 0x80, 0x85], [0xE2, 0x80, 0x86], [0xE2, 0x80, 0x87],
      [0xE2, 0x80, 0x88], [0xE2, 0x80, 0x89], [0xE2, 0x80, 0x8A], [0xE2, 0x80, 0xA8],
      [0xE2, 0x80, 0xA9], [0xE2, 0x80, 0xAF], [0xE2, 0x81, 0x9F], [0xE3, 0x80, 0x80]]"

definition starts_with :: "'a list \<Rightarrow> 'a list \<Rightarrow> bool" where
  "starts_with s p \<longleftrightarrow> take (length p) s = p"

definition ends_with :: "'a list \<Rightarrow> 'a list \<Rightarrow> bool" where
  "ends_with s p \<longleftrightarrow> length p \<le> length s \<and> drop (length s - length p) s = p"

definition lead_space :: "bytes list \<Rightarrow> bytes \<Rightarrow> nat" where
  "lead_space ws s = (case find (starts_with s) ws of Some p \<Rightarrow> length p | None \<Rightarrow> 0)"

fun strip_front :: "bytes list \<Rightarrow> bytes \<Rightarrow> bytes" where
  "strip_front ws [] = []"
| "strip_front ws (b # bs) =
     (case lead_space ws (b # bs) of 0 \<Rightarrow> b # bs | Suc k \<Rightarrow> strip_front ws (drop k bs))"

definition trim :: "bytes \<Rightarrow> bytes" where
  "trim s = rev (strip_front (map rev white_space) (rev (strip_front white_space s)))"

end
