(* ===== verification/Proto_Types.thy ===== *)
theory Proto_Types
  imports Prelude
begin

text \<open>
  The vocabulary of \<open>bnetcc-proto\<close> (\<open>error.rs\<close>, \<open>lib.rs\<close>): the connection-scoped protocol
  errors, four-character codes and the product table with the authentication family of each
  product. Rendering an error as text (\<open>impl Display\<close>) is not modelled.
\<close>

section \<open>Protocol errors\<close>

datatype proto_error =
    BadMagic u8
  | ShortFrame (sf_len: nat) (sf_header: nat)
  | FrameTooLarge (ftl_len: nat) (ftl_max: nat)
  | Truncated (tr_needed: nat) (tr_available: nat)
  | UnterminatedString
  | StringTooLong (stl_len: nat) (stl_limit: nat)
  | LineTooLong nat
  | UnexpectedPacket (up_id: u8) (up_state: bytes)
  | InvalidValue (iv_field: bytes) (iv_value: bytes)

type_synonym 'a proto_result = "(proto_error, 'a) outcome"

section \<open>Four-character codes\<close>

text \<open>\<open>u32::from_be_bytes\<close> and \<open>to_be_bytes\<close>.\<close>

definition of_be :: "bytes \<Rightarrow> 'w::len word" where
  "of_be bs = of_le (rev bs)"

definition be32 :: "u32 \<Rightarrow> bytes" where
  "be32 v = rev (le32 v)"

lemma of_be_be32 [simp]: "of_be (be32 v) = v"
  by (simp add: of_be_def be32_def)

lemma length_be32 [simp]: "length (be32 v) = 4"
  by (simp add: be32_def)

lemma be32_of_be: "length bs = 4 \<Longrightarrow> be32 (of_be bs) = bs"
  unfolding be32_def of_be_def by (subst le_bytes_of_le) auto

datatype four_cc = FourCc (fcc_val: u32)

instantiation four_cc :: linorder
begin

definition less_eq_four_cc :: "four_cc \<Rightarrow> four_cc \<Rightarrow> bool" where
  "less_eq_four_cc a b \<longleftrightarrow> fcc_val a \<le> fcc_val b"

definition less_four_cc :: "four_cc \<Rightarrow> four_cc \<Rightarrow> bool" where
  "less_four_cc a b \<longleftrightarrow> fcc_val a < fcc_val b"

instance
  by standard (auto simp: less_eq_four_cc_def less_four_cc_def four_cc.expand)

end

definition from_ascii :: "bytes \<Rightarrow> four_cc" where
  "from_ascii s = FourCc (of_be (take 4 s))"

definition as_ascii :: "four_cc \<Rightarrow> bytes" where
  "as_ascii c = be32 (fcc_val c)"

lemma from_ascii_as_ascii [simp]: "from_ascii (as_ascii c) = c"
  by (cases c) (simp add: from_ascii_def as_ascii_def)

lemma length_as_ascii [simp]: "length (as_ascii c) = 4"
  by (simp add: as_ascii_def)

lemma as_ascii_from_ascii: "length s = 4 \<Longrightarrow> as_ascii (from_ascii s) = s"
  by (simp add: from_ascii_def as_ascii_def be32_of_be)

text \<open>
  \<open>impl Display for FourCc\<close>: the four characters when all are graphic ASCII, else \<open>{:#010x}\<close>.
\<close>

definition is_graphic :: "u8 \<Rightarrow> bool" where
  "is_graphic b \<longleftrightarrow> 0x21 \<le> b \<and> b \<le> 0x7E"

definition hex_digit :: "nat \<Rightarrow> u8" where
  "hex_digit n = word_of_nat (if n < 10 then 0x30 + n else 0x57 + n)"

definition hex32 :: "u32 \<Rightarrow> bytes" where
  "hex32 v = map (\<lambda>i. hex_digit (unat v div 16 ^ (7 - i) mod 16)) [0..<8]"

definition fourcc_text :: "four_cc \<Rightarrow> bytes" where
  "fourcc_text c =
     (if list_all is_graphic (as_ascii c) then as_ascii c else ascii ''0x'' @ hex32 (fcc_val c))"

section \<open>Products\<close>

definition STAR :: four_cc where "STAR = from_ascii (ascii ''STAR'')"
definition SEXP :: four_cc where "SEXP = from_ascii (ascii ''SEXP'')"
definition SSHR :: four_cc where "SSHR = from_ascii (ascii ''SSHR'')"
definition JSTR :: four_cc where "JSTR = from_ascii (ascii ''JSTR'')"
definition DRTL :: four_cc where "DRTL = from_ascii (ascii ''DRTL'')"
definition DSHR :: four_cc where "DSHR = from_ascii (ascii ''DSHR'')"
definition W2BN :: four_cc where "W2BN = from_ascii (ascii ''W2BN'')"
definition D2DV :: four_cc where "D2DV = from_ascii (ascii ''D2DV'')"
definition D2XP :: four_cc where "D2XP = from_ascii (ascii ''D2XP'')"
definition WAR3 :: four_cc where "WAR3 = from_ascii (ascii ''WAR3'')"
definition W3XP :: four_cc where "W3XP = from_ascii (ascii ''W3XP'')"

lemma product_values:
  "STAR = FourCc 0x53544152" "SEXP = FourCc 0x53455850" "SSHR = FourCc 0x53534852"
  "JSTR = FourCc 0x4A535452" "DRTL = FourCc 0x4452544C" "DSHR = FourCc 0x44534852"
  "W2BN = FourCc 0x5732424E" "D2DV = FourCc 0x44324456" "D2XP = FourCc 0x44325850"
  "WAR3 = FourCc 0x57415233" "W3XP = FourCc 0x57335850"
  by (simp_all add: STAR_def SEXP_def SSHR_def JSTR_def DRTL_def DSHR_def W2BN_def D2DV_def
      D2XP_def WAR3_def W3XP_def from_ascii_def of_be_def of_le_def ascii_def)

datatype auth_family = LegacyXsha1 | Xsha1 | Srp

definition auth_family :: "four_cc \<Rightarrow> auth_family option" where
  "auth_family p =
     (if p \<in> {STAR, SEXP, D2DV, D2XP} then Some Xsha1
      else if p \<in> {SSHR, JSTR, DRTL, DSHR, W2BN} then Some LegacyXsha1
      else if p \<in> {WAR3, W3XP} then Some Srp
      else None)"

definition always_no_udp :: "four_cc \<Rightarrow> bool" where
  "always_no_udp p \<longleftrightarrow> p \<in> {DRTL, DSHR}"

end
