(* ===== verification/Buf.thy ===== *)
theory Buf
  imports Proto_Types
begin

text \<open>
  \<open>bnetcc-proto/src/buf.rs\<close>: the receive buffer of a socket, the checked reader over a packet
  body and the packet writer. The receive buffer is shown to behave as a byte queue (the locale
  \<open>byte_queue\<close> is the interface its clients use); the reader's operations are characterised on
  readers of the form \<open>rd_at p r\<close>, which have consumed \<open>p\<close> and have \<open>r\<close> left.
\<close>

section \<open>The receive buffer\<close>

record recv_buf =
  rb_buf :: bytes
  rb_head :: nat

definition rb_new :: recv_buf where
  "rb_new = \<lparr>rb_buf = [], rb_head = 0\<rparr>"

definition rb_as_slice :: "recv_buf \<Rightarrow> ('e, bytes) outcome" where
  "rb_as_slice rb = slice (rb_head rb) (length (rb_buf rb)) (rb_buf rb)"

definition rb_len :: "recv_buf \<Rightarrow> nat" where
  "rb_len rb = length (rb_buf rb) - rb_head rb"

definition rb_is_empty :: "recv_buf \<Rightarrow> bool" where
  "rb_is_empty rb \<longleftrightarrow> rb_len rb = 0"

definition rb_extend :: "bytes \<Rightarrow> recv_buf \<Rightarrow> recv_buf" where
  "rb_extend data rb = rb\<lparr>rb_buf := rb_buf rb @ data\<rparr>"

definition rb_consume :: "nat \<Rightarrow> recv_buf \<Rightarrow> recv_buf" where
  "rb_consume n rb =
     (let head = min (rb_head rb + n) (length (rb_buf rb)) in
      if head \<ge> length (rb_buf rb) then \<lparr>rb_buf = [], rb_head = 0\<rparr>
      else if head \<ge> length (rb_buf rb) div 2 \<and> head \<ge> 512
      then \<lparr>rb_buf = drop head (rb_buf rb), rb_head = 0\<rparr>
      else rb\<lparr>rb_head := head\<rparr>)"

definition rb_clear :: "recv_buf \<Rightarrow> recv_buf" where
  "rb_clear rb = \<lparr>rb_buf = [], rb_head = 0\<rparr>"

text \<open>
  \<open>writable_tail(n)\<close> returns a mutable slice of \<open>n\<close> zero bytes at the tail; the socket read
  writes a prefix of it (\<open>rb_fill\<close>, the write through that slice) and \<open>commit\<close> drops the rest.
\<close>

definition rb_writable_tail :: "nat \<Rightarrow> recv_buf \<Rightarrow> recv_buf" where
  "rb_writable_tail n rb =
     (let rb = (if rb_head rb > 0 \<and> rb_head rb = length (rb_buf rb)
                then \<lparr>rb_buf = [], rb_head = 0\<rparr> else rb) in
      rb\<lparr>rb_buf := rb_buf rb @ replicate n 0\<rparr>)"

definition rb_fill :: "nat \<Rightarrow> bytes \<Rightarrow> recv_buf \<Rightarrow> recv_buf" where
  "rb_fill n data rb =
     (let start = length (rb_buf rb) - n in
      rb\<lparr>rb_buf := take start (rb_buf rb) @ data @ drop (start + length data) (rb_buf rb)\<rparr>)"

definition rb_commit :: "nat \<Rightarrow> nat \<Rightarrow> recv_buf \<Rightarrow> ('e, recv_buf) outcome" where
  "rb_commit written requested rb =
     (if requested < written then Panic
      else let excess = requested - written in
           if length (rb_buf rb) < excess then Panic
           else Ok (rb\<lparr>rb_buf := take (length (rb_buf rb) - excess) (rb_buf rb)\<rparr>))"

definition rb_wf :: "recv_buf \<Rightarrow> bool" where
  "rb_wf rb \<longleftrightarrow> rb_head rb \<le> length (rb_buf rb)"

definition unread :: "recv_buf \<Rightarrow> bytes" where
  "unread rb = drop (rb_head rb) (rb_buf rb)"

text \<open>What the decoders rely on: a queue of bytes.\<close>

locale byte_queue =
  fixes inv :: "'q \<Rightarrow> bool"
    and view :: "'q \<Rightarrow> bytes"
    and empty :: 'q
    and extend :: "bytes \<Rightarrow> 'q \<Rightarrow> 'q"
    and consume :: "nat \<Rightarrow> 'q \<Rightarrow> 'q"
  assumes inv_empty [simp]: "inv empty"
    and view_empty [simp]: "view empty = []"
    and inv_extend [simp]: "inv q \<Longrightarrow> inv (extend d q)"
    and view_extend [simp]: "inv q \<Longrightarrow> view (extend d q) = view q @ d"
    and inv_consume [simp]: "inv q \<Longrightarrow> inv (consume n q)"
    and view_consume [simp]: "inv q \<Longrightarrow> view (consume n q) = drop n (view q)"
begin

lemma inv_fold_extend: "inv q \<Longrightarrow> inv (fold extend ds q)"
  by (induction ds arbitrary: q) auto

lemma view_fold_extend: "inv q \<Longrightarrow> view (fold extend ds q) = view q @ concat ds"
  by (induction ds arbitrary: q) auto

lemma view_consume_consume: "inv q \<Longrightarrow> view (consume m (consume n q)) = drop (n + m) (view q)"
  by (simp add: add.commute)

lemma view_consume_extend:
  "inv q \<Longrightarrow> n \<le> length (view q) \<Longrightarrow> view (consume n (extend d q)) = view (extend d (consume n q))"
  by simp

end

interpretation rbq: byte_queue rb_wf unread rb_new rb_extend rb_consume
  by unfold_locales
     (auto simp: rb_wf_def unread_def rb_new_def rb_extend_def rb_consume_def Let_def add.commute)

lemma rb_as_slice_wf [simp]: "rb_wf rb \<Longrightarrow> rb_as_slice rb = Ok (unread rb)"
  by (simp add: rb_as_slice_def rb_wf_def unread_def slice_def)

lemma rb_len_unread: "rb_len rb = length (unread rb)"
  by (simp add: rb_len_def unread_def)

lemma rb_clear_simps [simp]: "rb_wf (rb_clear rb)" "unread (rb_clear rb) = []"
  by (simp_all add: rb_clear_def rb_wf_def unread_def)

lemma rb_read_path:
  assumes "rb_wf rb" and "length data \<le> n"
  shows "\<exists>rb'. rb_commit (length data) n (rb_fill n data (rb_writable_tail n rb)) = Ok rb' \<and>
           rb_wf rb' \<and> unread rb' = unread rb @ data"
proof (cases "rb_head rb > 0 \<and> rb_head rb = length (rb_buf rb)")
  case True
  then show ?thesis using assms
    by (auto simp: rb_writable_tail_def rb_fill_def rb_commit_def rb_wf_def unread_def Let_def)
next
  case False
  then show ?thesis using assms
    by (auto simp: rb_writable_tail_def rb_fill_def rb_commit_def rb_wf_def unread_def Let_def)
qed

lemma rb_consume_waste:
  "rb_head (rb_consume n rb) < 512 \<or>
   rb_head (rb_consume n rb) \<le> length (unread (rb_consume n rb))"
  by (auto simp: rb_consume_def unread_def Let_def min_def)

text \<open>
  The calls a connection makes, and the byte queue they are to implement. \<open>Read n data\<close> is the
  socket read path: ask for \<open>n\<close> bytes of room, let the socket fill \<open>data\<close>, commit them.
\<close>

datatype rb_op = Extend bytes | Read nat bytes | Consume nat | Clear

fun rb_exec :: "rb_op \<Rightarrow> recv_buf \<Rightarrow> ('e, recv_buf) outcome" where
  "rb_exec (Extend d) rb = Ok (rb_extend d rb)"
| "rb_exec (Read n d) rb = rb_commit (length d) n (rb_fill n d (rb_writable_tail n rb))"
| "rb_exec (Consume n) rb = Ok (rb_consume n rb)"
| "rb_exec Clear rb = Ok (rb_clear rb)"

fun rb_run :: "rb_op list \<Rightarrow> recv_buf \<Rightarrow> ('e, recv_buf) outcome" where
  "rb_run [] rb = Ok rb"
| "rb_run (x # xs) rb = obind (rb_exec x rb) (rb_run xs)"

fun queue_exec :: "rb_op \<Rightarrow> bytes \<Rightarrow> bytes" where
  "queue_exec (Extend d) s = s @ d"
| "queue_exec (Read n d) s = s @ d"
| "queue_exec (Consume n) s = drop n s"
| "queue_exec Clear s = []"

fun fits :: "rb_op \<Rightarrow> bool" where
  "fits (Read n d) = (length d \<le> n)"
| "fits _ = True"

text \<open>Consumed bytes that are still held: fewer than 512, or no more than the unread ones.\<close>

definition rb_tight :: "recv_buf \<Rightarrow> bool" where
  "rb_tight rb \<longleftrightarrow> rb_head rb < 512 \<or> rb_head rb \<le> length (unread rb)"

lemma rb_read_head:
  "rb_commit (length d) n (rb_fill n d (rb_writable_tail n rb)) = Ok rb' \<Longrightarrow>
     rb_head rb' = 0 \<or> rb_head rb' = rb_head rb"
  by (auto simp: rb_commit_def rb_fill_def rb_writable_tail_def Let_def split: if_splits)

lemma rb_exec_queue:
  assumes "rb_wf rb" and "rb_tight rb" and "fits x"
  shows "\<exists>rb'. rb_exec x rb = (Ok rb' :: ('e, recv_buf) outcome) \<and> rb_wf rb' \<and> rb_tight rb' \<and> unread rb' = queue_exec x (unread rb)"
proof (cases x)
  case (Extend d)
  with assms show ?thesis by (auto simp: rb_tight_def rb_extend_def rb_wf_def unread_def)
next
  case (Read n d)
  with rb_read_path [of rb d n] assms obtain rb' where
    rb': "rb_exec x rb = (Ok rb' :: ('e, recv_buf) outcome)" "rb_wf rb'" "unread rb' = unread rb @ d" by auto
  from rb'(1) Read have "rb_head rb' = 0 \<or> rb_head rb' = rb_head rb"
    by (auto dest: rb_read_head)
  with assms(2) rb'(3) have "rb_tight rb'" by (auto simp: rb_tight_def)
  with rb' Read show ?thesis by auto
next
  case (Consume n)
  with assms rb_consume_waste [of n rb] show ?thesis by (simp add: rb_tight_def)
next
  case Clear
  then show ?thesis by (simp add: rb_tight_def) (simp add: rb_clear_def)
qed

lemma rb_run_queue:
  "rb_wf rb \<Longrightarrow> rb_tight rb \<Longrightarrow> list_all fits xs \<Longrightarrow>
   \<exists>rb'. rb_run xs rb = (Ok rb' :: ('e, recv_buf) outcome) \<and> rb_wf rb' \<and> rb_tight rb' \<and> unread rb' = fold queue_exec xs (unread rb)"
proof (induction xs arbitrary: rb)
  case (Cons x xs)
  from Cons.prems rb_exec_queue [of rb x] obtain rb1 where
    "rb_exec x rb = (Ok rb1 :: ('e, recv_buf) outcome)" "rb_wf rb1" "rb_tight rb1"
    "unread rb1 = queue_exec x (unread rb)" by auto
  with Cons.IH [of rb1] Cons.prems show ?case by auto
qed simp

text \<open>
  The receive buffer is a byte queue. Any sequence of its calls, in which the socket delivers no
  more than it was given room for, runs without a panic and leaves unread exactly the bytes a queue
  would hold; and the buffer never holds more than 512 consumed bytes beyond twice what is unread.
\<close>

theorem recv_buf_is_a_queue:
  assumes "list_all fits xs"
  shows "\<exists>rb. (rb_run xs rb_new :: ('e, recv_buf) outcome) = Ok rb \<and> rb_as_slice rb = Ok (fold queue_exec xs []) \<and>
    length (rb_buf rb) \<le> 2 * rb_len rb + 512"
proof -
  have "rb_wf rb_new" "rb_tight rb_new" by (simp_all add: rb_tight_def) (simp add: rb_new_def)
  from rb_run_queue [OF this assms] obtain rb where
    rb: "rb_run xs rb_new = (Ok rb :: ('e, recv_buf) outcome)" "rb_wf rb"
    "rb_tight rb" "unread rb = fold queue_exec xs []" by auto
  from rb(2,3) have "length (rb_buf rb) \<le> 2 * rb_len rb + 512"
    by (auto simp: rb_tight_def rb_wf_def rb_len_def unread_def)
  with rb show ?thesis by auto
qed

corollary recv_buf_is_a_queue_witness:
  "\<exists>rb. rb_run [Read 4 [1, 2, 3], Consume 2, Extend [4]] rb_new = Ok rb \<and> rb_as_slice rb = Ok [3, 4]"
  using recv_buf_is_a_queue [of "[Read 4 [1, 2, 3], Consume 2, Extend [4]]"] by auto

section \<open>The checked reader\<close>

record reader =
  rd_buf :: bytes
  rd_pos :: nat

type_synonym 'a rd = "reader \<Rightarrow> ('a \<times> reader) proto_result"

definition rd_new :: "bytes \<Rightarrow> reader" where
  "rd_new bs = \<lparr>rd_buf = bs, rd_pos = 0\<rparr>"

definition rd_remaining :: "reader \<Rightarrow> nat" where
  "rd_remaining r = length (rd_buf r) - rd_pos r"

definition rd_is_empty :: "reader \<Rightarrow> bool" where
  "rd_is_empty r \<longleftrightarrow> rd_remaining r = 0"

text \<open>Sequencing reads the way the \<open>?\<close> operator does.\<close>

definition rd_bind :: "'a rd \<Rightarrow> ('a \<Rightarrow> 'b rd) \<Rightarrow> 'b rd" where
  "rd_bind m f r = obind (m r) (\<lambda>(a, r'). f a r')"

definition rd_return :: "'a \<Rightarrow> 'a rd" where
  "rd_return a r = Ok (a, r)"

definition rd_map :: "('a \<Rightarrow> 'b) \<Rightarrow> 'a rd \<Rightarrow> 'b rd" where
  "rd_map f m = rd_bind m (\<lambda>a. rd_return (f a))"

definition rd_take :: "nat \<Rightarrow> bytes rd" where
  "rd_take n r =
     (if rd_remaining r < n then Err (Truncated n (rd_remaining r))
      else obind (slice (rd_pos r) (rd_pos r + n) (rd_buf r))
             (\<lambda>out. Ok (out, r\<lparr>rd_pos := rd_pos r + n\<rparr>)))"

definition rd_u8 :: "u8 rd" where
  "rd_u8 = rd_bind (rd_take 1) (\<lambda>b r. obind (index b 0) (\<lambda>x. Ok (x, r)))"

definition rd_u16 :: "u16 rd" where
  "rd_u16 = rd_map of_le (rd_take 2)"

definition rd_u32 :: "u32 rd" where
  "rd_u32 = rd_map of_le (rd_take 4)"

definition rd_i32 :: "int rd" where
  "rd_i32 = rd_map sint rd_u32"

definition rd_u64 :: "u64 rd" where
  "rd_u64 = rd_map of_le (rd_take 8)"

definition rd_fourcc :: "four_cc rd" where
  "rd_fourcc = rd_map (\<lambda>b. FourCc (of_be [b ! 3, b ! 2, b ! 1, b ! 0])) (rd_take 4)"

definition rd_bytes :: "nat \<Rightarrow> bytes rd" where
  "rd_bytes n = rd_take n"

definition rd_cstr :: "nat \<Rightarrow> bytes rd" where
  "rd_cstr limit r =
     obind (slice (rd_pos r) (length (rd_buf r)) (rd_buf r)) (\<lambda>rest.
     case find_index (\<lambda>b. b = 0) rest of
       None \<Rightarrow> Err UnterminatedString
     | Some stop \<Rightarrow>
         if stop > limit then Err (StringTooLong stop limit)
         else obind (slice 0 stop rest) (\<lambda>s. Ok (s, r\<lparr>rd_pos := rd_pos r + (stop + 1)\<rparr>)))"

definition rd_rest :: "bytes rd" where
  "rd_rest r =
     obind (slice (rd_pos r) (length (rd_buf r)) (rd_buf r)) (\<lambda>out.
     Ok (out, r\<lparr>rd_pos := length (rd_buf r)\<rparr>))"

definition rd_wf :: "reader \<Rightarrow> bool" where
  "rd_wf r \<longleftrightarrow> rd_pos r \<le> length (rd_buf r)"

text \<open>The reader that has consumed \<open>p\<close> and has \<open>r\<close> left: every well-formed reader is one.\<close>

definition rd_at :: "bytes \<Rightarrow> bytes \<Rightarrow> reader" where
  "rd_at p r = \<lparr>rd_buf = p @ r, rd_pos = length p\<rparr>"

lemma rd_new_at: "rd_new bs = rd_at [] bs"
  by (simp add: rd_new_def rd_at_def)

lemma rd_wf_at [simp]: "rd_wf (rd_at p r)"
  by (simp add: rd_wf_def rd_at_def)

lemma rd_wf_cases: "rd_wf r \<Longrightarrow> (\<And>p s. r = rd_at p s \<Longrightarrow> thesis) \<Longrightarrow> thesis"
  by (cases r) (metis append_take_drop_id length_take min.absorb2 rd_at_def rd_wf_def reader.select_convs)

lemma rd_remaining_at [simp]: "rd_remaining (rd_at p r) = length r"
  by (simp add: rd_remaining_def rd_at_def)

lemma rd_bind_simps:
  "rd_bind (\<lambda>r. Ok (a, s)) f r = f a s"
  "rd_bind m f r = obind (m r) (\<lambda>(a, r'). f a r')"
  by (simp_all add: rd_bind_def)

lemma rd_take_at [simp]: "rd_take n (rd_at p r) =
    (if length r < n then Err (Truncated n (length r))
     else Ok (take n r, rd_at (p @ take n r) (drop n r)))"
  by (auto simp: rd_take_def slice_def rd_at_def rd_remaining_def)

lemma rd_take_app [simp]: "length xs = n \<Longrightarrow> rd_take n (rd_at p (xs @ r)) = Ok (xs, rd_at (p @ xs) r)"
  by simp

lemma rd_u8_at [simp]:
  "rd_u8 (rd_at p []) = Err (Truncated 1 0)"
  "rd_u8 (rd_at p (b # r)) = Ok (b, rd_at (p @ [b]) r)"
  by (simp_all add: rd_u8_def rd_bind_def index_def)

lemma rd_u16_app [simp]: "rd_u16 (rd_at p (le16 v @ r)) = Ok (v, rd_at (p @ le16 v) r)"
  by (simp add: rd_u16_def rd_map_def rd_bind_def rd_return_def del: rd_take_at)

lemma rd_u32_app [simp]: "rd_u32 (rd_at p (le32 v @ r)) = Ok (v, rd_at (p @ le32 v) r)"
  by (simp add: rd_u32_def rd_map_def rd_bind_def rd_return_def del: rd_take_at)

lemma rd_u64_app [simp]: "rd_u64 (rd_at p (le64 v @ r)) = Ok (v, rd_at (p @ le64 v) r)"
  by (simp add: rd_u64_def rd_map_def rd_bind_def rd_return_def del: rd_take_at)

lemma rd_cstr_app [simp]:
  assumes "0 \<notin> set s" and "length s \<le> limit"
  shows "rd_cstr limit (rd_at p (s @ 0 # r)) = Ok (s, rd_at (p @ s @ [0]) r)"
proof -
  have "find_index (\<lambda>b. b = 0) s = None"
    using assms(1) by (auto simp: find_index_None)
  then have "find_index (\<lambda>b. b = 0) (s @ 0 # r) = Some (length s)"
    by (simp add: find_index_append)
  with assms(2) show ?thesis
    by (simp add: rd_cstr_def rd_at_def slice_def)
qed

lemma rd_rest_at [simp]: "rd_rest (rd_at p r) = Ok (r, rd_at (p @ r) [])"
  by (simp add: rd_rest_def rd_at_def slice_def)

section \<open>No read panics\<close>

text \<open>
  A reader action is safe when, on a well-formed reader, it does not panic and leaves a
  well-formed reader over the same bytes that has not moved backwards.
\<close>

definition rd_safe :: "'a rd \<Rightarrow> bool" where
  "rd_safe m \<longleftrightarrow> (\<forall>r. rd_wf r \<longrightarrow> m r \<noteq> Panic \<and>
     (\<forall>a r'. m r = Ok (a, r') \<longrightarrow> rd_wf r' \<and> rd_buf r' = rd_buf r \<and> rd_pos r \<le> rd_pos r'))"

named_theorems rd_safe_intros \<open>safety of the reader operations\<close>

lemma rd_safe_not_Panic: "rd_safe m \<Longrightarrow> rd_wf r \<Longrightarrow> m r \<noteq> Panic"
  unfolding rd_safe_def by blast

lemma rd_safe_next:
  "rd_safe m \<Longrightarrow> rd_wf r \<Longrightarrow> m r = Ok (a, r') \<Longrightarrow>
   rd_wf r' \<and> rd_buf r' = rd_buf r \<and> rd_pos r \<le> rd_pos r'"
  unfolding rd_safe_def by blast

lemma rd_safeI:
  assumes "\<And>r. rd_wf r \<Longrightarrow> m r \<noteq> Panic"
    and "\<And>r a r'. rd_wf r \<Longrightarrow> m r = Ok (a, r') \<Longrightarrow>
      rd_wf r' \<and> rd_buf r' = rd_buf r \<and> rd_pos r \<le> rd_pos r'"
  shows "rd_safe m"
  unfolding rd_safe_def using assms by blast

lemma rd_safe_return [rd_safe_intros]: "rd_safe (rd_return a)"
  by (simp add: rd_safe_def rd_return_def)

lemma rd_safe_bind [rd_safe_intros]:
  assumes m: "rd_safe m" and f: "\<And>a. rd_safe (f a)"
  shows "rd_safe (rd_bind m f)"
proof (rule rd_safeI)
  fix r assume r: "rd_wf r"
  show "rd_bind m f r \<noteq> Panic"
  proof (cases "m r")
    case (Ok x)
    obtain a s where x: "x = (a, s)" by (cases x)
    with rd_safe_next [OF m r] Ok have "rd_wf s" by blast
    from rd_safe_not_Panic [OF f this] Ok x show ?thesis by (simp add: rd_bind_def)
  qed (use rd_safe_not_Panic [OF m r] in \<open>simp_all add: rd_bind_def\<close>)
next
  fix r b t assume r: "rd_wf r" and run: "rd_bind m f r = Ok (b, t)"
  then obtain a s where ms: "m r = Ok (a, s)" and fs: "f a s = Ok (b, t)"
    by (cases "m r") (auto simp: rd_bind_def)
  from rd_safe_next [OF m r ms] have s: "rd_wf s" "rd_buf s = rd_buf r" "rd_pos r \<le> rd_pos s"
    by auto
  from rd_safe_next [OF f s(1) fs] s(2,3) show "rd_wf t \<and> rd_buf t = rd_buf r \<and> rd_pos r \<le> rd_pos t"
    by auto
qed

lemma rd_safe_map [rd_safe_intros]: "rd_safe m \<Longrightarrow> rd_safe (rd_map f m)"
  unfolding rd_map_def by (intro rd_safe_bind rd_safe_return)

lemma rd_safe_take [rd_safe_intros]: "rd_safe (rd_take n)"
  unfolding rd_safe_def
  by (auto simp: rd_take_def slice_def rd_remaining_def rd_wf_def)

lemma rd_safe_u8 [rd_safe_intros]: "rd_safe rd_u8"
  unfolding rd_safe_def
proof (intro allI impI)
  fix r assume "rd_wf r"
  then obtain p s where r: "r = rd_at p s" by (rule rd_wf_cases)
  show "rd_u8 r \<noteq> Panic \<and> (\<forall>a r'. rd_u8 r = Ok (a, r') \<longrightarrow>
      rd_wf r' \<and> rd_buf r' = rd_buf r \<and> rd_pos r \<le> rd_pos r')"
    by (cases s) (auto simp: r, simp_all add: rd_at_def)
qed

lemma rd_safe_cstr [rd_safe_intros]: "rd_safe (rd_cstr limit)"
  unfolding rd_safe_def
  by (auto simp: rd_cstr_def slice_def rd_wf_def obind_Ok_conv obind_Panic_conv
      split: option.splits if_splits dest!: find_index_Some)

lemma rd_safe_rest [rd_safe_intros]: "rd_safe rd_rest"
  unfolding rd_safe_def by (auto simp: rd_rest_def slice_def rd_wf_def)

lemma rd_safe_ints [rd_safe_intros]:
  "rd_safe rd_u16" "rd_safe rd_u32" "rd_safe rd_u64" "rd_safe rd_i32" "rd_safe rd_fourcc"
  "rd_safe (rd_bytes n)"
  unfolding rd_u16_def rd_u32_def rd_u64_def rd_i32_def rd_fourcc_def rd_bytes_def
  by (intro rd_safe_intros)+

lemma rd_safe_no_panic: "rd_safe m \<Longrightarrow> m (rd_new bs) \<noteq> Panic"
  by (simp add: rd_safe_def rd_new_at)

section \<open>The writer\<close>

type_synonym writer = bytes

definition w_new :: writer where "w_new = []"
definition w_u8 :: "u8 \<Rightarrow> writer \<Rightarrow> writer" where "w_u8 v w = w @ [v]"
definition w_u16 :: "u16 \<Rightarrow> writer \<Rightarrow> writer" where "w_u16 v w = w @ le16 v"
definition w_u32 :: "u32 \<Rightarrow> writer \<Rightarrow> writer" where "w_u32 v w = w @ le32 v"
definition w_u64 :: "u64 \<Rightarrow> writer \<Rightarrow> writer" where "w_u64 v w = w @ le64 v"

definition w_fourcc :: "four_cc \<Rightarrow> writer \<Rightarrow> writer" where
  "w_fourcc v w = (let b = as_ascii v in w @ [b ! 3, b ! 2, b ! 1, b ! 0])"

definition w_bytes :: "bytes \<Rightarrow> writer \<Rightarrow> writer" where "w_bytes v w = w @ v"

definition w_cstr :: "bytes \<Rightarrow> writer \<Rightarrow> writer" where
  "w_cstr v w = w @ filter (\<lambda>b. b \<noteq> 0) v @ [0]"

text \<open>A chain of writer calls, in the order the source has them.\<close>

definition w_chain :: "(writer \<Rightarrow> writer) list \<Rightarrow> writer" where
  "w_chain fs = fold (\<lambda>f. f) fs w_new"

lemma rev_4: "length xs = 4 \<Longrightarrow> [xs ! 3, xs ! 2, xs ! 1, xs ! 0] = rev xs"
  by (auto simp: length_Suc_conv numeral_eq_Suc)

lemma w_fourcc_le: "w_fourcc (FourCc v) w = w @ le32 v"
  unfolding w_fourcc_def Let_def
  by (subst rev_4) (simp_all add: as_ascii_def be32_def)

definition fcc_wire :: "four_cc \<Rightarrow> bytes" where
  "fcc_wire c = le32 (fcc_val c)"

lemma length_fcc_wire [simp]: "length (fcc_wire c) = 4"
  by (simp add: fcc_wire_def)

lemma rd_fourcc_app [simp]: "rd_fourcc (rd_at p (fcc_wire c @ r)) = Ok (c, rd_at (p @ fcc_wire c) r)"
proof -
  have eq: "[fcc_wire c ! 3, fcc_wire c ! 2, fcc_wire c ! 1, fcc_wire c ! 0] = rev (fcc_wire c)"
    by (rule rev_4) simp
  have "of_be [fcc_wire c ! 3, fcc_wire c ! 2, fcc_wire c ! 1, fcc_wire c ! 0] = fcc_val c"
    unfolding eq by (simp add: of_be_def fcc_wire_def)
  then show ?thesis
    by (simp add: rd_fourcc_def rd_map_def rd_bind_def rd_return_def del: rd_take_at)
qed

lemma w_fourcc_wire: "w_fourcc c w = w @ fcc_wire c"
  by (cases c) (simp add: w_fourcc_le fcc_wire_def)

lemmas w_defs = w_chain_def w_new_def w_u8_def w_u16_def w_u32_def w_u64_def w_fourcc_wire
  w_bytes_def w_cstr_def

lemma filter_nonzero_id: "0 \<notin> set (s :: bytes) \<Longrightarrow> filter (\<lambda>b. b \<noteq> 0) s = s"
  by (rule filter_True) auto

lemmas rd_eval = rd_bind_def rd_return_def rd_map_def

end
