(* ===== verification/Framing.thy ===== *)
theory Framing
  imports Buf
begin

text \<open>
  What every framed protocol of the program shares. A decoder takes one frame off a byte queue or
  asks for more bytes; the connection loops (\<open>session.rs\<close>, \<open>realm.rs\<close>) append each chunk the
  socket delivers and then decode until the decoder asks for more. \<open>drain\<close> is the inner loop and
  \<open>receive\<close> the outer one. Both take fuel, which bounds the frames taken out per chunk; running
  out of it is the result \<open>None\<close>.

  The locale \<open>framing\<close> states what a codec promises, and proves once that the frames delivered do
  not depend on how the stream was cut into chunks. It is interpreted for BNCS, MCP, the chat
  gateway's lines and the federation link.
\<close>

fun drain :: "('q \<Rightarrow> ('e, 'f option \<times> 'q) outcome) \<Rightarrow> nat \<Rightarrow> 'q \<Rightarrow>
    ('f list \<times> ('e, 'q) outcome) option" where
  "drain dec 0 q = None"
| "drain dec (Suc n) q =
     (case dec q of
        Ok (None, q') \<Rightarrow> Some ([], Ok q')
      | Ok (Some f, q') \<Rightarrow>
          (case drain dec n q' of None \<Rightarrow> None | Some (fs, st) \<Rightarrow> Some (f # fs, st))
      | Err e \<Rightarrow> Some ([], Err e)
      | Panic \<Rightarrow> Some ([], Panic))"

fun receive :: "('q \<Rightarrow> ('e, 'f option \<times> 'q) outcome) \<Rightarrow> (bytes \<Rightarrow> 'q \<Rightarrow> 'q) \<Rightarrow> nat \<Rightarrow> 'q \<Rightarrow>
    bytes list \<Rightarrow> ('f list \<times> ('e, 'q) outcome) option" where
  "receive dec ext n q [] = Some ([], Ok q)"
| "receive dec ext n q (c # cs) =
     (case drain dec n (ext c q) of
        Some (fs, Ok q') \<Rightarrow>
          (case receive dec ext n q' cs of None \<Rightarrow> None | Some (gs, st) \<Rightarrow> Some (fs @ gs, st))
      | r \<Rightarrow> r)"

locale framing = byte_queue inv view empty extend consume
  for inv :: "'q \<Rightarrow> bool" and view and empty and extend and consume +
  fixes enc :: "'f \<Rightarrow> bytes"
    and legal :: "'f \<Rightarrow> bool"
    and dec :: "'q \<Rightarrow> ('e, 'f option \<times> 'q) outcome"
  assumes dec_empty: "inv q \<Longrightarrow> view q = [] \<Longrightarrow> dec q = Ok (None, q)"
    and dec_frame: "inv q \<Longrightarrow> legal f \<Longrightarrow> view q = enc f @ r \<Longrightarrow>
      \<exists>q'. dec q = Ok (Some f, q') \<and> inv q' \<and> view q' = r"
    and dec_wait: "inv q \<Longrightarrow> legal f \<Longrightarrow> enc f = view q @ s \<Longrightarrow> s \<noteq> [] \<Longrightarrow> dec q = Ok (None, q)"
begin

text \<open>A byte string that could still grow into a frame.\<close>

definition partial :: "bytes \<Rightarrow> bool" where
  "partial p \<longleftrightarrow> p = [] \<or> (\<exists>g s. legal g \<and> enc g = p @ s \<and> s \<noteq> [])"

lemma partial_Nil: "partial []"
  by (simp add: partial_def)

lemma dec_partial: "inv q \<Longrightarrow> partial (view q) \<Longrightarrow> dec q = Ok (None, q)"
  by (auto simp: partial_def intro: dec_empty dec_wait)

lemma drain_frames:
  assumes "inv q" and "\<forall>f \<in> set fs. legal f" and "view q = concat (map enc fs) @ p"
    and "partial p" and "length fs < n"
  shows "\<exists>q'. drain dec n q = Some (fs, Ok q') \<and> inv q' \<and> view q' = p"
  using assms
proof (induction fs arbitrary: q n)
  case Nil
  then obtain m where "n = Suc m" by (cases n) auto
  with Nil dec_partial [of q] show ?case by simp
next
  case (Cons f fs)
  then obtain m where m: "n = Suc m" "length fs < m" by (cases n) auto
  from Cons.prems dec_frame [of q f "concat (map enc fs) @ p"] obtain q1
    where "dec q = Ok (Some f, q1)" "inv q1" "view q1 = concat (map enc fs) @ p" by auto
  with Cons.IH [of q1 m] Cons.prems m show ?case by auto
qed

text \<open>Cutting a stream of frames anywhere leaves whole frames and one partial frame before the cut.\<close>

lemma cut_frames:
  assumes "xs @ ys = concat (map enc fs) @ p" and "\<forall>f \<in> set fs. legal f" and "partial p"
  shows "\<exists>fs1 fs2 p1. fs = fs1 @ fs2 \<and> xs = concat (map enc fs1) @ p1 \<and> partial p1 \<and>
    p1 @ ys = concat (map enc fs2) @ p"
  using assms
proof (induction fs arbitrary: xs)
  case Nil
  have "partial xs"
  proof (cases "ys = []")
    case False
    from Nil.prems have p: "p = xs @ ys" "partial p" by auto
    with False obtain g s where "legal g" "enc g = xs @ ys @ s"
      by (auto simp: partial_def)
    with False show ?thesis by (auto simp: partial_def)
  qed (use Nil.prems in simp)
  with Nil.prems show ?case by (intro exI [of _ "[]"] exI [of _ xs]) simp
next
  case (Cons f fs)
  show ?case
  proof (cases "length (enc f) \<le> length xs")
    case True
    have "take (length (enc f)) (xs @ ys) = enc f" using Cons.prems(1) by simp
    with True have "take (length (enc f)) xs = enc f" by simp
    then obtain xs' where xs: "xs = enc f @ xs'" by (metis append_take_drop_id)
    with Cons.prems(1) have "xs' @ ys = concat (map enc fs) @ p" by simp
    from Cons.IH [OF this _ Cons.prems(3)] Cons.prems(2) obtain fs1 fs2 p1 where
      "fs = fs1 @ fs2" "xs' = concat (map enc fs1) @ p1" "partial p1"
      "p1 @ ys = concat (map enc fs2) @ p" by auto
    with xs show ?thesis by (intro exI [of _ "f # fs1"] exI [of _ fs2] exI [of _ p1]) simp
  next
    case False
    have "take (length xs) (enc f @ concat (map enc fs) @ p) = xs"
      using arg_cong [OF Cons.prems(1), of "take (length xs)"] by simp
    with False have "take (length xs) (enc f) = xs" by simp
    then have "enc f = xs @ drop (length xs) (enc f)" by (metis append_take_drop_id)
    with False Cons.prems(2) have "partial xs"
      unfolding partial_def by (intro disjI2 exI [of _ f] exI [of _ "drop (length xs) (enc f)"]) simp
    with Cons.prems(1) show ?thesis by (intro exI [of _ "[]"] exI [of _ "f # fs"] exI [of _ xs]) simp
  qed
qed

lemma receive_frames:
  assumes "inv q" and "\<forall>f \<in> set fs. legal f" and "view q @ concat cs = concat (map enc fs) @ p"
    and "partial (view q)" and "partial p" and "length fs < n" and "cs = [] \<Longrightarrow> fs = []"
  shows "\<exists>q'. receive dec extend n q cs = Some (fs, Ok q') \<and> inv q' \<and> view q' = p"
  using assms
proof (induction cs arbitrary: q fs)
  case Nil
  then show ?case by simp
next
  case (Cons c cs)
  have "(view q @ c) @ concat cs = concat (map enc fs) @ p" using Cons.prems(3) by simp
  from cut_frames [OF this Cons.prems(2,5)] obtain fs1 fs2 p1 where
    c: "fs = fs1 @ fs2" "view q @ c = concat (map enc fs1) @ p1" "partial p1"
    "p1 @ concat cs = concat (map enc fs2) @ p" by blast
  have "inv (extend c q)" "view (extend c q) = concat (map enc fs1) @ p1"
    using Cons.prems(1) c(2) by simp_all
  with drain_frames [of "extend c q" fs1 p1 n] c Cons.prems obtain q1 where
    q1: "drain dec n (extend c q) = Some (fs1, Ok q1)" "inv q1" "view q1 = p1" by auto
  show ?case
  proof (cases "cs = []")
    case True
    with c(3,4) Cons.prems(5) q1(3) have "p1 = concat (map enc fs2) @ p" by simp
    have "fs2 = []"
    proof (rule ccontr)
      assume "fs2 \<noteq> []"
      then obtain g gs where g: "fs2 = g # gs" by (cases fs2) auto
      with c(1) Cons.prems(2) have "legal g" by simp
      with dec_frame [of q1 g "concat (map enc gs) @ p"] q1 \<open>p1 = _\<close> g
      have "\<exists>q'. dec q1 = Ok (Some g, q')" by auto
      moreover have "dec q1 = Ok (None, q1)" using dec_partial [of q1] q1 c(3) by simp
      ultimately show False by simp
    qed
    with True q1 c \<open>p1 = _\<close> show ?thesis by simp
  next
    case False
    with Cons.IH [of q1 fs2] q1 c Cons.prems obtain q2 where
      "receive dec extend n q1 cs = Some (fs2, Ok q2)" "inv q2" "view q2 = p" by auto
    with q1 c(1) show ?thesis by simp
  qed
qed

lemma receive_any_chunks:
  assumes "\<forall>f \<in> set fs. legal f" and "concat cs = concat (map enc fs)" and "length fs < n"
    and "cs = [] \<Longrightarrow> fs = []"
  shows "\<exists>q. receive dec extend n empty cs = Some (fs, Ok q) \<and> view q = []"
  using receive_frames [of empty fs cs "[]" n] assms partial_Nil by auto

end

end
