(* ===== verification/Bncs.thy ===== *)
theory Bncs
  imports Framing
begin

text \<open>
  \<open>bnetcc-proto/src/bncs.rs\<close>: BNCS framing (\<open>FF | id | len:u16le | body\<close>), the protocol selector
  byte and the message identifiers and status codes the server names.
\<close>

definition HEADER_LEN :: nat where "HEADER_LEN = 4"
definition MAGIC :: u8 where "MAGIC = 0xFF"
definition DEFAULT_MAX_FRAME :: nat where "DEFAULT_MAX_FRAME = 8192"

record bncs_frame =
  fr_id :: u8
  fr_body :: bytes

definition frame_empty :: "u8 \<Rightarrow> bncs_frame" where
  "frame_empty i = \<lparr>fr_id = i, fr_body = []\<rparr>"

definition wire_len :: "bncs_frame \<Rightarrow> nat" where
  "wire_len f = HEADER_LEN + length (fr_body f)"

text \<open>
  An error leaves the buffer as it was, so the decoder returns a new buffer only with \<open>Ok\<close>.
\<close>

definition decode_frame :: "nat \<Rightarrow> recv_buf \<Rightarrow> (bncs_frame option \<times> recv_buf) proto_result" where
  "decode_frame max_frame src =
     obind (rb_as_slice src) (\<lambda>buf.
     if length buf < HEADER_LEN then Ok (None, src)
     else
     obind (index buf 0) (\<lambda>b0.
     if b0 \<noteq> MAGIC then Err (BadMagic b0)
     else
     obind (index buf 1) (\<lambda>i.
     obind (index buf 2) (\<lambda>l0.
     obind (index buf 3) (\<lambda>l1.
     let len = unat (of_le [l0, l1] :: u16) in
     if len < HEADER_LEN then Err (ShortFrame len HEADER_LEN)
     else if len > max_frame then Err (FrameTooLarge len max_frame)
     else if length buf < len then Ok (None, src)
     else
     obind (slice HEADER_LEN len buf) (\<lambda>body.
     Ok (Some \<lparr>fr_id = i, fr_body = body\<rparr>, rb_consume len src)))))))"

definition encode_frame :: "bncs_frame \<Rightarrow> bytes \<Rightarrow> bytes proto_result" where
  "encode_frame f dst =
     (let len = wire_len f in
      if len > 65535 then Err (FrameTooLarge len 65535)
      else Ok (dst @ [MAGIC] @ [fr_id f] @ le16 (word_of_nat len) @ fr_body f))"

datatype protocol_selector = Game | Bnftp_Sel | Chat_Sel

definition selector_from_byte :: "u8 \<Rightarrow> protocol_selector option" where
  "selector_from_byte b =
     (if b = 0x01 then Some Game
      else if b = 0x02 then Some Bnftp_Sel
      else if b \<in> {0x03, 0x43, 0x63} then Some Chat_Sel
      else None)"

section \<open>Decoding\<close>

text \<open>The decoder as a function of the unread bytes alone.\<close>

definition frame_of :: "nat \<Rightarrow> bytes \<Rightarrow> (bncs_frame \<times> nat) option proto_result" where
  "frame_of max_frame buf =
     (if length buf < 4 then Ok None
      else if buf ! 0 \<noteq> MAGIC then Err (BadMagic (buf ! 0))
      else let len = le_val [buf ! 2, buf ! 3] in
        if len < 4 then Err (ShortFrame len 4)
        else if len > max_frame then Err (FrameTooLarge len max_frame)
        else if length buf < len then Ok None
        else Ok (Some (\<lparr>fr_id = buf ! 1, fr_body = take (len - 4) (drop 4 buf)\<rparr>, len)))"

lemma unat_of_le2 [simp]: "unat (of_le [a, b] :: u16) = le_val [a, b]"
  by (rule unat_of_le) simp

lemma decode_frame_of:
  "rb_wf src \<Longrightarrow> decode_frame max_frame src =
     (case frame_of max_frame (unread src) of
        Ok None \<Rightarrow> Ok (None, src)
      | Ok (Some (f, n)) \<Rightarrow> Ok (Some f, rb_consume n src)
      | Err e \<Rightarrow> Err e
      | Panic \<Rightarrow> Panic)"
  by (simp add: decode_frame_def frame_of_def HEADER_LEN_def index_def slice_def Let_def
      del: le_val.simps)

lemma frame_of_no_panic: "frame_of max_frame buf \<noteq> Panic"
  by (simp add: frame_of_def Let_def)

definition legal_frame :: "nat \<Rightarrow> bncs_frame \<Rightarrow> bool" where
  "legal_frame max_frame f \<longleftrightarrow> wire_len f \<le> max_frame \<and> wire_len f \<le> 65535"

definition frame_bytes :: "bncs_frame \<Rightarrow> bytes" where
  "frame_bytes f = MAGIC # fr_id f # le16 (word_of_nat (wire_len f)) @ fr_body f"

lemma encode_frame_bytes: "wire_len f \<le> 65535 \<Longrightarrow> encode_frame f dst = Ok (dst @ frame_bytes f)"
  by (simp add: encode_frame_def frame_bytes_def Let_def)

lemma le_bytes_2: "le_bytes 2 v = [word_of_nat (v mod 256), word_of_nat (v div 256 mod 256)]"
  by (simp add: le_bytes_numeral)

lemma le_val_le16:
  assumes "n \<le> 65535"
  shows "le_val [le_bytes 2 n ! 0, le_bytes 2 n ! 1] = n"
  using assms le_val_le_bytes [of 2 n] by (simp add: le_bytes_2)

lemma unat_word16: "n \<le> 65535 \<Longrightarrow> unat (word_of_nat n :: u16) = n"
  by (simp add: unat_of_nat)

lemma frame_bytes_nth:
  assumes "wire_len f \<le> 65535"
  shows "frame_bytes f = [MAGIC, fr_id f, le_bytes 2 (wire_len f) ! 0, le_bytes 2 (wire_len f) ! 1] @ fr_body f"
  using assms by (simp add: frame_bytes_def unat_word16 le_bytes_2)

lemma frame_of_frame_bytes:
  assumes "legal_frame m f"
  shows "frame_of m (frame_bytes f @ r) = Ok (Some (f, length (frame_bytes f)))"
proof -
  from assms have w: "wire_len f \<le> 65535" "wire_len f \<le> m" by (simp_all add: legal_frame_def)
  have "wire_len f = 4 + length (fr_body f)" by (simp add: wire_len_def HEADER_LEN_def)
  then show ?thesis
    using w le_val_le16 [OF w(1)]
    by (simp add: frame_of_def frame_bytes_nth [OF w(1)] Let_def del: le_val.simps)
qed

lemma frame_of_partial:
  assumes "legal_frame m f" and "frame_bytes f = p @ s" and "s \<noteq> []"
  shows "frame_of m p = Ok None"
proof (cases "length p < 4")
  case False
  from assms(1) have w: "wire_len f \<le> 65535" "wire_len f \<le> m" by (simp_all add: legal_frame_def)
  have len: "wire_len f = 4 + length (fr_body f)" by (simp add: wire_len_def HEADER_LEN_def)
  have "length (frame_bytes f) = wire_len f"
    by (simp add: frame_bytes_nth [OF w(1)] len)
  with assms(2,3) have short: "length p < wire_len f"
    by (metis length_append length_greater_0_conv less_add_same_cancel1)
  have "\<And>i. i < 4 \<Longrightarrow> p ! i = frame_bytes f ! i"
    using False assms(2) by (simp add: nth_append)
  then have "p ! 0 = MAGIC" "p ! 2 = le_bytes 2 (wire_len f) ! 0" "p ! 3 = le_bytes 2 (wire_len f) ! 1"
    by (simp_all add: frame_bytes_nth [OF w(1)])
  with False short w len le_val_le16 [OF w(1)] show ?thesis
    by (simp add: frame_of_def Let_def del: le_val.simps)
qed (simp add: frame_of_def)

text \<open>BNCS is a framing: what a peer sends arrives, however the stream is cut.\<close>

interpretation bncs: framing rb_wf unread rb_new rb_extend rb_consume
  frame_bytes "legal_frame m" "decode_frame m" for m
proof unfold_locales
  fix q :: recv_buf assume "rb_wf q" "unread q = []"
  then show "decode_frame m q = Ok (None, q)" by (simp add: decode_frame_of frame_of_def)
next
  fix q f r assume "rb_wf q" "legal_frame m f" "unread q = frame_bytes f @ r"
  then show "\<exists>q'. decode_frame m q = Ok (Some f, q') \<and> rb_wf q' \<and> unread q' = r"
    by (simp add: decode_frame_of frame_of_frame_bytes)
next
  fix q f s assume "rb_wf q" "legal_frame m f" "frame_bytes f = unread q @ s" "s \<noteq> []"
  then show "decode_frame m q = Ok (None, q)" by (simp add: decode_frame_of frame_of_partial)
qed

section \<open>What framing guarantees\<close>

text \<open>A sender encodes its frames one after the other into the same buffer.\<close>

fun encode_all :: "bncs_frame list \<Rightarrow> bytes \<Rightarrow> bytes proto_result" where
  "encode_all [] dst = Ok dst"
| "encode_all (f # fs) dst = obind (encode_frame f dst) (encode_all fs)"

lemma encode_all_Ok:
  "encode_all fs dst = Ok out \<longleftrightarrow>
     (\<forall>f \<in> set fs. wire_len f \<le> 65535) \<and> out = dst @ concat (map frame_bytes fs)"
proof (induction fs arbitrary: dst)
  case (Cons f fs)
  show ?case
  proof (cases "wire_len f \<le> 65535")
    case True
    with Cons show ?thesis by (auto simp: encode_frame_bytes)
  next
    case False
    then have "encode_frame f dst = Err (FrameTooLarge (wire_len f) 65535)"
      by (simp add: encode_frame_def Let_def)
    with False show ?thesis by auto
  qed
qed auto

text \<open>C2
  What one side encodes, the other receives: when the encoder accepts a list of frames and none is
  larger than the receiver's limit, then however the network cuts the encoded stream into reads,
  the connection loop delivers exactly those frames, in order, and is left with an empty buffer.
\<close>

theorem bncs_stream_any_chunks:
  assumes "encode_all fs [] = Ok stream" and "\<forall>f \<in> set fs. wire_len f \<le> m"
    and "concat chunks = stream" and "chunks \<noteq> []" and "length fs < fuel"
  shows "\<exists>rb. receive (decode_frame m) rb_extend fuel rb_new chunks = Some (fs, Ok rb) \<and> unread rb = []"
  using assms by (intro bncs.receive_any_chunks) (auto simp: encode_all_Ok legal_frame_def)

corollary bncs_stream_any_chunks_witness:
  "\<exists>rb. receive (decode_frame 8192) rb_extend 3 rb_new
     [[0xFF], [0x25, 8, 0, 1, 2], [3, 4, 0xFF, 0, 4], [0]] =
   Some ([\<lparr>fr_id = 0x25, fr_body = [1, 2, 3, 4]\<rparr>, frame_empty 0], Ok rb) \<and> unread rb = []"
  by (rule bncs_stream_any_chunks)
     (simp_all add: encode_frame_def wire_len_def HEADER_LEN_def frame_empty_def le_bytes_numeral
        MAGIC_def)

text \<open>C3
  The BNCS decoder on arbitrary bytes: it never panics; it asks for more input only while it holds
  fewer bytes than one header or one frame of the limit, so a peer cannot make it buffer more;
  and a frame it returns is within the limit and takes exactly its encoding off the buffer.
\<close>

theorem bncs_decode_bounded:
  assumes "rb_wf src"
  shows "decode_frame m src \<noteq> Panic \<and>
    (\<forall>src'. decode_frame m src = Ok (None, src') \<longrightarrow> src' = src \<and> rb_len src < max HEADER_LEN m) \<and>
    (\<forall>f src'. decode_frame m src = Ok (Some f, src') \<longrightarrow>
       wire_len f \<le> m \<and> rb_wf src' \<and> encode_frame f [] \<noteq> Panic \<and>
       encode_frame f [] = Ok (take (wire_len f) (unread src)) \<and>
       unread src' = drop (wire_len f) (unread src))"
proof (intro conjI allI impI)
  show "decode_frame m src \<noteq> Panic"
    using assms frame_of_no_panic [of m "unread src"]
    by (auto simp: decode_frame_of split: outcome.splits option.splits)
next
  fix src' assume "decode_frame m src = Ok (None, src')"
  with assms show "src' = src" "rb_len src < max HEADER_LEN m"
    by (auto simp: decode_frame_of frame_of_def rb_len_unread HEADER_LEN_def Let_def
        split: if_splits)
next
  fix f src' assume dec: "decode_frame m src = Ok (Some f, src')"
  let ?b = "unread src"
  let ?len = "le_val [?b ! 2, ?b ! 3]"
  from dec assms have b: "4 \<le> length ?b" "?b ! 0 = MAGIC" "4 \<le> ?len" "?len \<le> m" "?len \<le> length ?b"
    "f = \<lparr>fr_id = ?b ! 1, fr_body = take (?len - 4) (drop 4 ?b)\<rparr>" "src' = rb_consume ?len src"
    by (auto simp: decode_frame_of frame_of_def Let_def simp del: le_val.simps split: if_splits)
  then have len: "wire_len f = ?len" by (simp add: wire_len_def HEADER_LEN_def del: le_val.simps)
  with b show "wire_len f \<le> m" by simp
  from assms b show "rb_wf src'" by simp
  from assms b len show "unread src' = drop (wire_len f) ?b" by simp
  have max: "?len \<le> 65535" using le_val_less [of "[?b ! 2, ?b ! 3]"] by simp
  have le: "le_bytes 2 ?len = [?b ! 2, ?b ! 3]" using le_bytes_le_val [of "[?b ! 2, ?b ! 3]"]
    by (simp add: numeral_2_eq_2 del: le_val.simps le_bytes.simps)
  let ?p = "[?b ! 0, ?b ! 1, ?b ! 2, ?b ! 3]"
  have split: "?b = ?p @ drop 4 ?b"
    using b(1) by (auto simp: Suc_le_length_iff numeral_eq_Suc)
  have "frame_bytes f = ?p @ take (?len - 4) (drop 4 ?b)"
    using b(2,6) len max le by (simp add: frame_bytes_nth del: le_val.simps)
  also have "\<dots> = take ?len (?p @ drop 4 ?b)" using b(3) by (simp add: take_Cons' eval_nat_numeral del: le_val.simps)
  also have "\<dots> = take (wire_len f) ?b" using split len by simp
  finally show enc: "encode_frame f [] = Ok (take (wire_len f) ?b)"
    using len max by (simp add: encode_frame_bytes del: le_val.simps)
  then show "encode_frame f [] \<noteq> Panic" by simp
qed

corollary bncs_decode_bounded_witness:
  "\<exists>f src'. decode_frame 8192 (rb_extend [0xFF, 0x25, 5, 0, 9, 0xFF] rb_new) = Ok (Some f, src') \<and>
    wire_len f \<le> 8192"
proof -
  have wf: "rb_wf (rb_extend [0xFF, 0x25, 5, 0, 9, 0xFF] rb_new)" by simp
  have "\<exists>f src'. decode_frame 8192 (rb_extend [0xFF, 0x25, 5, 0, 9, 0xFF] rb_new) = Ok (Some f, src')"
    by (simp add: decode_frame_of frame_of_def MAGIC_def)
  then show ?thesis using bncs_decode_bounded [OF wf, of 8192] by blast
qed

section \<open>\<open>sid\<close>\<close>

definition SID_NULL :: u8 where "SID_NULL = 0x00"
definition SID_STOPADV :: u8 where "SID_STOPADV = 0x02"
definition SID_CLIENTID :: u8 where "SID_CLIENTID = 0x05"
definition SID_STARTVERSIONING :: u8 where "SID_STARTVERSIONING = 0x06"
definition SID_REPORTVERSION :: u8 where "SID_REPORTVERSION = 0x07"
definition SID_LOCALEINFO :: u8 where "SID_LOCALEINFO = 0x12"
definition SID_CLIENTID2 :: u8 where "SID_CLIENTID2 = 0x1E"
definition SID_SYSTEMINFO :: u8 where "SID_SYSTEMINFO = 0x2B"
definition SID_GAMERESULT :: u8 where "SID_GAMERESULT = 0x2C"
definition SID_GETLADDERDATA :: u8 where "SID_GETLADDERDATA = 0x2E"
definition SID_FINDLADDERUSER :: u8 where "SID_FINDLADDERUSER = 0x2F"
definition SID_CDKEY :: u8 where "SID_CDKEY = 0x30"
definition SID_CDKEY2 :: u8 where "SID_CDKEY2 = 0x36"
definition SID_GETADVLISTEX :: u8 where "SID_GETADVLISTEX = 0x09"
definition SID_ENTERCHAT :: u8 where "SID_ENTERCHAT = 0x0A"
definition SID_CHECKAD :: u8 where "SID_CHECKAD = 0x15"
definition SID_CLICKAD :: u8 where "SID_CLICKAD = 0x16"
definition SID_GETCHANNELLIST :: u8 where "SID_GETCHANNELLIST = 0x0B"
definition SID_JOINCHANNEL :: u8 where "SID_JOINCHANNEL = 0x0C"
definition SID_LEAVECHAT :: u8 where "SID_LEAVECHAT = 0x10"
definition SID_CHATCOMMAND :: u8 where "SID_CHATCOMMAND = 0x0E"
definition SID_CHATEVENT :: u8 where "SID_CHATEVENT = 0x0F"
definition SID_READUSERDATA :: u8 where "SID_READUSERDATA = 0x26"
definition SID_WRITEUSERDATA :: u8 where "SID_WRITEUSERDATA = 0x27"
definition SID_FLOODDETECTED :: u8 where "SID_FLOODDETECTED = 0x13"
definition SID_UDPPINGRESPONSE :: u8 where "SID_UDPPINGRESPONSE = 0x14"
definition SID_STARTADVEX3 :: u8 where "SID_STARTADVEX3 = 0x1C"
definition SID_LEAVEGAME :: u8 where "SID_LEAVEGAME = 0x1F"
definition SID_NOTIFYJOIN :: u8 where "SID_NOTIFYJOIN = 0x22"
definition SID_DISPLAYAD :: u8 where "SID_DISPLAYAD = 0x21"
definition SID_PING :: u8 where "SID_PING = 0x25"
definition SID_GETICONDATA :: u8 where "SID_GETICONDATA = 0x2D"
definition SID_GETFILETIME :: u8 where "SID_GETFILETIME = 0x33"
definition SID_CHECKDATAFILE2 :: u8 where "SID_CHECKDATAFILE2 = 0x3C"
definition SID_LOGONRESPONSE :: u8 where "SID_LOGONRESPONSE = 0x29"
definition SID_CREATEACCOUNT :: u8 where "SID_CREATEACCOUNT = 0x2A"
definition SID_CREATEACCOUNT2 :: u8 where "SID_CREATEACCOUNT2 = 0x3D"
definition SID_LOGONRESPONSE2 :: u8 where "SID_LOGONRESPONSE2 = 0x3A"
definition SID_LOGONREALMEX :: u8 where "SID_LOGONREALMEX = 0x3E"
definition SID_QUERYREALMS2 :: u8 where "SID_QUERYREALMS2 = 0x40"
definition SID_WARCRAFTGENERAL :: u8 where "SID_WARCRAFTGENERAL = 0x44"
definition SID_NETGAMEPORT :: u8 where "SID_NETGAMEPORT = 0x45"
definition SID_NEWS_INFO :: u8 where "SID_NEWS_INFO = 0x46"
definition SID_QUERYADURL :: u8 where "SID_QUERYADURL = 0x41"
definition SID_SETEMAIL :: u8 where "SID_SETEMAIL = 0x59"
definition SID_FRIENDSLIST :: u8 where "SID_FRIENDSLIST = 0x65"
definition SID_AUTH_INFO :: u8 where "SID_AUTH_INFO = 0x50"
definition SID_AUTH_CHECK :: u8 where "SID_AUTH_CHECK = 0x51"
definition SID_AUTH_ACCOUNTCREATE :: u8 where "SID_AUTH_ACCOUNTCREATE = 0x52"
definition SID_AUTH_ACCOUNTLOGON :: u8 where "SID_AUTH_ACCOUNTLOGON = 0x53"
definition SID_AUTH_ACCOUNTLOGONPROOF :: u8 where "SID_AUTH_ACCOUNTLOGONPROOF = 0x54"

lemmas sid_defs =
  SID_NULL_def SID_STOPADV_def SID_CLIENTID_def SID_STARTVERSIONING_def SID_REPORTVERSION_def
  SID_LOCALEINFO_def SID_CLIENTID2_def SID_SYSTEMINFO_def SID_GAMERESULT_def
  SID_GETLADDERDATA_def SID_FINDLADDERUSER_def SID_CDKEY_def SID_CDKEY2_def
  SID_GETADVLISTEX_def SID_ENTERCHAT_def SID_CHECKAD_def SID_CLICKAD_def
  SID_GETCHANNELLIST_def SID_JOINCHANNEL_def SID_LEAVECHAT_def SID_CHATCOMMAND_def
  SID_CHATEVENT_def SID_READUSERDATA_def SID_WRITEUSERDATA_def SID_FLOODDETECTED_def
  SID_UDPPINGRESPONSE_def SID_STARTADVEX3_def SID_LEAVEGAME_def SID_NOTIFYJOIN_def
  SID_DISPLAYAD_def SID_PING_def SID_GETICONDATA_def SID_GETFILETIME_def
  SID_CHECKDATAFILE2_def SID_LOGONRESPONSE_def SID_CREATEACCOUNT_def SID_CREATEACCOUNT2_def
  SID_LOGONRESPONSE2_def SID_LOGONREALMEX_def SID_QUERYREALMS2_def SID_WARCRAFTGENERAL_def
  SID_NETGAMEPORT_def SID_NEWS_INFO_def SID_QUERYADURL_def SID_SETEMAIL_def
  SID_FRIENDSLIST_def SID_AUTH_INFO_def SID_AUTH_CHECK_def SID_AUTH_ACCOUNTCREATE_def
  SID_AUTH_ACCOUNTLOGON_def SID_AUTH_ACCOUNTLOGONPROOF_def

section \<open>\<open>logon_status\<close>\<close>

definition LOGON_SUCCESS :: u32 where "LOGON_SUCCESS = 0x00"
definition LOGON_NO_SUCH_ACCOUNT :: u32 where "LOGON_NO_SUCH_ACCOUNT = 0x01"
definition LOGON_WRONG_PASSWORD :: u32 where "LOGON_WRONG_PASSWORD = 0x02"
definition LOGON_ACCOUNT_CORRUPTED :: u32 where "LOGON_ACCOUNT_CORRUPTED = 0x03"
definition LOGON_ACCOUNT_CLOSED :: u32 where "LOGON_ACCOUNT_CLOSED = 0x06"

lemmas logon_status_defs =
  LOGON_SUCCESS_def LOGON_NO_SUCH_ACCOUNT_def LOGON_WRONG_PASSWORD_def
  LOGON_ACCOUNT_CORRUPTED_def LOGON_ACCOUNT_CLOSED_def

section \<open>\<open>nls_status\<close>\<close>

definition NLS_LOGON_OK :: u32 where "NLS_LOGON_OK = 0x00"
definition NLS_LOGON_NO_ACCOUNT :: u32 where "NLS_LOGON_NO_ACCOUNT = 0x01"
definition NLS_LOGON_UPGRADE :: u32 where "NLS_LOGON_UPGRADE = 0x05"
definition NLS_PROOF_OK :: u32 where "NLS_PROOF_OK = 0x00"
definition NLS_PROOF_WRONG_PASSWORD :: u32 where "NLS_PROOF_WRONG_PASSWORD = 0x02"
definition NLS_PROOF_ACCOUNT_CLOSED :: u32 where "NLS_PROOF_ACCOUNT_CLOSED = 0x06"
definition NLS_PROOF_EMAIL_WANTED :: u32 where "NLS_PROOF_EMAIL_WANTED = 0x0E"
definition NLS_PROOF_CUSTOM_ERROR :: u32 where "NLS_PROOF_CUSTOM_ERROR = 0x0F"
definition NLS_CREATE_OK :: u32 where "NLS_CREATE_OK = 0x00"
definition NLS_CREATE_NAME_EXISTS :: u32 where "NLS_CREATE_NAME_EXISTS = 0x04"
definition NLS_CREATE_TOO_SHORT :: u32 where "NLS_CREATE_TOO_SHORT = 0x07"
definition NLS_CREATE_ILLEGAL_CHAR :: u32 where "NLS_CREATE_ILLEGAL_CHAR = 0x08"

lemmas nls_status_defs =
  NLS_LOGON_OK_def NLS_LOGON_NO_ACCOUNT_def NLS_LOGON_UPGRADE_def NLS_PROOF_OK_def
  NLS_PROOF_WRONG_PASSWORD_def NLS_PROOF_ACCOUNT_CLOSED_def NLS_PROOF_EMAIL_WANTED_def
  NLS_PROOF_CUSTOM_ERROR_def NLS_CREATE_OK_def NLS_CREATE_NAME_EXISTS_def
  NLS_CREATE_TOO_SHORT_def NLS_CREATE_ILLEGAL_CHAR_def

section \<open>\<open>advertise_status\<close>\<close>

definition ADVERTISE_OK :: u32 where "ADVERTISE_OK = 0x00"
definition ADVERTISE_NAME_TAKEN :: u32 where "ADVERTISE_NAME_TAKEN = 0x01"
definition ADVERTISE_TYPE_UNAVAILABLE :: u32 where "ADVERTISE_TYPE_UNAVAILABLE = 0x02"
definition ADVERTISE_ERROR :: u32 where "ADVERTISE_ERROR = 0x03"

lemmas advertise_status_defs =
  ADVERTISE_OK_def ADVERTISE_NAME_TAKEN_def ADVERTISE_TYPE_UNAVAILABLE_def ADVERTISE_ERROR_def

end
