(* ===== verification/Session_Fsm.thy ===== *)
theory Session_Fsm
  imports Bncs
begin

text \<open>
  \<open>bnetcc-core/src/session.rs\<close>: the states of a BNCS session, which packets each accepts and
  which state a packet leads to.
\<close>

datatype session_state =
    Connected | Versioning | Authenticating | LoggedIn | Chatting | InChannel | Closing

definition authenticated :: "session_state \<Rightarrow> bool" where
  "authenticated s \<longleftrightarrow> s \<in> {LoggedIn, Chatting, InChannel}"

definition in_automated_handshake :: "session_state \<Rightarrow> bool" where
  "in_automated_handshake s \<longleftrightarrow> s \<in> {Connected, Versioning}"

fun state_name :: "session_state \<Rightarrow> bytes" where
  "state_name Connected = ascii ''connected''"
| "state_name Versioning = ascii ''versioning''"
| "state_name Authenticating = ascii ''authenticating''"
| "state_name LoggedIn = ascii ''logged-in''"
| "state_name Chatting = ascii ''chatting''"
| "state_name InChannel = ascii ''in-channel''"
| "state_name Closing = ascii ''closing''"

definition always_accepted :: "u8 set" where
  "always_accepted =
     {SID_NULL, SID_PING, SID_STOPADV, SID_CHECKAD, SID_CLICKAD, SID_DISPLAYAD, SID_QUERYADURL,
      SID_UDPPINGRESPONSE, SID_CLIENTID, SID_CLIENTID2, SID_LOCALEINFO, SID_SYSTEMINFO}"

definition chat_accepted :: "u8 set" where
  "chat_accepted =
     {SID_ENTERCHAT, SID_GETICONDATA, SID_GETFILETIME, SID_CHECKDATAFILE2, SID_JOINCHANNEL,
      SID_LEAVECHAT, SID_CHATCOMMAND, SID_GETCHANNELLIST, SID_FRIENDSLIST, SID_READUSERDATA,
      SID_WRITEUSERDATA, SID_NEWS_INFO, SID_GETADVLISTEX, SID_STARTADVEX3, SID_GAMERESULT,
      SID_NOTIFYJOIN, SID_LEAVEGAME, SID_QUERYREALMS2, SID_LOGONREALMEX, SID_NETGAMEPORT,
      SID_WARCRAFTGENERAL, SID_GETLADDERDATA, SID_FINDLADDERUSER}"

fun state_accepts :: "session_state \<Rightarrow> u8 set" where
  "state_accepts Connected = {SID_AUTH_INFO, SID_STARTVERSIONING}"
| "state_accepts Versioning = {SID_AUTH_CHECK, SID_REPORTVERSION, SID_CDKEY, SID_CDKEY2}"
| "state_accepts Authenticating =
     {SID_LOGONRESPONSE, SID_LOGONRESPONSE2, SID_CREATEACCOUNT, SID_CREATEACCOUNT2,
      SID_AUTH_ACCOUNTCREATE, SID_AUTH_ACCOUNTLOGON, SID_AUTH_ACCOUNTLOGONPROOF,
      SID_CDKEY, SID_CDKEY2, SID_GETICONDATA, SID_GETFILETIME, SID_READUSERDATA}"
| "state_accepts LoggedIn =
     {SID_ENTERCHAT, SID_GETICONDATA, SID_GETFILETIME, SID_CHECKDATAFILE2, SID_GETCHANNELLIST,
      SID_FRIENDSLIST, SID_READUSERDATA, SID_WRITEUSERDATA, SID_NEWS_INFO, SID_QUERYREALMS2,
      SID_LOGONREALMEX, SID_NETGAMEPORT, SID_WARCRAFTGENERAL, SID_GETLADDERDATA,
      SID_FINDLADDERUSER}"
| "state_accepts Chatting = chat_accepted"
| "state_accepts InChannel = chat_accepted"
| "state_accepts Closing = {}"

definition accepts :: "session_state \<Rightarrow> u8 \<Rightarrow> bool" where
  "accepts s i \<longleftrightarrow> s \<noteq> Closing \<and> (i \<in> always_accepted \<or> i \<in> state_accepts s)"

definition next_on_success :: "session_state \<Rightarrow> u8 \<Rightarrow> session_state option" where
  "next_on_success s i =
     (case s of
        Connected \<Rightarrow> if i \<in> {SID_AUTH_INFO, SID_STARTVERSIONING} then Some Versioning else None
      | Versioning \<Rightarrow> if i \<in> {SID_AUTH_CHECK, SID_REPORTVERSION} then Some Authenticating else None
      | Authenticating \<Rightarrow>
          if i \<in> {SID_LOGONRESPONSE, SID_LOGONRESPONSE2, SID_AUTH_ACCOUNTLOGONPROOF}
          then Some LoggedIn else None
      | LoggedIn \<Rightarrow> if i = SID_ENTERCHAT then Some Chatting else None
      | Chatting \<Rightarrow> if i = SID_JOINCHANNEL then Some InChannel else None
      | _ \<Rightarrow> None)"

record deadlines =
  handshake_secs :: u64
  idle_secs :: u64
  relogin_cooldown_ms :: u64

definition default_deadlines :: deadlines where
  "default_deadlines = \<lparr>handshake_secs = 30, idle_secs = 1200, relogin_cooldown_ms = 500\<rparr>"

section \<open>The lifecycle only moves forward\<close>

text \<open>The stage of a state in the lifecycle; \<open>Closing\<close> is after every other.\<close>

fun stage :: "session_state \<Rightarrow> nat" where
  "stage Connected = 0"
| "stage Versioning = 1"
| "stage Authenticating = 2"
| "stage LoggedIn = 3"
| "stage Chatting = 4"
| "stage InChannel = 5"
| "stage Closing = 6"

lemma stage_inj: "stage s = stage t \<Longrightarrow> s = t"
  by (cases s; cases t) simp_all

lemma authenticated_stage: "authenticated s \<longleftrightarrow> 3 \<le> stage s \<and> stage s \<le> 5"
  by (cases s) (auto simp: authenticated_def)

lemma next_stage: "next_on_success s i = Some t \<Longrightarrow> stage t = Suc (stage s) \<and> s \<noteq> Closing \<and> t \<noteq> Closing"
  by (auto simp: next_on_success_def split: session_state.splits if_splits)

lemma next_accepted: "next_on_success s i = Some t \<Longrightarrow> accepts s i"
  by (auto simp: next_on_success_def accepts_def chat_accepted_def split: session_state.splits if_splits)

definition logon_ids :: "u8 set" where
  "logon_ids = {SID_LOGONRESPONSE, SID_LOGONRESPONSE2, SID_AUTH_ACCOUNTLOGONPROOF}"

lemma next_LoggedIn: "next_on_success s i = Some LoggedIn \<Longrightarrow> s = Authenticating \<and> i \<in> logon_ids"
  by (auto simp: next_on_success_def logon_ids_def split: session_state.splits if_splits)

lemma next_authenticated:
  "next_on_success s i = Some t \<Longrightarrow> authenticated t \<Longrightarrow> authenticated s \<or> t = LoggedIn"
  by (auto simp: next_on_success_def authenticated_def split: session_state.splits if_splits)

text \<open>The packets a peer can get handled before it has logged on.\<close>

definition pre_login_ids :: "u8 set" where
  "pre_login_ids = always_accepted \<union> state_accepts Connected \<union> state_accepts Versioning \<union>
     state_accepts Authenticating"

lemma accepts_pre_login: "accepts s i \<Longrightarrow> \<not> authenticated s \<Longrightarrow> i \<in> pre_login_ids"
  by (cases s) (auto simp: accepts_def authenticated_def pre_login_ids_def)

definition chat_ids :: "u8 set" where
  "chat_ids = {SID_JOINCHANNEL, SID_LEAVECHAT, SID_CHATCOMMAND, SID_GETADVLISTEX, SID_STARTADVEX3,
     SID_GAMERESULT, SID_NOTIFYJOIN, SID_LEAVEGAME}"

lemma accepts_chat_ids: "i \<in> chat_ids \<Longrightarrow> accepts s i \<Longrightarrow> s = Chatting \<or> s = InChannel"
  by (cases s) (auto simp: accepts_def always_accepted_def chat_ids_def chat_accepted_def sid_defs)

lemma write_user_data_authenticated: "accepts s SID_WRITEUSERDATA \<Longrightarrow> authenticated s"
  by (cases s) (auto simp: accepts_def always_accepted_def authenticated_def sid_defs)

section \<open>No shortcut to an authenticated session\<close>

text \<open>A session that handles a packet its state accepts, successfully, moves to the next state.\<close>

definition advance :: "session_state \<Rightarrow> u8 \<Rightarrow> session_state" where
  "advance s i = (if accepts s i then (case next_on_success s i of Some t \<Rightarrow> t | None \<Rightarrow> s) else s)"

lemma advance_cases: "advance s i = s \<or> next_on_success s i = Some (advance s i)"
  by (auto simp: advance_def split: option.splits)

definition opening_ids :: "u8 set" where "opening_ids = {SID_AUTH_INFO, SID_STARTVERSIONING}"
definition version_ids :: "u8 set" where "version_ids = {SID_AUTH_CHECK, SID_REPORTVERSION}"

text \<open>The packets that must have been handled, in order, for a state to be reached.\<close>

fun passed :: "session_state \<Rightarrow> u8 list \<Rightarrow> bool" where
  "passed Connected ids = True"
| "passed Closing ids = True"
| "passed Versioning ids = (\<exists>a xs ys. ids = xs @ a # ys \<and> a \<in> opening_ids)"
| "passed Authenticating ids =
     (\<exists>a b xs ys zs. ids = xs @ a # ys @ b # zs \<and> a \<in> opening_ids \<and> b \<in> version_ids)"
| "passed _ ids = (\<exists>a b c xs ys zs us. ids = xs @ a # ys @ b # zs @ c # us \<and>
     a \<in> opening_ids \<and> b \<in> version_ids \<and> c \<in> logon_ids)"

lemma passed_mono: "passed s ids \<Longrightarrow> passed s (ids @ [i])"
  by (cases s) (auto, (metis append_Cons append_assoc)+)

lemma passed_next:
  assumes "passed s ids" and "next_on_success s i = Some t"
  shows "passed t (ids @ [i])"
proof -
  consider "t = Versioning" "i \<in> opening_ids"
    | "s = Versioning" "t = Authenticating" "i \<in> version_ids"
    | "s = Authenticating" "t = LoggedIn" "i \<in> logon_ids"
    | "t = Chatting" "s = LoggedIn" | "t = InChannel" "s = Chatting"
    using assms(2)
    by (auto simp: next_on_success_def opening_ids_def version_ids_def logon_ids_def
        split: session_state.splits if_splits)
  then show ?thesis
  proof cases
    case 1
    then show ?thesis by auto
  next
    case 2
    with assms(1) show ?thesis by (auto, (metis append_Cons append_assoc)+)
  next
    case 3
    with assms(1) show ?thesis by (auto, (metis append_Cons append_assoc)+)
  next
    case 4
    with passed_mono [OF assms(1), of i] show ?thesis by simp
  next
    case 5
    with passed_mono [OF assms(1), of i] show ?thesis by simp
  qed
qed

lemma passed_run: "passed (fold (\<lambda>i s. advance s i) ids Connected) ids"
proof (induction ids rule: rev_induct)
  case (snoc i ids)
  then show ?case
    using advance_cases [of "fold (\<lambda>i s. advance s i) ids Connected" i] passed_mono passed_next
    by (metis fold_append fold_simps comp_apply)
qed simp

text \<open>C1
  There is no shortcut to an authenticated session. A session that starts connected and is now
  logged on, chatting or in a channel has handled, in this order, an opening packet, a version
  check and a logon packet, whatever other packets it was sent.
\<close>

theorem authenticated_passed_every_gate:
  assumes "authenticated (fold (\<lambda>i s. advance s i) ids Connected)"
  shows "\<exists>a b c xs ys zs us. ids = xs @ a # ys @ b # zs @ c # us \<and>
    a \<in> {SID_AUTH_INFO, SID_STARTVERSIONING} \<and> b \<in> {SID_AUTH_CHECK, SID_REPORTVERSION} \<and>
    c \<in> {SID_LOGONRESPONSE, SID_LOGONRESPONSE2, SID_AUTH_ACCOUNTLOGONPROOF}"
  using passed_run [of ids] assms
  by (auto simp: authenticated_def opening_ids_def version_ids_def logon_ids_def)

corollary authenticated_passed_every_gate_witness:
  "\<exists>a b c xs ys zs us.
    [SID_NULL, SID_AUTH_INFO, SID_AUTH_CHECK, SID_PING, SID_LOGONRESPONSE2] =
      xs @ a # ys @ b # zs @ c # us \<and>
    a \<in> {SID_AUTH_INFO, SID_STARTVERSIONING} \<and> b \<in> {SID_AUTH_CHECK, SID_REPORTVERSION} \<and>
    c \<in> {SID_LOGONRESPONSE, SID_LOGONRESPONSE2, SID_AUTH_ACCOUNTLOGONPROOF}"
  by (rule authenticated_passed_every_gate)
     (simp add: advance_def accepts_def next_on_success_def authenticated_def always_accepted_def
        sid_defs)

text \<open>
  What a session accepts follows its state: before the logon only advertising, keep-alive,
  version-check, account and file-transfer packets; joining a channel, chatting and advertising or
  reporting a game only after the session has entered chat; writing user data only once
  authenticated; nothing once it is closing. And a handled packet moves a session one stage
  forward in the lifecycle, or not at all.
\<close>

theorem session_gate:
  "(accepts s i \<and> \<not> authenticated s \<longrightarrow>
      i \<in> always_accepted \<union> state_accepts Connected \<union> state_accepts Versioning \<union>
          state_accepts Authenticating) \<and>
   (accepts s i \<and> i \<in> {SID_JOINCHANNEL, SID_LEAVECHAT, SID_CHATCOMMAND, SID_GETADVLISTEX,
      SID_STARTADVEX3, SID_GAMERESULT, SID_NOTIFYJOIN, SID_LEAVEGAME} \<longrightarrow>
      s = Chatting \<or> s = InChannel) \<and>
   (accepts s SID_WRITEUSERDATA \<longrightarrow> authenticated s) \<and> \<not> accepts Closing i \<and>
   (next_on_success s i = Some t \<longrightarrow> accepts s i \<and> stage t = stage s + 1)"
  using accepts_pre_login [of s i] accepts_chat_ids [of i s] write_user_data_authenticated [of s]
    next_accepted [of s i t] next_stage [of s i t]
  by (auto simp: pre_login_ids_def chat_ids_def accepts_def)

corollary session_gate_witness:
  "accepts Authenticating SID_LOGONRESPONSE2 \<and> stage LoggedIn = stage Authenticating + 1"
  using session_gate [of Authenticating SID_LOGONRESPONSE2 LoggedIn]
  by (simp add: next_on_success_def)

end
