(* ===== verification/Channel.thy ===== *)
theory Channel
  imports Proto_Types
begin

text \<open>
  \<open>bnetcc-core/src/channel.rs\<close>: a chat channel and its operator rules. A mutating method takes
  the channel and returns the new one; one that can refuse returns an outcome whose error leaves
  the channel as it was, as every refusal of the source does. The naming conventions that decide
  the operator grant are at the end.
\<close>

section \<open>Data\<close>

type_synonym account_id = u64

datatype channel_class = Local | Federated | Official

definition grants_first_operator :: "channel_class \<Rightarrow> bool" where
  "grants_first_operator k \<longleftrightarrow> k \<in> {Local, Federated}"

definition persists_when_empty :: "channel_class \<Rightarrow> bool" where
  "persists_when_empty k \<longleftrightarrow> k = Official"

text \<open>\<open>user_flags\<close> and \<open>channel_flags\<close> of \<open>bnetcc-proto/src/chat.rs\<close>, as far as they are used here.\<close>

definition UF_OPERATOR :: u32 where "UF_OPERATOR = 0x02"
definition CF_PUBLIC :: u32 where "CF_PUBLIC = 0x0001"
definition CF_SYSTEM :: u32 where "CF_SYSTEM = 0x0010"

record member =
  m_account :: account_id
  m_name :: bytes
  m_flags :: u32
  m_statstring :: bytes

datatype join_denial = JoinFull | JoinBanned | JoinRestricted | AlreadyPresent

record join_outcome =
  jo_granted_operator :: bool
  jo_flags :: u32

record leave_outcome =
  lo_new_operator :: "account_id option"
  lo_now_empty :: bool
  lo_should_destroy :: bool

definition leave_default :: leave_outcome where
  "leave_default = \<lparr>lo_new_operator = None, lo_now_empty = False, lo_should_destroy = False\<rparr>"

datatype op_error = NotOperator | NotPresent | CannotTargetSelf

datatype op_grant = GrantNone | FirstArrival | NameMatch bytes

record channel =
  ch_name :: bytes
  ch_display :: bytes
  ch_class :: channel_class
  ch_flags :: u32
  ch_max_users :: nat
  ch_members :: "member list"
  ch_operator :: "account_id option"
  ch_heirs :: "account_id list"
  ch_bans :: "account_id fset"
  ch_seq :: u64
  ch_op_grant :: op_grant
  ch_persist :: bool

section \<open>Operations\<close>

definition channel_new :: "bytes \<Rightarrow> bytes \<Rightarrow> channel_class \<Rightarrow> nat \<Rightarrow> channel" where
  "channel_new name display k max_users =
     \<lparr>ch_name = name, ch_display = display, ch_class = k,
      ch_flags = (if k = Official then CF_PUBLIC OR CF_SYSTEM else CF_PUBLIC),
      ch_max_users = max_users, ch_members = [], ch_operator = None, ch_heirs = [],
      ch_bans = {||}, ch_seq = 0,
      ch_op_grant = (if grants_first_operator k then FirstArrival else GrantNone),
      ch_persist = False\<rparr>"

definition set_op_grant :: "op_grant \<Rightarrow> channel \<Rightarrow> channel" where
  "set_op_grant g c = c\<lparr>ch_op_grant := g\<rparr>"

definition set_persist :: "bool \<Rightarrow> channel \<Rightarrow> channel" where
  "set_persist p c = c\<lparr>ch_persist := p\<rparr>"

definition is_operator :: "channel \<Rightarrow> account_id \<Rightarrow> bool" where
  "is_operator c a \<longleftrightarrow> ch_operator c = Some a"

definition is_banned :: "channel \<Rightarrow> account_id \<Rightarrow> bool" where
  "is_banned c a \<longleftrightarrow> a |\<in>| ch_bans c"

definition bump :: "channel \<Rightarrow> channel" where
  "bump c = c\<lparr>ch_seq := ch_seq c + 1\<rparr>"

definition position_by_account :: "channel \<Rightarrow> account_id \<Rightarrow> nat option" where
  "position_by_account c a = find_index (\<lambda>m. m_account m = a) (ch_members c)"

definition position_by_name :: "channel \<Rightarrow> bytes \<Rightarrow> nat option" where
  "position_by_name c n = find_index (\<lambda>m. eq_nocase (m_name m) n) (ch_members c)"

text \<open>\<open>str::rsplit_once\<close> with an ASCII separator.\<close>

definition rsplit_once :: "u8 \<Rightarrow> bytes \<Rightarrow> (bytes \<times> bytes) option" where
  "rsplit_once sep s =
     (case find_index (\<lambda>b. b = sep) (rev s) of
        None \<Rightarrow> None
      | Some k \<Rightarrow> Some (take (length s - Suc k) s, drop (length s - k) s))"

definition base_name :: "bytes \<Rightarrow> bytes" where
  "base_name name =
     (case rsplit_once 0x23 name of
        Some (base, suffix) \<Rightarrow> if suffix \<noteq> [] \<and> list_all is_digit suffix then base else name
      | None \<Rightarrow> name)"

definition join_grants :: "channel \<Rightarrow> bytes \<Rightarrow> bool" where
  "join_grants c name \<longleftrightarrow>
     ch_operator c = None \<and>
     (case ch_op_grant c of
        GrantNone \<Rightarrow> False
      | FirstArrival \<Rightarrow> ch_members c = []
      | NameMatch op_name \<Rightarrow> eq_nocase (base_name name) op_name)"

definition join :: "account_id \<Rightarrow> bytes \<Rightarrow> u32 \<Rightarrow> bytes \<Rightarrow> channel \<Rightarrow>
    (join_denial, join_outcome \<times> channel) outcome" where
  "join account name base_flags statstring c =
     (if is_banned c account then Err JoinBanned
      else if position_by_name c name \<noteq> None then Err AlreadyPresent
      else if ch_max_users c \<noteq> 0 \<and> length (ch_members c) \<ge> ch_max_users c then Err JoinFull
      else
        let granted = join_grants c name;
            flags = (if granted then base_flags OR UF_OPERATOR else base_flags AND NOT UF_OPERATOR);
            c = (if granted then c\<lparr>ch_operator := Some account\<rparr> else c);
            c = c\<lparr>ch_members := ch_members c @
                  [\<lparr>m_account = account, m_name = name, m_flags = flags, m_statstring = statstring\<rparr>]\<rparr>
        in Ok (\<lparr>jo_granted_operator = granted, jo_flags = flags\<rparr>, bump c))"

text \<open>
  \<open>remove_at\<close> is private and every caller passes the index a position lookup returned, so the
  index is in range.
\<close>

definition remove_at :: "nat \<Rightarrow> channel \<Rightarrow> leave_outcome \<times> channel" where
  "remove_at idx c =
     (let account = m_account (ch_members c ! idx);
          c = bump (c\<lparr>ch_members := remove_nth idx (ch_members c)\<rparr>);
          account_gone = (position_by_account c account = None);
          c = (if account_gone then c\<lparr>ch_heirs := filter (\<lambda>h. h \<noteq> account) (ch_heirs c)\<rparr> else c);
          empty = (ch_members c = []);
          out = \<lparr>lo_new_operator = None, lo_now_empty = empty,
                 lo_should_destroy = empty \<and> \<not> persists_when_empty (ch_class c) \<and> \<not> ch_persist c\<rparr>
      in if account_gone \<and> ch_operator c = Some account then
           let c = c\<lparr>ch_operator := None\<rparr> in
           (case find (\<lambda>h. position_by_account c h \<noteq> None) (ch_heirs c) of
              None \<Rightarrow> (out, c)
            | Some h \<Rightarrow>
                let c = c\<lparr>ch_operator := Some h\<rparr>;
                    c = (case position_by_account c h of
                           None \<Rightarrow> c
                         | Some pos \<Rightarrow> c\<lparr>ch_members := (ch_members c)[pos :=
                             (ch_members c ! pos)\<lparr>m_flags := m_flags (ch_members c ! pos) OR UF_OPERATOR\<rparr>]\<rparr>);
                    c = c\<lparr>ch_heirs := filter (\<lambda>x. x \<noteq> h) (ch_heirs c)\<rparr>
                in (out\<lparr>lo_new_operator := Some h\<rparr>, c))
         else (out, c))"

definition leave :: "bytes \<Rightarrow> channel \<Rightarrow> leave_outcome \<times> channel" where
  "leave name c =
     (case position_by_name c name of Some idx \<Rightarrow> remove_at idx c | None \<Rightarrow> (leave_default, c))"

definition leave_account :: "account_id \<Rightarrow> channel \<Rightarrow> leave_outcome \<times> channel" where
  "leave_account account c =
     (case position_by_account c account of
        Some idx \<Rightarrow> remove_at idx c | None \<Rightarrow> (leave_default, c))"

definition designate :: "account_id \<Rightarrow> account_id \<Rightarrow> channel \<Rightarrow> (op_error, channel) outcome" where
  "designate by_acct heir c =
     (if \<not> is_operator c by_acct then Err NotOperator
      else if by_acct = heir then Err CannotTargetSelf
      else if position_by_account c heir = None then Err NotPresent
      else Ok (bump (c\<lparr>ch_heirs := filter (\<lambda>h. h \<noteq> heir) (ch_heirs c) @ [heir]\<rparr>)))"

definition kick :: "account_id \<Rightarrow> account_id \<Rightarrow> channel \<Rightarrow>
    (op_error, leave_outcome \<times> channel) outcome" where
  "kick by_acct target c =
     (if \<not> is_operator c by_acct then Err NotOperator
      else if by_acct = target then Err CannotTargetSelf
      else if position_by_account c target = None then Err NotPresent
      else Ok (leave_account target c))"

definition ban :: "account_id \<Rightarrow> account_id \<Rightarrow> channel \<Rightarrow>
    (op_error, leave_outcome \<times> channel) outcome" where
  "ban by_acct target c =
     (if \<not> is_operator c by_acct then Err NotOperator
      else if by_acct = target then Err CannotTargetSelf
      else Ok (leave_account target (c\<lparr>ch_bans := finsert target (ch_bans c)\<rparr>)))"

definition unban :: "account_id \<Rightarrow> account_id \<Rightarrow> channel \<Rightarrow> (op_error, bool \<times> channel) outcome" where
  "unban by_acct target c =
     (if \<not> is_operator c by_acct then Err NotOperator
      else Ok (is_banned c target, c\<lparr>ch_bans := ch_bans c |-| {|target|}\<rparr>))"

definition kick_by_name :: "account_id \<Rightarrow> bytes \<Rightarrow> channel \<Rightarrow>
    (op_error, leave_outcome \<times> channel) outcome" where
  "kick_by_name by_acct target_name c =
     (if \<not> is_operator c by_acct then Err NotOperator
      else case position_by_name c target_name of
        None \<Rightarrow> Err NotPresent
      | Some idx \<Rightarrow>
          if m_account (ch_members c ! idx) = by_acct then Err CannotTargetSelf
          else Ok (remove_at idx c))"

definition ban_by_name :: "account_id \<Rightarrow> bytes \<Rightarrow> channel \<Rightarrow>
    (op_error, account_id \<times> leave_outcome \<times> channel) outcome" where
  "ban_by_name by_acct target_name c =
     (if \<not> is_operator c by_acct then Err NotOperator
      else case position_by_name c target_name of
        None \<Rightarrow> Err NotPresent
      | Some idx \<Rightarrow>
          let account = m_account (ch_members c ! idx) in
          if account = by_acct then Err CannotTargetSelf
          else Ok (account, remove_at idx (c\<lparr>ch_bans := finsert account (ch_bans c)\<rparr>)))"

definition designate_by_name :: "account_id \<Rightarrow> bytes \<Rightarrow> channel \<Rightarrow>
    (op_error, account_id \<times> channel) outcome" where
  "designate_by_name by_acct target_name c =
     (if \<not> is_operator c by_acct then Err NotOperator
      else case position_by_name c target_name of
        None \<Rightarrow> Err NotPresent
      | Some idx \<Rightarrow>
          let heir = m_account (ch_members c ! idx) in
          if heir = by_acct then Err CannotTargetSelf
          else if heir \<notin> set (ch_heirs c) then Ok (heir, bump (c\<lparr>ch_heirs := ch_heirs c @ [heir]\<rparr>))
          else Ok (heir, c))"

section \<open>Naming conventions\<close>

datatype name_kind = OpOrClan | PublicName | PrivateName

definition classify_name :: "bytes \<Rightarrow> name_kind" where
  "classify_name display =
     (let low = lowercase (trim display) in
      if starts_with low (ascii ''op '') \<or> starts_with low (ascii ''clan '') then OpOrClan
      else if starts_with low (ascii ''public'') then PublicName
      else PrivateName)"

text \<open>
  \<open>trimmed[..prefix.len()]\<close> is a string slice: it panics when the index is not the start of a
  character, that is when the byte there is a UTF-8 continuation byte. The loop over the two
  prefixes returns at the first that matches with a name left.
\<close>

definition str_prefix :: "nat \<Rightarrow> bytes \<Rightarrow> ('e, bytes) outcome" where
  "str_prefix n s = (if n < length s \<and> is_cont (s ! n) then Panic else slice 0 n s)"

fun designated_loop :: "bytes \<Rightarrow> bytes list \<Rightarrow> ('e, bytes option) outcome" where
  "designated_loop trimmed [] = Ok None"
| "designated_loop trimmed (prefix # ps) =
     (if length trimmed > length prefix then
        obind (str_prefix (length prefix) trimmed) (\<lambda>h.
        if eq_nocase h prefix then
          let name = trim (drop (length prefix) trimmed) in
          if name \<noteq> [] then Ok (Some name) else designated_loop trimmed ps
        else designated_loop trimmed ps)
      else designated_loop trimmed ps)"

definition designated_op_name :: "bytes \<Rightarrow> ('e, bytes option) outcome" where
  "designated_op_name display = designated_loop (trim display) [ascii ''op '', ascii ''clan '']"

definition op_grant_for_name :: "bytes \<Rightarrow> bool \<Rightarrow> ('e, op_grant) outcome" where
  "op_grant_for_name display auto_op_private =
     (case classify_name display of
        OpOrClan \<Rightarrow> obind (designated_op_name display) (\<lambda>n.
          Ok (case n of Some name \<Rightarrow> NameMatch name | None \<Rightarrow> GrantNone))
      | PublicName \<Rightarrow> Ok GrantNone
      | PrivateName \<Rightarrow> Ok (if auto_op_private then FirstArrival else GrantNone))"

definition gateway_may_join :: "bytes \<Rightarrow> bytes list \<Rightarrow> bool" where
  "gateway_may_join display extra \<longleftrightarrow>
     classify_name display = PublicName \<or>
     list_ex (\<lambda>c. lowercase (trim c) = lowercase (trim display)) extra"

end
