(* ===== verification/Channel_Inv.thy ===== *)
theory Channel_Inv
  imports Channel
begin

text \<open>
  What every channel operation keeps true, and what the operator rules guarantee over any
  sequence of operations.
\<close>

section \<open>Presence and positions\<close>

definition accounts :: "channel \<Rightarrow> account_id list" where
  "accounts c = map m_account (ch_members c)"

definition names :: "channel \<Rightarrow> bytes list" where
  "names c = map (\<lambda>m. lowercase (m_name m)) (ch_members c)"

abbreviation present :: "channel \<Rightarrow> account_id \<Rightarrow> bool" where
  "present c a \<equiv> a \<in> set (accounts c)"

lemma position_by_account_None [simp]: "position_by_account c a = None \<longleftrightarrow> \<not> present c a"
  by (auto simp: position_by_account_def find_index_None accounts_def)

lemma position_by_account_Some:
  "position_by_account c a = Some i \<Longrightarrow> i < length (ch_members c) \<and> m_account (ch_members c ! i) = a"
  by (auto simp: position_by_account_def dest: find_index_Some)

lemma position_by_name_None: "position_by_name c n = None \<longleftrightarrow> lowercase n \<notin> set (names c)"
  unfolding position_by_name_def find_index_None names_def eq_nocase_def
  by (simp add: image_iff) metis

lemma position_by_name_Some:
  "position_by_name c n = Some i \<Longrightarrow>
     i < length (ch_members c) \<and> eq_nocase (m_name (ch_members c ! i)) n"
  by (auto simp: position_by_name_def dest: find_index_Some)

text \<open>Access to the fields other operations leave alone.\<close>

lemma accounts_simps [simp]:
  "accounts (bump c) = accounts c"
  "accounts (c\<lparr>ch_heirs := hs\<rparr>) = accounts c"
  "accounts (c\<lparr>ch_operator := x\<rparr>) = accounts c"
  "accounts (c\<lparr>ch_bans := b\<rparr>) = accounts c"
  "accounts (c\<lparr>ch_members := ms\<rparr>) = map m_account ms"
  "accounts (set_op_grant g c) = accounts c"
  "accounts (set_persist p c) = accounts c"
  by (simp_all add: accounts_def bump_def set_op_grant_def set_persist_def)

lemma position_by_account_simps [simp]:
  "position_by_account (bump c) a = position_by_account c a"
  "position_by_account (c\<lparr>ch_heirs := hs\<rparr>) a = position_by_account c a"
  "position_by_account (c\<lparr>ch_operator := x\<rparr>) a = position_by_account c a"
  by (simp_all add: position_by_account_def bump_def)

lemma bump_simps [simp]:
  "ch_members (bump c) = ch_members c" "ch_operator (bump c) = ch_operator c"
  "ch_heirs (bump c) = ch_heirs c" "ch_bans (bump c) = ch_bans c"
  "ch_max_users (bump c) = ch_max_users c" "ch_op_grant (bump c) = ch_op_grant c"
  "ch_class (bump c) = ch_class c" "ch_persist (bump c) = ch_persist c"
  "ch_seq (bump c) = ch_seq c + 1"
  by (simp_all add: bump_def)

section \<open>The invariant\<close>

definition has_op_flag :: "member \<Rightarrow> bool" where
  "has_op_flag m \<longleftrightarrow> m_flags m AND UF_OPERATOR \<noteq> 0"

lemma op_flag_words:
  "(f OR UF_OPERATOR) AND UF_OPERATOR \<noteq> 0"
  "(f AND NOT UF_OPERATOR) AND UF_OPERATOR = 0"
proof -
  have "(f OR UF_OPERATOR) AND UF_OPERATOR = UF_OPERATOR"
    by (auto simp: bit_eq_iff bit_simps)
  then show "(f OR UF_OPERATOR) AND UF_OPERATOR \<noteq> 0" by (simp add: UF_OPERATOR_def)
  show "(f AND NOT UF_OPERATOR) AND UF_OPERATOR = 0"
    by (simp add: bit_eq_iff bit_simps)
qed

text \<open>
  Names are unique up to case; the operator is in the channel; heirs are in the channel, distinct,
  never the operator, and there are none without an operator; nobody but the operator shows the
  operator flag; a limited channel is within its limit.
\<close>

definition channel_inv :: "channel \<Rightarrow> bool" where
  "channel_inv c \<longleftrightarrow>
     distinct (names c) \<and>
     (\<forall>a. ch_operator c = Some a \<longrightarrow> present c a \<and> a \<notin> set (ch_heirs c)) \<and>
     (ch_operator c = None \<longrightarrow> ch_heirs c = []) \<and>
     set (ch_heirs c) \<subseteq> set (accounts c) \<and> distinct (ch_heirs c) \<and>
     (\<forall>m \<in> set (ch_members c). has_op_flag m \<longrightarrow> ch_operator c = Some (m_account m)) \<and>
     (ch_max_users c \<noteq> 0 \<longrightarrow> length (ch_members c) \<le> ch_max_users c)"

lemma channel_inv_new: "channel_inv (channel_new n d k m)"
  by (simp add: channel_inv_def channel_new_def names_def accounts_def)

lemma channel_inv_frame:
  assumes "ch_members c' = ch_members c" and "ch_operator c' = ch_operator c"
    and "ch_heirs c' = ch_heirs c" and "ch_max_users c' = ch_max_users c"
  shows "channel_inv c' = channel_inv c"
  using assms by (simp add: channel_inv_def names_def accounts_def)

lemma channel_inv_settings [simp]:
  "channel_inv (set_op_grant g c) = channel_inv c"
  "channel_inv (set_persist p c) = channel_inv c"
  "channel_inv (c\<lparr>ch_bans := b\<rparr>) = channel_inv c"
  "channel_inv (bump c) = channel_inv c"
  by (rule channel_inv_frame; simp add: set_op_grant_def set_persist_def)+

section \<open>Joining\<close>

lemma join_Ok:
  "join a n f st c = Ok (out, c') \<longleftrightarrow>
     \<not> is_banned c a \<and> lowercase n \<notin> set (names c) \<and>
     (ch_max_users c \<noteq> 0 \<longrightarrow> length (ch_members c) < ch_max_users c) \<and>
     jo_granted_operator out = join_grants c n \<and>
     jo_flags out = (if join_grants c n then f OR UF_OPERATOR else f AND NOT UF_OPERATOR) \<and>
     c' = bump (c\<lparr>ch_operator := (if join_grants c n then Some a else ch_operator c),
            ch_members := ch_members c @ [\<lparr>m_account = a, m_name = n, m_flags = jo_flags out,
              m_statstring = st\<rparr>]\<rparr>)"
  by (cases out; cases c)
     (auto simp: join_def Let_def position_by_name_None [symmetric] bump_def)

lemma channel_inv_join:
  assumes "channel_inv c" and "join a n f st c = Ok (out, c')"
  shows "channel_inv c'"
proof -
  from assms(2) have c': "c' = bump (c\<lparr>ch_operator := (if join_grants c n then Some a else ch_operator c),
            ch_members := ch_members c @ [\<lparr>m_account = a, m_name = n, m_flags = jo_flags out,
              m_statstring = st\<rparr>]\<rparr>)"
    and fresh: "lowercase n \<notin> set (names c)"
    and room: "ch_max_users c \<noteq> 0 \<Longrightarrow> length (ch_members c) < ch_max_users c"
    and flags: "jo_flags out = (if join_grants c n then f OR UF_OPERATOR else f AND NOT UF_OPERATOR)"
    by (auto simp: join_Ok)
  have grant: "join_grants c n \<Longrightarrow> ch_operator c = None" by (simp add: join_grants_def)
  have no_op: "ch_operator c = None \<Longrightarrow> \<forall>m \<in> set (ch_members c). \<not> has_op_flag m"
    using assms(1) by (auto simp: channel_inv_def)
  show ?thesis
  proof (cases "join_grants c n")
    case True
    with grant no_op assms(1) fresh room show ?thesis
      by (auto simp: c' channel_inv_def names_def accounts_def)
  next
    case False
    with assms(1) fresh room flags op_flag_words(2) show ?thesis
      by (auto simp: c' channel_inv_def names_def accounts_def has_op_flag_def)
  qed
qed

section \<open>Leaving\<close>

definition without :: "nat \<Rightarrow> channel \<Rightarrow> channel" where
  "without i c = bump (c\<lparr>ch_members := remove_nth i (ch_members c)\<rparr>)"

definition promote :: "account_id \<Rightarrow> channel \<Rightarrow> channel" where
  "promote h c = c\<lparr>ch_operator := Some h,
     ch_members := (case position_by_account c h of None \<Rightarrow> ch_members c
       | Some p \<Rightarrow> (ch_members c)[p := (ch_members c ! p)
           \<lparr>m_flags := m_flags (ch_members c ! p) OR UF_OPERATOR\<rparr>]),
     ch_heirs := filter (\<lambda>x. x \<noteq> h) (ch_heirs c)\<rparr>"

definition plain_leave :: "channel \<Rightarrow> leave_outcome" where
  "plain_leave c = \<lparr>lo_new_operator = None, lo_now_empty = (ch_members c = []),
     lo_should_destroy = (ch_members c = [] \<and> \<not> persists_when_empty (ch_class c) \<and> \<not> ch_persist c)\<rparr>"

lemma without_simps [simp]:
  "ch_operator (without i c) = ch_operator c" "ch_heirs (without i c) = ch_heirs c"
  "ch_max_users (without i c) = ch_max_users c" "ch_bans (without i c) = ch_bans c"
  "ch_class (without i c) = ch_class c" "ch_persist (without i c) = ch_persist c"
  "ch_members (without i c) = remove_nth i (ch_members c)"
  "ch_seq (without i c) = ch_seq c + 1" "ch_op_grant (without i c) = ch_op_grant c"
  by (simp_all add: without_def)

lemma accounts_without:
  "i < length (ch_members c) \<Longrightarrow>
     set (accounts c) = insert (m_account (ch_members c ! i)) (set (accounts (without i c)))"
  using set_conv_remove_nth [of i "accounts c"]
  by (simp add: accounts_def without_def map_remove_nth)

lemma names_without: "names (without i c) = remove_nth i (names c)"
  by (simp add: names_def map_remove_nth)

text \<open>
  The three ways a removal can go, under the invariant: another session of the account stays; the
  account is gone but was not the operator; the operator is gone, and the first heir takes over.
\<close>

lemma remove_at_unfold:
  "remove_at i c =
    (let a = m_account (ch_members c ! i); d = without i c;
         e = d\<lparr>ch_heirs := filter (\<lambda>h. h \<noteq> a) (ch_heirs d)\<rparr> in
     if present d a then (plain_leave d, d)
     else if ch_operator c \<noteq> Some a then (plain_leave d, e)
     else case find (present d) (ch_heirs e) of
       None \<Rightarrow> (plain_leave d, e\<lparr>ch_operator := None\<rparr>)
     | Some h \<Rightarrow> ((plain_leave d)\<lparr>lo_new_operator := Some h\<rparr>, promote h e))"
proof -
  have pres: "present d a \<longleftrightarrow> position_by_account d a \<noteq> None" for d a
    by simp
  show ?thesis
    unfolding pres remove_at_def without_def [symmetric]
    by (cases "position_by_account (without i c) (m_account (ch_members c ! i))";
        cases "ch_operator c = Some (m_account (ch_members c ! i))")
      (simp_all add: Let_def plain_leave_def promote_def del: position_by_account_None
        split: option.splits)
qed

lemma remove_at_eq:
  assumes inv: "channel_inv c" and i: "i < length (ch_members c)"
  defines "a \<equiv> m_account (ch_members c ! i)" and "d \<equiv> without i c"
  shows "remove_at i c =
    (if present d a then (plain_leave d, d)
     else if ch_operator c \<noteq> Some a then
       (plain_leave d, d\<lparr>ch_heirs := filter (\<lambda>h. h \<noteq> a) (ch_heirs c)\<rparr>)
     else case ch_heirs c of
       [] \<Rightarrow> (plain_leave d, d\<lparr>ch_operator := None\<rparr>)
     | h # hs \<Rightarrow> ((plain_leave d)\<lparr>lo_new_operator := Some h\<rparr>, promote h d))"
proof (cases "present d a \<or> ch_operator c \<noteq> Some a")
  case True
  then show ?thesis by (auto simp: remove_at_unfold Let_def a_def d_def)
next
  case False
  with inv have heirs: "a \<notin> set (ch_heirs c)" "set (ch_heirs c) \<subseteq> set (accounts c)"
    by (auto simp: channel_inv_def)
  then have filt: "filter (\<lambda>h. h \<noteq> a) (ch_heirs d) = ch_heirs d"
    by (auto simp: d_def intro: filter_True)
  have "set (ch_heirs c) \<subseteq> set (accounts d)"
    using heirs accounts_without [OF i] by (auto simp: a_def d_def)
  then have "find (present d) (ch_heirs c) = (case ch_heirs c of [] \<Rightarrow> None | h # hs \<Rightarrow> Some h)"
    by (cases "ch_heirs c") auto
  moreover have fd: "d\<lparr>ch_heirs := filter (\<lambda>h. h \<noteq> a) (ch_heirs d)\<rparr> = d" using filt by simp
  moreover have "ch_heirs d = ch_heirs c" by (simp add: d_def)
  ultimately show ?thesis
    using False unfolding remove_at_unfold Let_def a_def [symmetric] d_def [symmetric] fd
    by (cases "ch_heirs c") simp_all
qed

lemma accounts_promote [simp]: "accounts (promote h c) = accounts c"
  by (auto simp: accounts_def promote_def map_update split: option.splits
      intro!: list_update_same_conv [THEN iffD2] dest: position_by_account_Some)

lemma names_promote [simp]: "names (promote h c) = names c"
  by (auto simp: names_def promote_def map_update split: option.splits
      intro!: list_update_same_conv [THEN iffD2] dest: position_by_account_Some)

lemma promote_simps [simp]:
  "ch_operator (promote h c) = Some h" "ch_heirs (promote h c) = filter (\<lambda>x. x \<noteq> h) (ch_heirs c)"
  "length (ch_members (promote h c)) = length (ch_members c)"
  "ch_max_users (promote h c) = ch_max_users c" "ch_bans (promote h c) = ch_bans c"
  "ch_seq (promote h c) = ch_seq c" "ch_op_grant (promote h c) = ch_op_grant c"
  by (simp_all add: promote_def split: option.splits)

lemma set_members_promote:
  "m \<in> set (ch_members (promote h c)) \<Longrightarrow> m \<in> set (ch_members c) \<or> m_account m = h"
  by (auto simp: promote_def split: option.splits dest!: position_by_account_Some in_set_conv_nth [THEN iffD1])
     (auto simp: nth_list_update split: if_splits)

lemma channel_inv_remove_at:
  assumes inv: "channel_inv c" and i: "i < length (ch_members c)"
  shows "channel_inv (snd (remove_at i c))"
proof -
  define a where "a = m_account (ch_members c ! i)"
  define d where "d = without i c"
  have acc: "set (accounts c) = insert a (set (accounts d))"
    using accounts_without [OF i] by (simp add: a_def d_def)
  have names: "distinct (names d)"
    using inv by (simp add: d_def names_without channel_inv_def distinct_remove_nth)
  have mem: "set (ch_members d) \<subseteq> set (ch_members c)"
    by (simp add: d_def set_remove_nth)
  have len: "ch_max_users c \<noteq> 0 \<Longrightarrow> length (ch_members d) \<le> ch_max_users c"
    using inv i by (auto simp: d_def channel_inv_def length_remove_nth)
  have acct_mem: "m \<in> set (ch_members d) \<Longrightarrow> present d (m_account m)" for m
    by (simp add: accounts_def)
  note facts = inv acc names mem len
  consider (stays) "present d a"
    | (other) "\<not> present d a" "ch_operator c \<noteq> Some a"
    | (vacant) "\<not> present d a" "ch_operator c = Some a" "ch_heirs c = []"
    | (heir) h hs where "\<not> present d a" "ch_operator c = Some a" "ch_heirs c = h # hs"
    by (cases "ch_heirs c") auto
  then show ?thesis
  proof cases
    case stays
    then have "snd (remove_at i c) = d" by (simp add: remove_at_eq [OF inv i] a_def d_def)
    with facts stays show ?thesis
      by (auto simp: channel_inv_def d_def)
  next
    case other
    then have eq: "snd (remove_at i c) = d\<lparr>ch_heirs := filter (\<lambda>h. h \<noteq> a) (ch_heirs c)\<rparr>"
      by (simp add: remove_at_eq [OF inv i] a_def d_def)
    from facts other show ?thesis
      unfolding eq by (auto simp: channel_inv_def d_def names_def)
  next
    case vacant
    then have eq: "snd (remove_at i c) = d\<lparr>ch_operator := None\<rparr>"
      by (simp add: remove_at_eq [OF inv i] a_def d_def)
    from facts vacant acct_mem show ?thesis
      unfolding eq by (fastforce simp: channel_inv_def d_def names_def)
  next
    case heir
    then have eq: "snd (remove_at i c) = promote h d"
      by (simp add: remove_at_eq [OF inv i] a_def d_def)
    have hd: "ch_heirs d = h # hs" "ch_operator d = Some a" "ch_max_users d = ch_max_users c"
      using heir by (simp_all add: d_def)
    from inv heir have h: "h \<noteq> a" "a \<notin> set hs" "distinct (h # hs)" "set (h # hs) \<subseteq> set (accounts c)"
      by (auto simp: channel_inv_def)
    with acc have "set (h # hs) \<subseteq> set (accounts d)" by auto
    moreover have "has_op_flag m \<longrightarrow> m_account m = h" if "m \<in> set (ch_members (promote h d))" for m
      using set_members_promote [OF that] acct_mem [of m] mem inv heir
      by (auto simp: channel_inv_def)
    ultimately show ?thesis
      using h hd names len unfolding eq channel_inv_def by auto
  qed
qed


section \<open>Every operation\<close>

lemma channel_inv_leave_account: "channel_inv c \<Longrightarrow> channel_inv (snd (leave_account a c))"
  by (auto simp: leave_account_def channel_inv_remove_at dest: position_by_account_Some
      split: option.splits simp del: position_by_account_None)

lemma channel_inv_leave: "channel_inv c \<Longrightarrow> channel_inv (snd (leave n c))"
  by (auto simp: leave_def channel_inv_remove_at dest: position_by_name_Some split: option.splits)

lemma channel_inv_heirs:
  assumes "channel_inv c" and "is_operator c o1" and "h \<noteq> o1" and "present c h"
    and "set hs \<subseteq> set (ch_heirs c)" and "distinct hs" and "h \<notin> set hs"
  shows "channel_inv (c\<lparr>ch_heirs := hs @ [h]\<rparr>)"
  using assms by (auto simp: channel_inv_def is_operator_def names_def)

lemma channel_inv_distinct_heirs: "channel_inv c \<Longrightarrow> distinct (ch_heirs c)"
  by (simp add: channel_inv_def)

text \<open>
  The mutating calls of a channel's lifetime, as data, and what each leaves behind: a refused call
  leaves the channel as it was. \<open>Grant\<close> and \<open>Persist\<close> are the two settings its owner makes.
\<close>

datatype chan_op =
    Join account_id bytes u32 bytes
  | Leave bytes
  | LeaveAccount account_id
  | Designate account_id account_id
  | Kick account_id account_id
  | Ban account_id account_id
  | Unban account_id account_id
  | KickName account_id bytes
  | BanName account_id bytes
  | DesignateName account_id bytes
  | Grant op_grant
  | Persist bool

fun kept :: "channel \<Rightarrow> ('e, 'a) outcome \<Rightarrow> ('a \<Rightarrow> channel) \<Rightarrow> channel" where
  "kept c (Ok x) f = f x"
| "kept c (Err e) f = c"
| "kept c Panic f = c"

fun chan_exec :: "chan_op \<Rightarrow> channel \<Rightarrow> channel" where
  "chan_exec (Join a n f st) c = kept c (join a n f st c) snd"
| "chan_exec (Leave n) c = snd (leave n c)"
| "chan_exec (LeaveAccount a) c = snd (leave_account a c)"
| "chan_exec (Designate b h) c = kept c (designate b h c) id"
| "chan_exec (Kick b t) c = kept c (kick b t c) snd"
| "chan_exec (Ban b t) c = kept c (ban b t c) snd"
| "chan_exec (Unban b t) c = kept c (unban b t c) snd"
| "chan_exec (KickName b n) c = kept c (kick_by_name b n c) snd"
| "chan_exec (BanName b n) c = kept c (ban_by_name b n c) (\<lambda>r. snd (snd r))"
| "chan_exec (DesignateName b n) c = kept c (designate_by_name b n c) snd"
| "chan_exec (Grant g) c = set_op_grant g c"
| "chan_exec (Persist p) c = set_persist p c"

definition chan_run :: "chan_op list \<Rightarrow> channel \<Rightarrow> channel" where
  "chan_run ops c = fold chan_exec ops c"

lemma chan_run_simps [simp]:
  "chan_run [] c = c" "chan_run (x # ops) c = chan_run ops (chan_exec x c)"
  by (simp_all add: chan_run_def)

lemma chan_run_snoc: "chan_run (ops @ [x]) c = chan_exec x (chan_run ops c)"
  by (simp add: chan_run_def)

inductive reached :: "channel \<Rightarrow> bool" where
  reached_new: "reached (channel_new name display k limit)"
| reached_op: "reached c \<Longrightarrow> reached (chan_exec x c)"

lemma reached_run: "reached c \<Longrightarrow> reached (chan_run ops c)"
  by (induction ops arbitrary: c) (auto intro: reached_op)

lemma channel_inv_exec:
  assumes inv: "channel_inv c"
  shows "channel_inv (chan_exec x c)"
proof (cases x)
  case (Join a n f st)
  with inv channel_inv_join show ?thesis by (cases "join a n f st c") auto
next
  case (Leave n)
  with inv channel_inv_leave show ?thesis by simp
next
  case (LeaveAccount a)
  with inv channel_inv_leave_account show ?thesis by simp
next
  case (Designate b h)
  with inv show ?thesis by (auto simp: designate_def channel_inv_distinct_heirs intro!: channel_inv_heirs)
next
  case (Kick b t)
  with inv channel_inv_leave_account show ?thesis by (simp add: kick_def)
next
  case (Ban b t)
  with inv show ?thesis by (simp add: ban_def channel_inv_leave_account)
next
  case (Unban b t)
  with inv show ?thesis by (simp add: unban_def)
next
  case (KickName b n)
  with inv show ?thesis
    by (auto simp: kick_by_name_def channel_inv_remove_at dest: position_by_name_Some
        split: option.splits)
next
  case (BanName b n)
  with inv show ?thesis
    by (auto simp: ban_by_name_def Let_def channel_inv_remove_at dest: position_by_name_Some
        split: option.splits)
next
  case (DesignateName b n)
  show ?thesis
  proof (cases "position_by_name c n")
    case (Some i)
    then have "present c (m_account (ch_members c ! i))"
      by (auto simp: accounts_def dest!: position_by_name_Some)
    with inv DesignateName Some show ?thesis
      by (auto simp: designate_by_name_def Let_def channel_inv_distinct_heirs intro!: channel_inv_heirs)
  qed (use inv DesignateName in \<open>simp add: designate_by_name_def\<close>)
qed (use inv in simp_all)

lemma channel_inv_reached: "reached c \<Longrightarrow> channel_inv c"
  by (induction rule: reached.induct) (auto intro: channel_inv_new channel_inv_exec)

end
