(* ===== verification/Channel_Rules.thy ===== *)
theory Channel_Rules
  imports Channel_Inv
begin

text \<open>
  What the operator rules of \<open>bnetcc-core/src/channel.rs\<close> guarantee over whole histories of a
  channel: the invariant at every reachable channel, no operator by waiting for one to leave, bans
  that hold, succession, and the total behaviour of the naming conventions.
\<close>

section \<open>Removal leaves the settings alone\<close>

lemma remove_at_settings:
  "ch_bans (snd (remove_at i c)) = ch_bans c"
  "ch_op_grant (snd (remove_at i c)) = ch_op_grant c"
  "ch_operator c = None \<Longrightarrow> ch_operator (snd (remove_at i c)) = None"
  by (simp_all add: remove_at_unfold Let_def promote_def split: option.splits)

lemma leave_account_settings:
  "ch_bans (snd (leave_account a c)) = ch_bans c"
  "ch_op_grant (snd (leave_account a c)) = ch_op_grant c"
  "ch_operator c = None \<Longrightarrow> ch_operator (snd (leave_account a c)) = None"
  by (simp_all add: leave_account_def remove_at_settings split: option.splits)

lemma leave_settings:
  "ch_bans (snd (leave n c)) = ch_bans c"
  "ch_op_grant (snd (leave n c)) = ch_op_grant c"
  "ch_operator c = None \<Longrightarrow> ch_operator (snd (leave n c)) = None"
  by (simp_all add: leave_def remove_at_settings split: option.splits)

lemmas removal_settings = remove_at_settings leave_account_settings leave_settings

lemmas moderation_defs = designate_def kick_def ban_def unban_def kick_by_name_def ban_by_name_def
  designate_by_name_def

text \<open>The channel a call leaves behind, whichever branch it takes.\<close>

lemma kept_join:
  "kept c (join a n f st c) snd = c \<or>
   (\<exists>out c'. join a n f st c = Ok (out, c') \<and> kept c (join a n f st c) snd = c')"
  by (cases "join a n f st c") auto

lemma join_settings:
  assumes "join a n f st c = Ok (out, c')"
  shows "ch_bans c' = ch_bans c" and "ch_op_grant c' = ch_op_grant c"
    and "\<not> join_grants c n \<Longrightarrow> ch_operator c' = ch_operator c"
  using assms by (auto simp: join_Ok)

lemma kept_if: "kept c (if b then x else y) f = (if b then kept c x f else kept c y f)"
  by simp

lemma kept_option:
  "kept c (case z of None \<Rightarrow> x | Some i \<Rightarrow> y i) f =
     (case z of None \<Rightarrow> kept c x f | Some i \<Rightarrow> kept c (y i) f)"
  by (cases z) simp_all

lemmas exec_rules = moderation_defs Let_def kept_if kept_option removal_settings

section \<open>No operator by waiting\<close>

definition grants_by_name :: "op_grant \<Rightarrow> bool" where
  "grants_by_name g \<longleftrightarrow> (case g of NameMatch _ \<Rightarrow> True | _ \<Rightarrow> False)"

fun keeps_grant :: "chan_op \<Rightarrow> bool" where
  "keeps_grant (Grant g) = False"
| "keeps_grant _ = True"

lemma exec_keeps_grant: "keeps_grant x \<Longrightarrow> ch_op_grant (chan_exec x c) = ch_op_grant c"
proof (cases x)
  case (Join a n f st)
  then show ?thesis using kept_join [of c a n f st] join_settings(2) by fastforce
qed (simp_all add: exec_rules set_persist_def split: option.split)

lemma exec_stays_vacant:
  assumes "ch_operator c = None" and "ch_members c \<noteq> []" and "\<not> grants_by_name (ch_op_grant c)"
  shows "ch_operator (chan_exec x c) = None"
proof (cases x)
  case (Join a n f st)
  have "\<not> join_grants c n"
    using assms by (auto simp: join_grants_def grants_by_name_def split: op_grant.splits)
  with Join assms(1) kept_join [of c a n f st] join_settings(3) show ?thesis by fastforce
qed (use assms in \<open>simp_all add: moderation_defs is_operator_def removal_settings set_op_grant_def
  set_persist_def\<close>)

lemma run_stays_vacant:
  "ch_operator c = None \<Longrightarrow> \<not> grants_by_name (ch_op_grant c) \<Longrightarrow> list_all keeps_grant ops \<Longrightarrow>
   (\<forall>k < length ops. ch_members (chan_run (take k ops) c) \<noteq> []) \<Longrightarrow>
   ch_operator (chan_run ops c) = None"
proof (induction ops arbitrary: c)
  case (Cons x ops)
  from Cons.prems(4) have "ch_members c \<noteq> []" by force
  then have vacant: "ch_operator (chan_exec x c) = None"
    using Cons.prems exec_stays_vacant by blast
  have "\<forall>k < length ops. ch_members (chan_run (take k ops) (chan_exec x c)) \<noteq> []"
    using Cons.prems(4) by (metis Suc_mono chan_run_simps(2) length_Cons take_Suc_Cons)
  with Cons.IH [OF vacant] Cons.prems exec_keeps_grant show ?case by simp
qed simp

section \<open>Bans hold\<close>

fun unbans :: "account_id \<Rightarrow> chan_op \<Rightarrow> bool" where
  "unbans a (Unban b t) = (t = a)"
| "unbans a _ = False"

lemma exec_keeps_ban:
  assumes "is_banned c a" and "\<not> unbans a x"
  shows "is_banned (chan_exec x c) a"
proof (cases x)
  case (Join b n f st)
  with assms(1) kept_join [of c b n f st] join_settings(1) show ?thesis
    by (fastforce simp: is_banned_def)
qed (use assms in \<open>simp_all add: exec_rules is_banned_def set_persist_def set_op_grant_def
  split: option.split\<close>)

lemma run_keeps_ban:
  "is_banned c a \<Longrightarrow> list_all (\<lambda>x. \<not> unbans a x) ops \<Longrightarrow> is_banned (chan_run ops c) a"
  by (induction ops arbitrary: c) (auto simp: exec_keeps_ban)

section \<open>Naming conventions\<close>

text \<open>
  In well-formed UTF-8 an ASCII byte is a whole character, so the byte after it starts one. The
  fact survives cutting the string anywhere.
\<close>

definition ascii_whole :: "bytes \<Rightarrow> bool" where
  "ascii_whole s \<longleftrightarrow> (\<forall>i. Suc i < length s \<longrightarrow> s ! i < 0x80 \<longrightarrow> \<not> is_cont (s ! Suc i))"

lemma ascii_whole_cut:
  assumes "ascii_whole (xs @ s @ ys)"
  shows "ascii_whole s"
  unfolding ascii_whole_def
proof (intro allI impI)
  fix i assume i: "Suc i < length s" "s ! i < 0x80"
  from assms have *: "Suc (length xs + i) < length (xs @ s @ ys) \<longrightarrow>
      (xs @ s @ ys) ! (length xs + i) < 0x80 \<longrightarrow> \<not> is_cont ((xs @ s @ ys) ! Suc (length xs + i))"
    unfolding ascii_whole_def by blast
  have "(xs @ s @ ys) ! (length xs + k) = s ! k" if "k < length s" for k
    using that by (simp add: nth_append)
  from this [of i] this [of "Suc i"] i * show "\<not> is_cont (s ! Suc i)" by simp
qed

lemma ascii_whole_Cons:
  "ascii_whole (b # s) \<longleftrightarrow> (b < 0x80 \<longrightarrow> s \<noteq> [] \<longrightarrow> \<not> is_cont (hd s)) \<and> ascii_whole s"
  unfolding ascii_whole_def by (cases s) (auto simp: less_Suc_eq_0_disj)

lemma cont_not_ascii: "is_cont b \<Longrightarrow> \<not> b < 0x80"
  by (auto simp: is_cont_def)

lemma utf8_valid_hd: "utf8_valid s \<Longrightarrow> s \<noteq> [] \<Longrightarrow> \<not> is_cont (hd s)"
  by (cases s) (auto simp: is_cont_def word_le_nat_alt word_less_nat_alt split: if_splits)

lemma ascii_whole_cont: "is_cont b \<Longrightarrow> ascii_whole (b # s) = ascii_whole s"
  by (simp add: ascii_whole_Cons cont_not_ascii)

lemma utf8_ascii_whole: "utf8_valid s \<Longrightarrow> ascii_whole s"
proof (induction s rule: length_induct)
  case (1 s)
  show ?case
  proof (cases s)
    case (Cons b bs)
    consider "b < 0x80" | "\<not> b < 0x80" "0xC2 \<le> b \<and> b \<le> 0xDF"
      | "\<not> b < 0x80" "\<not> (0xC2 \<le> b \<and> b \<le> 0xDF)" "0xE0 \<le> b \<and> b \<le> 0xEF"
      | "\<not> b < 0x80" "\<not> (0xC2 \<le> b \<and> b \<le> 0xDF)" "\<not> (0xE0 \<le> b \<and> b \<le> 0xEF)"
        "0xF0 \<le> b \<and> b \<le> 0xF4"
      using 1(2) Cons by (simp only: utf8_valid.simps if_False) argo
    then show ?thesis
    proof cases
      case 1
      with \<open>utf8_valid s\<close> Cons have "utf8_valid bs" by simp
      with "1.IH" Cons utf8_valid_hd show ?thesis by (simp add: ascii_whole_Cons)
    next
      case 2
      with \<open>utf8_valid s\<close> Cons obtain c r where "bs = c # r" "is_cont c" "utf8_valid r"
        by (simp only: utf8_valid.simps if_False if_True simp_thms split: list.splits) blast?
      with "1.IH" Cons 2(1) show ?thesis by (simp add: ascii_whole_Cons cont_not_ascii)
    next
      case 3
      with \<open>utf8_valid s\<close> Cons obtain c d r where "bs = c # d # r" "is_cont c" "is_cont d" "utf8_valid r"
        by (simp only: utf8_valid.simps if_False if_True simp_thms split: list.splits) blast?
      with "1.IH" Cons 3(1) show ?thesis by (simp add: ascii_whole_Cons cont_not_ascii)
    next
      case 4
      with \<open>utf8_valid s\<close> Cons obtain c d e r
        where "bs = c # d # e # r" "is_cont c" "is_cont d" "is_cont e" "utf8_valid r"
        by (simp only: utf8_valid.simps if_False if_True simp_thms split: list.splits) blast?
      with "1.IH" Cons 4(1) show ?thesis by (simp add: ascii_whole_Cons cont_not_ascii)
    qed
  qed (simp add: ascii_whole_def)
qed

lemma strip_front_suffix: "\<exists>xs. s = xs @ strip_front ws s"
proof (induction ws s rule: strip_front.induct)
  case (2 ws b bs)
  show ?case
  proof (cases "lead_space ws (b # bs)")
    case (Suc k)
    with 2 obtain xs where "drop k bs = xs @ strip_front ws (drop k bs)" by blast
    moreover have "strip_front ws (b # bs) = strip_front ws (drop k bs)" using Suc by simp
    ultimately have "b # bs = (b # take k bs @ xs) @ strip_front ws (b # bs)"
      by (metis append_Cons append_assoc append_take_drop_id)
    then show ?thesis by blast
  qed simp
qed simp

lemma trim_cut: "\<exists>xs ys. s = xs @ trim s @ ys"
proof -
  obtain xs where 1: "s = xs @ strip_front white_space s" using strip_front_suffix by blast
  obtain ys where "rev (strip_front white_space s) =
      ys @ strip_front (map rev white_space) (rev (strip_front white_space s))"
    using strip_front_suffix by blast
  then have "strip_front white_space s = trim s @ rev ys"
    unfolding trim_def by (metis rev_append rev_rev_ident)
  with 1 show ?thesis by metis
qed

lemma ascii_whole_trim: "ascii_whole s \<Longrightarrow> ascii_whole (trim s)"
  using trim_cut [of s] ascii_whole_cut by metis

text \<open>A trimmed name has no trailing white space left to trim.\<close>

lemma lead_space_pos: "[] \<notin> set ws \<Longrightarrow> 0 < lead_space ws s \<longleftrightarrow> (\<exists>p \<in> set ws. starts_with s p)"
  by (auto simp: lead_space_def find_None_iff find_Some_iff starts_with_def split: option.splits
      dest: nth_mem)

lemma white_space_nonempty: "[] \<notin> set white_space" "[] \<notin> set (map rev white_space)"
  by (auto simp: white_space_def)

lemma lead_space_strip_front: "lead_space ws (strip_front ws s) = 0 \<or> strip_front ws s = []"
  by (induction ws s rule: strip_front.induct) (auto split: nat.splits)

lemma strip_front_empty:
  "strip_front ws s = [] \<Longrightarrow> s \<noteq> [] \<Longrightarrow> \<exists>p \<in> set ws. \<exists>r. s = r @ p"
proof (induction ws s rule: strip_front.induct)
  case (2 ws b bs)
  then obtain k where k: "lead_space ws (b # bs) = Suc k" by (cases "lead_space ws (b # bs)") auto
  with 2 have rest: "strip_front ws (drop k bs) = []" by simp
  from k obtain p where p: "p \<in> set ws" "starts_with (b # bs) p" "length p = Suc k"
    by (fastforce simp: lead_space_def find_Some_iff split: option.splits dest: nth_mem)
  show ?case
  proof (cases "drop k bs = []")
    case True
    with p(2,3) have "b # bs = [] @ p" by (simp add: starts_with_def)
    with p(1) show ?thesis by blast
  next
    case False
    with 2(1) k rest obtain q r where "q \<in> set ws" "drop k bs = r @ q" by blast
    then have "b # bs = (b # take k bs @ r) @ q" by (metis append_Cons append_assoc append_take_drop_id)
    with \<open>q \<in> set ws\<close> show ?thesis by blast
  qed
qed simp

lemma trim_tail:
  assumes "k < length (trim s)"
  shows "trim (drop k (trim s)) \<noteq> []"
proof
  define W where "W = map rev white_space"
  assume empty: "trim (drop k (trim s)) = []"
  have trimmed: "lead_space W (rev (trim s)) = 0"
    using lead_space_strip_front [of W "rev (strip_front white_space s)"] assms
    by (auto simp: trim_def W_def)
  define u where "u = strip_front white_space (drop k (trim s))"
  have "\<exists>p \<in> set white_space. \<exists>r. drop k (trim s) = r @ p"
  proof (cases "u = []")
    case True
    then show ?thesis using strip_front_empty [of white_space "drop k (trim s)"] assms
      by (simp add: u_def)
  next
    case False
    have "strip_front W (rev u) = []" using empty by (simp add: trim_def u_def W_def)
    with False have "lead_space W (rev u) \<noteq> 0"
      by (cases "rev u") (auto split: nat.splits)
    then obtain p where p: "p \<in> set white_space" "starts_with (rev u) (rev p)"
      using white_space_nonempty(2) by (auto simp: lead_space_pos W_def)
    then obtain r where "rev u = rev p @ r"
      by (metis append_take_drop_id starts_with_def)
    then have "u = rev r @ p" by (metis rev_append rev_rev_ident)
    moreover obtain xs where "drop k (trim s) = xs @ u" using strip_front_suffix u_def by blast
    ultimately show ?thesis using p(1) by (metis append_assoc)
  qed
  then obtain p r where "p \<in> set white_space" "trim s = take k (trim s) @ r @ p"
    by (metis append_take_drop_id)
  then have "starts_with (rev (trim s)) (rev p)" "rev p \<in> set W"
    by (metis append_eq_conv_conj append_assoc rev_append starts_with_def, simp add: W_def)
  with trimmed white_space_nonempty(2) show False by (metis W_def lead_space_pos less_numeral_extra(3))
qed

lemma lowercase_prefix:
  assumes "starts_with (lowercase t) (ascii p)" and "\<forall>b \<in> set (ascii p). b < 0x80"
    and "0 < k" and "k \<le> length (ascii p)"
  shows "k \<le> length t" and "t ! (k - 1) < 0x80"
proof -
  from assms(1) have len: "length (ascii p) \<le> length t"
    unfolding starts_with_def by (metis length_map length_take min.cobounded1 min_def)
  with assms(4) show "k \<le> length t" by simp
  have "lower (t ! (k - 1)) = ascii p ! (k - 1)"
    using arg_cong [OF assms(1) [unfolded starts_with_def], of "\<lambda>s. s ! (k - 1)"] assms(3,4) len
    by simp
  moreover have "ascii p ! (k - 1) < 0x80" using assms(2-4) by simp
  ultimately show "t ! (k - 1) < 0x80"
    by (auto simp: lower_def is_upper_def word_less_nat_alt word_le_nat_alt split: if_splits)
qed

lemma str_prefix_Ok:
  assumes "ascii_whole t" and "k < length t" and "0 < k" and "t ! (k - 1) < 0x80"
  shows "str_prefix k t = Ok (take k t)"
  using assms by (auto simp: str_prefix_def ascii_whole_def dest: spec [of _ "k - 1"])

text \<open>Below the two prefixes the string cannot be cut inside a character.\<close>

lemma op_prefix: "ascii ''op '' = [0x6F, 0x70, 0x20]" "ascii ''clan '' = [0x63, 0x6C, 0x61, 0x6E, 0x20]"
  by (simp_all add: ascii_def)

lemma op_length: "length (ascii ''op '') = 3" "length (ascii ''clan '') = 5"
  by (simp_all add: ascii_def)

lemma designated_op_name_ok:
  assumes "ascii_whole d" and "classify_name d = OpOrClan"
  shows "(designated_op_name d :: ('e, bytes option) outcome) \<noteq> Panic"
proof -
  let ?t = "trim d"
  have whole: "ascii_whole ?t" using assms(1) by (rule ascii_whole_trim)
  consider "starts_with (lowercase ?t) (ascii ''op '')" | "starts_with (lowercase ?t) (ascii ''clan '')"
    using assms(2) by (auto simp: classify_name_def Let_def split: if_splits)
  then show ?thesis
  proof cases
    case 1
    have "?t ! 2 < 0x80" using lowercase_prefix(2) [OF 1, of 3] by (simp add: op_prefix)
    with whole have "3 < length ?t \<Longrightarrow> (str_prefix 3 ?t :: ('e, bytes) outcome) = Ok (take 3 ?t)"
      by (simp add: str_prefix_Ok)
    moreover have "take 3 (lowercase ?t) = ascii ''op ''"
      using 1 by (simp add: starts_with_def ascii_def eval_nat_numeral)
    then have "eq_nocase (take 3 ?t) (ascii ''op '')"
      by (simp add: eq_nocase_def take_map op_prefix lower_def is_upper_def)
    moreover have "3 < length ?t \<Longrightarrow> trim (drop 3 ?t) \<noteq> []" by (rule trim_tail)
    ultimately show ?thesis
      by (simp add: designated_op_name_def op_length Let_def)
  next
    case 2
    have "?t ! 2 < 0x80" "?t ! 4 < 0x80"
      using lowercase_prefix(2) [OF 2, of 3] lowercase_prefix(2) [OF 2, of 5] by (simp_all add: op_prefix)
    with whole have "3 < length ?t \<Longrightarrow> (str_prefix 3 ?t :: ('e, bytes) outcome) = Ok (take 3 ?t)"
      "5 < length ?t \<Longrightarrow> (str_prefix 5 ?t :: ('e, bytes) outcome) = Ok (take 5 ?t)"
      by (simp_all add: str_prefix_Ok)
    then show ?thesis by (auto simp: designated_op_name_def op_length Let_def)
  qed
qed

lemma op_grant_ok: "ascii_whole d \<Longrightarrow> op_grant_for_name d auto_op \<noteq> Panic"
  using designated_op_name_ok [of d]
  by (auto simp: op_grant_for_name_def obind_Panic_conv split: name_kind.splits option.splits)

section \<open>Succession\<close>

lemma accounts_once:
  assumes "i < length (ch_members c)" and "m_account (ch_members c ! i) = a"
  shows "present (without i c) a \<longleftrightarrow> count_list (accounts c) a \<noteq> 1"
proof -
  have i: "i < length (accounts c)" "accounts c ! i = a" using assms by (simp_all add: accounts_def)
  have "accounts c = take i (accounts c) @ a # drop (Suc i) (accounts c)"
    using id_take_nth_drop [OF i(1)] i(2) by simp
  then have "count_list (accounts c) a =
      count_list (take i (accounts c)) a + Suc (count_list (drop (Suc i) (accounts c)) a)"
    by (metis count_list.simps(2) count_list_append add_Suc_right Suc_eq_plus1)
  then have "count_list (accounts c) a = Suc (count_list (remove_nth i (accounts c)) a)"
    by (simp add: remove_nth_def)
  then have "a \<in> set (remove_nth i (accounts c)) \<longleftrightarrow> count_list (accounts c) a \<noteq> 1"
    by (simp add: count_list_0_iff)
  then show ?thesis by (simp add: without_def accounts_def map_remove_nth)
qed

lemma promote_shows_flag:
  assumes "present c h"
  shows "\<exists>m \<in> set (ch_members (promote h c)). m_account m = h \<and> has_op_flag m"
proof -
  from assms obtain p where p: "position_by_account c h = Some p"
    using position_by_account_None [of c h] by blast
  from position_by_account_Some [OF p] have "p < length (ch_members c)" "m_account (ch_members c ! p) = h"
    by simp_all
  with p show ?thesis
    by (auto simp: promote_def has_op_flag_def UF_OPERATOR_def intro!: bexI [of _
          "(ch_members c ! p)\<lparr>m_flags := m_flags (ch_members c ! p) OR UF_OPERATOR\<rparr>"] set_update_memI)
qed

lemma remove_operator:
  assumes inv: "channel_inv c" and op: "ch_operator c = Some a"
    and i: "i < length (ch_members c)" "m_account (ch_members c ! i) = a"
    and once: "count_list (accounts c) a = 1" and left: "remove_at i c = (out, c')"
  shows "ch_operator c' = (case ch_heirs c of [] \<Rightarrow> None | h # _ \<Rightarrow> Some h)"
    and "lo_new_operator out = ch_operator c'" and "ch_heirs c' = tl (ch_heirs c)"
    and "ch_operator c' = Some h \<Longrightarrow> \<exists>m \<in> set (ch_members c'). m_account m = h \<and> has_op_flag m"
proof -
  have gone: "\<not> present (without i c) a" using accounts_once [OF i] once by blast
  have heirs: "distinct (ch_heirs c)" "set (ch_heirs c) \<subseteq> set (accounts c)" "a \<notin> set (ch_heirs c)"
    using inv op by (auto simp: channel_inv_def)
  have eq: "(out, c') = (case ch_heirs c of
       [] \<Rightarrow> (plain_leave (without i c), (without i c)\<lparr>ch_operator := None\<rparr>)
     | h # hs \<Rightarrow> ((plain_leave (without i c))\<lparr>lo_new_operator := Some h\<rparr>, promote h (without i c)))"
    using left remove_at_eq [OF inv i(1)] i(2) gone op by simp
  from eq heirs(1) show "ch_operator c' = (case ch_heirs c of [] \<Rightarrow> None | h # _ \<Rightarrow> Some h)"
    "lo_new_operator out = ch_operator c'" "ch_heirs c' = tl (ch_heirs c)"
    by (auto simp: plain_leave_def filter_id_conv split: list.splits)
  assume h: "ch_operator c' = Some h"
  then obtain hs where hs: "ch_heirs c = h # hs" "c' = promote h (without i c)"
    using eq by (auto split: list.splits)
  with heirs i accounts_without [of i c] have "present (without i c) h" by auto
  with hs(2) promote_shows_flag show "\<exists>m \<in> set (ch_members c'). m_account m = h \<and> has_op_flag m"
    by simp
qed

lemma remove_other:
  assumes inv: "channel_inv c" and i: "i < length (ch_members c)" "m_account (ch_members c ! i) = a"
    and other: "ch_operator c \<noteq> Some a \<or> count_list (accounts c) a \<noteq> 1"
    and left: "remove_at i c = (out, c')"
  shows "ch_operator c' = ch_operator c" and "lo_new_operator out = None"
    and "ch_members c' = remove_nth i (ch_members c)"
    and "ch_heirs c' = filter (\<lambda>h. h \<noteq> a \<or> count_list (accounts c) a \<noteq> 1) (ch_heirs c)"
  using left remove_at_eq [OF inv i(1)] accounts_once [OF i] other i(2)
  by (auto simp: plain_leave_def without_def bump_def intro: filter_True [symmetric] split: if_splits)

text \<open>The session a name stands for.\<close>

lemma position_of_member:
  assumes "channel_inv c" and "m \<in> set (ch_members c)" and "eq_nocase (m_name m) name"
  obtains i where "position_by_name c name = Some i" and "i < length (ch_members c)" and "ch_members c ! i = m"
proof -
  have apart: "distinct (map (\<lambda>m. lowercase (m_name m)) (ch_members c))"
    using assms(1) by (simp add: channel_inv_def names_def)
  obtain i where i: "i < length (ch_members c)" "ch_members c ! i = m"
    using assms(2) by (auto simp: in_set_conv_nth)
  have "\<not> eq_nocase (m_name (ch_members c ! j)) name" if "j < i" for j
  proof
    assume "eq_nocase (m_name (ch_members c ! j)) name"
    then have "map (\<lambda>m. lowercase (m_name m)) (ch_members c) ! j = map (\<lambda>m. lowercase (m_name m)) (ch_members c) ! i"
      using that i assms(3) by (simp add: eq_nocase_def)
    with apart that i show False by (simp add: nth_eq_iff_index_eq del: nth_map)
  qed
  with i assms(3) have "position_by_name c name = Some i"
    by (simp add: position_by_name_def find_index_Some_iff)
  with i that show thesis by blast
qed

section \<open>Properties\<close>

text \<open>C4
  Whatever calls a channel of a given name, class and limit has served, refused ones included: no
  two sessions in it share a name up to ASCII case; its operator, if it has one, is in it; every
  designated heir is in it, once, and is not the operator; only a session of the operator's
  account shows the operator flag to the other users; and a limited channel holds no more sessions
  than its limit.
\<close>

theorem reached_channel_sound:
  assumes "reached c"
  shows "distinct (map (\<lambda>m. lowercase (m_name m)) (ch_members c)) \<and>
    (\<forall>a. ch_operator c = Some a \<longrightarrow>
       a \<in> m_account ` set (ch_members c) \<and> a \<notin> set (ch_heirs c)) \<and>
    set (ch_heirs c) \<subseteq> m_account ` set (ch_members c) \<and> distinct (ch_heirs c) \<and>
    (\<forall>m \<in> set (ch_members c). m_flags m AND UF_OPERATOR \<noteq> 0 \<longrightarrow>
       ch_operator c = Some (m_account m)) \<and>
    (ch_max_users c \<noteq> 0 \<longrightarrow> length (ch_members c) \<le> ch_max_users c)"
  using channel_inv_reached [OF assms]
  by (simp add: channel_inv_def names_def accounts_def has_op_flag_def)

definition demo_channel :: channel where
  "demo_channel = chan_exec (Join 2 (ascii ''bob'') 0 [])
     (chan_exec (Join 1 (ascii ''al'') 0 []) (channel_new [] [] Local 40))"

lemma demo_reached: "reached demo_channel"
  unfolding demo_channel_def by (intro reached_op reached_new)

lemma demo_members: "map m_account (ch_members demo_channel) = [1, 2]"
  "ch_operator demo_channel = Some 1" "ch_max_users demo_channel = 40"
  "ch_bans demo_channel = {||}" "ch_heirs demo_channel = []" "ch_op_grant demo_channel = FirstArrival"
  by code_simp+

corollary reached_channel_sound_witness: "length (ch_members demo_channel) \<le> 40"
  using reached_channel_sound [OF demo_reached] by (simp add: demo_members)

text \<open>C5
  The operator flag of an open channel cannot be obtained by waiting. In a channel with no operator,
  whose grant is not by name, no sequence of joins, leaves and moderation calls during which the
  channel never empties gives anybody the operator position.
\<close>

theorem no_operator_by_waiting:
  assumes "ch_operator c = None" and "\<not> grants_by_name (ch_op_grant c)"
    and "list_all keeps_grant ops"
    and "\<forall>k < length ops. ch_members (chan_run (take k ops) c) \<noteq> []"
  shows "ch_operator (chan_run ops c) = None"
  using run_stays_vacant assms by blast

definition vacant_channel :: channel where
  "vacant_channel = chan_exec (Join 3 (ascii ''c'') 0 []) (chan_exec (LeaveAccount 1) demo_channel)"

corollary no_operator_by_waiting_witness:
  "ch_operator (chan_run [Leave (ascii ''bob''), Join 2 (ascii ''bob'') 0 []] vacant_channel) = None"
proof (rule no_operator_by_waiting)
  let ?ops = "[Leave (ascii ''bob''), Join 2 (ascii ''bob'') 0 []]"
  show "ch_operator vacant_channel = None" by code_simp
  show "\<not> grants_by_name (ch_op_grant vacant_channel)" by code_simp
  show "list_all keeps_grant ?ops" by simp
  have "ch_members (chan_run (take 0 ?ops) vacant_channel) \<noteq> []"
    "ch_members (chan_run (take 1 ?ops) vacant_channel) \<noteq> []" by code_simp+
  then show "\<forall>k < length ?ops. ch_members (chan_run (take k ?ops) vacant_channel) \<noteq> []"
    by (metis One_nat_def length_Cons less_Suc0 less_Suc_eq list.size(3))
qed

text \<open>C6
  A ban holds until it is lifted. Once the operator has banned an account, after any sequence of
  calls in which nobody unbans that account every attempt of it to join is refused as banned,
  under any name.
\<close>

theorem ban_holds:
  assumes "ban by_acct target c = Ok (out, c')"
    and "list_all (\<lambda>x. \<not> unbans target x) ops"
  shows "join target name flags statstring (chan_run ops c') = Err JoinBanned"
proof -
  have "is_banned c' target"
    using assms(1) by (auto simp: ban_def is_banned_def leave_account_settings
        dest!: sym [of _ "(out, c')"] arg_cong [of _ _ snd] split: if_splits)
  with assms(2) run_keeps_ban show ?thesis by (simp add: join_def)
qed

corollary ban_holds_witness:
  "join 2 (ascii ''bob'') 0 [] (chan_run [Leave (ascii ''al'')]
     (snd (case ban 1 2 demo_channel of Ok r \<Rightarrow> r))) = Err JoinBanned"
proof (rule ban_holds [of 1 2 demo_channel])
  show "ban 1 2 demo_channel = Ok (fst (case ban 1 2 demo_channel of Ok r \<Rightarrow> r),
      snd (case ban 1 2 demo_channel of Ok r \<Rightarrow> r))"
    by (simp add: ban_def is_operator_def demo_members)
qed simp

text \<open>C7
  Succession. When the session with a given name leaves a reachable channel and it was the last
  session of the operator's account, the first designated heir becomes the operator, is reported as
  such and shows the operator flag, and the other heirs keep their order; with no heir the channel
  has no operator. When any other session leaves, the operator stays and nobody new is reported;
  an account that is gone with it is an heir no more.
\<close>

theorem succession:
  assumes "reached c" and "m \<in> set (ch_members c)" and "eq_nocase (m_name m) name"
    and "leave name c = (out, c')"
  shows "if ch_operator c = Some (m_account m) \<and> count_list (map m_account (ch_members c)) (m_account m) = 1
    then ch_operator c' = (case ch_heirs c of [] \<Rightarrow> None | h # _ \<Rightarrow> Some h) \<and>
      lo_new_operator out = ch_operator c' \<and> ch_heirs c' = tl (ch_heirs c) \<and>
      (\<forall>h. ch_operator c' = Some h \<longrightarrow>
         (\<exists>m \<in> set (ch_members c'). m_account m = h \<and> m_flags m AND UF_OPERATOR \<noteq> 0))
    else ch_operator c' = ch_operator c \<and> lo_new_operator out = None \<and>
      ch_heirs c' = filter (\<lambda>h. h \<noteq> m_account m \<or> count_list (map m_account (ch_members c)) (m_account m) \<noteq> 1)
        (ch_heirs c)"
proof -
  note inv = channel_inv_reached [OF assms(1)]
  obtain i where i: "position_by_name c name = Some i" "i < length (ch_members c)" "ch_members c ! i = m"
    using position_of_member [OF inv assms(2,3)] .
  then have left: "remove_at i c = (out, c')" using assms(4) by (simp add: leave_def)
  have acct: "m_account (ch_members c ! i) = m_account m" using i(3) by simp
  from remove_operator [OF inv _ i(2) acct _ left] remove_other [OF inv i(2) acct _ left] show ?thesis
    by (auto simp: accounts_def has_op_flag_def)
qed

corollary succession_witness:
  "ch_operator (snd (leave (ascii ''AL'') (chan_exec (Designate 1 2) demo_channel))) = Some 2"
proof -
  let ?c = "chan_exec (Designate 1 2) demo_channel"
  have m: "ch_members ?c = ch_members demo_channel" "ch_heirs ?c = [2]" "ch_operator ?c = Some 1"
    "map m_account (ch_members ?c) = [1, 2]" "map m_name (ch_members ?c) = [ascii ''al'', ascii ''bob'']"
    by code_simp+
  then have "hd (ch_members ?c) \<in> set (ch_members ?c)" "m_account (hd (ch_members ?c)) = 1"
    "m_name (hd (ch_members ?c)) = ascii ''al''"
    by (cases "ch_members ?c"; simp)+
  moreover have "eq_nocase (ascii ''al'') (ascii ''AL'')" by code_simp
  ultimately show ?thesis
    using succession [OF reached_op [OF demo_reached], of "hd (ch_members ?c)" "Designate 1 2" "ascii ''AL''"
        "fst (leave (ascii ''AL'') ?c)" "snd (leave (ascii ''AL'') ?c)"] m
    by simp
qed

text \<open>
  Choosing the operator grant of a channel from its name never panics: the one place that cuts the
  display name at a fixed byte is reached only for names that begin with an ASCII prefix, and
  there the cut falls between two characters of any UTF-8 string.
\<close>

theorem op_grant_for_name_total:
  assumes "utf8_valid display"
  shows "op_grant_for_name display auto_op \<noteq> Panic"
  using op_grant_ok [OF utf8_ascii_whole [OF assms]] .

corollary op_grant_for_name_total_witness:
  "op_grant_for_name [0x4F, 0x70, 0x20, 0xC3, 0xA9] True \<noteq> Panic"
  by (rule op_grant_for_name_total) (simp add: is_cont_def)

end
