(* ===== verification/Policy.thy ===== *)
theory Policy
  imports Proto_Types
begin

text \<open>
  \<open>bnetcc-core/src/policy.rs\<close>: the server policy, what each mode permits, connection limits per
  client class, and the narrowing of a hub's policy by a node's. \<open>ClientClass\<close> of \<open>limits.rs\<close> is
  here because the policy is keyed by it.
\<close>

section \<open>Modes and gates\<close>

datatype server_mode = Gaming | Warnet | Both

definition mode_parse :: "bytes \<Rightarrow> (bytes, server_mode) outcome" where
  "mode_parse s =
     (let t = lowercase (trim s) in
      if t = ascii ''gaming'' then Ok Gaming
      else if t = ascii ''warnet'' then Ok Warnet
      else if t = ascii ''both'' then Ok Both
      else Err s)"

fun mode_as_str :: "server_mode \<Rightarrow> bytes" where
  "mode_as_str Gaming = ascii ''gaming''"
| "mode_as_str Warnet = ascii ''warnet''"
| "mode_as_str Both = ascii ''both''"

datatype gate = Allow | Refuse

definition allowed :: "gate \<Rightarrow> bool" where
  "allowed g \<longleftrightarrow> g = Allow"

datatype chat_ordering = LocalFirst | HubSerialized

section \<open>Connection limits\<close>

record conn_limits =
  per_ip :: u32
  per_account :: u32
  global :: u32

definition cl_min :: "conn_limits \<Rightarrow> conn_limits \<Rightarrow> conn_limits" where
  "cl_min a b =
     \<lparr>per_ip = (if per_ip a < per_ip b then per_ip a else per_ip b),
      per_account = (if per_account a < per_account b then per_account a else per_account b),
      global = (if global a < global b then global a else global b)\<rparr>"

record conn_limits_patch =
  p_per_ip :: "u32 option"
  p_per_account :: "u32 option"
  p_global :: "u32 option"

definition patch_apply :: "conn_limits_patch \<Rightarrow> conn_limits \<Rightarrow> conn_limits" where
  "patch_apply p base =
     \<lparr>per_ip = (case p_per_ip p of Some v \<Rightarrow> v | None \<Rightarrow> per_ip base),
      per_account = (case p_per_account p of Some v \<Rightarrow> v | None \<Rightarrow> per_account base),
      global = (case p_global p of Some v \<Rightarrow> v | None \<Rightarrow> global base)\<rparr>"

datatype client_class = GatewayClient | BnftpClient | GamePending | GameClient four_cc

record client_limits =
  l_gateway :: conn_limits
  l_bnftp :: conn_limits
  l_game_pending :: conn_limits
  l_game_default :: conn_limits
  l_products :: "(four_cc, conn_limits) fmap"

definition product_limits :: "client_limits \<Rightarrow> four_cc \<Rightarrow> conn_limits" where
  "product_limits l p = (case fmlookup (l_products l) p of Some c \<Rightarrow> c | None \<Rightarrow> l_game_default l)"

fun for_class :: "client_limits \<Rightarrow> client_class \<Rightarrow> conn_limits" where
  "for_class l GatewayClient = l_gateway l"
| "for_class l BnftpClient = l_bnftp l"
| "for_class l GamePending = l_game_pending l"
| "for_class l (GameClient p) = product_limits l p"

definition set_product :: "four_cc \<Rightarrow> conn_limits \<Rightarrow> client_limits \<Rightarrow> client_limits" where
  "set_product p c l = l\<lparr>l_products := fmupd p c (l_products l)\<rparr>"

definition patch_product :: "four_cc \<Rightarrow> conn_limits_patch \<Rightarrow> client_limits \<Rightarrow> client_limits" where
  "patch_product p patch l =
     (let base = for_class l (GameClient p) in
      l\<lparr>l_products := fmupd p (patch_apply patch base) (l_products l)\<rparr>)"

text \<open>The result has the keys of both maps, each with the smaller of the two limits in force.\<close>

definition limits_narrowed_by :: "client_limits \<Rightarrow> client_limits \<Rightarrow> client_limits" where
  "limits_narrowed_by a b =
     \<lparr>l_gateway = cl_min (l_gateway a) (l_gateway b),
      l_bnftp = cl_min (l_bnftp a) (l_bnftp b),
      l_game_pending = cl_min (l_game_pending a) (l_game_pending b),
      l_game_default = cl_min (l_game_default a) (l_game_default b),
      l_products = fmmap_keys (\<lambda>k _. cl_min (product_limits a k) (product_limits b k))
        (l_products a ++\<^sub>f l_products b)\<rparr>"

section \<open>The policy\<close>

datatype flood_penalty = DropMessage | Mute u32 | Disconnect

record flood_policy =
  messages_per_10s :: u32
  burst :: u32
  penalty :: flood_penalty

record policy =
  mode :: server_mode
  game_hosting :: gate
  game_listing :: gate
  realms :: gate
  w3_routing :: gate
  chat_ordering_of :: chat_ordering
  clients :: client_limits
  game_flood :: flood_policy
  gateway_flood :: flood_policy

definition for_mode :: "server_mode \<Rightarrow> policy" where
  "for_mode m =
     (let game_default = \<lparr>per_ip = 8, per_account = 2, global = 4096\<rparr>;
          gateway = \<lparr>per_ip = 1, per_account = 1,
            global = (case m of Gaming \<Rightarrow> 256 | Warnet \<Rightarrow> 2048 | Both \<Rightarrow> 1024)\<rparr>;
          cl = \<lparr>l_gateway = gateway,
            l_bnftp = \<lparr>per_ip = 4, per_account = 4, global = 512\<rparr>,
            l_game_pending = \<lparr>per_ip = 16, per_account = - 1, global = 8192\<rparr>,
            l_game_default = game_default, l_products = fmempty\<rparr>;
          g = (case m of Warnet \<Rightarrow> Refuse | _ \<Rightarrow> Allow);
          ordering = (case m of Warnet \<Rightarrow> HubSerialized | _ \<Rightarrow> LocalFirst)
      in \<lparr>mode = m, game_hosting = g, game_listing = g, realms = g, w3_routing = g,
          chat_ordering_of = ordering, clients = cl,
          game_flood = \<lparr>messages_per_10s = 12, burst = 5, penalty = Mute 30\<rparr>,
          gateway_flood =
            \<lparr>messages_per_10s = (case m of Gaming \<Rightarrow> 60 | Warnet \<Rightarrow> 200 | Both \<Rightarrow> 120),
             burst = (case m of Gaming \<Rightarrow> 20 | Warnet \<Rightarrow> 60 | Both \<Rightarrow> 40), penalty = DropMessage\<rparr>\<rparr>)"

definition gate_and :: "gate \<Rightarrow> gate \<Rightarrow> gate" where
  "gate_and a b = (if allowed a \<and> allowed b then Allow else Refuse)"

definition narrowed_by :: "policy \<Rightarrow> policy \<Rightarrow> policy" where
  "narrowed_by hub node =
     \<lparr>mode = mode hub,
      game_hosting = gate_and (game_hosting hub) (game_hosting node),
      game_listing = gate_and (game_listing hub) (game_listing node),
      realms = gate_and (realms hub) (realms node),
      w3_routing = gate_and (w3_routing hub) (w3_routing node),
      chat_ordering_of = chat_ordering_of hub,
      clients = limits_narrowed_by (clients hub) (clients node),
      game_flood = game_flood hub,
      gateway_flood = gateway_flood hub\<rparr>"

section \<open>Narrowing\<close>

text \<open>One limit set is within another when every field is.\<close>

definition cl_within :: "conn_limits \<Rightarrow> conn_limits \<Rightarrow> bool" where
  "cl_within a b \<longleftrightarrow> per_ip a \<le> per_ip b \<and> per_account a \<le> per_account b \<and> global a \<le> global b"

lemma cl_min_within [simp]: "cl_within (cl_min a b) a" "cl_within (cl_min a b) b"
  by (auto simp: cl_within_def cl_min_def)

lemma cl_min_greatest: "cl_within c a \<Longrightarrow> cl_within c b \<Longrightarrow> cl_within c (cl_min a b)"
  by (auto simp: cl_within_def cl_min_def)

lemma cl_within_refl [simp]: "cl_within a a"
  by (simp add: cl_within_def)

lemma cl_within_trans: "cl_within a b \<Longrightarrow> cl_within b c \<Longrightarrow> cl_within a c"
  by (auto simp: cl_within_def)

lemma product_limits_narrowed:
  "product_limits (limits_narrowed_by a b) k = cl_min (product_limits a k) (product_limits b k)"
proof (cases "fmlookup (l_products a) k = None \<and> fmlookup (l_products b) k = None")
  case True
  then have "fmlookup (l_products a ++\<^sub>f l_products b) k = None" by (simp add: fmdom'_notI)
  with True show ?thesis
    by (simp add: product_limits_def [of "limits_narrowed_by a b"] limits_narrowed_by_def)
       (simp add: product_limits_def)
next
  case False
  then obtain c where "fmlookup (l_products a ++\<^sub>f l_products b) k = Some c"
    by (cases "fmlookup (l_products b) k") (auto simp: fmlookup_dom_iff)
  then have "fmlookup (l_products (limits_narrowed_by a b)) k =
      Some (cl_min (product_limits a k) (product_limits b k))"
    unfolding limits_narrowed_by_def client_limits.select_convs fmlookup_fmmap_keys by simp
  then show ?thesis
    by (simp add: product_limits_def [of "limits_narrowed_by a b"])
qed

lemma for_class_narrowed:
  "for_class (limits_narrowed_by a b) k = cl_min (for_class a k) (for_class b k)"
  by (cases k) (simp_all add: product_limits_narrowed, simp_all add: limits_narrowed_by_def)

lemma narrowed_idem: "for_class (limits_narrowed_by a a) k = for_class a k"
  by (simp add: for_class_narrowed cl_min_def)

end
