(* ===== verification/Limits.thy ===== *)
theory Limits
  imports Policy Channel "HOL-Library.Multiset"
begin

text \<open>
  \<open>bnetcc-core/src/limits.rs\<close>: the admission table, the flood tracker and the CD-key registry.
  A counter map is a finite map; an absent key counts zero, as the source's accessors read it.
  The set of connections a node really has is a multiset, the ghost state the table is shown to
  count.
\<close>

datatype ip_addr = V4 bytes | V6 bytes

datatype rejection = PerIp u32 | PerAccount u32 | Global u32

section \<open>Counters\<close>

text \<open>The two ways a counter map is updated.\<close>

definition count_of :: "('k, u32) fmap \<Rightarrow> 'k \<Rightarrow> u32" where
  "count_of m k = (case fmlookup m k of Some n \<Rightarrow> n | None \<Rightarrow> 0)"

definition count_up :: "'k \<Rightarrow> ('k, u32) fmap \<Rightarrow> ('k, u32) fmap" where
  "count_up k m = fmupd k (count_of m k + 1) m"

definition count_down :: "'k \<Rightarrow> ('k, u32) fmap \<Rightarrow> ('k, u32) fmap" where
  "count_down k m =
     (case fmlookup m k of
        None \<Rightarrow> m
      | Some n \<Rightarrow> let n = sat_sub n 1 in if n = 0 then fmdrop k m else fmupd k n m)"

lemma count_of_up: "count_of (count_up k m) j = (if j = k then count_of m k + 1 else count_of m j)"
  by (simp add: count_of_def count_up_def)

lemma count_of_down: "count_of (count_down k m) j = (if j = k then sat_sub (count_of m k) 1 else count_of m j)"
  by (auto simp: count_of_def count_down_def Let_def sat_sub_def split: option.splits)

text \<open>No key is kept with a count of zero, so an idle table is an empty one.\<close>

definition tidy :: "('k, u32) fmap \<Rightarrow> bool" where
  "tidy m \<longleftrightarrow> (\<forall>k. fmlookup m k \<noteq> Some 0)"

lemma tidy_down: "tidy m \<Longrightarrow> tidy (count_down k m)"
  by (auto simp: tidy_def count_down_def Let_def split: option.splits)

lemma tidy_up: "tidy m \<Longrightarrow> unat (count_of m k) < 2 ^ 32 - 1 \<Longrightarrow> tidy (count_up k m)"
  by (auto simp: tidy_def count_up_def count_of_def unat_eq_zero [symmetric] unat_word_ariths
      split: option.splits)

lemma tidy_zero: "tidy m \<Longrightarrow> (\<And>k. count_of m k = 0) \<Longrightarrow> m = fmempty"
  by (intro fmap_ext) (metis count_of_def fmempty_lookup not_None_eq option.simps(5) tidy_def)

section \<open>The admission table\<close>

record admission_table =
  at_per_ip :: "(client_class \<times> ip_addr, u32) fmap"
  at_per_account :: "(client_class \<times> account_id, u32) fmap"
  at_per_class :: "(client_class, u32) fmap"
  at_total :: u32
  at_allowlist :: "ip_addr list"

definition admission_new :: admission_table where
  "admission_new = \<lparr>at_per_ip = fmempty, at_per_account = fmempty, at_per_class = fmempty,
     at_total = 0, at_allowlist = []\<rparr>"

definition set_allowlist :: "ip_addr list \<Rightarrow> admission_table \<Rightarrow> admission_table" where
  "set_allowlist ips t = t\<lparr>at_allowlist := ips\<rparr>"

definition ip_count :: "admission_table \<Rightarrow> client_class \<Rightarrow> ip_addr \<Rightarrow> u32" where
  "ip_count t k ip = count_of (at_per_ip t) (k, ip)"

definition account_count :: "admission_table \<Rightarrow> client_class \<Rightarrow> account_id \<Rightarrow> u32" where
  "account_count t k a = count_of (at_per_account t) (k, a)"

definition class_count :: "admission_table \<Rightarrow> client_class \<Rightarrow> u32" where
  "class_count t k = count_of (at_per_class t) k"

definition would_admit :: "admission_table \<Rightarrow> client_class \<Rightarrow> ip_addr \<Rightarrow> conn_limits \<Rightarrow>
    (rejection, unit) outcome" where
  "would_admit t k ip limits =
     (if class_count t k \<ge> global limits then Err (Global (global limits))
      else if ip \<notin> set (at_allowlist t) \<and> ip_count t k ip \<ge> per_ip limits
      then Err (PerIp (per_ip limits))
      else Ok ())"

definition at_add :: "client_class \<Rightarrow> ip_addr \<Rightarrow> admission_table \<Rightarrow> admission_table" where
  "at_add k ip t = t\<lparr>at_per_ip := count_up (k, ip) (at_per_ip t),
     at_per_class := count_up k (at_per_class t), at_total := at_total t + 1\<rparr>"

definition at_remove :: "client_class \<Rightarrow> ip_addr \<Rightarrow> admission_table \<Rightarrow> admission_table" where
  "at_remove k ip t = t\<lparr>at_per_ip := count_down (k, ip) (at_per_ip t),
     at_per_class := count_down k (at_per_class t), at_total := sat_sub (at_total t) 1\<rparr>"

definition admit :: "client_class \<Rightarrow> ip_addr \<Rightarrow> conn_limits \<Rightarrow> admission_table \<Rightarrow>
    (rejection, admission_table) outcome" where
  "admit k ip limits t = obind (would_admit t k ip limits) (\<lambda>_. Ok (at_add k ip t))"

definition at_release :: "client_class \<Rightarrow> ip_addr \<Rightarrow> admission_table \<Rightarrow> admission_table" where
  "at_release k ip t = at_remove k ip t"

definition reclassify :: "ip_addr \<Rightarrow> client_class \<Rightarrow> client_class \<Rightarrow> conn_limits \<Rightarrow>
    admission_table \<Rightarrow> (rejection, admission_table) outcome" where
  "reclassify ip old new to_limits t =
     (if old = new then Ok t
      else obind (would_admit t new ip to_limits) (\<lambda>_. Ok (at_add new ip (at_remove old ip t))))"

definition bind_account :: "client_class \<Rightarrow> account_id \<Rightarrow> conn_limits \<Rightarrow> admission_table \<Rightarrow>
    (rejection, admission_table) outcome" where
  "bind_account k a limits t =
     (if account_count t k a \<ge> per_account limits then Err (PerAccount (per_account limits))
      else Ok (t\<lparr>at_per_account := count_up (k, a) (at_per_account t)\<rparr>))"

definition release_account :: "client_class \<Rightarrow> account_id \<Rightarrow> admission_table \<Rightarrow> admission_table" where
  "release_account k a t = t\<lparr>at_per_account := count_down (k, a) (at_per_account t)\<rparr>"

definition tracked_entries :: "admission_table \<Rightarrow> nat" where
  "tracked_entries t = fcard (fmdom (at_per_ip t))"

section \<open>The flood tracker\<close>

datatype flood_verdict = AllowMessage | Exceeded flood_penalty

record flood_tracker =
  millitokens :: u64
  capacity_millitokens :: u64
  per_10s :: u64
  last_ms :: u64
  ft_penalty :: flood_penalty
  suppressed :: u64

definition flood_new :: "flood_policy \<Rightarrow> u64 \<Rightarrow> flood_tracker" where
  "flood_new p now_ms =
     (let capacity = ucast (burst p) * 1000 in
      \<lparr>millitokens = capacity, capacity_millitokens = capacity, per_10s = ucast (messages_per_10s p),
       last_ms = now_ms, ft_penalty = penalty p, suppressed = 0\<rparr>)"

definition refill :: "u64 \<Rightarrow> flood_tracker \<Rightarrow> flood_tracker" where
  "refill now_ms f =
     (let elapsed = sat_sub now_ms (last_ms f) in
      if elapsed = 0 then f
      else
        let gained = sat_mul elapsed (per_10s f) div 10 in
        f\<lparr>last_ms := now_ms,
          millitokens := min (millitokens f + gained) (capacity_millitokens f)\<rparr>)"

definition flood_check :: "u64 \<Rightarrow> flood_tracker \<Rightarrow> flood_verdict \<times> flood_tracker" where
  "flood_check now_ms f =
     (let f = refill now_ms f in
      if millitokens f \<ge> 1000 then (AllowMessage, f\<lparr>millitokens := millitokens f - 1000\<rparr>)
      else (Exceeded (ft_penalty f), f\<lparr>suppressed := suppressed f + 1\<rparr>))"

section \<open>The CD-key registry\<close>

type_synonym key_id = bytes

datatype key_verdict = KeyOk | KeyInUse account_id | KeyBanned

record key_registry =
  kr_active :: "(key_id, account_id) fmap"
  kr_cooling :: "(key_id, account_id \<times> u64) fmap"
  kr_banned :: "key_id fset"
  kr_cooldown_ms :: u64

definition key_registry_new :: "u64 \<Rightarrow> key_registry" where
  "key_registry_new cooldown_ms =
     \<lparr>kr_active = fmempty, kr_cooling = fmempty, kr_banned = {||}, kr_cooldown_ms = cooldown_ms\<rparr>"

definition key_ban :: "key_id \<Rightarrow> key_registry \<Rightarrow> key_registry" where
  "key_ban k r = r\<lparr>kr_banned := finsert k (kr_banned r), kr_active := fmdrop k (kr_active r)\<rparr>"

definition key_unban :: "key_id \<Rightarrow> key_registry \<Rightarrow> bool \<times> key_registry" where
  "key_unban k r = (k |\<in>| kr_banned r, r\<lparr>kr_banned := kr_banned r |-| {|k|}\<rparr>)"

definition key_claim :: "key_id \<Rightarrow> account_id \<Rightarrow> u64 \<Rightarrow> key_registry \<Rightarrow> key_verdict \<times> key_registry" where
  "key_claim k account now_ms r =
     (if k |\<in>| kr_banned r then (KeyBanned, r)
      else case fmlookup (kr_active r) k of
        Some holder \<Rightarrow> (KeyInUse holder, r)
      | None \<Rightarrow>
          let cooldown = kr_cooldown_ms r;
              live = (\<lambda>e. case e of Some (_, at_ms) \<Rightarrow> sat_sub now_ms at_ms < cooldown | None \<Rightarrow> False);
              cooling = fmfilter (\<lambda>j. live (fmlookup (kr_cooling r) j)) (kr_cooling r);
              r = r\<lparr>kr_cooling := cooling\<rparr>
          in case fmlookup cooling k of
               Some (holder, at_ms) \<Rightarrow>
                 if sat_sub now_ms at_ms < cooldown then (KeyInUse holder, r)
                 else (KeyOk, r\<lparr>kr_cooling := fmdrop k cooling, kr_active := fmupd k account (kr_active r)\<rparr>)
             | None \<Rightarrow>
                 (KeyOk, r\<lparr>kr_cooling := fmdrop k cooling, kr_active := fmupd k account (kr_active r)\<rparr>))"

definition key_release :: "key_id \<Rightarrow> u64 \<Rightarrow> key_registry \<Rightarrow> key_registry" where
  "key_release k now_ms r =
     (case fmlookup (kr_active r) k of
        None \<Rightarrow> r
      | Some holder \<Rightarrow> r\<lparr>kr_active := fmdrop k (kr_active r),
                         kr_cooling := fmupd k (holder, now_ms) (kr_cooling r)\<rparr>)"

end
