(* ===== verification/Limits_Rules.thy ===== *)
theory Limits_Rules
  imports Limits
begin

text \<open>
  What admission, flood control and the key registry of \<open>bnetcc-core/src/limits.rs\<close> guarantee over
  any history of calls, and what a narrowed policy (\<open>policy.rs\<close>) lets admission do.
\<close>

section \<open>Admission\<close>

text \<open>
  The calls a node makes for its connections, next to the connections that are really open: a
  connection is released once, by itself, and reclassified only while it is open.
\<close>

type_synonym connection = "client_class \<times> ip_addr"

datatype adm_op =
    Arrive client_class ip_addr conn_limits
  | Depart client_class ip_addr
  | Identify ip_addr client_class client_class conn_limits

fun adm_step :: "adm_op \<Rightarrow> admission_table \<times> connection multiset \<Rightarrow>
    admission_table \<times> connection multiset" where
  "adm_step (Arrive k ip l) (t, M) =
     (case admit k ip l t of Ok t' \<Rightarrow> (t', add_mset (k, ip) M) | _ \<Rightarrow> (t, M))"
| "adm_step (Depart k ip) (t, M) =
     (if (k, ip) \<in># M then (at_release k ip t, M - {#(k, ip)#}) else (t, M))"
| "adm_step (Identify ip old new l) (t, M) =
     (if (old, ip) \<in># M then
        (case reclassify ip old new l t of
           Ok t' \<Rightarrow> (t', add_mset (new, ip) (M - {#(old, ip)#}))
         | _ \<Rightarrow> (t, M))
      else (t, M))"

definition of_class :: "client_class \<Rightarrow> connection multiset \<Rightarrow> nat" where
  "of_class k M = size {#c \<in># M. fst c = k#}"

definition counts :: "admission_table \<Rightarrow> connection multiset \<Rightarrow> bool" where
  "counts t M \<longleftrightarrow>
     (\<forall>k ip. unat (ip_count t k ip) = count M (k, ip)) \<and>
     (\<forall>k. unat (class_count t k) = of_class k M) \<and> unat (at_total t) = size M \<and>
     tidy (at_per_ip t) \<and> tidy (at_per_class t)"

lemma count_le_size: "count M x \<le> size M"
  by (induction M) auto

lemma of_class_le_size: "of_class k M \<le> size M"
  by (simp add: of_class_def size_mset_mono multiset_filter_subset)

lemma of_class_add: "of_class k (add_mset (j, ip) M) = of_class k M + (if j = k then 1 else 0)"
  by (simp add: of_class_def)

lemma of_class_remove: "(j, ip) \<in># M \<Longrightarrow> of_class k (M - {#(j, ip)#}) = of_class k M - (if j = k then 1 else 0)"
  by (drule multi_member_split) (auto simp: of_class_def)

lemma unat_succ: "unat (w :: u32) < 2 ^ 32 - 1 \<Longrightarrow> unat (w + 1) = unat w + 1"
  by (simp add: unat_word_ariths)

lemma counts_add:
  assumes "counts t M" and "size M < 2 ^ 32 - 1"
  shows "counts (at_add k ip t) (add_mset (k, ip) M)"
proof -
  have "count M (k, ip) < 2 ^ 32 - 1" "of_class k M < 2 ^ 32 - 1"
    using assms(2) count_le_size [of M "(k, ip)"] of_class_le_size [of k M] by linarith+
  with assms show ?thesis
    by (auto simp: counts_def at_add_def ip_count_def class_count_def count_of_up of_class_add
        unat_succ intro!: tidy_up)
qed

lemma counts_remove:
  assumes "counts t M" and "(k, ip) \<in># M"
  shows "counts (at_remove k ip t) (M - {#(k, ip)#})"
  using assms
  by (auto simp: counts_def at_remove_def ip_count_def class_count_def count_of_down
      of_class_remove unat_sat_sub size_Diff_singleton intro: tidy_down)

lemma admit_Ok: "admit k ip l t = Ok t' \<longleftrightarrow> would_admit t k ip l = Ok () \<and> t' = at_add k ip t"
  by (auto simp: admit_def obind_Ok_conv)

lemma reclassify_Ok: "reclassify ip old new l t = Ok t' \<longleftrightarrow>
    (if old = new then t' = t
     else would_admit t new ip l = Ok () \<and> t' = at_add new ip (at_remove old ip t))"
  by (auto simp: reclassify_def obind_Ok_conv)

lemma would_admit_Ok:
  "would_admit t k ip l = Ok () \<longleftrightarrow>
     class_count t k < global l \<and> (ip \<in> set (at_allowlist t) \<or> ip_count t k ip < per_ip l)"
  by (auto simp: would_admit_def not_le)

text \<open>The ceilings in force: one set of limits per class, as the policy gives them.\<close>

fun uses :: "(client_class \<Rightarrow> conn_limits) \<Rightarrow> adm_op \<Rightarrow> bool" where
  "uses L (Arrive k ip l) = (l = L k)"
| "uses L (Depart k ip) = True"
| "uses L (Identify ip old new l) = (l = L new)"

definition within :: "(client_class \<Rightarrow> conn_limits) \<Rightarrow> ip_addr list \<Rightarrow> connection multiset \<Rightarrow> bool" where
  "within L free M \<longleftrightarrow>
     (\<forall>k. of_class k M \<le> unat (global (L k))) \<and>
     (\<forall>k ip. ip \<notin> set free \<longrightarrow> count M (k, ip) \<le> unat (per_ip (L k)))"

lemma within_add:
  assumes "within L (at_allowlist t) M" and "counts t M" and "would_admit t k ip (L k) = Ok ()"
  shows "within L (at_allowlist t) (add_mset (k, ip) M)"
  using assms
  by (auto simp: within_def counts_def would_admit_Ok of_class_add word_less_nat_alt Suc_le_eq)

lemma within_remove: "within L free M \<Longrightarrow> within L free (M - {#c#})"
  unfolding within_def of_class_def
  by (metis (no_types, lifting) count_diff diff_le_self dual_order.trans filter_diff_mset size_Diff1_le
      size_mset_mono multiset_filter_mono diff_subset_eq_self)

lemma would_admit_after_remove:
  assumes "counts t M" and "(old, ip) \<in># M" and "old \<noteq> new"
  shows "would_admit (at_remove old ip t) new ip l = would_admit t new ip l"
  using assms by (simp add: would_admit_def at_remove_def class_count_def ip_count_def count_of_down)

definition adm_ok :: "(client_class \<Rightarrow> conn_limits) \<Rightarrow> ip_addr list \<Rightarrow> nat \<Rightarrow>
    admission_table \<times> connection multiset \<Rightarrow> bool" where
  "adm_ok L free n s \<longleftrightarrow> counts (fst s) (snd s) \<and> within L free (snd s) \<and>
     at_allowlist (fst s) = free \<and> size (snd s) \<le> n"

lemma adm_step_ok:
  assumes ok: "adm_ok L free n s" and u: "uses L x" and n: "n < 2 ^ 32 - 1"
  shows "adm_ok L free (Suc n) (adm_step x s)"
proof -
  obtain t M where s: "s = (t, M)" by (cases s)
  with ok have inv: "counts t M" "within L free M" "at_allowlist t = free" "size M \<le> n"
    by (simp_all add: adm_ok_def)
  show ?thesis
  proof (cases x)
    case (Arrive k ip l)
    show ?thesis
    proof (cases "would_admit t k ip l = Ok ()")
      case True
      with inv n u Arrive counts_add [of t M k ip] within_add [of L t M k ip] show ?thesis
        by (simp add: s adm_ok_def admit_def at_add_def)
    qed (use inv s Arrive in \<open>auto simp: adm_ok_def admit_Ok split: outcome.splits\<close>)
  next
    case (Depart k ip)
    with inv s counts_remove [of t M k ip] within_remove [of L free M "(k, ip)"] show ?thesis
      by (auto simp: adm_ok_def at_release_def at_remove_def size_Diff_singleton)
  next
    case (Identify ip old new l)
    show ?thesis
    proof (cases "(old, ip) \<in># M \<and> old \<noteq> new \<and> would_admit t new ip l = Ok ()")
      case True
      let ?t = "at_remove old ip t" and ?M = "M - {#(old, ip)#}"
      have 1: "counts ?t ?M" "within L free ?M" "at_allowlist ?t = free" "size ?M < 2 ^ 32 - 1"
        using True inv n counts_remove within_remove
        by (auto simp: at_remove_def size_Diff_singleton)
      have "would_admit ?t new ip (L new) = Ok ()"
        using True u Identify would_admit_after_remove [OF inv(1)] by simp
      with 1 within_add [of L ?t ?M new ip] counts_add [of ?t ?M new ip]
      have "counts (at_add new ip ?t) (add_mset (new, ip) ?M)" "within L free (add_mset (new, ip) ?M)"
        by simp_all
      with True 1(3) inv(4) show ?thesis
        by (simp add: s Identify reclassify_def adm_ok_def at_add_def size_Diff_singleton)
    qed (use inv s Identify in \<open>auto simp: adm_ok_def reclassify_Ok size_Diff_singleton split: outcome.splits\<close>)
  qed
qed

lemma adm_run_ok:
  assumes "adm_ok L free n s" and "list_all (uses L) ops" and "n + length ops < 2 ^ 32"
  shows "adm_ok L free (n + length ops) (fold adm_step ops s)"
  using assms
proof (induction ops arbitrary: n s)
  case (Cons x ops)
  with adm_step_ok [of L free n s x] have "adm_ok L free (Suc n) (adm_step x s)" by simp
  with Cons.IH [of "Suc n"] Cons.prems show ?case by simp
qed simp

text \<open>C13
  The admission table counts the open connections and keeps the ceilings. After any sequence of
  arrivals, departures and reclassifications, refused ones included, made with one set of limits
  per class: the counts by class and address, by class and in total are those of the connections
  really open; no class is above its global ceiling and no address off the allowlist above its
  per-address ceiling; and once every connection has gone the table is empty again.
\<close>

theorem admission_counts_connections:
  assumes "list_all (uses L) ops" and "length ops < 2 ^ 32"
    and "fold adm_step ops (set_allowlist free admission_new, {#}) = (t, M)"
  shows "(\<forall>k ip. unat (ip_count t k ip) = count M (k, ip)) \<and>
    (\<forall>k. unat (class_count t k) = size {#c \<in># M. fst c = k#}) \<and> unat (at_total t) = size M \<and>
    (\<forall>k. class_count t k \<le> global (L k)) \<and>
    (\<forall>k ip. ip \<notin> set free \<longrightarrow> ip_count t k ip \<le> per_ip (L k)) \<and>
    (M = {#} \<longrightarrow> at_per_ip t = fmempty \<and> at_per_class t = fmempty \<and> tracked_entries t = 0)"
proof -
  have "adm_ok L free 0 (set_allowlist free admission_new, {#})"
    by (simp add: adm_ok_def counts_def within_def set_allowlist_def admission_new_def ip_count_def
        class_count_def count_of_def of_class_def tidy_def)
  from adm_run_ok [OF this assms(1)] assms(2,3) have ok: "counts t M" "within L free M"
    by (simp_all add: adm_ok_def)
  have "at_per_ip t = fmempty \<and> at_per_class t = fmempty" if "M = {#}"
  proof -
    from ok(1) that have "count_of (at_per_ip t) c = 0" "count_of (at_per_class t) k = 0" for c k
      by (auto simp: counts_def ip_count_def class_count_def of_class_def unat_eq_zero split_paired_all)
         (metis surj_pair)
    with ok(1) show ?thesis by (simp add: counts_def tidy_zero)
  qed
  with ok show ?thesis
    by (auto simp: counts_def within_def of_class_def word_le_nat_alt tracked_entries_def)
qed

definition demo_limits :: "client_class \<Rightarrow> conn_limits" where
  "demo_limits = for_class (clients (for_mode Gaming))"

definition demo_arrivals :: "adm_op list" where
  "demo_arrivals = replicate 3 (Arrive GatewayClient (V4 [10, 0, 0, 1]) (demo_limits GatewayClient))"

corollary admission_counts_connections_witness:
  "class_count (fst (fold adm_step demo_arrivals (set_allowlist [] admission_new, {#}))) GatewayClient
     \<le> global (demo_limits GatewayClient)"
proof -
  obtain t M where run: "fold adm_step demo_arrivals (set_allowlist [] admission_new, {#}) = (t, M)"
    by (rule prod.exhaust)
  have "list_all (uses demo_limits) demo_arrivals" "length demo_arrivals < 2 ^ 32"
    by (simp_all add: demo_arrivals_def list_all_iff)
  from admission_counts_connections [OF this run] show ?thesis unfolding run fst_conv by blast
qed

section \<open>Narrowed policies\<close>

lemma cl_min_fields:
  "per_ip (cl_min a b) = min (per_ip a) (per_ip b)" "per_account (cl_min a b) = min (per_account a) (per_account b)"
  "global (cl_min a b) = min (global a) (global b)"
  by (auto simp: cl_min_def min_def dest: less_imp_le)

text \<open>What the smaller of two limit sets lets in is what both let in.\<close>

lemma would_admit_min:
  "would_admit t k ip (cl_min a b) = Ok () \<longleftrightarrow> would_admit t k ip a = Ok () \<and> would_admit t k ip b = Ok ()"
  by (auto simp: would_admit_def cl_min_fields min_le_iff_disj)

lemma bind_account_min:
  "bind_account k a (cl_min x y) t = Ok t' \<longleftrightarrow> bind_account k a x t = Ok t' \<and> bind_account k a y t = Ok t'"
  by (auto simp: bind_account_def cl_min_fields min_le_iff_disj)

text \<open>C17
  A node can restrict what the hub permits and never widen it. The narrowed policy allows a
  subsystem only where both allow it; for every client class, each game product included, each of
  the three connection limits is the minimum of the hub's and the node's, so that with it a
  connection is admitted, is moved to another class or takes an account only if each of the two
  policies alone would have let it; mode, ordering and both flood controls are the hub's.
\<close>

theorem narrowing_never_widens:
  "let p = narrowed_by hub node; of_p = for_class (clients p) k;
       of_hub = for_class (clients hub) k; of_node = for_class (clients node) k in
   (allowed (game_hosting p) \<longleftrightarrow> allowed (game_hosting hub) \<and> allowed (game_hosting node)) \<and>
   (allowed (game_listing p) \<longleftrightarrow> allowed (game_listing hub) \<and> allowed (game_listing node)) \<and>
   (allowed (realms p) \<longleftrightarrow> allowed (realms hub) \<and> allowed (realms node)) \<and>
   (allowed (w3_routing p) \<longleftrightarrow> allowed (w3_routing hub) \<and> allowed (w3_routing node)) \<and>
   per_ip of_p = min (per_ip of_hub) (per_ip of_node) \<and>
   per_account of_p = min (per_account of_hub) (per_account of_node) \<and>
   global of_p = min (global of_hub) (global of_node) \<and>
   (admit k ip of_p t = Ok t' \<longleftrightarrow> admit k ip of_hub t = Ok t' \<and> admit k ip of_node t = Ok t') \<and>
   (reclassify ip old k of_p t = Ok t' \<longleftrightarrow>
      reclassify ip old k of_hub t = Ok t' \<and> reclassify ip old k of_node t = Ok t') \<and>
   (bind_account k a of_p t = Ok t' \<longleftrightarrow> bind_account k a of_hub t = Ok t' \<and> bind_account k a of_node t = Ok t') \<and>
   mode p = mode hub \<and> chat_ordering_of p = chat_ordering_of hub \<and>
   game_flood p = game_flood hub \<and> gateway_flood p = gateway_flood hub"
proof -
  have c: "for_class (clients (narrowed_by hub node)) k = cl_min (for_class (clients hub) k) (for_class (clients node) k)"
    by (simp add: narrowed_by_def for_class_narrowed)
  show ?thesis
    unfolding Let_def c bind_account_min admit_Ok reclassify_Ok would_admit_min
    by (auto simp: narrowed_by_def gate_and_def allowed_def cl_min_fields)
qed

section \<open>Flood control\<close>

fun flood_run :: "u64 list \<Rightarrow> flood_tracker \<Rightarrow> nat \<times> flood_tracker" where
  "flood_run [] f = (0, f)"
| "flood_run (t # ts) f =
     (let (v, f') = flood_check t f; (n, g) = flood_run ts f' in
      ((if v = AllowMessage then Suc n else n), g))"

lemma flood_run_Cons:
  "fst (flood_run (t # ts) f) = (if fst (flood_check t f) = AllowMessage
     then Suc (fst (flood_run ts (snd (flood_check t f)))) else fst (flood_run ts (snd (flood_check t f))))"
  "snd (flood_run (t # ts) f) = snd (flood_run ts (snd (flood_check t f)))"
  by (simp_all add: Let_def split_beta)

lemma unat_ucast64: "unat (ucast (w :: u32) :: u64) = unat w"
proof -
  have "unat w < 2 ^ 64" by (rule order_less_le_trans, rule unsigned_less) simp
  then show ?thesis by (simp add: unsigned_ucast_eq take_bit_nat_eq_self)
qed

lemma unat_div10: "unat (w div 10 :: u64) = unat w div 10"
  by (simp add: unat_div)

lemma unat_sat_mul_le: "unat (sat_mul a b :: u64) \<le> unat a * unat b"
proof (cases "unat a * unat b < 2 ^ 64")
  case True
  then show ?thesis by (simp add: sat_mul_def unat_mult_lem [THEN iffD1])
next
  case False
  moreover have "unat (- 1 :: u64) \<le> 2 ^ 64"
    by (rule less_imp_le, rule order_less_le_trans, rule unsigned_less) simp
  ultimately show ?thesis by (simp add: sat_mul_def)
qed

lemma unat_sat_mul: "unat a * unat b < 2 ^ 64 \<Longrightarrow> unat (sat_mul a b :: u64) = unat a * unat b"
  by (simp add: sat_mul_def unat_mult_lem [THEN iffD1])

definition flood_wf :: "flood_tracker \<Rightarrow> bool" where
  "flood_wf f \<longleftrightarrow> millitokens f \<le> capacity_millitokens f \<and>
     unat (capacity_millitokens f) < 2 ^ 42 \<and> unat (per_10s f) < 2 ^ 32"

lemma refill_tokens:
  assumes "flood_wf f"
  shows "unat (millitokens (refill t f)) =
    min (unat (millitokens f) + unat (sat_mul (sat_sub t (last_ms f)) (per_10s f)) div 10)
        (unat (capacity_millitokens f))"
proof -
  let ?g = "sat_mul (sat_sub t (last_ms f)) (per_10s f) div 10"
  have le: "unat (millitokens f) \<le> unat (capacity_millitokens f)"
    using assms by (simp add: flood_wf_def word_le_nat_alt)
  have g: "unat ?g = unat (sat_mul (sat_sub t (last_ms f)) (per_10s f)) div 10"
    by (rule unat_div10)
  have "unat (sat_mul (sat_sub t (last_ms f)) (per_10s f)) < 2 ^ 64"
    using unsigned_less [of "sat_mul (sat_sub t (last_ms f)) (per_10s f)"] by simp
  with g le assms have "unat (millitokens f) + unat ?g < 2 ^ 64"
    by (simp add: flood_wf_def) linarith
  then have "unat (millitokens f + ?g) = unat (millitokens f) + unat ?g"
    by (simp add: unat_add_lem [THEN iffD1])
  with g le show ?thesis
    by (auto simp: refill_def Let_def sat_mul_def min_def word_le_nat_alt)
qed

lemma refill_frame [simp]:
  "capacity_millitokens (refill t f) = capacity_millitokens f" "per_10s (refill t f) = per_10s f"
  by (simp_all add: refill_def Let_def)

lemma refill_last: "unat (last_ms (refill t f)) = unat (last_ms f) + unat (sat_sub t (last_ms f))"
  by (auto simp: refill_def Let_def unat_sat_sub word_le_nat_alt unat_eq_zero [symmetric])

text \<open>Tokens are only ever bought with elapsed time, so the budget spent and left is bounded.\<close>

lemma flood_step:
  assumes "flood_wf f"
  shows "flood_wf (snd (flood_check t f)) \<and>
    10 * unat (millitokens (snd (flood_check t f))) +
      (if fst (flood_check t f) = AllowMessage then 10000 else 0)
    \<le> 10 * unat (millitokens f) +
      (unat (last_ms (snd (flood_check t f))) - unat (last_ms f)) * unat (per_10s f) \<and>
    unat (last_ms f) \<le> unat (last_ms (snd (flood_check t f))) \<and>
    per_10s (snd (flood_check t f)) = per_10s f \<and>
    unat (last_ms (snd (flood_check t f))) \<le> max (unat (last_ms f)) (unat t)"
proof -
  let ?r = "refill t f"
  have tok: "10 * unat (millitokens ?r) \<le> 10 * unat (millitokens f) +
      (unat (last_ms ?r) - unat (last_ms f)) * unat (per_10s f)"
  proof -
    let ?x = "unat (sat_mul (sat_sub t (last_ms f)) (per_10s f))"
    have "unat (millitokens ?r) \<le> unat (millitokens f) + ?x div 10"
      using refill_tokens [OF assms, of t] by simp
    moreover have "10 * (?x div 10) \<le> ?x" by simp
    moreover have "?x \<le> unat (sat_sub t (last_ms f)) * unat (per_10s f)" by (rule unat_sat_mul_le)
    ultimately show ?thesis unfolding refill_last diff_add_inverse by linarith
  qed
  have wf: "flood_wf ?r"
    using assms refill_tokens [OF assms, of t] by (simp add: flood_wf_def word_le_nat_alt)
  have sub: "unat (millitokens ?r - 1000) = unat (millitokens ?r) - 1000" if "1000 \<le> millitokens ?r"
    using that by (simp add: unat_sub)
  show ?thesis
  proof (cases "1000 \<le> millitokens ?r")
    case True
    then have "1000 \<le> unat (millitokens ?r)" by (simp add: word_le_nat_alt)
    moreover have "flood_check t f = (AllowMessage, ?r\<lparr>millitokens := millitokens ?r - 1000\<rparr>)"
      using True by (simp add: flood_check_def Let_def)
    moreover have "unat (last_ms ?r) \<le> max (unat (last_ms f)) (unat t)" "unat (last_ms f) \<le> unat (last_ms ?r)"
      by (simp_all add: refill_last unat_sat_sub)
    moreover have "10 * (unat (millitokens ?r) - 1000) + 10000 = 10 * unat (millitokens ?r)"
      using \<open>1000 \<le> unat (millitokens ?r)\<close> by linarith
    ultimately show ?thesis
      using True sub wf tok by (simp add: flood_wf_def word_le_nat_alt)
  next
    case False
    with wf tok show ?thesis
      by (simp add: flood_check_def Let_def flood_wf_def refill_last unat_sat_sub max_def)
  qed
qed

lemma flood_run_bound:
  "flood_wf f \<Longrightarrow> \<forall>t \<in> set ts. unat t \<le> T \<Longrightarrow> unat (last_ms f) \<le> T \<Longrightarrow>
   10000 * fst (flood_run ts f) \<le> 10 * unat (millitokens f) + (T - unat (last_ms f)) * unat (per_10s f)"
proof (induction ts arbitrary: f)
  case (Cons t ts)
  let ?v = "fst (flood_check t f)" and ?f = "snd (flood_check t f)"
  note step = flood_step [OF Cons.prems(1), of t]
  have "unat (last_ms ?f) \<le> T" using step Cons.prems(2,3) by auto
  with Cons.IH [of ?f] step Cons.prems(2) have IH: "10000 * fst (flood_run ts ?f) \<le>
      10 * unat (millitokens ?f) + (T - unat (last_ms ?f)) * unat (per_10s f)" by simp
  have split: "(T - unat (last_ms f)) * unat (per_10s f) =
      (T - unat (last_ms ?f)) * unat (per_10s f) +
      (unat (last_ms ?f) - unat (last_ms f)) * unat (per_10s f)"
    using step \<open>unat (last_ms ?f) \<le> T\<close> by (simp flip: add_mult_distrib)
  from IH step split show ?case
    unfolding flood_run_Cons by (cases "?v = AllowMessage"; simp; linarith)
qed simp

lemma flood_new_wf: "flood_wf (flood_new p now)"
  and flood_new_tokens: "unat (millitokens (flood_new p now)) = 1000 * unat (burst p)"
proof -
  have b: "unat (burst p) < 2 ^ 32" "unat (messages_per_10s p) < 2 ^ 32"
    using unsigned_less [of "burst p"] unsigned_less [of "messages_per_10s p"] by simp_all
  have "unat (ucast (burst p) :: u64) = unat (burst p)"
    "unat (ucast (messages_per_10s p) :: u64) = unat (messages_per_10s p)"
    by (simp_all add: unat_ucast64)
  moreover from this b have "unat (ucast (burst p) * 1000 :: u64) = 1000 * unat (burst p)"
    by (simp add: unat_word_ariths)
  ultimately show "flood_wf (flood_new p now)"
    "unat (millitokens (flood_new p now)) = 1000 * unat (burst p)"
    using b by (simp_all add: flood_wf_def flood_new_def Let_def)
qed

text \<open>C15
  The flood tracker keeps the configured rate. However the messages are spaced, and whatever the
  clock does, a tracker lets through at most the burst allowance plus the sustained rate times the
  time that has passed since it was created.
\<close>

theorem flood_rate_bound:
  assumes "\<forall>t \<in> set ts. unat t \<le> unat now + elapsed"
  shows "10000 * fst (flood_run ts (flood_new p now)) \<le>
    10000 * unat (burst p) + elapsed * unat (messages_per_10s p)"
proof -
  have "last_ms (flood_new p now) = now" "unat (per_10s (flood_new p now)) = unat (messages_per_10s p)"
    by (simp_all add: flood_new_def Let_def unat_ucast64)
  with flood_run_bound [OF flood_new_wf [of p now] assms] show ?thesis
    by (simp add: flood_new_tokens)
qed

corollary flood_rate_bound_witness:
  "10000 * fst (flood_run (replicate 100 5) (flood_new (game_flood (for_mode Gaming)) 5)) \<le> 50000"
  using flood_rate_bound [of "replicate 100 5" 5 0 "game_flood (for_mode Gaming)"]
  by (simp add: for_mode_def Let_def)

text \<open>C16
  A patient sender is never refused. A message that comes so long after the previous one that the
  rate has earned a whole message since is allowed, whatever was sent before, if the burst
  allowance is at least one message.
\<close>

theorem flood_patient_sender_allowed:
  assumes "f = snd (flood_run ts (flood_new p now))" and "1 \<le> burst p"
    and "last_ms f \<le> t" and "10000 \<le> unat (t - last_ms f) * unat (messages_per_10s p)"
  shows "fst (flood_check t f) = AllowMessage"
proof -
  have inv: "flood_wf g \<Longrightarrow> flood_wf (snd (flood_run us g)) \<and>
      capacity_millitokens (snd (flood_run us g)) = capacity_millitokens g \<and>
      per_10s (snd (flood_run us g)) = per_10s g" for us g
  proof (induction us arbitrary: g)
    case (Cons u us)
    have "flood_wf (snd (flood_check u g))" "per_10s (snd (flood_check u g)) = per_10s g"
      using flood_step [OF Cons.prems, of u] by simp_all
    moreover have "capacity_millitokens (snd (flood_check u g)) = capacity_millitokens g"
      by (simp add: flood_check_def Let_def)
    ultimately show ?case using Cons.IH [of "snd (flood_check u g)"] by (simp add: flood_run_Cons del: flood_run.simps)
  qed simp
  note f = inv [OF flood_new_wf [of p now], of ts, folded assms(1)]
  have rate: "unat (per_10s f) = unat (messages_per_10s p)"
    using f by (simp add: flood_new_def Let_def unat_ucast64)
  have cap: "1000 \<le> unat (capacity_millitokens f)"
    using f flood_new_tokens [of p now] assms(2)
    by (simp add: flood_new_def Let_def word_le_nat_alt)
  have "sat_sub t (last_ms f) = t - last_ms f" using assms(3) by (auto simp: sat_sub_def)
  moreover have "10000 \<le> unat (sat_mul (t - last_ms f) (per_10s f))"
  proof (cases "unat (t - last_ms f) * unat (per_10s f) < 2 ^ 64")
    case True
    with assms(4) rate show ?thesis by (simp add: unat_sat_mul)
  next
    case False
    then have "sat_mul (t - last_ms f) (per_10s f) = - 1" by (simp add: sat_mul_def)
    moreover have "unat (- 1 :: u64) = 2 ^ 64 - 1" by (simp add: unsigned_minus_1_eq_mask mask_eq_exp_minus_1)
    ultimately show ?thesis by simp
  qed
  ultimately have "1000 \<le> unat (millitokens (refill t f))"
    using refill_tokens [of f t] f cap by simp
  then show ?thesis by (simp add: flood_check_def Let_def word_le_nat_alt)
qed

corollary flood_patient_sender_allowed_witness:
  "fst (flood_check 1000 (snd (flood_run [5, 5] (flood_new (game_flood (for_mode Gaming)) 5)))) = AllowMessage"
  by (rule flood_patient_sender_allowed [OF refl])
     (simp_all add: for_mode_def Let_def flood_new_def flood_check_def refill_def sat_sub_def)

section \<open>CD keys\<close>

text \<open>
  The sessions that hold a key, next to the registry: a session that was told its claim succeeded
  holds the key until it releases it. Bans and unbans may come at any time.
\<close>

datatype key_op =
    ClaimKey key_id account_id u64
  | ReleaseKey key_id account_id u64
  | BanKey key_id
  | UnbanKey key_id

fun key_step :: "key_op \<Rightarrow> key_registry \<times> (key_id \<times> account_id) multiset \<Rightarrow>
    key_registry \<times> (key_id \<times> account_id) multiset" where
  "key_step (ClaimKey k a t) (r, H) =
     (let (v, r') = key_claim k a t r in (r', if v = KeyOk then add_mset (k, a) H else H))"
| "key_step (ReleaseKey k a t) (r, H) =
     (if (k, a) \<in># H then (key_release k t r, H - {#(k, a)#}) else (r, H))"
| "key_step (BanKey k) (r, H) = (key_ban k r, H)"
| "key_step (UnbanKey k) (r, H) = (snd (key_unban k r), H)"

definition holders :: "key_id \<Rightarrow> (key_id \<times> account_id) multiset \<Rightarrow> nat" where
  "holders k H = size {#c \<in># H. fst c = k#}"

text \<open>
  What holds of one key as long as no ban of it is lifted while a session holds it: it has at most one
  holder, and if it has one and is not banned, it is active.
\<close>

definition key_ok :: "key_id \<Rightarrow> key_registry \<times> (key_id \<times> account_id) multiset \<Rightarrow> bool" where
  "key_ok k s \<longleftrightarrow> holders k (snd s) \<le> 1 \<and>
     (k |\<notin>| kr_banned (fst s) \<longrightarrow> holders k (snd s) = 1 \<longrightarrow> fmlookup (kr_active (fst s)) k \<noteq> None)"

lemma key_claim_KeyOk:
  "key_claim k a t r = (KeyOk, r') \<Longrightarrow>
     k |\<notin>| kr_banned r \<and> fmlookup (kr_active r) k = None \<and>
     kr_active r' = fmupd k a (kr_active r) \<and> kr_banned r' = kr_banned r"
  by (auto simp: key_claim_def Let_def split: if_splits option.splits prod.splits)

lemma key_claim_refused:
  "key_claim k a t r = (v, r') \<Longrightarrow> v \<noteq> KeyOk \<Longrightarrow> kr_active r' = kr_active r \<and> kr_banned r' = kr_banned r"
  by (auto simp: key_claim_def Let_def split: if_splits option.splits prod.splits)

lemma key_ok_step:
  assumes ok: "key_ok j s" and unban: "x = UnbanKey j \<Longrightarrow> holders j (snd s) = 0"
  shows "key_ok j (key_step x s)"
proof (cases x; cases s)
  fix k a t r H assume x: "x = ClaimKey k a t" and s: "s = (r, H)"
  obtain v r' where c: "key_claim k a t r = (v, r')" by (rule prod.exhaust)
  show ?thesis
  proof (cases "v = KeyOk")
    case True
    with c key_claim_KeyOk have r': "k |\<notin>| kr_banned r" "fmlookup (kr_active r) k = None"
      "kr_active r' = fmupd k a (kr_active r)" "kr_banned r' = kr_banned r" by blast+
    with ok s have "holders k H = 0" if "j = k"
      using that unfolding key_ok_def by (metis fst_conv less_one linorder_not_le order_le_less snd_conv)
    with ok s x c True r' show ?thesis by (auto simp: key_ok_def holders_def)
  next
    case False
    with key_claim_refused [OF c] ok s x c show ?thesis by (simp add: key_ok_def)
  qed
next
  fix k a t r H assume x: "x = ReleaseKey k a t" and s: "s = (r, H)"
  show ?thesis
  proof (cases "(k, a) \<in># H")
    case True
    then obtain H' where H: "H = add_mset (k, a) H'" by (metis multi_member_split)
    have "holders i H' = (if i = k then holders i H - 1 else holders i H)" for i
      by (simp add: H holders_def)
    with ok s x True show ?thesis
      by (auto simp: key_ok_def H key_release_def split: option.splits)
  qed (use ok s x in simp)
next
  fix k r H assume "x = BanKey k" and "s = (r, H)"
  with ok show ?thesis by (auto simp: key_ok_def key_ban_def)
next
  fix k r H assume "x = UnbanKey k" and "s = (r, H)"
  with ok unban show ?thesis by (auto simp: key_ok_def key_unban_def)
qed

lemma key_ok_run:
  assumes "key_ok k s"
    and "\<forall>n < length ops. ops ! n = UnbanKey k \<longrightarrow> holders k (snd (fold key_step (take n ops) s)) = 0"
  shows "key_ok k (fold key_step ops s)"
  using assms(2)
proof (induction ops rule: rev_induct)
  case (snoc x ops)
  have "\<forall>n < length ops. ops ! n = UnbanKey k \<longrightarrow> holders k (snd (fold key_step (take n ops) s)) = 0"
  proof (intro allI impI)
    fix n assume "n < length ops" and "ops ! n = UnbanKey k"
    then show "holders k (snd (fold key_step (take n ops) s)) = 0"
      using snoc.prems [rule_format, of n] by (simp add: nth_append)
  qed
  then have "key_ok k (fold key_step ops s)" by (rule snoc.IH)
  moreover have "holders k (snd (fold key_step ops s)) = 0" if "x = UnbanKey k"
    using snoc.prems [rule_format, of "length ops"] that by simp
  ultimately show ?case by (simp add: key_ok_step)
qed (simp add: assms(1))

text \<open>C14
  One live session per CD key. However claims, releases, bans and unbans interleave, a key is never
  held by two sessions at once, as long as no ban of that key is lifted while a session still holds
  it. That condition is needed: a ban takes the key of a live session out of the active keys, so
  after the ban is lifted the next claim succeeds (\<open>unban_lets_two_in\<close>).
\<close>

theorem one_session_per_key:
  assumes "fold key_step ops (key_registry_new cooldown, {#}) = (r, H)"
    and "\<forall>n < length ops. ops ! n = UnbanKey k \<longrightarrow>
      {#c \<in># snd (fold key_step (take n ops) (key_registry_new cooldown, {#})). fst c = k#} = {#}"
  shows "size {#c \<in># H. fst c = k#} \<le> 1"
proof -
  have "key_ok k (key_registry_new cooldown, {#})" by (simp add: key_ok_def holders_def)
  from key_ok_run [OF this, of ops] assms show ?thesis by (simp add: key_ok_def holders_def)
qed

text \<open>A session claims the key, is thrown out by a ban and ends; the ban is lifted; two claims follow.\<close>

definition demo_keys :: "key_op list" where
  "demo_keys = [ClaimKey [7] 1 0, BanKey [7], ReleaseKey [7] 1 5, UnbanKey [7], ClaimKey [7] 2 900, ClaimKey [7] 3 901]"

corollary one_session_per_key_witness:
  "size {#c \<in># snd (fold key_step demo_keys (key_registry_new 500, {#})). fst c = [7]#} \<le> 1"
proof (rule one_session_per_key [OF surjective_pairing])
  have "holders [7] (snd (fold key_step (take 3 demo_keys) (key_registry_new 500, {#}))) = 0"
    by (simp add: demo_keys_def holders_def key_claim_def key_ban_def key_release_def key_registry_new_def Let_def)
  then show "\<forall>n < length demo_keys. demo_keys ! n = UnbanKey [7] \<longrightarrow>
      {#c \<in># snd (fold key_step (take n demo_keys) (key_registry_new 500, {#})). fst c = [7]#} = {#}"
    by (auto simp: demo_keys_def less_Suc_eq nth_Cons' holders_def split: if_splits)
qed

lemma unban_lets_two_in:
  "{#c \<in># snd (fold key_step [ClaimKey [7] 1 0, BanKey [7], UnbanKey [7], ClaimKey [7] 2 1]
      (key_registry_new 500, {#})). fst c = [7]#} = {#([7], 1), ([7], 2)#}"
  by (simp add: key_claim_def key_ban_def key_unban_def key_registry_new_def Let_def)

definition cools :: "key_id \<Rightarrow> account_id \<Rightarrow> u64 \<Rightarrow> key_registry \<Rightarrow> bool" where
  "cools k a t r \<longleftrightarrow> fmlookup (kr_active r) k = None \<and> fmlookup (kr_cooling r) k = Some (a, t)"

fun key_call :: "key_op \<Rightarrow> key_registry \<Rightarrow> key_registry" where
  "key_call (ClaimKey k a t) r = snd (key_claim k a t r)"
| "key_call (ReleaseKey k a t) r = key_release k t r"
| "key_call (BanKey k) r = key_ban k r"
| "key_call (UnbanKey k) r = snd (key_unban k r)"

fun key_clock :: "key_op \<Rightarrow> u64 \<Rightarrow> u64" where
  "key_clock (ClaimKey k a t) now = t"
| "key_clock (ReleaseKey k a t) now = t"
| "key_clock (BanKey k) now = now"
| "key_clock (UnbanKey k) now = now"

lemma cools_step:
  assumes "cools k a t r" and "sat_sub (key_clock x t) t < kr_cooldown_ms r"
  shows "cools k a t (key_call x r) \<and> kr_cooldown_ms (key_call x r) = kr_cooldown_ms r"
proof (cases x)
  case (ClaimKey j b u)
  with assms show ?thesis
    by (cases "j = k") (auto simp: cools_def key_claim_def Let_def split: option.splits prod.splits)
next
  case (ReleaseKey j b u)
  with assms show ?thesis by (auto simp: cools_def key_release_def split: option.splits)
next
  case (BanKey j)
  with assms show ?thesis by (auto simp: cools_def key_ban_def)
next
  case (UnbanKey j)
  with assms show ?thesis by (auto simp: cools_def key_unban_def)
qed

lemma cools_run:
  "cools k a t r \<Longrightarrow> \<forall>x \<in> set ops. sat_sub (key_clock x t) t < kr_cooldown_ms r \<Longrightarrow>
   cools k a t (fold key_call ops r) \<and> kr_cooldown_ms (fold key_call ops r) = kr_cooldown_ms r"
proof (induction ops arbitrary: r)
  case (Cons x ops)
  with cools_step [of k a t r x] Cons.IH [of "key_call x r"] show ?case by simp
qed simp

text \<open>
  A released key cools down. For the cooldown after the session that held a key releases it, no
  session can claim it, whatever other calls the registry serves in between: a claim is answered
  with the account that held the key, or with the ban of the key.
\<close>

theorem released_key_cools_down:
  assumes "fmlookup (kr_active r) k = Some holder" and "r' = key_release k t r"
    and "\<forall>x \<in> set ops. sat_sub (key_clock x t) t < kr_cooldown_ms r"
    and "sat_sub now t < kr_cooldown_ms r"
  shows "fst (key_claim k a now (fold key_call ops r')) =
    (if k |\<in>| kr_banned (fold key_call ops r') then KeyBanned else KeyInUse holder)"
proof -
  have "cools k holder t r'" "kr_cooldown_ms r' = kr_cooldown_ms r"
    using assms(1,2) by (simp_all add: cools_def key_release_def)
  with cools_run [of k holder t r' ops] assms(3,4) show ?thesis
    by (auto simp: key_claim_def cools_def Let_def split: prod.splits)
qed

corollary released_key_cools_down_witness:
  "fst (key_claim [7] 2 499 (fold key_call [ClaimKey [8] 3 10]
     (key_release [7] 0 (snd (key_claim [7] 1 0 (key_registry_new 500)))))) = KeyInUse 1"
  using released_key_cools_down [of "snd (key_claim [7] 1 0 (key_registry_new 500))" "[7]" 1 _ 0
      "[ClaimKey [8] 3 10]" 499 2, OF _ refl]
  by (simp add: key_claim_def key_registry_new_def key_release_def sat_sub_def Let_def)

end
