(* ===== verification/Attr.thy ===== *)
theory Attr
  imports Channel
begin

text \<open>
  \<open>bnetcc-storage/src/attr.rs\<close>: account attributes and their access control. An \<open>AttrMap\<close> is a
  finite map; where the source iterates one it does so in key order.
\<close>

section \<open>Actors and levels\<close>

datatype actor = ActorOther | ActorOwner account_id | ActorInternal | ActorAdmin

datatype level = LevelAny | LevelOwner | LevelInternal

fun permits :: "level \<Rightarrow> actor \<Rightarrow> account_id \<Rightarrow> bool" where
  "permits LevelAny a owner = True"
| "permits LevelOwner a owner =
     (case a of
        ActorInternal \<Rightarrow> True
      | ActorAdmin \<Rightarrow> True
      | ActorOwner i \<Rightarrow> i = owner
      | ActorOther \<Rightarrow> False)"
| "permits LevelInternal a owner = (a = ActorInternal)"

record acl =
  acl_read :: level
  acl_write :: level

definition ACL_PUBLIC :: acl where "ACL_PUBLIC = \<lparr>acl_read = LevelAny, acl_write = LevelOwner\<rparr>"
definition ACL_PRIVATE :: acl where "ACL_PRIVATE = \<lparr>acl_read = LevelOwner, acl_write = LevelOwner\<rparr>"
definition ACL_SERVER_PUBLIC :: acl where
  "ACL_SERVER_PUBLIC = \<lparr>acl_read = LevelAny, acl_write = LevelInternal\<rparr>"
definition ACL_SECRET :: acl where "ACL_SECRET = \<lparr>acl_read = LevelInternal, acl_write = LevelInternal\<rparr>"

section \<open>Keys\<close>

datatype attr_key = AttrKey (key_str: bytes)

instantiation attr_key :: linorder
begin

definition less_eq_attr_key :: "attr_key \<Rightarrow> attr_key \<Rightarrow> bool" where
  "less_eq_attr_key a b \<longleftrightarrow> key_str a \<le> key_str b"

definition less_attr_key :: "attr_key \<Rightarrow> attr_key \<Rightarrow> bool" where
  "less_attr_key a b \<longleftrightarrow> key_str a < key_str b"

instance
  by standard (auto simp: less_eq_attr_key_def less_attr_key_def attr_key.expand)

end

definition BACKSLASH :: u8 where "BACKSLASH = 0x5C"

definition key_new :: "bytes \<Rightarrow> attr_key" where
  "key_new raw = AttrKey (lowercase (map (\<lambda>b. if b = 0x2F then BACKSLASH else b) (trim raw)))"

definition key_namespace :: "attr_key \<Rightarrow> bytes" where
  "key_namespace k = takeWhile (\<lambda>b. b \<noteq> BACKSLASH) (key_str k)"

type_synonym attr_map = "(attr_key, bytes) fmap"

definition backslashed :: "string \<Rightarrow> string \<Rightarrow> bytes" where
  "backslashed a b = ascii a @ [BACKSLASH] @ ascii b"

definition KEY_USERNAME :: bytes where "KEY_USERNAME = backslashed ''System'' ''Username''"
definition KEY_PASSWORD_DIGEST :: bytes where
  "KEY_PASSWORD_DIGEST = backslashed ''System'' ''Password Digest''"
definition KEY_SRP_SALT :: bytes where "KEY_SRP_SALT = backslashed ''System'' ''SRP Salt''"
definition KEY_SRP_VERIFIER :: bytes where "KEY_SRP_VERIFIER = backslashed ''System'' ''SRP Verifier''"
definition KEY_FLAGS :: bytes where "KEY_FLAGS = backslashed ''System'' ''Flags''"
definition KEY_LAST_LOGON :: bytes where "KEY_LAST_LOGON = backslashed ''System'' ''Last Logon''"
definition KEY_FRIENDS :: bytes where "KEY_FRIENDS = backslashed ''System'' ''Friends''"
definition KEY_PROFILE_LOCATION :: bytes where "KEY_PROFILE_LOCATION = backslashed ''profile'' ''location''"
definition KEY_PROFILE_DESCRIPTION :: bytes where
  "KEY_PROFILE_DESCRIPTION = backslashed ''profile'' ''description''"

section \<open>The schema\<close>

record attr_schema =
  sc_rules :: "(bytes \<times> acl) list"
  sc_fallback :: acl

definition schema_empty :: "acl \<Rightarrow> attr_schema" where
  "schema_empty fallback = \<lparr>sc_rules = [], sc_fallback = fallback\<rparr>"

text \<open>\<open>sort_by_key\<close> is a stable sort.\<close>

definition schema_set :: "bytes \<Rightarrow> acl \<Rightarrow> attr_schema \<Rightarrow> attr_schema" where
  "schema_set prefix a s =
     (let key = key_str (key_new prefix);
          rules = filter (\<lambda>(p, _). p \<noteq> key) (sc_rules s) @ [(key, a)]
      in s\<lparr>sc_rules := sort_key (\<lambda>(p, _). - int (length p)) rules\<rparr>)"

definition covers :: "bytes \<Rightarrow> attr_key \<Rightarrow> bool" where
  "covers prefix k \<longleftrightarrow> key_str k = prefix \<or> starts_with (key_str k) (prefix @ [BACKSLASH])"

definition acl_of :: "attr_schema \<Rightarrow> attr_key \<Rightarrow> acl" where
  "acl_of s k = (case find (\<lambda>(p, _). covers p k) (sc_rules s) of Some (_, a) \<Rightarrow> a | None \<Rightarrow> sc_fallback s)"

definition can_read :: "attr_schema \<Rightarrow> attr_key \<Rightarrow> actor \<Rightarrow> account_id \<Rightarrow> bool" where
  "can_read s k a owner = permits (acl_read (acl_of s k)) a owner"

definition can_write :: "attr_schema \<Rightarrow> attr_key \<Rightarrow> actor \<Rightarrow> account_id \<Rightarrow> bool" where
  "can_write s k a owner = permits (acl_write (acl_of s k)) a owner"

definition schema_default :: attr_schema where
  "schema_default =
     schema_set (ascii ''profile'') ACL_PUBLIC (schema_set (ascii ''Record'') ACL_SERVER_PUBLIC
       (schema_set (ascii ''System'') ACL_SERVER_PUBLIC (schema_set KEY_SRP_VERIFIER ACL_SECRET
         (schema_set KEY_SRP_SALT ACL_SECRET (schema_set KEY_PASSWORD_DIGEST ACL_SECRET
           (schema_empty ACL_PRIVATE))))))"

definition filter_readable :: "attr_schema \<Rightarrow> attr_map \<Rightarrow> actor \<Rightarrow> account_id \<Rightarrow> attr_map" where
  "filter_readable s attrs a owner = fmfilter (\<lambda>k. can_read s k a owner) attrs"

definition partition_writable :: "attr_schema \<Rightarrow> attr_map \<Rightarrow> actor \<Rightarrow> account_id \<Rightarrow>
    attr_map \<times> attr_key list" where
  "partition_writable s attrs a owner =
     (fmfilter (\<lambda>k. can_write s k a owner) attrs,
      filter (\<lambda>k. \<not> can_write s k a owner) (sorted_list_of_fset (fmdom attrs)))"

section \<open>Rules by longest prefix\<close>

text \<open>Two prefixes of one length that cover the same key are the same prefix.\<close>

lemma covers_take: "covers p k \<Longrightarrow> take (length p) (key_str k) = p"
  unfolding covers_def starts_with_def
proof (elim disjE)
  assume "take (length (p @ [BACKSLASH])) (key_str k) = p @ [BACKSLASH]"
  from arg_cong [OF this, of "take (length p)"] show ?thesis by simp
qed simp

lemma covers_same_length: "covers p k \<Longrightarrow> covers q k \<Longrightarrow> length p = length q \<Longrightarrow> p = q"
  by (metis covers_take)

definition schema_sorted :: "attr_schema \<Rightarrow> bool" where
  "schema_sorted s \<longleftrightarrow> sorted (map (\<lambda>(p, _). - int (length p)) (sc_rules s)) \<and>
     distinct (map fst (sc_rules s))"

lemma schema_sorted_empty: "schema_sorted (schema_empty f)"
  by (simp add: schema_sorted_def schema_empty_def)

lemma schema_sorted_set:
  assumes "schema_sorted s"
  shows "schema_sorted (schema_set p a s)"
proof -
  let ?P = "\<lambda>(q, _). q \<noteq> key_str (key_new p)"
  have "distinct (map fst (filter ?P (sc_rules s)))"
    using assms by (intro distinct_map_filter) (simp add: schema_sorted_def)
  then have "distinct (map fst (filter ?P (sc_rules s) @ [(key_str (key_new p), a)]))" by auto
  then show ?thesis
    by (simp add: schema_sorted_def schema_set_def Let_def distinct_map)
qed

lemma set_rules: "set (sc_rules (schema_set p a s)) =
    insert (key_str (key_new p), a) {r \<in> set (sc_rules s). fst r \<noteq> key_str (key_new p)}"
  by (auto simp: schema_set_def Let_def)

lemma acl_of_longest:
  assumes s: "schema_sorted s" and rule: "(p, a) \<in> set (sc_rules s)" "covers p k"
    and longest: "\<And>q b. (q, b) \<in> set (sc_rules s) \<Longrightarrow> covers q k \<Longrightarrow> length q \<le> length p"
  shows "acl_of s k = a"
proof -
  let ?R = "sc_rules s"
  from rule obtain r where find: "find (\<lambda>(p, _). covers p k) ?R = Some r"
    by (cases "find (\<lambda>(p, _). covers p k) ?R") (auto simp: find_None_iff)
  then obtain i where i: "i < length ?R" "covers (fst (?R ! i)) k" "r = ?R ! i"
    "\<forall>j < i. \<not> covers (fst (?R ! j)) k"
    unfolding find_Some_iff by (auto simp: case_prod_unfold)
  from rule(1) obtain j where j: "j < length ?R" "?R ! j = (p, a)" by (metis in_set_conv_nth)
  with i(4) rule(2) have "i \<le> j" by (metis fst_conv linorder_not_le)
  with s i(1) j have "length p \<le> length (fst (?R ! i))"
    unfolding schema_sorted_def by (auto dest: sorted_nth_mono [of _ i j] simp: case_prod_unfold)
  moreover have "length (fst (?R ! i)) \<le> length p"
    using longest [of "fst (?R ! i)" "snd (?R ! i)"] i(1,2) by simp
  ultimately have "fst (?R ! i) = p"
    using covers_same_length [OF i(2) rule(2)] by simp
  with s i(1) j have "i = j"
    unfolding schema_sorted_def by (metis fst_conv length_map nth_eq_iff_index_eq nth_map)
  with find i(3) j(2) show ?thesis by (simp add: acl_of_def)
qed

lemma acl_of_none: "(\<And>p a. (p, a) \<in> set (sc_rules s) \<Longrightarrow> \<not> covers p k) \<Longrightarrow> acl_of s k = sc_fallback s"
  by (auto simp: acl_of_def find_None_iff split: option.splits dest!: find_Some_iff [THEN iffD1] nth_mem)

section \<open>The default schema\<close>

lemma default_sorted: "schema_sorted schema_default"
  unfolding schema_default_def by (intro schema_sorted_set schema_sorted_empty)

lemma default_rules:
  "set (sc_rules schema_default) =
     {(lowercase KEY_PASSWORD_DIGEST, ACL_SECRET), (lowercase KEY_SRP_SALT, ACL_SECRET),
      (lowercase KEY_SRP_VERIFIER, ACL_SECRET), (ascii ''system'', ACL_SERVER_PUBLIC),
      (ascii ''record'', ACL_SERVER_PUBLIC), (ascii ''profile'', ACL_PUBLIC)}"
  "sc_fallback schema_default = ACL_PRIVATE"
proof -
  have keys: "key_str (key_new KEY_PASSWORD_DIGEST) = lowercase KEY_PASSWORD_DIGEST"
    "key_str (key_new KEY_SRP_SALT) = lowercase KEY_SRP_SALT"
    "key_str (key_new KEY_SRP_VERIFIER) = lowercase KEY_SRP_VERIFIER"
    "key_str (key_new (ascii ''System'')) = ascii ''system''"
    "key_str (key_new (ascii ''Record'')) = ascii ''record''"
    "key_str (key_new (ascii ''profile'')) = ascii ''profile''" by code_simp+
  have differ: "distinct [lowercase KEY_PASSWORD_DIGEST, lowercase KEY_SRP_SALT,
      lowercase KEY_SRP_VERIFIER, ascii ''system'', ascii ''record'', ascii ''profile'']" by code_simp
  show "set (sc_rules schema_default) =
     {(lowercase KEY_PASSWORD_DIGEST, ACL_SECRET), (lowercase KEY_SRP_SALT, ACL_SECRET),
      (lowercase KEY_SRP_VERIFIER, ACL_SECRET), (ascii ''system'', ACL_SERVER_PUBLIC),
      (ascii ''record'', ACL_SERVER_PUBLIC), (ascii ''profile'', ACL_PUBLIC)}"
    using differ unfolding schema_default_def set_rules keys
    by (auto simp: schema_empty_def)
  show "sc_fallback schema_default = ACL_PRIVATE"
    by (simp add: schema_default_def schema_set_def schema_empty_def Let_def)
qed

text \<open>A key is secret when it is one of the three credential keys or below one.\<close>

definition secret_key :: "attr_key \<Rightarrow> bool" where
  "secret_key k \<longleftrightarrow> (\<exists>p \<in> {KEY_PASSWORD_DIGEST, KEY_SRP_SALT, KEY_SRP_VERIFIER}. covers (lowercase p) k)"

lemma covers_namespace: "covers p k \<Longrightarrow> BACKSLASH \<notin> set p \<Longrightarrow> key_namespace k = p"
proof -
  assume "covers p k" and p: "BACKSLASH \<notin> set p"
  then consider "key_str k = p" | r where "key_str k = p @ BACKSLASH # r"
    unfolding covers_def starts_with_def by (metis append_take_drop_id append_assoc append_Cons append_Nil)
  then show ?thesis
    using p by cases (auto simp: key_namespace_def takeWhile_append takeWhile_eq_all_conv)
qed

lemma namespace_covers: "covers (key_namespace k) k"
proof (cases "dropWhile (\<lambda>b. b \<noteq> BACKSLASH) (key_str k)")
  case Nil
  then have "key_str k = key_namespace k"
    unfolding key_namespace_def by (metis append_Nil2 takeWhile_dropWhile_id)
  then show ?thesis by (simp add: covers_def)
next
  case (Cons b r)
  then have "b = BACKSLASH" by (metis (mono_tags) hd_dropWhile list.discI list.sel(1))
  with Cons have "key_str k = key_namespace k @ BACKSLASH # r"
    unfolding key_namespace_def by (metis takeWhile_dropWhile_id)
  then show ?thesis by (simp add: covers_def starts_with_def)
qed

lemma plain_prefixes: "BACKSLASH \<notin> set (ascii ''system'')" "BACKSLASH \<notin> set (ascii ''record'')"
  "BACKSLASH \<notin> set (ascii ''profile'')"
  by (simp_all add: ascii_def BACKSLASH_def)

lemma key_lengths: "length KEY_PASSWORD_DIGEST = 22" "length KEY_SRP_SALT = 15"
  "length KEY_SRP_VERIFIER = 19" "length (ascii ''system'') = 6"
  "length (ascii ''record'') = 6" "length (ascii ''profile'') = 7"
  by code_simp+

lemma acl_secret:
  assumes "secret_key k"
  shows "acl_of schema_default k = ACL_SECRET"
proof -
  let ?S = "{lowercase KEY_PASSWORD_DIGEST, lowercase KEY_SRP_SALT, lowercase KEY_SRP_VERIFIER}"
  from assms obtain p0 where p0: "p0 \<in> ?S \<and> covers p0 k" by (auto simp: secret_key_def)
  have "\<forall>q. q \<in> ?S \<and> covers q k \<longrightarrow> length q < 23" by (auto simp: key_lengths)
  from ex_has_greatest_nat [OF p0 this] obtain p
    where p: "p \<in> ?S" "covers p k" and max: "\<forall>q. q \<in> ?S \<and> covers q k \<longrightarrow> length q \<le> length p"
    by blast
  show ?thesis
  proof (rule acl_of_longest [OF default_sorted _ p(2)])
    show "(p, ACL_SECRET) \<in> set (sc_rules schema_default)" using p(1) by (auto simp: default_rules)
    fix q b assume q: "(q, b) \<in> set (sc_rules schema_default)" "covers q k"
    have "15 \<le> length p" using p(1) by (auto simp: key_lengths)
    moreover from q(1) have "q \<in> ?S \<or> length q \<le> 7" by (auto simp: default_rules key_lengths)
    ultimately show "length q \<le> length p" using max q(2) by force
  qed
qed

lemma acl_namespace:
  assumes "\<not> secret_key k" and "(key_namespace k, a) \<in> set (sc_rules schema_default)"
  shows "acl_of schema_default k = a"
proof (rule acl_of_longest [OF default_sorted assms(2) namespace_covers])
  fix q b assume q: "(q, b) \<in> set (sc_rules schema_default)" "covers q k"
  with assms(1) have "BACKSLASH \<notin> set q"
    using plain_prefixes by (auto simp: default_rules secret_key_def)
  with q(2) show "length q \<le> length (key_namespace k)" by (simp add: covers_namespace)
qed

lemma acl_other:
  assumes "\<not> secret_key k" and "key_namespace k \<notin> {ascii ''system'', ascii ''record'', ascii ''profile''}"
  shows "acl_of schema_default k = ACL_PRIVATE"
proof -
  have "\<not> covers p k" if "(p, a) \<in> set (sc_rules schema_default)" for p a
    using that assms covers_namespace [of p k] plain_prefixes
    by (auto simp: default_rules(1) secret_key_def)
  then show ?thesis using acl_of_none default_rules(2) by metis
qed

text \<open>C11
  Under the default schema credentials are out of reach. A key that is the password digest, the SRP
  salt or the SRP verifier, or lies below one, can be read and written by the server itself and by
  nobody else, staff and the owner included; whatever attributes an account has, what is left
  after filtering them for any other actor holds no such key; and a write by any other actor is
  refused for every such key, which is reported back.
\<close>

theorem credentials_out_of_reach:
  assumes "secret_key k"
  shows "(can_read schema_default k a owner \<longleftrightarrow> a = ActorInternal) \<and>
    (can_write schema_default k a owner \<longleftrightarrow> a = ActorInternal) \<and>
    (a \<noteq> ActorInternal \<longrightarrow>
       fmlookup (filter_readable schema_default attrs a owner) k = None \<and>
       fmlookup (fst (partition_writable schema_default attrs a owner)) k = None \<and>
       (k |\<in>| fmdom attrs \<longrightarrow> k \<in> set (snd (partition_writable schema_default attrs a owner))))"
  by (simp add: can_read_def can_write_def acl_secret [OF assms] ACL_SECRET_def filter_readable_def
      partition_writable_def)

corollary credentials_out_of_reach_witness:
  "\<not> can_read schema_default (key_new KEY_PASSWORD_DIGEST) ActorAdmin 7"
proof -
  have "key_str (key_new KEY_PASSWORD_DIGEST) = lowercase KEY_PASSWORD_DIGEST" by code_simp
  then have "secret_key (key_new KEY_PASSWORD_DIGEST)" by (simp add: secret_key_def covers_def)
  from credentials_out_of_reach [OF this, of ActorAdmin 7] show ?thesis by simp
qed

text \<open>
  The default schema on every other key: what is under \<open>system\<close> or \<open>record\<close> anyone may read and
  only the server write; what is under \<open>profile\<close> anyone may read and the owner, staff and the
  server write; and a key under no known namespace is private to those three.
\<close>

theorem default_schema_by_namespace:
  assumes "\<not> secret_key k"
  shows "acl_of schema_default k =
    (if key_namespace k \<in> {ascii ''system'', ascii ''record''} then ACL_SERVER_PUBLIC
     else if key_namespace k = ascii ''profile'' then ACL_PUBLIC else ACL_PRIVATE)"
  using acl_namespace [OF assms] acl_other [OF assms] by (auto simp: default_rules(1))

corollary default_schema_by_namespace_witness:
  "acl_of schema_default (key_new KEY_PROFILE_LOCATION) = ACL_PUBLIC"
proof -
  have "\<not> secret_key (key_new KEY_PROFILE_LOCATION)" by code_simp
  moreover have "key_namespace (key_new KEY_PROFILE_LOCATION) = ascii ''profile''"
    "ascii ''profile'' \<noteq> ascii ''system''" "ascii ''profile'' \<noteq> ascii ''record''" by code_simp+
  ultimately show ?thesis using default_schema_by_namespace by simp
qed

text \<open>
  In any schema built by adding rules the longest rule decides: if a rule covers a key and no
  longer one does, the access in force is that rule's; if none does, it is the fallback.
\<close>

theorem longest_rule_decides:
  assumes "s = fold (\<lambda>(p, a) s. schema_set p a s) rules (schema_empty f)"
  shows "(\<forall>p a. (p, a) \<in> set (sc_rules s) \<and> covers p k \<and>
      (\<forall>(q, b) \<in> set (sc_rules s). covers q k \<longrightarrow> length q \<le> length p) \<longrightarrow> acl_of s k = a) \<and>
    ((\<forall>(p, a) \<in> set (sc_rules s). \<not> covers p k) \<longrightarrow> acl_of s k = f)"
proof -
  have "schema_sorted s \<and> sc_fallback s = f" if "schema_sorted s0 \<and> sc_fallback s0 = f"
    "s = fold (\<lambda>(p, a) s. schema_set p a s) rules s0" for s s0
    using that
  proof (induction rules arbitrary: s0)
    case (Cons r rules)
    have "sc_fallback (schema_set (fst r) (snd r) s0) = f"
      using Cons.prems(1) by (simp add: schema_set_def Let_def)
    with Cons schema_sorted_set show ?case by (auto simp: case_prod_unfold)
  qed simp
  from this [of "schema_empty f" s] assms schema_sorted_empty [of f]
  have s: "schema_sorted s" "sc_fallback s = f" by (simp_all add: schema_empty_def)
  show ?thesis
    using acl_of_longest [OF s(1)] acl_of_none [of s k] s(2) by blast
qed

definition demo_schema :: attr_schema where
  "demo_schema = fold (\<lambda>(p, a) s. schema_set p a s)
     [(ascii ''System'', ACL_SERVER_PUBLIC), (KEY_FLAGS, ACL_SECRET)] (schema_empty ACL_PRIVATE)"

corollary longest_rule_decides_witness:
  "acl_of demo_schema (key_new KEY_FLAGS) = ACL_SECRET"
proof -
  have rules: "sc_rules demo_schema = [(lowercase KEY_FLAGS, ACL_SECRET), (ascii ''system'', ACL_SERVER_PUBLIC)]"
    by code_simp
  have "covers (lowercase KEY_FLAGS) (key_new KEY_FLAGS)" "length (ascii ''system'') \<le> length KEY_FLAGS"
    by code_simp+
  moreover note longest_rule_decides [OF demo_schema_def, of "key_new KEY_FLAGS", THEN conjunct1,
      THEN spec, THEN spec, of "lowercase KEY_FLAGS" ACL_SECRET]
  ultimately show ?thesis by (simp add: rules)
qed

end
