(* ===== verification/Bridge.thy ===== *)
theory Bridge
  imports Channel
begin

text \<open>
  \<open>bnetcc-core/src/bridge.rs\<close>: the names bridged users get, the registry of the identities one
  bridge presents, and the origin chain that stops messages from looping.
\<close>

section \<open>Names\<close>

definition SEPARATOR :: u8 where "SEPARATOR = 0x3A"
definition MAX_NAME :: nat where "MAX_NAME = 15"
definition MAX_TAG :: nat where "MAX_TAG = 3"
definition MAX_HOPS :: nat where "MAX_HOPS = 3"
definition FALLBACK_STEM :: bytes where "FALLBACK_STEM = ascii ''user''"

datatype bridge_error = TagLength nat | TagCharacters | EmptyRemoteId

datatype bridge_tag = BridgeTag (tag_str: bytes)

definition tag_new :: "bytes \<Rightarrow> (bridge_error, bridge_tag) outcome" where
  "tag_new raw =
     (if raw = [] \<or> length raw > MAX_TAG then Err (TagLength (length raw))
      else if \<not> list_all is_alnum raw then Err TagCharacters
      else Ok (BridgeTag raw))"

definition prefix_len :: "bridge_tag \<Rightarrow> nat" where
  "prefix_len t = length (tag_str t) + 1"

definition split_once :: "u8 \<Rightarrow> bytes \<Rightarrow> (bytes \<times> bytes) option" where
  "split_once sep s =
     (case find_index (\<lambda>b. b = sep) s of
        None \<Rightarrow> None
      | Some k \<Rightarrow> Some (take k s, drop (Suc k) s))"

definition is_bridged_name :: "bytes \<Rightarrow> bridge_tag option" where
  "is_bridged_name name =
     (case split_once SEPARATOR name of
        None \<Rightarrow> None
      | Some (tag, rest) \<Rightarrow>
          if rest = [] then None
          else case tag_new tag of Ok t \<Rightarrow> Some t | _ \<Rightarrow> None)"

definition name_is_reserved_for_bridges :: "bytes \<Rightarrow> bool" where
  "name_is_reserved_for_bridges name \<longleftrightarrow> SEPARATOR \<in> set name"

text \<open>Every byte of a character outside ASCII is dropped with it, so filtering bytes is enough.\<close>

definition name_byte :: "u8 \<Rightarrow> bool" where
  "name_byte b \<longleftrightarrow> is_alnum b \<or> b \<in> {0x2D, 0x5F, 0x5B, 0x5D}"

definition sanitize_remote_name :: "bytes \<Rightarrow> bytes" where
  "sanitize_remote_name display =
     (let cleaned = filter name_byte display in if cleaned = [] then FALLBACK_STEM else cleaned)"

definition derive_name :: "bridge_tag \<Rightarrow> bytes \<Rightarrow> nat option \<Rightarrow> bytes" where
  "derive_name tag display suffix =
     (let stem = sanitize_remote_name display;
          suffix_str = (case suffix of None \<Rightarrow> [] | Some n \<Rightarrow> 0x23 # decimal n);
          budget = MAX_NAME - prefix_len tag - length suffix_str;
          truncated = take budget stem
      in tag_str tag @ [SEPARATOR] @ truncated @ suffix_str)"

section \<open>The registry\<close>

record bridged_user =
  bu_account :: account_id
  bu_remote_id :: bytes
  bu_name :: bytes

datatype upsert_result = Added bridged_user | Renamed bridged_user bytes | Unchanged bridged_user

fun upsert_user :: "upsert_result \<Rightarrow> bridged_user" where
  "upsert_user (Added u) = u"
| "upsert_user (Renamed u previous) = u"
| "upsert_user (Unchanged u) = u"

record bridge_registry =
  br_tag :: bridge_tag
  br_by_remote :: "(bytes, bridged_user) fmap"
  br_by_name :: "(bytes, bytes) fmap"

definition registry_new :: "bridge_tag \<Rightarrow> bridge_registry" where
  "registry_new t = \<lparr>br_tag = t, br_by_remote = fmempty, br_by_name = fmempty\<rparr>"

definition br_len :: "bridge_registry \<Rightarrow> nat" where
  "br_len g = fcard (fmdom (br_by_remote g))"

definition by_remote_id :: "bridge_registry \<Rightarrow> bytes \<Rightarrow> bridged_user option" where
  "by_remote_id g r = fmlookup (br_by_remote g) r"

definition by_name :: "bridge_registry \<Rightarrow> bytes \<Rightarrow> bridged_user option" where
  "by_name g n =
     (case fmlookup (br_by_name g) (lowercase n) of
        None \<Rightarrow> None
      | Some r \<Rightarrow> fmlookup (br_by_remote g) r)"

definition name_free :: "bridge_registry \<Rightarrow> bytes \<Rightarrow> bytes \<Rightarrow> bool" where
  "name_free g remote_id candidate \<longleftrightarrow>
     (case fmlookup (br_by_name g) (lowercase candidate) of
        None \<Rightarrow> True
      | Some holder \<Rightarrow> holder = remote_id)"

definition allocate_name :: "bytes \<Rightarrow> bytes \<Rightarrow> bridge_registry \<Rightarrow> bytes" where
  "allocate_name display remote_id g =
     (let first = derive_name (br_tag g) display None in
      if name_free g remote_id first then first
      else case find (name_free g remote_id)
                  (map (\<lambda>n. derive_name (br_tag g) display (Some n)) [2..<100]) of
             Some candidate \<Rightarrow> candidate
           | None \<Rightarrow> derive_name (br_tag g) remote_id None)"

definition upsert :: "bytes \<Rightarrow> bytes \<Rightarrow> account_id \<Rightarrow> bridge_registry \<Rightarrow>
    (bridge_error, upsert_result \<times> bridge_registry) outcome" where
  "upsert remote_id display account g =
     (if remote_id = [] then Err EmptyRemoteId
      else
        let existing = fmlookup (br_by_remote g) remote_id;
            keep_account = (case existing of None \<Rightarrow> account | Some u \<Rightarrow> bu_account u);
            name = allocate_name display remote_id g in
        case existing of
          Some prev \<Rightarrow>
            if bu_name prev = name then Ok (Unchanged prev, g)
            else
              let names = fmdrop (lowercase (bu_name prev)) (br_by_name g);
                  user = \<lparr>bu_account = keep_account, bu_remote_id = remote_id, bu_name = name\<rparr>
              in Ok (Renamed user (bu_name prev),
                     g\<lparr>br_by_name := fmupd (lowercase name) remote_id names,
                       br_by_remote := fmupd remote_id user (br_by_remote g)\<rparr>)
        | None \<Rightarrow>
            let user = \<lparr>bu_account = account, bu_remote_id = remote_id, bu_name = name\<rparr>
            in Ok (Added user,
                   g\<lparr>br_by_name := fmupd (lowercase name) remote_id (br_by_name g),
                     br_by_remote := fmupd remote_id user (br_by_remote g)\<rparr>))"

definition br_remove :: "bytes \<Rightarrow> bridge_registry \<Rightarrow> bridged_user option \<times> bridge_registry" where
  "br_remove remote_id g =
     (case fmlookup (br_by_remote g) remote_id of
        None \<Rightarrow> (None, g)
      | Some user \<Rightarrow>
          (Some user, g\<lparr>br_by_remote := fmdrop remote_id (br_by_remote g),
                        br_by_name := fmdrop (lowercase (bu_name user)) (br_by_name g)\<rparr>))"

section \<open>The origin chain\<close>

record origin_chain =
  oc_hops :: "bridge_tag list"

definition origin_local :: origin_chain where
  "origin_local = \<lparr>oc_hops = []\<rparr>"

definition origin_from_bridge :: "bridge_tag \<Rightarrow> origin_chain" where
  "origin_from_bridge t = \<lparr>oc_hops = [t]\<rparr>"

definition may_deliver_to :: "origin_chain \<Rightarrow> bridge_tag \<Rightarrow> bool" where
  "may_deliver_to c t \<longleftrightarrow> \<not> length (oc_hops c) \<ge> MAX_HOPS \<and> t \<notin> set (oc_hops c)"

definition origin_push :: "bridge_tag \<Rightarrow> origin_chain \<Rightarrow> bool \<times> origin_chain" where
  "origin_push t c = (if may_deliver_to c t then (True, c\<lparr>oc_hops := oc_hops c @ [t]\<rparr>) else (False, c))"

end
