(* ===== verification/Bridge_Rules.thy ===== *)
theory Bridge_Rules
  imports Bridge
begin

text \<open>
  What bridged identities guarantee: names that are unique, short and recognisable as bridged,
  accounts that survive renames, and messages that do not loop.
\<close>

section \<open>Derived names\<close>

definition valid_tag :: "bridge_tag \<Rightarrow> bool" where
  "valid_tag t \<longleftrightarrow> tag_str t \<noteq> [] \<and> length (tag_str t) \<le> 3 \<and> list_all is_alnum (tag_str t)"

lemma tag_new_valid: "tag_new raw = Ok t \<Longrightarrow> valid_tag t"
  by (auto simp: tag_new_def valid_tag_def MAX_TAG_def split: if_splits)

definition suffix_of :: "nat option \<Rightarrow> bytes" where
  "suffix_of s = (case s of None \<Rightarrow> [] | Some n \<Rightarrow> 0x23 # decimal n)"

lemma alnum_plain: "is_alnum b \<Longrightarrow> b \<noteq> 0x23 \<and> b \<noteq> 0x3A"
  by (auto simp: is_alnum_def is_upper_def is_lower_def is_digit_def)

lemma stem_bytes: "b \<in> set (sanitize_remote_name d) \<Longrightarrow> name_byte b"
  by (auto simp: sanitize_remote_name_def Let_def FALLBACK_STEM_def ascii_def name_byte_def is_alnum_def
      is_lower_def is_upper_def split: if_splits)

lemma stem_not_Nil: "sanitize_remote_name d \<noteq> []"
  by (auto simp: sanitize_remote_name_def Let_def FALLBACK_STEM_def ascii_def)

lemma derive_name_eq:
  "derive_name t d s = tag_str t @ SEPARATOR #
     take (MAX_NAME - prefix_len t - length (suffix_of s)) (sanitize_remote_name d) @ suffix_of s"
  by (simp add: derive_name_def suffix_of_def Let_def split: option.splits)

lemma length_decimal_100: "n < 100 \<Longrightarrow> length (decimal n) \<le> 2"
  using length_decimal [of n 1] by (simp add: numeral_2_eq_2)

lemma length_suffix: "s = None \<or> (\<exists>n < 100. s = Some n) \<Longrightarrow> length (suffix_of s) \<le> 3"
  by (auto simp: suffix_of_def dest!: length_decimal_100)

lemma length_derive_name:
  assumes "valid_tag t" and "s = None \<or> (\<exists>n < 100. s = Some n)"
  shows "length (derive_name t d s) \<le> 15"
  using assms(1) length_suffix [OF assms(2)]
  by (auto simp: derive_name_eq valid_tag_def prefix_len_def MAX_NAME_def min_def)

lemma lower_hash: "lower b = 0x23 \<longleftrightarrow> b = 0x23"
  by (auto simp: lower_def is_upper_def word_le_nat_alt unat_word_ariths word_unat_eq_iff)

lemma derived_suffix:
  assumes "valid_tag t"
  shows "dropWhile (\<lambda>b. b \<noteq> 0x23) (lowercase (derive_name t d s)) = suffix_of s"
proof -
  let ?stem = "take (MAX_NAME - prefix_len t - length (suffix_of s)) (sanitize_remote_name d)"
  have "lower b \<noteq> 0x23" if "b \<in> set (tag_str t @ SEPARATOR # ?stem)" for b
  proof -
    from that consider "b \<in> set (tag_str t)" | "b = SEPARATOR" | "b \<in> set (sanitize_remote_name d)"
      by (auto dest: in_set_takeD)
    then have "b \<noteq> 0x23"
    proof cases
      case 1
      with assms alnum_plain show ?thesis by (auto simp: valid_tag_def list_all_iff)
    next
      case 3
      from stem_bytes [OF this] alnum_plain [of b] show ?thesis by (auto simp: name_byte_def)
    qed (simp add: SEPARATOR_def)
    then show ?thesis by (simp add: lower_hash)
  qed
  then have "dropWhile (\<lambda>b. b \<noteq> 0x23) (lowercase (tag_str t @ SEPARATOR # ?stem) @ lowercase (suffix_of s)) =
      dropWhile (\<lambda>b. b \<noteq> 0x23) (lowercase (suffix_of s))"
    by (intro dropWhile_append2) auto
  moreover have "lowercase (suffix_of s) = suffix_of s" "dropWhile (\<lambda>b. b \<noteq> 0x23) (suffix_of s) = suffix_of s"
    by (auto simp: suffix_of_def lowercase_decimal lower_def is_upper_def split: option.splits)
  ultimately show ?thesis by (simp add: derive_name_eq)
qed

lemma derived_names_differ:
  assumes "valid_tag t" and "lowercase (derive_name t d s) = lowercase (derive_name t d' s')"
  shows "s = s'"
  using derived_suffix [OF assms(1), of d s] derived_suffix [OF assms(1), of d' s'] assms(2)
  by (auto simp: suffix_of_def split: option.splits)

lemma derived_is_bridged:
  assumes "valid_tag t" and "s = None \<or> (\<exists>n < 100. s = Some n)"
  shows "is_bridged_name (derive_name t d s) = Some t"
proof -
  let ?rest = "take (MAX_NAME - prefix_len t - length (suffix_of s)) (sanitize_remote_name d) @ suffix_of s"
  have "SEPARATOR \<notin> set (tag_str t)"
    using assms(1) alnum_plain by (fastforce simp: valid_tag_def list_all_iff SEPARATOR_def)
  then have "find_index (\<lambda>b. b = SEPARATOR) (tag_str t) = None" by (auto simp: find_index_None)
  then have "find_index (\<lambda>b. b = SEPARATOR) (derive_name t d s) = Some (length (tag_str t))"
    by (simp add: derive_name_eq find_index_append)
  then have "split_once SEPARATOR (derive_name t d s) = Some (tag_str t, ?rest)"
    by (simp add: split_once_def derive_name_eq)
  moreover have "?rest \<noteq> []"
    using assms(1) length_suffix [OF assms(2)] stem_not_Nil [of d]
    by (auto simp: valid_tag_def prefix_len_def MAX_NAME_def)
  moreover have "tag_new (tag_str t) = (Ok t :: (bridge_error, bridge_tag) outcome)"
    using assms(1) by (cases t) (auto simp: tag_new_def valid_tag_def MAX_TAG_def)
  ultimately show ?thesis by (simp add: is_bridged_name_def)
qed

lemma bridged_reserved: "is_bridged_name n = Some t \<Longrightarrow> name_is_reserved_for_bridges n"
proof (rule ccontr)
  assume "is_bridged_name n = Some t" "\<not> name_is_reserved_for_bridges n"
  moreover from this(2) have "find_index (\<lambda>b. b = SEPARATOR) n = None"
    unfolding find_index_None name_is_reserved_for_bridges_def by blast
  ultimately show False by (simp add: is_bridged_name_def split_once_def)
qed

section \<open>The registry\<close>

definition bridge_inv :: "bridge_registry \<Rightarrow> bool" where
  "bridge_inv g \<longleftrightarrow>
     (\<forall>r u. fmlookup (br_by_remote g) r = Some u \<longrightarrow>
        bu_remote_id u = r \<and> fmlookup (br_by_name g) (lowercase (bu_name u)) = Some r \<and>
        is_bridged_name (bu_name u) = Some (br_tag g) \<and> length (bu_name u) \<le> MAX_NAME) \<and>
     (\<forall>n r. fmlookup (br_by_name g) n = Some r \<longrightarrow>
        (\<exists>u. fmlookup (br_by_remote g) r = Some u \<and> lowercase (bu_name u) = n))"

lemma bridge_inv_new: "bridge_inv (registry_new t)"
  by (simp add: bridge_inv_def registry_new_def)

lemma card_names:
  assumes "bridge_inv g"
  shows "card (fmdom' (br_by_name g)) \<le> br_len g"
proof -
  let ?f = "\<lambda>n. the (fmlookup (br_by_name g) n)"
  have "inj_on ?f (fmdom' (br_by_name g))"
    using assms by (intro inj_onI) (auto simp: bridge_inv_def fmlookup_dom'_iff, metis option.inject)
  moreover have "?f ` fmdom' (br_by_name g) \<subseteq> fmdom' (br_by_remote g)"
    using assms by (fastforce simp: bridge_inv_def fmlookup_dom'_iff)
  ultimately have "card (fmdom' (br_by_name g)) \<le> card (fmdom' (br_by_remote g))"
    by (intro card_inj_on_le [of ?f]) simp_all
  then show ?thesis by (simp add: br_len_def fmdom'_alt_def fcard.rep_eq)
qed

definition candidates :: "bridge_tag \<Rightarrow> bytes \<Rightarrow> bytes list" where
  "candidates t d = map (derive_name t d) (None # map Some [2..<100])"

lemma candidates_distinct:
  assumes "valid_tag t"
  shows "card (lowercase ` set (candidates t d)) = 99"
proof -
  have "inj_on (\<lambda>s. lowercase (derive_name t d s)) (set (None # map Some [2..<100]))"
    using derived_names_differ [OF assms] by (intro inj_onI) blast
  moreover have "card (set (None # map Some [2::nat..<100])) = 99"
    by (simp add: card_image)
  ultimately have "card ((\<lambda>s. lowercase (derive_name t d s)) ` set (None # map Some [2..<100])) = 99"
    using card_image by metis
  moreover have "lowercase ` set (candidates t d) =
      (\<lambda>s. lowercase (derive_name t d s)) ` set (None # map Some [2..<100])"
    unfolding candidates_def set_map image_image ..
  ultimately show ?thesis by simp
qed

lemma candidates_Cons:
  "candidates t d = derive_name t d None # map (\<lambda>n. derive_name t d (Some n)) [2..<100]"
  unfolding candidates_def list.map map_map comp_def by (rule refl)

lemma allocate_name_find:
  "allocate_name d r g = (case find (name_free g r) (candidates (br_tag g) d) of
     Some c \<Rightarrow> c | None \<Rightarrow> derive_name (br_tag g) r None)"
  unfolding allocate_name_def candidates_Cons Let_def find.simps
  by (cases "name_free g r (derive_name (br_tag g) d None)") (simp_all only: if_True if_False option.case)

lemma allocate_candidate:
  assumes "\<exists>c \<in> set (candidates (br_tag g) d). name_free g r c"
  shows "name_free g r (allocate_name d r g) \<and> allocate_name d r g \<in> set (candidates (br_tag g) d)"
proof -
  from assms obtain c where "find (name_free g r) (candidates (br_tag g) d) = Some c"
    "name_free g r c" "c \<in> set (candidates (br_tag g) d)"
    by (rule find_in)
  then show ?thesis by (simp add: allocate_name_find)
qed

lemma allocate_free:
  assumes "bridge_inv g" and "valid_tag (br_tag g)" and "br_len g < 99"
  shows "name_free g r (allocate_name d r g)"
    and "\<exists>s. (s = None \<or> (\<exists>n < 100. s = Some n)) \<and> allocate_name d r g = derive_name (br_tag g) d s"
proof -
  have "\<exists>c \<in> set (candidates (br_tag g) d). name_free g r c"
  proof (rule ccontr)
    assume "\<not> ?thesis"
    then have "lowercase ` set (candidates (br_tag g) d) \<subseteq> fmdom' (br_by_name g)"
      by (auto simp: name_free_def fmlookup_dom'_iff split: option.splits)
    then have "99 \<le> card (fmdom' (br_by_name g))"
      using card_mono [OF finite_fmdom'] candidates_distinct [OF assms(2)] by metis
    with card_names [OF assms(1)] assms(3) show False by simp
  qed
  note free = allocate_candidate [OF this]
  then show "name_free g r (allocate_name d r g)" by blast
  from free obtain s where "s \<in> set (None # map Some [2..<100])"
    "allocate_name d r g = derive_name (br_tag g) d s"
    unfolding candidates_def set_map [of "derive_name (br_tag g) d"] by blast
  then show "\<exists>s. (s = None \<or> (\<exists>n < 100. s = Some n)) \<and> allocate_name d r g = derive_name (br_tag g) d s"
    by (intro exI [of _ s]) (auto simp del: upt_rec_numeral)
qed

lemma bridge_inv_put:
  assumes inv: "bridge_inv g" and free: "name_free g r n" and "length n \<le> MAX_NAME"
    and "is_bridged_name n = Some (br_tag g)" and "bu_remote_id u = r" and "bu_name u = n"
    and names: "names = (case fmlookup (br_by_remote g) r of None \<Rightarrow> br_by_name g
      | Some prev \<Rightarrow> fmdrop (lowercase (bu_name prev)) (br_by_name g))"
  shows "bridge_inv (g\<lparr>br_by_name := fmupd (lowercase n) r names,
    br_by_remote := fmupd r u (br_by_remote g)\<rparr>)"
proof -
  have R: "fmlookup (br_by_name g) (lowercase (bu_name v)) = Some q"
    if "fmlookup (br_by_remote g) q = Some v" for q v
    using that inv by (simp add: bridge_inv_def)
  have N: "\<exists>v. fmlookup (br_by_remote g) q = Some v \<and> lowercase (bu_name v) = m"
    if "fmlookup (br_by_name g) m = Some q" for q m
    using that inv by (simp add: bridge_inv_def)
  have 1: "fmlookup names (lowercase (bu_name v)) = Some q" "lowercase (bu_name v) \<noteq> lowercase n"
    if "fmlookup (br_by_remote g) q = Some v" "q \<noteq> r" for q v
  proof -
    note q = R [OF that(1)]
    from q free that(2) show "lowercase (bu_name v) \<noteq> lowercase n"
      by (auto simp: name_free_def split: option.splits)
    show "fmlookup names (lowercase (bu_name v)) = Some q"
    proof (cases "fmlookup (br_by_remote g) r")
      case (Some prev)
      with R [OF this] q that(2) have "lowercase (bu_name prev) \<noteq> lowercase (bu_name v)" by auto
      with Some q names show ?thesis by simp
    qed (use q names in simp)
  qed
  have 2: "\<exists>v. fmlookup (br_by_remote g) q = Some v \<and> lowercase (bu_name v) = m \<and> q \<noteq> r"
    if "fmlookup names m = Some q" for m q
  proof (cases "fmlookup (br_by_remote g) r")
    case None
    with names that N [of m q] show ?thesis by auto
  next
    case (Some prev)
    with names that have "m \<noteq> lowercase (bu_name prev)" "fmlookup (br_by_name g) m = Some q"
      by (simp_all split: if_splits)
    with N [of m q] Some show ?thesis by auto
  qed
  define g' where "g' = g\<lparr>br_by_name := fmupd (lowercase n) r names, br_by_remote := fmupd r u (br_by_remote g)\<rparr>"
  have g': "br_by_name g' = fmupd (lowercase n) r names" "br_by_remote g' = fmupd r u (br_by_remote g)"
    "br_tag g' = br_tag g" by (simp_all add: g'_def)
  show ?thesis
    unfolding g'_def [symmetric] bridge_inv_def g' fmupd_lookup
  proof (intro conjI allI impI)
    fix q v assume v: "(if r = q then Some u else fmlookup (br_by_remote g) q) = Some v"
    show "bu_remote_id v = q" "is_bridged_name (bu_name v) = Some (br_tag g)" "length (bu_name v) \<le> MAX_NAME"
      using v assms(3-6) inv by (auto simp: bridge_inv_def split: if_splits)
    show "(if lowercase n = lowercase (bu_name v) then Some r else fmlookup names (lowercase (bu_name v))) = Some q"
      using v 1 [of q v] assms(6) by (auto split: if_splits)
  next
    fix m q assume m: "(if lowercase n = m then Some r else fmlookup names m) = Some q"
    show "\<exists>v. (if r = q then Some u else fmlookup (br_by_remote g) q) = Some v \<and> lowercase (bu_name v) = m"
      using m 2 [of m q] assms(6) by (auto split: if_splits)
  qed
qed

lemma bridge_inv_upsert:
  assumes inv: "bridge_inv g" and tag: "valid_tag (br_tag g)" and small: "br_len g < 99"
    and up: "upsert r d a g = Ok (res, g')"
  shows "bridge_inv g'" and "br_tag g' = br_tag g"
proof -
  let ?n = "allocate_name d r g"
  have free: "name_free g r ?n" by (rule allocate_free(1) [OF inv tag small])
  obtain s where s: "s = None \<or> (\<exists>n < 100. s = Some n)" "?n = derive_name (br_tag g) d s"
    using allocate_free(2) [OF inv tag small] by blast
  from length_derive_name [OF tag s(1)] derived_is_bridged [OF tag s(1)]
  have n: "length ?n \<le> MAX_NAME" "is_bridged_name ?n = Some (br_tag g)"
    unfolding s(2) MAX_NAME_def by simp_all
  note put = bridge_inv_put [OF inv free n]
  show "bridge_inv g'"
  proof (cases "fmlookup (br_by_remote g) r")
    case None
    with up have g': "g' = g\<lparr>br_by_name := fmupd (lowercase ?n) r (br_by_name g), br_by_remote :=
        fmupd r \<lparr>bu_account = a, bu_remote_id = r, bu_name = ?n\<rparr> (br_by_remote g)\<rparr>"
      by (simp add: upsert_def Let_def split: if_splits)
    from None show ?thesis unfolding g' by (intro put) simp_all
  next
    case (Some prev)
    show ?thesis
    proof (cases "bu_name prev = ?n")
      case False
      with Some up have g': "g' = g\<lparr>br_by_name := fmupd (lowercase ?n) r (fmdrop (lowercase (bu_name prev)) (br_by_name g)),
          br_by_remote := fmupd r \<lparr>bu_account = bu_account prev, bu_remote_id = r, bu_name = ?n\<rparr> (br_by_remote g)\<rparr>"
        by (simp add: upsert_def Let_def split: if_splits)
      from Some show ?thesis unfolding g' by (intro put) simp_all
    qed (use inv up Some in \<open>simp add: upsert_def Let_def split: if_splits\<close>)
  qed
  show "br_tag g' = br_tag g"
    using up by (auto simp: upsert_def Let_def split: if_splits option.splits)
qed

lemma bridge_inv_remove:
  assumes inv: "bridge_inv g"
  shows "bridge_inv (snd (br_remove r g))"
proof (cases "fmlookup (br_by_remote g) r")
  case (Some u)
  have "fmlookup (br_by_name g) (lowercase (bu_name v)) = Some q"
    if "fmlookup (br_by_remote g) q = Some v" for q v
    using that inv by (simp add: bridge_inv_def)
  from this [OF Some] this have other: "lowercase (bu_name v) \<noteq> lowercase (bu_name u)"
    if "fmlookup (br_by_remote g) q = Some v" "q \<noteq> r" for q v
    using that by (metis option.inject)
  have "\<exists>v. fmlookup (br_by_remote g) q = Some v \<and> lowercase (bu_name v) = m \<and> q \<noteq> r"
    if "fmlookup (br_by_name g) m = Some q" "m \<noteq> lowercase (bu_name u)" for m q
    using that inv Some by (fastforce simp: bridge_inv_def)
  with other inv Some show ?thesis
    by (auto simp: br_remove_def bridge_inv_def split: if_splits)
qed (use inv in \<open>simp add: br_remove_def\<close>)

section \<open>Histories\<close>

text \<open>
  The registries of a bridge that never presents more than 99 identities at once: 99 is the number
  of names the allocator tries for one display name.
\<close>

inductive bridged :: "bridge_tag \<Rightarrow> bridge_registry \<Rightarrow> bool" for t where
  bridged_new: "bridged t (registry_new t)"
| bridged_upsert: "bridged t g \<Longrightarrow> br_len g < 99 \<Longrightarrow> upsert r d a g = Ok (res, g') \<Longrightarrow> bridged t g'"
| bridged_remove: "bridged t g \<Longrightarrow> bridged t (snd (br_remove r g))"

lemma br_tag_remove [simp]: "br_tag (snd (br_remove r g)) = br_tag g"
  by (simp add: br_remove_def split: option.splits)

lemma bridged_inv:
  assumes "bridged t g" and "valid_tag t"
  shows "bridge_inv g \<and> br_tag g = t"
  using assms
proof induction
  case bridged_new
  then show ?case using bridge_inv_new by (simp add: registry_new_def)
next
  case (bridged_upsert g r d a res g')
  then show ?case using bridge_inv_upsert [of g r d a res g'] by simp
next
  case (bridged_remove g r)
  then show ?case by (simp add: bridge_inv_remove)
qed

text \<open>C12
  A bridge that presents at most 99 identities at a time gives them names that work. Whatever
  identities have come, been renamed and gone: no two present identities share a name up to ASCII
  case, every name fits in 15 bytes and is recognised as belonging to the bridge's own tag, a
  lookup by name finds exactly the identity that bears it, and no such name can be registered by
  an account.
\<close>

theorem bridged_names_work:
  assumes "tag_new raw = Ok t" and "bridged t g"
    and "by_remote_id g r = Some u"
  shows "(\<forall>q v. by_remote_id g q = Some v \<and> eq_nocase (bu_name u) (bu_name v) \<longrightarrow> q = r) \<and>
    length (bu_name u) \<le> MAX_NAME \<and> is_bridged_name (bu_name u) = Some t \<and>
    by_name g (bu_name u) = Some u \<and> name_is_reserved_for_bridges (bu_name u)"
proof -
  have inv: "bridge_inv g" "br_tag g = t"
    using bridged_inv [OF assms(2) tag_new_valid [OF assms(1)]] by simp_all
  have u: "fmlookup (br_by_name g) (lowercase (bu_name u)) = Some r"
    using inv assms(3) by (simp add: bridge_inv_def by_remote_id_def)
  have "q = r" if "by_remote_id g q = Some v" "eq_nocase (bu_name u) (bu_name v)" for q v
  proof -
    have "fmlookup (br_by_name g) (lowercase (bu_name v)) = Some q"
      using inv that(1) by (simp add: bridge_inv_def by_remote_id_def)
    with u that(2) show ?thesis by (simp add: eq_nocase_def)
  qed
  moreover have bridged: "is_bridged_name (bu_name u) = Some t" "length (bu_name u) \<le> MAX_NAME"
    using inv assms(3) by (simp_all add: bridge_inv_def by_remote_id_def)
  moreover have "name_is_reserved_for_bridges (bu_name u)"
    using bridged(1) by (rule bridged_reserved)
  moreover have "by_name g (bu_name u) = Some u"
    using u assms(3) by (simp add: by_name_def by_remote_id_def)
  ultimately show ?thesis by blast
qed

definition demo_user :: bridged_user where
  "demo_user = \<lparr>bu_account = 100, bu_remote_id = ascii ''1'', bu_name = ascii ''D:Al''\<rparr>"

definition demo_registry :: bridge_registry where
  "demo_registry = \<lparr>br_tag = BridgeTag (ascii ''D''),
     br_by_remote = fmupd (ascii ''1'') demo_user fmempty,
     br_by_name = fmupd (ascii ''d:al'') (ascii ''1'') fmempty\<rparr>"

lemma demo_upsert:
  "upsert (ascii ''1'') (ascii ''Al'') 100 (registry_new (BridgeTag (ascii ''D''))) =
   Ok (Added demo_user, demo_registry)"
proof -
  have "derive_name (BridgeTag (ascii ''D'')) (ascii ''Al'') None = ascii ''D:Al''"
    "lowercase (ascii ''D:Al'') = ascii ''d:al''" "ascii ''1'' \<noteq> []" by code_simp+
  then show ?thesis
    by (simp add: upsert_def registry_new_def allocate_name_def name_free_def demo_registry_def
        demo_user_def Let_def del: upt_rec_numeral)
qed

lemma demo_lookup: "by_remote_id demo_registry (ascii ''1'') = Some demo_user"
  by (simp add: by_remote_id_def demo_registry_def)

corollary bridged_names_work_witness: "by_name demo_registry (bu_name demo_user) = Some demo_user"
proof -
  have tag: "tag_new (ascii ''D'') = Ok (BridgeTag (ascii ''D''))" by code_simp
  have "br_len (registry_new (BridgeTag (ascii ''D''))) < 99" by (simp add: br_len_def registry_new_def fcard.rep_eq)
  from bridged_upsert [OF bridged_new this demo_upsert] bridged_names_work [OF tag _ demo_lookup]
  show ?thesis by blast
qed

text \<open>A bridge's calls as data; a refused one changes nothing.\<close>

datatype bridge_op = Announce bytes bytes account_id | Withdraw bytes

fun bridge_exec :: "bridge_op \<Rightarrow> bridge_registry \<Rightarrow> bridge_registry" where
  "bridge_exec (Announce r d a) g = (case upsert r d a g of Ok (_, g') \<Rightarrow> g' | _ \<Rightarrow> g)"
| "bridge_exec (Withdraw r) g = snd (br_remove r g)"

lemma upsert_accounts:
  assumes "fmlookup (br_by_remote g) q = Some u" and "upsert r d a g = Ok (res, g')"
  shows "\<exists>u'. fmlookup (br_by_remote g') q = Some u' \<and> bu_account u' = bu_account u"
  using assms by (auto simp: upsert_def Let_def split: if_splits option.splits)

lemma exec_accounts:
  assumes "fmlookup (br_by_remote g) q = Some u" and "x \<noteq> Withdraw q"
  shows "\<exists>u'. fmlookup (br_by_remote (bridge_exec x g)) q = Some u' \<and> bu_account u' = bu_account u"
proof (cases x)
  case (Announce r d a)
  with assms(1) upsert_accounts show ?thesis by (auto split: outcome.splits)
next
  case (Withdraw r)
  with assms show ?thesis by (auto simp: br_remove_def split: option.splits)
qed

text \<open>
  Moderation survives renames. As long as the bridge does not withdraw an identity, it stays
  present with the account it was first given, however often it is announced again, under
  whatever display name and with whatever account, and whatever happens to other identities.
\<close>

theorem bridged_account_is_stable:
  assumes "by_remote_id g r = Some u" and "Withdraw r \<notin> set ops"
  shows "\<exists>u'. by_remote_id (fold bridge_exec ops g) r = Some u' \<and> bu_account u' = bu_account u"
  using assms unfolding by_remote_id_def
proof (induction ops arbitrary: g u)
  case (Cons x ops)
  then obtain u' where "fmlookup (br_by_remote (bridge_exec x g)) r = Some u'"
    "bu_account u' = bu_account u"
    using exec_accounts [of g r u x] by auto
  with Cons.IH [of "bridge_exec x g" u'] Cons.prems show ?case by simp
qed simp

corollary bridged_account_is_stable_witness:
  "\<exists>u'. by_remote_id (fold bridge_exec [Announce (ascii ''1'') (ascii ''Bo'') 7] demo_registry) (ascii ''1'') =
     Some u' \<and> bu_account u' = bu_account demo_user"
  by (rule bridged_account_is_stable [OF demo_lookup]) simp

text \<open>
  Bridges cannot echo each other. Whatever bridges a message is pushed through, from either
  origin, its chain never holds a bridge twice nor more than three; a push is refused exactly
  when it would break this, and then changes nothing.
\<close>

theorem origin_chain_has_no_loop:
  assumes "c = origin_local \<or> c = origin_from_bridge t0" and "c' = fold (\<lambda>t c. snd (origin_push t c)) ts c"
  shows "distinct (oc_hops c') \<and> length (oc_hops c') \<le> MAX_HOPS \<and>
    (fst (origin_push t c') \<longleftrightarrow> length (oc_hops c') < MAX_HOPS \<and> t \<notin> set (oc_hops c')) \<and>
    (\<not> fst (origin_push t c') \<longrightarrow> snd (origin_push t c') = c')"
proof -
  have "distinct (oc_hops (fold (\<lambda>t c. snd (origin_push t c)) ts c)) \<and>
      length (oc_hops (fold (\<lambda>t c. snd (origin_push t c)) ts c)) \<le> MAX_HOPS"
    if "distinct (oc_hops c)" "length (oc_hops c) \<le> MAX_HOPS" for c
    using that by (induction ts arbitrary: c) (auto simp: origin_push_def may_deliver_to_def)
  moreover have "distinct (oc_hops c)" "length (oc_hops c) \<le> MAX_HOPS"
    using assms(1) by (auto simp: origin_local_def origin_from_bridge_def MAX_HOPS_def)
  ultimately show ?thesis
    unfolding assms(2) by (auto simp: origin_push_def may_deliver_to_def)
qed

corollary origin_chain_has_no_loop_witness:
  "distinct (oc_hops (fold (\<lambda>t c. snd (origin_push t c)) [BridgeTag [0x44], BridgeTag [0x44]] origin_local))"
  using origin_chain_has_no_loop [of origin_local undefined _ "[BridgeTag [0x44], BridgeTag [0x44]]"] by simp

end
