(* ===== verification/Storage.thy ===== *)
theory Storage
  imports Attr Bridge_Rules
begin

text \<open>
  \<open>bnetcc-storage\<close>: the domain types (\<open>model.rs\<close>), the \<open>Storage\<close> trait and the account-name rules
  (\<open>lib.rs\<close>) and the in-memory reference backend (\<open>memory.rs\<close>). A method takes the state of the
  backend and returns its result with the state afterwards, since a call that fails may have
  changed it. The trait is the record of its methods, so that a layer over a backend takes the
  backend's methods as an argument.
\<close>

section \<open>Domain types\<close>

datatype credential = CredXsha1 bytes | CredSrp bytes bytes

fun safe_to_cache_at_node :: "credential \<Rightarrow> bool" where
  "safe_to_cache_at_node (CredXsha1 d) = False"
| "safe_to_cache_at_node (CredSrp s v) = True"

record account =
  a_id :: account_id
  a_name :: bytes
  a_credential :: credential
  a_created_at :: u64

record new_account =
  n_name :: bytes
  n_credential :: credential
  n_created_at :: u64
  n_attrs :: attr_map

datatype ban_scope = BanNode | BanNetwork

record ban_record =
  b_account :: account_id
  b_scope :: ban_scope
  b_reason :: bytes
  b_applied_at :: u64
  b_expires_at :: "u64 option"

definition active_at :: "ban_record \<Rightarrow> u64 \<Rightarrow> bool" where
  "active_at b now = (case b_expires_at b of None \<Rightarrow> True | Some expires \<Rightarrow> now < expires)"

record d2_character =
  c_account :: account_id
  c_name :: bytes
  c_class :: u8
  c_status :: u8
  c_level :: u8
  c_progression :: u8
  c_created_at :: u64
  c_last_played :: u64
  c_save :: "bytes option"

datatype storage_error = NameTaken | NoSuchAccount | InvalidName bytes | Backend bytes

type_synonym 'a storage_result = "(storage_error, 'a) outcome"

section \<open>Account names\<close>

definition split_realm :: "bytes \<Rightarrow> bytes \<times> bytes option" where
  "split_realm name =
     (case rsplit_once 0x40 name of
        Some (n, realm) \<Rightarrow> (n, Some realm)
      | None \<Rightarrow> (name, None))"

definition wire_breaking :: "u8 \<Rightarrow> bool" where
  "wire_breaking b \<longleftrightarrow> b \<le> 0x20 \<or> b = 0x7F"

definition NAME_MIN :: nat where "NAME_MIN = 2"
definition NAME_MAX :: nat where "NAME_MAX = 15"

definition validate_realm :: "bytes option \<Rightarrow> unit storage_result" where
  "validate_realm r =
     (case r of
        None \<Rightarrow> Ok ()
      | Some realm \<Rightarrow>
          if realm = [] \<or> length realm > NAME_MAX
          then Err (InvalidName (ascii ''realm must be 1 to 15 characters''))
          else if \<not> is_ascii realm \<or> list_ex wire_breaking realm
          then Err (InvalidName
            (ascii ''realm contains whitespace, control or non-ASCII characters''))
          else Ok ())"

definition validate_account_name :: "bytes \<Rightarrow> unit storage_result" where
  "validate_account_name full_name =
     (let (name, realm) = split_realm full_name in
      obind (validate_realm realm) (\<lambda>_.
      if length name < NAME_MIN then Err (InvalidName (ascii ''shorter than 2 characters''))
      else if length name > NAME_MAX then Err (InvalidName (ascii ''longer than 15 characters''))
      else if \<not> is_ascii name then Err (InvalidName (ascii ''non-ASCII characters''))
      else if list_ex wire_breaking name
      then Err (InvalidName (ascii ''whitespace or control characters''))
      else if filter is_alnum name = []
      then Err (InvalidName (ascii ''must contain at least one letter or digit''))
      else if name_is_reserved_for_bridges name
      then Err (InvalidName
        ([0x27] @ [SEPARATOR] @ [0x27] @ ascii '' is reserved for bridged identities''))
      else Ok ()))"

section \<open>The \<open>Storage\<close> trait\<close>

type_synonym ('s, 'a) storage_method = "'s \<Rightarrow> 'a storage_result \<times> 's"

record 's storage_ops =
  so_account_by_name :: "bytes \<Rightarrow> ('s, account option) storage_method"
  so_account_by_id :: "account_id \<Rightarrow> ('s, account option) storage_method"
  so_create_account :: "new_account \<Rightarrow> ('s, account) storage_method"
  so_set_credential :: "account_id \<Rightarrow> credential \<Rightarrow> ('s, unit) storage_method"
  so_attrs_get :: "account_id \<Rightarrow> attr_key list \<Rightarrow> ('s, attr_map) storage_method"
  so_attrs_all :: "account_id \<Rightarrow> ('s, attr_map) storage_method"
  so_attrs_put :: "account_id \<Rightarrow> attr_map \<Rightarrow> ('s, unit) storage_method"
  so_ban_put :: "ban_record \<Rightarrow> ('s, unit) storage_method"
  so_ban_get :: "account_id \<Rightarrow> u64 \<Rightarrow> ('s, ban_record option) storage_method"
  so_ban_clear :: "account_id \<Rightarrow> ban_scope \<Rightarrow> ('s, unit) storage_method"
  so_account_count :: "('s, u64) storage_method"
  so_list_accounts :: "u64 \<Rightarrow> u32 \<Rightarrow> ('s, account list) storage_method"
  so_delete_account :: "account_id \<Rightarrow> ('s, unit) storage_method"
  so_characters :: "account_id \<Rightarrow> ('s, d2_character list) storage_method"
  so_character_by_name :: "bytes \<Rightarrow> ('s, d2_character option) storage_method"
  so_create_character :: "d2_character \<Rightarrow> ('s, unit) storage_method"
  so_update_character :: "d2_character \<Rightarrow> ('s, bool) storage_method"
  so_delete_character :: "account_id \<Rightarrow> bytes \<Rightarrow> ('s, bool) storage_method"
  so_flush :: "('s, unit) storage_method"

section \<open>The in-memory backend\<close>

record memory_storage =
  ms_accounts :: "(account_id, account) fmap"
  ms_by_name :: "(bytes, account_id) fmap"
  ms_attrs :: "(account_id, attr_map) fmap"
  ms_bans :: "(account_id \<times> ban_scope, ban_record) fmap"
  ms_characters :: "d2_character list"
  ms_next_id :: account_id

definition memory_new :: memory_storage where
  "memory_new = \<lparr>ms_accounts = fmempty, ms_by_name = fmempty, ms_attrs = fmempty,
     ms_bans = fmempty, ms_characters = [], ms_next_id = 0\<rparr>"

definition mem_account_by_name :: "bytes \<Rightarrow> (memory_storage, account option) storage_method" where
  "mem_account_by_name name s =
     (Ok (case fmlookup (ms_by_name s) (lowercase name) of
            None \<Rightarrow> None
          | Some i \<Rightarrow> fmlookup (ms_accounts s) i), s)"

definition mem_account_by_id :: "account_id \<Rightarrow> (memory_storage, account option) storage_method" where
  "mem_account_by_id i s = (Ok (fmlookup (ms_accounts s) i), s)"

definition mem_create_account :: "new_account \<Rightarrow> (memory_storage, account) storage_method" where
  "mem_create_account req s =
     (case validate_account_name (n_name req) of
        Err e \<Rightarrow> (Err e, s)
      | Panic \<Rightarrow> (Panic, s)
      | Ok _ \<Rightarrow>
          let key = lowercase (n_name req) in
          if fmlookup (ms_by_name s) key \<noteq> None then (Err NameTaken, s)
          else
            let s = s\<lparr>ms_next_id := ms_next_id s + 1\<rparr>;
                a = \<lparr>a_id = ms_next_id s, a_name = n_name req, a_credential = n_credential req,
                     a_created_at = n_created_at req\<rparr>;
                s = s\<lparr>ms_by_name := fmupd key (a_id a) (ms_by_name s),
                      ms_accounts := fmupd (a_id a) a (ms_accounts s)\<rparr>;
                s = (if n_attrs req \<noteq> fmempty
                     then s\<lparr>ms_attrs := fmupd (a_id a) (n_attrs req) (ms_attrs s)\<rparr> else s)
            in (Ok a, s))"

definition mem_set_credential :: "account_id \<Rightarrow> credential \<Rightarrow> (memory_storage, unit) storage_method" where
  "mem_set_credential i cred s =
     (case fmlookup (ms_accounts s) i of
        None \<Rightarrow> (Err NoSuchAccount, s)
      | Some a \<Rightarrow> (Ok (), s\<lparr>ms_accounts := fmupd i (a\<lparr>a_credential := cred\<rparr>) (ms_accounts s)\<rparr>))"

definition mem_attrs_get :: "account_id \<Rightarrow> attr_key list \<Rightarrow> (memory_storage, attr_map) storage_method" where
  "mem_attrs_get i ks s =
     (Ok (case fmlookup (ms_attrs s) i of
            None \<Rightarrow> fmempty
          | Some m \<Rightarrow> fmfilter (\<lambda>k. k \<in> set ks) m), s)"

definition mem_attrs_all :: "account_id \<Rightarrow> (memory_storage, attr_map) storage_method" where
  "mem_attrs_all i s =
     (Ok (case fmlookup (ms_attrs s) i of None \<Rightarrow> fmempty | Some m \<Rightarrow> m), s)"

definition mem_attrs_put :: "account_id \<Rightarrow> attr_map \<Rightarrow> (memory_storage, unit) storage_method" where
  "mem_attrs_put i m s =
     (if m = fmempty then (Ok (), s)
      else
        let slot = (case fmlookup (ms_attrs s) i of None \<Rightarrow> fmempty | Some x \<Rightarrow> x)
        in (Ok (), s\<lparr>ms_attrs := fmupd i (slot ++\<^sub>f m) (ms_attrs s)\<rparr>))"

definition mem_ban_put :: "ban_record \<Rightarrow> (memory_storage, unit) storage_method" where
  "mem_ban_put b s = (Ok (), s\<lparr>ms_bans := fmupd (b_account b, b_scope b) b (ms_bans s)\<rparr>)"

fun first_active :: "account_id \<Rightarrow> u64 \<Rightarrow> memory_storage \<Rightarrow> ban_scope list \<Rightarrow> ban_record option" where
  "first_active i now s [] = None"
| "first_active i now s (scope # scopes) =
     (case fmlookup (ms_bans s) (i, scope) of
        Some b \<Rightarrow> if active_at b now then Some b else first_active i now s scopes
      | None \<Rightarrow> first_active i now s scopes)"

definition mem_ban_get :: "account_id \<Rightarrow> u64 \<Rightarrow> (memory_storage, ban_record option) storage_method" where
  "mem_ban_get i now s = (Ok (first_active i now s [BanNetwork, BanNode]), s)"

definition mem_ban_clear :: "account_id \<Rightarrow> ban_scope \<Rightarrow> (memory_storage, unit) storage_method" where
  "mem_ban_clear i scope s = (Ok (), s\<lparr>ms_bans := fmdrop (i, scope) (ms_bans s)\<rparr>)"

definition mem_account_count :: "(memory_storage, u64) storage_method" where
  "mem_account_count s = (Ok (word_of_nat (fcard (fmdom (ms_accounts s)))), s)"

definition mem_list_accounts :: "u64 \<Rightarrow> u32 \<Rightarrow> (memory_storage, account list) storage_method" where
  "mem_list_accounts offset limit s =
     (let ids = sorted_list_of_fset (fmdom (ms_accounts s)) in
      (Ok (List.map_filter (fmlookup (ms_accounts s)) (take (unat limit) (drop (unat offset) ids))), s))"

definition mem_delete_account :: "account_id \<Rightarrow> (memory_storage, unit) storage_method" where
  "mem_delete_account i s =
     (let s = (case fmlookup (ms_accounts s) i of
                 Some a \<Rightarrow> s\<lparr>ms_accounts := fmdrop i (ms_accounts s),
                            ms_by_name := fmdrop (lowercase (a_name a)) (ms_by_name s)\<rparr>
               | None \<Rightarrow> s)
      in (Ok (), s\<lparr>ms_attrs := fmdrop i (ms_attrs s),
                   ms_bans := fmfilter (\<lambda>(a, _). a \<noteq> i) (ms_bans s),
                   ms_characters := filter (\<lambda>c. c_account c \<noteq> i) (ms_characters s)\<rparr>))"

definition mem_characters :: "account_id \<Rightarrow> (memory_storage, d2_character list) storage_method" where
  "mem_characters i s = (Ok (filter (\<lambda>c. c_account c = i) (ms_characters s)), s)"

definition mem_character_by_name :: "bytes \<Rightarrow> (memory_storage, d2_character option) storage_method" where
  "mem_character_by_name name s = (Ok (find (\<lambda>c. eq_nocase (c_name c) name) (ms_characters s)), s)"

definition mem_create_character :: "d2_character \<Rightarrow> (memory_storage, unit) storage_method" where
  "mem_create_character ch s =
     (if fmlookup (ms_accounts s) (c_account ch) = None then (Err NoSuchAccount, s)
      else if list_ex (\<lambda>c. eq_nocase (c_name c) (c_name ch)) (ms_characters s) then (Err NameTaken, s)
      else (Ok (), s\<lparr>ms_characters := ms_characters s @ [ch]\<rparr>))"

definition mem_update_character :: "d2_character \<Rightarrow> (memory_storage, bool) storage_method" where
  "mem_update_character ch s =
     (case find_index (\<lambda>c. c_account c = c_account ch \<and> eq_nocase (c_name c) (c_name ch))
             (ms_characters s) of
        None \<Rightarrow> (Ok False, s)
      | Some p \<Rightarrow>
          (Ok True, s\<lparr>ms_characters := (ms_characters s)[p := (ms_characters s ! p)
             \<lparr>c_status := c_status ch, c_level := c_level ch, c_progression := c_progression ch,
              c_last_played := c_last_played ch, c_save := c_save ch\<rparr>]\<rparr>))"

definition mem_delete_character :: "account_id \<Rightarrow> bytes \<Rightarrow> (memory_storage, bool) storage_method" where
  "mem_delete_character i name s =
     (let cs = filter (\<lambda>c. \<not> (c_account c = i \<and> eq_nocase (c_name c) name)) (ms_characters s)
      in (Ok (length cs \<noteq> length (ms_characters s)), s\<lparr>ms_characters := cs\<rparr>))"

definition mem_flush :: "(memory_storage, unit) storage_method" where
  "mem_flush s = (Ok (), s)"

definition memory_ops :: "memory_storage storage_ops" where
  "memory_ops =
     \<lparr>so_account_by_name = mem_account_by_name, so_account_by_id = mem_account_by_id,
      so_create_account = mem_create_account, so_set_credential = mem_set_credential,
      so_attrs_get = mem_attrs_get, so_attrs_all = mem_attrs_all, so_attrs_put = mem_attrs_put,
      so_ban_put = mem_ban_put, so_ban_get = mem_ban_get, so_ban_clear = mem_ban_clear,
      so_account_count = mem_account_count, so_list_accounts = mem_list_accounts,
      so_delete_account = mem_delete_account, so_characters = mem_characters,
      so_character_by_name = mem_character_by_name, so_create_character = mem_create_character,
      so_update_character = mem_update_character, so_delete_character = mem_delete_character,
      so_flush = mem_flush\<rparr>"

end
