(* ===== verification/Write_Behind.thy ===== *)
theory Write_Behind
  imports Storage
begin

text \<open>
  \<open>bnetcc-storage/src/write_behind.rs\<close>: the layer that buffers attribute writes over any backend
  and passes everything else through. The backend is its method record, the first argument of every
  definition. Draining a \<open>HashMap\<close> visits its keys in an unspecified order, which is the argument
  \<open>order\<close>: any function that lists the keys of a map, each once.
\<close>

section \<open>State\<close>

record flush_policy =
  max_dirty_accounts :: nat
  max_dirty_attrs :: nat
  interval_ms :: u64

definition flush_policy_default :: flush_policy where
  "flush_policy_default = \<lparr>max_dirty_accounts = 256, max_dirty_attrs = 4096, interval_ms = 30000\<rparr>"

type_synonym dirty_map = "(account_id, attr_map) fmap"
type_synonym key_order = "dirty_map \<Rightarrow> account_id list"

record 's write_behind =
  wb_backend :: 's
  wb_dirty :: dirty_map
  wb_dirty_attrs :: nat
  wb_policy :: flush_policy
  wb_last_flush_ms :: u64
  wb_flushes :: u64
  wb_batched_writes :: u64

definition wb_new :: "'s \<Rightarrow> flush_policy \<Rightarrow> u64 \<Rightarrow> 's write_behind" where
  "wb_new backend policy now_ms =
     \<lparr>wb_backend = backend, wb_dirty = fmempty, wb_dirty_attrs = 0, wb_policy = policy,
      wb_last_flush_ms = now_ms, wb_flushes = 0, wb_batched_writes = 0\<rparr>"

definition map_len :: "('k, 'v) fmap \<Rightarrow> nat" where
  "map_len m = fcard (fmdom m)"

definition slot_of :: "dirty_map \<Rightarrow> account_id \<Rightarrow> attr_map" where
  "slot_of d i = (case fmlookup d i of None \<Rightarrow> fmempty | Some m \<Rightarrow> m)"

definition total_attrs :: "dirty_map \<Rightarrow> nat" where
  "total_attrs d = (\<Sum>i \<in> fset (fmdom d). map_len (slot_of d i))"

definition into_backend :: "'s write_behind \<Rightarrow> 's" where
  "into_backend w = wb_backend w"

section \<open>Flushing\<close>

fun flush_loop :: "'s storage_ops \<Rightarrow> (account_id \<times> attr_map) list \<Rightarrow> storage_error option \<Rightarrow>
    's \<Rightarrow> dirty_map \<Rightarrow> (storage_error option \<times> 's \<times> dirty_map) option" where
  "flush_loop ops [] first_err b d = Some (first_err, b, d)"
| "flush_loop ops ((i, attrs) # pending) first_err b d =
     (case so_attrs_put ops i attrs b of
        (Ok _, b) \<Rightarrow> flush_loop ops pending first_err b d
      | (Err e, b) \<Rightarrow>
          flush_loop ops pending (case first_err of None \<Rightarrow> Some e | Some e0 \<Rightarrow> Some e0) b
            (fmupd i (slot_of d i ++\<^sub>f attrs) d)
      | (Panic, b) \<Rightarrow> None)"

definition wb_flush_now :: "'s storage_ops \<Rightarrow> key_order \<Rightarrow> u64 \<Rightarrow> ('s write_behind, unit) storage_method" where
  "wb_flush_now ops order now_ms w =
     (let pending = map (\<lambda>i. (i, slot_of (wb_dirty w) i)) (order (wb_dirty w)) in
      case flush_loop ops pending None (wb_backend w) fmempty of
        None \<Rightarrow> (Panic, w)
      | Some (first_err, b, d) \<Rightarrow>
          let w = w\<lparr>wb_backend := b, wb_dirty := d, wb_dirty_attrs := total_attrs d\<rparr> in
          (case first_err of
             Some e \<Rightarrow> (Err e, w)
           | None \<Rightarrow>
               let w = w\<lparr>wb_last_flush_ms := now_ms, wb_flushes := wb_flushes w + 1\<rparr>;
                   (r, b) = so_flush ops (wb_backend w)
               in (r, w\<lparr>wb_backend := b\<rparr>)))"

definition wb_tick :: "'s storage_ops \<Rightarrow> key_order \<Rightarrow> u64 \<Rightarrow> ('s write_behind, bool) storage_method" where
  "wb_tick ops order now_ms w =
     (if wb_dirty w = fmempty then (Ok False, w\<lparr>wb_last_flush_ms := now_ms\<rparr>)
      else
        let due = map_len (wb_dirty w) \<ge> max_dirty_accounts (wb_policy w) \<or>
              wb_dirty_attrs w \<ge> max_dirty_attrs (wb_policy w) \<or>
              sat_sub now_ms (wb_last_flush_ms w) \<ge> interval_ms (wb_policy w) in
        if \<not> due then (Ok False, w)
        else
          (case wb_flush_now ops order now_ms w of
             (Ok _, w) \<Rightarrow> (Ok True, w)
           | (Err e, w) \<Rightarrow> (Err e, w)
           | (Panic, w) \<Rightarrow> (Panic, w)))"

section \<open>The trait\<close>

text \<open>Most methods hand the call to the backend.\<close>

definition through :: "('s, 'a) storage_method \<Rightarrow> ('s write_behind, 'a) storage_method" where
  "through m w = (let (r, b) = m (wb_backend w) in (r, w\<lparr>wb_backend := b\<rparr>))"

definition wb_attrs_get :: "'s storage_ops \<Rightarrow> account_id \<Rightarrow> attr_key list \<Rightarrow>
    ('s write_behind, attr_map) storage_method" where
  "wb_attrs_get ops i ks w =
     (let (r, b) = so_attrs_get ops i ks (wb_backend w); w = w\<lparr>wb_backend := b\<rparr> in
      (obind r (\<lambda>out. Ok (case fmlookup (wb_dirty w) i of
         None \<Rightarrow> out
       | Some pending \<Rightarrow> out ++\<^sub>f fmfilter (\<lambda>k. k \<in> set ks) pending)), w))"

definition wb_attrs_all :: "'s storage_ops \<Rightarrow> account_id \<Rightarrow> ('s write_behind, attr_map) storage_method" where
  "wb_attrs_all ops i w =
     (let (r, b) = so_attrs_all ops i (wb_backend w); w = w\<lparr>wb_backend := b\<rparr> in
      (obind r (\<lambda>out. Ok (case fmlookup (wb_dirty w) i of
         None \<Rightarrow> out
       | Some pending \<Rightarrow> out ++\<^sub>f pending)), w))"

text \<open>
  The loop counts an attribute as dirty when it was not before, and every write as batched: one per
  key of the new attributes.
\<close>

definition wb_attrs_put :: "account_id \<Rightarrow> attr_map \<Rightarrow> ('s write_behind, unit) storage_method" where
  "wb_attrs_put i attrs w =
     (if attrs = fmempty then (Ok (), w)
      else
        let slot = slot_of (wb_dirty w) i in
        (Ok (), w\<lparr>wb_dirty := fmupd i (slot ++\<^sub>f attrs) (wb_dirty w),
           wb_dirty_attrs := wb_dirty_attrs w + fcard (fmdom attrs |-| fmdom slot),
           wb_batched_writes := wb_batched_writes w + word_of_nat (map_len attrs)\<rparr>))"

definition wb_delete_account :: "'s storage_ops \<Rightarrow> account_id \<Rightarrow> ('s write_behind, unit) storage_method" where
  "wb_delete_account ops i w =
     (let w = (if fmlookup (wb_dirty w) i \<noteq> None
               then w\<lparr>wb_dirty := fmdrop i (wb_dirty w),
                      wb_dirty_attrs := total_attrs (fmdrop i (wb_dirty w))\<rparr>
               else w)
      in through (so_delete_account ops i) w)"

definition wb_flush :: "'s storage_ops \<Rightarrow> key_order \<Rightarrow> ('s write_behind, unit) storage_method" where
  "wb_flush ops order w = wb_flush_now ops order (wb_last_flush_ms w) w"

definition write_behind_ops :: "'s storage_ops \<Rightarrow> key_order \<Rightarrow> 's write_behind storage_ops" where
  "write_behind_ops ops order =
     \<lparr>so_account_by_name = \<lambda>n. through (so_account_by_name ops n),
      so_account_by_id = \<lambda>i. through (so_account_by_id ops i),
      so_create_account = \<lambda>req. through (so_create_account ops req),
      so_set_credential = \<lambda>i c. through (so_set_credential ops i c),
      so_attrs_get = wb_attrs_get ops, so_attrs_all = wb_attrs_all ops, so_attrs_put = wb_attrs_put,
      so_ban_put = \<lambda>b. through (so_ban_put ops b),
      so_ban_get = \<lambda>i now. through (so_ban_get ops i now),
      so_ban_clear = \<lambda>i scope. through (so_ban_clear ops i scope),
      so_account_count = through (so_account_count ops),
      so_list_accounts = \<lambda>offset limit. through (so_list_accounts ops offset limit),
      so_delete_account = wb_delete_account ops,
      so_characters = \<lambda>i. through (so_characters ops i),
      so_character_by_name = \<lambda>n. through (so_character_by_name ops n),
      so_create_character = \<lambda>c. through (so_create_character ops c),
      so_update_character = \<lambda>c. through (so_update_character ops c),
      so_delete_character = \<lambda>i n. through (so_delete_character ops i n),
      so_flush = wb_flush ops order\<rparr>"

section \<open>The attribute contract\<close>

text \<open>
  What a backend promises about attributes, over the view of them it holds: reads return the view
  and leave it alone, a write merges, a write that fails changes nothing, and flushing changes
  nothing.
\<close>

type_synonym attr_view = "account_id \<Rightarrow> attr_key \<Rightarrow> bytes option"

locale attr_backend =
  fixes ops :: "'s storage_ops"
    and view :: "'s \<Rightarrow> attr_view"
  assumes get_view: "so_attrs_get ops i ks s = (rg, s') \<Longrightarrow> view s' = view s \<and>
      (\<forall>m. rg = Ok m \<longrightarrow> (\<forall>k. fmlookup m k = (if k \<in> set ks then view s i k else None)))"
    and all_view: "so_attrs_all ops i s = (ra, s') \<Longrightarrow> view s' = view s \<and>
      (\<forall>m. ra = Ok m \<longrightarrow> fmlookup m = view s i)"
    and put_view: "so_attrs_put ops i m s = (rp, s') \<Longrightarrow> rp \<noteq> Panic \<and>
      view s' = (case rp of Ok _ \<Rightarrow> (view s)(i := view s i ++ fmlookup m) | _ \<Rightarrow> view s)"
    and flush_view: "so_flush ops s = (rf, s') \<Longrightarrow> rf \<noteq> Panic \<and> view s' = view s"
begin

lemma read_your_writes:
  assumes "so_attrs_put ops i m s = (Ok (), s1)" and "so_attrs_get ops i ks s1 = (Ok out, s2)"
    and "k \<in> set ks"
  shows "fmlookup out k = (case fmlookup m k of Some v \<Rightarrow> Some v | None \<Rightarrow> view s i k)"
  using put_view [OF assms(1)] get_view [OF assms(2)] assms(3)
  by (simp add: map_add_def)

lemma other_accounts_keep:
  assumes "so_attrs_put ops i m s = (Ok (), s1)" and "so_attrs_all ops j s1 = (Ok out, s2)" and "j \<noteq> i"
  shows "fmlookup out = view s j"
  using put_view [OF assms(1)] all_view [OF assms(2)] assms(3) by simp

text \<open>What a caller sees through the buffer: the backend's view overridden by what is dirty.\<close>

definition buffered :: "'s \<Rightarrow> dirty_map \<Rightarrow> attr_view" where
  "buffered b d = (\<lambda>i. view b i ++ fmlookup (slot_of d i))"

lemma slot_of_upd [simp]: "slot_of (fmupd i m d) j = (if j = i then m else slot_of d j)"
  by (simp add: slot_of_def)

lemma slot_of_empty [simp]: "slot_of fmempty i = fmempty"
  by (simp add: slot_of_def)

text \<open>
  One account of the drained buffer: its attributes reach the backend, or are put back. Either way
  the sum of backend, buffer and what is still pending stays the same.
\<close>

lemma flush_loop_view:
  "flush_loop ops pending e b d = Some (e', b', d') \<Longrightarrow> distinct (map fst pending) \<Longrightarrow>
   (\<forall>i \<in> fst ` set pending. slot_of d i = fmempty) \<Longrightarrow>
   buffered b' d' = (\<lambda>i. case map_of pending i of
       Some m \<Rightarrow> view b i ++ fmlookup m
     | None \<Rightarrow> buffered b d i) \<and>
   (e' = None \<longrightarrow> e = None \<and> d' = d)"
proof (induction pending arbitrary: e b d)
  case Nil
  then show ?case by (simp add: buffered_def)
next
  case (Cons p pending)
  obtain i attrs where p: "p = (i, attrs)" by (rule prod.exhaust)
  obtain r b1 where put: "so_attrs_put ops i attrs b = (r, b1)" by (rule prod.exhaust)
  note law = put_view [OF put]
  have fresh: "map_of pending i = None" using Cons.prems(2) p by (simp add: map_of_eq_None_iff)
  have slot: "slot_of d i = fmempty" using Cons.prems(3) p by simp
  have dist: "distinct (map fst pending)" using Cons.prems(2) p by simp
  show ?case
  proof (cases r)
    case (Ok u)
    with Cons.prems(1) p put have run: "flush_loop ops pending e b1 d = Some (e', b', d')" by simp
    from law Ok have view: "view b1 = (view b)(i := view b i ++ fmlookup attrs)" by simp
    have "(\<lambda>j. case map_of pending j of Some m \<Rightarrow> view b1 j ++ fmlookup m | None \<Rightarrow> buffered b1 d j) =
        (\<lambda>j. case map_of (p # pending) j of Some m \<Rightarrow> view b j ++ fmlookup m | None \<Rightarrow> buffered b d j)"
      by (rule ext) (auto simp: p view fresh slot buffered_def fmempty.rep_eq split: option.splits)
    with Cons.IH [OF run dist] Cons.prems(3) p show ?thesis by simp
  next
    case (Err x)
    let ?d = "fmupd i (slot_of d i ++\<^sub>f attrs) d"
    from Cons.prems(1) p put Err
    have run: "flush_loop ops pending (case e of None \<Rightarrow> Some x | Some e0 \<Rightarrow> Some e0) b1 ?d = Some (e', b', d')"
      by simp
    have rest: "\<forall>j \<in> fst ` set pending. slot_of ?d j = fmempty"
      using Cons.prems(2,3) p by auto
    from law Err have view: "view b1 = view b" by simp
    have "(\<lambda>j. case map_of pending j of Some m \<Rightarrow> view b1 j ++ fmlookup m | None \<Rightarrow> buffered b1 ?d j) =
        (\<lambda>j. case map_of (p # pending) j of Some m \<Rightarrow> view b j ++ fmlookup m | None \<Rightarrow> buffered b d j)"
      by (rule ext) (auto simp: p view fresh slot buffered_def fmempty.rep_eq split: option.splits)
    with Cons.IH [OF run dist rest] show ?thesis by (auto split: option.splits)
  next
    case Panic
    with law show ?thesis by simp
  qed
qed

lemma flush_loop_no_panic: "flush_loop ops pending e b d \<noteq> None"
proof (induction pending arbitrary: e b d)
  case (Cons p pending)
  obtain i attrs where p: "p = (i, attrs)" by (rule prod.exhaust)
  obtain r b1 where put: "so_attrs_put ops i attrs b = (r, b1)" by (rule prod.exhaust)
  with put_view [OF put] Cons.IH p show ?case by (cases r) simp_all
qed simp

end

definition lists_keys :: "key_order \<Rightarrow> bool" where
  "lists_keys order \<longleftrightarrow> (\<forall>d. distinct (order d) \<and> set (order d) = fset (fmdom d))"

definition wb_view :: "('s \<Rightarrow> attr_view) \<Rightarrow> 's write_behind \<Rightarrow> attr_view" where
  "wb_view view w = (\<lambda>i. view (wb_backend w) i ++ fmlookup (slot_of (wb_dirty w) i))"

context attr_backend
begin

lemma wb_view_buffered: "wb_view view w = buffered (wb_backend w) (wb_dirty w)"
  by (simp add: wb_view_def buffered_def)

text \<open>A flush never changes what a caller sees, and empties the buffer when it succeeds.\<close>

lemma flush_now_view:
  assumes "lists_keys order" and "wb_flush_now ops order now w = (r, w')"
  shows "r \<noteq> Panic" and "wb_view view w' = wb_view view w"
    and "r = Ok u \<Longrightarrow> wb_dirty w' = fmempty \<and> view (wb_backend w') = wb_view view w"
proof -
  let ?pending = "map (\<lambda>i. (i, slot_of (wb_dirty w) i)) (order (wb_dirty w))"
  obtain e b d where run: "flush_loop ops ?pending None (wb_backend w) fmempty = Some (e, b, d)"
    using flush_loop_no_panic [of ?pending None "wb_backend w" fmempty] by auto
  have keys: "distinct (order (wb_dirty w))" "set (order (wb_dirty w)) = fset (fmdom (wb_dirty w))"
    using assms(1) by (simp_all add: lists_keys_def)
  have "map fst ?pending = order (wb_dirty w)" by (simp add: comp_def)
  note loop = flush_loop_view [OF run, unfolded this, OF keys(1)]
  have pend: "map_of ?pending i =
      (if i |\<in>| fmdom (wb_dirty w) then Some (slot_of (wb_dirty w) i) else None)" for i
    using map_of_map_restrict [of "slot_of (wb_dirty w)" "order (wb_dirty w)"] keys(2)
    by (simp add: restrict_map_def)
  have view: "buffered b d = wb_view view w"
  proof -
    have "slot_of (wb_dirty w) i = fmempty" if "i |\<notin>| fmdom (wb_dirty w)" for i
      using that by (simp add: slot_of_def fmdom_notD)
    with loop show ?thesis
      by (simp add: pend wb_view_def buffered_def fun_eq_iff)
  qed
  show "r \<noteq> Panic" "wb_view view w' = wb_view view w"
    and "r = Ok u \<Longrightarrow> wb_dirty w' = fmempty \<and> view (wb_backend w') = wb_view view w"
  proof -
    have "r \<noteq> Panic \<and> wb_view view w' = wb_view view w \<and>
      (r = Ok u \<longrightarrow> wb_dirty w' = fmempty \<and> view (wb_backend w') = wb_view view w)"
    proof (cases e)
      case (Some x)
      with assms(2) run view show ?thesis
        by (auto simp: wb_flush_now_def Let_def wb_view_buffered)
    next
      case None
      with loop have "d = fmempty" by simp
      obtain rf b' where flush: "so_flush ops b = (rf, b')" by (rule prod.exhaust)
      have "buffered b fmempty = view b" by (simp add: buffered_def fmempty.rep_eq)
      moreover have "buffered b' fmempty = view b'" by (simp add: buffered_def fmempty.rep_eq)
      ultimately show ?thesis
        using assms(2) run view None \<open>d = fmempty\<close> flush flush_view [OF flush]
        by (auto simp: wb_flush_now_def Let_def wb_view_buffered)
    qed
    then show "r \<noteq> Panic" "wb_view view w' = wb_view view w"
      "r = Ok u \<Longrightarrow> wb_dirty w' = fmempty \<and> view (wb_backend w') = wb_view view w" by blast+
  qed
qed

text \<open>The layer keeps the contract of the backend it wraps.\<close>

lemma write_behind_keeps_contract:
  assumes "lists_keys order"
  shows "attr_backend (write_behind_ops ops order) (wb_view view)"
proof (unfold_locales)
  fix i ks w rg w'
  assume run: "so_attrs_get (write_behind_ops ops order) i ks w = (rg, w')"
  obtain r b where get: "so_attrs_get ops i ks (wb_backend w) = (r, b)" by (rule prod.exhaust)
  from run get have w': "w' = w\<lparr>wb_backend := b\<rparr>"
    and rg: "rg = obind r (\<lambda>out. Ok (case fmlookup (wb_dirty w) i of None \<Rightarrow> out
      | Some pending \<Rightarrow> out ++\<^sub>f fmfilter (\<lambda>k. k \<in> set ks) pending))"
    by (simp_all add: write_behind_ops_def wb_attrs_get_def Let_def)
  note law = get_view [OF get]
  have "wb_view view w' = wb_view view w" using law by (simp add: w' wb_view_def)
  moreover have "fmlookup m k = (if k \<in> set ks then wb_view view w i k else None)" if "rg = Ok m" for m k
  proof -
    from that rg obtain out where out: "r = Ok out" by (auto simp: obind_Ok_conv)
    with law have "fmlookup out k = (if k \<in> set ks then view (wb_backend w) i k else None)" by blast
    with that rg out show ?thesis
      by (auto simp: wb_view_def slot_of_def map_add_def fmadd.rep_eq fmempty.rep_eq
          simp del: fmlookup_add split: option.splits)
  qed
  ultimately show "wb_view view w' = wb_view view w \<and> (\<forall>m. rg = Ok m \<longrightarrow>
      (\<forall>k. fmlookup m k = (if k \<in> set ks then wb_view view w i k else None)))" by blast
next
  fix i w ra w'
  assume run: "so_attrs_all (write_behind_ops ops order) i w = (ra, w')"
  obtain r b where all: "so_attrs_all ops i (wb_backend w) = (r, b)" by (rule prod.exhaust)
  from run all have w': "w' = w\<lparr>wb_backend := b\<rparr>"
    and ra: "ra = obind r (\<lambda>out. Ok (case fmlookup (wb_dirty w) i of None \<Rightarrow> out
      | Some pending \<Rightarrow> out ++\<^sub>f pending))"
    by (simp_all add: write_behind_ops_def wb_attrs_all_def Let_def)
  note law = all_view [OF all]
  have "wb_view view w' = wb_view view w" using law by (simp add: w' wb_view_def)
  moreover have "fmlookup m = wb_view view w i" if "ra = Ok m" for m
  proof -
    from that ra obtain out where out: "r = Ok out" and m: "m = (case fmlookup (wb_dirty w) i of
        None \<Rightarrow> out | Some pending \<Rightarrow> out ++\<^sub>f pending)"
      by (auto simp: obind_Ok_conv)
    from law out have "fmlookup out = view (wb_backend w) i" by blast
    then show ?thesis
      by (simp add: m wb_view_def slot_of_def fmadd.rep_eq fmempty.rep_eq del: fmlookup_add
          split: option.split)
  qed
  ultimately show "wb_view view w' = wb_view view w \<and> (\<forall>m. ra = Ok m \<longrightarrow> fmlookup m = wb_view view w i)"
    by blast
next
  fix i m w rp w'
  assume run: "so_attrs_put (write_behind_ops ops order) i m w = (rp, w')"
  show "rp \<noteq> Panic \<and> wb_view view w' = (case rp of
      Ok _ \<Rightarrow> (wb_view view w)(i := wb_view view w i ++ fmlookup m) | _ \<Rightarrow> wb_view view w)"
  proof (cases "m = fmempty")
    case True
    with run show ?thesis by (auto simp: write_behind_ops_def wb_attrs_put_def fmempty.rep_eq)
  next
    case False
    with run have "rp = Ok ()" "wb_backend w' = wb_backend w"
      "wb_dirty w' = fmupd i (slot_of (wb_dirty w) i ++\<^sub>f m) (wb_dirty w)"
      by (auto simp: write_behind_ops_def wb_attrs_put_def Let_def)
    then show ?thesis by (auto simp: wb_view_def fmadd.rep_eq)
  qed
next
  fix w rf w'
  assume "so_flush (write_behind_ops ops order) w = (rf, w')"
  then show "rf \<noteq> Panic \<and> wb_view view w' = wb_view view w"
    using flush_now_view(1,2) [OF assms] by (auto simp: write_behind_ops_def wb_flush_def)
qed

end

section \<open>The backend of the program\<close>

definition mem_view :: "memory_storage \<Rightarrow> attr_view" where
  "mem_view s = (\<lambda>i. fmlookup (case fmlookup (ms_attrs s) i of None \<Rightarrow> fmempty | Some m \<Rightarrow> m))"

interpretation mem: attr_backend memory_ops mem_view
proof unfold_locales
  fix i ks s rg s'
  assume "so_attrs_get memory_ops i ks s = (rg, s')"
  then show "mem_view s' = mem_view s \<and> (\<forall>m. rg = Ok m \<longrightarrow>
      (\<forall>k. fmlookup m k = (if k \<in> set ks then mem_view s i k else None)))"
    by (auto simp: memory_ops_def mem_attrs_get_def mem_view_def split: option.splits)
next
  fix i s ra s'
  assume "so_attrs_all memory_ops i s = (ra, s')"
  then show "mem_view s' = mem_view s \<and> (\<forall>m. ra = Ok m \<longrightarrow> fmlookup m = mem_view s i)"
    by (auto simp: memory_ops_def mem_attrs_all_def mem_view_def)
next
  fix i m s rp s'
  assume "so_attrs_put memory_ops i m s = (rp, s')"
  then show "rp \<noteq> Panic \<and> mem_view s' = (case rp of
      Ok _ \<Rightarrow> (mem_view s)(i := mem_view s i ++ fmlookup m) | _ \<Rightarrow> mem_view s)"
    by (auto simp: memory_ops_def mem_attrs_put_def mem_view_def Let_def fmadd.rep_eq fmempty.rep_eq
        simp del: fmlookup_add split: if_splits option.splits)
next
  fix s rf s'
  assume "so_flush memory_ops s = (rf, s')"
  then show "rf \<noteq> Panic \<and> mem_view s' = mem_view s" by (auto simp: memory_ops_def mem_flush_def)
qed

definition sorted_keys :: key_order where
  "sorted_keys d = sorted_list_of_fset (fmdom d)"

lemma sorted_keys_lists: "lists_keys sorted_keys"
  by (simp add: lists_keys_def sorted_keys_def sorted_list_of_fset.rep_eq)

text \<open>And so does the layer over it.\<close>

interpretation wbm: attr_backend "write_behind_ops memory_ops sorted_keys" "wb_view mem_view"
  by (rule mem.write_behind_keeps_contract [OF sorted_keys_lists])

end
