(* ===== verification/Storage_Rules.thy ===== *)
theory Storage_Rules
  imports Write_Behind
begin

text \<open>
  The storage layer as its callers see it: a client of the write-behind layer over the reference
  backend cannot tell it from the backend itself, a crash loses only buffered attributes, and the
  reference backend keeps its indexes consistent.
\<close>

section \<open>Calls and replies\<close>

datatype storage_call =
    CallByName bytes | CallById account_id | CallCreate new_account
  | CallSetCredential account_id credential
  | CallAttrsGet account_id "attr_key list" | CallAttrsAll account_id | CallAttrsPut account_id attr_map
  | CallBanPut ban_record | CallBanGet account_id u64 | CallBanClear account_id ban_scope
  | CallCount | CallList u64 u32 | CallDelete account_id
  | CallCharacters account_id | CallCharacterByName bytes | CallCreateCharacter d2_character
  | CallUpdateCharacter d2_character | CallDeleteCharacter account_id bytes
  | CallFlush

datatype storage_reply =
    ReplyAccountOpt "account option storage_result" | ReplyAccount "account storage_result"
  | ReplyUnit "unit storage_result" | ReplyAttrs "attr_map storage_result"
  | ReplyBan "ban_record option storage_result" | ReplyCount "u64 storage_result"
  | ReplyAccounts "account list storage_result" | ReplyCharacters "d2_character list storage_result"
  | ReplyCharacter "d2_character option storage_result" | ReplyBool "bool storage_result"

fun storage_exec :: "'s storage_ops \<Rightarrow> storage_call \<Rightarrow> 's \<Rightarrow> storage_reply \<times> 's" where
  "storage_exec ops (CallByName n) s = apfst ReplyAccountOpt (so_account_by_name ops n s)"
| "storage_exec ops (CallById i) s = apfst ReplyAccountOpt (so_account_by_id ops i s)"
| "storage_exec ops (CallCreate req) s = apfst ReplyAccount (so_create_account ops req s)"
| "storage_exec ops (CallSetCredential i c) s = apfst ReplyUnit (so_set_credential ops i c s)"
| "storage_exec ops (CallAttrsGet i ks) s = apfst ReplyAttrs (so_attrs_get ops i ks s)"
| "storage_exec ops (CallAttrsAll i) s = apfst ReplyAttrs (so_attrs_all ops i s)"
| "storage_exec ops (CallAttrsPut i m) s = apfst ReplyUnit (so_attrs_put ops i m s)"
| "storage_exec ops (CallBanPut b) s = apfst ReplyUnit (so_ban_put ops b s)"
| "storage_exec ops (CallBanGet i now) s = apfst ReplyBan (so_ban_get ops i now s)"
| "storage_exec ops (CallBanClear i scope) s = apfst ReplyUnit (so_ban_clear ops i scope s)"
| "storage_exec ops CallCount s = apfst ReplyCount (so_account_count ops s)"
| "storage_exec ops (CallList offset limit) s = apfst ReplyAccounts (so_list_accounts ops offset limit s)"
| "storage_exec ops (CallDelete i) s = apfst ReplyUnit (so_delete_account ops i s)"
| "storage_exec ops (CallCharacters i) s = apfst ReplyCharacters (so_characters ops i s)"
| "storage_exec ops (CallCharacterByName n) s = apfst ReplyCharacter (so_character_by_name ops n s)"
| "storage_exec ops (CallCreateCharacter c) s = apfst ReplyUnit (so_create_character ops c s)"
| "storage_exec ops (CallUpdateCharacter c) s = apfst ReplyBool (so_update_character ops c s)"
| "storage_exec ops (CallDeleteCharacter i n) s = apfst ReplyBool (so_delete_character ops i n s)"
| "storage_exec ops CallFlush s = apfst ReplyUnit (so_flush ops s)"

text \<open>A history of the layer: calls, and the timer's ticks between them.\<close>

datatype wb_event = Call storage_call | Tick u64

fun wb_run :: "key_order \<Rightarrow> wb_event list \<Rightarrow> memory_storage write_behind \<Rightarrow>
    storage_reply list \<times> memory_storage write_behind" where
  "wb_run order [] w = ([], w)"
| "wb_run order (Call c # es) w =
     (let (r, w) = storage_exec (write_behind_ops memory_ops order) c w; (rs, w) = wb_run order es w
      in (r # rs, w))"
| "wb_run order (Tick now # es) w = wb_run order es (snd (wb_tick memory_ops order now w))"

fun mem_run :: "wb_event list \<Rightarrow> memory_storage \<Rightarrow> storage_reply list \<times> memory_storage" where
  "mem_run [] s = ([], s)"
| "mem_run (Call c # es) s =
     (let (r, s) = storage_exec memory_ops c s; (rs, s) = mem_run es s in (r # rs, s))"
| "mem_run (Tick now # es) s = mem_run es s"

section \<open>The simulation\<close>

text \<open>
  Attributes are written only for ids the backend has given out. (The layer does not check this, and
  neither does the reference backend: attributes written for a future id would show up on the
  account that gets it.)
\<close>

fun known_call :: "storage_call \<Rightarrow> memory_storage \<Rightarrow> bool" where
  "known_call (CallAttrsPut i m) s = (i \<le> ms_next_id s)"
| "known_call _ s = True"

fun known_ids :: "wb_event list \<Rightarrow> memory_storage \<Rightarrow> bool" where
  "known_ids [] s = True"
| "known_ids (Call c # es) s = (known_call c s \<and> known_ids es (snd (storage_exec memory_ops c s)))"
| "known_ids (Tick now # es) s = known_ids es s"

definition bounded_ids :: "dirty_map \<Rightarrow> account_id \<Rightarrow> bool" where
  "bounded_ids d n \<longleftrightarrow> (\<forall>i. n < i \<longrightarrow> fmlookup d i = None)"

definition sim :: "memory_storage write_behind \<Rightarrow> memory_storage \<Rightarrow> bool" where
  "sim w s \<longleftrightarrow>
     wb_backend w = s\<lparr>ms_attrs := ms_attrs (wb_backend w)\<rparr> \<and> wb_view mem_view w = mem_view s \<and>
     bounded_ids (ms_attrs (wb_backend w)) (ms_next_id s) \<and> bounded_ids (wb_dirty w) (ms_next_id s) \<and>
     bounded_ids (ms_attrs s) (ms_next_id s)"

lemma mem_view_slot: "mem_view s i = fmlookup (slot_of (ms_attrs s) i)"
  by (simp add: mem_view_def slot_of_def)

lemma wb_view_slot: "wb_view mem_view w i =
    fmlookup (slot_of (ms_attrs (wb_backend w)) i) ++ fmlookup (slot_of (wb_dirty w) i)"
  by (simp add: wb_view_def mem_view_slot)

text \<open>The calls that do not touch attributes do the same whatever the attributes are.\<close>

definition blind :: "(memory_storage, 'a) storage_method \<Rightarrow> bool" where
  "blind m \<longleftrightarrow> (\<forall>s A. m (s\<lparr>ms_attrs := A\<rparr>) = apsnd (\<lambda>s. s\<lparr>ms_attrs := A\<rparr>) (m s) \<and>
     ms_attrs (snd (m s)) = ms_attrs s \<and> ms_next_id (snd (m s)) = ms_next_id s)"

lemma first_active_attrs [simp]: "first_active i now (s\<lparr>ms_attrs := A\<rparr>) scopes = first_active i now s scopes"
  by (induction scopes) (auto split: option.splits)

lemma blind_methods:
  "blind (mem_account_by_name n)" "blind (mem_account_by_id i)" "blind (mem_set_credential i c)"
  "blind (mem_ban_put b)" "blind (mem_ban_get i now)" "blind (mem_ban_clear i scope)"
  "blind mem_account_count" "blind (mem_list_accounts offset limit)" "blind (mem_characters i)"
  "blind (mem_character_by_name n)" "blind (mem_create_character ch)" "blind (mem_update_character ch)"
  "blind (mem_delete_character i n)"
  by (simp_all add: blind_def mem_account_by_name_def mem_account_by_id_def mem_set_credential_def
      mem_ban_put_def mem_ban_get_def mem_ban_clear_def mem_account_count_def mem_list_accounts_def
      mem_characters_def mem_character_by_name_def mem_create_character_def mem_update_character_def
      mem_delete_character_def Let_def split: option.split)

lemma sim_blind:
  assumes "sim w s" and "blind m" and "through m w = (r, w')" and "m s = (r', s')"
  shows "r = r' \<and> sim w' s'"
proof -
  let ?A = "ms_attrs (wb_backend w)"
  have b: "wb_backend w = s\<lparr>ms_attrs := ?A\<rparr>" using assms(1) by (simp add: sim_def)
  from assms(2) have m: "m (s\<lparr>ms_attrs := ?A\<rparr>) = apsnd (\<lambda>s. s\<lparr>ms_attrs := ?A\<rparr>) (m s)"
    and frame: "ms_attrs s' = ms_attrs s" "ms_next_id s' = ms_next_id s"
    using assms(4) by (auto simp: blind_def dest: spec [of _ s])
  from m b assms(4) have "m (wb_backend w) = (r', s'\<lparr>ms_attrs := ?A\<rparr>)" by simp
  with assms(3) have "r = r'" "w' = w\<lparr>wb_backend := s'\<lparr>ms_attrs := ?A\<rparr>\<rparr>"
    by (simp_all add: through_def)
  with assms(1) frame show ?thesis
    by (simp add: sim_def wb_view_slot mem_view_slot fun_eq_iff)
qed

lemma sim_attrs:
  assumes "sim w s" and "w' = w\<lparr>wb_dirty := d, wb_dirty_attrs := n, wb_batched_writes := k\<rparr>"
    and "s' = s\<lparr>ms_attrs := A\<rparr>" and "wb_view mem_view w' = mem_view s'"
    and "bounded_ids d (ms_next_id s)" and "bounded_ids A (ms_next_id s)"
  shows "sim w' s'"
  using assms by (simp add: sim_def)

lemma bounded_upd: "bounded_ids d n \<Longrightarrow> i \<le> n \<Longrightarrow> bounded_ids (fmupd i m d) n"
  by (auto simp: bounded_ids_def)

lemma bounded_drop: "bounded_ids d n \<Longrightarrow> bounded_ids (fmdrop i d) n"
  by (auto simp: bounded_ids_def)

lemma sim_get:
  assumes "sim w s" and "wb_attrs_get memory_ops i ks w = (r, w')" and "mem_attrs_get i ks s = (r', s')"
  shows "r = r' \<and> sim w' s'"
proof -
  have "so_attrs_get (write_behind_ops memory_ops sorted_keys) i ks w = (r, w')"
    "so_attrs_get memory_ops i ks s = (r', s')"
    using assms(2,3) by (simp_all add: write_behind_ops_def memory_ops_def)
  note laws = wbm.get_view [OF this(1)] mem.get_view [OF this(2)]
  obtain m where m: "r = Ok m"
    using assms(2) by (auto simp: wb_attrs_get_def memory_ops_def mem_attrs_get_def Let_def)
  obtain m' where m': "r' = Ok m'" using assms(3) by (auto simp: mem_attrs_get_def)
  have "wb_view mem_view w = mem_view s" using assms(1) by (simp add: sim_def)
  with laws m m' have "m = m'" by (intro fmap_ext) simp
  moreover have "w' = w" using assms(2)
    by (auto simp: wb_attrs_get_def memory_ops_def mem_attrs_get_def Let_def)
  moreover have "s' = s" using assms(3) by (auto simp: mem_attrs_get_def)
  ultimately show ?thesis using assms(1) m m' by simp
qed

lemma sim_all:
  assumes "sim w s" and "wb_attrs_all memory_ops i w = (r, w')" and "mem_attrs_all i s = (r', s')"
  shows "r = r' \<and> sim w' s'"
proof -
  have "so_attrs_all (write_behind_ops memory_ops sorted_keys) i w = (r, w')"
    "so_attrs_all memory_ops i s = (r', s')"
    using assms(2,3) by (simp_all add: write_behind_ops_def memory_ops_def)
  note laws = wbm.all_view [OF this(1)] mem.all_view [OF this(2)]
  obtain m where m: "r = Ok m"
    using assms(2) by (auto simp: wb_attrs_all_def memory_ops_def mem_attrs_all_def Let_def)
  obtain m' where m': "r' = Ok m'" using assms(3) by (auto simp: mem_attrs_all_def)
  have "wb_view mem_view w = mem_view s" using assms(1) by (simp add: sim_def)
  with laws m m' have "m = m'" by (intro fmap_ext) simp
  moreover have "w' = w" using assms(2)
    by (auto simp: wb_attrs_all_def memory_ops_def mem_attrs_all_def Let_def)
  moreover have "s' = s" using assms(3) by (auto simp: mem_attrs_all_def)
  ultimately show ?thesis using assms(1) m m' by simp
qed

lemma sim_put:
  assumes "sim w s" and "i \<le> ms_next_id s" and "wb_attrs_put i m w = (r, w')"
    and "mem_attrs_put i m s = (r', s')"
  shows "r = r' \<and> sim w' s'"
proof (cases "m = fmempty")
  case True
  with assms show ?thesis by (simp add: wb_attrs_put_def mem_attrs_put_def)
next
  case False
  let ?d = "fmupd i (slot_of (wb_dirty w) i ++\<^sub>f m) (wb_dirty w)"
  let ?A = "fmupd i (slot_of (ms_attrs s) i ++\<^sub>f m) (ms_attrs s)"
  from False assms(3) have w': "r = Ok ()" "w' = w\<lparr>wb_dirty := ?d, wb_dirty_attrs := wb_dirty_attrs w' ,
      wb_batched_writes := wb_batched_writes w'\<rparr>"
    by (auto simp: wb_attrs_put_def Let_def)
  from False assms(4) have s': "r' = Ok ()" "s' = s\<lparr>ms_attrs := ?A\<rparr>"
    by (auto simp: mem_attrs_put_def Let_def slot_of_def)
  have view: "wb_view mem_view w i = mem_view s i" for i using assms(1) by (simp add: sim_def)
  have "so_attrs_put (write_behind_ops memory_ops sorted_keys) i m w = (r, w')"
    "so_attrs_put memory_ops i m s = (r', s')"
    using assms(3,4) by (simp_all add: write_behind_ops_def memory_ops_def)
  from wbm.put_view [OF this(1)] mem.put_view [OF this(2)] w'(1) s'(1)
  have "wb_view mem_view w' = mem_view s'" using view by (simp add: fun_eq_iff)
  moreover have "bounded_ids ?d (ms_next_id s)" "bounded_ids ?A (ms_next_id s)"
    using assms(1,2) bounded_upd by (simp_all add: sim_def)
  ultimately have "sim w' s'" by (intro sim_attrs [OF assms(1) w'(2) s'(2)])
  with w'(1) s'(1) show ?thesis by simp
qed

lemma sim_delete:
  assumes "sim w s" and "wb_delete_account memory_ops i w = (r, w')"
    and "mem_delete_account i s = (r', s')"
  shows "r = r' \<and> sim w' s'"
proof -
  let ?A = "ms_attrs (wb_backend w)"
  let ?d = "fmdrop i (wb_dirty w)"
  have b: "wb_backend w = s\<lparr>ms_attrs := ?A\<rparr>" using assms(1) by (simp add: sim_def)
  have "mem_delete_account i (s\<lparr>ms_attrs := A\<rparr>) =
      apsnd (\<lambda>s. s\<lparr>ms_attrs := fmdrop i A\<rparr>) (mem_delete_account i s)" for A
    by (cases s) (simp add: mem_delete_account_def Let_def cong del: fmfilter_cong split: option.split)
  with assms(3) have del: "mem_delete_account i (s\<lparr>ms_attrs := ?A\<rparr>) = (r', s'\<lparr>ms_attrs := fmdrop i ?A\<rparr>)"
    by simp
  from assms(3) have s': "r' = Ok ()" "ms_attrs s' = fmdrop i (ms_attrs s)" "ms_next_id s' = ms_next_id s"
    by (auto simp: mem_delete_account_def Let_def split: option.splits)
  have dirty: "fmlookup (wb_dirty w) i = None \<Longrightarrow> wb_dirty w = ?d"
    by (metis fmdom_notI fmdrop_idle)
  from assms(2) have r: "r = Ok ()" "wb_backend w' = s'\<lparr>ms_attrs := fmdrop i ?A\<rparr>" "wb_dirty w' = ?d"
    using del b dirty s'(1) by (auto simp: wb_delete_account_def through_def memory_ops_def Let_def split: if_splits)
  have "slot_of (fmdrop i m) j = (if j = i then fmempty else slot_of m j)" for m :: dirty_map and j
    by (simp add: slot_of_def)
  moreover have "wb_view mem_view w j = mem_view s j" for j using assms(1) by (simp add: sim_def)
  ultimately have "wb_view mem_view w' = mem_view s'"
    by (auto simp: wb_view_slot mem_view_slot fun_eq_iff r(2,3) s'(2) fmempty.rep_eq)
  with assms(1) r s' bounded_drop show ?thesis by (simp add: sim_def)
qed

lemma sim_create:
  assumes "sim w s" and "unat (ms_next_id s) + 1 < 2 ^ 64"
    and "through (mem_create_account req) w = (r, w')" and "mem_create_account req s = (r', s')"
  shows "r = r' \<and> sim w' s' \<and> unat (ms_next_id s') \<le> unat (ms_next_id s) + 1"
proof -
  let ?A = "ms_attrs (wb_backend w)" and ?n = "ms_next_id s + 1"
  have b: "wb_backend w = s\<lparr>ms_attrs := ?A\<rparr>" using assms(1) by (simp add: sim_def)
  have n: "unat ?n = unat (ms_next_id s) + 1" using assms(2) by (simp add: unat_word_ariths)
  then have less: "ms_next_id s < ?n" by (simp add: word_less_nat_alt)
  show ?thesis
  proof (cases "\<exists>a. r' = Ok a")
    case False
    with assms(4) have "s' = s" "mem_create_account req (s\<lparr>ms_attrs := ?A\<rparr>) = (r', s\<lparr>ms_attrs := ?A\<rparr>)"
      by (auto simp: mem_create_account_def Let_def split: outcome.splits if_splits)
    with assms(1,3) b show ?thesis by (auto simp: through_def)
  next
    case True
    then obtain a where a: "r' = Ok a" by blast
    let ?put = "\<lambda>B :: dirty_map. if n_attrs req \<noteq> fmempty then fmupd ?n (n_attrs req) B else B"
    from assms(4) a have s': "ms_attrs s' = ?put (ms_attrs s)" "ms_next_id s' = ?n"
      and run: "mem_create_account req (s\<lparr>ms_attrs := ?A\<rparr>) = (Ok a, s'\<lparr>ms_attrs := ?put ?A\<rparr>)"
      by (auto simp: mem_create_account_def Let_def split: outcome.splits if_splits)
    from assms(3) run b have w': "r = Ok a" "wb_backend w' = s'\<lparr>ms_attrs := ?put ?A\<rparr>" "wb_dirty w' = wb_dirty w"
      by (auto simp: through_def)
    have fresh: "fmlookup ?A ?n = None" "fmlookup (ms_attrs s) ?n = None" "fmlookup (wb_dirty w) ?n = None"
      using assms(1) less by (auto simp: sim_def bounded_ids_def)
    have bound: "bounded_ids d ?n" if "bounded_ids d (ms_next_id s)" for d
      using that less by (auto simp: bounded_ids_def dest: order.strict_trans)
    have "wb_view mem_view w j = mem_view s j" for j using assms(1) by (simp add: sim_def)
    then have "wb_view mem_view w' = mem_view s'"
      using fresh by (auto simp: wb_view_slot mem_view_slot fun_eq_iff w'(2,3) s'(1) slot_of_def fmempty.rep_eq)
    moreover have "bounded_ids (?put d) ?n" if "bounded_ids d (ms_next_id s)" for d
      using bound [OF that] bounded_upd by simp
    ultimately show ?thesis
      using assms(1) w' s' a n bound by (simp add: sim_def)
  qed
qed

lemma flush_loop_memory:
  "bounded_ids (ms_attrs b) n \<Longrightarrow> \<forall>p \<in> set pending. fst p \<le> n \<Longrightarrow>
   \<exists>A. flush_loop memory_ops pending None b d = Some (None, b\<lparr>ms_attrs := A\<rparr>, d) \<and> bounded_ids A n"
proof (induction pending arbitrary: b)
  case Nil
  then show ?case by (intro exI [of _ "ms_attrs b"]) simp
next
  case (Cons p pending)
  obtain i m where p: "p = (i, m)" by (rule prod.exhaust)
  let ?A = "if m = fmempty then ms_attrs b else fmupd i (slot_of (ms_attrs b) i ++\<^sub>f m) (ms_attrs b)"
  have put: "so_attrs_put memory_ops i m b = (Ok (), b\<lparr>ms_attrs := ?A\<rparr>)"
    by (simp add: memory_ops_def mem_attrs_put_def slot_of_def Let_def)
  have "bounded_ids ?A n" using Cons.prems p bounded_upd by simp
  with Cons.IH [of "b\<lparr>ms_attrs := ?A\<rparr>"] Cons.prems(2) p put show ?case by auto
qed

lemma sim_flush:
  assumes "sim w s" and "lists_keys order" and "wb_flush_now memory_ops order now w = (r, w')"
  shows "r = Ok () \<and> sim w' s \<and> wb_dirty w' = fmempty \<and> into_backend w' = s\<lparr>ms_attrs := ms_attrs (into_backend w')\<rparr>"
proof -
  let ?n = "ms_next_id s"
  let ?pending = "map (\<lambda>i. (i, slot_of (wb_dirty w) i)) (order (wb_dirty w))"
  have "i \<le> ?n" if "i \<in> set (order (wb_dirty w))" for i
    using that assms(1,2) by (auto simp: lists_keys_def sim_def bounded_ids_def not_less [symmetric]
        fmlookup_dom_iff)
  with assms(1) flush_loop_memory [of "wb_backend w" ?n ?pending fmempty] obtain A where
    A: "flush_loop memory_ops ?pending None (wb_backend w) fmempty =
        Some (None, (wb_backend w)\<lparr>ms_attrs := A\<rparr>, fmempty)" "bounded_ids A ?n"
    by (auto simp: sim_def)
  have b: "wb_backend w = s\<lparr>ms_attrs := ms_attrs (wb_backend w)\<rparr>" using assms(1) by (simp add: sim_def)
  then have "(wb_backend w)\<lparr>ms_attrs := A\<rparr> = s\<lparr>ms_attrs := A\<rparr>"
    by (metis (no_types, lifting) memory_storage.surjective memory_storage.update_convs(3))
  with A(1) assms(3) have w': "r = Ok ()" "wb_backend w' = s\<lparr>ms_attrs := A\<rparr>" "wb_dirty w' = fmempty"
    by (auto simp: wb_flush_now_def Let_def memory_ops_def mem_flush_def)
  have "wb_view mem_view w' = mem_view s"
    using mem.flush_now_view(2) [OF assms(2,3)] assms(1) by (simp add: sim_def)
  with assms(1) A(2) w' show ?thesis
    by (simp add: sim_def bounded_ids_def into_backend_def)
qed

lemma sim_tick:
  assumes "sim w s" and "lists_keys order"
  shows "sim (snd (wb_tick memory_ops order now w)) s"
proof -
  obtain r w' where f: "wb_flush_now memory_ops order now w = (r, w')" by (rule prod.exhaust)
  from sim_flush [OF assms f] have "r = Ok ()" "sim w' s" by simp_all
  moreover have "sim (w\<lparr>wb_last_flush_ms := now\<rparr>) s" using assms(1) by (simp add: sim_def wb_view_def)
  ultimately show ?thesis using assms(1) f by (simp add: wb_tick_def Let_def)
qed

lemma memory_ops_simps:
  "so_account_by_name memory_ops = mem_account_by_name" "so_account_by_id memory_ops = mem_account_by_id"
  "so_create_account memory_ops = mem_create_account" "so_set_credential memory_ops = mem_set_credential"
  "so_attrs_get memory_ops = mem_attrs_get" "so_attrs_all memory_ops = mem_attrs_all"
  "so_attrs_put memory_ops = mem_attrs_put" "so_ban_put memory_ops = mem_ban_put"
  "so_ban_get memory_ops = mem_ban_get" "so_ban_clear memory_ops = mem_ban_clear"
  "so_account_count memory_ops = mem_account_count" "so_list_accounts memory_ops = mem_list_accounts"
  "so_delete_account memory_ops = mem_delete_account" "so_characters memory_ops = mem_characters"
  "so_character_by_name memory_ops = mem_character_by_name"
  "so_create_character memory_ops = mem_create_character"
  "so_update_character memory_ops = mem_update_character"
  "so_delete_character memory_ops = mem_delete_character" "so_flush memory_ops = mem_flush"
  by (simp_all add: memory_ops_def)

lemma sim_blind_exec:
  assumes "sim w s" and "blind m" and "apfst R (through m w) = (r, w')" and "apfst R (m s) = (r', s')"
  shows "r = r' \<and> sim w' s' \<and> unat (ms_next_id s') \<le> unat (ms_next_id s) + 1"
proof -
  obtain q v where v: "through m w = (q, v)" by (rule prod.exhaust)
  obtain q' t where t: "m s = (q', t)" by (rule prod.exhaust)
  have "ms_next_id t = ms_next_id s" using assms(2) t unfolding blind_def by (metis snd_conv)
  with sim_blind [OF assms(1,2) v t] assms(3,4) v t show ?thesis by auto
qed

lemma sim_exec:
  assumes "apfst R x = (r, w')" and "apfst R y = (r', s')"
    and "\<And>q v q' t. x = (q, v) \<Longrightarrow> y = (q', t) \<Longrightarrow> q = q' \<and> sim v t"
    and "ms_next_id (snd y) = ms_next_id s"
  shows "r = r' \<and> sim w' s' \<and> unat (ms_next_id s') \<le> unat (ms_next_id s) + 1"
  using assms by (cases x; cases y) auto

lemma attr_ops_next_id:
  "ms_next_id (snd (mem_attrs_get i ks s)) = ms_next_id s" "ms_next_id (snd (mem_attrs_all i s)) = ms_next_id s"
  "ms_next_id (snd (mem_attrs_put i m s)) = ms_next_id s" "ms_next_id (snd (mem_delete_account i s)) = ms_next_id s"
  by (simp_all add: mem_attrs_get_def mem_attrs_all_def mem_attrs_put_def mem_delete_account_def Let_def
      split: option.split)

lemma sim_call:
  assumes sim: "sim w s" and order: "lists_keys order" and known: "known_call c s"
    and n: "unat (ms_next_id s) + 1 < 2 ^ 64"
    and run: "storage_exec (write_behind_ops memory_ops order) c w = (r, w')"
      "storage_exec memory_ops c s = (r', s')"
  shows "r = r' \<and> sim w' s' \<and> unat (ms_next_id s') \<le> unat (ms_next_id s) + 1"
proof (cases c)
  case (CallCreate req)
  obtain q v where v: "through (mem_create_account req) w = (q, v)" by (rule prod.exhaust)
  obtain q' t where t: "mem_create_account req s = (q', t)" by (rule prod.exhaust)
  from run CallCreate v t sim_create [OF sim n v t] show ?thesis
    by (auto simp: write_behind_ops_def memory_ops_simps)
next
  case (CallAttrsGet i ks)
  show ?thesis
    by (rule sim_exec [of ReplyAttrs "wb_attrs_get memory_ops i ks w" _ _ "mem_attrs_get i ks s"])
      (use run CallAttrsGet sim_get [OF sim] attr_ops_next_id in
        \<open>simp_all add: write_behind_ops_def memory_ops_simps\<close>)
next
  case (CallAttrsAll i)
  show ?thesis
    by (rule sim_exec [of ReplyAttrs "wb_attrs_all memory_ops i w" _ _ "mem_attrs_all i s"])
      (use run CallAttrsAll sim_all [OF sim] attr_ops_next_id in
        \<open>simp_all add: write_behind_ops_def memory_ops_simps\<close>)
next
  case (CallAttrsPut i m)
  show ?thesis
    by (rule sim_exec [of ReplyUnit "wb_attrs_put i m w" _ _ "mem_attrs_put i m s"])
      (use run CallAttrsPut known sim_put [OF sim] attr_ops_next_id in
        \<open>simp_all add: write_behind_ops_def memory_ops_simps\<close>)
next
  case (CallDelete i)
  show ?thesis
    by (rule sim_exec [of ReplyUnit "wb_delete_account memory_ops i w" _ _ "mem_delete_account i s"])
      (use run CallDelete sim_delete [OF sim] attr_ops_next_id in
        \<open>simp_all add: write_behind_ops_def memory_ops_simps\<close>)
next
  case CallFlush
  obtain q v where v: "wb_flush_now memory_ops order (wb_last_flush_ms w) w = (q, v)"
    by (rule prod.exhaust)
  from sim_flush [OF sim order v] CallFlush run v show ?thesis
    by (auto simp: write_behind_ops_def wb_flush_def memory_ops_simps mem_flush_def)
qed (use run blind_methods in \<open>auto simp: write_behind_ops_def memory_ops_simps dest!: sim_blind_exec [OF sim, rotated]\<close>)

lemma sim_run:
  "sim w s \<Longrightarrow> lists_keys order \<Longrightarrow> known_ids es s \<Longrightarrow> unat (ms_next_id s) + length es < 2 ^ 64 \<Longrightarrow>
   fst (wb_run order es w) = fst (mem_run es s) \<and> sim (snd (wb_run order es w)) (snd (mem_run es s))"
proof (induction es arbitrary: w s)
  case (Cons e es)
  show ?case
  proof (cases e)
    case (Call c)
    obtain r w1 where w1: "storage_exec (write_behind_ops memory_ops order) c w = (r, w1)" by (rule prod.exhaust)
    obtain r' s1 where s1: "storage_exec memory_ops c s = (r', s1)" by (rule prod.exhaust)
    from sim_call [OF Cons.prems(1,2) _ _ w1 s1] Cons.prems(3,4) Call
    have step: "r = r'" "sim w1 s1" "unat (ms_next_id s1) \<le> unat (ms_next_id s) + 1" by simp_all
    with Cons.IH [of w1 s1] Cons.prems Call w1 s1 show ?thesis
      by (simp add: split_beta)
  next
    case (Tick now)
    with Cons.IH [of "snd (wb_tick memory_ops order now w)" s] Cons.prems sim_tick [OF Cons.prems(1,2)]
    show ?thesis by simp
  qed
qed simp

lemma sim_new: "sim (wb_new memory_new policy now) memory_new"
  by (simp add: sim_def wb_new_def memory_new_def wb_view_slot mem_view_slot fun_eq_iff bounded_ids_def
      fmempty.rep_eq)

section \<open>Properties\<close>

text \<open>C8
  Buffering is invisible. Whatever sequence of storage calls a server makes, with whatever timer
  ticks between them and whatever order the buffer is drained in, the write-behind layer over the
  reference backend gives every call the same reply as the backend alone would, provided attributes
  are written only for ids that have been given out. In particular a caller always sees its own
  writes.
\<close>

theorem write_behind_is_invisible:
  assumes "lists_keys order" and "known_ids es memory_new" and "length es < 2 ^ 64"
  shows "fst (wb_run order es (wb_new memory_new policy now)) = fst (mem_run es memory_new)"
  using sim_run [OF sim_new assms(1,2)] assms(3) by (simp add: memory_new_def)

definition demo_account :: new_account where
  "demo_account = \<lparr>n_name = ascii ''alice'', n_credential = CredXsha1 [], n_created_at = 0, n_attrs = fmempty\<rparr>"

definition demo_events :: "wb_event list" where
  "demo_events = [Call (CallCreate demo_account), Call (CallAttrsPut 1 (fmupd (AttrKey [1]) [2] fmempty)),
     Call (CallAttrsGet 1 [AttrKey [1]])]"

lemma demo_valid_name: "validate_account_name (ascii ''alice'') = Ok ()"
  by code_simp

lemma demo_known: "known_ids demo_events memory_new"
  by (simp add: demo_events_def memory_ops_simps memory_new_def mem_create_account_def demo_account_def
      demo_valid_name Let_def)

corollary write_behind_is_invisible_witness:
  "fst (wb_run sorted_keys demo_events (wb_new memory_new flush_policy_default 0)) =
   fst (mem_run demo_events memory_new)"
  by (rule write_behind_is_invisible [OF sorted_keys_lists demo_known]) (simp add: demo_events_def)

text \<open>C9
  An unclean shutdown loses buffered attributes and nothing else. If the layer is dropped after any
  history, its backend holds the accounts, credentials, names, bans and characters that the
  unbuffered backend would hold, and the attributes of the last flush: those of the unbuffered
  backend once what was still dirty is added. After a flush nothing is dirty.
\<close>

theorem crash_loses_only_buffered_attributes:
  assumes "lists_keys order" and "known_ids es memory_new" and "length es < 2 ^ 64"
    and "snd (wb_run order es (wb_new memory_new policy now)) = w" and "snd (mem_run es memory_new) = s"
  shows "into_backend w = s\<lparr>ms_attrs := ms_attrs (into_backend w)\<rparr> \<and>
    (\<forall>i. mem_view (into_backend w) i ++ fmlookup (slot_of (wb_dirty w) i) = mem_view s i) \<and>
    (\<forall>later r w'. wb_flush_now memory_ops order later w = (r, w') \<longrightarrow>
       r = Ok () \<and> wb_dirty w' = fmempty \<and> mem_view (into_backend w') = mem_view s)"
proof -
  have sim: "sim w s" using sim_run [OF sim_new assms(1,2)] assms(3-5) by (auto simp: memory_new_def)
  then have "into_backend w = s\<lparr>ms_attrs := ms_attrs (into_backend w)\<rparr>"
    "\<forall>i. mem_view (into_backend w) i ++ fmlookup (slot_of (wb_dirty w) i) = mem_view s i"
    unfolding sim_def into_backend_def wb_view_def fun_eq_iff [of _ "mem_view s"] by blast+
  moreover have "r = Ok () \<and> wb_dirty w' = fmempty \<and> mem_view (into_backend w') = mem_view s"
    if "wb_flush_now memory_ops order later w = (r, w')" for later r w'
    using sim_flush [OF sim assms(1) that] mem.flush_now_view(3) [OF assms(1) that, of "()"] sim
    by (simp add: sim_def into_backend_def)
  ultimately show ?thesis by blast
qed

corollary crash_loses_only_buffered_attributes_witness:
  "ms_by_name (into_backend (snd (wb_run sorted_keys demo_events (wb_new memory_new flush_policy_default 0)))) =
   ms_by_name (snd (mem_run demo_events memory_new))"
proof -
  have "length demo_events < 2 ^ 64" by (simp add: demo_events_def)
  from crash_loses_only_buffered_attributes [OF sorted_keys_lists demo_known this refl refl,
      of flush_policy_default 0]
  show ?thesis by (metis memory_storage.select_convs(2) memory_storage.surjective memory_storage.update_convs(3))
qed

end
