(* ===== verification/Accounts.thy ===== *)
theory Accounts
  imports Storage_Rules
begin

text \<open>
  The account and character indexes of the reference backend: what holds of every state that
  storage calls can lead to.
\<close>

section \<open>Registered names are never bridged names\<close>

lemma rsplit_once_Some: "rsplit_once sep s = Some (a, b) \<Longrightarrow> s = a @ [sep] @ b"
proof -
  assume "rsplit_once sep s = Some (a, b)"
  then obtain k where k: "find_index (\<lambda>x. x = sep) (rev s) = Some k"
    "a = take (length s - Suc k) s" "b = drop (length s - k) s"
    by (auto simp: rsplit_once_def split: option.splits)
  from find_index_Some [OF k(1)] have at: "k < length s" "s ! (length s - Suc k) = sep"
    by (auto simp: rev_nth)
  then have "s = take (length s - Suc k) s @ s ! (length s - Suc k) # drop (Suc (length s - Suc k)) s"
    by (intro id_take_nth_drop) simp
  with at k show ?thesis by (simp add: Suc_diff_Suc)
qed

lemma split_once_Some: "split_once sep s = Some (a, b) \<Longrightarrow> s = a @ [sep] @ b \<and> sep \<notin> set a"
proof -
  assume "split_once sep s = Some (a, b)"
  then obtain k where k: "find_index (\<lambda>x. x = sep) s = Some k" "a = take k s" "b = drop (Suc k) s"
    by (auto simp: split_once_def split: option.splits)
  from find_index_Some [OF k(1)] have "k < length s" "s ! k = sep" "\<forall>j < k. s ! j \<noteq> sep" by auto
  with k show ?thesis by (auto simp: in_set_conv_nth intro: id_take_nth_drop)
qed

lemma validated_parts:
  assumes "validate_account_name n = Ok ()"
  obtains base realm where "split_realm n = (base, realm)" "SEPARATOR \<notin> set base"
    "2 \<le> length base" "length base \<le> 15" "is_ascii base" "\<forall>b \<in> set base. \<not> wire_breaking b"
    "\<exists>b \<in> set base. is_alnum b"
proof -
  obtain base realm where s: "split_realm n = (base, realm)" by (rule prod.exhaust)
  from assms s have "\<not> name_is_reserved_for_bridges base" "\<not> length base < NAME_MIN"
    "\<not> NAME_MAX < length base" "is_ascii base" "\<not> list_ex wire_breaking base" "filter is_alnum base \<noteq> []"
    by (auto simp: validate_account_name_def obind_Ok_conv split: if_splits)
  with s show ?thesis
    by (intro that) (auto simp: name_is_reserved_for_bridges_def NAME_MIN_def NAME_MAX_def list_ex_iff
        filter_empty_conv)
qed

lemma is_bridged_name_Some:
  assumes "is_bridged_name n = Some t"
  shows "\<exists>tag rest. split_once SEPARATOR n = Some (tag, rest) \<and> tag_new tag = Ok t"
proof (cases "split_once SEPARATOR n")
  case (Some p)
  obtain tag rest where "p = (tag, rest)" by (rule prod.exhaust)
  with Some assms show ?thesis
    unfolding is_bridged_name_def by (cases "rest = []"; cases "tag_new tag") simp_all
qed (use assms in \<open>simp add: is_bridged_name_def\<close>)

lemma validated_not_bridged:
  assumes "validate_account_name n = Ok ()"
  shows "is_bridged_name n = None"
proof (rule ccontr)
  assume "is_bridged_name n \<noteq> None"
  then obtain t' where "is_bridged_name n = Some t'" by blast
  from is_bridged_name_Some [OF this] obtain tag rest t
    where t: "split_once SEPARATOR n = Some (tag, rest)" "tag_new tag = Ok t" by blast
  obtain base realm where b: "split_realm n = (base, realm)" "SEPARATOR \<notin> set base"
    by (rule validated_parts [OF assms], rule that)
  from split_once_Some [OF t(1)] have n: "n = tag @ [SEPARATOR] @ rest" by simp
  show False
  proof (cases "rsplit_once 0x40 n")
    case None
    with b have "base = n" by (simp add: split_realm_def)
    with b(2) n show False by simp
  next
    case (Some p)
    then obtain r where "rsplit_once 0x40 n = Some (base, r)" using b(1)
      by (cases p) (auto simp: split_realm_def)
    from rsplit_once_Some [OF this] n have eq: "tag @ SEPARATOR # rest = base @ 0x40 # r" by simp
    then obtain us where "tag = base @ us \<and> us @ SEPARATOR # rest = 0x40 # r \<or>
        tag @ us = base \<and> SEPARATOR # rest = us @ 0x40 # r"
      by (auto simp: append_eq_append_conv2)
    then have "0x40 \<in> set tag"
    proof
      assume us: "tag = base @ us \<and> us @ SEPARATOR # rest = 0x40 # r"
      then have "us \<noteq> []" by (auto simp: SEPARATOR_def)
      with us show ?thesis by (cases us) auto
    next
      assume us: "tag @ us = base \<and> SEPARATOR # rest = us @ 0x40 # r"
      with b(2) show ?thesis by (cases us) (auto simp: SEPARATOR_def)
    qed
    moreover have "list_all is_alnum tag" using t(2) by (auto simp: tag_new_def split: if_splits)
    ultimately show False by (auto simp: list_all_iff is_alnum_def is_upper_def is_lower_def is_digit_def)
  qed
qed

section \<open>The invariant\<close>

definition mem_inv :: "memory_storage \<Rightarrow> bool" where
  "mem_inv s \<longleftrightarrow>
     (\<forall>i a. fmlookup (ms_accounts s) i = Some a \<longrightarrow>
        a_id a = i \<and> i \<le> ms_next_id s \<and> fmlookup (ms_by_name s) (lowercase (a_name a)) = Some i \<and>
        validate_account_name (a_name a) = Ok ()) \<and>
     (\<forall>n i. fmlookup (ms_by_name s) n = Some i \<longrightarrow>
        (\<exists>a. fmlookup (ms_accounts s) i = Some a \<and> lowercase (a_name a) = n)) \<and>
     distinct (map (\<lambda>c. lowercase (c_name c)) (ms_characters s)) \<and>
     (\<forall>c \<in> set (ms_characters s). c_account c |\<in>| fmdom (ms_accounts s))"

lemma mem_invD:
  assumes "mem_inv s"
  shows "fmlookup (ms_accounts s) i = Some a \<Longrightarrow> a_id a = i \<and> i \<le> ms_next_id s \<and>
      fmlookup (ms_by_name s) (lowercase (a_name a)) = Some i \<and> validate_account_name (a_name a) = Ok ()"
    and "fmlookup (ms_by_name s) n = Some i \<Longrightarrow>
      \<exists>a. fmlookup (ms_accounts s) i = Some a \<and> lowercase (a_name a) = n"
    and "distinct (map (\<lambda>c. lowercase (c_name c)) (ms_characters s))"
    and "c \<in> set (ms_characters s) \<Longrightarrow> c_account c |\<in>| fmdom (ms_accounts s)"
  using assms by (simp_all add: mem_inv_def)

lemma mem_inv_frame:
  assumes "mem_inv s" and "ms_accounts s' = ms_accounts s" and "ms_by_name s' = ms_by_name s"
    and "ms_next_id s' = ms_next_id s" and "ms_characters s' = ms_characters s"
  shows "mem_inv s'"
  using assms by (simp add: mem_inv_def)

lemma mem_inv_create:
  assumes inv: "mem_inv s" and n: "unat (ms_next_id s) + 1 < 2 ^ 64"
  shows "mem_inv (snd (mem_create_account req s))"
proof -
  let ?n = "ms_next_id s + 1" and ?key = "lowercase (n_name req)"
  let ?a = "\<lparr>a_id = ?n, a_name = n_name req, a_credential = n_credential req, a_created_at = n_created_at req\<rparr>"
  have "unat ?n = unat (ms_next_id s) + 1" using n by (simp add: unat_word_ariths)
  then have less: "ms_next_id s < ?n" by (simp add: word_less_nat_alt)
  have fresh: "fmlookup (ms_accounts s) ?n = None"
    using mem_invD(1) [OF inv, of ?n] less by (cases "fmlookup (ms_accounts s) ?n") auto
  show ?thesis
  proof (cases "validate_account_name (n_name req) = Ok () \<and> fmlookup (ms_by_name s) ?key = None")
    case False
    then have "snd (mem_create_account req s) = s"
      by (auto simp: mem_create_account_def split: outcome.splits)
    with inv show ?thesis by simp
  next
    case True
    define s' where "s' = snd (mem_create_account req s)"
    have s': "ms_accounts s' = fmupd ?n ?a (ms_accounts s)" "ms_by_name s' = fmupd ?key ?n (ms_by_name s)"
      "ms_next_id s' = ?n" "ms_characters s' = ms_characters s"
      using True by (simp_all add: s'_def mem_create_account_def Let_def)
    have acc: "a_id a = i \<and> i \<le> ?n \<and> fmlookup (ms_by_name s') (lowercase (a_name a)) = Some i \<and>
        validate_account_name (a_name a) = Ok ()" if "fmlookup (ms_accounts s') i = Some a" for i a
    proof (cases "i = ?n")
      case False
      with that s' have old: "fmlookup (ms_accounts s) i = Some a" by simp
      from mem_invD(1) [OF inv old] True less have "lowercase (a_name a) \<noteq> ?key" by auto
      moreover have "i \<le> ?n" using mem_invD(1) [OF inv old] less by (meson less_imp_le order_trans)
      ultimately show ?thesis using mem_invD(1) [OF inv old] by (simp add: s')
    next
      case True': True
      with that s'(1) have "a = ?a" by simp
      with True' True show ?thesis by (simp add: s')
    qed
    have names: "\<exists>a. fmlookup (ms_accounts s') i = Some a \<and> lowercase (a_name a) = m"
      if "fmlookup (ms_by_name s') m = Some i" for m i
    proof (cases "m = ?key")
      case False
      with that s' have "fmlookup (ms_by_name s) m = Some i" by simp
      with mem_invD(2) [OF inv this] fresh show ?thesis by (auto simp: s'(1))
    next
      case True
      with that s'(2) have "i = ?n" by simp
      with True show ?thesis by (simp add: s'(1))
    qed
    show ?thesis
      using acc names mem_invD(3,4) [OF inv]
      unfolding s'_def [symmetric] mem_inv_def by (auto simp: s')
  qed
qed

lemma distinct_map_filter': "distinct (map f xs) \<Longrightarrow> distinct (map f (filter P xs))"
  by (rule distinct_map_filter)

lemma mem_inv_delete:
  assumes inv: "mem_inv s"
  shows "mem_inv (snd (mem_delete_account i s))"
proof (cases "fmlookup (ms_accounts s) i")
  case None
  define s' where "s' = snd (mem_delete_account i s)"
  have s': "ms_accounts s' = ms_accounts s" "ms_by_name s' = ms_by_name s" "ms_next_id s' = ms_next_id s"
    "ms_characters s' = filter (\<lambda>c. c_account c \<noteq> i) (ms_characters s)"
    using None by (simp_all add: s'_def mem_delete_account_def Let_def)
  show ?thesis
    using mem_invD [OF inv] unfolding s'_def [symmetric] mem_inv_def s'
    by (auto intro: distinct_map_filter')
next
  case (Some a)
  define s' where "s' = snd (mem_delete_account i s)"
  have s': "ms_accounts s' = fmdrop i (ms_accounts s)"
    "ms_by_name s' = fmdrop (lowercase (a_name a)) (ms_by_name s)" "ms_next_id s' = ms_next_id s"
    "ms_characters s' = filter (\<lambda>c. c_account c \<noteq> i) (ms_characters s)"
    using Some by (simp_all add: s'_def mem_delete_account_def Let_def)
  have a: "fmlookup (ms_by_name s) (lowercase (a_name a)) = Some i" using mem_invD(1) [OF inv Some] by simp
  have acc: "a_id b = j \<and> j \<le> ms_next_id s' \<and> fmlookup (ms_by_name s') (lowercase (a_name b)) = Some j \<and>
      validate_account_name (a_name b) = Ok ()" if "fmlookup (ms_accounts s') j = Some b" for j b
  proof -
    from that s' have j: "j \<noteq> i" "fmlookup (ms_accounts s) j = Some b" by (auto split: if_splits)
    from mem_invD(1) [OF inv j(2)] a j(1) have "lowercase (a_name b) \<noteq> lowercase (a_name a)" by auto
    with mem_invD(1) [OF inv j(2)] show ?thesis by (simp add: s')
  qed
  have names: "\<exists>b. fmlookup (ms_accounts s') j = Some b \<and> lowercase (a_name b) = m"
    if "fmlookup (ms_by_name s') m = Some j" for m j
  proof -
    from that s' have m: "m \<noteq> lowercase (a_name a)" "fmlookup (ms_by_name s) m = Some j"
      by (auto split: if_splits)
    from mem_invD(2) [OF inv m(2)] m(1) Some show ?thesis by (auto simp: s')
  qed
  have owners: "\<forall>c \<in> set (ms_characters s'). c_account c |\<in>| fmdom (ms_accounts s')"
    using mem_invD(4) [OF inv] by (auto simp: s')
  have "distinct (map (\<lambda>c. lowercase (c_name c)) (ms_characters s'))"
    using mem_invD(3) [OF inv] by (simp add: s'(4) distinct_map_filter')
  with acc names owners show ?thesis unfolding s'_def [symmetric] mem_inv_def by blast
qed

lemma map_update_same: "i < length xs \<Longrightarrow> f y = f (xs ! i) \<Longrightarrow> map f (xs[i := y]) = map f xs"
  by (simp add: map_update list_update_same_conv)

lemma mem_inv_exec:
  assumes inv: "mem_inv s" and n: "unat (ms_next_id s) + 1 < 2 ^ 64"
  shows "mem_inv (snd (storage_exec memory_ops c s))"
proof (cases c)
  case (CallCreate req)
  with mem_inv_create [OF inv n] show ?thesis by (simp add: memory_ops_simps)
next
  case (CallDelete i)
  with mem_inv_delete [OF inv] show ?thesis by (simp add: memory_ops_simps)
next
  case (CallSetCredential i cred)
  show ?thesis
  proof (cases "fmlookup (ms_accounts s) i")
    case (Some a)
    with CallSetCredential have "snd (storage_exec memory_ops c s) =
        s\<lparr>ms_accounts := fmupd i (a\<lparr>a_credential := cred\<rparr>) (ms_accounts s)\<rparr>"
      by (simp add: memory_ops_simps mem_set_credential_def)
    moreover have "lowercase (a_name a) = n" if "fmlookup (ms_by_name s) n = Some i" for n
      using mem_invD(2) [OF inv that] Some by auto
    ultimately show ?thesis using mem_invD [OF inv] Some by (auto simp: mem_inv_def)
  qed (use inv CallSetCredential in \<open>simp add: memory_ops_simps mem_set_credential_def\<close>)
next
  case (CallCreateCharacter ch)
  with inv show ?thesis
    by (auto simp: memory_ops_simps mem_create_character_def mem_inv_def list_ex_iff eq_nocase_def
        intro: fmdomI)
next
  case (CallUpdateCharacter ch)
  show ?thesis
  proof (cases "find_index (\<lambda>c. c_account c = c_account ch \<and> eq_nocase (c_name c) (c_name ch)) (ms_characters s)")
    case None
    with inv CallUpdateCharacter show ?thesis by (simp add: memory_ops_simps mem_update_character_def)
  next
    case (Some p)
    let ?ch = "(ms_characters s ! p)\<lparr>c_status := c_status ch, c_level := c_level ch,
        c_progression := c_progression ch, c_last_played := c_last_played ch, c_save := c_save ch\<rparr>"
    have p: "p < length (ms_characters s)" using find_index_Some [OF Some] by simp
    have cs: "map (\<lambda>c. lowercase (c_name c)) ((ms_characters s)[p := ?ch]) = map (\<lambda>c. lowercase (c_name c)) (ms_characters s)"
      "map c_account ((ms_characters s)[p := ?ch]) = map c_account (ms_characters s)"
      using p by (simp_all add: map_update_same)
    from arg_cong [OF cs(2), of set] have "c_account ` set ((ms_characters s)[p := ?ch]) = c_account ` set (ms_characters s)"
      by simp
    then have "\<forall>c \<in> set ((ms_characters s)[p := ?ch]). \<exists>c' \<in> set (ms_characters s). c_account c = c_account c'"
      by (simp add: set_eq_iff image_iff) blast
    with mem_invD(4) [OF inv] have "\<forall>c \<in> set ((ms_characters s)[p := ?ch]). c_account c |\<in>| fmdom (ms_accounts s)"
      by auto
    moreover have "snd (storage_exec memory_ops c s) = s\<lparr>ms_characters := (ms_characters s)[p := ?ch]\<rparr>"
      using Some CallUpdateCharacter by (simp add: memory_ops_simps mem_update_character_def)
    ultimately show ?thesis using inv cs(1) by (simp add: mem_inv_def)
  qed
next
  case (CallDeleteCharacter i m)
  with mem_invD [OF inv] show ?thesis
    by (auto simp: memory_ops_simps mem_delete_character_def Let_def mem_inv_def intro: distinct_map_filter')
qed (use inv in \<open>auto simp: memory_ops_simps mem_account_by_name_def mem_account_by_id_def
    mem_attrs_get_def mem_attrs_all_def mem_attrs_put_def mem_ban_put_def mem_ban_get_def mem_ban_clear_def
    mem_account_count_def mem_list_accounts_def mem_characters_def mem_character_by_name_def mem_flush_def
    Let_def intro: mem_inv_frame\<close>)

lemma create_ids: "unat (ms_next_id (snd (storage_exec memory_ops c s))) \<le> unat (ms_next_id s) + 1"
proof (cases c)
  case (CallCreate req)
  have "unat (ms_next_id s + 1) \<le> unat (ms_next_id s) + 1"
    by (metis Suc_eq_plus1 unat_1 unat_add_lem unat_word_ariths(1) mod_less_eq_dividend)
  with CallCreate show ?thesis
    by (auto simp: memory_ops_simps mem_create_account_def Let_def split: outcome.splits)
qed (auto simp: memory_ops_simps mem_account_by_name_def mem_account_by_id_def mem_set_credential_def
    mem_attrs_get_def mem_attrs_all_def mem_attrs_put_def mem_ban_put_def mem_ban_get_def mem_ban_clear_def
    mem_account_count_def mem_list_accounts_def mem_characters_def mem_character_by_name_def mem_flush_def
    mem_delete_account_def mem_create_character_def mem_update_character_def mem_delete_character_def
    Let_def split: option.splits)

lemma mem_inv_run:
  "mem_inv s \<Longrightarrow> unat (ms_next_id s) + length cs < 2 ^ 64 \<Longrightarrow>
   mem_inv (fold (\<lambda>c s. snd (storage_exec memory_ops c s)) cs s)"
proof (induction cs arbitrary: s)
  case (Cons c cs)
  with mem_inv_exec [of s c] create_ids [of c s] Cons.IH [of "snd (storage_exec memory_ops c s)"]
  show ?case by simp
qed simp

section \<open>Properties\<close>

text \<open>C10
  The account store keeps its indexes together. After any storage calls: an account found by id
  bears that id and is found again by its name in any case; no two accounts share a name up to
  ASCII case; a lookup by name returns an account of that name; every stored name passed
  validation and is not a bridged name; character names are unique across all accounts up to case
  and every character belongs to an account that exists.
\<close>

theorem account_store_consistent:
  assumes "length cs < 2 ^ 64"
    and "s = fold (\<lambda>c s. snd (storage_exec memory_ops c s)) cs memory_new"
  shows "(\<forall>i a. fst (mem_account_by_id i s) = Ok (Some a) \<longrightarrow>
      a_id a = i \<and> fst (mem_account_by_name (a_name a) s) = Ok (Some a) \<and>
      validate_account_name (a_name a) = Ok () \<and> is_bridged_name (a_name a) = None \<and>
      (\<forall>j b. fst (mem_account_by_id j s) = Ok (Some b) \<and> eq_nocase (a_name a) (a_name b) \<longrightarrow> j = i)) \<and>
    (\<forall>n a. fst (mem_account_by_name n s) = Ok (Some a) \<longrightarrow> eq_nocase (a_name a) n) \<and>
    distinct (map (\<lambda>c. lowercase (c_name c)) (ms_characters s)) \<and>
    (\<forall>c \<in> set (ms_characters s). fst (mem_account_by_id (c_account c) s) \<noteq> Ok None)"
proof -
  have "mem_inv memory_new" by (simp add: mem_inv_def memory_new_def)
  with mem_inv_run [of memory_new cs] assms have inv: "mem_inv s" by (simp add: memory_new_def)
  have 1: "a_id a = i \<and> fst (mem_account_by_name (a_name a) s) = Ok (Some a) \<and>
      validate_account_name (a_name a) = Ok () \<and> is_bridged_name (a_name a) = None"
    if "fmlookup (ms_accounts s) i = Some a" for i a
    using mem_invD(1) [OF inv that] that validated_not_bridged [of "a_name a"]
    by (simp add: mem_account_by_name_def)
  have 2: "j = i" if "fmlookup (ms_accounts s) i = Some a" "fmlookup (ms_accounts s) j = Some b"
    "eq_nocase (a_name a) (a_name b)" for i j a b
    using mem_invD(1) [OF inv that(1)] mem_invD(1) [OF inv that(2)] that(3) by (simp add: eq_nocase_def)
  have 3: "eq_nocase (a_name a) n" if "fst (mem_account_by_name n s) = Ok (Some a)" for n a
    using that mem_invD(2) [OF inv, of "lowercase n"]
    by (fastforce simp: mem_account_by_name_def eq_nocase_def split: option.splits)
  have 4: "fst (mem_account_by_id (c_account c) s) \<noteq> Ok None" if "c \<in> set (ms_characters s)" for c
    using mem_invD(4) [OF inv that] by (auto simp: mem_account_by_id_def fmlookup_dom_iff)
  from 1 2 3 4 mem_invD(3) [OF inv] show ?thesis
    by (simp add: mem_account_by_id_def)
qed

definition demo_state :: memory_storage where
  "demo_state = fold (\<lambda>c s. snd (storage_exec memory_ops c s)) [CallCreate demo_account] memory_new"

definition demo_stored :: account where
  "demo_stored = \<lparr>a_id = 1, a_name = ascii ''alice'', a_credential = CredXsha1 [], a_created_at = 0\<rparr>"

lemma demo_stored: "fst (mem_account_by_id 1 demo_state) = Ok (Some demo_stored)"
  by (simp add: demo_state_def demo_stored_def memory_ops_simps mem_create_account_def demo_account_def
      demo_valid_name memory_new_def mem_account_by_id_def Let_def)

corollary account_store_consistent_witness:
  "fst (mem_account_by_name (a_name demo_stored) demo_state) = Ok (Some demo_stored)"
  using account_store_consistent [OF _ demo_state_def] demo_stored by simp

text \<open>
  Nobody can register a bridged name: a name account registration accepts is never one the bridges
  read as theirs, nor one a bridge could give any of its users, whatever realm it is qualified
  with. What it accepts is otherwise 2 to 15 bytes of printable ASCII with a letter or digit.
\<close>

theorem registered_names_are_not_bridged:
  assumes "validate_account_name n = Ok ()"
  shows "is_bridged_name n = None \<and>
    (\<forall>raw t display. tag_new raw = Ok t \<longrightarrow> n \<noteq> derive_name t display None) \<and>
    (\<forall>base realm. split_realm n = (base, realm) \<longrightarrow>
       2 \<le> length base \<and> length base \<le> 15 \<and> (\<forall>b \<in> set base. 0x20 < b \<and> b < 0x7F) \<and>
       (\<exists>b \<in> set base. is_alnum b))"
proof -
  have "n \<noteq> derive_name t display None" if "tag_new raw = Ok t" for raw t display
    using derived_is_bridged [OF tag_new_valid [OF that], of None display] validated_not_bridged [OF assms]
    by auto
  moreover obtain base realm where b: "split_realm n = (base, realm)" "2 \<le> length base"
    "length base \<le> 15" "is_ascii base" "\<forall>b \<in> set base. \<not> wire_breaking b" "\<exists>b \<in> set base. is_alnum b"
    by (rule validated_parts [OF assms], rule that)
  moreover have "\<forall>b \<in> set base. 0x20 < b \<and> b < 0x7F"
  proof
    fix x assume "x \<in> set base"
    with b(4,5) have "unat x < 0x80" "0x20 < unat x" "unat x \<noteq> 0x7F"
      by (auto simp: is_ascii_def wire_breaking_def word_less_nat_alt word_le_nat_alt word_unat_eq_iff)
    then show "0x20 < x \<and> x < 0x7F" by (simp add: word_less_nat_alt)
  qed
  ultimately show ?thesis using validated_not_bridged [OF assms] by auto
qed

corollary registered_names_are_not_bridged_witness: "is_bridged_name (ascii ''alice'') = None"
  using registered_names_are_not_bridged [OF demo_valid_name] by blast

end
