(* ===== verification/Xsha1.thy ===== *)
theory Xsha1
  imports Prelude
begin

text \<open>
  \<open>bnetcc-crypto/src/xsha1.rs\<close>: the broken SHA-1 of the classic clients, the stored password
  digest, the logon proof and the constant-time comparison. A \<open>[u8; 20]\<close> is a list of twenty
  bytes. The facts the logon handlers rely on: the digest reads one block and no more, the
  expanded schedule holds single-bit words only, and the comparison is equality.
\<close>

section \<open>The hash\<close>

definition EFFECTIVE_INPUT_LEN :: nat where "EFFECTIVE_INPUT_LEN = 64"

definition H0 :: "u32 list" where
  "H0 = [0x67452301, 0xefcdab89, 0x98badcfe, 0x10325476, 0xc3d2e1f0]"

definition rol :: "u32 \<Rightarrow> u32 \<Rightarrow> u32" where
  "rol v s = word_rotl (unat (s AND 31)) v"

type_synonym sha_state = "u32 \<times> u32 \<times> u32 \<times> u32 \<times> u32"

text \<open>The zeroed block the input is copied into.\<close>

definition input_block :: "bytes \<Rightarrow> bytes" where
  "input_block input =
     (let n = min (length input) EFFECTIVE_INPUT_LEN in
      take n input @ replicate (EFFECTIVE_INPUT_LEN - n) 0)"

definition block_words :: "bytes \<Rightarrow> u32 list" where
  "block_words block = map (\<lambda>i. of_le (take 4 (drop (i * 4) block))) [0..<16]"

text \<open>The message expansion, with the operands of the rotation swapped.\<close>

definition expand_word :: "nat \<Rightarrow> u32 list \<Rightarrow> u32 list" where
  "expand_word i w =
     (let x = w ! (i - 16) XOR w ! (i - 8) XOR w ! (i - 14) XOR w ! (i - 3) in
      w[i := rol 1 (x mod 32)])"

definition schedule :: "bytes \<Rightarrow> u32 list" where
  "schedule block = fold expand_word [16..<80] (block_words block @ replicate 64 0)"

definition round_fk :: "nat \<Rightarrow> u32 \<Rightarrow> u32 \<Rightarrow> u32 \<Rightarrow> u32" where
  "round_fk i b c d =
     (if i \<le> 19 then ((b AND c) OR (NOT b AND d)) + 0x5A827999
      else if i \<le> 39 then (b XOR c XOR d) + 0x6ED9EBA1
      else if i \<le> 59 then ((b AND c) OR (b AND d) OR (c AND d)) + 0x8F1BBCDC
      else (b XOR c XOR d) + 0xCA62C1D6)"

definition sha_round :: "nat \<times> u32 \<Rightarrow> sha_state \<Rightarrow> sha_state" where
  "sha_round iw st =
     (case iw of (i, wi) \<Rightarrow> case st of (a, b, c, d, e) \<Rightarrow>
      let temp = wi + rol a 5 + e + round_fk i b c d in
      (temp, a, rol b 30, c, d))"

definition xsha1 :: "bytes \<Rightarrow> u32 list" where
  "xsha1 input =
     (let w = schedule (input_block input);
          (a, b, c, d, e) = fold sha_round (enumerate 0 w) (H0 ! 0, H0 ! 1, H0 ! 2, H0 ! 3, H0 ! 4)
      in [a + H0 ! 0, b + H0 ! 1, c + H0 ! 2, d + H0 ! 3, e + H0 ! 4])"

definition xsha1_bytes :: "bytes \<Rightarrow> bytes" where
  "xsha1_bytes input = concat (map (\<lambda>w. le32 w) (xsha1 input))"

section \<open>Passwords and proofs\<close>

definition password_hash :: "bytes \<Rightarrow> bytes" where
  "password_hash password = xsha1_bytes (lowercase password)"

definition logon_proof :: "u32 \<Rightarrow> u32 \<Rightarrow> bytes \<Rightarrow> bytes" where
  "logon_proof client_token server_token h1 =
     xsha1_bytes (le32 client_token @ le32 server_token @ h1)"

definition proofs_match :: "bytes \<Rightarrow> bytes \<Rightarrow> bool" where
  "proofs_match a b = (fold (\<lambda>i diff. diff OR (a ! i XOR b ! i)) [0..<20] 0 = 0)"


section \<open>The comparison\<close>

lemma fold_or_eq_0: "(fold (\<lambda>i d. d OR f i) xs d = (0 :: u8)) \<longleftrightarrow> d = 0 \<and> (\<forall>i \<in> set xs. f i = 0)"
  by (induction xs arbitrary: d) (auto simp: or_eq_0_iff)

lemma xor_eq_0: "(a :: u8) XOR b = 0 \<longleftrightarrow> a = b"
  by (metis bit.xor_self word_bw_assocs(3) xor.left_neutral xor.right_neutral)

text \<open>The comparison of proofs, which never stops early, is equality of the twenty bytes.\<close>

theorem proofs_match_iff:
  assumes "length a = 20" and "length b = 20"
  shows "proofs_match a b \<longleftrightarrow> a = b"
  using assms by (auto simp: proofs_match_def fold_or_eq_0 xor_eq_0 list_eq_iff_nth_eq)

lemma proofs_match_iff_witness:
  "\<not> proofs_match (replicate 20 1) ((replicate 20 1)[19 := 0])"
proof -
  have "replicate 20 (1 :: u8) \<noteq> (replicate 20 1)[19 := 0]"
    by code_simp
  then show ?thesis
    using proofs_match_iff [of "replicate 20 1" "(replicate 20 1)[19 := 0]"] by simp
qed

section \<open>What the digest depends on\<close>

lemma length_input_block [simp]: "length (input_block s) = 64"
  by (simp add: input_block_def EFFECTIVE_INPUT_LEN_def Let_def)

lemma length_block_words [simp]: "length (block_words b) = 16"
  by (simp add: block_words_def)

lemma length_expand_word [simp]: "length (expand_word i w) = length w"
  by (simp add: expand_word_def Let_def)

lemma nth_expand_word:
  "i < length w \<Longrightarrow> \<exists>x. expand_word i w ! j = (if i = j then rol 1 (x mod 32) else w ! j)"
  by (auto simp: expand_word_def Let_def)

lemma length_fold_expand [simp]: "length (fold expand_word is w) = length w"
  by (induction "is" arbitrary: w) simp_all

lemma length_schedule [simp]: "length (schedule b) = 80"
  by (simp add: schedule_def)

lemma length_xsha1 [simp]: "length (xsha1 s) = 5"
  by (simp add: xsha1_def Let_def split: prod.split)

lemma length_xsha1_bytes [simp]: "length (xsha1_bytes s) = 20"
proof -
  have "length (concat (map (\<lambda>w. le32 w) ws)) = 4 * length ws" for ws
    by (induction ws) simp_all
  then show ?thesis by (simp add: xsha1_bytes_def)
qed

lemma length_logon_proof [simp]: "length (logon_proof c s h) = 20"
  by (simp add: logon_proof_def)

lemma input_block_take: "input_block (take 64 s) = input_block s"
  by (simp add: input_block_def EFFECTIVE_INPUT_LEN_def Let_def min_def)

lemma input_block_zeros:
  "length s + k \<le> 64 \<Longrightarrow> input_block (s @ replicate k 0) = input_block s"
  by (simp add: input_block_def EFFECTIVE_INPUT_LEN_def Let_def min_def replicate_add [symmetric])

lemma xsha1_block: "input_block s = input_block t \<Longrightarrow> xsha1 s = xsha1 t"
  by (simp add: xsha1_def)

text \<open>Every word the expansion writes is a single bit.\<close>

lemma rol_1_single_bit: "\<exists>k < 32. rol 1 (x mod 32) = push_bit k 1"
proof -
  have "\<forall>k \<in> set [0..<32]. word_rotl k (1 :: u32) = push_bit k 1" by code_simp
  moreover have "unat ((x mod 32) AND 31) < 32"
  proof -
    have "(x mod 32) AND 31 \<le> 31" by (rule word_and_le1)
    then show ?thesis by (simp add: word_le_nat_alt)
  qed
  ultimately show ?thesis unfolding rol_def by (metis atLeastLessThan_iff set_upt zero_le)
qed

lemma fold_expand_bits:
  assumes "j \<in> set is" and "\<forall>i \<in> set is. i < length w" and "distinct is"
  shows "\<exists>k < 32. fold expand_word is w ! j = push_bit k 1"
  using assms
proof (induction "is" arbitrary: w rule: rev_induct)
  case (snoc i xs)
  show ?case
  proof (cases "i = j")
    case True
    from snoc.prems have "i < length (fold expand_word xs w)" by simp
    from nth_expand_word [OF this, of j] True obtain x where
      "fold expand_word (xs @ [i]) w ! j = rol 1 (x mod 32)" by auto
    with rol_1_single_bit [of x] show ?thesis by metis
  next
    case False
    from snoc.prems have "i < length (fold expand_word xs w)" by simp
    from nth_expand_word [OF this, of j] False
    have "fold expand_word (xs @ [i]) w ! j = fold expand_word xs w ! j" by auto
    with snoc False show ?thesis by auto
  qed
qed simp

text \<open>
  What the broken hash reads: the first 64 bytes of the input and nothing after them, and
  trailing zero bytes within them are not told from absent ones; the words its expansion adds are
  all single bits; and the stored digest does not depend on the case of the password's letters.
\<close>

theorem xsha1_reads_one_block:
  "xsha1 (take 64 s) = xsha1 s"
  "length s + n \<le> 64 \<Longrightarrow> xsha1 (s @ replicate n 0) = xsha1 s"
  "16 \<le> i \<Longrightarrow> i < 80 \<Longrightarrow> \<exists>k < 32. schedule (input_block s) ! i = push_bit k 1"
  "lowercase p = lowercase q \<Longrightarrow> password_hash p = password_hash q"
proof -
  show "xsha1 (take 64 s) = xsha1 s" by (rule xsha1_block [OF input_block_take])
  show "length s + n \<le> 64 \<Longrightarrow> xsha1 (s @ replicate n 0) = xsha1 s"
    by (rule xsha1_block [OF input_block_zeros])
  show "16 \<le> i \<Longrightarrow> i < 80 \<Longrightarrow> \<exists>k < 32. schedule (input_block s) ! i = push_bit k 1"
    unfolding schedule_def by (rule fold_expand_bits) (auto simp del: upt_rec_numeral)
  show "lowercase p = lowercase q \<Longrightarrow> password_hash p = password_hash q"
    by (simp add: password_hash_def)
qed

text \<open>The test vector of the repository for the empty input.\<close>

lemma xsha1_empty: "xsha1 [] = [0x4d3aa0ee, 0x94261d5a, 0x584a6f57, 0x6b8d9960, 0x1546c680]"
  by code_simp

end
