(* ===== verification/Nls.thy ===== *)
theory Nls
  imports Xsha1
begin

text \<open>
  \<open>bnetcc-crypto/src/nls.rs\<close>: the SRP variant of WarCraft III's logon. SHA-1 is the function of
  the crate \<open>sha1\<close>, a parameter of the definitions; \<open>num_bigint::BigUint\<close> is a natural number,
  its \<open>modpow\<close> the power modulo \<open>N\<close>, its subtraction a panic below zero. A \<open>[u8; N]\<close> is a list of
  that many bytes, and the random values come in as arguments, as they do in the source.

  The main fact is that the two sides agree: a client that knows the password computes a proof the
  server accepts, and the server answers with the proof the client expects.
\<close>

section \<open>Constants\<close>

definition G :: nat where "G = 47"

definition N_BE :: bytes where
  "N_BE = [0xF8, 0xFF, 0x1A, 0x8B, 0x61, 0x99, 0x18, 0x03, 0x21, 0x86, 0xB6, 0x8C, 0xA0, 0x92, 0xB5,
     0x55, 0x7E, 0x97, 0x6C, 0x78, 0xC7, 0x32, 0x12, 0xD9, 0x12, 0x16, 0xF6, 0x65, 0x85, 0x23,
     0xC7, 0x87]"

definition I_const :: bytes where
  "I_const = [0x6C, 0x0E, 0x97, 0xED, 0x0A, 0xF9, 0x6B, 0xAB, 0xB1, 0x58, 0x89, 0xEB, 0x8B, 0xBA,
     0x25, 0xA4, 0xF0, 0x8C, 0x01, 0xF8]"

definition FIELD_LEN :: nat where "FIELD_LEN = 32"
definition KEY_LEN :: nat where "KEY_LEN = 40"
definition PROOF_LEN :: nat where "PROOF_LEN = 20"

definition modulus :: nat where "modulus = le_val (rev N_BE)"
definition generator :: nat where "generator = G"

section \<open>Encodings\<close>

text \<open>
  The little-endian digits padded or cut to 32 bytes; the debug assertion that nothing is cut is
  the bound \<open>v < 256 ^ 32\<close>.
\<close>

definition to_le32 :: "nat \<Rightarrow> bytes" where
  "to_le32 v = le_bytes FIELD_LEN v"

definition from_le :: "bytes \<Rightarrow> nat" where
  "from_le bs = le_val bs"

definition uppercase :: "bytes \<Rightarrow> bytes" where
  "uppercase s = map upper s"

text \<open>\<open>BigUint::modpow\<close>, by repeated squaring so that it computes.\<close>

fun modpow :: "nat \<Rightarrow> nat \<Rightarrow> nat \<Rightarrow> nat" where
  "modpow b e m =
     (if e = 0 then 1 mod m
      else let h = modpow (b * b mod m) (e div 2) m in if odd e then b * h mod m else h)"

declare modpow.simps [simp del]

section \<open>Keys and proofs\<close>

definition private_key :: "(bytes \<Rightarrow> bytes) \<Rightarrow> bytes \<Rightarrow> bytes \<Rightarrow> bytes \<Rightarrow> nat" where
  "private_key sha1 username password salt =
     (let inner = sha1 (uppercase username @ [0x3A] @ uppercase password) in
      from_le (sha1 (salt @ inner)))"

definition verifier :: "(bytes \<Rightarrow> bytes) \<Rightarrow> bytes \<Rightarrow> bytes \<Rightarrow> bytes \<Rightarrow> bytes" where
  "verifier sha1 username password salt =
     to_le32 (modpow generator (private_key sha1 username password salt) modulus)"

definition exponent :: "bytes \<Rightarrow> nat" where
  "exponent random = (let e = from_le random mod modulus in if e = 0 then 1 else e)"

definition client_public :: "bytes \<Rightarrow> bytes" where
  "client_public a = to_le32 (modpow generator (exponent a) modulus)"

definition server_public :: "bytes \<Rightarrow> bytes \<Rightarrow> bytes" where
  "server_public v b =
     (let n = modulus; gb = modpow generator (exponent b) n in
      to_le32 ((from_le v + gb) mod n))"

text \<open>The first four bytes of the digest, read big-endian.\<close>

definition scrambler :: "(bytes \<Rightarrow> bytes) \<Rightarrow> bytes \<Rightarrow> nat" where
  "scrambler sha1 spub = le_val (rev (take 4 (sha1 spub)))"

definition session_key :: "(bytes \<Rightarrow> bytes) \<Rightarrow> bytes \<Rightarrow> bytes" where
  "session_key sha1 secret =
     (let even = sha1 (map (\<lambda>i. secret ! (2 * i)) [0..<FIELD_LEN div 2]);
          odd = sha1 (map (\<lambda>i. secret ! (2 * i + 1)) [0..<FIELD_LEN div 2])
      in concat (map (\<lambda>i. [even ! i, odd ! i]) [0..<PROOF_LEN]))"

definition client_proof_from_key :: "(bytes \<Rightarrow> bytes) \<Rightarrow> bytes \<Rightarrow> bytes \<Rightarrow> bytes \<Rightarrow> bytes \<Rightarrow> bytes \<Rightarrow> bytes" where
  "client_proof_from_key sha1 username salt cpub spub key =
     sha1 (I_const @ sha1 (uppercase username) @ salt @ cpub @ spub @ key)"

definition server_proof_from_key :: "(bytes \<Rightarrow> bytes) \<Rightarrow> bytes \<Rightarrow> bytes \<Rightarrow> bytes \<Rightarrow> bytes" where
  "server_proof_from_key sha1 cpub cproof key = sha1 (cpub @ cproof @ key)"

definition big_sub :: "nat \<Rightarrow> nat \<Rightarrow> ('e, nat) outcome" where
  "big_sub a b = (if b \<le> a then Ok (a - b) else Panic)"

definition client_proof :: "(bytes \<Rightarrow> bytes) \<Rightarrow> bytes \<Rightarrow> bytes \<Rightarrow> bytes \<Rightarrow> bytes \<Rightarrow> bytes \<Rightarrow>
    ('e, (bytes \<times> bytes) option) outcome" where
  "client_proof sha1 username password salt a spub =
     (let n = modulus; big_b = from_le spub mod n in
      if big_b = 0 then Ok None
      else
        let x = private_key sha1 username password salt;
            a = exponent a;
            big_a = to_le32 (modpow generator a n);
            u = scrambler sha1 spub;
            v = modpow generator x n
        in obind (big_sub (n + big_b) v) (\<lambda>d.
           let s = modpow (d mod n) (a + u * x) n;
               key = session_key sha1 (to_le32 s)
           in Ok (Some (client_proof_from_key sha1 username salt big_a spub key, key))))"

definition server_verify :: "(bytes \<Rightarrow> bytes) \<Rightarrow> bytes \<Rightarrow> bytes \<Rightarrow> bytes \<Rightarrow> bytes \<Rightarrow> bytes \<Rightarrow> bytes \<Rightarrow> bytes \<Rightarrow>
    bytes option" where
  "server_verify sha1 username salt vrf b cpub spub cproof =
     (let n = modulus; big_a = from_le cpub mod n in
      if big_a = 0 then None
      else
        let u = scrambler sha1 spub;
            v = from_le vrf;
            base = big_a * modpow v u n mod n;
            s = modpow base (exponent b) n;
            key = session_key sha1 (to_le32 s);
            expected = client_proof_from_key sha1 username salt cpub spub key
        in if proofs_match expected cproof
           then Some (server_proof_from_key sha1 cpub cproof key) else None)"

section \<open>Arithmetic\<close>

lemma modpow_eq: "modpow b e m = b ^ e mod m"
proof (induction b e m rule: modpow.induct)
  case (1 b e m)
  show ?case
  proof (cases "e = 0")
    case True
    then show ?thesis by (simp add: modpow.simps)
  next
    case False
    then have IH: "modpow (b * b mod m) (e div 2) m = (b * b) ^ (e div 2) mod m"
      using 1 by (simp add: power_mod)
    have sq: "(b * b) ^ k = b ^ (2 * k)" for k
      by (simp add: power_mult power2_eq_square)
    show ?thesis
    proof (cases "even e")
      case True
      then have "b ^ e = (b * b) ^ (e div 2)" by (simp add: sq)
      with True False IH show ?thesis by (subst modpow.simps) (simp add: Let_def)
    next
      case odd: False
      then have "b ^ e = b * (b * b) ^ (e div 2)"
        using odd_two_times_div_two_succ [of e] unfolding sq by (metis Suc_eq_plus1 power_Suc)
      with odd False IH show ?thesis
        by (subst modpow.simps) (simp add: Let_def mod_mult_right_eq)
    qed
  qed
qed

lemma modulus_value:
  "modulus = 0xF8FF1A8B619918032186B68CA092B5557E976C78C73212D91216F6658523C787"
  by (simp add: modulus_def N_BE_def)

lemma modulus_pos: "0 < modulus" "1 < modulus"
  by (simp_all add: modulus_value)

lemma modulus_256: "modulus < 256 ^ 32"
  by (simp add: modulus_value)

lemma coprime_generator: "coprime generator modulus"
proof -
  have "gcd modulus 47 = 1"
    by (simp add: modulus_value gcd_non_0_nat)
  then show ?thesis by (simp add: generator_def G_def coprime_iff_gcd_eq_1 gcd.commute)
qed

lemma generator_power_nonzero: "generator ^ e mod modulus \<noteq> 0"
proof
  assume "generator ^ e mod modulus = 0"
  then have "modulus dvd generator ^ e" by (simp add: dvd_eq_mod_eq_0)
  moreover have "coprime modulus (generator ^ e)"
    using coprime_generator by (simp add: coprime_commute)
  ultimately have "modulus dvd 1" by (meson coprime_common_divisor dvd_refl)
  with modulus_pos show False by simp
qed

lemma from_le_to_le32: "v < 256 ^ 32 \<Longrightarrow> from_le (to_le32 v) = v"
  by (simp add: from_le_def to_le32_def FIELD_LEN_def le_val_le_bytes)

lemma from_le_to_le32_mod [simp]: "from_le (to_le32 (v mod modulus)) = v mod modulus"
  using modulus_pos modulus_256 by (intro from_le_to_le32) (meson less_trans mod_less_divisor)

lemma length_to_le32 [simp]: "length (to_le32 v) = 32"
  by (simp add: to_le32_def FIELD_LEN_def)

text \<open>The client's base: taking the verifier off the server's key leaves \<open>g ^ b\<close>.\<close>

lemma sub_verifier:
  fixes n v g :: nat
  assumes "v < n" and "0 < n"
  shows "(n + (v + g) mod n - v) mod n = g mod n"
proof -
  have "n + (v + g) mod n - v = (n - v) + (v + g) mod n" using assms by simp
  then have "(n + (v + g) mod n - v) mod n = ((n - v) + (v + g)) mod n"
    by (simp add: mod_add_right_eq)
  also have "(n - v) + (v + g) = n + g" using assms by simp
  finally show ?thesis by simp
qed

section \<open>Agreement\<close>

text \<open>
  The exponents with the modular powers written out: what each side computes, as powers of the
  generator.
\<close>

lemma client_public_power:
  "from_le (client_public a) = generator ^ exponent a mod modulus"
  by (simp add: client_public_def modpow_eq)

lemma from_verifier:
  "from_le (verifier sha1 u p salt) = generator ^ private_key sha1 u p salt mod modulus"
  by (simp add: verifier_def modpow_eq)

lemma from_server_public:
  "from_le (server_public v b) = (from_le v + generator ^ exponent b) mod modulus"
  by (simp add: server_public_def modpow_eq mod_simps)

lemma client_proof_eq:
  assumes "from_le spub mod modulus \<noteq> 0"
    and "from_le spub = (generator ^ private_key sha1 u p salt mod modulus + g) mod modulus"
  shows "(client_proof sha1 u p salt a spub :: ('e, (bytes \<times> bytes) option) outcome) =
    (let key = session_key sha1 (to_le32
           (g ^ (exponent a + scrambler sha1 spub * private_key sha1 u p salt) mod modulus))
     in Ok (Some (client_proof_from_key sha1 u salt (client_public a) spub key, key)))"
proof -
  let ?v = "generator ^ private_key sha1 u p salt mod modulus"
  have v: "?v < modulus" using modulus_pos by simp
  from assms(2) have B: "from_le spub mod modulus = (?v + g) mod modulus" by simp
  have pw: "modpow ((modulus + (?v + g) mod modulus - ?v) mod modulus) e modulus = g ^ e mod modulus" for e
    by (simp only: modpow_eq sub_verifier [OF v modulus_pos(1)] power_mod)
  from v have le: "?v \<le> modulus + (?v + g) mod modulus" by simp
  have "client_proof sha1 u p salt a spub = obind (big_sub (modulus + (?v + g) mod modulus) ?v)
      (\<lambda>d. let s = modpow (d mod modulus) (exponent a + scrambler sha1 spub * private_key sha1 u p salt) modulus;
           key = session_key sha1 (to_le32 s)
         in Ok (Some (client_proof_from_key sha1 u salt (client_public a) spub key, key)))"
    using assms(1) unfolding client_proof_def Let_def B client_public_def
    by (simp only: modpow_eq if_False) 
  then show ?thesis using le pw by (simp only: big_sub_def if_True obind.simps Let_def)
qed

lemma client_proof_zero:
  "from_le spub mod modulus = 0 \<Longrightarrow> client_proof sha1 u p salt a spub = Ok None"
  by (simp add: client_proof_def Let_def)

lemma server_verify_eq:
  assumes "from_le cpub = generator ^ ea mod modulus"
    and "from_le vrf = generator ^ x mod modulus"
  shows "server_verify sha1 u salt vrf b cpub spub m1 =
    (let key = session_key sha1 (to_le32
           (generator ^ ((ea + x * scrambler sha1 spub) * exponent b) mod modulus))
     in if proofs_match (client_proof_from_key sha1 u salt cpub spub key) m1
        then Some (server_proof_from_key sha1 cpub m1 key) else None)"
proof -
  have "generator ^ ea mod modulus * ((generator ^ x mod modulus) ^ scrambler sha1 spub mod modulus)
      mod modulus = generator ^ (ea + x * scrambler sha1 spub) mod modulus"
    by (simp add: power_mod mod_mult_eq power_add power_mult)
  then show ?thesis
    using generator_power_nonzero [of ea]
    unfolding server_verify_def Let_def assms
    by (simp add: modpow_eq power_mod power_mult)
qed

lemma proofs_match_refl [simp]: "proofs_match p p"
proof -
  have "fold (\<lambda>i d. d OR (p ! i XOR p ! i)) xs (0 :: u8) = 0" for xs
    by (induction xs) simp_all
  then show ?thesis by (simp add: proofs_match_def)
qed

lemma srp_logon:
  fixes sha1 :: "bytes \<Rightarrow> bytes" and user password salt b :: bytes
  defines "v \<equiv> verifier sha1 user password salt"
  defines "spub \<equiv> server_public v b"
  shows "(client_proof sha1 user password salt a spub :: ('e, (bytes \<times> bytes) option) outcome) \<noteq> Panic"
    and "client_proof sha1 user password salt a spub = (Ok None :: ('e, (bytes \<times> bytes) option) outcome) \<longleftrightarrow>
      from_le spub mod modulus = 0"
    and "client_proof sha1 user password salt a spub = (Ok (Some (m1, key)) :: ('e, (bytes \<times> bytes) option) outcome) \<Longrightarrow>
      server_verify sha1 user salt v b (client_public a) spub m1 =
        Some (server_proof_from_key sha1 (client_public a) m1 key)"
    and "from_le cpub mod modulus = 0 \<Longrightarrow> server_verify sha1 user salt v b cpub spub m2 = None"
proof -
  let ?x = "private_key sha1 user password salt"
  have sp: "from_le spub = (generator ^ ?x mod modulus + generator ^ exponent b) mod modulus"
    by (simp add: spub_def v_def from_server_public from_verifier)
  show "(client_proof sha1 user password salt a spub :: ('e, (bytes \<times> bytes) option) outcome) \<noteq> Panic"
    and none: "client_proof sha1 user password salt a spub = (Ok None :: ('e, (bytes \<times> bytes) option) outcome) \<longleftrightarrow>
      from_le spub mod modulus = 0"
    by (cases "from_le spub mod modulus = 0";
        simp add: client_proof_zero client_proof_eq [OF _ sp] Let_def)+
  show "server_verify sha1 user salt v b (client_public a) spub m1 =
      Some (server_proof_from_key sha1 (client_public a) m1 key)"
    if "client_proof sha1 user password salt a spub = (Ok (Some (m1, key)) :: ('e, (bytes \<times> bytes) option) outcome)"
  proof -
    from that none have nz: "from_le spub mod modulus \<noteq> 0" by auto
    from that have
      key: "key = session_key sha1 (to_le32 ((generator ^ exponent b) ^
          (exponent a + scrambler sha1 spub * ?x) mod modulus))" and
      m1: "m1 = client_proof_from_key sha1 user salt (client_public a) spub key"
      by (auto simp: client_proof_eq [OF nz sp] Let_def)
    have "(generator ^ exponent b) ^ (exponent a + scrambler sha1 spub * ?x) =
        generator ^ ((exponent a + ?x * scrambler sha1 spub) * exponent b)"
      by (simp add: power_mult [symmetric] algebra_simps)
    with key m1 show ?thesis
      by (simp add: server_verify_eq [OF client_public_power] v_def from_verifier Let_def)
  qed
  show "server_verify sha1 user salt v b cpub spub m2 = None" if "from_le cpub mod modulus = 0"
    using that by (simp add: server_verify_def Let_def)
qed

text \<open>
  C19. The two sides of the WarCraft III logon agree, whatever function the digest is. With the
  verifier of a password stored and the server's public key made from it, a client that uses the
  same password is accepted by the server and gets the proof it expects; it gives up exactly when
  the server's key is zero modulo \<open>N\<close>, and its subtraction never underflows. A client public key
  that is zero modulo \<open>N\<close> is refused with any proof.
\<close>

theorem srp_agreement:
  fixes sha1 :: "bytes \<Rightarrow> bytes" and user password salt b :: bytes
  defines "v \<equiv> verifier sha1 user password salt"
  defines "spub \<equiv> server_public v b"
  shows "(client_proof sha1 user password salt a spub :: (unit, (bytes \<times> bytes) option) outcome) \<noteq> Panic \<and>
    (client_proof sha1 user password salt a spub = (Ok None :: (unit, (bytes \<times> bytes) option) outcome) \<longleftrightarrow>
       from_le spub mod modulus = 0) \<and>
    (\<forall>m1 key. client_proof sha1 user password salt a spub =
         (Ok (Some (m1, key)) :: (unit, (bytes \<times> bytes) option) outcome) \<longrightarrow>
       server_verify sha1 user salt v b (client_public a) spub m1 =
         Some (server_proof_from_key sha1 (client_public a) m1 key)) \<and>
    (\<forall>cpub m2. from_le cpub mod modulus = 0 \<longrightarrow> server_verify sha1 user salt v b cpub spub m2 = None)"
  unfolding v_def spub_def
  by (intro conjI allI impI srp_logon(1) srp_logon(2)) (rule srp_logon(3) srp_logon(4), assumption)+

text \<open>With a digest that is always zero and both random values one, the keys are 47 and 48.\<close>

lemma srp_agreement_witness:
  "\<exists>m1 key. client_proof (\<lambda>_. replicate 20 0) (ascii ''bob'') (ascii ''pw'') (replicate 32 0) (1 # replicate 31 0)
      (server_public (verifier (\<lambda>_. replicate 20 0) (ascii ''bob'') (ascii ''pw'') (replicate 32 0)) (1 # replicate 31 0)) =
      (Ok (Some (m1, key)) :: (unit, (bytes \<times> bytes) option) outcome) \<and>
    server_verify (\<lambda>_. replicate 20 0) (ascii ''bob'') (replicate 32 0)
      (verifier (\<lambda>_. replicate 20 0) (ascii ''bob'') (ascii ''pw'') (replicate 32 0)) (1 # replicate 31 0)
      (client_public (1 # replicate 31 0))
      (server_public (verifier (\<lambda>_. replicate 20 0) (ascii ''bob'') (ascii ''pw'') (replicate 32 0)) (1 # replicate 31 0)) m1 =
      Some (server_proof_from_key (\<lambda>_. replicate 20 0) (client_public (1 # replicate 31 0)) m1 key) \<and>
    server_verify (\<lambda>_. replicate 20 0) (ascii ''bob'') (replicate 32 0)
      (verifier (\<lambda>_. replicate 20 0) (ascii ''bob'') (ascii ''pw'') (replicate 32 0)) (1 # replicate 31 0)
      (replicate 32 0)
      (server_public (verifier (\<lambda>_. replicate 20 0) (ascii ''bob'') (ascii ''pw'') (replicate 32 0)) (1 # replicate 31 0)) m1 =
      None"
proof -
  let ?h = "\<lambda>_ :: bytes. replicate 20 (0 :: u8)" and ?u = "ascii ''bob''" and ?p = "ascii ''pw''"
    and ?s = "replicate 32 (0 :: u8)" and ?a = "1 # replicate 31 (0 :: u8)"
  let ?B = "server_public (verifier ?h ?u ?p ?s) ?a"
  have zeros: "le_val (replicate n 0) = 0" for n by (induction n) simp_all
  have "from_le ?B = 48"
  proof -
    have "private_key ?h ?u ?p ?s = 0" "exponent ?a = 1"
      by (simp_all add: private_key_def exponent_def from_le_def zeros modulus_value)
    then show ?thesis
      unfolding from_server_public from_verifier by (simp add: generator_def G_def modulus_value)
  qed
  then have "from_le ?B mod modulus \<noteq> 0" by (simp add: modulus_value)
  then obtain m1 key where c: "client_proof ?h ?u ?p ?s ?a ?B = (Ok (Some (m1, key)) :: (unit, _) outcome)"
    using client_proof_eq [of ?B ?h ?u ?p ?s "generator ^ exponent ?a" ?a]
    unfolding from_server_public from_verifier by (auto simp: Let_def)
  have z: "from_le ?s mod modulus = 0" by (simp add: from_le_def zeros)
  note agreed = srp_agreement [of ?h ?u ?p ?s ?a ?a]
  have verify: "\<And>m1 key. client_proof ?h ?u ?p ?s ?a ?B = (Ok (Some (m1, key)) :: (unit, _) outcome) \<Longrightarrow>
      server_verify ?h ?u ?s (verifier ?h ?u ?p ?s) ?a (client_public ?a) ?B m1 =
        Some (server_proof_from_key ?h (client_public ?a) m1 key)"
    by (rule agreed [THEN conjunct2, THEN conjunct2, THEN conjunct1, rule_format])
  have none: "\<And>cpub m2. from_le cpub mod modulus = 0 \<Longrightarrow>
      server_verify ?h ?u ?s (verifier ?h ?u ?p ?s) ?a cpub ?B m2 = None"
    by (rule agreed [THEN conjunct2, THEN conjunct2, THEN conjunct2, rule_format])
  show ?thesis by (intro exI conjI, rule c, rule verify [OF c], rule none [OF z])
qed

end
