(* ===== verification/Text.thy ===== *)
theory Text
  imports Channel_Rules
begin

text \<open>
  Operations of Rust's standard library on strings that the daemon uses: lossy decoding of UTF-8,
  substring search and \<open>split_once\<close>. The fact the callers need is that lossy decoding always gives
  valid UTF-8.
\<close>

section \<open>Lossy UTF-8\<close>

text \<open>
  How many bytes the decoder takes from the front of a byte string, and whether they are a
  character. An ill-formed sequence is cut where the first byte does not fit: a maximal subpart,
  which is replaced by one U+FFFD.
\<close>

definition second_ok :: "u8 \<Rightarrow> u8 \<Rightarrow> bool" where
  "second_ok b c \<longleftrightarrow>
     is_cont c \<and> (b = 0xE0 \<longrightarrow> 0xA0 \<le> c) \<and> (b = 0xED \<longrightarrow> c \<le> 0x9F) \<and>
     (b = 0xF0 \<longrightarrow> 0x90 \<le> c) \<and> (b = 0xF4 \<longrightarrow> c \<le> 0x8F)"

definition utf8_step :: "u8 \<Rightarrow> bytes \<Rightarrow> bool \<times> nat" where
  "utf8_step b bs =
     (if b < 0x80 then (True, 0)
      else if 0xC2 \<le> b \<and> b \<le> 0xDF then
        (case bs of c # _ \<Rightarrow> if is_cont c then (True, 1) else (False, 0) | [] \<Rightarrow> (False, 0))
      else if 0xE0 \<le> b \<and> b \<le> 0xEF then
        (case bs of
           c # r \<Rightarrow>
             if \<not> second_ok b c then (False, 0)
             else (case r of d # _ \<Rightarrow> if is_cont d then (True, 2) else (False, 1) | [] \<Rightarrow> (False, 1))
         | [] \<Rightarrow> (False, 0))
      else if 0xF0 \<le> b \<and> b \<le> 0xF4 then
        (case bs of
           c # r \<Rightarrow>
             if \<not> second_ok b c then (False, 0)
             else (case r of
                d # q \<Rightarrow>
                  if \<not> is_cont d then (False, 1)
                  else (case q of e # _ \<Rightarrow> if is_cont e then (True, 3) else (False, 2) | [] \<Rightarrow> (False, 2))
              | [] \<Rightarrow> (False, 1))
         | [] \<Rightarrow> (False, 0))
      else (False, 0))"

definition replacement :: bytes where "replacement = [0xEF, 0xBF, 0xBD]"

function utf8_lossy :: "bytes \<Rightarrow> bytes" where
  "utf8_lossy [] = []"
| "utf8_lossy (b # bs) =
     (case utf8_step b bs of
        (True, n) \<Rightarrow> b # take n bs @ utf8_lossy (drop n bs)
      | (False, n) \<Rightarrow> replacement @ utf8_lossy (drop n bs))"
  by pat_completeness auto
termination by (relation "measure length") auto

text \<open>The four forms of a character, and what a decoded one says about its bytes.\<close>

lemma lead_bytes:
  "b < 0x80 \<Longrightarrow> \<not> (0xC2 \<le> b \<and> b \<le> 0xDF)"
  "0xC2 \<le> b \<Longrightarrow> \<not> b < (0x80 :: u8)"
  "0xE0 \<le> b \<Longrightarrow> \<not> b < (0x80 :: u8) \<and> \<not> b \<le> 0xDF"
  "0xF0 \<le> b \<Longrightarrow> \<not> b < (0x80 :: u8) \<and> \<not> b \<le> 0xDF \<and> \<not> b \<le> 0xEF"
  by (auto simp: word_less_nat_alt word_le_nat_alt)

lemma utf8_step_True:
  assumes "utf8_step b bs = (True, n)"
  obtains "b < 0x80" "n = 0"
    | c r where "0xC2 \<le> b" "b \<le> 0xDF" "bs = c # r" "is_cont c" "n = 1"
    | c d r where "0xE0 \<le> b" "b \<le> 0xEF" "bs = c # d # r" "second_ok b c" "is_cont d" "n = 2"
    | c d e r where "0xF0 \<le> b" "b \<le> 0xF4" "bs = c # d # e # r" "second_ok b c" "is_cont d"
        "is_cont e" "n = 3"
  using assms unfolding utf8_step_def by (auto split: if_splits list.splits)

lemma utf8_valid_step:
  assumes "utf8_step b bs = (True, n)" and "utf8_valid s"
  shows "utf8_valid (b # take n bs @ s)"
  using assms(1)
proof (cases rule: utf8_step_True)
  case 1
  with assms(2) show ?thesis by simp
next
  case (2 c r)
  with assms(2) lead_bytes(2) [of b] show ?thesis by simp
next
  case (3 c d r)
  with assms(2) lead_bytes(3) [of b] show ?thesis by (simp add: second_ok_def numeral_2_eq_2)
next
  case (4 c d e r)
  with assms(2) lead_bytes(4) [of b] show ?thesis by (simp add: second_ok_def numeral_3_eq_3)
qed

lemma utf8_valid_replacement: "utf8_valid s \<Longrightarrow> utf8_valid (replacement @ s)"
  by (simp add: replacement_def is_cont_def)

lemma utf8_valid_lossy: "utf8_valid (utf8_lossy s)"
proof (induction s rule: utf8_lossy.induct)
  case (2 b bs)
  obtain ok n where st: "utf8_step b bs = (ok, n)" by fastforce
  show ?case
  proof (cases ok)
    case True
    with st have "utf8_valid (utf8_lossy (drop n bs))" using 2(1) [of True n] by simp
    from utf8_valid_step [OF _ this] st True show ?thesis by (simp del: utf8_valid.simps)
  next
    case False
    with st have "utf8_valid (utf8_lossy (drop n bs))" using 2(2) [of False n] by simp
    from utf8_valid_replacement [OF this] st False show ?thesis by (simp del: utf8_valid.simps)
  qed
qed simp

lemma utf8_lossy_ascii: "is_ascii s \<Longrightarrow> utf8_lossy s = s"
  by (induction s) (auto simp: is_ascii_def utf8_step_def)

section \<open>Searching\<close>

definition has_sub :: "bytes \<Rightarrow> bytes \<Rightarrow> bool" where
  "has_sub s p \<longleftrightarrow> list_ex (\<lambda>i. take (length p) (drop i s) = p) [0..<Suc (length s)]"

definition split_once :: "u8 \<Rightarrow> bytes \<Rightarrow> (bytes \<times> bytes) option" where
  "split_once sep s =
     (case find_index (\<lambda>b. b = sep) s of
        None \<Rightarrow> None
      | Some k \<Rightarrow> Some (take k s, drop (Suc k) s))"

lemma has_sub_iff: "has_sub s p \<longleftrightarrow> (\<exists>a b. s = a @ p @ b)"
proof
  assume "has_sub s p"
  then obtain i where "take (length p) (drop i s) = p" by (auto simp: has_sub_def list_ex_iff)
  then have "s = take i s @ p @ drop (length p) (drop i s)" by (metis append_take_drop_id)
  then show "\<exists>a b. s = a @ p @ b" by blast
next
  assume "\<exists>a b. s = a @ p @ b"
  then obtain a b where "s = a @ p @ b" by blast
  then show "has_sub s p"
    unfolding has_sub_def list_ex_iff by (intro bexI [of _ "length a"]) auto
qed

end
