(* ===== verification/Chat.thy ===== *)
theory Chat
  imports Bncs Text
begin

text \<open>
  \<open>bnetcc-proto/src/chat.rs\<close>: chat event identifiers, the remaining user and channel flags, the
  cleaning of chat text, the normal form of a channel name and the \<open>SID_CHATEVENT\<close> frame. The
  operator flag and the two channel flags the channels use are in \<open>Channel\<close>.
\<close>

definition CHAT_TEXT_MAX :: nat where "CHAT_TEXT_MAX = 224"
definition CHANNEL_NAME_MAX :: nat where "CHANNEL_NAME_MAX = 31"
definition USERNAME_MAX :: nat where "USERNAME_MAX = 15"

datatype event_id =
    EvShowUser | EvJoin | EvLeave | EvWhisper | EvTalk | EvBroadcast | EvChannel | EvUserFlags
  | EvWhisperSent | EvChannelFull | EvChannelDoesNotExist | EvChannelRestricted | EvInfo
  | EvError | EvEmote

fun event_code :: "event_id \<Rightarrow> u32" where
  "event_code EvShowUser = 0x01"
| "event_code EvJoin = 0x02"
| "event_code EvLeave = 0x03"
| "event_code EvWhisper = 0x04"
| "event_code EvTalk = 0x05"
| "event_code EvBroadcast = 0x06"
| "event_code EvChannel = 0x07"
| "event_code EvUserFlags = 0x09"
| "event_code EvWhisperSent = 0x0A"
| "event_code EvChannelFull = 0x0D"
| "event_code EvChannelDoesNotExist = 0x0E"
| "event_code EvChannelRestricted = 0x0F"
| "event_code EvInfo = 0x12"
| "event_code EvError = 0x13"
| "event_code EvEmote = 0x17"

definition UF_BLIZZARD_REP :: u32 where "UF_BLIZZARD_REP = 0x01"
definition UF_SPEAKER :: u32 where "UF_SPEAKER = 0x04"
definition UF_ADMIN :: u32 where "UF_ADMIN = 0x08"
definition UF_NO_UDP :: u32 where "UF_NO_UDP = 0x10"
definition UF_SQUELCHED :: u32 where "UF_SQUELCHED = 0x20"
definition UF_SPECIAL_GUEST :: u32 where "UF_SPECIAL_GUEST = 0x40"
definition UF_BEEP :: u32 where "UF_BEEP = 0x100"

definition printable :: "u8 \<Rightarrow> bool" where
  "printable b \<longleftrightarrow> 0x20 \<le> b \<and> b \<noteq> 0x7F"

definition sanitize_chat_text :: "bytes \<Rightarrow> bytes" where
  "sanitize_chat_text input = take (CHAT_TEXT_MAX - 1) (filter printable input)"

text \<open>One byte of the loop: the output so far and whether the last byte was a space.\<close>

definition normalize_byte :: "u8 \<Rightarrow> bytes \<times> bool \<Rightarrow> bytes \<times> bool" where
  "normalize_byte b acc =
     (case acc of (out, last_space) \<Rightarrow>
      let c = lower b in
      if c = 0x20 then ((if last_space then out else out @ [c]), True)
      else (out @ [c], False))"

fun pop_spaces :: "bytes \<Rightarrow> bytes" where
  "pop_spaces [] = []"
| "pop_spaces (b # bs) = (if b = 0x20 then pop_spaces bs else b # bs)"

definition normalize_channel_name :: "bytes \<Rightarrow> bytes" where
  "normalize_channel_name name =
     (let (out, _) = fold normalize_byte (filter printable name) ([], True);
          out = rev (pop_spaces (rev out))
      in take CHANNEL_NAME_MAX out)"

definition chat_event :: "event_id \<Rightarrow> u32 \<Rightarrow> u32 \<Rightarrow> bytes \<Rightarrow> bytes \<Rightarrow> bncs_frame" where
  "chat_event event flags ping username text =
     \<lparr>fr_id = SID_CHATEVENT,
      fr_body = w_chain [w_u32 (event_code event), w_u32 flags, w_u32 ping, w_u32 0, w_u32 0,
        w_u32 0, w_cstr username, w_cstr text]\<rparr>"

section \<open>Facts\<close>

lemma normalize_bytes: "b \<in> set (fst (fold normalize_byte bs (out, l))) \<Longrightarrow>
    b \<in> set out \<or> b \<in> lower ` set bs"
proof (induction bs arbitrary: out l)
  case (Cons c cs)
  obtain out' l' where st: "normalize_byte c (out, l) = (out', l')" by fastforce
  then have "set out' \<subseteq> insert (lower c) (set out)"
    by (auto simp: normalize_byte_def Let_def split: if_splits)
  with Cons.IH [of out' l'] Cons.prems st show ?case by auto
qed simp

lemma set_pop_spaces: "set (pop_spaces bs) \<subseteq> set bs"
  by (induction bs) auto

lemma normalize_length: "length (normalize_channel_name s) \<le> CHANNEL_NAME_MAX"
  by (simp add: normalize_channel_name_def Let_def split: prod.split)

lemma lower_printable: "printable b \<Longrightarrow> printable (lower b)"
  by (auto simp: printable_def lower_def is_upper_def word_le_nat_alt unat_word_ariths word_unat_eq_iff)

lemma normalize_printable:
  assumes "b \<in> set (normalize_channel_name s)"
  shows "printable b \<and> lower b = b"
proof -
  obtain out l where o: "fold normalize_byte (filter printable s) ([], True) = (out, l)" by fastforce
  with assms have "b \<in> set (rev (pop_spaces (rev out)))"
    by (auto simp: normalize_channel_name_def Let_def dest: in_set_takeD simp del: set_rev)
  with set_pop_spaces [of "rev out"] have "b \<in> set out" by auto
  with normalize_bytes [of b "filter printable s" "[]" True] o
  have "b \<in> lower ` {x \<in> set s. printable x}" by simp
  then show ?thesis by (auto intro: lower_printable)
qed

lemma sanitize_printable:
  "length (sanitize_chat_text s) \<le> 223" "b \<in> set (sanitize_chat_text s) \<Longrightarrow> printable b"
  by (auto simp: sanitize_chat_text_def CHAT_TEXT_MAX_def dest: in_set_takeD)

end
