(* ===== verification/Node.thy ===== *)
theory Node
  imports Chat Limits Storage
begin

text \<open>
  \<open>bnetccd/src/node.rs\<close>: what the connections of one daemon share. The model keeps the tables the
  connections change (channels and their fan-out lists, game advertisements, pending leave
  notices, active names, realm tickets, CD keys, admission, the moderation directory) and the
  configuration they read. Each method runs under one lock, so it is one function of the state.

  An \<open>Outbound\<close> is a shared handle on one connection's bounded queue: cloning it clones the
  handle. The model gives each connection a number and keeps the queues and ignore lists in a map
  from these numbers, so a clone is the number itself.
\<close>

section \<open>Configuration\<close>

record resolved_channel =
  rc_display :: bytes
  rc_listed :: bool
  rc_public :: bool
  rc_persist :: bool
  rc_max_users :: "nat option"
  rc_topic :: "bytes option"
  rc_telnet :: "bool option"
  rc_game_only :: bool
  rc_min_flag :: u32
  rc_products :: "bytes list"

datatype telnet_access = TelnetNone | TelnetPublic | TelnetAll

record channel_rules =
  cr_telnet_access :: telnet_access
  cr_by_key :: "(bytes, resolved_channel) fmap"
  cr_default_channel :: "(bytes, bytes) fmap"

text \<open>\<open>str::to_ascii_uppercase\<close>.\<close>

abbreviation ascii_upper :: "bytes \<Rightarrow> bytes" where
  "ascii_upper s \<equiv> map upper s"

definition rules_get :: "channel_rules \<Rightarrow> bytes \<Rightarrow> resolved_channel option" where
  "rules_get r key = fmlookup (cr_by_key r) key"

definition default_channel :: "channel_rules \<Rightarrow> bytes \<Rightarrow> bytes option" where
  "default_channel r product = fmlookup (cr_default_channel r) (ascii_upper product)"

definition telnet_default :: "telnet_access \<Rightarrow> bool \<Rightarrow> bool" where
  "telnet_default t public = (case t of TelnetNone \<Rightarrow> False | TelnetPublic \<Rightarrow> public | TelnetAll \<Rightarrow> True)"

definition telnet_may_join :: "channel_rules \<Rightarrow> bytes \<Rightarrow> bool" where
  "telnet_may_join r display =
     (case rules_get r (normalize_channel_name display) of
        Some rule \<Rightarrow>
          (case rc_telnet rule of
             Some explicit \<Rightarrow> explicit
           | None \<Rightarrow> telnet_default (cr_telnet_access r) (rc_public rule))
      | None \<Rightarrow> telnet_default (cr_telnet_access r) (classify_name display = PublicName))"

record version_policy =
  vp_restrict :: bool
  vp_allowed :: "(four_cc \<times> four_cc, u32 list) fmap"

definition version_allows :: "version_policy \<Rightarrow> four_cc \<Rightarrow> four_cc \<Rightarrow> u32 \<Rightarrow> bool" where
  "version_allows p product platform version_byte \<longleftrightarrow>
     \<not> vp_restrict p \<or>
     (case fmlookup (vp_allowed p) (product, platform) of
        Some bs \<Rightarrow> version_byte \<in> set bs | None \<Rightarrow> False)"

definition is_admin :: "bytes list \<Rightarrow> bytes \<Rightarrow> bool" where
  "is_admin admins name \<longleftrightarrow> list_ex (\<lambda>a. lowercase a = lowercase name) admins"

record channel_caps =
  cap_private :: nat
  cap_public :: nat
  cap_clan :: nat

definition cap_for_name :: "channel_caps \<Rightarrow> bytes \<Rightarrow> nat" where
  "cap_for_name c display =
     (case classify_name display of
        PublicName \<Rightarrow> cap_public c | OpOrClan \<Rightarrow> cap_clan c | PrivateName \<Rightarrow> cap_private c)"

section \<open>Accounts, tickets, games and outbound queues\<close>

record node_account =
  na_id :: account_id
  na_name :: bytes
  na_credential :: credential

record realm_ticket =
  rt_cookie :: u32
  rt_account :: node_account
  rt_product :: four_cc

record game_ad =
  ga_name :: bytes
  ga_password :: bytes
  ga_statstring :: bytes
  ga_game_type :: u16
  ga_parameter :: u16
  ga_state :: u32
  ga_product :: "four_cc option"
  ga_port :: u16
  ga_host_ip :: bytes
  ga_host :: account_id
  ga_created :: u64

type_synonym handle = nat
type_synonym wire = bytes

text \<open>
  The queue holds at most \<open>ob_capacity\<close> buffers not yet taken by the writer task; \<open>ob_open\<close> is
  false once that task has ended, and \<open>try_send\<close> fails then too.
\<close>

record outbound =
  ob_capacity :: nat
  ob_queue :: "wire list"
  ob_open :: bool
  ob_ignores :: "bytes fset"

definition ob_send :: "wire \<Rightarrow> outbound \<Rightarrow> bool \<times> outbound" where
  "ob_send w ob =
     (if ob_open ob \<and> length (ob_queue ob) < ob_capacity ob
      then (True, ob\<lparr>ob_queue := ob_queue ob @ [w]\<rparr>) else (False, ob))"

definition ignore_add :: "bytes \<Rightarrow> outbound \<Rightarrow> bool \<times> outbound" where
  "ignore_add name ob =
     (lowercase name |\<notin>| ob_ignores ob, ob\<lparr>ob_ignores := finsert (lowercase name) (ob_ignores ob)\<rparr>)"

definition ignore_remove :: "bytes \<Rightarrow> outbound \<Rightarrow> bool \<times> outbound" where
  "ignore_remove name ob =
     (lowercase name |\<in>| ob_ignores ob, ob\<lparr>ob_ignores := ob_ignores ob |-| {|lowercase name|}\<rparr>)"

definition ignore_contains :: "bytes \<Rightarrow> outbound \<Rightarrow> bool" where
  "ignore_contains lowercased ob \<longleftrightarrow> lowercased |\<in>| ob_ignores ob"

record session_entry =
  se_name :: bytes
  se_ip :: ip_addr
  se_product :: "four_cc option"
  se_out :: handle

section \<open>The shared state\<close>

text \<open>A finished ladder game as the public feed shows it.\<close>

record ladder_result =
  re_time :: u64
  re_product :: bytes
  re_league :: bytes
  re_player :: bytes
  re_outcome :: bytes
  re_rating :: u32
  re_change :: int

record node =
  nd_channels :: "(bytes, channel) fmap"
  nd_subscribers :: "(bytes, (bytes \<times> handle) list) fmap"
  nd_games :: "(bytes, game_ad) fmap"
  nd_pending :: "(bytes, bytes list) fmap"
  nd_outbounds :: "handle \<Rightarrow> outbound"
  nd_names :: "bytes fset"
  nd_tickets :: "(u64, realm_ticket) fmap"
  nd_admission :: admission_table
  nd_connections :: u64
  nd_peak :: u64
  nd_total_logins :: u64
  nd_total_games :: u64
  nd_keys :: key_registry
  nd_key_holders :: "(key_id, bytes) fmap"
  nd_sessions :: "(bytes, session_entry) fmap"
  nd_killed :: "handle fset"
  nd_started :: "(four_cc option \<times> bytes, u64) fmap"
  nd_game_log :: "(bytes \<times> u64) list"
  nd_recent :: "ladder_result list"

record node_config =
  nc_policy :: policy
  nc_versions :: version_policy
  nc_admins :: "bytes list"
  nc_auto_op_private :: bool
  nc_rules :: channel_rules
  nc_key_uniqueness :: bool
  nc_motd :: bytes
  nc_realm :: bytes
  nc_wc3_legacy :: bool
  nc_caps :: channel_caps

definition node_new :: "ip_addr list \<Rightarrow> (handle \<Rightarrow> outbound) \<Rightarrow> node" where
  "node_new allowlist outs =
     \<lparr>nd_channels = fmempty, nd_subscribers = fmempty, nd_games = fmempty, nd_pending = fmempty,
      nd_outbounds = outs, nd_names = {||}, nd_tickets = fmempty,
      nd_admission = set_allowlist allowlist admission_new, nd_connections = 0, nd_peak = 0,
      nd_total_logins = 0, nd_total_games = 0, nd_keys = key_registry_new 500,
      nd_key_holders = fmempty, nd_sessions = fmempty, nd_killed = {||},
      nd_started = fmempty, nd_game_log = [], nd_recent = []\<rparr>"

definition send_to :: "handle \<Rightarrow> wire \<Rightarrow> node \<Rightarrow> bool \<times> node" where
  "send_to h w n =
     (let (ok, ob) = ob_send w (nd_outbounds n h) in (ok, n\<lparr>nd_outbounds := (nd_outbounds n)(h := ob)\<rparr>))"

definition send_frame :: "handle \<Rightarrow> bncs_frame \<Rightarrow> node \<Rightarrow> bool \<times> node" where
  "send_frame h f n =
     (case encode_frame f [] of Ok buf \<Rightarrow> send_to h buf n | _ \<Rightarrow> (False, n))"

section \<open>Admission\<close>

definition node_admit :: "node_config \<Rightarrow> client_class \<Rightarrow> ip_addr \<Rightarrow> node \<Rightarrow>
    (rejection, unit) outcome \<times> node" where
  "node_admit cfg k ip n =
     (case admit k ip (for_class (clients (nc_policy cfg)) k) (nd_admission n) of
        Ok t \<Rightarrow>
          let live = nd_connections n + 1 in
          (Ok (), n\<lparr>nd_admission := t, nd_connections := live, nd_peak := max (nd_peak n) live\<rparr>)
      | Err e \<Rightarrow> (Err e, n)
      | Panic \<Rightarrow> (Panic, n))"

definition node_release :: "client_class \<Rightarrow> ip_addr \<Rightarrow> node \<Rightarrow> node" where
  "node_release k ip n =
     n\<lparr>nd_admission := at_release k ip (nd_admission n), nd_connections := nd_connections n - 1\<rparr>"

definition node_reclassify :: "node_config \<Rightarrow> ip_addr \<Rightarrow> client_class \<Rightarrow> client_class \<Rightarrow> node \<Rightarrow>
    (rejection, unit) outcome \<times> node" where
  "node_reclassify cfg ip old new n =
     (case reclassify ip old new (for_class (clients (nc_policy cfg)) new) (nd_admission n) of
        Ok t \<Rightarrow> (Ok (), n\<lparr>nd_admission := t\<rparr>)
      | Err e \<Rightarrow> (Err e, n)
      | Panic \<Rightarrow> (Panic, n))"

end
