(* ===== verification/Node_Ops.thy ===== *)
theory Node_Ops
  imports Node
begin

text \<open>
  The operations of \<open>bnetccd/src/node.rs\<close> on the shared state: names, tickets, CD keys, channels
  and their fan-out, game advertisements and the moderation directory.
\<close>

section \<open>Display taken\<close>

text \<open>
  \<open>claim_name\<close>: the loop tries the name itself, then \<open>base#2\<close>, \<open>base#3\<close> and so on. Its counter is
  a \<open>u32\<close>, which the loop never overflows: it stops within one more try than there are active
  names (\<open>claim_name_free\<close>), so the model counts in natural numbers.
\<close>

definition name_candidate :: "bytes \<Rightarrow> nat \<Rightarrow> bytes" where
  "name_candidate base n = (if n = 1 then base else base @ [0x23] @ decimal n)"

lemma name_candidate_inj: "lowercase (name_candidate base m) = lowercase (name_candidate base n) \<longleftrightarrow> m = n"
  by (auto simp: name_candidate_def lowercase_decimal)

lemma finite_taken: "finite {m. lowercase (name_candidate base m) |\<in>| taken}"
proof (rule inj_on_finite)
  show "inj_on (\<lambda>m. lowercase (name_candidate base m)) {m. lowercase (name_candidate base m) |\<in>| taken}"
    by (auto intro: inj_onI simp: name_candidate_inj)
  show "(\<lambda>m. lowercase (name_candidate base m)) ` {m. lowercase (name_candidate base m) |\<in>| taken} \<subseteq> fset taken"
    by auto
qed simp

function claim_loop :: "bytes fset \<Rightarrow> bytes \<Rightarrow> nat \<Rightarrow> bytes" where
  "claim_loop taken base n =
     (if lowercase (name_candidate base n) |\<in>| taken then claim_loop taken base (n + 1)
      else name_candidate base n)"
  by pat_completeness auto
termination
proof (relation "measure (\<lambda>(taken, base, n). card {m. n \<le> m \<and> lowercase (name_candidate base m) |\<in>| taken})")
  fix taken base and n :: nat
  assume "lowercase (name_candidate base n) |\<in>| taken"
  then have "{m. n + 1 \<le> m \<and> lowercase (name_candidate base m) |\<in>| taken} \<subset>
      {m. n \<le> m \<and> lowercase (name_candidate base m) |\<in>| taken}"
    by (auto intro: psubsetI simp: Suc_le_eq)
  then show "((taken, base, n + 1), taken, base, n) \<in>
      measure (\<lambda>(taken, base, n). card {m. n \<le> m \<and> lowercase (name_candidate base m) |\<in>| taken})"
    using finite_subset [OF _ finite_taken [of base taken]] by (auto intro!: psubset_card_mono)
qed simp

declare claim_loop.simps [simp del]

definition claim_name :: "bytes \<Rightarrow> node \<Rightarrow> bytes \<times> node" where
  "claim_name base n =
     (let candidate = claim_loop (nd_names n) base 1 in
      (candidate, n\<lparr>nd_names := finsert (lowercase candidate) (nd_names n)\<rparr>))"

definition release_name :: "bytes \<Rightarrow> node \<Rightarrow> node" where
  "release_name display n = n\<lparr>nd_names := nd_names n |-| {|lowercase display|}\<rparr>"

section \<open>Realm tickets\<close>

text \<open>
  The random numbers are an argument: the cookie, and the ids drawn until one is neither zero nor
  in use. A list of draws that holds no such id gives \<open>None\<close>.
\<close>

definition mint_realm_ticket :: "node_account \<Rightarrow> four_cc \<Rightarrow> u32 \<Rightarrow> u64 list \<Rightarrow> node \<Rightarrow>
    ((u64 \<times> u32) \<times> node) option" where
  "mint_realm_ticket a product cookie draws n =
     (case find (\<lambda>i. i \<noteq> 0 \<and> fmlookup (nd_tickets n) i = None) draws of
        None \<Rightarrow> None
      | Some i \<Rightarrow> Some ((i, cookie), n\<lparr>nd_tickets :=
          fmupd i \<lparr>rt_cookie = cookie, rt_account = a, rt_product = product\<rparr> (nd_tickets n)\<rparr>))"

definition realm_ticket_of :: "u64 \<Rightarrow> u32 \<Rightarrow> node \<Rightarrow> realm_ticket option" where
  "realm_ticket_of i cookie n =
     (case fmlookup (nd_tickets n) i of
        Some t \<Rightarrow> if rt_cookie t = cookie then Some t else None
      | None \<Rightarrow> None)"

definition revoke_realm_ticket :: "u64 \<Rightarrow> node \<Rightarrow> node" where
  "revoke_realm_ticket i n = n\<lparr>nd_tickets := fmdrop i (nd_tickets n)\<rparr>"

section \<open>CD keys\<close>

datatype key_claim_result = ClaimOk | ClaimInUse bytes | ClaimBanned

definition claim_key :: "key_id \<Rightarrow> u64 \<Rightarrow> node \<Rightarrow> key_claim_result \<times> node" where
  "claim_key k now_ms n =
     (case key_claim k 0 now_ms (nd_keys n) of
        (KeyOk, r) \<Rightarrow> (ClaimOk, n\<lparr>nd_keys := r\<rparr>)
      | (KeyBanned, r) \<Rightarrow> (ClaimBanned, n\<lparr>nd_keys := r\<rparr>)
      | (KeyInUse _, r) \<Rightarrow>
          (ClaimInUse (case fmlookup (nd_key_holders n) k of Some h \<Rightarrow> h | None \<Rightarrow> []),
           n\<lparr>nd_keys := r\<rparr>))"

definition release_key :: "key_id \<Rightarrow> u64 \<Rightarrow> node \<Rightarrow> node" where
  "release_key k now_ms n =
     n\<lparr>nd_keys := key_release k now_ms (nd_keys n), nd_key_holders := fmdrop k (nd_key_holders n)\<rparr>"

definition record_key_holder_name :: "key_id \<Rightarrow> bytes \<Rightarrow> node \<Rightarrow> node" where
  "record_key_holder_name k name n = n\<lparr>nd_key_holders := fmupd k name (nd_key_holders n)\<rparr>"

section \<open>Channels\<close>

record joined_channel =
  jc_key :: bytes
  jc_display :: bytes
  jc_flags :: u32
  jc_outcome :: join_outcome
  jc_topic :: "bytes option"

record occupant =
  oc_name :: bytes
  oc_flags :: u32
  oc_statstring :: bytes

definition rule_refuses :: "resolved_channel option \<Rightarrow> u32 \<Rightarrow> bytes option \<Rightarrow> bool" where
  "rule_refuses rule base_flags product \<longleftrightarrow>
     (case rule of
        None \<Rightarrow> False
      | Some r \<Rightarrow>
          (rc_min_flag r \<noteq> 0 \<and> base_flags AND rc_min_flag r = 0) \<or>
          (rc_products r \<noteq> [] \<and>
           \<not> (case product of Some p \<Rightarrow> ascii_upper p \<in> set (rc_products r) | None \<Rightarrow> False)))"

text \<open>The channel \<open>or_insert_with\<close> makes: naming it decides its size and who becomes operator.\<close>

definition make_channel :: "node_config \<Rightarrow> resolved_channel option \<Rightarrow> bytes \<Rightarrow> bytes \<Rightarrow>
    ('e, channel) outcome" where
  "make_channel cfg rule key display =
     (let max_users = (case Option.bind rule rc_max_users of
                         Some m \<Rightarrow> m | None \<Rightarrow> cap_for_name (nc_caps cfg) display);
          c = channel_new key display Local max_users
      in obind (if (case rule of Some r \<Rightarrow> rc_public r | None \<Rightarrow> False) then Ok GrantNone
                else op_grant_for_name display (nc_auto_op_private cfg))
         (\<lambda>grant.
          let c = set_op_grant grant c in
          Ok (case rule of Some r \<Rightarrow> set_persist (rc_persist r) c | None \<Rightarrow> c)))"

definition join_channel :: "node_config \<Rightarrow> bytes \<Rightarrow> account_id \<Rightarrow> bytes \<Rightarrow> u32 \<Rightarrow> bytes option \<Rightarrow> bytes \<Rightarrow>
    handle \<Rightarrow> node \<Rightarrow> (join_denial, joined_channel \<times> occupant list) outcome \<times> node" where
  "join_channel cfg raw_name account display_name base_flags product statstring out n =
     (let key = normalize_channel_name raw_name in
      if key = [] then (Err JoinFull, n)
      else
        let display = trim (utf8_lossy raw_name); rule = rules_get (nc_rules cfg) key in
        if rule_refuses rule base_flags product then (Err JoinRestricted, n)
        else
          let topic = Option.bind rule rc_topic in
          (case (case fmlookup (nd_channels n) key of
                   Some c \<Rightarrow> Ok c | None \<Rightarrow> make_channel cfg rule key display) of
             Panic \<Rightarrow> (Panic, n)
           | Err e \<Rightarrow> (Err e, n)
           | Ok c \<Rightarrow>
               let n = n\<lparr>nd_channels := fmupd key c (nd_channels n)\<rparr>;
                   existing = map (\<lambda>m. \<lparr>oc_name = m_name m, oc_flags = m_flags m,
                     oc_statstring = m_statstring m\<rparr>) (ch_members c)
               in (case join account display_name base_flags statstring c of
                     Err d \<Rightarrow> (Err d, n)
                   | Panic \<Rightarrow> (Panic, n)
                   | Ok (lo, c') \<Rightarrow>
                       let subs = (case fmlookup (nd_subscribers n) key of Some s \<Rightarrow> s | None \<Rightarrow> []) in
                       (Ok (\<lparr>jc_key = key, jc_display = ch_display c', jc_flags = ch_flags c',
                             jc_outcome = lo, jc_topic = topic\<rparr>, existing),
                        n\<lparr>nd_channels := fmupd key c' (nd_channels n),
                          nd_subscribers := fmupd key (subs @ [(display_name, out)]) (nd_subscribers n)\<rparr>))))"

definition destroy_if :: "leave_outcome \<Rightarrow> bytes \<Rightarrow> node \<Rightarrow> node" where
  "destroy_if lo key n =
     (if lo_should_destroy lo
      then n\<lparr>nd_channels := fmdrop key (nd_channels n), nd_subscribers := fmdrop key (nd_subscribers n),
             nd_pending := fmdrop key (nd_pending n)\<rparr>
      else n)"

definition leave_channel :: "bytes \<Rightarrow> bytes \<Rightarrow> node \<Rightarrow> account_id option \<times> node" where
  "leave_channel key display_name n =
     (case fmlookup (nd_channels n) key of
        None \<Rightarrow> (None, n)
      | Some c \<Rightarrow>
          let (lo, c') = leave display_name c;
              n = n\<lparr>nd_channels := fmupd key c' (nd_channels n)\<rparr>;
              n = (case fmlookup (nd_subscribers n) key of
                     None \<Rightarrow> n
                   | Some subs \<Rightarrow> n\<lparr>nd_subscribers :=
                       fmupd key (filter (\<lambda>(name, _). \<not> eq_nocase name display_name) subs) (nd_subscribers n)\<rparr>)
          in (lo_new_operator lo, destroy_if lo key n))"

definition is_member :: "bytes \<Rightarrow> bytes \<Rightarrow> node \<Rightarrow> bool" where
  "is_member key display_name n \<longleftrightarrow>
     (case fmlookup (nd_channels n) key of
        None \<Rightarrow> False
      | Some c \<Rightarrow> list_ex (\<lambda>m. eq_nocase (m_name m) display_name) (ch_members c))"

definition node_is_operator :: "bytes \<Rightarrow> account_id \<Rightarrow> node \<Rightarrow> bool" where
  "node_is_operator key account n \<longleftrightarrow>
     (case fmlookup (nd_channels n) key of None \<Rightarrow> False | Some c \<Rightarrow> is_operator c account)"

text \<open>\<open>pull_subscriber\<close>: the first subscriber of that name, taken off the fan-out list.\<close>

definition pull_subscriber :: "bytes \<Rightarrow> bytes \<Rightarrow> node \<Rightarrow> handle option \<times> node" where
  "pull_subscriber key name n =
     (case fmlookup (nd_subscribers n) key of
        None \<Rightarrow> (None, n)
      | Some subs \<Rightarrow>
          (case find_index (\<lambda>(s, _). eq_nocase s name) subs of
             None \<Rightarrow> (None, n)
           | Some pos \<Rightarrow> (Some (snd (subs ! pos)),
               n\<lparr>nd_subscribers := fmupd key (remove_nth pos subs) (nd_subscribers n)\<rparr>)))"

datatype mod_result =
    ModNotOperator | ModNotFound | ModCannotTargetSelf
  | ModOk (mod_target: "handle option") (mod_new_operator: "account_id option")

fun mod_error :: "op_error \<Rightarrow> mod_result" where
  "mod_error NotOperator = ModNotOperator"
| "mod_error NotPresent = ModNotFound"
| "mod_error CannotTargetSelf = ModCannotTargetSelf"

text \<open>What \<open>channel_kick\<close> and \<open>channel_ban\<close> do once the channel has removed the target.\<close>

definition after_mod :: "bytes \<Rightarrow> bytes \<Rightarrow> leave_outcome \<Rightarrow> channel \<Rightarrow> node \<Rightarrow> mod_result \<times> node" where
  "after_mod key target_name lo c n =
     (let (target, n) = pull_subscriber key target_name (n\<lparr>nd_channels := fmupd key c (nd_channels n)\<rparr>)
      in (ModOk target (lo_new_operator lo), destroy_if lo key n))"

definition channel_kick :: "bytes \<Rightarrow> account_id \<Rightarrow> bytes \<Rightarrow> node \<Rightarrow> mod_result \<times> node" where
  "channel_kick key actor target_name n =
     (case fmlookup (nd_channels n) key of
        None \<Rightarrow> (ModNotFound, n)
      | Some c \<Rightarrow>
          (case kick_by_name actor target_name c of
             Ok (lo, c') \<Rightarrow> after_mod key target_name lo c' n
           | Err e \<Rightarrow> (mod_error e, n)
           | Panic \<Rightarrow> (ModNotFound, n)))"

definition channel_ban :: "bytes \<Rightarrow> account_id \<Rightarrow> bytes \<Rightarrow> node \<Rightarrow> mod_result \<times> node" where
  "channel_ban key actor target_name n =
     (case fmlookup (nd_channels n) key of
        None \<Rightarrow> (ModNotFound, n)
      | Some c \<Rightarrow>
          (case ban_by_name actor target_name c of
             Ok (_, lo, c') \<Rightarrow> after_mod key target_name lo c' n
           | Err e \<Rightarrow> (mod_error e, n)
           | Panic \<Rightarrow> (ModNotFound, n)))"

definition channel_designate :: "bytes \<Rightarrow> account_id \<Rightarrow> bytes \<Rightarrow> node \<Rightarrow> mod_result \<times> node" where
  "channel_designate key actor target_name n =
     (case fmlookup (nd_channels n) key of
        None \<Rightarrow> (ModNotFound, n)
      | Some c \<Rightarrow>
          (case designate_by_name actor target_name c of
             Ok (_, c') \<Rightarrow> (ModOk None None, n\<lparr>nd_channels := fmupd key c' (nd_channels n)\<rparr>)
           | Err e \<Rightarrow> (mod_error e, n)
           | Panic \<Rightarrow> (ModNotFound, n)))"

definition channel_unban :: "bytes \<Rightarrow> account_id \<Rightarrow> account_id \<Rightarrow> node \<Rightarrow> mod_result \<times> node" where
  "channel_unban key actor target n =
     (case fmlookup (nd_channels n) key of
        None \<Rightarrow> (ModNotFound, n)
      | Some c \<Rightarrow>
          (case unban actor target c of
             Ok (_, c') \<Rightarrow> (ModOk None None, n\<lparr>nd_channels := fmupd key c' (nd_channels n)\<rparr>)
           | _ \<Rightarrow> (ModNotOperator, n)))"

section \<open>Fan-out\<close>

text \<open>Every subscriber is handed the same buffer; a full queue loses it silently here.\<close>

definition flush_leaves :: "bytes \<Rightarrow> node \<Rightarrow> node" where
  "flush_leaves key n =
     (case fmlookup (nd_pending n) key of
        None \<Rightarrow> n
      | Some events \<Rightarrow>
          let n = n\<lparr>nd_pending := fmdrop key (nd_pending n)\<rparr> in
          if events = [] then n
          else (case fmlookup (nd_subscribers n) key of
             None \<Rightarrow> n
           | Some subs \<Rightarrow> fold (\<lambda>(_, h) n. snd (send_to h (concat events) n)) subs n))"

definition skips :: "bytes option \<Rightarrow> bytes option \<Rightarrow> node \<Rightarrow> bytes \<times> handle \<Rightarrow> bool" where
  "skips exclude sender_lc n sub \<longleftrightarrow>
     (case exclude of Some e \<Rightarrow> eq_nocase (fst sub) e | None \<Rightarrow> False) \<or>
     (case sender_lc of Some sl \<Rightarrow> ignore_contains sl (nd_outbounds n (snd sub)) | None \<Rightarrow> False)"

definition deliver :: "bytes option \<Rightarrow> bytes option \<Rightarrow> wire \<Rightarrow> bytes \<times> handle \<Rightarrow> bytes list \<times> node \<Rightarrow>
    bytes list \<times> node" where
  "deliver exclude sender_lc w sub acc =
     (case acc of (stalled, n) \<Rightarrow>
      if skips exclude sender_lc n sub then (stalled, n)
      else let (ok, n) = send_to (snd sub) w n in
        (if ok then stalled else stalled @ [fst sub], n))"

definition broadcast :: "bytes \<Rightarrow> wire \<Rightarrow> bytes option \<Rightarrow> bytes option \<Rightarrow> node \<Rightarrow> bytes list \<times> node" where
  "broadcast key w exclude sender_base n =
     (let sender_lc = map_option (\<lambda>s. lowercase s) sender_base;
          n = flush_leaves key n
      in case fmlookup (nd_subscribers n) key of
           None \<Rightarrow> ([], n)
         | Some subs \<Rightarrow> fold (deliver exclude sender_lc w) subs ([], n))"

definition enqueue_leave :: "bytes \<Rightarrow> bytes \<Rightarrow> node \<Rightarrow> node" where
  "enqueue_leave key frame n =
     (if fmlookup (nd_subscribers n) key \<noteq> None
      then n\<lparr>nd_pending := fmupd key
        ((case fmlookup (nd_pending n) key of Some es \<Rightarrow> es | None \<Rightarrow> []) @ [frame]) (nd_pending n)\<rparr>
      else n)"

text \<open>The keys are visited in the map's order; the channels do not interfere.\<close>

definition flush_pending :: "node \<Rightarrow> node" where
  "flush_pending n = fold flush_leaves (sorted_list_of_fset (fmdom (nd_pending n))) n"

section \<open>Games\<close>

definition advertise_game :: "game_ad \<Rightarrow> node \<Rightarrow> bool \<times> node" where
  "advertise_game ad n =
     (let key = lowercase (ga_name ad) in
      case fmlookup (nd_games n) key of
        Some existing \<Rightarrow>
          if ga_host existing \<noteq> ga_host ad then (False, n)
          else (True, n\<lparr>nd_games := fmupd key ad (nd_games n)\<rparr>)
      | None \<Rightarrow>
          (True, n\<lparr>nd_total_games := nd_total_games n + 1, nd_games := fmupd key ad (nd_games n)\<rparr>))"

definition withdraw_game :: "account_id \<Rightarrow> node \<Rightarrow> node" where
  "withdraw_game account n =
     n\<lparr>nd_games := fmfilter (\<lambda>k. case fmlookup (nd_games n) k of
        Some g \<Rightarrow> ga_host g \<noteq> account | None \<Rightarrow> True) (nd_games n)\<rparr>"

text \<open>
  When games started, and which were hosted; instants are milliseconds. The start times of games
  older than a day are dropped, and the log keeps the newest 100000 entries.
\<close>

definition mark_game_started :: "four_cc option \<Rightarrow> bytes \<Rightarrow> u64 \<Rightarrow> node \<Rightarrow> node" where
  "mark_game_started product name now n =
     (let recent = fmfilter (\<lambda>k. case fmlookup (nd_started n) k of
            Some at \<Rightarrow> sat_sub now at < 24 * 3600 * 1000 | None \<Rightarrow> True) (nd_started n)
      in n\<lparr>nd_started := fmupd (product, lowercase name) now recent\<rparr>)"

definition game_started_at :: "four_cc option \<Rightarrow> bytes \<Rightarrow> node \<Rightarrow> u64 option" where
  "game_started_at product name n = fmlookup (nd_started n) (product, lowercase name)"

definition record_hosted_game :: "bytes \<Rightarrow> u64 \<Rightarrow> node \<Rightarrow> node" where
  "record_hosted_game product now n =
     (let log = nd_game_log n @ [(product, now)] in
      n\<lparr>nd_game_log := drop (length log - 100000) log\<rparr>)"

text \<open>
  The channel list a client asks for: the channels configured as listed, then the live ones, each
  normal form once. The order of the configured and of the live channels is the tables'.
\<close>

definition listed_once :: "(bytes \<times> bytes) list \<Rightarrow> bytes set \<times> bytes list \<Rightarrow> bytes set \<times> bytes list" where
  "listed_once ks acc = fold (\<lambda>(key, display) (seen, names).
     if key \<in> seen then (seen, names) else (insert key seen, names @ [display])) ks acc"

definition channel_names :: "node_config \<Rightarrow> node \<Rightarrow> bytes list" where
  "channel_names cfg n =
     (let rules = cr_by_key (nc_rules cfg);
          listed = List.map_filter (\<lambda>k. case fmlookup rules k of
              Some r \<Rightarrow> if rc_listed r then Some (normalize_channel_name (rc_display r), rc_display r) else None
            | None \<Rightarrow> None) (sorted_list_of_fset (fmdom rules));
          live = List.map_filter (\<lambda>k. map_option (\<lambda>c. (ch_name c, ch_display c)) (fmlookup (nd_channels n) k))
            (sorted_list_of_fset (fmdom (nd_channels n)))
      in snd (listed_once (listed @ live) ({}, [])))"

definition channel_occupant_names :: "bytes \<Rightarrow> node \<Rightarrow> bytes list" where
  "channel_occupant_names key n =
     (case fmlookup (nd_channels n) key of Some c \<Rightarrow> map m_name (ch_members c) | None \<Rightarrow> [])"

section \<open>The moderation directory\<close>

definition register_session :: "bytes \<Rightarrow> ip_addr \<Rightarrow> handle \<Rightarrow> four_cc option \<Rightarrow> node \<Rightarrow> node" where
  "register_session display_name ip out product n =
     n\<lparr>nd_sessions := fmupd (lowercase display_name)
        \<lparr>se_name = display_name, se_ip = ip, se_product = product, se_out = out\<rparr> (nd_sessions n)\<rparr>"

definition unregister_session :: "bytes \<Rightarrow> node \<Rightarrow> node" where
  "unregister_session display_name n =
     n\<lparr>nd_sessions := fmdrop (lowercase display_name) (nd_sessions n)\<rparr>"

definition session_ip :: "bytes \<Rightarrow> node \<Rightarrow> ip_addr option" where
  "session_ip display_name n =
     map_option se_ip (fmlookup (nd_sessions n) (lowercase display_name))"

text \<open>
  Forcing sessions off: the notice is queued and the connection's kill signal fired, for every
  entry that matches, in the map's order.
\<close>

definition force_off :: "(bytes \<Rightarrow> session_entry \<Rightarrow> bool) \<Rightarrow> wire \<Rightarrow> node \<Rightarrow> nat \<times> node" where
  "force_off hit notice n =
     fold (\<lambda>k (count, n).
        case fmlookup (nd_sessions n) k of
          None \<Rightarrow> (count, n)
        | Some e \<Rightarrow>
            if hit k e
            then (count + 1, (snd (send_to (se_out e) notice n))\<lparr>nd_killed := finsert (se_out e) (nd_killed n)\<rparr>)
            else (count, n))
      (sorted_list_of_fset (fmdom (nd_sessions n))) (0, n)"

definition disconnect_ip :: "ip_addr \<Rightarrow> wire \<Rightarrow> node \<Rightarrow> nat \<times> node" where
  "disconnect_ip ip notice n = force_off (\<lambda>_ e. se_ip e = ip) notice n"

definition disconnect_name_matches :: "bytes \<Rightarrow> wire \<Rightarrow> node \<Rightarrow> nat \<times> node" where
  "disconnect_name_matches sub notice n = force_off (\<lambda>k _. has_sub k sub) notice n"

end
