(* ===== verification/Node_Rules.thy ===== *)
theory Node_Rules
  imports Node_Ops
begin

text \<open>
  What the shared state of \<open>Node_Ops\<close> keeps: the channels in the table are reachable channels of
  \<open>Channel\<close>, each one's fan-out list names its members in the same order, nothing is kept for a
  channel that is gone, and a claimed name is free.
\<close>

section \<open>Names\<close>

lemma claim_loop_spec:
  assumes "n \<ge> 1"
  shows "\<exists>k \<ge> n. claim_loop taken base n = name_candidate base k \<and>
    lowercase (name_candidate base k) |\<notin>| taken \<and>
    (\<forall>m. n \<le> m \<and> m < k \<longrightarrow> lowercase (name_candidate base m) |\<in>| taken)"
  using assms
proof (induction taken base n rule: claim_loop.induct)
  case (1 taken base n)
  show ?case
  proof (cases "lowercase (name_candidate base n) |\<in>| taken")
    case True
    with 1 obtain k where k: "n + 1 \<le> k" "claim_loop taken base (n + 1) = name_candidate base k"
      "lowercase (name_candidate base k) |\<notin>| taken"
      "\<forall>m. n + 1 \<le> m \<and> m < k \<longrightarrow> lowercase (name_candidate base m) |\<in>| taken" by auto
    moreover have "lowercase (name_candidate base m) |\<in>| taken" if "n \<le> m" "m < k" for m
      using k(4) True that by (cases "m = n") auto
    ultimately show ?thesis
      using True by (intro exI [of _ k]) (auto simp: claim_loop.simps [of taken base n])
  next
    case False
    then show ?thesis
      by (intro exI [of _ n]) (auto simp: claim_loop.simps [of taken base n])
  qed
qed

text \<open>As many taken candidates as the suffix counts: so the suffix is at most one more than the names.\<close>

lemma claim_suffix_bound:
  assumes "\<forall>m. 1 \<le> m \<and> m < k \<longrightarrow> lowercase (name_candidate base m) |\<in>| taken"
  shows "k \<le> fcard taken + 1"
proof -
  have "card ((\<lambda>m. lowercase (name_candidate base m)) ` {1..<k}) = k - 1"
    by (subst card_image) (auto intro: inj_onI simp: name_candidate_inj)
  moreover have "card ((\<lambda>m. lowercase (name_candidate base m)) ` {1..<k}) \<le> card (fset taken)"
    using assms by (intro card_mono) auto
  ultimately show ?thesis by (simp add: fcard.rep_eq)
qed

text \<open>
  C21. Claiming a display name always ends: with a free name, the account name itself if it is not
  taken and else the lowest free suffix from 2 up, after at most one try more than there are active
  names; and giving the name back undoes the claim.
\<close>

theorem claim_name_free:
  "\<exists>k. 1 \<le> k \<and> k \<le> fcard (nd_names n) + 1 \<and>
     fst (claim_name base n) = name_candidate base k \<and>
     lowercase (name_candidate base k) |\<notin>| nd_names n \<and>
     (\<forall>m. 1 \<le> m \<and> m < k \<longrightarrow> lowercase (name_candidate base m) |\<in>| nd_names n) \<and>
     nd_names (snd (claim_name base n)) = finsert (lowercase (name_candidate base k)) (nd_names n) \<and>
     release_name (fst (claim_name base n)) (snd (claim_name base n)) = n"
proof -
  obtain k where k: "1 \<le> k" "claim_loop (nd_names n) base 1 = name_candidate base k"
    "lowercase (name_candidate base k) |\<notin>| nd_names n"
    "\<forall>m. 1 \<le> m \<and> m < k \<longrightarrow> lowercase (name_candidate base m) |\<in>| nd_names n"
    using claim_loop_spec [of 1 "nd_names n" base] by auto
  have "finsert x A |-| {|x|} = A" if "x |\<notin>| A" for x and A :: "bytes fset"
    using that by auto
  with k claim_suffix_bound [OF k(4)] show ?thesis
    by (intro exI [of _ k]) (simp add: claim_name_def release_name_def Let_def)
qed

definition idle_queue :: outbound where
  "idle_queue = \<lparr>ob_capacity = 2, ob_queue = [], ob_open = True, ob_ignores = {||}\<rparr>"

lemma claim_name_free_witness:
  "fst (claim_name [0x61] ((node_new [] (\<lambda>_. idle_queue))\<lparr>nd_names := {|[0x61]|}\<rparr>)) = [0x61, 0x23, 0x32]"
proof -
  let ?n = "(node_new [] (\<lambda>_. idle_queue))\<lparr>nd_names := {|[0x61]|}\<rparr>"
  obtain k where k: "1 \<le> k" "k \<le> fcard (nd_names ?n) + 1" "fst (claim_name [0x61] ?n) = name_candidate [0x61] k"
    "lowercase (name_candidate [0x61] k) |\<notin>| nd_names ?n"
    using claim_name_free [of ?n "[0x61]"] by blast
  from k(4) have "k \<noteq> 1" by (auto simp: name_candidate_def lower_def is_upper_def)
  with k(1,2) have "k = 2" by (simp add: fcard.rep_eq)
  with k(3) show ?thesis by (simp add: name_candidate_def decimal.simps [of 2])
qed

section \<open>Channels keep what the table relies on\<close>

lemma remove_at_table:
  assumes "remove_at i c = (lo, c')" and "ch_class c = Local"
  shows "names c' = remove_nth i (names c)" and "ch_name c' = ch_name c" and "ch_class c' = Local"
    and "ch_persist c' = ch_persist c"
    and "lo_should_destroy lo \<longleftrightarrow> ch_members c' = [] \<and> \<not> ch_persist c'"
proof -
  have frame: "names (x\<lparr>ch_heirs := h\<rparr>) = names x" "names (x\<lparr>ch_operator := q\<rparr>) = names x" for x h q
    by (simp_all add: names_def)
  have pr: "ch_name (promote h x) = ch_name x" "ch_class (promote h x) = ch_class x"
    "ch_persist (promote h x) = ch_persist x" "ch_members (promote h x) = [] \<longleftrightarrow> ch_members x = []" for h x
    by (simp_all add: promote_def split: option.splits)
  have wo: "ch_name (without i c) = ch_name c" by (simp add: without_def bump_def)
  from assms show "names c' = remove_nth i (names c)" "ch_name c' = ch_name c" "ch_class c' = Local"
    "ch_persist c' = ch_persist c"
    "lo_should_destroy lo \<longleftrightarrow> ch_members c' = [] \<and> \<not> ch_persist c'"
    by (auto simp: remove_at_unfold Let_def frame pr wo names_without plain_leave_def
        persists_when_empty_def split: if_splits option.splits)
qed

lemma join_table:
  assumes "join a n f st c = Ok (out, c')"
  shows "names c' = names c @ [lowercase n]" and "ch_name c' = ch_name c" and "ch_class c' = ch_class c"
    and "ch_persist c' = ch_persist c" and "ch_members c' \<noteq> []"
  using assms by (auto simp: join_Ok names_def bump_def)

lemma join_empty:
  assumes "ch_members c = []" and "ch_bans c = {||}"
  shows "\<exists>out c'. join a n f st c = Ok (out, c')"
  using assms by (auto simp: join_def Let_def is_banned_def position_by_name_def)

lemma make_channel_ok:
  assumes "make_channel cfg rule key display = Ok c"
  shows "reached c" and "ch_name c = key" and "ch_class c = Local" and "ch_members c = []"
    and "ch_bans c = {||}" and "names c = []"
proof -
  from assms obtain g limit where c: "c = (case rule of
      Some r \<Rightarrow> set_persist (rc_persist r) (set_op_grant g (channel_new key display Local limit))
    | None \<Rightarrow> set_op_grant g (channel_new key display Local limit))"
    by (auto simp: make_channel_def Let_def obind_Ok_conv)
  have base: "reached (set_op_grant g (channel_new key display Local limit))"
    using reached_op [OF reached_new, of "Grant g"] by simp
  with reached_op [OF base, of "Persist p" for p] show "reached c"
    unfolding c by (auto split: option.splits)
  show "ch_name c = key" "ch_class c = Local" "ch_members c = []" "ch_bans c = {||}" "names c = []"
    by (auto simp: c set_op_grant_def set_persist_def channel_new_def names_def split: option.splits)
qed

lemma make_channel_no_panic: "make_channel cfg rule key (trim (utf8_lossy raw)) \<noteq> (Panic :: ('e, channel) outcome)"
proof -
  have "ascii_whole (trim (utf8_lossy raw))"
    by (intro ascii_whole_trim utf8_ascii_whole utf8_valid_lossy)
  from op_grant_ok [OF this] show ?thesis
    by (auto simp: make_channel_def Let_def obind_Panic_conv split: option.splits if_splits)
qed

section \<open>Rosters and fan-out lists\<close>

abbreviation sub_names :: "(bytes \<times> handle) list \<Rightarrow> bytes list" where
  "sub_names subs \<equiv> map (\<lambda>s. lowercase (fst s)) subs"

lemma case_fst: "(\<lambda>(s, _). P s) = (\<lambda>x. P (fst x))"
  by (simp add: fun_eq_iff case_prod_beta)

lemma sub_index:
  assumes "sub_names subs = names c"
  shows "find_index (\<lambda>(s, _). eq_nocase s n) subs = position_by_name c n"
proof -
  have "find_index (\<lambda>(s, _). eq_nocase s n) subs = find_index (\<lambda>x. x = lowercase n) (sub_names subs)"
    unfolding case_fst by (simp add: find_index_map o_def eq_nocase_def)
  also have "\<dots> = find_index (\<lambda>x. x = lowercase n) (names c)" using assms by simp
  also have "\<dots> = position_by_name c n"
    by (simp add: position_by_name_def names_def find_index_map o_def eq_nocase_def)
  finally show ?thesis .
qed

lemma filter_as_remove:
  assumes "distinct (sub_names subs)" and "find_index (\<lambda>(s, _). eq_nocase s n) subs = Some i"
  shows "filter (\<lambda>(s, _). \<not> eq_nocase s n) subs = remove_nth i subs"
  using assms unfolding case_fst
proof (induction subs arbitrary: i)
  case (Cons s subs)
  show ?case
  proof (cases "eq_nocase (fst s) n")
    case True
    with Cons.prems have "i = 0" by (auto split: if_splits)
    moreover have "\<not> eq_nocase (fst t) n" if "t \<in> set subs" for t
      using Cons.prems(1) True that by (auto simp: eq_nocase_def image_iff)
    then have "filter (\<lambda>x. \<not> eq_nocase (fst x) n) subs = subs" by (auto intro: filter_True)
    ultimately show ?thesis using True by (simp add: remove_nth_def)
  next
    case False
    with Cons.prems(2) obtain j where "i = Suc j" "find_index (\<lambda>x. eq_nocase (fst x) n) subs = Some j"
      by (auto split: option.splits)
    with Cons False show ?thesis by (simp add: remove_nth_def)
  qed
qed simp

lemma filter_none:
  assumes "find_index (\<lambda>(s, _). eq_nocase s n) subs = None"
  shows "filter (\<lambda>(s, _). \<not> eq_nocase s n) subs = subs"
  using assms by (auto simp: find_index_None intro!: filter_True)

definition chan_ok :: "bytes \<Rightarrow> channel \<Rightarrow> (bytes \<times> handle) list \<Rightarrow> bool" where
  "chan_ok key c subs \<longleftrightarrow>
     reached c \<and> ch_name c = key \<and> ch_class c = Local \<and> (ch_members c \<noteq> [] \<or> ch_persist c) \<and>
     sub_names subs = names c"

definition node_inv :: "node \<Rightarrow> bool" where
  "node_inv n \<longleftrightarrow>
     fmdom (nd_subscribers n) = fmdom (nd_channels n) \<and>
     fmdom (nd_pending n) |\<subseteq>| fmdom (nd_channels n) \<and>
     (\<forall>key c subs. fmlookup (nd_channels n) key = Some c \<longrightarrow> fmlookup (nd_subscribers n) key = Some subs \<longrightarrow>
        chan_ok key c subs)"

text \<open>The three ways an operation changes one entry.\<close>

lemma node_inv_dom: "node_inv n \<Longrightarrow> fmlookup (nd_channels n) key = None \<longleftrightarrow> fmlookup (nd_subscribers n) key = None"
  unfolding node_inv_def by (metis fmdom_notD fmdom_notI)

lemma node_inv_subs:
  assumes "node_inv n" and "fmlookup (nd_channels n) key = Some c"
  obtains subs where "fmlookup (nd_subscribers n) key = Some subs" and "chan_ok key c subs"
  using assms node_inv_dom [OF assms(1), of key] by (auto simp: node_inv_def)

lemma node_inv_upd:
  assumes "node_inv n" and "chan_ok key c subs"
  shows "node_inv (n\<lparr>nd_channels := fmupd key c (nd_channels n),
    nd_subscribers := fmupd key subs (nd_subscribers n)\<rparr>)"
  using assms by (auto simp: node_inv_def)

lemma node_inv_drop:
  assumes "node_inv n"
  shows "node_inv (n\<lparr>nd_channels := fmdrop key (nd_channels n),
    nd_subscribers := fmdrop key (nd_subscribers n), nd_pending := fmdrop key (nd_pending n)\<rparr>)"
  using assms by (auto simp: node_inv_def)

lemma node_inv_frame:
  assumes "node_inv n" and "nd_channels n' = nd_channels n" and "nd_subscribers n' = nd_subscribers n"
    and "fmdom (nd_pending n') |\<subseteq>| fmdom (nd_pending n)"
  shows "node_inv n'"
  using assms by (auto simp: node_inv_def)

section \<open>Every operation keeps the invariant\<close>

lemma fmupd_same: "fmlookup m k = Some v \<Longrightarrow> fmupd k v m = m"
  by (rule fmap_ext) auto

lemma fmdrop_fmupd_eq: "fmdrop k (fmupd k v m) = fmdrop k m"
  by (rule fmap_ext) auto

lemma fmupd_twice: "fmupd k v (fmupd k u m) = fmupd k v m"
  by (rule fmap_ext) auto

lemma node_inv_removed:
  assumes inv: "node_inv n" and subs: "fmlookup (nd_subscribers n) key = Some subs"
    and names: "sub_names subs = names c" and rem: "remove_at i c = (lo, c')"
    and c: "ch_name c = key" "ch_class c = Local" and c': "reached c'"
  shows "node_inv (destroy_if lo key (n\<lparr>nd_channels := fmupd key c' (nd_channels n),
    nd_subscribers := fmupd key (remove_nth i subs) (nd_subscribers n)\<rparr>))"
proof (cases "lo_should_destroy lo")
  case True
  then have "destroy_if lo key (n\<lparr>nd_channels := fmupd key c' (nd_channels n),
      nd_subscribers := fmupd key (remove_nth i subs) (nd_subscribers n)\<rparr>) =
    n\<lparr>nd_channels := fmdrop key (nd_channels n), nd_subscribers := fmdrop key (nd_subscribers n),
      nd_pending := fmdrop key (nd_pending n)\<rparr>"
    by (simp add: destroy_if_def fmdrop_fmupd_eq)
  with node_inv_drop [OF inv] show ?thesis by simp
next
  case False
  with remove_at_table [OF rem c(2)] c c' names have "chan_ok key c' (remove_nth i subs)"
    by (auto simp: chan_ok_def map_remove_nth)
  with node_inv_upd [OF inv] False show ?thesis by (simp add: destroy_if_def)
qed

lemma node_inv_join: "node_inv n \<Longrightarrow> node_inv (snd (join_channel cfg raw a d f p st h n))"
proof -
  assume inv: "node_inv n"
  let ?key = "normalize_channel_name raw" and ?disp = "trim (utf8_lossy raw)"
    and ?rule = "rules_get (nc_rules cfg) (normalize_channel_name raw)"
  consider (refused) "?key = [] \<or> rule_refuses ?rule f p"
    | (old) c where "?key \<noteq> []" "\<not> rule_refuses ?rule f p" "fmlookup (nd_channels n) ?key = Some c"
    | (new) "?key \<noteq> []" "\<not> rule_refuses ?rule f p" "fmlookup (nd_channels n) ?key = None"
    by (cases "fmlookup (nd_channels n) ?key") auto
  then show ?thesis
  proof cases
    case refused
    with inv show ?thesis by (auto simp: join_channel_def Let_def)
  next
    case (old c)
    obtain subs where subs: "fmlookup (nd_subscribers n) ?key = Some subs" "chan_ok ?key c subs"
      using node_inv_subs [OF inv old(3)] .
    have same: "n\<lparr>nd_channels := nd_channels n\<rparr> = n" by simp
    show ?thesis
    proof (cases "join a d f st c")
      case (Ok r)
      obtain lo c' where r: "r = (lo, c')" by (cases r)
      have "reached c'" using reached_op [of c "Join a d f st"] subs(2) Ok r by (simp add: chan_ok_def)
      with join_table [of a d f st c lo c'] Ok r subs(2) have "chan_ok ?key c' (subs @ [(d, h)])"
        by (auto simp: chan_ok_def)
      from node_inv_upd [OF inv this] old Ok r subs show ?thesis
        by (simp add: join_channel_def Let_def fmupd_same [OF old(3)])
    qed (use old inv in \<open>simp_all add: join_channel_def Let_def fmupd_same [OF old(3)]\<close>)
  next
    case new
    have nosubs: "fmlookup (nd_subscribers n) ?key = None" using node_inv_dom [OF inv] new(3) by auto
    show ?thesis
    proof (cases "make_channel cfg ?rule ?key ?disp :: (join_denial, channel) outcome")
      case (Ok c)
      note mk = make_channel_ok [OF Ok]
      obtain lo c' where j: "join a d f st c = Ok (lo, c')" using join_empty [OF mk(4,5)] by metis
      have "reached c'" using reached_op [OF mk(1), of "Join a d f st"] j by simp
      with join_table [OF j] mk have "chan_ok ?key c' ([] @ [(d, h)])" by (auto simp: chan_ok_def)
      from node_inv_upd [OF inv this] new Ok j nosubs show ?thesis
        by (simp add: join_channel_def Let_def fmupd_twice)
    qed (use new inv in \<open>simp_all add: join_channel_def Let_def\<close>)
  qed
qed

lemma node_inv_leave: "node_inv n \<Longrightarrow> node_inv (snd (leave_channel key name n))"
proof -
  assume inv: "node_inv n"
  show ?thesis
  proof (cases "fmlookup (nd_channels n) key")
    case (Some c)
    obtain subs where subs: "fmlookup (nd_subscribers n) key = Some subs" "chan_ok key c subs"
      using node_inv_subs [OF inv Some] .
    have idx: "find_index (\<lambda>(s, _). eq_nocase s name) subs = position_by_name c name"
      using subs(2) by (intro sub_index) (simp add: chan_ok_def)
    show ?thesis
    proof (cases "position_by_name c name")
      case None
      with idx filter_none have "filter (\<lambda>(s, _). \<not> eq_nocase s name) subs = subs" by metis
      with None Some subs inv show ?thesis
        by (simp add: leave_channel_def leave_def leave_default_def destroy_if_def fmupd_same)
    next
      case pos: (Some i)
      obtain lo c' where rem: "remove_at i c = (lo, c')" by fastforce
      have c': "reached c'"
        using reached_op [of c "Leave name"] subs(2) pos rem by (simp add: chan_ok_def leave_def)
      have "distinct (sub_names subs)"
        using subs(2) channel_inv_reached [of c] by (simp add: chan_ok_def channel_inv_def)
      from filter_as_remove [OF this] idx pos
      have "filter (\<lambda>(s, _). \<not> eq_nocase s name) subs = remove_nth i subs" by simp
      with node_inv_removed [OF inv subs(1) _ rem _ _ c'] subs Some pos rem show ?thesis
        by (simp add: leave_channel_def leave_def chan_ok_def Let_def)
    qed
  qed (use inv in \<open>simp add: leave_channel_def\<close>)
qed

lemma node_inv_after_mod:
  assumes inv: "node_inv n" and c: "fmlookup (nd_channels n) key = Some c"
    and pos: "position_by_name c name = Some i"
    and rem: "remove_at i (c\<lparr>ch_bans := b\<rparr>) = (lo, c')" and c': "reached c'"
  shows "node_inv (snd (after_mod key name lo c' n))"
proof -
  obtain subs where subs: "fmlookup (nd_subscribers n) key = Some subs" "chan_ok key c subs"
    using node_inv_subs [OF inv c] .
  then have idx: "find_index (\<lambda>(s, _). eq_nocase s name) subs = Some i"
    using pos by (subst sub_index) (auto simp: chan_ok_def)
  have nm: "names (c\<lparr>ch_bans := b\<rparr>) = names c" by (simp add: names_def)
  from node_inv_removed [OF inv subs(1) _ rem _ _ c'] subs(2) nm idx subs(1) show ?thesis
    by (simp add: after_mod_def pull_subscriber_def Let_def chan_ok_def)
qed

lemma node_inv_mod_same:
  assumes "node_inv n" and "fmlookup (nd_channels n) key = Some c" and "reached c'"
    and "ch_members c' = ch_members c" and "ch_name c' = ch_name c" and "ch_class c' = ch_class c"
    and "ch_persist c' = ch_persist c"
  shows "node_inv (n\<lparr>nd_channels := fmupd key c' (nd_channels n)\<rparr>)"
proof -
  obtain subs where subs: "fmlookup (nd_subscribers n) key = Some subs" "chan_ok key c subs"
    using node_inv_subs [OF assms(1,2)] .
  with assms(3-) have "chan_ok key c' subs" by (simp add: chan_ok_def names_def)
  from node_inv_upd [OF assms(1) this] subs(1) show ?thesis by (simp add: fmupd_same)
qed

lemma node_inv_kick: "node_inv n \<Longrightarrow> node_inv (snd (channel_kick key actor name n))"
proof (cases "fmlookup (nd_channels n) key")
  case (Some c)
  assume inv: "node_inv n"
  show ?thesis
  proof (cases "kick_by_name actor name c")
    case (Ok r)
    obtain lo c' where r: "r = (lo, c')" by (cases r)
    have c': "reached c'"
      using reached_op [of c "KickName actor name"] node_inv_subs [OF inv Some] Ok r
      by (auto simp: chan_ok_def)
    from Ok r obtain i where "position_by_name c name = Some i" "remove_at i c = (lo, c')"
      by (auto simp: kick_by_name_def split: if_splits option.splits)
    with node_inv_after_mod [OF inv Some _ _ c', of name i "ch_bans c" lo] Some Ok r show ?thesis
      by (simp add: channel_kick_def)
  qed (use Some inv in \<open>simp_all add: channel_kick_def\<close>)
qed (simp add: channel_kick_def)

lemma node_inv_ban: "node_inv n \<Longrightarrow> node_inv (snd (channel_ban key actor name n))"
proof (cases "fmlookup (nd_channels n) key")
  case (Some c)
  assume inv: "node_inv n"
  show ?thesis
  proof (cases "ban_by_name actor name c")
    case (Ok r)
    obtain t lo c' where r: "r = (t, lo, c')" by (cases r)
    have c': "reached c'"
      using reached_op [of c "BanName actor name"] node_inv_subs [OF inv Some] Ok r
      by (auto simp: chan_ok_def)
    from Ok r obtain i b where "position_by_name c name = Some i"
        "remove_at i (c\<lparr>ch_bans := b\<rparr>) = (lo, c')"
      by (auto simp: ban_by_name_def Let_def split: if_splits option.splits)
    with node_inv_after_mod [OF inv Some _ _ c'] Some Ok r show ?thesis
      by (simp add: channel_ban_def)
  qed (use Some inv in \<open>simp_all add: channel_ban_def\<close>)
qed (simp add: channel_ban_def)

lemma node_inv_designate: "node_inv n \<Longrightarrow> node_inv (snd (channel_designate key actor name n))"
proof (cases "fmlookup (nd_channels n) key")
  case (Some c)
  assume inv: "node_inv n"
  show ?thesis
  proof (cases "designate_by_name actor name c")
    case (Ok r)
    obtain t c' where r: "r = (t, c')" by (cases r)
    have c': "reached c'"
      using reached_op [of c "DesignateName actor name"] node_inv_subs [OF inv Some] Ok r
      by (auto simp: chan_ok_def)
    from Ok r have "ch_members c' = ch_members c" "ch_name c' = ch_name c" "ch_class c' = ch_class c"
        "ch_persist c' = ch_persist c"
      by (auto simp: designate_by_name_def Let_def bump_def split: if_splits option.splits)
    from node_inv_mod_same [OF inv Some c' this] Some Ok r show ?thesis
      by (simp add: channel_designate_def)
  qed (use Some inv in \<open>simp_all add: channel_designate_def\<close>)
qed (simp add: channel_designate_def)

lemma node_inv_unban: "node_inv n \<Longrightarrow> node_inv (snd (channel_unban key actor t n))"
proof (cases "fmlookup (nd_channels n) key")
  case (Some c)
  assume inv: "node_inv n"
  show ?thesis
  proof (cases "unban actor t c")
    case (Ok r)
    obtain u c' where r: "r = (u, c')" by (cases r)
    have c': "reached c'"
      using reached_op [of c "Unban actor t"] node_inv_subs [OF inv Some] Ok r
      by (auto simp: chan_ok_def)
    from Ok r have "ch_members c' = ch_members c" "ch_name c' = ch_name c" "ch_class c' = ch_class c"
        "ch_persist c' = ch_persist c"
      by (auto simp: unban_def split: if_splits)
    from node_inv_mod_same [OF inv Some c' this] Some Ok r show ?thesis
      by (simp add: channel_unban_def)
  qed (use Some inv in \<open>simp_all add: channel_unban_def\<close>)
qed (simp add: channel_unban_def)

section \<open>Fan-out leaves the tables alone\<close>

definition same_tables :: "node \<Rightarrow> node \<Rightarrow> bool" where
  "same_tables n n' \<longleftrightarrow> nd_channels n' = nd_channels n \<and> nd_subscribers n' = nd_subscribers n \<and>
     nd_pending n' = nd_pending n"

lemma same_tables_refl [simp]: "same_tables n n"
  by (simp add: same_tables_def)

lemma same_tables_trans: "same_tables a b \<Longrightarrow> same_tables b c \<Longrightarrow> same_tables a c"
  by (simp add: same_tables_def)

lemma same_tables_send [simp]: "same_tables n (snd (send_to h w n))"
  by (simp add: same_tables_def send_to_def split: prod.split)

lemma same_tables_sends: "same_tables n (fold (\<lambda>(_, h) n. snd (send_to h w n)) subs n)"
  by (induction subs arbitrary: n) (auto intro: same_tables_trans [OF same_tables_send] split: prod.split)

lemma same_tables_deliver: "same_tables (snd acc) (snd (fold (deliver e sl w) subs acc))"
proof (induction subs arbitrary: acc)
  case (Cons s subs)
  have "same_tables (snd acc) (snd (deliver e sl w s acc))"
    by (cases acc) (auto simp: deliver_def Let_def same_tables_def send_to_def split: prod.splits)
  with Cons.IH [of "deliver e sl w s acc"] show ?case by (auto intro: same_tables_trans)
qed simp

lemma node_inv_same: "node_inv n \<Longrightarrow> same_tables n n' \<Longrightarrow> node_inv n'"
  by (erule node_inv_frame) (auto simp: same_tables_def)

lemma node_inv_flush: "node_inv n \<Longrightarrow> node_inv (flush_leaves key n)"
proof -
  assume inv: "node_inv n"
  let ?m = "n\<lparr>nd_pending := fmdrop key (nd_pending n)\<rparr>"
  have "node_inv ?m" by (rule node_inv_frame [OF inv]) auto
  then have "node_inv (fold (\<lambda>(_, h) n. snd (send_to h w n)) subs ?m)" for w subs
    using node_inv_same same_tables_sends by blast
  with inv \<open>node_inv ?m\<close> show ?thesis
    by (auto simp: flush_leaves_def Let_def split: option.split)
qed

lemma node_inv_broadcast: "node_inv n \<Longrightarrow> node_inv (snd (broadcast key w e sb n))"
  using node_inv_same [OF node_inv_flush [of n key]]
    same_tables_deliver [of "([], flush_leaves key n)" e "map_option (\<lambda>s. lowercase s) sb" w]
  by (auto simp: broadcast_def Let_def node_inv_flush split: option.split)

lemma node_inv_enqueue: "node_inv n \<Longrightarrow> node_inv (enqueue_leave key f n)"
proof -
  assume inv: "node_inv n"
  show ?thesis
  proof (cases "fmlookup (nd_subscribers n) key")
    case (Some subs)
    then have "key |\<in>| fmdom (nd_channels n)" using inv by (auto simp: node_inv_def intro: fmdomI)
    with inv Some show ?thesis by (auto simp: enqueue_leave_def node_inv_def)
  qed (simp add: enqueue_leave_def inv)
qed

lemma node_inv_flush_pending: "node_inv n \<Longrightarrow> node_inv (flush_pending n)"
proof -
  have "node_inv m \<Longrightarrow> node_inv (fold flush_leaves ks m)" for ks m
    by (induction ks arbitrary: m) (simp_all add: node_inv_flush)
  then show "node_inv n \<Longrightarrow> node_inv (flush_pending n)" by (simp add: flush_pending_def)
qed

lemma same_tables_force_off: "same_tables n (snd (force_off hit w n))"
proof -
  have "same_tables (snd acc) (snd (fold (\<lambda>k (count, n).
        case fmlookup (nd_sessions n) k of
          None \<Rightarrow> (count, n)
        | Some e \<Rightarrow>
            if hit k e
            then (count + 1, (snd (send_to (se_out e) w n))\<lparr>nd_killed := finsert (se_out e) (nd_killed n)\<rparr>)
            else (count, n)) ks acc))" for ks and acc :: "nat \<times> node"
  proof (induction ks arbitrary: acc)
    case (Cons k ks)
    then show ?case
      by (cases acc) (auto simp: same_tables_def send_to_def Let_def split: prod.splits option.splits if_splits)
  qed simp
  from this [of "(0, n)"] show ?thesis by (simp add: force_off_def)
qed

section \<open>Every operation of the shared state\<close>

datatype node_op =
    NodeJoin bytes account_id bytes u32 "bytes option" bytes handle
  | NodeLeave bytes bytes
  | NodeKick bytes account_id bytes
  | NodeBan bytes account_id bytes
  | NodeUnban bytes account_id account_id
  | NodeDesignate bytes account_id bytes
  | NodeBroadcast bytes wire "bytes option" "bytes option"
  | NodeQueueLeave bytes wire
  | NodeFlush
  | NodeSend handle wire
  | NodeClaimName bytes
  | NodeReleaseName bytes
  | NodeMint node_account four_cc u32 "u64 list"
  | NodeRevoke u64
  | NodeClaimKey key_id u64
  | NodeReleaseKey key_id u64
  | NodeKeyHolder key_id bytes
  | NodeAdvertise game_ad
  | NodeWithdraw account_id
  | NodeRegister bytes ip_addr handle "four_cc option"
  | NodeUnregister bytes
  | NodeDropIp ip_addr wire
  | NodeDropMatches bytes wire
  | NodeAdmit client_class ip_addr
  | NodeDepart client_class ip_addr
  | NodeReclassify ip_addr client_class client_class
  | NodeGameStarted "four_cc option" bytes u64
  | NodeGameHosted bytes u64

fun node_exec :: "node_config \<Rightarrow> node_op \<Rightarrow> node \<Rightarrow> node" where
  "node_exec cfg (NodeJoin raw a d f p st h) n = snd (join_channel cfg raw a d f p st h n)"
| "node_exec cfg (NodeLeave key name) n = snd (leave_channel key name n)"
| "node_exec cfg (NodeKick key a name) n = snd (channel_kick key a name n)"
| "node_exec cfg (NodeBan key a name) n = snd (channel_ban key a name n)"
| "node_exec cfg (NodeUnban key a t) n = snd (channel_unban key a t n)"
| "node_exec cfg (NodeDesignate key a name) n = snd (channel_designate key a name n)"
| "node_exec cfg (NodeBroadcast key w e sb) n = snd (broadcast key w e sb n)"
| "node_exec cfg (NodeQueueLeave key f) n = enqueue_leave key f n"
| "node_exec cfg NodeFlush n = flush_pending n"
| "node_exec cfg (NodeSend h w) n = snd (send_to h w n)"
| "node_exec cfg (NodeClaimName base) n = snd (claim_name base n)"
| "node_exec cfg (NodeReleaseName d) n = release_name d n"
| "node_exec cfg (NodeMint a p c ds) n = (case mint_realm_ticket a p c ds n of Some (_, n') \<Rightarrow> n' | None \<Rightarrow> n)"
| "node_exec cfg (NodeRevoke i) n = revoke_realm_ticket i n"
| "node_exec cfg (NodeClaimKey k t) n = snd (claim_key k t n)"
| "node_exec cfg (NodeReleaseKey k t) n = release_key k t n"
| "node_exec cfg (NodeKeyHolder k name) n = record_key_holder_name k name n"
| "node_exec cfg (NodeAdvertise ad) n = snd (advertise_game ad n)"
| "node_exec cfg (NodeWithdraw a) n = withdraw_game a n"
| "node_exec cfg (NodeRegister d ip h p) n = register_session d ip h p n"
| "node_exec cfg (NodeUnregister d) n = unregister_session d n"
| "node_exec cfg (NodeDropIp ip w) n = snd (disconnect_ip ip w n)"
| "node_exec cfg (NodeDropMatches s w) n = snd (disconnect_name_matches s w n)"
| "node_exec cfg (NodeAdmit k ip) n = snd (node_admit cfg k ip n)"
| "node_exec cfg (NodeDepart k ip) n = node_release k ip n"
| "node_exec cfg (NodeReclassify ip old new) n = snd (node_reclassify cfg ip old new n)"
| "node_exec cfg (NodeGameStarted p name t) n = mark_game_started p name t n"
| "node_exec cfg (NodeGameHosted p t) n = record_hosted_game p t n"

inductive node_reached :: "node_config \<Rightarrow> node \<Rightarrow> bool" for cfg where
  node_start: "node_reached cfg (node_new allowlist outs)"
| node_step: "node_reached cfg n \<Longrightarrow> node_reached cfg (node_exec cfg x n)"

text \<open>The operations that touch neither the channels, nor their fan-out, nor the notices.\<close>

lemmas same_tables_defs = same_tables_def claim_name_def release_name_def mint_realm_ticket_def
  revoke_realm_ticket_def claim_key_def release_key_def record_key_holder_name_def
  advertise_game_def withdraw_game_def register_session_def unregister_session_def
  node_admit_def node_release_def node_reclassify_def send_to_def mark_game_started_def
  record_hosted_game_def

fun touches_tables :: "node_op \<Rightarrow> bool" where
  "touches_tables (NodeJoin _ _ _ _ _ _ _) = True"
| "touches_tables (NodeLeave _ _) = True"
| "touches_tables (NodeKick _ _ _) = True"
| "touches_tables (NodeBan _ _ _) = True"
| "touches_tables (NodeUnban _ _ _) = True"
| "touches_tables (NodeDesignate _ _ _) = True"
| "touches_tables (NodeBroadcast _ _ _ _) = True"
| "touches_tables (NodeQueueLeave _ _) = True"
| "touches_tables NodeFlush = True"
| "touches_tables _ = False"

lemma same_tables_exec: "\<not> touches_tables x \<Longrightarrow> same_tables n (node_exec cfg x n)"
  by (cases x) (simp_all add: disconnect_ip_def disconnect_name_matches_def same_tables_force_off,
    simp_all add: same_tables_defs Let_def split: option.split prod.split key_verdict.split outcome.split)

lemma node_inv_exec:
  assumes "node_inv n"
  shows "node_inv (node_exec cfg x n)"
proof (cases "touches_tables x")
  case True
  with assms show ?thesis
    by (cases x) (simp_all add: node_inv_join node_inv_leave node_inv_kick node_inv_ban node_inv_unban
        node_inv_designate node_inv_broadcast node_inv_enqueue node_inv_flush_pending)
qed (rule node_inv_same [OF assms same_tables_exec])

lemma node_inv_reached: "node_reached cfg n \<Longrightarrow> node_inv n"
  by (induction rule: node_reached.induct) (auto simp: node_inv_exec, auto simp: node_new_def node_inv_def)

lemma join_channel_no_panic: "fst (join_channel cfg raw a d f p st h n) \<noteq> Panic"
proof -
  have "join a d f st c \<noteq> Panic" for c
    by (auto simp: join_def Let_def split: option.split)
  with make_channel_no_panic [where raw = raw and 'e = join_denial] show ?thesis
    by (simp add: join_channel_def Let_def split: option.split outcome.split prod.split)
qed

text \<open>
  Whatever connections do, in any order, the daemon's tables stay in step: a channel and its
  fan-out list exist together, the list names exactly the members in roster order, no two of them
  under names that differ only by case; a channel is filed under its own folded name; one with no
  members left is kept only if it is configured to persist; and no leave notice waits for a
  channel that is gone.
\<close>

theorem node_tables_agree:
  assumes "node_reached cfg n"
  shows "fmdom (nd_subscribers n) = fmdom (nd_channels n) \<and>
    fmdom (nd_pending n) |\<subseteq>| fmdom (nd_channels n) \<and>
    (\<forall>key c. fmlookup (nd_channels n) key = Some c \<longrightarrow>
       ch_name c = key \<and> (ch_members c = [] \<longrightarrow> ch_persist c) \<and> distinct (names c) \<and>
       (\<exists>subs. fmlookup (nd_subscribers n) key = Some subs \<and> sub_names subs = names c))"
proof (intro conjI allI impI)
  note inv = node_inv_reached [OF assms]
  then show "fmdom (nd_subscribers n) = fmdom (nd_channels n)"
    "fmdom (nd_pending n) |\<subseteq>| fmdom (nd_channels n)" by (auto simp: node_inv_def)
  fix key c
  assume c: "fmlookup (nd_channels n) key = Some c"
  from node_inv_subs [OF inv c] obtain subs
    where subs: "fmlookup (nd_subscribers n) key = Some subs" "chan_ok key c subs" .
  then show "\<exists>subs. fmlookup (nd_subscribers n) key = Some subs \<and> sub_names subs = names c"
    by (auto simp: chan_ok_def)
  from subs(2) show "ch_name c = key" "ch_members c = [] \<Longrightarrow> ch_persist c"
    by (auto simp: chan_ok_def)
  from subs(2) show "distinct (names c)"
    using channel_inv_reached [of c] by (simp add: chan_ok_def channel_inv_def)
qed

section \<open>Who hears a broadcast\<close>

lemma send_to_outbounds [simp]:
  "nd_outbounds (snd (send_to h w n)) = (nd_outbounds n)(h := snd (ob_send w (nd_outbounds n h)))"
  "fst (send_to h w n) = fst (ob_send w (nd_outbounds n h))"
  by (simp_all add: send_to_def split: prod.split)

lemma sends_outbounds:
  assumes "distinct (map snd subs)"
  shows "nd_outbounds (fold (\<lambda>(_, h) n. snd (send_to h w n)) subs n) h =
    (if h \<in> snd ` set subs then snd (ob_send w (nd_outbounds n h)) else nd_outbounds n h)"
  using assms by (induction subs arbitrary: n) (auto simp: image_iff)

lemma deliver_pair:
  "deliver e sl w s (st, n) =
     (if skips e sl n s then (st, n)
      else (if fst (ob_send w (nd_outbounds n (snd s))) then st else st @ [fst s], snd (send_to (snd s) w n)))"
  using send_to_outbounds(2) [of "snd s" w n]
  by (cases "send_to (snd s) w n") (simp add: deliver_def)

lemma skips_send: "h \<noteq> snd s \<Longrightarrow> skips e sl (snd (send_to h w n)) s \<longleftrightarrow> skips e sl n s"
  by (simp add: skips_def split: option.split)

lemma deliver_fold_stalled:
  assumes "distinct (map snd subs)"
  shows "fst (fold (deliver e sl w) subs (st, n)) = st @ map fst
      (filter (\<lambda>s. \<not> skips e sl n s \<and> \<not> fst (ob_send w (nd_outbounds n (snd s)))) subs)"
  using assms
proof (induction subs arbitrary: st n)
  case (Cons s subs)
  have "filter (\<lambda>t. \<not> skips e sl (snd (send_to (snd s) w n)) t \<and>
        \<not> fst (ob_send w (nd_outbounds (snd (send_to (snd s) w n)) (snd t)))) subs =
      filter (\<lambda>t. \<not> skips e sl n t \<and> \<not> fst (ob_send w (nd_outbounds n (snd t)))) subs"
  proof (intro filter_cong refl)
    fix t assume "t \<in> set subs"
    with Cons.prems have "snd s \<noteq> snd t" by force
    then show "(\<not> skips e sl (snd (send_to (snd s) w n)) t \<and>
        \<not> fst (ob_send w (nd_outbounds (snd (send_to (snd s) w n)) (snd t)))) =
      (\<not> skips e sl n t \<and> \<not> fst (ob_send w (nd_outbounds n (snd t))))"
      using skips_send by simp
  qed
  with Cons show ?case by (simp add: deliver_pair)
qed simp

lemma deliver_fold_other:
  "h \<notin> snd ` set subs \<Longrightarrow> nd_outbounds (snd (fold (deliver e sl w) subs (st, n))) h = nd_outbounds n h"
  by (induction subs arbitrary: st n) (auto simp: deliver_pair)

lemma deliver_fold_outbounds:
  assumes "distinct (map snd subs)" and "s \<in> set subs"
  shows "nd_outbounds (snd (fold (deliver e sl w) subs (st, n))) (snd s) =
      (if skips e sl n s then nd_outbounds n (snd s) else snd (ob_send w (nd_outbounds n (snd s))))"
  using assms
proof (induction subs arbitrary: st n)
  case (Cons t subs)
  show ?case
  proof (cases "s = t")
    case True
    with Cons.prems show ?thesis by (simp add: deliver_pair deliver_fold_other)
  next
    case False
    with Cons.prems have s: "s \<in> set subs" "distinct (map snd subs)" "snd t \<noteq> snd s" by force+
    then show ?thesis
      using Cons.IH skips_send [of "snd t" s e sl w n] by (auto simp: deliver_pair)
  qed
qed simp

text \<open>What a connection's queue holds once the waiting leave notices are sent ahead.\<close>

definition after_notices :: "bytes \<Rightarrow> node \<Rightarrow> outbound \<Rightarrow> outbound" where
  "after_notices key n ob =
     (case fmlookup (nd_pending n) key of
        Some (e # es) \<Rightarrow> snd (ob_send (concat (e # es)) ob)
      | _ \<Rightarrow> ob)"

lemma flush_outbounds:
  assumes "fmlookup (nd_subscribers n) key = Some subs" and "distinct (map snd subs)"
  shows "nd_outbounds (flush_leaves key n) h =
    (if h \<in> snd ` set subs then after_notices key n (nd_outbounds n h) else nd_outbounds n h)"
  using assms sends_outbounds [of subs _ "n\<lparr>nd_pending := fmdrop key (nd_pending n)\<rparr>" h]
  by (auto simp: flush_leaves_def after_notices_def Let_def split: option.split list.split)

lemma flush_tables:
  "nd_subscribers (flush_leaves key n) = nd_subscribers n"
  "fmlookup (nd_pending (flush_leaves key n)) key = None"
proof -
  let ?m = "n\<lparr>nd_pending := fmdrop key (nd_pending n)\<rparr>"
  have "nd_subscribers (fold (\<lambda>(_, h) n. snd (send_to h w n)) subs ?m) = nd_subscribers n"
    "fmlookup (nd_pending (fold (\<lambda>(_, h) n. snd (send_to h w n)) subs ?m)) key = None" for w subs
    using same_tables_sends [of ?m w subs] by (simp_all add: same_tables_def)
  then show "nd_subscribers (flush_leaves key n) = nd_subscribers n"
    "fmlookup (nd_pending (flush_leaves key n)) key = None"
    by (auto simp: flush_leaves_def Let_def split: option.split)
qed

lemma after_notices_ignores: "ob_ignores (after_notices key n ob) = ob_ignores ob"
  by (simp add: after_notices_def ob_send_def split: option.split list.split)

text \<open>
  C18. A broadcast on a channel puts the buffer on the queue of every member except the excluded
  name and those ignoring the sender, behind the leave notices still waiting for that channel; it
  touches no other connection; and it reports exactly the members whose queue was full or closed.
\<close>

theorem broadcast_reaches:
  fixes n key exclude sender_base
  assumes "fmlookup (nd_subscribers n) key = Some subs" and "distinct (map snd subs)"
  defines "ready \<equiv> \<lambda>h. after_notices key n (nd_outbounds n h)"
    and "skipped \<equiv> skips exclude (map_option (\<lambda>s. lowercase s) sender_base) n"
  shows "fst (broadcast key w exclude sender_base n) =
      map fst (filter (\<lambda>s. \<not> skipped s \<and> \<not> fst (ob_send w (ready (snd s)))) subs) \<and>
    (\<forall>s \<in> set subs. nd_outbounds (snd (broadcast key w exclude sender_base n)) (snd s) =
      (if skipped s then ready (snd s) else snd (ob_send w (ready (snd s))))) \<and>
    (\<forall>h. h \<notin> snd ` set subs \<longrightarrow>
      nd_outbounds (snd (broadcast key w exclude sender_base n)) h = nd_outbounds n h) \<and>
    fmlookup (nd_pending (snd (broadcast key w exclude sender_base n))) key = None"
proof -
  let ?sl = "map_option (\<lambda>s. lowercase s) sender_base" and ?m = "flush_leaves key n"
  have bc: "broadcast key w exclude sender_base n = fold (deliver exclude ?sl w) subs ([], ?m)"
    using assms(1) by (simp add: broadcast_def Let_def flush_tables)
  have out: "nd_outbounds ?m h = (if h \<in> snd ` set subs then ready h else nd_outbounds n h)" for h
    using flush_outbounds [OF assms(1,2)] by (simp add: ready_def)
  have sk: "skips exclude ?sl ?m s = skipped s" if "s \<in> set subs" for s
    using that out [of "snd s"]
    by (auto simp: skips_def skipped_def ignore_contains_def ready_def after_notices_ignores split: option.split)
  have outs: "nd_outbounds ?m (snd s) = ready (snd s)" if "s \<in> set subs" for s
    using out [of "snd s"] that by simp
  have "filter (\<lambda>s. \<not> skips exclude ?sl ?m s \<and> \<not> fst (ob_send w (nd_outbounds ?m (snd s)))) subs =
      filter (\<lambda>s. \<not> skipped s \<and> \<not> fst (ob_send w (ready (snd s)))) subs"
    by (intro filter_cong refl) (simp add: sk outs)
  then have "fst (broadcast key w exclude sender_base n) =
      map fst (filter (\<lambda>s. \<not> skipped s \<and> \<not> fst (ob_send w (ready (snd s)))) subs)"
    by (simp add: bc deliver_fold_stalled [OF assms(2)])
  moreover have "nd_outbounds (snd (broadcast key w exclude sender_base n)) (snd s) =
      (if skipped s then ready (snd s) else snd (ob_send w (ready (snd s))))" if "s \<in> set subs" for s
    using that by (simp add: bc deliver_fold_outbounds [OF assms(2) that] sk outs)
  moreover have "nd_outbounds (snd (broadcast key w exclude sender_base n)) h = nd_outbounds n h"
    if "h \<notin> snd ` set subs" for h
    using that by (simp add: bc deliver_fold_other out)
  moreover have "fmlookup (nd_pending (snd (broadcast key w exclude sender_base n))) key = None"
    unfolding bc using same_tables_deliver [of "([], ?m)" exclude ?sl w subs]
    by (simp add: same_tables_def flush_tables)
  ultimately show ?thesis by blast
qed

definition quiet_config :: node_config where
  "quiet_config = \<lparr>nc_policy = for_mode Both, nc_versions = \<lparr>vp_restrict = False, vp_allowed = fmempty\<rparr>,
     nc_admins = [], nc_auto_op_private = True,
     nc_rules = \<lparr>cr_telnet_access = TelnetPublic, cr_by_key = fmempty, cr_default_channel = fmempty\<rparr>,
     nc_key_uniqueness = False, nc_motd = [], nc_realm = [], nc_wc3_legacy = False,
     nc_caps = \<lparr>cap_private = 40, cap_public = 40, cap_clan = 100\<rparr>\<rparr>"

lemma node_tables_agree_witness:
  "fmdom (nd_subscribers (node_exec quiet_config (NodeJoin [0x58] 7 [0x61] 0 None [] 3)
      (node_new [] (\<lambda>_. idle_queue)))) =
   fmdom (nd_channels (node_exec quiet_config (NodeJoin [0x58] 7 [0x61] 0 None [] 3)
      (node_new [] (\<lambda>_. idle_queue))))"
  using node_tables_agree [OF node_step [OF node_start, of quiet_config "NodeJoin [0x58] 7 [0x61] 0 None [] 3"
      "[]" "\<lambda>_. idle_queue"]]
  by (rule conjunct1)

lemma broadcast_reaches_witness:
  "\<exists>n. fst (broadcast [0x78] [1] (Some [0x61]) None n) = [[0x63]] \<and>
     nd_outbounds (snd (broadcast [0x78] [1] (Some [0x61]) None n)) 2 = idle_queue\<lparr>ob_queue := [[9], [1]]\<rparr> \<and>
     ob_queue (nd_outbounds (snd (broadcast [0x78] [1] (Some [0x61]) None n)) 1) = [[9]] \<and>
     nd_outbounds (snd (broadcast [0x78] [1] (Some [0x61]) None n)) 5 = idle_queue"
proof -
  let ?subs = "[([0x61], 1 :: handle), ([0x62], 2), ([0x63], 3)]"
  let ?n = "(node_new [] (\<lambda>h. if h = 3 then idle_queue\<lparr>ob_open := False\<rparr> else idle_queue))
    \<lparr>nd_subscribers := fmupd [0x78] ?subs fmempty, nd_pending := fmupd [0x78] [[9]] fmempty\<rparr>"
  have "fmlookup (nd_subscribers ?n) [0x78] = Some ?subs" "distinct (map snd ?subs)" by simp_all
  from broadcast_reaches [OF this, of "[1]" "Some [0x61]" None] show ?thesis
    by (intro exI [of _ ?n])
      (simp add: after_notices_def ob_send_def skips_def idle_queue_def eq_nocase_def node_new_def lower_def)
qed

end
