(* ===== verification/Statstring.thy ===== *)
theory Statstring
  imports Chat
begin

text \<open>
  \<open>bnetcc-proto/src/statstring.rs\<close> and \<open>d2.rs\<close>: the per-user text other clients draw a user from,
  the Diablo II portrait it can end in, and the names a realm character may have. A Diablo II
  client copies two fields of such a text up to a comma it does not bound, so the check
  \<open>d2_is_safe\<close> stands between every text and every client.
\<close>

section \<open>Splitting and numbers\<close>

text \<open>\<open>slice::split\<close> on one byte, and \<open>str::parse\<close> for an unsigned integer of \<open>w\<close> bits.\<close>

fun split_on :: "u8 \<Rightarrow> bytes \<Rightarrow> bytes list" where
  "split_on d [] = [[]]"
| "split_on d (b # bs) =
     (if b = d then [] # split_on d bs
      else (case split_on d bs of p # ps \<Rightarrow> (b # p) # ps | [] \<Rightarrow> [[b]]))"

definition parse_uint :: "nat \<Rightarrow> bytes \<Rightarrow> nat option" where
  "parse_uint w s =
     (let ds = (case s of b # bs \<Rightarrow> if b = 0x2B \<and> bs \<noteq> [] then bs else s | [] \<Rightarrow> s) in
      if ds \<noteq> [] \<and> list_all is_digit ds \<and> digits_val ds < 2 ^ w then Some (digits_val ds) else None)"

lemma parse_uint_decimal: "n < 2 ^ w \<Longrightarrow> parse_uint w (decimal n) = Some n"
proof -
  assume n: "n < 2 ^ w"
  obtain b bs where d: "decimal n = b # bs" by (cases "decimal n") simp_all
  then have "is_digit b" using decimal_digits [of b n] by simp
  then have "b \<noteq> 0x2B" by (auto simp: is_digit_def)
  with d have "(case decimal n of b # bs \<Rightarrow> if b = 0x2B \<and> bs \<noteq> [] then bs else decimal n
    | [] \<Rightarrow> decimal n) = decimal n" by simp
  with n show ?thesis by (auto simp: parse_uint_def Let_def list_all_iff dest: decimal_digits)
qed

section \<open>Diablo II characters\<close>

definition PORTRAIT_LEN :: nat where "PORTRAIT_LEN = 33"
definition D2_NAME_MAX :: nat where "D2_NAME_MAX = 15"
definition D2_NAME_MIN :: nat where "D2_NAME_MIN = 2"

definition D2_HARDCORE :: u8 where "D2_HARDCORE = 0x04"
definition D2_DEAD :: u8 where "D2_DEAD = 0x08"
definition D2_EXPANSION :: u8 where "D2_EXPANSION = 0x20"
definition D2_LADDER :: u8 where "D2_LADDER = 0x40"
definition D2_CREATABLE :: u8 where "D2_CREATABLE = D2_HARDCORE OR D2_EXPANSION OR D2_LADDER"

definition DRUID :: u8 where "DRUID = 5"
definition ASSASSIN :: u8 where "ASSASSIN = 6"

definition class_is_valid :: "u8 \<Rightarrow> bool" where
  "class_is_valid c \<longleftrightarrow> c \<le> ASSASSIN"

definition class_expansion_only :: "u8 \<Rightarrow> bool" where
  "class_expansion_only c \<longleftrightarrow> c = DRUID \<or> c = ASSASSIN"

fun class_name :: "u8 \<Rightarrow> string" where
  "class_name c =
     (if c = 0 then ''Amazon'' else if c = 1 then ''Sorceress'' else if c = 2 then ''Necromancer''
      else if c = 3 then ''Paladin'' else if c = 4 then ''Barbarian'' else if c = 5 then ''Druid''
      else if c = 6 then ''Assassin'' else ''Unknown'')"

record portrait =
  po_class :: u8
  po_status :: u8
  po_level :: u8
  po_progression :: u8

definition push14 :: "bytes \<Rightarrow> u32 \<Rightarrow> bytes" where
  "push14 out v = out @ [ucast ((v AND 0x7F) OR 0x80), ucast ((drop_bit 7 v AND 0x7F) OR 0x80)]"

definition portrait_encode :: "portrait \<Rightarrow> bytes \<Rightarrow> bytes" where
  "portrait_encode p header =
     (let flags = push_bit 8 (ucast (po_progression p AND 0x1F)) OR (ucast (po_status p AND 0x6C) :: u32);
          out = header @ replicate 11 0xFF @ [min (po_class p) ASSASSIN + 1] @ replicate 11 0xFF
            @ [max 1 (min (po_level p) 99)]
      in push14 (push14 out flags) 0 @ [0xFF, 0xFF, 0xFF])"

definition charlist_bytes :: "portrait \<Rightarrow> u32 \<Rightarrow> bytes" where
  "charlist_bytes p realm_count = portrait_encode p (push14 [] realm_count)"

definition product_tag :: "four_cc \<Rightarrow> bytes" where
  "product_tag product = rev (as_ascii product)"

definition chat_statstring :: "portrait \<Rightarrow> four_cc \<Rightarrow> bytes \<Rightarrow> bytes \<Rightarrow> bytes" where
  "chat_statstring p product realm name =
     product_tag product @ realm @ [0x2C] @ name @ [0x2C] @ portrait_encode p [0x84, 0x80]"

definition parse_enterchat_statstring :: "bytes \<Rightarrow> (bytes \<times> bytes) option" where
  "parse_enterchat_statstring raw =
     (if \<not> utf8_valid raw then None
      else (case split_once 0x2C raw of
              None \<Rightarrow> None
            | Some (realm, name) \<Rightarrow> if realm \<noteq> [] \<and> name \<noteq> [] then Some (realm, name) else None))"

text \<open>The loop over the bytes of a name: \<open>None\<close> for a byte it refuses, else the punctuation seen.\<close>

fun name_punctuation :: "nat \<Rightarrow> nat \<Rightarrow> bytes \<Rightarrow> nat option" where
  "name_punctuation n i [] = Some 0"
| "name_punctuation n i (b # bs) =
     (if is_lower b \<or> is_upper b then name_punctuation n (i + 1) bs
      else if (b = 0x2D \<or> b = 0x5F) \<and> i \<noteq> 0 \<and> i \<noteq> n - 1
      then map_option Suc (name_punctuation n (i + 1) bs)
      else None)"

definition valid_character_name :: "bytes \<Rightarrow> bool" where
  "valid_character_name name \<longleftrightarrow>
     D2_NAME_MIN \<le> length name \<and> length name \<le> D2_NAME_MAX \<and>
     (case name_punctuation (length name) 0 name of Some k \<Rightarrow> k \<le> 1 | None \<Rightarrow> False)"

section \<open>Statstrings\<close>

record statstring =
  st_raw :: bytes
  st_product :: "four_cc option"
  st_fields :: "bytes list"

definition stat_parse :: "bytes \<Rightarrow> statstring" where
  "stat_parse raw =
     (let parts = filter (\<lambda>p. p \<noteq> []) (split_on 0x20 raw);
          product = (case parts of
            p # _ \<Rightarrow> if length p = 4 then Some (FourCc (of_be [p ! 3, p ! 2, p ! 1, p ! 0])) else None
          | [] \<Rightarrow> None)
      in \<lparr>st_raw = raw, st_product = product, st_fields = (if product \<noteq> None then tl parts else parts)\<rparr>)"

definition stat_field :: "statstring \<Rightarrow> nat \<Rightarrow> bytes option" where
  "stat_field s i = (if i < length (st_fields s) then Some (st_fields s ! i) else None)"

definition field_u32 :: "statstring \<Rightarrow> nat \<Rightarrow> nat option" where
  "field_u32 s i =
     Option.bind (stat_field s i) (\<lambda>f. if utf8_valid f then parse_uint 32 f else None)"

definition build_default :: "four_cc \<Rightarrow> bytes" where
  "build_default product =
     (let reversed = rev (as_ascii product) in
      if product = WAR3 \<or> product = W3XP then reversed
      else if product = D2DV \<or> product = D2XP then reversed
      else if product = DRTL \<or> product = DSHR then reversed @ ascii '' 1 0 0 30 10 20 25 0 0''
      else reversed @ ascii '' 0 0 0 0 0 0 0 0 '' @ reversed)"

definition D2_TAGS :: "bytes list" where
  "D2_TAGS = [ascii ''VD2D'', ascii ''PX2D'', ascii ''TS2D'']"

definition d2_is_safe :: "bytes \<Rightarrow> bool" where
  "d2_is_safe s \<longleftrightarrow>
     (if length s < 4 then True
      else if take 4 s \<notin> set D2_TAGS then True
      else length s = 4 \<or> 2 \<le> length (filter (\<lambda>b. b = 0x2C) (drop 4 s)))"

record stat_record =
  sr_rating :: u32
  sr_rank :: u32
  sr_wins :: u32
  sr_high_rating :: u32
  sr_iron_rating :: u32
  sr_iron_rank :: u32

definition build_starcraft :: "four_cc \<Rightarrow> stat_record \<Rightarrow> bytes" where
  "build_starcraft product r =
     (let tag = utf8_lossy (rev (as_ascii product)); num = (\<lambda>v. decimal (unat v) @ [0x20]) in
      tag @ [0x20] @ num (sr_rating r) @ num (sr_rank r) @ num (sr_wins r) @ ascii ''0 0 ''
        @ num (sr_high_rating r) @ num (sr_iron_rating r) @ num (sr_iron_rank r) @ tag)"

section \<open>WarCraft III icons\<close>

datatype tier = TierRandom | TierHuman | TierUndead | TierNightElf | TierOrc | TierTournament

fun tier_letter :: "tier \<Rightarrow> u8" where
  "tier_letter TierRandom = 0x52"
| "tier_letter TierHuman = 0x48"
| "tier_letter TierUndead = 0x55"
| "tier_letter TierNightElf = 0x4E"
| "tier_letter TierOrc = 0x4F"
| "tier_letter TierTournament = 0x44"

definition tier_from_letter :: "u8 \<Rightarrow> tier option" where
  "tier_from_letter b =
     (if b = 0x52 then Some TierRandom else if b = 0x48 then Some TierHuman
      else if b = 0x55 then Some TierUndead else if b = 0x4E then Some TierNightElf
      else if b = 0x4F then Some TierOrc else if b = 0x44 then Some TierTournament else None)"

record icon_code =
  ic_level :: u8
  ic_tier :: tier

definition icon_parse :: "four_cc \<Rightarrow> icon_code option" where
  "icon_parse code =
     (let b = as_ascii code in
      if drop 2 b \<noteq> ascii ''3W'' then None
      else if b ! 0 < 0x30 \<or> \<not> (1 \<le> b ! 0 - 0x30 \<and> b ! 0 - 0x30 \<le> 6) then None
      else map_option (\<lambda>t. \<lparr>ic_level = b ! 0 - 0x30, ic_tier = t\<rparr>) (tier_from_letter (b ! 1)))"

definition icon_to_fourcc :: "icon_code \<Rightarrow> four_cc" where
  "icon_to_fourcc c = from_ascii [0x30 + ic_level c, tier_letter (ic_tier c), 0x33, 0x57]"

definition wc3_icon_code :: "statstring \<Rightarrow> four_cc option" where
  "wc3_icon_code s =
     (case stat_field s 0 of
        None \<Rightarrow> None
      | Some raw \<Rightarrow>
          if length raw \<noteq> 4 then None
          else if icon_parse (from_ascii raw) = None then None
          else Some (from_ascii raw))"

section \<open>What is safe to show\<close>

lemma tag_safe: "length t = 4 \<Longrightarrow> d2_is_safe t"
  by (simp add: d2_is_safe_def)

definition D2ST :: four_cc where "D2ST = from_ascii (ascii ''D2ST'')"

lemma tagged_products:
  assumes "take 4 (product_tag product @ s) \<in> set D2_TAGS"
  shows "product = D2DV \<or> product = D2XP \<or> product = D2ST"
proof -
  have take: "take 4 (product_tag product @ s) = rev (as_ascii product)"
    by (simp add: product_tag_def)
  from assms consider "rev (as_ascii product) = ascii ''VD2D''" | "rev (as_ascii product) = ascii ''PX2D''"
    | "rev (as_ascii product) = ascii ''TS2D''"
    unfolding take D2_TAGS_def by auto
  then have "as_ascii product = rev (ascii ''VD2D'') \<or> as_ascii product = rev (ascii ''PX2D'') \<or>
      as_ascii product = rev (ascii ''TS2D'')"
    by cases (simp_all only: rev_swap simp_thms)
  moreover have "rev (ascii ''VD2D'') = ascii ''D2DV''" "rev (ascii ''PX2D'') = ascii ''D2XP''"
    "rev (ascii ''TS2D'') = ascii ''D2ST''" by (simp_all add: ascii_def)
  ultimately have "as_ascii product = ascii ''D2DV'' \<or> as_ascii product = ascii ''D2XP'' \<or>
      as_ascii product = ascii ''D2ST''" by simp
  then have "from_ascii (as_ascii product) = D2DV \<or> from_ascii (as_ascii product) = D2XP \<or>
      from_ascii (as_ascii product) = D2ST"
    unfolding D2DV_def D2XP_def D2ST_def by (elim disjE) simp_all
  then show ?thesis by simp
qed

lemma length_product_tag [simp]: "length (product_tag p) = 4"
  by (simp add: product_tag_def)

lemma build_default_cases:
  obtains "build_default product = product_tag product"
  | s where "product \<noteq> D2DV" and "product \<noteq> D2XP" and "build_default product = product_tag product @ s"
proof (cases "product = WAR3 \<or> product = W3XP \<or> product = D2DV \<or> product = D2XP")
  case True
  then have "build_default product = product_tag product"
    unfolding build_default_def Let_def product_tag_def by (elim disjE) simp_all
  then show thesis by (rule that(1))
next
  case False
  then have "\<exists>s. build_default product = product_tag product @ s"
    unfolding build_default_def Let_def product_tag_def by simp
  with False that(2) show thesis by blast
qed

text \<open>
  The default text is safe for every product the server knows; a client that claims the Japanese
  Diablo II tag \<open>D2ST\<close> gets an unsafe one, which the session refuses.
\<close>

lemma build_default_safe:
  assumes "product \<noteq> D2ST"
  shows "d2_is_safe (build_default product)"
proof (cases rule: build_default_cases [of product])
  case 1
  then show ?thesis by (simp add: tag_safe)
next
  case (2 s)
  with assms tagged_products [of product s] have "take 4 (build_default product) \<notin> set D2_TAGS" by metis
  then show ?thesis by (simp add: d2_is_safe_def)
qed

lemma chat_statstring_safe: "d2_is_safe (chat_statstring p product realm name)"
  by (simp add: d2_is_safe_def chat_statstring_def product_tag_def)

lemma byte_14: "ucast ((v AND 0x7F) OR (0x80 :: u32)) \<noteq> (0 :: u8)"
proof
  assume "ucast ((v AND 0x7F) OR (0x80 :: u32)) = (0 :: u8)"
  then have "bit (ucast ((v AND 0x7F) OR (0x80 :: u32)) :: u8) 7 = bit (0 :: u8) 7" by simp
  then show False by (simp add: bit_simps)
qed

lemma portrait_nonzero:
  assumes "0 \<notin> set header"
  shows "0 \<notin> set (portrait_encode p header)"
proof -
  have c: "min (po_class p) ASSASSIN + 1 \<noteq> 0"
  proof -
    have "unat (min (po_class p) ASSASSIN) \<le> 6" by (simp add: ASSASSIN_def min_def word_le_nat_alt)
    then show ?thesis by (auto simp: unat_word_ariths word_unat_eq_iff)
  qed
  have l: "max 1 (min (po_level p) 99) \<noteq> 0"
    by (auto simp: max_def min_def word_le_nat_alt word_unat_eq_iff)
  from assms c l byte_14 show ?thesis
    by (auto simp: portrait_encode_def push14_def Let_def)
qed

lemma portrait_length: "length header = 2 \<Longrightarrow> length (portrait_encode p header) = PORTRAIT_LEN"
  by (simp add: portrait_encode_def push14_def PORTRAIT_LEN_def Let_def)

text \<open>
  A character's portrait is always 33 bytes, none of them zero, whatever the stored class,
  level and flags, so it survives the C string it travels in; and the text it ends in, for any
  realm and character name, cannot make a Diablo II client copy past a comma.
\<close>

theorem portrait_travels:
  "length (charlist_bytes p n) = PORTRAIT_LEN \<and> 0 \<notin> set (charlist_bytes p n) \<and>
   rd_cstr PORTRAIT_LEN (rd_new (w_cstr (charlist_bytes p n) w_new)) =
     Ok (charlist_bytes p n, \<lparr>rd_buf = charlist_bytes p n @ [0], rd_pos = PORTRAIT_LEN + 1\<rparr>) \<and>
   d2_is_safe (chat_statstring p product realm name)"
proof -
  let ?b = "charlist_bytes p n"
  have nz: "0 \<notin> set ?b"
    using byte_14 by (auto simp: charlist_bytes_def push14_def intro!: portrait_nonzero)
  have len: "length ?b = PORTRAIT_LEN"
    by (simp add: charlist_bytes_def portrait_length push14_def)
  have "find_index (\<lambda>b. b = 0) ?b = None" using nz by (auto simp: find_index_None)
  with len have "find_index (\<lambda>b. b = 0) (?b @ [0]) = Some PORTRAIT_LEN"
    by (simp add: find_index_append)
  then have "rd_cstr PORTRAIT_LEN (rd_new (w_cstr ?b w_new)) =
      Ok (?b, \<lparr>rd_buf = ?b @ [0], rd_pos = PORTRAIT_LEN + 1\<rparr>)"
    using nz len
    by (simp add: rd_cstr_def rd_new_def w_cstr_def w_new_def filter_nonzero_id slice_def)
  with nz len chat_statstring_safe show ?thesis by simp
qed

section \<open>Icon codes\<close>

lemma four_bytes: "length xs = 4 \<Longrightarrow> \<exists>a b c d. xs = [a, b, c, d]"
  by (auto simp: length_Suc_conv numeral_eq_Suc)

lemma tier_letter_iff: "tier_from_letter b = Some t \<longleftrightarrow> b = tier_letter t"
  by (cases t) (auto simp: tier_from_letter_def)

text \<open>
  A WarCraft III icon code and its four characters are two forms of one thing: parsing accepts
  exactly the codes rendering produces for the levels 1 to 6, and gives back what was rendered.
\<close>

theorem icon_code_roundtrip:
  "icon_parse code = Some c \<longleftrightarrow> icon_to_fourcc c = code \<and> 1 \<le> ic_level c \<and> ic_level c \<le> 6"
proof -
  obtain b0 b1 b2 b3 where b: "as_ascii code = [b0, b1, b2, b3]"
    using four_bytes [OF length_as_ascii [of code]] by blast
  have to: "icon_to_fourcc c = code \<longleftrightarrow>
      [0x30 + ic_level c, tier_letter (ic_tier c), 0x33, 0x57] = [b0, b1, b2, b3]"
  proof -
    have "icon_to_fourcc c = code \<longleftrightarrow> as_ascii (icon_to_fourcc c) = as_ascii code"
      by (metis from_ascii_as_ascii)
    then show ?thesis by (simp add: b icon_to_fourcc_def as_ascii_from_ascii)
  qed
  have lev: "b0 < 0x30 \<or> \<not> (1 \<le> b0 - 0x30 \<and> b0 - 0x30 \<le> 6) \<longleftrightarrow>
      \<not> (1 \<le> l \<and> l \<le> 6)" if "b0 = 0x30 + l" for l :: u8
  proof -
    have "\<not> 0x30 + l < 0x30" if "l \<le> 6"
    proof -
      from that have "unat l \<le> 6" by (simp add: word_le_nat_alt)
      then have "unat (0x30 + l) = 48 + unat l" by (subst unat_add_lem [THEN iffD1]) simp_all
      then show ?thesis by (simp add: word_less_nat_alt)
    qed
    then show ?thesis using that by auto
  qed
  show ?thesis
  proof
    assume "icon_parse code = Some c"
    then show "icon_to_fourcc c = code \<and> 1 \<le> ic_level c \<and> ic_level c \<le> 6"
      unfolding to by (auto simp: icon_parse_def b ascii_def tier_letter_iff Let_def split: if_splits)
  next
    assume c: "icon_to_fourcc c = code \<and> 1 \<le> ic_level c \<and> ic_level c \<le> 6"
    then have "b0 = 0x30 + ic_level c" unfolding to by simp
    from lev [OF this] c this show "icon_parse code = Some c"
      unfolding to by (auto simp: icon_parse_def b ascii_def tier_letter_iff Let_def)
  qed
qed

end
