(* ===== verification/Moderation.thy ===== *)
theory Moderation
  imports Node
begin

text \<open>
  \<open>bnetccd/src/moderation.rs\<close>: tag bans, address bans and server-wide mutes, with the flags that
  let the hot checks skip an empty set. The table of address bans is keyed by the address itself
  (the code keys it by the address's text form). Writing the set to its file is not modelled;
  \<open>bans_load\<close> starts from the sets a file gives.
\<close>

record ban_store =
  bs_tags :: "bytes list"
  bs_ip_bans :: "(ip_addr, u64) fmap"
  bs_mutes :: "(bytes, u64) fmap"
  bs_has_tags :: bool
  bs_has_ip_bans :: bool
  bs_has_mutes :: bool

definition refresh_flags :: "ban_store \<Rightarrow> ban_store" where
  "refresh_flags b =
     b\<lparr>bs_has_tags := bs_tags b \<noteq> [], bs_has_ip_bans := bs_ip_bans b \<noteq> fmempty,
       bs_has_mutes := bs_mutes b \<noteq> fmempty\<rparr>"

definition bans_load :: "bytes list \<Rightarrow> (ip_addr, u64) fmap \<Rightarrow> (bytes, u64) fmap \<Rightarrow> ban_store" where
  "bans_load tags ips mutes =
     refresh_flags \<lparr>bs_tags = tags, bs_ip_bans = ips, bs_mutes = mutes, bs_has_tags = False,
       bs_has_ip_bans = False, bs_has_mutes = False\<rparr>"

definition live :: "u64 \<Rightarrow> ('k, u64) fmap \<Rightarrow> ('k, u64) fmap" where
  "live now_ms m = fmfilter (\<lambda>k. case fmlookup m k of Some e \<Rightarrow> now_ms < e | None \<Rightarrow> True) m"

definition prune :: "u64 \<Rightarrow> ban_store \<Rightarrow> ban_store" where
  "prune now_ms b = b\<lparr>bs_ip_bans := live now_ms (bs_ip_bans b), bs_mutes := live now_ms (bs_mutes b)\<rparr>"

definition add_tag :: "bytes \<Rightarrow> ban_store \<Rightarrow> bool \<times> ban_store" where
  "add_tag substring b =
     (let sub = lowercase (trim substring) in
      if sub = [] then (False, b)
      else if sub \<in> set (bs_tags b) then (False, b)
      else (True, refresh_flags (b\<lparr>bs_tags := bs_tags b @ [sub]\<rparr>)))"

definition remove_tag :: "bytes \<Rightarrow> ban_store \<Rightarrow> bool \<times> ban_store" where
  "remove_tag substring b =
     (let sub = lowercase (trim substring);
          kept = filter (\<lambda>t. t \<noteq> sub) (bs_tags b);
          removed = length kept \<noteq> length (bs_tags b);
          b = b\<lparr>bs_tags := kept\<rparr>
      in (removed, if removed then refresh_flags b else b))"

definition is_tag_banned :: "bytes \<Rightarrow> ban_store \<Rightarrow> bool" where
  "is_tag_banned name b \<longleftrightarrow>
     (if \<not> bs_has_tags b then False
      else list_ex (\<lambda>t. has_sub (lowercase name) t) (bs_tags b))"

definition ban_ip :: "ip_addr \<Rightarrow> u64 \<Rightarrow> u64 \<Rightarrow> ban_store \<Rightarrow> ban_store" where
  "ban_ip ip expiry_ms now_ms b =
     (let b = prune now_ms b in
      refresh_flags (b\<lparr>bs_ip_bans := fmupd ip expiry_ms (bs_ip_bans b)\<rparr>))"

definition unban_ip :: "ip_addr \<Rightarrow> u64 \<Rightarrow> ban_store \<Rightarrow> bool \<times> ban_store" where
  "unban_ip ip now_ms b =
     (let b = prune now_ms b in
      (fmlookup (bs_ip_bans b) ip \<noteq> None, refresh_flags (b\<lparr>bs_ip_bans := fmdrop ip (bs_ip_bans b)\<rparr>)))"

definition is_ip_banned :: "ip_addr \<Rightarrow> u64 \<Rightarrow> ban_store \<Rightarrow> bool" where
  "is_ip_banned ip now_ms b \<longleftrightarrow>
     (if \<not> bs_has_ip_bans b then False
      else case fmlookup (bs_ip_bans b) ip of Some e \<Rightarrow> now_ms < e | None \<Rightarrow> False)"

definition mute :: "bytes \<Rightarrow> u64 \<Rightarrow> u64 \<Rightarrow> ban_store \<Rightarrow> ban_store" where
  "mute name expiry_ms now_ms b =
     (let b = prune now_ms b in
      refresh_flags (b\<lparr>bs_mutes := fmupd (lowercase name) expiry_ms (bs_mutes b)\<rparr>))"

definition unmute :: "bytes \<Rightarrow> u64 \<Rightarrow> ban_store \<Rightarrow> bool \<times> ban_store" where
  "unmute name now_ms b =
     (let b = prune now_ms b in
      (fmlookup (bs_mutes b) (lowercase name) \<noteq> None,
       refresh_flags (b\<lparr>bs_mutes := fmdrop (lowercase name) (bs_mutes b)\<rparr>)))"

definition is_muted :: "bytes \<Rightarrow> u64 \<Rightarrow> ban_store \<Rightarrow> bool" where
  "is_muted name now_ms b \<longleftrightarrow>
     (if \<not> bs_has_mutes b then False
      else case fmlookup (bs_mutes b) (lowercase name) of Some e \<Rightarrow> now_ms < e | None \<Rightarrow> False)"

record ban_snapshot =
  sn_tags :: "bytes list"
  sn_ip_bans :: "(ip_addr, u64) fmap"
  sn_mutes :: "(bytes, u64) fmap"

definition ban_snapshot :: "u64 \<Rightarrow> ban_store \<Rightarrow> ban_snapshot" where
  "ban_snapshot now_ms b =
     \<lparr>sn_tags = bs_tags b, sn_ip_bans = live now_ms (bs_ip_bans b), sn_mutes = live now_ms (bs_mutes b)\<rparr>"

section \<open>Any sequence of changes\<close>

datatype ban_op =
    AddTag bytes | RemoveTag bytes | BanIp ip_addr u64 u64 | UnbanIp ip_addr u64
  | Mute bytes u64 u64 | Unmute bytes u64

fun ban_exec :: "ban_op \<Rightarrow> ban_store \<Rightarrow> ban_store" where
  "ban_exec (AddTag s) b = snd (add_tag s b)"
| "ban_exec (RemoveTag s) b = snd (remove_tag s b)"
| "ban_exec (BanIp ip e t) b = ban_ip ip e t b"
| "ban_exec (UnbanIp ip t) b = snd (unban_ip ip t b)"
| "ban_exec (Mute n e t) b = mute n e t b"
| "ban_exec (Unmute n t) b = snd (unmute n t b)"

text \<open>The hot checks' flags are exact after a change, and stay so.\<close>

definition flags_exact :: "ban_store \<Rightarrow> bool" where
  "flags_exact b \<longleftrightarrow> bs_has_tags b = (bs_tags b \<noteq> []) \<and> bs_has_ip_bans b = (bs_ip_bans b \<noteq> fmempty) \<and>
     bs_has_mutes b = (bs_mutes b \<noteq> fmempty)"

lemma flags_exact_refresh [simp]: "flags_exact (refresh_flags b)"
  by (simp add: flags_exact_def refresh_flags_def)

lemma refresh_flags_frame [simp]:
  "bs_tags (refresh_flags b) = bs_tags b" "bs_ip_bans (refresh_flags b) = bs_ip_bans b"
  "bs_mutes (refresh_flags b) = bs_mutes b"
  by (simp_all add: refresh_flags_def)

lemma live_lookup: "fmlookup (live t m) k = (case fmlookup m k of Some e \<Rightarrow> if t < e then Some e else None | None \<Rightarrow> None)"
  by (auto simp: live_def split: option.split)

lemma flags_exact_exec: "flags_exact b \<Longrightarrow> flags_exact (ban_exec x b)"
proof (cases x)
  case (RemoveTag s)
  assume b: "flags_exact b"
  let ?kept = "filter (\<lambda>t. t \<noteq> lowercase (trim s)) (bs_tags b)"
  show ?thesis
  proof (cases "length ?kept = length (bs_tags b)")
    case True
    then have "?kept = bs_tags b" by (metis filter_id_conv length_filter_less nat_neq_iff)
    with True b RemoveTag show ?thesis by (simp add: remove_tag_def Let_def)
  qed (simp add: RemoveTag remove_tag_def Let_def)
qed (auto simp: add_tag_def ban_ip_def unban_ip_def mute_def unmute_def Let_def)

lemma is_ip_banned_exact:
  "flags_exact b \<Longrightarrow> is_ip_banned ip t b \<longleftrightarrow> (\<exists>e. fmlookup (bs_ip_bans b) ip = Some e \<and> t < e)"
  by (auto simp: is_ip_banned_def flags_exact_def split: option.splits)

lemma is_muted_exact:
  "flags_exact b \<Longrightarrow> is_muted n t b \<longleftrightarrow> (\<exists>e. fmlookup (bs_mutes b) (lowercase n) = Some e \<and> t < e)"
  by (auto simp: is_muted_def flags_exact_def split: option.splits)

lemma is_tag_banned_exact:
  "flags_exact b \<Longrightarrow> is_tag_banned n b \<longleftrightarrow> (\<exists>p \<in> set (bs_tags b). has_sub (lowercase n) p)"
  by (auto simp: is_tag_banned_def flags_exact_def list_ex_iff)

lemma flags_exact_run: "flags_exact b \<Longrightarrow> flags_exact (fold ban_exec ops b)"
  by (induction ops arbitrary: b) (simp_all add: flags_exact_exec)

lemma no_empty_tag_exec: "[] \<notin> set (bs_tags b) \<Longrightarrow> [] \<notin> set (bs_tags (ban_exec x b))"
  by (cases x) (auto simp: add_tag_def remove_tag_def ban_ip_def unban_ip_def mute_def unmute_def prune_def Let_def)

lemma no_empty_tag_run: "[] \<notin> set (bs_tags b) \<Longrightarrow> [] \<notin> set (bs_tags (fold ban_exec ops b))"
  by (induction ops arbitrary: b) (simp_all add: no_empty_tag_exec)

text \<open>
  The flags that let the hot checks skip a lock never change an answer: after any sequence of
  bans, mutes and their removals, with any clock readings, a name is refused exactly when it
  contains a listed tag, an address or account exactly when it has an entry not yet expired, and no
  tag is empty, so no tag refuses everyone.
\<close>

theorem ban_checks_exact:
  fixes tags ips mutes
  assumes "[] \<notin> set tags"
  defines "b \<equiv> \<lambda>ops. fold ban_exec ops (bans_load tags ips mutes)"
  shows "(is_tag_banned n (b ops) \<longleftrightarrow> (\<exists>p \<in> set (bs_tags (b ops)). has_sub (lowercase n) p)) \<and>
    (is_ip_banned ip t (b ops) \<longleftrightarrow> (\<exists>e. fmlookup (bs_ip_bans (b ops)) ip = Some e \<and> t < e)) \<and>
    (is_muted n t (b ops) \<longleftrightarrow> (\<exists>e. fmlookup (bs_mutes (b ops)) (lowercase n) = Some e \<and> t < e)) \<and>
    [] \<notin> set (bs_tags (b ops))"
proof -
  have "flags_exact (b ops)" by (simp add: b_def bans_load_def flags_exact_run)
  moreover have "[] \<notin> set (bs_tags (b ops))"
    unfolding b_def by (rule no_empty_tag_run) (simp add: bans_load_def assms(1))
  ultimately show ?thesis
    by (simp add: is_tag_banned_exact is_ip_banned_exact is_muted_exact)
qed

lemma ban_checks_exact_witness:
  "is_ip_banned (V4 [1]) 5 (fold ban_exec [BanIp (V4 [1]) 9 0, AddTag [0x42]] (bans_load [] fmempty fmempty))"
proof -
  have none: "[] \<notin> set ([] :: bytes list)" by simp
  show ?thesis
    using ban_checks_exact [OF none, of "[0x62]" "[BanIp (V4 [1]) 9 0, AddTag [0x42]]" fmempty fmempty "V4 [1]" 5]
    by (simp add: ban_ip_def add_tag_def Let_def prune_def)
qed

text \<open>An address ban outlives every other change until it expires.\<close>

fun op_time :: "ban_op \<Rightarrow> u64 option" where
  "op_time (BanIp _ _ t) = Some t"
| "op_time (UnbanIp _ t) = Some t"
| "op_time (Mute _ _ t) = Some t"
| "op_time (Unmute _ t) = Some t"
| "op_time _ = None"

fun op_about :: "ban_op \<Rightarrow> ip_addr option" where
  "op_about (BanIp ip _ _) = Some ip"
| "op_about (UnbanIp ip _) = Some ip"
| "op_about _ = None"

lemma ban_kept_exec:
  assumes "fmlookup (bs_ip_bans b) ip = Some e" and "op_about x \<noteq> Some ip"
    and "\<And>u. op_time x = Some u \<Longrightarrow> u < e"
  shows "fmlookup (bs_ip_bans (ban_exec x b)) ip = Some e"
  using assms
  by (cases x) (auto simp: add_tag_def remove_tag_def ban_ip_def unban_ip_def mute_def unmute_def prune_def
      Let_def live_lookup)

lemma ban_kept_run:
  assumes "fmlookup (bs_ip_bans b) ip = Some e"
    and "\<forall>x \<in> set ops. op_about x \<noteq> Some ip \<and> (\<forall>u. op_time x = Some u \<longrightarrow> u < e)"
  shows "fmlookup (bs_ip_bans (fold ban_exec ops b)) ip = Some e"
  using assms
proof (induction ops arbitrary: b)
  case (Cons x ops)
  from Cons.prems ban_kept_exec [of b ip e x]
  have "fmlookup (bs_ip_bans (ban_exec x b)) ip = Some e" by auto
  with Cons show ?case by simp
qed simp

lemma ip_ban_lasts:
  assumes "flags_exact b"
    and "\<forall>x \<in> set ops. op_about x \<noteq> Some ip \<and> (\<forall>u. op_time x = Some u \<longrightarrow> u < e)"
  shows "is_ip_banned ip t (fold ban_exec ops (ban_ip ip e now_ms b)) \<longleftrightarrow> t < e"
proof -
  have fl: "flags_exact (ban_ip ip e now_ms b)" using flags_exact_exec [OF assms(1), of "BanIp ip e now_ms"] by simp
  have "fmlookup (bs_ip_bans (ban_ip ip e now_ms b)) ip = Some e" by (simp add: ban_ip_def Let_def)
  from ban_kept_run [OF this assms(2)] is_ip_banned_exact [OF flags_exact_run [OF fl, of ops]] show ?thesis
    by simp
qed

end
