(* ===== verification/Ladder.thy ===== *)
theory Ladder
  imports Text "HOL-Library.Multiset"
begin

text \<open>
  \<open>bnetcc-core/src/ladder.rs\<close>: leagues, results and standings. The rating formula
  (\<open>rating_after\<close>) is floating-point arithmetic with a power function, which the model does not
  define: what uses it takes it as an argument. Ties
  are broken by the lower-cased name; names are ASCII (\<open>validate_account_name\<close>), on which full
  Unicode lower-casing is the ASCII one.
\<close>

datatype league = LeagueNormal | LeagueLadder | LeagueIronMan

definition league_from_code :: "u32 \<Rightarrow> league" where
  "league_from_code code =
     (if code = 1 then LeagueLadder else if code = 3 then LeagueIronMan else LeagueNormal)"

fun league_index :: "league \<Rightarrow> nat" where
  "league_index LeagueNormal = 0"
| "league_index LeagueLadder = 1"
| "league_index LeagueIronMan = 3"

definition START_RATING :: u32 where "START_RATING = 1000"
definition LADDER_MIN_WINS :: u32 where "LADDER_MIN_WINS = 10"
definition MAX_RANK :: nat where "MAX_RANK = 500"

datatype played = PlayedWin | PlayedLoss | PlayedDraw | PlayedDisconnect

datatype sort_method = SortRating | SortClimbers | SortWins | SortGames

definition sort_from_code :: "u32 \<Rightarrow> sort_method" where
  "sort_from_code code =
     (if code = 1 then SortClimbers else if code = 2 then SortWins
      else if code = 3 then SortGames else SortRating)"

record ladder_row =
  lr_name :: bytes
  lr_wins :: u32
  lr_losses :: u32
  lr_disconnects :: u32
  lr_rating :: u32
  lr_high_rating :: u32
  lr_last_game :: u64

definition games_played :: "ladder_row \<Rightarrow> u32" where
  "games_played r = lr_wins r + lr_losses r + lr_disconnects r"

fun sort_value :: "sort_method \<Rightarrow> ladder_row \<Rightarrow> u32" where
  "sort_value SortRating r = lr_rating r"
| "sort_value SortClimbers r = lr_rating r"
| "sort_value SortWins r = lr_wins r"
| "sort_value SortGames r = games_played r"

text \<open>The order of bytes strings compares, and the comparison the sort is given: \<open>a\<close> not after \<open>b\<close>.\<close>

fun bytes_le :: "bytes \<Rightarrow> bytes \<Rightarrow> bool" where
  "bytes_le [] ys = True"
| "bytes_le (x # xs) [] = False"
| "bytes_le (x # xs) (y # ys) = (x < y \<or> x = y \<and> bytes_le xs ys)"

definition ranks_before :: "sort_method \<Rightarrow> ladder_row \<Rightarrow> ladder_row \<Rightarrow> bool" where
  "ranks_before how a b \<longleftrightarrow>
     (if sort_value how a \<noteq> sort_value how b then sort_value how b < sort_value how a
      else if lr_rating a \<noteq> lr_rating b then lr_rating b < lr_rating a
      else bytes_le (lowercase (lr_name a)) (lowercase (lr_name b)))"

text \<open>A stable sort: each row goes before the first row it is not after.\<close>

fun insert_row :: "('a \<Rightarrow> 'a \<Rightarrow> bool) \<Rightarrow> 'a \<Rightarrow> 'a list \<Rightarrow> 'a list" where
  "insert_row le x [] = [x]"
| "insert_row le x (y # ys) = (if le x y then x # y # ys else y # insert_row le x ys)"

definition standings :: "ladder_row list \<Rightarrow> sort_method \<Rightarrow> ladder_row list" where
  "standings rows how =
     take MAX_RANK (foldr (insert_row (ranks_before how)) (filter (\<lambda>r. 0 < games_played r) rows) [])"

definition rank_of :: "ladder_row list \<Rightarrow> bytes \<Rightarrow> nat option" where
  "rank_of rows name = find_index (\<lambda>r. eq_nocase (lr_name r) name) rows"

section \<open>The order is total\<close>

lemma bytes_le_total: "bytes_le a b \<or> bytes_le b a"
  by (induction a b rule: bytes_le.induct) (auto simp: not_less_iff_gr_or_eq)

lemma bytes_le_refl [simp]: "bytes_le a a"
  using bytes_le_total [of a a] by simp

lemma bytes_le_trans: "bytes_le a b \<Longrightarrow> bytes_le b c \<Longrightarrow> bytes_le a c"
proof (induction a b arbitrary: c rule: bytes_le.induct)
  case (3 x xs y ys)
  then show ?case by (cases c) auto
qed simp_all

lemma ranks_before_total: "ranks_before how a b \<or> ranks_before how b a"
  using bytes_le_total by (auto simp: ranks_before_def)

lemma ranks_before_trans: "ranks_before how a b \<Longrightarrow> ranks_before how b c \<Longrightarrow> ranks_before how a c"
  unfolding ranks_before_def by (auto split: if_splits intro: bytes_le_trans)

section \<open>A sorting locale\<close>

locale total_order_on_rows =
  fixes le :: "'a \<Rightarrow> 'a \<Rightarrow> bool"
  assumes total: "le a b \<or> le b a"
    and trans: "le a b \<Longrightarrow> le b c \<Longrightarrow> le a c"
begin

abbreviation arrange :: "'a list \<Rightarrow> 'a list" where
  "arrange xs \<equiv> foldr (insert_row le) xs []"

lemma mset_insert: "mset (insert_row le x xs) = add_mset x (mset xs)"
  by (induction xs) auto

lemma mset_arrange: "mset (arrange xs) = mset xs"
  by (induction xs) (simp_all add: mset_insert)

lemma sorted_insert: "sorted_wrt le xs \<Longrightarrow> sorted_wrt le (insert_row le x xs)"
proof (induction xs)
  case (Cons y ys)
  have set: "set (insert_row le x ys) = insert x (set ys)"
    using mset_insert [of x ys] by (metis set_mset_add_mset_insert set_mset_mset)
  show ?case
  proof (cases "le x y")
    case True
    with Cons.prems show ?thesis by (auto intro: trans)
  next
    case False
    with total [of x y] Cons set show ?thesis by auto
  qed
qed simp

lemma sorted_arrange: "sorted_wrt le (arrange xs)"
  by (induction xs) (simp_all add: sorted_insert)

end

interpretation ladder_order: total_order_on_rows "ranks_before how" for how
  by unfold_locales (use ranks_before_total ranks_before_trans in blast)+

text \<open>
  Standings rank players fairly: every player listed has a game, nobody is listed who was not
  among the records, at most 500 ranks are given, and a player ranked above another is not behind
  it by the chosen order; nobody is left out while a rank is free or a player behind it is listed.
\<close>

theorem standings_fair:
  fixes rows how
  defines "st \<equiv> standings rows how"
  shows "length st \<le> 500 \<and> mset st \<subseteq># mset rows \<and> (\<forall>r \<in> set st. 0 < games_played r) \<and>
    (\<forall>i j. i < j \<and> j < length st \<longrightarrow> sort_value how (st ! j) \<le> sort_value how (st ! i)) \<and>
    (\<forall>r \<in> set rows. 0 < games_played r \<and> r \<notin> set st \<longrightarrow>
       length st = 500 \<and> (\<forall>q \<in> set st. sort_value how r \<le> sort_value how q))"
proof -
  define all where "all = foldr (insert_row (ranks_before how)) (filter (\<lambda>r. 0 < games_played r) rows) []"
  have st: "st = take MAX_RANK all" by (simp add: st_def standings_def all_def)
  have ms: "mset all = mset (filter (\<lambda>r. 0 < games_played r) rows)"
    unfolding all_def by (rule ladder_order.mset_arrange)
  have sorted: "sorted_wrt (ranks_before how) all"
    unfolding all_def by (rule ladder_order.sorted_arrange)
  have set: "set all = {r \<in> set rows. 0 < games_played r}"
    using ms by (metis set_filter set_mset_mset)
  have le: "sort_value how b \<le> sort_value how a" if "ranks_before how a b" for a b
    using that by (auto simp: ranks_before_def split: if_splits)
  have sub: "mset st \<subseteq># mset rows"
  proof -
    have "mset st \<subseteq># mset all"
      unfolding st by (metis append_take_drop_id mset_append mset_subset_eq_add_left)
    also have "\<dots> \<subseteq># mset rows" unfolding ms by simp
    finally show ?thesis .
  qed
  have pos: "\<forall>r \<in> set st. 0 < games_played r"
    using set unfolding st by (auto dest: in_set_takeD)
  have desc: "\<forall>i j. i < j \<and> j < length st \<longrightarrow> sort_value how (st ! j) \<le> sort_value how (st ! i)"
    using sorted unfolding st by (auto simp: sorted_wrt_iff_nth_less intro: le)
  have out: "length st = 500 \<and> (\<forall>q \<in> set st. sort_value how r \<le> sort_value how q)"
    if r: "r \<in> set rows" "0 < games_played r" "r \<notin> set st" for r
  proof -
    have all_eq: "all = st @ drop MAX_RANK all" unfolding st by simp
    with r set have late: "r \<in> set (drop MAX_RANK all)" by (metis (mono_tags) Un_iff mem_Collect_eq set_append)
    then have "MAX_RANK < length all" by (cases "MAX_RANK < length all") auto
    moreover have "ranks_before how q r" if "q \<in> set st" for q
      using sorted all_eq late that by (metis sorted_wrt_append)
    ultimately show ?thesis by (auto simp: st MAX_RANK_def intro: le)
  qed
  show ?thesis using sub pos desc out by (auto simp: st MAX_RANK_def)
qed

definition demo_row :: "bytes \<Rightarrow> u32 \<Rightarrow> u32 \<Rightarrow> ladder_row" where
  "demo_row name wins rating = \<lparr>lr_name = name, lr_wins = wins, lr_losses = 0, lr_disconnects = 0,
     lr_rating = rating, lr_high_rating = rating, lr_last_game = 0\<rparr>"

lemma standings_fair_witness:
  "\<exists>st. st = standings [demo_row [0x61] 1 1016, demo_row [0x62] 0 1000, demo_row [0x63] 2 1031] SortRating \<and>
     length st = 2 \<and> lr_rating (st ! 1) \<le> lr_rating (st ! 0) \<and> rank_of st [0x43] = Some 0"
proof -
  let ?rows = "[demo_row [0x61] 1 1016, demo_row [0x62] 0 1000, demo_row [0x63] 2 1031]"
  have st: "standings ?rows SortRating = [demo_row [0x63] 2 1031, demo_row [0x61] 1 1016]"
    by (simp add: standings_def demo_row_def games_played_def ranks_before_def MAX_RANK_def)
  have "\<forall>i j. i < j \<and> j < length (standings ?rows SortRating) \<longrightarrow>
      sort_value SortRating (standings ?rows SortRating ! j) \<le> sort_value SortRating (standings ?rows SortRating ! i)"
    using standings_fair [of ?rows SortRating] by blast
  then have "sort_value SortRating (standings ?rows SortRating ! 1) \<le> sort_value SortRating (standings ?rows SortRating ! 0)"
    using st by (metis One_nat_def length_Cons less_Suc0 lessI list.size(3) zero_less_Suc)
  with st show ?thesis
    by (intro exI [of _ "standings ?rows SortRating"]) (simp add: rank_of_def demo_row_def eq_nocase_def lower_def is_upper_def)
qed

end
