(* ===== verification/Storage_Actor.thy ===== *)
theory Storage_Actor
  imports Node Ladder Statstring Accounts Nls
begin

text \<open>
  \<open>bnetccd/src/storage.rs\<close>: the storage actor. One thread owns the backend and runs one command at
  a time; each command is a function of the backend's methods and state. A call whose command
  fails replies with the handle's fallback, as it does when the thread is gone. Ending a ladder
  season (which rewrites character files) and the administrator's listing of users are in
  \<open>Storage_Admin\<close>; the texts of backend errors, which go to the log, are left out.
\<close>

section \<open>Types\<close>

definition FLAGS_ATTR :: bytes where "FLAGS_ATTR = backslashed ''System'' ''Flags''"
definition LAST_LOGIN_ATTR :: bytes where "LAST_LOGIN_ATTR = backslashed ''System'' ''LastLogin''"

datatype game_outcome = GameWin | GameLoss | GameDraw | GameDisconnect

definition outcome_from_code :: "u32 \<Rightarrow> game_outcome option" where
  "outcome_from_code code =
     (if code = 1 then Some GameWin else if code = 2 then Some GameLoss
      else if code = 3 then Some GameDraw else if code = 4 then Some GameDisconnect else None)"

fun result_word :: "game_outcome \<Rightarrow> bytes" where
  "result_word GameWin = ascii ''WIN''"
| "result_word GameLoss = ascii ''LOSS''"
| "result_word GameDraw = ascii ''DRAW''"
| "result_word GameDisconnect = ascii ''DISCONNECT''"

fun leaf :: "game_outcome \<Rightarrow> bytes" where
  "leaf GameWin = ascii ''wins''"
| "leaf GameLoss = ascii ''losses''"
| "leaf GameDraw = ascii ''draws''"
| "leaf GameDisconnect = ascii ''disconnects''"

fun as_played :: "game_outcome \<Rightarrow> played" where
  "as_played GameWin = PlayedWin"
| "as_played GameLoss = PlayedLoss"
| "as_played GameDraw = PlayedDraw"
| "as_played GameDisconnect = PlayedDisconnect"

datatype create_account_error = CaNameTaken | CaInvalid bytes | CaBackend

definition to_account :: "account \<Rightarrow> node_account" where
  "to_account a = \<lparr>na_id = a_id a, na_name = a_name a, na_credential = a_credential a\<rparr>"

section \<open>Accounts\<close>

definition act_account_by_name :: "'s storage_ops \<Rightarrow> bytes \<Rightarrow> 's \<Rightarrow> node_account option \<times> 's" where
  "act_account_by_name ops name s =
     (let (r, s) = so_account_by_name ops name s in
      (case r of Ok (Some a) \<Rightarrow> Some (to_account a) | _ \<Rightarrow> None, s))"

definition act_create_account :: "'s storage_ops \<Rightarrow> bytes \<Rightarrow> credential \<Rightarrow> u64 \<Rightarrow> 's \<Rightarrow>
    (create_account_error, node_account) outcome \<times> 's" where
  "act_create_account ops name cred now s =
     (let (r, s) = so_create_account ops
            \<lparr>n_name = name, n_credential = cred, n_created_at = now, n_attrs = fmempty\<rparr> s in
      (case r of
         Ok a \<Rightarrow> Ok (to_account a)
       | Err NameTaken \<Rightarrow> Err CaNameTaken
       | Err (InvalidName why) \<Rightarrow> Err (CaInvalid why)
       | _ \<Rightarrow> Err CaBackend, s))"

definition act_delete_user :: "'s storage_ops \<Rightarrow> account_id \<Rightarrow> 's \<Rightarrow> bool \<times> 's" where
  "act_delete_user ops i s =
     (let (r, s) = so_delete_account ops i s in (r = Ok (), s))"

text \<open>
  The new credential has the family the account has. The salt is random in the code and an
  argument here, as is the SHA-1 the verifier is made with.
\<close>

definition act_reset_password :: "'s storage_ops \<Rightarrow> (bytes \<Rightarrow> bytes) \<Rightarrow> bytes \<Rightarrow> account_id \<Rightarrow> bytes \<Rightarrow>
    's \<Rightarrow> bool \<times> 's" where
  "act_reset_password ops sha1 salt i password s =
     (let (r, s) = so_account_by_id ops i s in
      (case r of
         Ok (Some a) \<Rightarrow>
           let cred = (case a_credential a of
                 CredXsha1 _ \<Rightarrow> CredXsha1 (password_hash password)
               | CredSrp _ _ \<Rightarrow> CredSrp salt (verifier sha1 (fst (split_realm (a_name a))) password salt));
               (r, s) = so_set_credential ops i cred s
           in (r = Ok (), s)
       | _ \<Rightarrow> (False, s)))"

section \<open>Attributes\<close>

definition act_read_readable_attrs :: "'s storage_ops \<Rightarrow> bytes \<Rightarrow> attr_key list \<Rightarrow> 's \<Rightarrow> attr_map \<times> 's" where
  "act_read_readable_attrs ops name ks s =
     (let (r, s) = so_account_by_name ops name s in
      (case r of
         Ok (Some a) \<Rightarrow>
           let (m, s) = so_attrs_get ops (a_id a) ks s in
           (case m of
              Ok attrs \<Rightarrow> (filter_readable schema_default attrs ActorOther (a_id a), s)
            | _ \<Rightarrow> (fmempty, s))
       | _ \<Rightarrow> (fmempty, s)))"

definition act_user_flags :: "'s storage_ops \<Rightarrow> account_id \<Rightarrow> 's \<Rightarrow> u32 \<times> 's" where
  "act_user_flags ops i s =
     (let key = key_new FLAGS_ATTR; (r, s) = so_attrs_get ops i [key] s in
      (case r of
         Ok m \<Rightarrow> (case Option.bind (fmlookup m key) (parse_uint 32) of Some v \<Rightarrow> word_of_nat v | None \<Rightarrow> 0)
       | _ \<Rightarrow> 0, s))"

definition act_set_user_flags :: "'s storage_ops \<Rightarrow> account_id \<Rightarrow> u32 \<Rightarrow> 's \<Rightarrow> bool \<times> 's" where
  "act_set_user_flags ops i flags s =
     (let (r, s) = so_attrs_put ops i (fmupd (key_new FLAGS_ATTR) (decimal (unat flags)) fmempty) s
      in (r = Ok (), s))"

definition act_record_login :: "'s storage_ops \<Rightarrow> account_id \<Rightarrow> u64 \<Rightarrow> 's \<Rightarrow> 's" where
  "act_record_login ops i when s =
     snd (so_attrs_put ops i (fmupd (key_new LAST_LOGIN_ATTR) (decimal (unat when)) fmempty) s)"

section \<open>Game records\<close>

text \<open>\<open>Record\<close>, the product, the league's index and the counter, joined by backslashes.\<close>

definition record_key :: "bytes \<Rightarrow> nat \<Rightarrow> bytes \<Rightarrow> attr_key" where
  "record_key product n lf =
     key_new (ascii ''Record'' @ [BACKSLASH] @ product @ [BACKSLASH] @ decimal n @ [BACKSLASH] @ lf)"

definition stored_number :: "attr_map \<Rightarrow> attr_key \<Rightarrow> nat option" where
  "stored_number m k = Option.bind (fmlookup m k) (parse_uint 64)"

definition sat_succ :: "nat \<Rightarrow> nat" where
  "sat_succ n = min (n + 1) (2 ^ 64 - 1)"

definition act_record_game :: "'s storage_ops \<Rightarrow> account_id \<Rightarrow> bytes \<Rightarrow> game_outcome \<Rightarrow> 's \<Rightarrow>
    nat option \<times> 's" where
  "act_record_game ops i product out s =
     (let key = record_key product 0 (leaf out); (r, s) = so_attrs_get ops i [key] s in
      (case r of
         Ok m \<Rightarrow>
           let next = sat_succ (case stored_number m key of Some n \<Rightarrow> n | None \<Rightarrow> 0);
               (w, s) = so_attrs_put ops i (fmupd key (decimal next) fmempty) s
           in (if w = Ok () then Some next else None, s)
       | _ \<Rightarrow> (None, s)))"

definition act_record_ladder_game :: "'s storage_ops \<Rightarrow> (u32 \<Rightarrow> u32 \<Rightarrow> played \<Rightarrow> u32) \<Rightarrow> account_id \<Rightarrow>
    bytes \<Rightarrow> league \<Rightarrow> game_outcome \<Rightarrow> u32 \<Rightarrow> u64 \<Rightarrow> 's \<Rightarrow> (u32 \<times> u32) option \<times> 's" where
  "act_record_ladder_game ops rating_after i product lg out opponent now s =
     (let key = record_key product (league_index lg);
          k0 = key (leaf out); k1 = key (ascii ''rating''); k2 = key (ascii ''high rating'');
          (r, s) = so_attrs_get ops i [k0, k1, k2] s in
      (case r of
         Ok m \<Rightarrow>
           let count = sat_succ (case stored_number m k0 of Some n \<Rightarrow> n | None \<Rightarrow> 0);
               rating = (case stored_number m k1 of Some n \<Rightarrow> word_of_nat n | None \<Rightarrow> START_RATING);
               next = rating_after rating opponent (as_played out);
               high = max (case stored_number m k2 of Some n \<Rightarrow> word_of_nat n | None \<Rightarrow> START_RATING) next;
               put = fold (\<lambda>(k, v). fmupd k v)
                 [(k0, decimal count), (k1, decimal (unat next)), (k2, decimal (unat high)),
                  (key (ascii ''last game''), decimal (unat now)),
                  (key (ascii ''last game result''), result_word out)] fmempty;
               (w, s) = so_attrs_put ops i put s
           in (if w = Ok () then Some (rating, next) else None, s)
       | _ \<Rightarrow> (None, s)))"

text \<open>
  Walking through all accounts, in pages of 500, until the first empty page or an error; fuel
  bounds the number of pages. Each account is visited before the next page is read.
\<close>

fun visit_page :: "(account \<Rightarrow> 's \<Rightarrow> 'r list \<times> 's) \<Rightarrow> account list \<Rightarrow> 's \<Rightarrow> 'r list \<times> 's" where
  "visit_page f [] s = ([], s)"
| "visit_page f (a # as) s =
     (let (r, s) = f a s; (rs, s) = visit_page f as s in (r @ rs, s))"

fun walk_accounts :: "nat \<Rightarrow> 's storage_ops \<Rightarrow> (account \<Rightarrow> 's \<Rightarrow> 'r list \<times> 's) \<Rightarrow> u64 \<Rightarrow> 's \<Rightarrow>
    'r list option \<times> 's" where
  "walk_accounts 0 ops f offset s = (None, s)"
| "walk_accounts (Suc fuel) ops f offset s =
     (let (r, s) = so_list_accounts ops offset 500 s in
      (case r of
         Ok page \<Rightarrow>
           if page = [] then (Some [], s)
           else
             let (rs, s) = visit_page f page s;
                 (rest, s) = walk_accounts fuel ops f (offset + word_of_nat (length page)) s
             in (map_option (\<lambda>xs. rs @ xs) rest, s)
       | _ \<Rightarrow> (Some [], s)))"

definition ladder_row_of :: "account \<Rightarrow> (string \<Rightarrow> nat option) \<Rightarrow> ladder_row" where
  "ladder_row_of a get =
     (let num = (\<lambda>lf d. case get lf of Some n \<Rightarrow> word_of_nat n | None \<Rightarrow> d) in
      \<lparr>lr_name = a_name a, lr_wins = num ''wins'' 0, lr_losses = num ''losses'' 0,
       lr_disconnects = num ''disconnects'' 0, lr_rating = num ''rating'' START_RATING,
       lr_high_rating = num ''high rating'' START_RATING,
       lr_last_game = (case get ''last game'' of Some n \<Rightarrow> word_of_nat n | None \<Rightarrow> 0)\<rparr>)"

definition ladder_visit :: "'s storage_ops \<Rightarrow> bytes \<Rightarrow> league \<Rightarrow> account \<Rightarrow> 's \<Rightarrow> ladder_row list \<times> 's" where
  "ladder_visit ops product lg a s =
     (let key = (\<lambda>l. record_key product (league_index lg) (ascii l));
          (r, s) = so_attrs_get ops (a_id a)
            (map key [''wins'', ''losses'', ''disconnects'', ''rating'', ''high rating'', ''last game'']) s
      in (case r of
            Ok m \<Rightarrow>
              let row = ladder_row_of a (\<lambda>l. stored_number m (key l)) in
              if 0 < games_played row then [row] else []
          | _ \<Rightarrow> [], s))"

definition act_ladder_rows :: "nat \<Rightarrow> 's storage_ops \<Rightarrow> bytes \<Rightarrow> league \<Rightarrow> 's \<Rightarrow> ladder_row list option \<times> 's" where
  "act_ladder_rows fuel ops product lg s = walk_accounts fuel ops (ladder_visit ops product lg) 0 s"

definition act_all_characters :: "nat \<Rightarrow> 's storage_ops \<Rightarrow> 's \<Rightarrow> d2_character list option \<times> 's" where
  "act_all_characters fuel ops s =
     walk_accounts fuel ops (\<lambda>a s. let (r, s) = so_characters ops (a_id a) s in
       (case r of Ok cs \<Rightarrow> cs | _ \<Rightarrow> [], s)) 0 s"

section \<open>Characters\<close>

definition act_characters :: "'s storage_ops \<Rightarrow> account_id \<Rightarrow> 's \<Rightarrow> d2_character list option \<times> 's" where
  "act_characters ops i s =
     (let (r, s) = so_characters ops i s in (case r of Ok cs \<Rightarrow> Some cs | _ \<Rightarrow> None, s))"

definition act_character_by_name :: "'s storage_ops \<Rightarrow> bytes \<Rightarrow> 's \<Rightarrow> d2_character option \<times> 's" where
  "act_character_by_name ops name s =
     (let (r, s) = so_character_by_name ops name s in (case r of Ok c \<Rightarrow> c | _ \<Rightarrow> None, s))"

datatype create_character_error = CcNameTaken | CcBackend

definition act_create_character :: "'s storage_ops \<Rightarrow> d2_character \<Rightarrow> 's \<Rightarrow>
    (create_character_error, unit) outcome \<times> 's" where
  "act_create_character ops ch s =
     (let (r, s) = so_create_character ops ch s in
      (case r of Ok u \<Rightarrow> Ok u | Err NameTaken \<Rightarrow> Err CcNameTaken | _ \<Rightarrow> Err CcBackend, s))"

definition act_update_character :: "'s storage_ops \<Rightarrow> d2_character \<Rightarrow> 's \<Rightarrow> bool option \<times> 's" where
  "act_update_character ops ch s =
     (let (r, s) = so_update_character ops ch s in (case r of Ok b \<Rightarrow> Some b | _ \<Rightarrow> None, s))"

definition act_delete_character :: "'s storage_ops \<Rightarrow> account_id \<Rightarrow> bytes \<Rightarrow> 's \<Rightarrow> bool option \<times> 's" where
  "act_delete_character ops i name s =
     (let (r, s) = so_delete_character ops i name s in (case r of Ok b \<Rightarrow> Some b | _ \<Rightarrow> None, s))"

section \<open>On the reference backend\<close>

abbreviation all_accounts :: "memory_storage \<Rightarrow> account list" where
  "all_accounts s \<equiv> map (\<lambda>i. the (fmlookup (ms_accounts s) i)) (sorted_list_of_fset (fmdom (ms_accounts s)))"

lemma map_filter_dom: "set is \<subseteq> fset (fmdom m) \<Longrightarrow>
    List.map_filter (fmlookup m) is = map (\<lambda>i. the (fmlookup m i)) is"
  by (induction "is") (auto simp: List.map_filter_simps fmlookup_dom_iff)

lemma mem_page: "so_list_accounts memory_ops off 500 s = (Ok (take 500 (drop (unat off) (all_accounts s))), s)"
proof -
  let ?ids = "sorted_list_of_fset (fmdom (ms_accounts s))"
  have "set (take 500 (drop (unat off) ?ids)) \<subseteq> fset (fmdom (ms_accounts s))"
    by (auto dest!: in_set_takeD in_set_dropD)
  from map_filter_dom [OF this] show ?thesis
    by (simp add: memory_ops_def mem_list_accounts_def take_map drop_map)
qed

lemma visit_page_pure:
  assumes "\<And>a. snd (f a s) = s"
  shows "visit_page f as s = (concat (map (\<lambda>a. fst (f a s)) as), s)"
proof (induction as)
  case (Cons a as)
  have "f a s = (fst (f a s), s)" by (simp add: prod_eq_iff assms)
  then obtain r where "f a s = (r, s)" by blast
  with Cons show ?case by simp
qed simp

declare walk_accounts.simps [simp del]

lemma walk_step:
  assumes "\<And>a. snd (f a s) = s"
  shows "walk_accounts (Suc n) memory_ops f off s =
    (let page = take 500 (drop (unat off) (all_accounts s)) in
     if page = [] then (Some [], s)
     else case walk_accounts n memory_ops f (off + word_of_nat (length page)) s of
       (rest, t) \<Rightarrow> (map_option (\<lambda>xs. concat (map (\<lambda>a. fst (f a s)) page) @ xs) rest, t))"
  by (simp only: walk_accounts.simps mem_page visit_page_pure [where f = f and s = s, OF assms] Let_def prod.case outcome.case
      split: if_split)

text \<open>A page more than the full ones, and one for the empty page, are enough fuel; the walk then
  visits every account once.\<close>

lemma walk_all:
  assumes pure: "\<And>a. snd (f a s) = s" and small: "length (all_accounts s) < 2 ^ 64"
  shows "k \<le> length (all_accounts s) \<Longrightarrow> length (all_accounts s) \<le> 500 * n + k \<Longrightarrow>
    walk_accounts (Suc n) memory_ops f (word_of_nat k) s =
      (Some (concat (map (\<lambda>a. fst (f a s)) (drop k (all_accounts s)))), s)"
proof (induction n arbitrary: k)
  case 0
  then have "k = length (all_accounts s)" by simp
  moreover from this small have "unat (word_of_nat k :: u64) = k" by (simp add: unat_of_nat)
  ultimately show ?case by (simp only: walk_step [where f = f and s = s, OF pure] drop_all order_refl) simp
next
  case (Suc n)
  define as where "as = all_accounts s"
  have unat: "unat (word_of_nat k :: u64) = k"
    using Suc.prems small by (simp add: unat_of_nat)
  define page where "page = take 500 (drop k as)"
  show ?case
  proof (cases "page = []")
    case True
    then have "drop k as = []" by (simp add: page_def)
    moreover from True have "walk_accounts (Suc (Suc n)) memory_ops f (word_of_nat k) s = (Some [], s)"
      by (simp add: walk_step [where f = f and s = s, OF pure, of "Suc n"] unat Let_def page_def flip: as_def)
    ultimately show ?thesis by (simp flip: as_def)
  next
    case False
    have off: "word_of_nat k + word_of_nat (length page) = (word_of_nat (k + length page) :: u64)"
      by simp
    have rest: "walk_accounts (Suc n) memory_ops f (word_of_nat (k + length page)) s =
        (Some (concat (map (\<lambda>a. fst (f a s)) (drop (k + length page) as))), s)"
      unfolding as_def using Suc.prems False
      by (intro Suc.IH) (auto simp: page_def as_def min_def)
    have split: "drop k as = page @ drop (k + length page) as"
    proof -
      have "take (length page) (drop k as) = page" by (simp add: page_def min_def)
      then show ?thesis by (metis append_take_drop_id drop_drop add.commute)
    qed
    have "walk_accounts (Suc (Suc n)) memory_ops f (word_of_nat k) s =
        (Some (concat (map (\<lambda>a. fst (f a s)) page) @ concat (map (\<lambda>a. fst (f a s)) (drop (k + length page) as))), s)"
      using False rest off unat
      by (simp only: walk_step [where f = f and s = s and n = "Suc n" and off = "word_of_nat k", OF pure] Let_def
          if_False prod.case option.map flip: as_def page_def)
    moreover have "concat (map (\<lambda>a. fst (f a s)) (drop k as)) =
        concat (map (\<lambda>a. fst (f a s)) page) @ concat (map (\<lambda>a. fst (f a s)) (drop (k + length page) as))"
      by (subst split) (simp only: map_append concat_append)
    ultimately show ?thesis by (simp only: flip: as_def)
  qed
qed

end
