(* ===== verification/Ads.thy ===== *)
theory Ads
  imports Proto_Types
begin

text \<open>
  \<open>bnetcc-core/src/ads.rs\<close>: the banner rotation. The cursor is the client's: the next banner is a
  function of the one it shows.
\<close>

record ad_banner =
  ad_id :: u32
  ad_filename :: bytes
  ad_url :: bytes
  ad_product :: "four_cc option"
  ad_language :: "four_cc option"

definition ad_matches :: "ad_banner \<Rightarrow> four_cc \<Rightarrow> four_cc option \<Rightarrow> bool" where
  "ad_matches b product language \<longleftrightarrow>
     (case ad_product b of None \<Rightarrow> True | Some want \<Rightarrow> want = product) \<and>
     (case ad_language b of
        None \<Rightarrow> True
      | Some want \<Rightarrow> (case language of Some got \<Rightarrow> want = got | None \<Rightarrow> False))"

type_synonym ad_rotation = "ad_banner list"

definition rotation_new :: "ad_banner list \<Rightarrow> ad_rotation" where
  "rotation_new banners = map (\<lambda>(i, b). b\<lparr>ad_id := word_of_nat i + 1\<rparr>) (enumerate 0 banners)"

definition ad_by_id :: "ad_rotation \<Rightarrow> u32 \<Rightarrow> ad_banner option" where
  "ad_by_id r i = find (\<lambda>b. ad_id b = i) r"

definition is_random_product :: "four_cc \<Rightarrow> bool" where
  "is_random_product p \<longleftrightarrow> p = WAR3 \<or> p = W3XP"

definition ad_next :: "ad_rotation \<Rightarrow> four_cc \<Rightarrow> four_cc option \<Rightarrow> u32 \<Rightarrow> u64 \<Rightarrow> ad_banner option" where
  "ad_next r product language previous seed =
     (let candidates = filter (\<lambda>b. ad_matches b product language) r in
      if candidates = [] then None
      else if is_random_product product then Some (candidates ! (unat seed mod length candidates))
      else
        let next = (case find_index (\<lambda>b. ad_id b = previous) candidates of
                      Some i \<Rightarrow> if i + 1 < length candidates then i + 1 else 0
                    | None \<Rightarrow> 0)
        in Some (candidates ! next))"

section \<open>The rotation shows every banner in turn\<close>

lemma ad_next_matches:
  assumes "ad_next r product language previous seed = Some b"
  shows "b \<in> set r" and "ad_matches b product language"
proof -
  define c where "c = filter (\<lambda>b. ad_matches b product language) r"
  have "b \<in> set c"
    using assms unfolding ad_next_def Let_def c_def [symmetric]
    by (auto split: if_splits option.splits intro!: nth_mem)
  then have "b \<in> set r \<and> ad_matches b product language" by (simp add: c_def)
  then show "b \<in> set r" "ad_matches b product language" by auto
qed

lemma rotation_ids:
  assumes "length banners < 2 ^ 32 - 1"
  shows "distinct (map ad_id (rotation_new banners))" and "0 \<notin> ad_id ` set (rotation_new banners)"
proof -
  have ids: "map ad_id (rotation_new banners) = map (\<lambda>i. word_of_nat (i + 1)) [0..<length banners]"
    by (rule nth_equalityI) (simp_all add: rotation_new_def nth_enumerate_eq)
  have un: "unat (word_of_nat (Suc i) :: u32) = Suc i" if "i < length banners" for i
    using assms that by (simp add: unat_of_nat del: of_nat_Suc of_nat_add)
  show "distinct (map ad_id (rotation_new banners))"
    unfolding ids distinct_map inj_on_def by (auto dest!: arg_cong [where f = unat] simp: un simp del: of_nat_Suc of_nat_add)
  have "0 \<notin> set (map ad_id (rotation_new banners))"
    unfolding ids by (auto dest!: arg_cong [where f = unat] simp: un simp del: of_nat_Suc of_nat_add)
  then show "0 \<notin> ad_id ` set (rotation_new banners)" by simp
qed

lemma ad_next_cycles:
  assumes "distinct (map ad_id r)" and "\<not> is_random_product product"
    and "filter (\<lambda>b. ad_matches b product language) r = c" and "i < length c"
  shows "ad_next r product language (ad_id (c ! i)) seed = Some (c ! (if i + 1 < length c then i + 1 else 0))"
proof -
  have "distinct (map ad_id c)" using assms(1,3) by (auto intro: distinct_map_filter)
  then have "find_index (\<lambda>b. ad_id b = ad_id (c ! i)) c = Some i"
    using assms(4) by (auto simp: find_index_Some_iff distinct_conv_nth)
  with assms show ?thesis by (auto simp: ad_next_def Let_def)
qed

end
