(* ===== verification/Bnftp.thy ===== *)
theory Bnftp
  imports Chat
begin

text \<open>
  \<open>bnetcc-proto/src/bnftp.rs\<close>: the file-transfer requests and headers, and the guard on the names
  an unauthenticated peer may ask for.
\<close>

definition VERSION_1 :: u16 where "VERSION_1 = 0x0100"
definition VERSION_2 :: u16 where "VERSION_2 = 0x0200"
definition MAX_FILENAME :: nat where "MAX_FILENAME = 260"
definition MAX_REQUEST :: nat where "MAX_REQUEST = 512"
definition V2_CHALLENGE_FIXED :: nat where "V2_CHALLENGE_FIXED = 52"

record ftp_request =
  fq_version :: u16
  fq_platform :: four_cc
  fq_product :: four_cc
  fq_ad_id :: u32
  fq_ad_extension :: u32
  fq_start :: u32
  fq_filetime :: u64
  fq_filename :: bytes

record ftp_header =
  fh_kind :: u16
  fh_file_size :: u32
  fh_ad_id :: u32
  fh_ad_extension :: u32
  fh_filetime :: u64
  fh_filename :: bytes

section \<open>Requests\<close>

definition v1_fields :: "ftp_request rd" where
  "v1_fields =
     rd_bind rd_u16 (\<lambda>version. rd_bind rd_fourcc (\<lambda>platform. rd_bind rd_fourcc (\<lambda>product.
     rd_bind rd_u32 (\<lambda>ad_id. rd_bind rd_u32 (\<lambda>ext. rd_bind rd_u32 (\<lambda>start.
     rd_bind rd_u64 (\<lambda>filetime. rd_bind (rd_cstr MAX_FILENAME) (\<lambda>filename.
     rd_return \<lparr>fq_version = version, fq_platform = platform, fq_product = product, fq_ad_id = ad_id,
       fq_ad_extension = ext, fq_start = start, fq_filetime = filetime, fq_filename = filename\<rparr>))))))))"

text \<open>\<open>r.u32().unwrap_or(0)\<close>: a read that fails leaves the reader where it was.\<close>

definition rd_u32_or_zero :: "u32 rd" where
  "rd_u32_or_zero r = (case rd_u32 r of Err _ \<Rightarrow> Ok (0, r) | x \<Rightarrow> x)"

definition v2_fields :: "(four_cc \<times> four_cc \<times> u32 \<times> u32) rd" where
  "v2_fields =
     rd_bind rd_fourcc (\<lambda>platform. rd_bind rd_fourcc (\<lambda>product.
     rd_bind rd_u32_or_zero (\<lambda>ad_id. rd_bind rd_u32_or_zero (\<lambda>ext.
     rd_return (platform, product, ad_id, ext)))))"

definition decode_request :: "bytes \<Rightarrow> ftp_request option proto_result" where
  "decode_request buf =
     (if length buf < 4 then Ok None
      else
        let declared = unat (of_le (take 2 buf) :: u16) in
        if declared > MAX_REQUEST then Err (FrameTooLarge declared MAX_REQUEST)
        else
          let version = (of_le (take 2 (drop 2 buf)) :: u16) in
          if version = VERSION_2 then
            if declared < 12 then Err (FrameTooLarge declared MAX_REQUEST)
            else if length buf < declared then Ok None
            else
              obind (slice 4 declared buf) (\<lambda>head.
              obind (v2_fields (rd_new head)) (\<lambda>((platform, product, ad_id, ext), _).
              obind (slice declared (length buf) buf) (\<lambda>rest.
              let filename = (case find_index (\<lambda>b. b = 0) rest of Some nul \<Rightarrow> take nul rest | None \<Rightarrow> []) in
              if length filename > MAX_FILENAME then Err (FrameTooLarge (length filename) MAX_FILENAME)
              else Ok (Some \<lparr>fq_version = version, fq_platform = platform, fq_product = product,
                fq_ad_id = ad_id, fq_ad_extension = ext, fq_start = 0, fq_filetime = 0,
                fq_filename = filename\<rparr>))))
          else if declared < 24 \<or> declared > MAX_REQUEST then Err (FrameTooLarge declared MAX_REQUEST)
          else if length buf < declared then Ok None
          else obind (slice 2 declared buf) (\<lambda>body.
               obind (v1_fields (rd_new body)) (\<lambda>(req, _). Ok (Some req))))"

definition request_body :: "ftp_request \<Rightarrow> bytes" where
  "request_body req =
     w_chain [w_u16 (fq_version req), w_fourcc (fq_platform req), w_fourcc (fq_product req),
       w_u32 (fq_ad_id req), w_u32 (fq_ad_extension req), w_u32 (fq_start req),
       w_u64 (fq_filetime req), w_cstr (fq_filename req)]"

definition encode_request :: "ftp_request \<Rightarrow> bytes" where
  "encode_request req =
     (let body = request_body req in le16 (word_of_nat (length body + 2)) @ body)"

definition decode_v2_challenge_filename :: "bytes \<Rightarrow> bytes option proto_result" where
  "decode_v2_challenge_filename buf =
     (if length buf < V2_CHALLENGE_FIXED then Ok None
      else obind (slice V2_CHALLENGE_FIXED (length buf) buf) (\<lambda>rest.
        case find_index (\<lambda>b. b = 0) rest of
          Some nul \<Rightarrow>
            if nul > MAX_FILENAME then Err (FrameTooLarge nul MAX_FILENAME) else Ok (Some (take nul rest))
        | None \<Rightarrow> Ok None))"

section \<open>Responses\<close>

definition encode_response_header :: "ftp_header \<Rightarrow> bytes" where
  "encode_response_header h =
     (let body = w_chain [w_u16 (fh_kind h), w_u32 (fh_file_size h), w_u32 (fh_ad_id h),
            w_u32 (fh_ad_extension h), w_u64 (fh_filetime h), w_cstr (fh_filename h)]
      in le16 (word_of_nat (length body + 2)) @ body)"

definition encode_response_header_v2 :: "ftp_header \<Rightarrow> bytes" where
  "encode_response_header_v2 h =
     (let body = w_chain [w_u32 (fh_file_size h), w_u32 (fh_ad_id h), w_u32 (fh_ad_extension h),
            w_u64 (fh_filetime h), w_cstr (fh_filename h)];
          n = length body + 4
      in le32 (if n < 2 ^ 32 then word_of_nat n else - 1) @ body)"

section \<open>Names\<close>

definition sanitize_filename :: "bytes \<Rightarrow> bytes option" where
  "sanitize_filename raw =
     (if raw = [] \<or> length raw > MAX_FILENAME then None
      else if \<not> utf8_valid raw then None
      else if list_ex (\<lambda>b. b < 0x20 \<or> b = 0x7F) raw then None
      else if 0x2F \<in> set raw \<or> 0x5C \<in> set raw then None
      else if has_sub raw [0x2E, 0x2E] \<or> starts_with raw [0x2E] then None
      else if 0x3A \<in> set raw then None
      else if ends_with raw [0x2E] \<or> ends_with raw [0x20] then None
      else Some raw)"

definition extension_smk :: four_cc where "extension_smk = from_ascii (ascii ''kms.'')"
definition extension_mng :: four_cc where "extension_mng = from_ascii (ascii ''gnm.'')"
definition extension_pcx :: four_cc where "extension_pcx = from_ascii (ascii ''xcp.'')"

definition for_filename :: "bytes \<Rightarrow> four_cc option" where
  "for_filename name =
     (let ext = lowercase (rev (takeWhile (\<lambda>b. b \<noteq> 0x2E) (rev name))) in
      if ext = ascii ''smk'' then Some extension_smk
      else if ext = ascii ''mng'' \<or> ext = ascii ''png'' then Some extension_mng
      else if ext = ascii ''pcx'' then Some extension_pcx
      else None)"

section \<open>No name leaves the served directory\<close>

lemma takeWhile_whole: "x \<notin> set s \<Longrightarrow> takeWhile (\<lambda>b. b \<noteq> x) s = s"
  by (induction s) auto

text \<open>The components of a path, cut at either separator.\<close>

fun path_parts :: "bytes \<Rightarrow> bytes list" where
  "path_parts [] = [[]]"
| "path_parts (b # bs) =
     (if b = 0x2F \<or> b = 0x5C then [] # path_parts bs
      else (case path_parts bs of p # ps \<Rightarrow> (b # p) # ps | [] \<Rightarrow> [[b]]))"

lemma path_parts_single: "0x2F \<notin> set s \<Longrightarrow> 0x5C \<notin> set s \<Longrightarrow> path_parts s = [s]"
  by (induction s) auto

lemma path_parts_ne: "path_parts s \<noteq> []"
  by (induction s) (auto split: list.split)

lemma ends_with_last: "s \<noteq> [] \<Longrightarrow> ends_with s [c] \<longleftrightarrow> last s = c"
  by (cases s rule: rev_cases) (auto simp: ends_with_def)

lemma path_parts_join: "path_parts (d @ [0x2F] @ s) = path_parts d @ path_parts s"
proof (induction d)
  case (Cons b d)
  obtain p ps where "path_parts d = p # ps" using path_parts_ne [of d] by (cases "path_parts d") auto
  with Cons show ?case by simp
qed simp

text \<open>
  C20. A file name the guard lets through adds exactly one component to the directory it is joined
  to, and that component is neither empty nor a reference to the directory or its parent; it holds
  no control byte and no drive letter, ends in no byte a file system strips, and is what the peer
  sent.
\<close>

theorem served_name_stays_inside:
  assumes "sanitize_filename raw = Some name"
  shows "name = raw \<and> path_parts (dir @ [0x2F] @ name) = path_parts dir @ [name] \<and>
    name \<notin> {[], [0x2E], [0x2E, 0x2E]} \<and> length name \<le> 260 \<and> utf8_valid name \<and>
    (\<forall>b \<in> set name. 0x20 \<le> b \<and> b \<noteq> 0x7F \<and> b \<noteq> 0x3A \<and> b \<noteq> 0x2F \<and> b \<noteq> 0x5C) \<and>
    last name \<notin> {0x2E, 0x20}"
proof -
  from assms have raw: "name = raw" "raw \<noteq> []" "length raw \<le> 260" "utf8_valid raw"
    "\<not> list_ex (\<lambda>b. b < 0x20 \<or> b = 0x7F) raw" "0x2F \<notin> set raw" "0x5C \<notin> set raw"
    "\<not> starts_with raw [0x2E]" "0x3A \<notin> set raw" "\<not> ends_with raw [0x2E]" "\<not> ends_with raw [0x20]"
    by (auto simp: sanitize_filename_def MAX_FILENAME_def split: if_splits)
  have "path_parts (dir @ [0x2F] @ raw) = path_parts dir @ [raw]"
    unfolding path_parts_join path_parts_single [OF raw(6,7)] ..
  moreover have "last raw \<noteq> c" if "\<not> ends_with raw [c]" for c
    using that raw(2) by (simp add: ends_with_last)
  moreover have "raw \<noteq> [0x2E]" "raw \<noteq> [0x2E, 0x2E]"
    using raw(8) by (auto simp: starts_with_def)
  ultimately show ?thesis
    using raw by (auto simp: list_ex_iff not_less)
qed

lemma served_name_stays_inside_witness:
  "path_parts (ascii ''files'' @ [0x2F] @ ascii ''tos.txt'') = path_parts (ascii ''files'') @ [ascii ''tos.txt'']"
proof -
  have "sanitize_filename (ascii ''tos.txt'') = Some (ascii ''tos.txt'')"
    by (simp add: sanitize_filename_def ascii_def MAX_FILENAME_def has_sub_def starts_with_def ends_with_def)
  from served_name_stays_inside [OF this, of "ascii ''files''"] show ?thesis by blast
qed

section \<open>Requests are read as they were written\<close>

lemma request_body_length:
  "length (request_body req) = 31 + length (filter (\<lambda>b. b \<noteq> 0) (fq_filename req))"
  by (simp add: request_body_def w_defs)

lemma v1_fields_body:
  assumes "0 \<notin> set (fq_filename req)" and "length (fq_filename req) \<le> MAX_FILENAME"
  shows "\<exists>r. v1_fields (rd_new (request_body req)) = Ok (req, r)"
  using assms
  by (auto simp: v1_fields_def request_body_def w_defs rd_eval rd_new_at filter_nonzero_id)

text \<open>
  A version 1 request is decoded to what was encoded as soon as its last byte is in, whatever
  follows it; with any shorter part of it the decoder waits for more.
\<close>

theorem request_roundtrip:
  assumes "fq_version req \<noteq> VERSION_2" and "0 \<notin> set (fq_filename req)"
    and "length (fq_filename req) \<le> MAX_FILENAME"
  shows "decode_request (encode_request req @ rest) = Ok (Some req) \<and>
    (\<forall>n < length (encode_request req). decode_request (take n (encode_request req)) = Ok None)"
proof -
  define body where "body = request_body req"
  define total where "total = length body + 2"
  have small: "33 \<le> total" "total \<le> 293"
    using assms(3) length_filter_le [of "\<lambda>b. b \<noteq> 0" "fq_filename req"]
    by (simp_all add: total_def body_def request_body_length MAX_FILENAME_def filter_nonzero_id [OF assms(2)])
  have enc: "encode_request req = le16 (word_of_nat total) @ body"
    by (simp add: encode_request_def body_def total_def Let_def)
  have len: "length (encode_request req) = total" by (simp add: enc total_def)
  have unat: "unat (word_of_nat total :: u16) = total" using small by (simp add: unat_of_nat)
  obtain tail where tail: "body = le16 (fq_version req) @ tail"
    by (simp add: body_def request_body_def w_defs)
  have head: "of_le (take 2 buf) = (word_of_nat total :: u16)" "of_le (take 2 (drop 2 buf)) = fq_version req"
    if "buf = le16 (word_of_nat total) @ le16 (fq_version req) @ x" for buf x
    unfolding that by simp_all
  obtain r where v1: "v1_fields (rd_new body) = Ok (req, r)"
    using v1_fields_body [OF assms(2,3)] body_def by blast
  have whole: "decode_request (encode_request req @ rest) = Ok (Some req)"
  proof -
    define buf where "buf = encode_request req @ rest"
    have "buf = le16 (word_of_nat total) @ le16 (fq_version req) @ (tail @ rest)"
      by (simp add: buf_def enc tail)
    note hd = head [OF this]
    have "take (total - 2) (drop 2 buf) = body" "total \<le> length buf"
      by (simp_all add: buf_def enc total_def)
    with hd small v1 assms(1) have "decode_request buf = Ok (Some req)"
      by (simp add: decode_request_def Let_def unat slice_def MAX_REQUEST_def)
    then show ?thesis by (simp add: buf_def)
  qed
  have part: "decode_request (take n (encode_request req)) = Ok None" if n: "n < total" for n
  proof (cases "n < 4")
    case True
    then have "length (take n (encode_request req)) < 4" by simp
    then show ?thesis unfolding decode_request_def by (rule if_P)
  next
    case False
    define buf where "buf = take n (encode_request req)"
    have "buf = le16 (word_of_nat total) @ le16 (fq_version req) @ take (n - 4) tail"
      using False by (simp add: buf_def enc tail take_append)
    note hd = head [OF this]
    have "length buf = n" using n len by (simp add: buf_def)
    with hd small n assms(1) False have "decode_request buf = Ok None"
      by (simp add: decode_request_def Let_def unat MAX_REQUEST_def)
    then show ?thesis by (simp add: buf_def)
  qed
  from whole part show ?thesis by (simp add: len)
qed

definition demo_request :: ftp_request where
  "demo_request = \<lparr>fq_version = VERSION_1, fq_platform = FourCc 0x49583836, fq_product = STAR, fq_ad_id = 0,
     fq_ad_extension = 0, fq_start = 0, fq_filetime = 0, fq_filename = [0x61]\<rparr>"

lemma request_roundtrip_witness:
  "decode_request (encode_request demo_request @ [7]) = Ok (Some demo_request)"
proof -
  have "fq_version demo_request \<noteq> VERSION_2" "0 \<notin> set (fq_filename demo_request)"
    "length (fq_filename demo_request) \<le> MAX_FILENAME"
    by (simp_all add: demo_request_def VERSION_1_def VERSION_2_def MAX_FILENAME_def)
  from request_roundtrip [OF this, of "[7]"] show ?thesis by blast
qed

end
