(* ===== verification/Ip_Text.thy ===== *)
theory Ip_Text
  imports Limits Statstring
begin

text \<open>
  The addresses of Rust's \<open>std::net\<close> as the program uses them: their text (\<open>Display\<close>), the parser
  of \<open>str::parse::<IpAddr>()\<close>, and the tests \<open>realm.rs\<close> makes of IPv4 addresses. An IPv4 address is
  its four bytes and an IPv6 address its sixteen.
\<close>

section \<open>Order\<close>

text \<open>As Rust derives it: IPv4 before IPv6, then by bytes.\<close>

fun ip_rank :: "ip_addr \<Rightarrow> nat \<times> bytes" where
  "ip_rank (V4 bs) = (0, bs)"
| "ip_rank (V6 bs) = (1, bs)"

instantiation ip_addr :: linorder
begin

definition less_eq_ip_addr :: "ip_addr \<Rightarrow> ip_addr \<Rightarrow> bool" where
  "less_eq_ip_addr a b \<longleftrightarrow> fst (ip_rank a) < fst (ip_rank b) \<or>
     fst (ip_rank a) = fst (ip_rank b) \<and> snd (ip_rank a) \<le> snd (ip_rank b)"

definition less_ip_addr :: "ip_addr \<Rightarrow> ip_addr \<Rightarrow> bool" where
  "less_ip_addr a b \<longleftrightarrow> a \<le> b \<and> \<not> b \<le> (a :: ip_addr)"

instance
proof
  fix a b c :: ip_addr
  show "a < b \<longleftrightarrow> a \<le> b \<and> \<not> b \<le> a" by (simp add: less_ip_addr_def)
  show "a \<le> a" by (simp add: less_eq_ip_addr_def)
  show "a \<le> b \<Longrightarrow> b \<le> c \<Longrightarrow> a \<le> c" by (auto simp: less_eq_ip_addr_def)
  show "a \<le> b \<Longrightarrow> b \<le> a \<Longrightarrow> a = b"
    by (cases a; cases b) (auto simp: less_eq_ip_addr_def)
  show "a \<le> b \<or> b \<le> a" by (auto simp: less_eq_ip_addr_def)
qed

end

section \<open>Tests\<close>

fun v4_octets :: "ip_addr \<Rightarrow> bytes option" where
  "v4_octets (V4 bs) = Some bs"
| "v4_octets (V6 bs) =
     (if take 10 bs = replicate 10 0 \<and> take 2 (drop 10 bs) = [0xFF, 0xFF] then Some (drop 12 bs) else None)"

definition is_private_v4 :: "bytes \<Rightarrow> bool" where
  "is_private_v4 o4 \<longleftrightarrow> (case o4 of
     a # b # _ \<Rightarrow> a = 10 \<or> (a = 172 \<and> 16 \<le> b \<and> b \<le> 31) \<or> (a = 192 \<and> b = 168)
   | _ \<Rightarrow> False)"

definition is_loopback_v4 :: "bytes \<Rightarrow> bool" where
  "is_loopback_v4 o4 \<longleftrightarrow> (case o4 of a # _ \<Rightarrow> a = 127 | _ \<Rightarrow> False)"

definition is_link_local_v4 :: "bytes \<Rightarrow> bool" where
  "is_link_local_v4 o4 \<longleftrightarrow> take 2 o4 = [169, 254]"

section \<open>Display\<close>

fun join_with :: "bytes \<Rightarrow> bytes list \<Rightarrow> bytes" where
  "join_with sep [] = []"
| "join_with sep [x] = x"
| "join_with sep (x # xs) = x @ sep @ join_with sep xs"

definition show_v4 :: "bytes \<Rightarrow> bytes" where
  "show_v4 o4 = join_with [0x2E] (map (\<lambda>b. decimal (unat b)) o4)"

fun hex_lower :: "nat \<Rightarrow> bytes" where
  "hex_lower n = (if n < 16 then [hex_digit n] else hex_lower (n div 16) @ [hex_digit (n mod 16)])"

declare hex_lower.simps [simp del]

fun segments :: "bytes \<Rightarrow> nat list" where
  "segments (a # b # bs) = (256 * unat a + unat b) # segments bs"
| "segments _ = []"

text \<open>The first longest run of zero segments: the scan keeps the longest and the current run.\<close>

fun zero_run :: "nat \<Rightarrow> nat \<times> nat \<Rightarrow> nat \<times> nat \<Rightarrow> nat list \<Rightarrow> nat \<times> nat" where
  "zero_run i longest current [] = longest"
| "zero_run i longest current (s # ss) =
     (if s = 0
      then let current = (if snd current = 0 then i else fst current, snd current + 1) in
           zero_run (i + 1) (if snd current > snd longest then current else longest) current ss
      else zero_run (i + 1) longest (0, 0) ss)"

definition show_v6 :: "bytes \<Rightarrow> bytes" where
  "show_v6 o16 =
     (case v4_octets (V6 o16) of
        Some o4 \<Rightarrow> ascii ''::ffff:'' @ show_v4 o4
      | None \<Rightarrow>
          let segs = segments o16; (start, len) = zero_run 0 (0, 0) (0, 0) segs;
              part = (\<lambda>xs. join_with [0x3A] (map hex_lower xs))
          in if len > 1 then part (take start segs) @ [0x3A, 0x3A] @ part (drop (start + len) segs)
             else part segs)"

fun show_ip :: "ip_addr \<Rightarrow> bytes" where
  "show_ip (V4 bs) = show_v4 bs"
| "show_ip (V6 bs) = show_v6 bs"

section \<open>Parsing\<close>

text \<open>A parser takes a value off the front of the text, or fails and takes nothing.\<close>

type_synonym 'a ip_parser = "bytes \<Rightarrow> ('a \<times> bytes) option"

definition given_char :: "u8 \<Rightarrow> unit ip_parser" where
  "given_char c s = (case s of b # bs \<Rightarrow> if b = c then Some ((), bs) else None | [] \<Rightarrow> None)"

definition dec_value :: "u8 \<Rightarrow> nat option" where
  "dec_value b = (if is_digit b then Some (unat b - 0x30) else None)"

definition hex_value :: "u8 \<Rightarrow> nat option" where
  "hex_value b =
     (if is_digit b then Some (unat b - 0x30)
      else if 0x61 \<le> b \<and> b \<le> 0x66 then Some (unat b - 0x57)
      else if 0x41 \<le> b \<and> b \<le> 0x46 then Some (unat b - 0x37) else None)"

text \<open>
  \<open>read_number\<close>: all digits that follow; more than the maximum, an overflow or none at all fail,
  and so does a leading zero where it is not allowed.
\<close>

definition read_number :: "(u8 \<Rightarrow> nat option) \<Rightarrow> nat \<Rightarrow> nat \<Rightarrow> nat \<Rightarrow> bool \<Rightarrow> nat ip_parser" where
  "read_number digit radix bound max_digits zero_prefix s =
     (let ds = takeWhile (\<lambda>b. digit b \<noteq> None) s;
          v = foldl (\<lambda>v b. v * radix + (case digit b of Some d \<Rightarrow> d | None \<Rightarrow> 0)) 0 ds
      in if ds = [] \<or> length ds > max_digits \<or> v \<ge> bound then None
         else if \<not> zero_prefix \<and> hd ds = 0x30 \<and> length ds > 1 then None
         else Some (v, drop (length ds) s))"

text \<open>A separator before every element but the first.\<close>

definition separated :: "u8 \<Rightarrow> nat \<Rightarrow> 'a ip_parser \<Rightarrow> 'a ip_parser" where
  "separated sep i p s =
     (if i = 0 then p s else (case given_char sep s of None \<Rightarrow> None | Some (_, s') \<Rightarrow> p s'))"

fun read_octets :: "nat \<Rightarrow> nat \<Rightarrow> bytes ip_parser" where
  "read_octets i 0 s = Some ([], s)"
| "read_octets i (Suc n) s =
     (case separated 0x2E i (read_number dec_value 10 256 3 False) s of
        None \<Rightarrow> None
      | Some (v, s') \<Rightarrow>
          (case read_octets (i + 1) n s' of
             None \<Rightarrow> None
           | Some (vs, s'') \<Rightarrow> Some (word_of_nat v # vs, s'')))"

definition read_v4 :: "bytes ip_parser" where "read_v4 = read_octets 0 4"

text \<open>
  The groups of an IPv6 address, at most \<open>limit\<close>: an embedded IPv4 address ends them and takes two.
  The result is the groups, whether they ended in an IPv4 address, and the text left.
\<close>

function read_groups :: "nat \<Rightarrow> nat \<Rightarrow> bytes \<Rightarrow> nat list \<times> bool \<times> bytes" where
  "read_groups limit i s =
     (if i \<ge> limit then ([], False, s)
      else
        case (if i + 1 < limit then separated 0x3A i read_v4 s else None) of
          Some (o4, s') \<Rightarrow> (segments o4, True, s')
        | None \<Rightarrow>
            (case separated 0x3A i (read_number hex_value 16 65536 4 True) s of
               None \<Rightarrow> ([], False, s)
             | Some (g, s') \<Rightarrow>
                 let (gs, v4, s'') = read_groups limit (i + 1) s' in (g # gs, v4, s'')))"
  by pat_completeness auto
termination by (relation "measure (\<lambda>(limit, i, s). limit - i)") auto

declare read_groups.simps [simp del]

definition groups_bytes :: "nat list \<Rightarrow> bytes" where
  "groups_bytes gs = concat (map (\<lambda>g. [word_of_nat (g div 256), word_of_nat (g mod 256)]) gs)"

definition read_v6 :: "bytes ip_parser" where
  "read_v6 s =
     (let (head, head_v4, s) = read_groups 8 0 s in
      if length head = 8 then Some (groups_bytes head, s)
      else if head_v4 then None
      else
        (case given_char 0x3A s of None \<Rightarrow> None | Some (_, s) \<Rightarrow>
        (case given_char 0x3A s of None \<Rightarrow> None | Some (_, s) \<Rightarrow>
          let (tail, _, s) = read_groups (8 - (length head + 1)) 0 s in
          Some (groups_bytes (head @ replicate (8 - length head - length tail) 0 @ tail), s))))"

definition whole :: "'a ip_parser \<Rightarrow> bytes \<Rightarrow> 'a option" where
  "whole p s = (case p s of Some (a, []) \<Rightarrow> Some a | _ \<Rightarrow> None)"

text \<open>The text of an IPv4 address is at most 15 bytes, which \<open>Ipv4Addr::from_str\<close> checks first.\<close>

definition parse_v4 :: "bytes \<Rightarrow> bytes option" where
  "parse_v4 s = (if length s > 15 then None else whole read_v4 s)"

definition parse_ip :: "bytes \<Rightarrow> ip_addr option" where
  "parse_ip =
     whole (\<lambda>s. case read_v4 s of
        Some (o4, s') \<Rightarrow> Some (V4 o4, s')
      | None \<Rightarrow> map_option (\<lambda>(o16, s'). (V6 o16, s')) (read_v6 s))"

section \<open>An IPv4 address reads back\<close>

lemma dec_value_ok: "dec_value b \<noteq> None \<longleftrightarrow> is_digit b"
  by (simp add: dec_value_def)

lemma foldl_digits: "list_all is_digit ds \<Longrightarrow>
    foldl (\<lambda>v b. v * 10 + (case dec_value b of Some d \<Rightarrow> d | None \<Rightarrow> 0)) a ds =
    fold (\<lambda>b a. 10 * a + (unat b - 0x30)) ds a"
  by (induction ds arbitrary: a) (simp_all add: dec_value_def mult.commute)

lemma decimal_all_digits: "list_all is_digit (decimal n)"
  using decimal_digits by (auto simp: list_all_iff)

lemma takeWhile_decimal:
  "rest = [] \<or> \<not> is_digit (hd rest) \<Longrightarrow> takeWhile (\<lambda>b. dec_value b \<noteq> None) (decimal n @ rest) = decimal n"
  unfolding dec_value_ok using decimal_digits [of _ n] by (cases rest) (auto simp: takeWhile_tail)

text \<open>No leading zero: a decimal text of two or more digits starts with another digit.\<close>

lemma decimal_hd: "hd (decimal n) = 0x30 \<Longrightarrow> n = 0"
proof (induction n rule: decimal.induct)
  case (1 n)
  show ?case
  proof (cases "n < 10")
    case True
    with 1(2) have "word_of_nat (0x30 + n) = (0x30 :: u8)" by (subst (asm) decimal.simps) simp
    then have "unat (word_of_nat (0x30 + n) :: u8) = unat (0x30 :: u8)" by simp
    with True show ?thesis by (simp add: unat_of_nat del: of_nat_add)
  next
    case False
    with 1 have "n div 10 = 0" by (subst (asm) decimal.simps) simp
    with False show ?thesis by simp
  qed
qed

lemma read_number_decimal:
  assumes "n < 256" and "rest = [] \<or> \<not> is_digit (hd rest)"
  shows "read_number dec_value 10 256 3 False (decimal n @ rest) = Some (n, rest)"
proof -
  have tw: "takeWhile (\<lambda>b. dec_value b \<noteq> None) (decimal n @ rest) = decimal n"
    using assms(2) by (rule takeWhile_decimal)
  have v: "foldl (\<lambda>v b. v * 10 + (case dec_value b of Some d \<Rightarrow> d | None \<Rightarrow> 0)) 0 (decimal n) = n"
    using foldl_digits [OF decimal_all_digits, of 0 n] digits_val_decimal [of n] by (simp add: digits_val_def)
  have len: "length (decimal n) \<le> 3" using length_decimal [of n 2] assms(1) by simp
  have hd: "hd (decimal n) = 0x30 \<Longrightarrow> length (decimal n) = 1"
    using decimal_hd [of n] by (subst decimal.simps) auto
  show ?thesis
    unfolding read_number_def Let_def tw v using len hd assms(1) by auto
qed

lemma dot_not_digit [simp]: "\<not> is_digit 0x2E"
  by (simp add: is_digit_def word_le_nat_alt)

lemma show_v4_four:
  "show_v4 [a, b, c, d] = decimal (unat a) @ 0x2E # decimal (unat b) @ 0x2E # decimal (unat c) @ 0x2E # decimal (unat d)"
  by (simp add: show_v4_def)

lemma octet_read: "read_number dec_value 10 256 3 False (decimal (unat (b :: u8)) @ 0x2E # r) = Some (unat b, 0x2E # r)"
  "read_number dec_value 10 256 3 False (decimal (unat (b :: u8))) = Some (unat b, [])"
  using read_number_decimal [of "unat b" "0x2E # r"] read_number_decimal [of "unat b" "[]"] unsigned_less [of b]
  by auto

lemma read_v4_show: "read_v4 (show_v4 [a, b, c, d]) = Some ([a, b, c, d], [])"
proof -
  have four: "4 = Suc (Suc (Suc (Suc 0)))" by simp
  show ?thesis
    unfolding read_v4_def four by (simp add: show_v4_four separated_def given_char_def octet_read)
qed

lemma parse_show_v4: "parse_ip (show_ip (V4 [a, b, c, d])) = Some (V4 [a, b, c, d])"
  by (simp add: parse_ip_def whole_def read_v4_show)

end
