(* ===== verification/Session.thy ===== *)
theory Session
  imports Session_Fsm Node_Ops Moderation Storage_Actor Ads Bnftp Ip_Text
begin

text \<open>
  \<open>bnetccd/src/session.rs\<close>: the state of one BNCS connection, the world it acts on and the helpers
  its handlers share. A handler takes the session and the world (the shared node, the storage
  backend and the ban store) and returns a step with both afterwards. What a handler reads of the
  clock or of random numbers is an argument; the several readings of the clock one handler makes
  are one reading, and instants are milliseconds on the same clock. Log lines, the UDP ping and the
  announcement webhook are not modelled.
\<close>

section \<open>State\<close>

datatype step = StepContinue | StepClose

record srp_pending =
  sp_account :: node_account
  sp_bare_name :: bytes
  sp_salt :: bytes
  sp_verifier :: bytes
  sp_b :: bytes
  sp_client_public :: bytes
  sp_server_public :: bytes

record game_seat =
  gs_name :: bytes
  gs_since :: u64

record session =
  ss_out :: handle
  ss_ip :: ip_addr
  ss_class :: client_class
  ss_state :: session_state
  ss_server_token :: u32
  ss_product :: "four_cc option"
  ss_platform :: "four_cc option"
  ss_version_byte :: "u32 option"
  ss_statstring :: bytes
  ss_claimed_keys :: "key_id list"
  ss_account :: "node_account option"
  ss_display_name :: bytes
  ss_channel :: "bytes option"
  ss_flags :: u32
  ss_game_port :: u16
  ss_flood :: flood_tracker
  ss_muted_until :: u64
  ss_hosting :: bool
  ss_seat :: "game_seat option"
  ss_srp :: "srp_pending option"
  ss_local :: "(ip_addr \<times> u16) option"
  ss_tickets :: "u64 list"

record 's world =
  w_node :: node
  w_store :: 's
  w_bans :: ban_store

text \<open>The closed realm's settings; its link to the game server is a parameter of \<open>Realm\<close>.\<close>

record d2_realm =
  dr_name :: bytes
  dr_description :: bytes
  dr_address :: "bytes option"
  dr_max_characters :: nat

text \<open>
  What a handler reads that no session changes: the configuration, the backend's methods, SHA-1,
  the files served, the advertisements, the server's name and version, the realm, the rating
  formula, the pages an account walk may read (the fuel of \<open>walk_accounts\<close>), the shortest game that
  counts, and the host name lookup.
\<close>

record 's env =
  en_cfg :: node_config
  en_ops :: "'s storage_ops"
  en_sha1 :: "bytes \<Rightarrow> bytes"
  en_files :: "bytes \<Rightarrow> u64 option"
  en_ads :: ad_rotation
  en_name :: bytes
  en_version :: bytes
  en_realm :: "d2_realm option"
  en_rating :: "u32 \<Rightarrow> u32 \<Rightarrow> played \<Rightarrow> u32"
  en_pages :: nat
  en_min_game :: u64
  en_lookup :: "bytes \<Rightarrow> ip_addr list option"

text \<open>
  What one call reads of the clock (milliseconds) and draws at random: the private value of an SRP
  challenge, and the cookie and ids of a realm ticket.
\<close>

record tick =
  tk_now :: u64
  tk_b :: bytes
  tk_cookie :: u32
  tk_draws :: "u64 list"

type_synonym 's run = "step \<times> session \<times> 's world"

definition session_new :: "handle \<Rightarrow> ip_addr \<Rightarrow> u32 \<Rightarrow> flood_policy \<Rightarrow> u64 \<Rightarrow> (ip_addr \<times> u16) option \<Rightarrow> session" where
  "session_new h ip token flood now local_addr =
     \<lparr>ss_out = h, ss_ip = ip, ss_class = GamePending, ss_state = Connected, ss_server_token = token,
      ss_product = None, ss_platform = None, ss_version_byte = None, ss_statstring = [],
      ss_claimed_keys = [], ss_account = None, ss_display_name = [], ss_channel = None, ss_flags = 0,
      ss_game_port = 6112, ss_flood = flood_new flood now, ss_muted_until = 0, ss_hosting = False,
      ss_seat = None, ss_srp = None, ss_local = local_addr, ss_tickets = []\<rparr>"

section \<open>Helpers\<close>

text \<open>A closure of reads applied to a frame's body: \<open>None\<close> is any error. No read panics (\<open>rd_safe\<close>).\<close>

definition parse :: "'a rd \<Rightarrow> bytes \<Rightarrow> 'a option" where
  "parse m body = (case m (rd_new body) of Ok (a, _) \<Rightarrow> Some a | _ \<Rightarrow> None)"

definition frame :: "u8 \<Rightarrow> bytes \<Rightarrow> bncs_frame" where
  "frame i body = \<lparr>fr_id = i, fr_body = body\<rparr>"

definition reply :: "bncs_frame \<Rightarrow> session \<Rightarrow> 's world \<Rightarrow> 's run" where
  "reply f s w =
     (let (ok, n) = send_frame (ss_out s) f (w_node w) in
      (if ok then StepContinue else StepClose, s, w\<lparr>w_node := n\<rparr>))"

definition READ_LIMIT :: nat where "READ_LIMIT = 64"

definition read_username :: "bytes rd" where
  "read_username = rd_map (take USERNAME_MAX) (rd_cstr READ_LIMIT)"

definition key_fingerprint :: "u32 \<Rightarrow> u32 \<Rightarrow> key_id" where
  "key_fingerprint product_value public_value = xsha1_bytes (le32 product_value @ le32 public_value)"

text \<open>\<open>node.file_mtime\<close>: the files are a map from names in the served directory to Unix times.\<close>

definition file_mtime :: "'s env \<Rightarrow> bytes \<Rightarrow> u64 option" where
  "file_mtime env filename = Option.bind (sanitize_filename filename) (en_files env)"

definition unix_to_filetime :: "u64 \<Rightarrow> u64" where
  "unix_to_filetime secs = sat_mul (secs + 11644473600) 10000000"

definition filetime_of :: "'s env \<Rightarrow> bytes \<Rightarrow> u64" where
  "filetime_of env filename = (case file_mtime env filename of Some t \<Rightarrow> unix_to_filetime t | None \<Rightarrow> 0)"

definition set_statstring :: "bytes \<Rightarrow> session \<Rightarrow> session" where
  "set_statstring st s =
     (if \<not> d2_is_safe st
      then s\<lparr>ss_statstring := (if 4 \<le> length st then take 4 st else [])\<rparr>
      else s\<lparr>ss_statstring := st\<rparr>)"

text \<open>\<open>name.split('#').next()\<close>.\<close>

definition account_base :: "bytes \<Rightarrow> bytes" where
  "account_base name = takeWhile (\<lambda>b. b \<noteq> 0x23) name"

definition ASSIGNABLE_FLAGS :: u32 where
  "ASSIGNABLE_FLAGS = UF_ADMIN OR UF_BLIZZARD_REP OR UF_SPEAKER OR UF_SPECIAL_GUEST"

definition is_d2 :: "four_cc option \<Rightarrow> bool" where
  "is_d2 p \<longleftrightarrow> p = Some D2DV \<or> p = Some D2XP"

definition is_w3 :: "four_cc option \<Rightarrow> bool" where
  "is_w3 p \<longleftrightarrow> p = Some WAR3 \<or> p = Some W3XP"

section \<open>File names handed to clients\<close>

definition version_mpq_name :: "four_cc option \<Rightarrow> four_cc option \<Rightarrow> u32 option \<Rightarrow> bytes" where
  "version_mpq_name platform product version_byte =
     (let plat = (case platform of
            Some p \<Rightarrow> if list_all is_graphic (as_ascii p) then as_ascii p else ascii ''IX86''
          | None \<Rightarrow> ascii ''IX86'');
          old = plat @ ascii ''ver1.mpq''; modern = ascii ''ver-'' @ plat @ ascii ''-1.mpq''
      in if is_w3 product
         then (case version_byte of Some v \<Rightarrow> if v \<le> 0x1A then old else modern | None \<Rightarrow> modern)
         else if is_d2 product then modern else old)"

definition served_version_mpq :: "bytes \<Rightarrow> (bytes \<Rightarrow> bool) \<Rightarrow> bytes" where
  "served_version_mpq name has =
     (if \<not> starts_with name (ascii ''ver-'') then name
      else
        let r = drop 4 name in
        if \<not> ends_with r (ascii ''-1.mpq'') then name
        else
          let plat = take (length r - 6) r in
          if has name then name
          else (case find has (map (\<lambda>n. ascii ''ver-'' @ plat @ ascii ''-'' @ decimal n @ ascii ''.mpq'') [0..<8]) of
                  Some n \<Rightarrow> n | None \<Rightarrow> name))"

definition version_mpq :: "'s env \<Rightarrow> session \<Rightarrow> bytes" where
  "version_mpq env s =
     served_version_mpq (version_mpq_name (ss_platform s) (ss_product s) (ss_version_byte s))
       (\<lambda>n. file_mtime env n \<noteq> None)"

definition icon_file_name :: "four_cc option \<Rightarrow> bytes" where
  "icon_file_name product =
     (if product = Some STAR \<or> product = Some SEXP then ascii ''icons_STAR.bni''
      else if product = Some WAR3 \<or> product = Some W3XP then ascii ''icons-WAR3.bni''
      else ascii ''icons.bni'')"

section \<open>Chat lines and encoded frames\<close>

definition say :: "event_id \<Rightarrow> bytes \<Rightarrow> session \<Rightarrow> 's world \<Rightarrow> 's run" where
  "say ev text s w = reply (chat_event ev 0 0 [] text) s w"

definition op_error :: "bytes \<Rightarrow> session \<Rightarrow> 's world \<Rightarrow> 's run" where
  "op_error msg s w = say EvError msg s w"

definition tell :: "bytes \<Rightarrow> session \<Rightarrow> 's world \<Rightarrow> 's run" where
  "tell msg s w = say EvInfo msg s w"

definition encode_vec :: "bncs_frame \<Rightarrow> bytes option" where
  "encode_vec f = (case encode_frame f [] of Ok b \<Rightarrow> Some b | _ \<Rightarrow> None)"

definition removal_notice :: "bytes \<Rightarrow> bytes option" where
  "removal_notice msg = encode_vec (chat_event EvError 0 0 [] msg)"

text \<open>Lines sent one after the other until a send fails.\<close>

fun send_lines :: "bytes list \<Rightarrow> session \<Rightarrow> 's world \<Rightarrow> 's run" where
  "send_lines [] s w = (StepContinue, s, w)"
| "send_lines (l # ls) s w =
     (case tell l s w of
        (StepClose, s, w) \<Rightarrow> (StepClose, s, w)
      | (StepContinue, s, w) \<Rightarrow> send_lines ls s w)"

section \<open>The closed realm's address and portraits\<close>

text \<open>\<open>realm.rs\<close>: the IPv4 address to hand a client, and the portrait a stored character is drawn with.\<close>

definition client_facing_ipv4 :: "(bytes \<Rightarrow> ip_addr list option) \<Rightarrow> ip_addr \<Rightarrow> (ip_addr \<times> u16) option \<Rightarrow>
    d2_realm \<Rightarrow> bytes option" where
  "client_facing_ipv4 lookup peer local_addr realm =
     (let local_v4 = Option.bind (map_option fst local_addr) v4_octets;
          peer_is_local = (case v4_octets peer of
              Some ip \<Rightarrow> is_private_v4 ip \<or> is_loopback_v4 ip \<or> is_link_local_v4 ip | None \<Rightarrow> False)
      in case dr_address realm of
           None \<Rightarrow> local_v4
         | Some configured \<Rightarrow>
             if peer_is_local then local_v4
             else (case parse_v4 configured of
                     Some ip \<Rightarrow> Some ip
                   | None \<Rightarrow>
                       (case lookup configured of
                          Some addrs \<Rightarrow> (case List.map_filter v4_octets addrs of ip # _ \<Rightarrow> Some ip | [] \<Rightarrow> local_v4)
                        | None \<Rightarrow> local_v4)))"

definition portrait_of :: "d2_character \<Rightarrow> portrait" where
  "portrait_of c = \<lparr>po_class = c_class c, po_status = c_status c, po_level = c_level c,
     po_progression = c_progression c\<rparr>"

section \<open>Facts\<close>

lemma say_same [simp]: "fst (snd (say ev text s w)) = s" "fst (snd (tell text s w)) = s"
  "fst (snd (op_error text s w)) = s"
  by (simp_all add: say_def tell_def op_error_def reply_def split: prod.split)

lemma send_lines_same [simp]: "fst (snd (send_lines ls s w)) = s"
proof (induction ls arbitrary: w)
  case (Cons l ls)
  obtain st t v where l: "tell l s w = (st, t, v)" by (cases "tell l s w") auto
  then have "t = s" using say_same(2) [of l s w] by simp
  with l Cons show ?case by (cases st) auto
qed simp

lemma reply_same [simp]: "fst (snd (reply f s w)) = s"
  by (simp add: reply_def split: prod.split)

lemma reply_world [simp]:
  "w_store (snd (snd (reply f s w))) = w_store w" "w_bans (snd (snd (reply f s w))) = w_bans w"
  by (simp_all add: reply_def split: prod.split)

lemma set_statstring_safe: "d2_is_safe (ss_statstring (set_statstring st s))"
  by (auto simp: set_statstring_def tag_safe) (simp add: d2_is_safe_def)

end
