(* ===== verification/Session_Logon.thy ===== *)
theory Session_Logon
  imports Session
begin

text \<open>
  \<open>bnetccd/src/session.rs\<close>, up to the logon: the version check, the CD keys, accounts and the two
  logon protocols, the file and profile queries a client may make before it has logged on, and what
  the end of the session undoes.
\<close>

section \<open>Opening\<close>

definition CHECK_PASSED :: u32 where "CHECK_PASSED = 0x000"
definition CHECK_OLD_VERSION :: u32 where "CHECK_OLD_VERSION = 0x100"
definition CHECK_KEY_IN_USE :: u32 where "CHECK_KEY_IN_USE = 0x201"
definition CHECK_KEY_BANNED :: u32 where "CHECK_KEY_BANNED = 0x202"
definition CHECK_SECOND_KEY :: u32 where "CHECK_SECOND_KEY = 0x010"

definition auth_info_fields :: "(four_cc \<times> four_cc \<times> u32) rd" where
  "auth_info_fields =
     rd_bind rd_u32 (\<lambda>_. rd_bind rd_fourcc (\<lambda>platform. rd_bind rd_fourcc (\<lambda>product.
     rd_bind rd_u32 (\<lambda>version_byte. rd_return (platform, product, version_byte)))))"

definition start_versioning_fields :: "(four_cc \<times> four_cc \<times> u32) rd" where
  "start_versioning_fields =
     rd_bind rd_fourcc (\<lambda>platform. rd_bind rd_fourcc (\<lambda>product.
     rd_bind rd_u32 (\<lambda>version_byte. rd_return (platform, product, version_byte))))"

definition neutral_formula :: bytes where
  "neutral_formula = ascii ''A=1 B=1 C=1 4 A=A^S B=B^C C=C^A A=A^B''"

definition w3_formula :: bytes where
  "w3_formula = ascii ''B=454282227 C=2370009462 A=2264812340 4 A=A^S B=B-C C=C-A A=A+B''"

definition auth_info :: "'s env \<Rightarrow> bytes \<Rightarrow> session \<Rightarrow> 's world \<Rightarrow> 's run" where
  "auth_info env body s w =
     (case parse auth_info_fields body of
        None \<Rightarrow> (StepClose, s, w)
      | Some (platform, product, version_byte) \<Rightarrow>
          let s = s\<lparr>ss_product := Some product, ss_platform := Some platform, ss_version_byte := Some version_byte\<rparr>;
              s = set_statstring (build_default product) s
          in (case node_reclassify (en_cfg env) (ss_ip s) (ss_class s) (GameClient product) (w_node w) of
                (Ok _, n) \<Rightarrow>
                  let w = w\<lparr>w_node := n\<rparr>;
                      s = s\<lparr>ss_class := GameClient product,
                        ss_flags := (if always_no_udp product then ss_flags s OR UF_NO_UDP else ss_flags s)\<rparr>;
                      srp = (auth_family product = Some Srp);
                      logon_type = (if srp \<and> \<not> nc_wc3_legacy (en_cfg env) then 2 else 0);
                      mpq = version_mpq env s
                  in reply (frame SID_AUTH_INFO (w_chain ([w_u32 logon_type, w_u32 (ss_server_token s),
                       w_u32 (ss_server_token s), w_u64 (filetime_of env mpq), w_cstr mpq,
                       w_cstr (if product = WAR3 \<or> product = W3XP then w3_formula else neutral_formula)] @
                       (if srp then [w_bytes (replicate 128 0)] else [])))) s w
              | (_, n) \<Rightarrow> (StepClose, s, w\<lparr>w_node := n\<rparr>)))"

definition start_versioning :: "'s env \<Rightarrow> bytes \<Rightarrow> session \<Rightarrow> 's world \<Rightarrow> 's run" where
  "start_versioning env body s w =
     (let s = (case parse start_versioning_fields body of
            None \<Rightarrow> s
          | Some (platform, product, version_byte) \<Rightarrow>
              let s = s\<lparr>ss_platform := Some platform, ss_product := Some product, ss_version_byte := Some version_byte\<rparr>;
                  s = set_statstring (build_default product) s
              in s\<lparr>ss_flags := (if always_no_udp product then ss_flags s OR UF_NO_UDP else ss_flags s)\<rparr>);
          mpq = version_mpq env s
      in reply (frame SID_STARTVERSIONING (w_chain [w_u64 (filetime_of env mpq), w_cstr mpq,
           w_cstr neutral_formula])) s w)"

section \<open>Version and CD keys\<close>

definition version_refused :: "'s env \<Rightarrow> session \<Rightarrow> bool" where
  "version_refused env s \<longleftrightarrow>
     (case (ss_product s, ss_platform s, ss_version_byte s) of
        (Some product, Some platform, Some version_byte) \<Rightarrow>
          \<not> version_allows (nc_versions (en_cfg env)) product platform version_byte
      | _ \<Rightarrow> False)"

fun key_blocks :: "nat \<Rightarrow> key_id list rd" where
  "key_blocks 0 = rd_return []"
| "key_blocks (Suc n) =
     rd_bind rd_u32 (\<lambda>_. rd_bind rd_u32 (\<lambda>product_value. rd_bind rd_u32 (\<lambda>public_value.
     rd_bind rd_u32 (\<lambda>_. rd_bind (rd_bytes 20) (\<lambda>_. rd_bind (key_blocks n) (\<lambda>ks.
     rd_return (key_fingerprint product_value public_value # ks)))))))"

definition auth_check_fields :: "key_id list rd" where
  "auth_check_fields =
     rd_bind rd_u32 (\<lambda>_. rd_bind rd_u32 (\<lambda>_. rd_bind rd_u32 (\<lambda>_. rd_bind rd_u32 (\<lambda>key_count.
     rd_bind rd_u32 (\<lambda>_. rd_bind (key_blocks (min (unat key_count) 2)) (\<lambda>keys.
     rd_bind (rd_cstr 256) (\<lambda>_. rd_bind (rd_cstr 64) (\<lambda>_. rd_return keys))))))))"

text \<open>The keys are claimed in order; at the first refusal the ones claimed before are released.\<close>

datatype keys_outcome = KeysClaimed | KeysInUse bool bytes | KeysBanned bool

fun claim_keys :: "u64 \<Rightarrow> key_id list \<Rightarrow> key_id list \<Rightarrow> node \<Rightarrow> keys_outcome \<times> node" where
  "claim_keys now done [] n = (KeysClaimed, n)"
| "claim_keys now done (k # ks) n =
     (case claim_key k now n of
        (ClaimOk, n) \<Rightarrow> claim_keys now (done @ [k]) ks n
      | (ClaimInUse holder, n) \<Rightarrow>
          (KeysInUse (length done = 1) holder, fold (\<lambda>k. release_key k now) done n)
      | (ClaimBanned, n) \<Rightarrow>
          (KeysBanned (length done = 1), fold (\<lambda>k. release_key k now) done n))"

definition check_reply :: "u32 \<Rightarrow> bytes \<Rightarrow> bncs_frame" where
  "check_reply status info = frame SID_AUTH_CHECK (w_chain [w_u32 status, w_cstr info])"

definition second_flag :: "bool \<Rightarrow> u32 \<Rightarrow> u32" where
  "second_flag second status = (if second then status OR CHECK_SECOND_KEY else status)"

definition auth_check :: "'s env \<Rightarrow> u64 \<Rightarrow> bytes \<Rightarrow> session \<Rightarrow> 's world \<Rightarrow> 's run" where
  "auth_check env now body s w =
     (if version_refused env s then reply (check_reply CHECK_OLD_VERSION []) s w
      else if \<not> nc_key_uniqueness (en_cfg env) then reply (check_reply CHECK_PASSED []) s w
      else
        (case parse auth_check_fields body of
           None \<Rightarrow> reply (check_reply CHECK_PASSED []) s w
         | Some keys \<Rightarrow>
             let (r, n) = claim_keys now [] keys (w_node w); w = w\<lparr>w_node := n\<rparr> in
             (case r of
                KeysClaimed \<Rightarrow> reply (check_reply CHECK_PASSED []) (s\<lparr>ss_claimed_keys := keys\<rparr>) w
              | KeysInUse second holder \<Rightarrow>
                  reply (check_reply (second_flag second CHECK_KEY_IN_USE) holder) s w
              | KeysBanned second \<Rightarrow>
                  reply (check_reply (second_flag second CHECK_KEY_BANNED) []) s w)))"

definition report_version_reply :: "u32 \<Rightarrow> bncs_frame" where
  "report_version_reply result = frame SID_REPORTVERSION (w_chain [w_u32 result, w_cstr [], w_u8 0])"

definition report_version :: "'s env \<Rightarrow> session \<Rightarrow> 's world \<Rightarrow> 's run" where
  "report_version env s w = reply (report_version_reply (if version_refused env s then 0 else 2)) s w"

section \<open>Logging on\<close>

text \<open>The name registry, the moderation directory and the stored flags, once a proof has checked out.\<close>

definition finish_logon :: "'s env \<Rightarrow> u64 \<Rightarrow> node_account \<Rightarrow> session \<Rightarrow> 's world \<Rightarrow> session \<times> 's world" where
  "finish_logon env now a s w =
     (let n = fold (\<lambda>k. record_key_holder_name k (na_name a)) (ss_claimed_keys s) (w_node w);
          fl = (if is_admin (nc_admins (en_cfg env)) (na_name a) then ss_flags s OR UF_ADMIN else ss_flags s);
          (stored, st) = act_user_flags (en_ops env) (na_id a) (w_store w);
          fl = fl OR (stored AND ASSIGNABLE_FLAGS);
          st = act_record_login (en_ops env) (na_id a) (now div 1000) st;
          n = n\<lparr>nd_total_logins := nd_total_logins n + 1\<rparr>;
          (display, n) = claim_name (na_name a) n;
          n = register_session display (ss_ip s) (ss_out s) (ss_product s) n
      in (s\<lparr>ss_flags := fl, ss_display_name := display, ss_account := Some a\<rparr>,
          w\<lparr>w_node := n, w_store := st\<rparr>))"

definition logon_fields :: "(u32 \<times> u32 \<times> bytes \<times> bytes) rd" where
  "logon_fields =
     rd_bind rd_u32 (\<lambda>client_token. rd_bind rd_u32 (\<lambda>server_token. rd_bind (rd_bytes 20) (\<lambda>proof.
     rd_bind read_username (\<lambda>username. rd_return (client_token, server_token, proof, username)))))"

definition logon_reply :: "u8 \<Rightarrow> u32 \<Rightarrow> bncs_frame" where
  "logon_reply reply_id status =
     frame reply_id (w_chain [w_u32 (if reply_id = SID_LOGONRESPONSE
       then (if status = LOGON_SUCCESS then 1 else 0) else status)])"

definition logon :: "'s env \<Rightarrow> u64 \<Rightarrow> u8 \<Rightarrow> bytes \<Rightarrow> session \<Rightarrow> 's world \<Rightarrow> 's run" where
  "logon env now reply_id body s w =
     (case parse logon_fields body of
        None \<Rightarrow> (StepClose, s, w)
      | Some (client_token, client_server_token, proof, username) \<Rightarrow>
          let server_token = (if reply_id = SID_LOGONRESPONSE then client_server_token else ss_server_token s);
              (found, st) = act_account_by_name (en_ops env) (utf8_lossy username) (w_store w);
              w = w\<lparr>w_store := st\<rparr>
          in (case found of
                None \<Rightarrow> reply (logon_reply reply_id LOGON_NO_SUCH_ACCOUNT) s w
              | Some a \<Rightarrow>
                  (case na_credential a of
                     CredSrp _ _ \<Rightarrow> reply (logon_reply reply_id LOGON_NO_SUCH_ACCOUNT) s w
                   | CredXsha1 digest \<Rightarrow>
                       if \<not> proofs_match proof (logon_proof client_token server_token digest)
                       then reply (logon_reply reply_id LOGON_WRONG_PASSWORD) s w
                       else if is_tag_banned (na_name a) (w_bans w)
                       then reply (logon_reply reply_id LOGON_NO_SUCH_ACCOUNT) s w
                       else let (s, w) = finish_logon env now a s w in
                            reply (logon_reply reply_id LOGON_SUCCESS) s w)))"

section \<open>WarCraft III\<close>

definition realm_bare_name :: "bytes \<Rightarrow> bytes option" where
  "realm_bare_name typed = (let t = utf8_lossy typed in if 0x40 \<in> set t then None else Some t)"

definition qualified_name :: "'s env \<Rightarrow> bytes \<Rightarrow> bytes" where
  "qualified_name env bare = bare @ [0x40] @ nc_realm (en_cfg env)"

definition account_create_fields :: "(bytes \<times> bytes \<times> bytes) rd" where
  "account_create_fields =
     rd_bind (rd_bytes 32) (\<lambda>salt. rd_bind (rd_bytes 32) (\<lambda>vrf. rd_bind read_username (\<lambda>username.
     rd_return (salt, vrf, username))))"

definition create_status_reply :: "u32 \<Rightarrow> bncs_frame" where
  "create_status_reply status = frame SID_AUTH_ACCOUNTCREATE (w_chain [w_u32 status])"

definition auth_account_create :: "'s env \<Rightarrow> u64 \<Rightarrow> bytes \<Rightarrow> session \<Rightarrow> 's world \<Rightarrow> 's run" where
  "auth_account_create env now body s w =
     (case parse account_create_fields body of
        None \<Rightarrow> (StepClose, s, w)
      | Some (salt, vrf, username) \<Rightarrow>
          (case realm_bare_name username of
             None \<Rightarrow> reply (create_status_reply NLS_CREATE_ILLEGAL_CHAR) s w
           | Some bare \<Rightarrow>
               let (r, st) = act_create_account (en_ops env) (qualified_name env bare) (CredSrp salt vrf)
                     (now div 1000) (w_store w);
                   w = w\<lparr>w_store := st\<rparr>
               in (case r of
                     Ok _ \<Rightarrow> reply (create_status_reply NLS_CREATE_OK) s w
                   | Err CaNameTaken \<Rightarrow> reply (create_status_reply NLS_CREATE_NAME_EXISTS) s w
                   | Err (CaInvalid why) \<Rightarrow>
                       reply (create_status_reply (if has_sub why (ascii ''shorter'')
                         then NLS_CREATE_TOO_SHORT else NLS_CREATE_ILLEGAL_CHAR)) s w
                   | _ \<Rightarrow> (StepClose, s, w))))"

definition account_logon_fields :: "(bytes \<times> bytes) rd" where
  "account_logon_fields =
     rd_bind (rd_bytes 32) (\<lambda>cpub. rd_bind read_username (\<lambda>username.
     rd_return (cpub, username)))"

definition challenge_reply :: "u32 \<Rightarrow> bytes \<Rightarrow> bncs_frame" where
  "challenge_reply status body = frame SID_AUTH_ACCOUNTLOGON (w_chain [w_u32 status, w_bytes body])"

definition auth_account_logon :: "'s env \<Rightarrow> bytes \<Rightarrow> bytes \<Rightarrow> session \<Rightarrow> 's world \<Rightarrow> 's run" where
  "auth_account_logon env b body s w =
     (case parse account_logon_fields body of
        None \<Rightarrow> (StepClose, s, w)
      | Some (cpub, username) \<Rightarrow>
          let s = s\<lparr>ss_srp := None\<rparr>; refused = challenge_reply NLS_LOGON_NO_ACCOUNT (replicate 64 0) in
          (case realm_bare_name username of
             None \<Rightarrow> reply refused s w
           | Some bare \<Rightarrow>
               let (found, st) = act_account_by_name (en_ops env) (qualified_name env bare) (w_store w);
                   w = w\<lparr>w_store := st\<rparr>
               in (case found of
                     None \<Rightarrow> reply refused s w
                   | Some a \<Rightarrow>
                       (case na_credential a of
                          CredXsha1 _ \<Rightarrow> reply refused s w
                        | CredSrp salt vrf \<Rightarrow>
                            let spub = server_public vrf b;
                                s = s\<lparr>ss_srp := Some \<lparr>sp_account = a, sp_bare_name = bare, sp_salt = salt,
                                  sp_verifier = vrf, sp_b = b, sp_client_public = cpub,
                                  sp_server_public = spub\<rparr>\<rparr>
                            in reply (challenge_reply NLS_LOGON_OK (salt @ spub)) s w))))"

definition verify_pending :: "'s env \<Rightarrow> srp_pending \<Rightarrow> bytes \<Rightarrow> bytes option" where
  "verify_pending env p proof =
     server_verify (en_sha1 env) (sp_bare_name p) (sp_salt p) (sp_verifier p) (sp_b p)
       (sp_client_public p) (sp_server_public p) proof"

definition proof_reply :: "(writer \<Rightarrow> writer) list \<Rightarrow> bncs_frame" where
  "proof_reply ws = frame SID_AUTH_ACCOUNTLOGONPROOF (w_chain ws)"

definition auth_account_logon_proof :: "'s env \<Rightarrow> u64 \<Rightarrow> bytes \<Rightarrow> session \<Rightarrow> 's world \<Rightarrow> 's run" where
  "auth_account_logon_proof env now body s w =
     (case parse (rd_bytes 20) body of
        None \<Rightarrow> (StepClose, s, w)
      | Some proof \<Rightarrow>
          (case ss_srp s of
             None \<Rightarrow> (StepClose, s, w)
           | Some p \<Rightarrow>
               let s = s\<lparr>ss_srp := None\<rparr>; a = sp_account p in
               (case verify_pending env p proof of
                  Some m2 \<Rightarrow>
                    if is_tag_banned (na_name a) (w_bans w)
                    then reply (proof_reply [w_u32 NLS_PROOF_CUSTOM_ERROR, w_bytes (replicate 20 0),
                      w_cstr (ascii ''This account is banned from this server.'')]) s w
                    else let (s, w) = finish_logon env now a s w in
                         reply (proof_reply [w_u32 NLS_PROOF_OK, w_bytes m2]) s w
                | None \<Rightarrow>
                    reply (proof_reply [w_u32 NLS_PROOF_WRONG_PASSWORD, w_bytes (replicate 20 0)]) s w)))"

section \<open>Creating X-SHA-1 accounts\<close>

datatype create_outcome = Created | CreateNameTaken | CreateInvalid

definition create_fields :: "(bytes \<times> bytes) rd" where
  "create_fields = rd_bind (rd_bytes 20) (\<lambda>hash. rd_bind read_username (\<lambda>username. rd_return (hash, username)))"

text \<open>\<open>None\<close> is the early \<open>Step::Close\<close>.\<close>

definition do_create_account :: "'s env \<Rightarrow> u64 \<Rightarrow> bytes \<Rightarrow> 's world \<Rightarrow> create_outcome option \<times> 's world" where
  "do_create_account env now body w =
     (case parse create_fields body of
        None \<Rightarrow> (None, w)
      | Some (hash, username) \<Rightarrow>
          let name = utf8_lossy username in
          if 0x40 \<in> set name then (Some CreateInvalid, w)
          else
            let (r, st) = act_create_account (en_ops env) name (CredXsha1 hash) (now div 1000) (w_store w) in
            (case r of
               Ok _ \<Rightarrow> Some Created
             | Err CaNameTaken \<Rightarrow> Some CreateNameTaken
             | Err (CaInvalid _) \<Rightarrow> Some CreateInvalid
             | _ \<Rightarrow> None, w\<lparr>w_store := st\<rparr>))"

definition create_account2 :: "'s env \<Rightarrow> u64 \<Rightarrow> bytes \<Rightarrow> session \<Rightarrow> 's world \<Rightarrow> 's run" where
  "create_account2 env now body s w =
     (case do_create_account env now body w of
        (None, w) \<Rightarrow> (StepClose, s, w)
      | (Some r, w) \<Rightarrow>
          let status = (case r of Created \<Rightarrow> 0x00 | CreateNameTaken \<Rightarrow> 0x04 | CreateInvalid \<Rightarrow> 0x02) in
          reply (frame SID_CREATEACCOUNT2 (w_chain [w_u32 status, w_cstr []])) s w)"

definition create_account_legacy :: "'s env \<Rightarrow> u64 \<Rightarrow> bytes \<Rightarrow> session \<Rightarrow> 's world \<Rightarrow> 's run" where
  "create_account_legacy env now body s w =
     (case do_create_account env now body w of
        (None, w) \<Rightarrow> (StepClose, s, w)
      | (Some r, w) \<Rightarrow>
          let result = (case r of Created \<Rightarrow> 0x00 | _ \<Rightarrow> 0x01) in
          reply (frame SID_CREATEACCOUNT (w_chain [w_u32 result])) s w)"

section \<open>Queries\<close>

definition cd_key_reply :: "u8 \<Rightarrow> session \<Rightarrow> 's world \<Rightarrow> 's run" where
  "cd_key_reply reply_id s w =
     (let owner = (case ss_account s of Some a \<Rightarrow> na_name a | None \<Rightarrow> []) in
      reply (frame reply_id (w_chain [w_u32 1, w_cstr owner])) s w)"

definition filetime_fields :: "(u32 \<times> u32 \<times> bytes) rd" where
  "filetime_fields =
     rd_bind rd_u32 (\<lambda>request_id. rd_bind rd_u32 (\<lambda>unknown. rd_bind (rd_cstr MAX_FILENAME) (\<lambda>filename.
     rd_return (request_id, unknown, filename))))"

definition get_filetime :: "'s env \<Rightarrow> bytes \<Rightarrow> session \<Rightarrow> 's world \<Rightarrow> 's run" where
  "get_filetime env body s w =
     (case parse filetime_fields body of
        None \<Rightarrow> (StepClose, s, w)
      | Some (request_id, unknown, filename) \<Rightarrow>
          reply (frame SID_GETFILETIME (w_chain [w_u32 request_id, w_u32 unknown,
            w_u64 (filetime_of env filename), w_cstr filename])) s w)"

definition get_icon_data :: "'s env \<Rightarrow> session \<Rightarrow> 's world \<Rightarrow> 's run" where
  "get_icon_data env s w =
     (let name = icon_file_name (ss_product s) in
      reply (frame SID_GETICONDATA (w_chain [w_u64 (filetime_of env name), w_cstr name])) s w)"

fun rd_strings :: "nat \<Rightarrow> nat \<Rightarrow> bytes list rd" where
  "rd_strings limit 0 = rd_return []"
| "rd_strings limit (Suc n) =
     rd_bind (rd_cstr limit) (\<lambda>x. rd_bind (rd_strings limit n) (\<lambda>xs. rd_return (utf8_lossy x # xs)))"

definition user_data_fields :: "(nat \<times> nat \<times> u32 \<times> bytes list \<times> bytes list) rd" where
  "user_data_fields =
     rd_bind rd_u32 (\<lambda>na. rd_bind rd_u32 (\<lambda>nk. rd_bind rd_u32 (\<lambda>request_id.
     let na = min (unat na) 64; nk = min (unat nk) 64 in
     rd_bind (rd_strings 64 na) (\<lambda>account_names. rd_bind (rd_strings 256 nk) (\<lambda>key_names.
     rd_return (na, nk, request_id, account_names, key_names))))))"

text \<open>The values of the requested keys, account by account; a key that is not readable is empty.\<close>

fun profile_values :: "'s storage_ops \<Rightarrow> attr_key list \<Rightarrow> bytes list \<Rightarrow> 's \<Rightarrow> bytes list \<times> 's" where
  "profile_values ops ks [] st = ([], st)"
| "profile_values ops ks (name # rest) st =
     (let (readable, st) = act_read_readable_attrs ops name ks st;
          vs = map (\<lambda>k. case fmlookup readable k of Some v \<Rightarrow> v | None \<Rightarrow> []) ks;
          (more, st) = profile_values ops ks rest st
      in (vs @ more, st))"

definition read_user_data :: "'s env \<Rightarrow> bytes \<Rightarrow> session \<Rightarrow> 's world \<Rightarrow> 's run" where
  "read_user_data env body s w =
     (case parse user_data_fields body of
        None \<Rightarrow> (StepClose, s, w)
      | Some (na, nk, request_id, account_names, key_names) \<Rightarrow>
          let (vs, st) = profile_values (en_ops env) (map key_new key_names) account_names (w_store w) in
          reply (frame SID_READUSERDATA (w_chain ([w_u32 (word_of_nat na), w_u32 (word_of_nat nk),
            w_u32 request_id] @ map w_cstr vs))) s (w\<lparr>w_store := st\<rparr>))"

definition check_ad_fields :: "u32 rd" where
  "check_ad_fields = rd_bind rd_fourcc (\<lambda>_. rd_bind rd_fourcc (\<lambda>_. rd_u32))"

definition check_ad :: "'s env \<Rightarrow> bytes \<Rightarrow> session \<Rightarrow> 's world \<Rightarrow> 's run" where
  "check_ad env body s w =
     (case ss_product s of
        None \<Rightarrow> (StepContinue, s, w)
      | Some product \<Rightarrow>
          (case parse check_ad_fields body of
             None \<Rightarrow> (StepClose, s, w)
           | Some previous \<Rightarrow>
               (case ad_next (en_ads env) product None previous (ucast (ss_server_token s)) of
                  None \<Rightarrow> (StepContinue, s, w)
                | Some ad \<Rightarrow>
                    let ext = (case for_filename (ad_filename ad) of Some t \<Rightarrow> fcc_val t | None \<Rightarrow> 0) in
                    reply (frame SID_CHECKAD (w_chain [w_u32 (ad_id ad), w_u32 ext, w_u64 0,
                      w_cstr (ad_filename ad), w_cstr (ad_url ad)])) s w)))"

definition stop_advertising :: "u64 \<Rightarrow> bool \<Rightarrow> session \<Rightarrow> 's world \<Rightarrow> 's run" where
  "stop_advertising now starts s w =
     (let n = (case ss_account s of Some a \<Rightarrow> withdraw_game (na_id a) (w_node w) | None \<Rightarrow> w_node w);
          (seat, n) = (if starts \<and> ss_hosting s
            then (case ss_seat s of
                    Some g \<Rightarrow> (Some (g\<lparr>gs_since := now\<rparr>), mark_game_started (ss_product s) (gs_name g) now n)
                  | None \<Rightarrow> (None, n))
            else (ss_seat s, n))
      in (StepContinue, s\<lparr>ss_seat := seat, ss_hosting := False\<rparr>, w\<lparr>w_node := n\<rparr>))"

section \<open>The end of a session\<close>

definition cleanup :: "u64 \<Rightarrow> session \<Rightarrow> 's world \<Rightarrow> session \<times> 's world" where
  "cleanup now s w =
     (let n = fold (\<lambda>k. release_key k now) (ss_claimed_keys s) (w_node w);
          n = fold revoke_realm_ticket (ss_tickets s) n;
          n = (case ss_account s of Some a \<Rightarrow> withdraw_game (na_id a) n | None \<Rightarrow> n);
          n = (case ss_channel s of
                 None \<Rightarrow> n
               | Some key \<Rightarrow>
                   let (_, n) = leave_channel key (ss_display_name s) n in
                   (case encode_frame (chat_event EvLeave (ss_flags s) 0 (ss_display_name s) []) [] of
                      Ok bytes \<Rightarrow> enqueue_leave key bytes n
                    | _ \<Rightarrow> n));
          n = (if ss_display_name s \<noteq> []
               then release_name (ss_display_name s) (unregister_session (ss_display_name s) n) else n)
      in (s\<lparr>ss_claimed_keys := [], ss_tickets := [], ss_channel := None\<rparr>, w\<lparr>w_node := n\<rparr>))"

end
