(* ===== verification/W3general.thy ===== *)
theory W3general
  imports Buf
begin

text \<open>
  \<open>bnetcc-proto/src/w3general.rs\<close>: WarCraft III's matchmaking, profile and icon requests and the
  empty answers the server gives.
\<close>

definition WID_GAMESEARCH :: u8 where "WID_GAMESEARCH = 0x00"
definition WID_MAPLIST :: u8 where "WID_MAPLIST = 0x02"
definition WID_CANCELSEARCH :: u8 where "WID_CANCELSEARCH = 0x03"
definition WID_USERRECORD :: u8 where "WID_USERRECORD = 0x04"
definition WID_TOURNAMENT :: u8 where "WID_TOURNAMENT = 0x07"
definition WID_CLANRECORD :: u8 where "WID_CLANRECORD = 0x08"
definition WID_ICONLIST :: u8 where "WID_ICONLIST = 0x09"
definition WID_SETICON :: u8 where "WID_SETICON = 0x0A"

lemmas wid_defs = WID_GAMESEARCH_def WID_MAPLIST_def WID_CANCELSEARCH_def WID_USERRECORD_def
  WID_TOURNAMENT_def WID_CLANRECORD_def WID_ICONLIST_def WID_SETICON_def

definition W3_NAME_MAX :: nat where "W3_NAME_MAX = 64"

datatype w3_request =
    GameSearch (gs_cookie: u32) (gs_game_type: u8) (gs_maps: u16) (gs_race: u32)
  | MapList (ml_cookie: u32) (ml_blocks: "(u32 \<times> u32) list")
  | CancelSearch
  | UserRecord (ur_cookie: u32) (ur_account: bytes) (ur_product: four_cc)
  | Tournament u32
  | ClanRecord (cr_cookie: u32) (cr_tag: four_cc) (cr_product: four_cc)
  | IconList u32
  | SetIcon four_cc
  | OtherRequest u8

fun rd_blocks :: "nat \<Rightarrow> (u32 \<times> u32) list rd" where
  "rd_blocks 0 = rd_return []"
| "rd_blocks (Suc n) =
     rd_bind rd_u32 (\<lambda>i. rd_bind rd_u32 (\<lambda>c. rd_bind (rd_blocks n) (\<lambda>bs. rd_return ((i, c) # bs))))"

definition game_search_fields :: "w3_request rd" where
  "game_search_fields =
     rd_bind rd_u32 (\<lambda>cookie. rd_bind rd_u32 (\<lambda>_. rd_bind rd_u8 (\<lambda>_. rd_bind rd_u8 (\<lambda>game_type.
     rd_bind rd_u16 (\<lambda>maps. rd_bind rd_u16 (\<lambda>_. rd_bind rd_u8 (\<lambda>_. rd_bind rd_u32 (\<lambda>_.
     rd_bind rd_u32 (\<lambda>race. rd_return (GameSearch cookie game_type maps race))))))))))"

definition w3_request_fields :: "w3_request rd" where
  "w3_request_fields =
     rd_bind rd_u8 (\<lambda>sub.
     if sub = WID_GAMESEARCH then game_search_fields
     else if sub = WID_MAPLIST then
       rd_bind rd_u32 (\<lambda>cookie. rd_bind rd_u8 (\<lambda>n. rd_bind (rd_blocks (unat n)) (\<lambda>bs.
       rd_return (MapList cookie bs))))
     else if sub = WID_CANCELSEARCH then rd_return CancelSearch
     else if sub = WID_USERRECORD then
       rd_bind rd_u32 (\<lambda>cookie. rd_bind (rd_cstr W3_NAME_MAX) (\<lambda>account. rd_bind rd_fourcc (\<lambda>p.
       rd_return (UserRecord cookie account p))))
     else if sub = WID_TOURNAMENT then rd_bind rd_u32 (\<lambda>cookie. rd_return (Tournament cookie))
     else if sub = WID_CLANRECORD then
       rd_bind rd_u32 (\<lambda>cookie. rd_bind rd_fourcc (\<lambda>tag. rd_bind rd_fourcc (\<lambda>p.
       rd_return (ClanRecord cookie tag p))))
     else if sub = WID_ICONLIST then rd_bind rd_u32 (\<lambda>cookie. rd_return (IconList cookie))
     else if sub = WID_SETICON then rd_bind rd_fourcc (\<lambda>icon. rd_return (SetIcon icon))
     else rd_return (OtherRequest sub))"

definition w3_parse :: "bytes \<Rightarrow> w3_request proto_result" where
  "w3_parse body = obind (w3_request_fields (rd_new body)) (\<lambda>(q, _). Ok q)"

definition race_records :: "four_cc \<Rightarrow> nat" where
  "race_records p = (if p = W3XP then 6 else 5)"

definition no_tournament :: "u32 \<Rightarrow> bytes" where
  "no_tournament cookie =
     w_chain [w_u8 WID_TOURNAMENT, w_u32 cookie, w_u8 0, w_u64 0, w_u16 0, w_u16 0, w_u8 0, w_u8 0,
       w_u8 0, w_bytes (replicate 4 0)]"

definition empty_user_record :: "u32 \<Rightarrow> nat \<Rightarrow> bytes" where
  "empty_user_record cookie races =
     w_chain ([w_u8 WID_USERRECORD, w_u32 cookie, w_u32 0, w_u8 0, w_u8 (word_of_nat races)] @
       concat (replicate races [w_u16 0, w_u16 0]) @ [w_u8 0, w_u64 0, w_u8 0])"

definition empty_clan_record :: "u32 \<Rightarrow> nat \<Rightarrow> bytes" where
  "empty_clan_record cookie races =
     w_chain ([w_u8 WID_CLANRECORD, w_u32 cookie, w_u8 0, w_u8 (word_of_nat races)] @
       concat (replicate races [w_u32 0, w_u32 0]))"

definition empty_icon_list :: "u32 \<Rightarrow> bytes" where
  "empty_icon_list cookie = w_chain [w_u8 WID_ICONLIST, w_u32 cookie, w_u32 0, w_u8 0, w_u8 0]"

section \<open>Facts\<close>

lemma rd_safe_blocks [rd_safe_intros]: "rd_safe (rd_blocks n)"
  by (induction n) (auto intro!: rd_safe_intros)

lemma w3_parse_no_panic: "w3_parse body \<noteq> Panic"
proof -
  have "rd_safe w3_request_fields"
    by (auto simp: w3_request_fields_def game_search_fields_def intro!: rd_safe_intros)
  from rd_safe_no_panic [OF this, of body] show ?thesis by (auto simp: w3_parse_def obind_Panic_conv)
qed

text \<open>A reply starts with the subcommand and the cookie of its request.\<close>

lemma w3_replies_echo:
  "take 5 (no_tournament c) = WID_TOURNAMENT # le32 c"
  "take 5 (empty_user_record c n) = WID_USERRECORD # le32 c"
  "take 5 (empty_clan_record c n) = WID_CLANRECORD # le32 c"
  "take 5 (empty_icon_list c) = WID_ICONLIST # le32 c"
proof -
  have grow: "\<exists>t. fold (\<lambda>f. f) fs w = w @ t" if "\<forall>f \<in> set fs. \<forall>w. \<exists>t. f w = w @ t"
    for fs :: "(writer \<Rightarrow> writer) list" and w
    using that by (induction fs arbitrary: w) (simp, metis append_assoc fold_simps(2) list.set_intros)
  have ws: "\<exists>t. w_u16 a w = w @ t" "\<exists>t. w_u32 b w = w @ t" "\<exists>t. w_u8 d w = w @ t" "\<exists>t. w_u64 e w = w @ t"
    "\<exists>t. w_bytes x w = w @ t" for a b d e x w
    by (simp_all add: w_u16_def w_u32_def w_u8_def w_u64_def w_bytes_def)
  have head: "take 5 (w_chain (w_u8 i # w_u32 c # fs)) = i # le32 c"
    if "\<forall>f \<in> set fs. \<forall>w. \<exists>t. f w = w @ t" for i fs
  proof -
    note all = that
    obtain t where "w_chain (w_u8 i # w_u32 c # fs) = (i # le32 c) @ t"
      using grow [OF all, of "i # le32 c"] by (auto simp: w_chain_def w_u8_def w_u32_def w_new_def)
    moreover have "length (i # le32 c) = 5" by simp
    ultimately show ?thesis by (metis append_eq_conv_conj)
  qed
  show "take 5 (no_tournament c) = WID_TOURNAMENT # le32 c"
    unfolding no_tournament_def by (rule head) (auto simp: ws)
  show "take 5 (empty_user_record c n) = WID_USERRECORD # le32 c"
    unfolding empty_user_record_def append_Cons by (rule head) (auto simp: ws)
  show "take 5 (empty_clan_record c n) = WID_CLANRECORD # le32 c"
    unfolding empty_clan_record_def append_Cons by (rule head) (auto simp: ws)
  show "take 5 (empty_icon_list c) = WID_ICONLIST # le32 c"
    unfolding empty_icon_list_def by (rule head) (auto simp: ws)
qed

end
