(* ===== verification/Session_Chat.thy ===== *)
theory Session_Chat
  imports Session W3general
begin

text \<open>
  \<open>bnetccd/src/session.rs\<close>, the handlers of a logged-on client that are about chat: the closed realm
  a Diablo II client is sent to, entering chat, channels, talk and its flood control, the slash
  commands of users, channel operators and staff, and the lists a client asks for.
\<close>

section \<open>Texts\<close>

definition sat_add :: "'w::len word \<Rightarrow> 'w word \<Rightarrow> 'w word" where
  "sat_add a b = (if unat a + unat b < 2 ^ LENGTH('w) then a + b else - 1)"

definition be16 :: "u16 \<Rightarrow> bytes" where "be16 v = rev (le16 v)"

text \<open>\<open>str::split_whitespace\<close>; the first argument is the word read so far.\<close>

fun split_words :: "bytes \<Rightarrow> bytes \<Rightarrow> bytes list" where
  "split_words cur [] = (if cur = [] then [] else [cur])"
| "split_words cur (b # bs) =
     (case lead_space white_space (b # bs) of
        0 \<Rightarrow> split_words (cur @ [b]) bs
      | Suc k \<Rightarrow> (if cur = [] then [] else [cur]) @ split_words [] (drop k bs))"

abbreviation split_whitespace :: "bytes \<Rightarrow> bytes list" where
  "split_whitespace \<equiv> split_words []"

abbreviation comma :: bytes where "comma \<equiv> [0x2C, 0x20]"

definition quoted :: "bytes \<Rightarrow> bytes" where "quoted s = [0x27] @ s @ [0x27]"

section \<open>The closed realm\<close>

definition offered_realm :: "'s env \<Rightarrow> session \<Rightarrow> d2_realm option" where
  "offered_realm env s = (if is_d2 (ss_product s) then en_realm env else None)"

definition query_realms :: "'s env \<Rightarrow> session \<Rightarrow> 's world \<Rightarrow> 's run" where
  "query_realms env s w =
     reply (frame SID_QUERYREALMS2 (w_chain ([w_u32 0] @
       (case offered_realm env s of
          Some realm \<Rightarrow> [w_u32 1, w_u32 1, w_cstr (dr_name realm), w_cstr (dr_description realm)]
        | None \<Rightarrow> [w_u32 0])))) s w"

definition REALM_UNAVAILABLE :: u32 where "REALM_UNAVAILABLE = 0x80000001"

definition logon_realm_fields :: "(u32 \<times> bytes) rd" where
  "logon_realm_fields =
     rd_bind rd_u32 (\<lambda>token. rd_bind (rd_bytes 20) (\<lambda>_. rd_bind (rd_cstr 64) (\<lambda>title.
     rd_return (token, utf8_lossy title))))"

text \<open>
  A list of draws without a usable id stands for draws still to be made: there is no reply yet.
\<close>

definition logon_realm :: "'s env \<Rightarrow> tick \<Rightarrow> bytes \<Rightarrow> session \<Rightarrow> 's world \<Rightarrow> 's run" where
  "logon_realm env t body s w =
     (case parse logon_realm_fields body of
        None \<Rightarrow> (StepClose, s, w)
      | Some (client_token, title) \<Rightarrow>
          let refused = reply (frame SID_LOGONREALMEX (w_chain [w_u32 client_token, w_u32 REALM_UNAVAILABLE])) s w in
          (case (ss_account s, ss_product s) of
             (Some a, Some product) \<Rightarrow>
               if product \<noteq> D2DV \<and> product \<noteq> D2XP then refused
               else
                 (case en_realm env of
                    None \<Rightarrow> refused
                  | Some realm \<Rightarrow>
                      if \<not> eq_nocase (dr_name realm) title then refused
                      else
                        (case client_facing_ipv4 (en_lookup env) (ss_ip s) (ss_local s) realm of
                           None \<Rightarrow> refused
                         | Some ip \<Rightarrow>
                             let port = (case ss_local s of Some (_, p) \<Rightarrow> p | None \<Rightarrow> 6112) in
                             (case mint_realm_ticket a product (tk_cookie t) (tk_draws t) (w_node w) of
                                None \<Rightarrow> (StepContinue, s, w)
                              | Some ((ticket, cookie), n) \<Rightarrow>
                                  reply (frame SID_LOGONREALMEX (w_chain [w_u32 cookie, w_u32 0,
                                    w_u32 (ucast ticket), w_u32 (ucast (drop_bit 32 ticket)), w_bytes ip,
                                    w_bytes (be16 port), w_u16 0, w_bytes (replicate 48 0), w_cstr (na_name a)]))
                                    (s\<lparr>ss_tickets := ss_tickets s @ [ticket]\<rparr>) (w\<lparr>w_node := n\<rparr>))))
           | _ \<Rightarrow> refused))"

section \<open>Channels\<close>

definition leave_current :: "bytes \<Rightarrow> session \<Rightarrow> 's world \<Rightarrow> 's world" where
  "leave_current key s w =
     (let (_, n) = leave_channel key (ss_display_name s) (w_node w) in
      w\<lparr>w_node := (case encode_vec (chat_event EvLeave (ss_flags s) 0 (ss_display_name s) []) of
          Some bytes \<Rightarrow> enqueue_leave key bytes n | None \<Rightarrow> n)\<rparr>)"

definition leave_chat :: "session \<Rightarrow> 's world \<Rightarrow> 's run" where
  "leave_chat s w =
     (case ss_channel s of
        None \<Rightarrow> (StepContinue, s, w)
      | Some key \<Rightarrow> (StepContinue, s\<lparr>ss_channel := None\<rparr>, leave_current key (s\<lparr>ss_channel := None\<rparr>) w))"

text \<open>A frame that does not fit its length field is left out of the buffer.\<close>

definition append_frame :: "bncs_frame \<Rightarrow> bytes \<Rightarrow> bytes" where
  "append_frame f buf = (case encode_frame f buf of Ok b \<Rightarrow> b | _ \<Rightarrow> buf)"

definition join_snapshot :: "session \<Rightarrow> joined_channel \<Rightarrow> occupant list \<Rightarrow> bytes" where
  "join_snapshot s joined existing =
     append_frame (chat_event EvShowUser (ss_flags s) 0 (ss_display_name s) (ss_statstring s))
       (fold (\<lambda>oc. append_frame (chat_event EvShowUser (oc_flags oc) 0 (oc_name oc) (oc_statstring oc))) existing
         (append_frame (chat_event EvChannel (jc_flags joined) 0 [] (jc_display joined)) []))"

definition announce_join :: "session \<Rightarrow> joined_channel \<Rightarrow> node \<Rightarrow> node" where
  "announce_join s joined n =
     (case encode_vec (chat_event EvJoin (ss_flags s) 0 (ss_display_name s) (ss_statstring s)) of
        Some wire \<Rightarrow> snd (broadcast (jc_key joined) wire (Some (ss_display_name s)) None n)
      | None \<Rightarrow> n)"

definition denial_event :: "join_denial \<Rightarrow> event_id option" where
  "denial_event d = (case d of
     JoinFull \<Rightarrow> Some EvChannelFull
   | JoinBanned \<Rightarrow> Some EvChannelRestricted
   | JoinRestricted \<Rightarrow> Some EvChannelRestricted
   | AlreadyPresent \<Rightarrow> None)"

definition enter_channel :: "'s env \<Rightarrow> bytes \<Rightarrow> node_account \<Rightarrow> session \<Rightarrow> 's world \<Rightarrow> 's run" where
  "enter_channel env requested a s w =
     (let (r, n) = join_channel (en_cfg env) requested (na_id a) (ss_display_name s) (ss_flags s)
            (map_option fourcc_text (ss_product s)) (ss_statstring s) (ss_out s) (w_node w);
          w = w\<lparr>w_node := n\<rparr>
      in (case r of
            Panic \<Rightarrow> (StepClose, s, w)
          | Err d \<Rightarrow>
              (case denial_event d of
                 None \<Rightarrow> (StepContinue, s, w)
               | Some ev \<Rightarrow> say ev requested s w)
          | Ok (joined, existing) \<Rightarrow>
              let s = s\<lparr>ss_flags := jo_flags (jc_outcome joined), ss_channel := Some (jc_key joined)\<rparr>;
                  (ok, n) = send_to (ss_out s) (join_snapshot s joined existing) (w_node w)
              in if \<not> ok then (StepClose, s, w\<lparr>w_node := n\<rparr>)
                 else
                   let w = w\<lparr>w_node := announce_join s joined n\<rparr> in
                   (case jc_topic joined of
                      Some topic \<Rightarrow> tell topic s w
                    | None \<Rightarrow> (StepContinue, s, w))))"

definition requested_channel :: "'s env \<Rightarrow> session \<Rightarrow> bytes \<Rightarrow> bytes" where
  "requested_channel env s requested =
     (if trim (utf8_lossy requested) = []
      then (case Option.bind (map_option fourcc_text (ss_product s)) (default_channel (nc_rules (en_cfg env))) of
              Some chan \<Rightarrow> chan | None \<Rightarrow> requested)
      else requested)"

definition do_join :: "'s env \<Rightarrow> bytes \<Rightarrow> node_account \<Rightarrow> session \<Rightarrow> 's world \<Rightarrow> 's run" where
  "do_join env requested a s w =
     (let requested = requested_channel env s requested in
      case ss_channel s of
        None \<Rightarrow> enter_channel env requested a s w
      | Some prev \<Rightarrow>
          if prev = normalize_channel_name requested then (StepContinue, s, w)
          else enter_channel env requested a (s\<lparr>ss_channel := None\<rparr>) (leave_current prev (s\<lparr>ss_channel := None\<rparr>) w))"

definition join_fields :: "(u32 \<times> bytes) rd" where
  "join_fields =
     rd_bind rd_u32 (\<lambda>flags. rd_bind (rd_cstr CHANNEL_NAME_MAX) (\<lambda>name. rd_return (flags, name)))"

definition session_join :: "'s env \<Rightarrow> bytes \<Rightarrow> session \<Rightarrow> 's world \<Rightarrow> 's run" where
  "session_join env body s w =
     (case ss_account s of
        None \<Rightarrow> (StepClose, s, w)
      | Some a \<Rightarrow>
          (case parse join_fields body of
             None \<Rightarrow> (StepClose, s, w)
           | Some (_, requested) \<Rightarrow> do_join env requested a s w))"

section \<open>Entering chat\<close>

text \<open>An account walk that runs out of pages (\<open>en_pages\<close>) counts as empty; see \<open>walk_all\<close>.\<close>

definition ladder_rows :: "'s env \<Rightarrow> bytes \<Rightarrow> league \<Rightarrow> 's \<Rightarrow> ladder_row list \<times> 's" where
  "ladder_rows env product lg st =
     (let (rows, st) = act_ladder_rows (en_pages env) (en_ops env) product lg st in
      (case rows of Some rs \<Rightarrow> rs | None \<Rightarrow> [], st))"

text \<open>A league's part of the record: the stored rating, and the rank in its standings from 1.\<close>

definition league_part :: "'s env \<Rightarrow> bytes \<Rightarrow> bytes \<Rightarrow> league \<Rightarrow> nat option \<Rightarrow> 's \<Rightarrow> (u32 \<times> u32) \<times> 's" where
  "league_part env product name lg stored st =
     (case stored of
        None \<Rightarrow> ((0, 0), st)
      | Some rating \<Rightarrow>
          let (rows, st) = ladder_rows env product lg st;
              rank = (case rank_of (standings rows SortRating) name of Some r \<Rightarrow> word_of_nat r + 1 | None \<Rightarrow> 0)
          in ((word_of_nat rating, rank), st))"

definition record_products :: "four_cc list" where
  "record_products = [STAR, SEXP, JSTR, SSHR, W2BN]"

definition show_record :: "'s env \<Rightarrow> node_account \<Rightarrow> session \<Rightarrow> 's world \<Rightarrow> session \<times> 's world" where
  "show_record env a s w =
     (case ss_product s of
        None \<Rightarrow> (s, w)
      | Some product \<Rightarrow>
          if product \<notin> set record_products then (s, w)
          else
            let name = fourcc_text product;
                key = (\<lambda>lg lf. record_key name (league_index lg) (ascii lf));
                ks = [key LeagueNormal ''wins'', key LeagueLadder ''rating'',
                      key LeagueLadder ''high rating'', key LeagueIronMan ''rating''];
                (attrs, st) = act_read_readable_attrs (en_ops env) (na_name a) ks (w_store w);
                number = (\<lambda>i. Option.bind (fmlookup attrs (ks ! i)) (parse_uint 32));
                ((rating, rank), st) = league_part env name (na_name a) LeagueLadder (number 1) st;
                ((iron_rating, iron_rank), st) = league_part env name (na_name a) LeagueIronMan
                  (if product = W2BN then number 3 else None) st;
                high = (if 0 < rating then (case number 2 of Some n \<Rightarrow> word_of_nat n | None \<Rightarrow> rating) else 0);
                r = \<lparr>sr_rating = rating, sr_rank = rank,
                     sr_wins = (case number 0 of Some n \<Rightarrow> word_of_nat n | None \<Rightarrow> 0),
                     sr_high_rating = high, sr_iron_rating = iron_rating, sr_iron_rank = iron_rank\<rparr>
            in (set_statstring (build_starcraft product r) s, w\<lparr>w_store := st\<rparr>))"

definition enter_chat_fields :: "bytes rd" where
  "enter_chat_fields = rd_bind (rd_cstr USERNAME_MAX) (\<lambda>_. rd_cstr 128)"

definition rename_session :: "bytes \<Rightarrow> session \<Rightarrow> 's world \<Rightarrow> session \<times> 's world" where
  "rename_session chat_name s w =
     (let w = (case ss_channel s of Some key \<Rightarrow> leave_current key (s\<lparr>ss_channel := None\<rparr>) w | None \<Rightarrow> w);
          s = s\<lparr>ss_channel := None\<rparr>;
          n = release_name (ss_display_name s) (unregister_session (ss_display_name s) (w_node w));
          (display, n) = claim_name chat_name n;
          n = register_session display (ss_ip s) (ss_out s) (ss_product s) n
      in (s\<lparr>ss_display_name := display\<rparr>, w\<lparr>w_node := n\<rparr>))"

definition adopt_realm_character :: "'s env \<Rightarrow> bytes \<Rightarrow> node_account \<Rightarrow> session \<Rightarrow> 's world \<Rightarrow> session \<times> 's world" where
  "adopt_realm_character env body a s w =
     (case (ss_product s, offered_realm env s) of
        (Some product, Some realm) \<Rightarrow>
          (case Option.bind (parse enter_chat_fields body) parse_enterchat_statstring of
             None \<Rightarrow> (s, w)
           | Some (realm_name, char_name) \<Rightarrow>
               if \<not> eq_nocase realm_name (dr_name realm) then (s, w)
               else
                 let (found, st) = act_character_by_name (en_ops env) char_name (w_store w);
                     w = w\<lparr>w_store := st\<rparr>
                 in (case found of
                       None \<Rightarrow> (s, w)
                     | Some c \<Rightarrow>
                         if c_account c \<noteq> na_id a then (s, w)
                         else
                           let s = set_statstring (chat_statstring (portrait_of c) product (dr_name realm) (c_name c)) s;
                               chat_name = c_name c @ [0x2A] @ na_name a
                           in if eq_nocase (account_base (ss_display_name s)) chat_name then (s, w)
                              else rename_session chat_name s w))
      | _ \<Rightarrow> (s, w))"

definition enter_chat_reply :: "session \<Rightarrow> bncs_frame" where
  "enter_chat_reply s =
     frame SID_ENTERCHAT (w_chain [w_cstr (ss_display_name s), w_cstr (ss_statstring s), w_cstr (ss_display_name s)])"

definition enter_chat :: "'s env \<Rightarrow> bytes \<Rightarrow> session \<Rightarrow> 's world \<Rightarrow> 's run" where
  "enter_chat env body s w =
     (case ss_account s of
        None \<Rightarrow> (StepClose, s, w)
      | Some a \<Rightarrow>
          let (s, w) = adopt_realm_character env body a s w; (s, w) = show_record env a s w in
          (case reply (enter_chat_reply s) s w of
             (StepClose, s, w) \<Rightarrow> (StepClose, s, w)
           | (StepContinue, s, w) \<Rightarrow> tell (nc_motd (en_cfg env)) s w))"

section \<open>Talk\<close>

text \<open>Whether the session is still a member, and if not the channel forgotten and the user told.\<close>

definition ensure_member :: "bytes \<Rightarrow> session \<Rightarrow> 's world \<Rightarrow> bool \<times> session \<times> 's world" where
  "ensure_member key s w =
     (if is_member key (ss_display_name s) (w_node w) then (True, s, w)
      else (False, snd (say EvError (ascii ''You are no longer in a channel.'') (s\<lparr>ss_channel := None\<rparr>) w)))"

definition apply_flood_penalty :: "flood_penalty \<Rightarrow> u64 \<Rightarrow> session \<Rightarrow> 's world \<Rightarrow> 's run" where
  "apply_flood_penalty pen now s w =
     (case pen of
        DropMessage \<Rightarrow> say EvError (ascii ''You are talking too fast; slow down.'') s w
      | flood_penalty.Mute seconds \<Rightarrow>
          say EvError (ascii ''You have been temporarily muted for flooding.'')
            (s\<lparr>ss_muted_until := sat_add now (ucast seconds * 1000)\<rparr>) w
      | Disconnect \<Rightarrow> (StepClose, snd (reply (frame_empty SID_FLOODDETECTED) s w)))"

text \<open>
  A line to the channel as \<open>ev\<close>: talk is not echoed to the sender, an emote is. Recipients who
  ignore the account are skipped, and the lines lost to full queues only reach the log.
\<close>

definition broadcast_line :: "event_id \<Rightarrow> bytes option \<Rightarrow> bytes \<Rightarrow> bytes \<Rightarrow> node_account \<Rightarrow> session \<Rightarrow> 's world \<Rightarrow> 's world" where
  "broadcast_line ev exclude key text a s w =
     (case encode_vec (chat_event ev (ss_flags s) 0 (ss_display_name s) text) of
        Some wire \<Rightarrow> w\<lparr>w_node := snd (broadcast key wire exclude (Some (na_name a)) (w_node w))\<rparr>
      | None \<Rightarrow> w)"

definition emote :: "u64 \<Rightarrow> bytes \<Rightarrow> node_account \<Rightarrow> bytes \<Rightarrow> session \<Rightarrow> 's world \<Rightarrow> 's run" where
  "emote now arg a key s w =
     (case ensure_member key s w of
        (False, s, w) \<Rightarrow> (StepContinue, s, w)
      | (True, s, w) \<Rightarrow>
          if is_muted (na_name a) now (w_bans w) then (StepContinue, s, w)
          else (StepContinue, s, broadcast_line EvEmote None key (sanitize_chat_text arg) a s w))"

definition talk :: "u64 \<Rightarrow> bytes \<Rightarrow> node_account \<Rightarrow> bytes \<Rightarrow> session \<Rightarrow> 's world \<Rightarrow> 's run" where
  "talk now text a key s w =
     (case ensure_member key s w of
        (False, s, w) \<Rightarrow> (StepContinue, s, w)
      | (True, s, w) \<Rightarrow>
          if is_muted (na_name a) now (w_bans w) then (StepContinue, s, w)
          else (StepContinue, s, broadcast_line EvTalk (Some (ss_display_name s)) key text a s w))"

section \<open>Operator commands\<close>

text \<open>
  The tail of a kick or ban: the removed user is told on its own connection, and the departure is
  announced to the channel.
\<close>

definition after_removal :: "bytes \<Rightarrow> bytes \<Rightarrow> handle option \<Rightarrow> bytes \<Rightarrow> session \<Rightarrow> 's world \<Rightarrow> 's world" where
  "after_removal key target target_out verb s w =
     (let n = w_node w;
          n = (case target_out of
                 None \<Rightarrow> n
               | Some h \<Rightarrow>
                   (case encode_vec (chat_event EvError 0 0 []
                        (ascii ''You were '' @ verb @ ascii '' from the channel by '' @ ss_display_name s @ ascii ''.'')) of
                      Some wire \<Rightarrow> snd (send_to h wire n) | None \<Rightarrow> n));
          n = (case encode_vec (chat_event EvLeave 0 0 target []) of
                 Some bytes \<Rightarrow> enqueue_leave key bytes n | None \<Rightarrow> n)
      in w\<lparr>w_node := n\<rparr>)"

definition not_operator :: bytes where "not_operator = ascii ''You are not the channel operator.''"

definition op_kick :: "bytes \<Rightarrow> node_account \<Rightarrow> bytes \<Rightarrow> session \<Rightarrow> 's world \<Rightarrow> 's run" where
  "op_kick target a key s w =
     (if target = [] then op_error (ascii ''Usage: /kick <user>'') s w
      else
        let (r, n) = channel_kick key (na_id a) target (w_node w); w = w\<lparr>w_node := n\<rparr> in
        (case r of
           ModNotOperator \<Rightarrow> op_error not_operator s w
         | ModNotFound \<Rightarrow> op_error (ascii ''No such user in this channel.'') s w
         | ModCannotTargetSelf \<Rightarrow> op_error (ascii ''You cannot kick yourself.'') s w
         | ModOk target_out _ \<Rightarrow>
             tell (ascii ''You kicked '' @ target @ ascii ''.'') s
               (after_removal key target target_out (ascii ''kicked'') s w)))"

definition op_ban :: "bytes \<Rightarrow> node_account \<Rightarrow> bytes \<Rightarrow> session \<Rightarrow> 's world \<Rightarrow> 's run" where
  "op_ban target a key s w =
     (if target = [] then op_error (ascii ''Usage: /ban <user>'') s w
      else
        let (r, n) = channel_ban key (na_id a) target (w_node w); w = w\<lparr>w_node := n\<rparr> in
        (case r of
           ModNotOperator \<Rightarrow> op_error not_operator s w
         | ModNotFound \<Rightarrow> op_error (ascii ''No such user in this channel.'') s w
         | ModCannotTargetSelf \<Rightarrow> op_error (ascii ''You cannot ban yourself.'') s w
         | ModOk target_out _ \<Rightarrow>
             tell (ascii ''You banned '' @ target @ ascii ''.'') s
               (after_removal key target target_out (ascii ''banned'') s w)))"

definition op_unban :: "'s env \<Rightarrow> bytes \<Rightarrow> node_account \<Rightarrow> bytes \<Rightarrow> session \<Rightarrow> 's world \<Rightarrow> 's run" where
  "op_unban env target a key s w =
     (if target = [] then op_error (ascii ''Usage: /unban <user>'') s w
      else
        let (found, st) = act_account_by_name (en_ops env) target (w_store w); w = w\<lparr>w_store := st\<rparr> in
        (case found of
           None \<Rightarrow> op_error (ascii ''No such account.'') s w
         | Some acct \<Rightarrow>
             let (r, n) = channel_unban key (na_id a) (na_id acct) (w_node w); w = w\<lparr>w_node := n\<rparr> in
             (case r of
                ModNotOperator \<Rightarrow> op_error not_operator s w
              | ModNotFound \<Rightarrow> op_error (ascii ''No such channel.'') s w
              | _ \<Rightarrow> tell (ascii ''Unbanned '' @ target @ ascii ''.'') s w)))"

definition op_designate :: "bytes \<Rightarrow> node_account \<Rightarrow> bytes \<Rightarrow> session \<Rightarrow> 's world \<Rightarrow> 's run" where
  "op_designate target a key s w =
     (if target = [] then op_error (ascii ''Usage: /designate <user>'') s w
      else
        let (r, n) = channel_designate key (na_id a) target (w_node w); w = w\<lparr>w_node := n\<rparr> in
        (case r of
           ModNotOperator \<Rightarrow> op_error not_operator s w
         | ModNotFound \<Rightarrow> op_error (ascii ''No such user in this channel.'') s w
         | ModCannotTargetSelf \<Rightarrow> op_error (ascii ''You cannot designate yourself.'') s w
         | ModOk _ _ \<Rightarrow> tell (target @ ascii '' will inherit operator when you leave.'') s w))"

section \<open>Personal ignore\<close>

definition with_ignores :: "(outbound \<Rightarrow> bool \<times> outbound) \<Rightarrow> session \<Rightarrow> 's world \<Rightarrow> bool \<times> 's world" where
  "with_ignores f s w =
     (let (r, ob) = f (nd_outbounds (w_node w) (ss_out s)) in
      (r, w\<lparr>w_node := (w_node w)\<lparr>nd_outbounds := (nd_outbounds (w_node w))(ss_out s := ob)\<rparr>\<rparr>))"

definition squelch :: "bytes \<Rightarrow> session \<Rightarrow> 's world \<Rightarrow> 's run" where
  "squelch arg s w =
     (let target = account_base (trim arg) in
      if target = [] then
        (let ignored = sorted_list_of_fset (ob_ignores (nd_outbounds (w_node w) (ss_out s))) in
         if ignored = [] then tell (ascii ''You are not squelching anyone. Usage: /squelch <user>'') s w
         else tell (ascii ''Squelched: '' @ join_with comma ignored) s w)
      else if eq_nocase target (account_base (ss_display_name s))
      then op_error (ascii ''You cannot squelch yourself.'') s w
      else
        let (added, w) = with_ignores (ignore_add target) s w in
        if added then tell (ascii ''You will no longer see messages from '' @ target @ ascii ''.'') s w
        else tell (target @ ascii '' is already squelched.'') s w)"

definition unsquelch :: "bytes \<Rightarrow> session \<Rightarrow> 's world \<Rightarrow> 's run" where
  "unsquelch arg s w =
     (let target = account_base (trim arg) in
      if target = [] then op_error (ascii ''Usage: /unsquelch <user>'') s w
      else
        let (removed, w) = with_ignores (ignore_remove target) s w in
        if removed then tell (ascii ''You will now see messages from '' @ target @ ascii '' again.'') s w
        else tell (target @ ascii '' was not squelched.'') s w)"

section \<open>Staff commands\<close>

definition NEVER :: u64 where "NEVER = - 1"

definition require_staff :: "session \<Rightarrow> bool" where
  "require_staff s \<longleftrightarrow> ss_flags s AND UF_ADMIN \<noteq> 0"

definition staff_denied :: "session \<Rightarrow> 's world \<Rightarrow> 's run" where
  "staff_denied s w = op_error (ascii ''That command is restricted to server administrators.'') s w"

text \<open>Hours (none for good) and their text; \<open>None\<close> for a malformed argument.\<close>

definition parse_ban_duration :: "bytes option \<Rightarrow> u64 \<Rightarrow> (u64 option \<times> bytes) option" where
  "parse_ban_duration token default_hours =
     (let permanent = (None, ascii ''permanently'');
          lasting = (\<lambda>h. (Some h, ascii ''for '' @ decimal (unat h) @ ascii ''h''))
      in case token of
           None \<Rightarrow> Some (if default_hours = 0 then permanent else lasting default_hours)
         | Some t \<Rightarrow>
             if t = ascii ''0'' \<or> eq_nocase t (ascii ''perm'') \<or> eq_nocase t (ascii ''permanent'')
             then Some permanent
             else map_option (\<lambda>h. lasting (word_of_nat h)) (parse_uint 64 t))"

definition fmt_remaining :: "u64 \<Rightarrow> u64 \<Rightarrow> bytes" where
  "fmt_remaining expiry_ms now_ms =
     (if expiry_ms = NEVER then ascii ''permanent''
      else
        let secs = unat (sat_sub expiry_ms now_ms) div 1000 in
        if secs \<ge> 3600
        then decimal (secs div 3600) @ ascii ''h '' @ decimal (secs mod 3600 div 60) @ ascii ''m left''
        else decimal (secs div 60) @ ascii ''m left'')"

definition expiry_of :: "u64 \<Rightarrow> u64 option \<Rightarrow> u64" where
  "expiry_of now hours =
     (case hours of Some h \<Rightarrow> sat_add now (sat_mul h 3600000) | None \<Rightarrow> NEVER)"

definition staff_tagban :: "bytes \<Rightarrow> session \<Rightarrow> 's world \<Rightarrow> 's run" where
  "staff_tagban arg s w =
     (if \<not> require_staff s then staff_denied s w
      else
        let sub = trim arg in
        if sub = [] then op_error (ascii ''Usage: /tagban <text>  (bans any name containing <text>)'') s w
        else
          let (added, b) = add_tag sub (w_bans w); w = w\<lparr>w_bans := b\<rparr> in
          if \<not> added then op_error (quoted sub @ ascii '' is already tag-banned.'') s w
          else
            let (removed, n) = (case removal_notice (ascii ''You have been removed from this server by an administrator.'') of
                  Some notice \<Rightarrow> disconnect_name_matches (lowercase sub) notice (w_node w)
                | None \<Rightarrow> (0, w_node w))
            in tell (ascii ''Tag-banned '' @ quoted sub @ ascii '': '' @ decimal removed @
                 ascii '' online user(s) removed; matching logins are now refused.'') s (w\<lparr>w_node := n\<rparr>))"

definition staff_tagunban :: "bytes \<Rightarrow> session \<Rightarrow> 's world \<Rightarrow> 's run" where
  "staff_tagunban arg s w =
     (if \<not> require_staff s then staff_denied s w
      else
        let sub = trim arg in
        if sub = [] then op_error (ascii ''Usage: /tagunban <text>'') s w
        else
          let (removed, b) = remove_tag sub (w_bans w); w = w\<lparr>w_bans := b\<rparr> in
          if removed then tell (ascii ''Tag ban '' @ quoted sub @ ascii '' lifted.'') s w
          else op_error (quoted sub @ ascii '' is not tag-banned.'') s w)"

definition staff_ipban :: "u64 \<Rightarrow> bytes \<Rightarrow> session \<Rightarrow> 's world \<Rightarrow> 's run" where
  "staff_ipban now arg s w =
     (if \<not> require_staff s then staff_denied s w
      else case split_whitespace arg of
        [] \<Rightarrow> op_error (ascii ''Usage: /ipban <user> [hours]  (0 or '' @ quoted (ascii ''perm'') @ ascii '' = permanent)'') s w
      | user # opts \<Rightarrow>
          (case session_ip user (w_node w) of
             None \<Rightarrow> op_error (ascii ''No such user online.'') s w
           | Some ip \<Rightarrow>
               if ip = ss_ip s then op_error (ascii ''That is your own address; refusing to ban yourself.'') s w
               else
                 (case parse_ban_duration (case opts of t # _ \<Rightarrow> Some t | [] \<Rightarrow> None) 24 of
                    None \<Rightarrow> op_error (ascii ''Hours must be a whole number, 0, or '' @ quoted (ascii ''perm'') @ ascii ''.'') s w
                  | Some (hours, human) \<Rightarrow>
                      let w = w\<lparr>w_bans := ban_ip ip (expiry_of now hours) now (w_bans w)\<rparr>;
                          (removed, n) = (case removal_notice (ascii ''You have been banned from this server by an administrator.'') of
                              Some notice \<Rightarrow> disconnect_ip ip notice (w_node w)
                            | None \<Rightarrow> (0, w_node w))
                      in tell (ascii ''Banned '' @ show_ip ip @ ascii '' '' @ human @ ascii '': '' @ decimal removed @
                           ascii '' session(s) disconnected.'') s (w\<lparr>w_node := n\<rparr>))))"

definition staff_ipunban :: "u64 \<Rightarrow> bytes \<Rightarrow> session \<Rightarrow> 's world \<Rightarrow> 's run" where
  "staff_ipunban now arg s w =
     (if \<not> require_staff s then staff_denied s w
      else case parse_ip (trim arg) of
        None \<Rightarrow> op_error (ascii ''Usage: /ipunban <ip address>'') s w
      | Some ip \<Rightarrow>
          let (lifted, b) = unban_ip ip now (w_bans w); w = w\<lparr>w_bans := b\<rparr> in
          if lifted then tell (ascii ''IP ban on '' @ show_ip ip @ ascii '' lifted.'') s w
          else op_error (show_ip ip @ ascii '' is not banned.'') s w)"

definition staff_mute :: "u64 \<Rightarrow> bytes \<Rightarrow> session \<Rightarrow> 's world \<Rightarrow> 's run" where
  "staff_mute now arg s w =
     (if \<not> require_staff s then staff_denied s w
      else case split_whitespace arg of
        [] \<Rightarrow> op_error (ascii ''Usage: /mute <user> [hours]  (no hours = indefinite)'') s w
      | user # opts \<Rightarrow>
          (case parse_ban_duration (case opts of t # _ \<Rightarrow> Some t | [] \<Rightarrow> None) 0 of
             None \<Rightarrow> op_error (ascii ''Hours must be a whole number, 0, or '' @ quoted (ascii ''perm'') @ ascii ''.'') s w
           | Some (hours, human) \<Rightarrow>
               let base = account_base user;
                   human = (case hours of Some _ \<Rightarrow> human | None \<Rightarrow> ascii ''indefinitely'')
               in tell (ascii ''Muted '' @ base @ ascii '' '' @ human @ ascii ''.'') s
                    (w\<lparr>w_bans := mute base (expiry_of now hours) now (w_bans w)\<rparr>)))"

definition staff_unmute :: "u64 \<Rightarrow> bytes \<Rightarrow> session \<Rightarrow> 's world \<Rightarrow> 's run" where
  "staff_unmute now arg s w =
     (if \<not> require_staff s then staff_denied s w
      else
        let base = account_base (trim arg) in
        if base = [] then op_error (ascii ''Usage: /unmute <user>'') s w
        else
          let (lifted, b) = unmute base now (w_bans w); w = w\<lparr>w_bans := b\<rparr> in
          if lifted then tell (base @ ascii '' is no longer muted.'') s w
          else op_error (base @ ascii '' is not muted.'') s w)"

text \<open>The listing of bans; the entries of the two tables come in the tables' order.\<close>

definition ban_lines :: "u64 \<Rightarrow> ban_snapshot \<Rightarrow> bytes list" where
  "ban_lines now sn =
     (let left = (\<lambda>e. ascii '' ('' @ fmt_remaining (case e of Some e \<Rightarrow> e | None \<Rightarrow> 0) now @ ascii '')'') in
      if sn_tags sn = [] \<and> fmdom (sn_ip_bans sn) = {||} \<and> fmdom (sn_mutes sn) = {||}
      then [ascii ''No active bans or mutes.'']
      else
        (if sn_tags sn \<noteq> [] then [ascii ''Tag bans: '' @ join_with comma (sn_tags sn)] else []) @
        map (\<lambda>ip. ascii ''IP ban: '' @ show_ip ip @ left (fmlookup (sn_ip_bans sn) ip))
          (sorted_list_of_fset (fmdom (sn_ip_bans sn))) @
        map (\<lambda>name. ascii ''Mute: '' @ name @ left (fmlookup (sn_mutes sn) name))
          (sorted_list_of_fset (fmdom (sn_mutes sn))))"

definition staff_bans :: "u64 \<Rightarrow> session \<Rightarrow> 's world \<Rightarrow> 's run" where
  "staff_bans now s w =
     (if \<not> require_staff s then staff_denied s w
      else send_lines (ban_lines now (ban_snapshot now (w_bans w))) s w)"

section \<open>Slash commands\<close>

definition who_is_here :: "bytes \<Rightarrow> bytes \<Rightarrow> session \<Rightarrow> 's world \<Rightarrow> 's run" where
  "who_is_here arg key s w =
     (let ns = channel_occupant_names (if arg = [] then key else normalize_channel_name arg) (w_node w) in
      if ns = [] then tell (ascii ''No such channel, or it is empty.'') s w
      else tell (ascii ''Users in channel ('' @ decimal (length ns) @ ascii ''): '' @ join_with comma ns) s w)"

definition help_lines :: "bool \<Rightarrow> bytes list" where
  "help_lines staff =
     [ascii ''Commands: /help, /join <channel>, /me <action>, /who [channel], /whoami, /ver'',
      ascii ''Personal: /squelch <user>, /unsquelch <user>'',
      ascii ''Operator: /kick <user>, /ban <user>, /unban <user>, /designate <user>''] @
     (if staff then [ascii ''Staff: /tagban <text>, /tagunban <text>, /ipban <user> [hrs], /ipunban <ip>, /mute <user> [hrs], /unmute <user>, /bans'']
      else [])"

definition em_dash :: bytes where "em_dash = [0xE2, 0x80, 0x94]"

definition run_command :: "'s env \<Rightarrow> u64 \<Rightarrow> bytes \<Rightarrow> bytes \<Rightarrow> node_account \<Rightarrow> bytes \<Rightarrow> session \<Rightarrow> 's world \<Rightarrow> 's run" where
  "run_command env now cmd arg a key s w =
     (let is = (\<lambda>names. cmd \<in> set (map ascii names)) in
      if is [''join'', ''j''] then
        (if arg = [] then say EvError (ascii ''Usage: /join <channel>'') s w else do_join env arg a s w)
      else if is [''me'', ''emote''] then emote now arg a key s w
      else if is [''kick''] then op_kick arg a key s w
      else if is [''ban''] then op_ban arg a key s w
      else if is [''unban''] then op_unban env arg a key s w
      else if is [''designate'', ''heir''] then op_designate arg a key s w
      else if is [''squelch'', ''ignore''] then squelch arg s w
      else if is [''unsquelch'', ''unignore''] then unsquelch arg s w
      else if is [''tagban''] then staff_tagban arg s w
      else if is [''tagunban''] then staff_tagunban arg s w
      else if is [''ipban''] then staff_ipban now arg s w
      else if is [''ipunban''] then staff_ipunban now arg s w
      else if is [''mute''] then staff_mute now arg s w
      else if is [''unmute''] then staff_unmute now arg s w
      else if is [''bans''] then staff_bans now s w
      else if is [''whoami''] then
        tell (ascii ''You are '' @ na_name a @
          (if node_is_operator key (na_id a) (w_node w) then ascii '' (operator)'' else []) @ ascii ''.'') s w
      else if is [''ver'', ''version''] then
        tell (en_name env @ ascii '' '' @ em_dash @ ascii '' bnetccd v'' @ en_version env) s w
      else if is [''who'', ''users''] then who_is_here arg key s w
      else if is [''help'', ''?''] then
        send_lines (help_lines (is_admin (nc_admins (en_cfg env)) (na_name a))) s w
      else say EvError (ascii ''That is not a valid command. Type /help for the list.'') s w)"

text \<open>The text starts with a slash; the command ends at the first space.\<close>

definition slash_command :: "'s env \<Rightarrow> u64 \<Rightarrow> bytes \<Rightarrow> node_account \<Rightarrow> bytes \<Rightarrow> session \<Rightarrow> 's world \<Rightarrow> 's run" where
  "slash_command env now text a key s w =
     (let line = drop 1 (utf8_lossy text); cmd = takeWhile (\<lambda>b. b \<noteq> 0x20) line;
          arg = trim (drop (length cmd + 1) line)
      in run_command env now (lowercase cmd) arg a key s w)"

definition chat_command :: "'s env \<Rightarrow> u64 \<Rightarrow> bytes \<Rightarrow> session \<Rightarrow> 's world \<Rightarrow> 's run" where
  "chat_command env now body s w =
     (case ss_account s of
        None \<Rightarrow> (StepClose, s, w)
      | Some a \<Rightarrow>
          (case ss_channel s of
             None \<Rightarrow> (StepContinue, s, w)
           | Some key \<Rightarrow>
               (case parse (rd_cstr CHAT_TEXT_MAX) body of
                  None \<Rightarrow> (StepClose, s, w)
                | Some raw \<Rightarrow>
                    let text = sanitize_chat_text raw in
                    if text = [] then (StepContinue, s, w)
                    else if now < ss_muted_until s then (StepContinue, s, w)
                    else
                      let (verdict, fl) = flood_check now (ss_flood s); s = s\<lparr>ss_flood := fl\<rparr> in
                      (case verdict of
                         Exceeded pen \<Rightarrow> apply_flood_penalty pen now s w
                       | AllowMessage \<Rightarrow>
                           if hd text = 0x2F then slash_command env now text a key s w
                           else talk now text a key s w))))"

section \<open>Lists\<close>

definition channel_list :: "'s env \<Rightarrow> session \<Rightarrow> 's world \<Rightarrow> 's run" where
  "channel_list env s w =
     reply (frame SID_GETCHANNELLIST (w_chain (map w_cstr (channel_names (en_cfg env) (w_node w)) @ [w_cstr []]))) s w"

definition friends_list :: "session \<Rightarrow> 's world \<Rightarrow> 's run" where
  "friends_list s w = reply (frame SID_FRIENDSLIST (w_chain [w_u8 0])) s w"

definition news_info :: "session \<Rightarrow> 's world \<Rightarrow> 's run" where
  "news_info s w = reply (frame SID_NEWS_INFO (w_chain [w_u8 0, w_u32 0, w_u32 0, w_u32 0])) s w"

text \<open>The answer to a WarCraft III request, if there is one.\<close>

definition w3_answer :: "bytes \<Rightarrow> bytes option" where
  "w3_answer body =
     (case w3_parse body of
        Ok (Tournament cookie) \<Rightarrow> Some (no_tournament cookie)
      | Ok (UserRecord cookie _ p) \<Rightarrow> Some (empty_user_record cookie (race_records p))
      | Ok (ClanRecord cookie _ p) \<Rightarrow> Some (empty_clan_record cookie (race_records p))
      | Ok (IconList cookie) \<Rightarrow> Some (empty_icon_list cookie)
      | _ \<Rightarrow> None)"

definition warcraft_general :: "bytes \<Rightarrow> session \<Rightarrow> 's world \<Rightarrow> 's run" where
  "warcraft_general body s w =
     (if \<not> is_w3 (ss_product s) then (StepContinue, s, w)
      else case w3_answer body of
        None \<Rightarrow> (StepContinue, s, w)
      | Some b \<Rightarrow> reply (frame SID_WARCRAFTGENERAL b) s w)"

end
