(* ===== verification/Session_Games.thy ===== *)
theory Session_Games
  imports Session_Chat
begin

text \<open>
  \<open>bnetccd/src/session.rs\<close>, the handlers about games: the game list, advertising a game, joining
  one, reporting a result, and the ladder.
\<close>

section \<open>The game list\<close>

definition game_list_fields :: "(u32 \<times> bytes) rd" where
  "game_list_fields =
     rd_bind rd_u32 (\<lambda>_. rd_bind rd_u32 (\<lambda>_. rd_bind rd_u32 (\<lambda>_. rd_bind rd_u32 (\<lambda>cnt.
     rd_bind (rd_cstr CHANNEL_NAME_MAX) (\<lambda>name. rd_return (cnt, name))))))"

text \<open>The games in the table's order, as \<open>node.games\<close> returns them.\<close>

definition games :: "node \<Rightarrow> game_ad list" where
  "games n = List.map_filter (fmlookup (nd_games n)) (sorted_list_of_fset (fmdom (nd_games n)))"

definition listed_games :: "'s env \<Rightarrow> session \<Rightarrow> u32 \<Rightarrow> bytes \<Rightarrow> node \<Rightarrow> game_ad list" where
  "listed_games env s cnt name n =
     (if \<not> allowed (game_listing (nc_policy (en_cfg env))) then []
      else
        let found = filter (\<lambda>g. name = [] \<or> lowercase (ga_name g) = lowercase name)
              (filter (\<lambda>g. ga_product g = ss_product s) (games n))
        in if cnt = 0 then found else take (unat cnt) found)"

text \<open>Instants are milliseconds; the port travels big-endian.\<close>

definition game_entry :: "u64 \<Rightarrow> game_ad \<Rightarrow> (writer \<Rightarrow> writer) list" where
  "game_entry now g =
     (let elapsed = unat (sat_sub now (ga_created g)) div 1000 in
      [w_u16 (ga_game_type g), w_u16 (ga_parameter g), w_u32 0, w_u16 2, w_bytes (be16 (ga_port g)),
       w_bytes (ga_host_ip g), w_u32 0, w_u32 0, w_u32 (ga_state g),
       w_u32 (if elapsed < 2 ^ 32 then word_of_nat elapsed else 0xFFFFFFFF),
       w_cstr (ga_name g), w_cstr (ga_password g), w_cstr (ga_statstring g)])"

definition game_list :: "'s env \<Rightarrow> u64 \<Rightarrow> bytes \<Rightarrow> session \<Rightarrow> 's world \<Rightarrow> 's run" where
  "game_list env now body s w =
     (let (cnt, name) = (case parse game_list_fields body of Some r \<Rightarrow> r | None \<Rightarrow> (0, []));
          gs = listed_games env s cnt name (w_node w);
          status = (if name \<noteq> [] \<or> \<not> allowed (game_listing (nc_policy (en_cfg env))) then 1 else 0)
      in reply (frame SID_GETADVLISTEX (w_chain ([w_u32 (word_of_nat (length gs))] @
           (if gs = [] then [w_u32 status] else concat (map (game_entry now) gs))))) s w)"

section \<open>Advertising\<close>

definition advertise_reply :: "u32 \<Rightarrow> bncs_frame" where
  "advertise_reply status = frame SID_STARTADVEX3 (w_chain [w_u32 status])"

record advertise_request =
  ar_state :: u32
  ar_game_type :: u16
  ar_parameter :: u16
  ar_ladder :: u32
  ar_name :: bytes
  ar_password :: bytes
  ar_statstring :: bytes

definition advertise_fields :: "advertise_request rd" where
  "advertise_fields =
     rd_bind rd_u32 (\<lambda>state. rd_bind rd_u32 (\<lambda>_. rd_bind rd_u16 (\<lambda>game_type. rd_bind rd_u16 (\<lambda>parameter.
     rd_bind rd_u32 (\<lambda>_. rd_bind rd_u32 (\<lambda>ladder. rd_bind (rd_cstr CHANNEL_NAME_MAX) (\<lambda>name.
     rd_bind (rd_cstr CHANNEL_NAME_MAX) (\<lambda>password. rd_bind (rd_cstr 512) (\<lambda>stat.
     rd_return \<lparr>ar_state = state, ar_game_type = game_type, ar_parameter = parameter,
       ar_ladder = ladder, ar_name = name, ar_password = password, ar_statstring = stat\<rparr>)))))))))"

definition normal_wins :: "'s env \<Rightarrow> bytes \<Rightarrow> session \<Rightarrow> 's \<Rightarrow> u32 \<times> 's" where
  "normal_wins env account s st =
     (case ss_product s of
        None \<Rightarrow> (0, st)
      | Some product \<Rightarrow>
          let key = record_key (fourcc_text product) 0 (ascii ''wins'');
              (attrs, st) = act_read_readable_attrs (en_ops env) account [key] st
          in (case Option.bind (fmlookup attrs key) (parse_uint 32) of Some n \<Rightarrow> word_of_nat n | None \<Rightarrow> 0, st))"

definition advertised_ad :: "u64 \<Rightarrow> node_account \<Rightarrow> advertise_request \<Rightarrow> session \<Rightarrow> game_ad" where
  "advertised_ad now a q s =
     \<lparr>ga_name = ar_name q, ga_password = ar_password q, ga_statstring = ar_statstring q,
      ga_game_type = ar_game_type q, ga_parameter = ar_parameter q, ga_state = ar_state q,
      ga_product = ss_product s, ga_port = ss_game_port s,
      ga_host_ip = (case ss_ip s of V4 bs \<Rightarrow> bs | V6 _ \<Rightarrow> [0, 0, 0, 0]),
      ga_host = na_id a, ga_created = now\<rparr>"

text \<open>The first advertisement of a game counts it; the later ones change its state.\<close>

definition first_advertised :: "u64 \<Rightarrow> bytes \<Rightarrow> session \<Rightarrow> node \<Rightarrow> session \<times> node" where
  "first_advertised now name s n =
     (if ss_hosting s then (s, n)
      else (s\<lparr>ss_hosting := True, ss_seat := Some \<lparr>gs_name = name, gs_since = now\<rparr>\<rparr>,
            record_hosted_game (case ss_product s of Some p \<Rightarrow> fourcc_text p | None \<Rightarrow> ascii ''unknown'') now n))"

definition advertise :: "'s env \<Rightarrow> u64 \<Rightarrow> bytes \<Rightarrow> session \<Rightarrow> 's world \<Rightarrow> 's run" where
  "advertise env now body s w =
     (if \<not> allowed (game_hosting (nc_policy (en_cfg env)))
      then reply (advertise_reply ADVERTISE_TYPE_UNAVAILABLE) s w
      else case ss_account s of
        None \<Rightarrow> (StepClose, s, w)
      | Some a \<Rightarrow>
          (case parse advertise_fields body of
             None \<Rightarrow> (StepClose, s, w)
           | Some q \<Rightarrow>
               let (wins, st) = (if ar_ladder q \<noteq> 0 then normal_wins env (na_name a) s (w_store w)
                     else (0, w_store w));
                   w = w\<lparr>w_store := st\<rparr>
               in if ar_ladder q \<noteq> 0 \<and> wins < LADDER_MIN_WINS
                  then reply (advertise_reply ADVERTISE_TYPE_UNAVAILABLE) s w
                  else
                    let (ok, n) = advertise_game (advertised_ad now a q s) (w_node w);
                        (s, n) = (if ok then first_advertised now (ar_name q) s n else (s, n))
                    in reply (advertise_reply (if ok then ADVERTISE_OK else ADVERTISE_NAME_TAKEN)) s
                         (w\<lparr>w_node := n\<rparr>)))"

section \<open>Joining and small requests\<close>

definition notify_join_fields :: "bytes rd" where
  "notify_join_fields = rd_bind rd_u32 (\<lambda>_. rd_bind rd_u32 (\<lambda>_. rd_cstr CHANNEL_NAME_MAX))"

definition notify_join :: "u64 \<Rightarrow> bytes \<Rightarrow> session \<Rightarrow> 's world \<Rightarrow> 's run" where
  "notify_join now body s w =
     (StepContinue,
      (case parse notify_join_fields body of
         Some name \<Rightarrow> s\<lparr>ss_seat := Some \<lparr>gs_name = name, gs_since = now\<rparr>\<rparr> | None \<Rightarrow> s), w)"

definition net_game_port :: "bytes \<Rightarrow> session \<Rightarrow> 's world \<Rightarrow> 's run" where
  "net_game_port body s w =
     (StepContinue, (case parse rd_u16 body of Some port \<Rightarrow> s\<lparr>ss_game_port := port\<rparr> | None \<Rightarrow> s), w)"

definition check_data_file2 :: "session \<Rightarrow> 's world \<Rightarrow> 's run" where
  "check_data_file2 s w = reply (frame SID_CHECKDATAFILE2 (w_chain [w_u32 1])) s w"

section \<open>Results\<close>

fun rd_u32s :: "nat \<Rightarrow> u32 list rd" where
  "rd_u32s 0 = rd_return []"
| "rd_u32s (Suc n) = rd_bind rd_u32 (\<lambda>x. rd_bind (rd_u32s n) (\<lambda>xs. rd_return (x # xs)))"

fun rd_names :: "nat \<Rightarrow> bytes list rd" where
  "rd_names 0 = rd_return []"
| "rd_names (Suc n) =
     rd_bind (rd_cstr 64) (\<lambda>x. rd_bind (rd_names n) (\<lambda>xs. rd_return (utf8_lossy x # xs)))"

definition game_result_fields :: "(u32 \<times> u32 list \<times> bytes list) rd" where
  "game_result_fields =
     rd_bind rd_u32 (\<lambda>game_type. rd_bind rd_u32 (\<lambda>n. let cnt = min (unat n) 16 in
     rd_bind (rd_u32s cnt) (\<lambda>results. rd_bind (rd_names cnt) (\<lambda>ns.
     rd_return (game_type, results, ns)))))"

definition nth_opt :: "'a list \<Rightarrow> nat \<Rightarrow> 'a option" where
  "nth_opt xs i = (if i < length xs then Some (xs ! i) else None)"

text \<open>
  How long the session's game has lasted: from the start its host announced, when that is not
  earlier than the session's own seat, else from the seat.
\<close>

definition game_lasted :: "u64 \<Rightarrow> game_seat \<Rightarrow> session \<Rightarrow> node \<Rightarrow> u64" where
  "game_lasted now seat s n =
     sat_sub now (case game_started_at (ss_product s) (gs_name seat) n of
       Some at \<Rightarrow> if gs_since seat \<le> at then at else gs_since seat | None \<Rightarrow> gs_since seat)"

text \<open>The ratings of the game's other players, in slot order.\<close>

fun opponent_ratings :: "'s storage_ops \<Rightarrow> attr_key \<Rightarrow> nat \<Rightarrow> u32 list \<Rightarrow> (nat \<times> bytes) list \<Rightarrow> 's \<Rightarrow>
    u32 list \<times> 's" where
  "opponent_ratings ops key slot results [] st = ([], st)"
| "opponent_ratings ops key slot results ((i, name) # more_names) st =
     (if i = slot \<or> name = [] \<or> (case nth_opt results i of Some r \<Rightarrow> r | None \<Rightarrow> 0) = 0
      then opponent_ratings ops key slot results more_names st
      else
        let (attrs, st) = act_read_readable_attrs ops name [key] st;
            rating = (case Option.bind (fmlookup attrs key) (parse_uint 32) of
                Some r \<Rightarrow> word_of_nat r | None \<Rightarrow> START_RATING);
            (rs, st) = opponent_ratings ops key slot results more_names st
        in (rating # rs, st))"

definition average_rating :: "u32 list \<Rightarrow> u32" where
  "average_rating rs =
     (if rs = [] then START_RATING else word_of_nat (sum_list (map unat rs) div length rs))"

definition RECENT_LADDER_RESULTS :: nat where "RECENT_LADDER_RESULTS = 30"

fun outcome_name :: "game_outcome \<Rightarrow> bytes" where
  "outcome_name GameWin = ascii ''win''"
| "outcome_name GameLoss = ascii ''loss''"
| "outcome_name GameDraw = ascii ''draw''"
| "outcome_name GameDisconnect = ascii ''disconnect''"

definition record_ladder_game :: "'s env \<Rightarrow> u64 \<Rightarrow> node_account \<Rightarrow> bytes \<Rightarrow> league \<Rightarrow> game_outcome \<Rightarrow> u32 \<Rightarrow>
    's world \<Rightarrow> u32 option \<times> 's world" where
  "record_ladder_game env now a product lg out opponent w =
     (let (r, st) = act_record_ladder_game (en_ops env) (en_rating env) (na_id a) product lg out opponent
            (now div 1000) (w_store w);
          w = w\<lparr>w_store := st\<rparr>
      in (case r of
            None \<Rightarrow> (None, w)
          | Some (before, after) \<Rightarrow>
              let res = \<lparr>re_time = now div 1000, re_product = product,
                    re_league = (if lg = LeagueIronMan then ascii ''ironman'' else ascii ''ladder''),
                    re_player = na_name a, re_outcome = outcome_name out, re_rating = after,
                    re_change = uint after - uint before\<rparr>
              in (Some after, w\<lparr>w_node := (w_node w)\<lparr>nd_recent :=
                   take RECENT_LADDER_RESULTS (res # nd_recent (w_node w))\<rparr>\<rparr>)))"

text \<open>A ladder or Iron Man result of the reporting player.\<close>

definition ladder_game_result :: "'s env \<Rightarrow> u64 \<Rightarrow> node_account \<Rightarrow> bytes \<Rightarrow> league \<Rightarrow> nat \<Rightarrow> u32 list \<Rightarrow> bytes list \<Rightarrow>
    game_outcome \<Rightarrow> session \<Rightarrow> 's world \<Rightarrow> session \<times> 's world" where
  "ladder_game_result env now a product lg slot results ns out s w =
     (let (wins, st) = normal_wins env (na_name a) s (w_store w); w = w\<lparr>w_store := st\<rparr> in
      if wins < LADDER_MIN_WINS then (s, w)
      else
        let key = record_key product (league_index lg) (ascii ''rating'');
            (rs, st) = opponent_ratings (en_ops env) key slot results (enumerate 0 ns) (w_store w);
            (_, w) = record_ladder_game env now a product lg out (average_rating rs) (w\<lparr>w_store := st\<rparr>)
        in show_record env a s w)"

definition normal_result :: "'s env \<Rightarrow> node_account \<Rightarrow> bytes \<Rightarrow> game_outcome option \<Rightarrow> session \<Rightarrow> 's world \<Rightarrow>
    session \<times> 's world" where
  "normal_result env a product out s w =
     (case out of
        None \<Rightarrow> (s, w)
      | Some o' \<Rightarrow>
          let (_, st) = act_record_game (en_ops env) (na_id a) product o' (w_store w)
          in show_record env a s (w\<lparr>w_store := st\<rparr>))"

definition too_short :: "'s env \<Rightarrow> u64 \<Rightarrow> bool" where
  "too_short env lasted \<longleftrightarrow> en_min_game env \<noteq> 0 \<and> lasted \<le> en_min_game env"

definition game_result :: "'s env \<Rightarrow> u64 \<Rightarrow> bytes \<Rightarrow> session \<Rightarrow> 's world \<Rightarrow> 's run" where
  "game_result env now body s w =
     (case (ss_account s, ss_product s) of
        (Some a, Some product) \<Rightarrow>
          (case parse game_result_fields body of
             None \<Rightarrow> (StepContinue, s, w)
           | Some (game_type, results, ns) \<Rightarrow>
               (case ss_seat s of
                  None \<Rightarrow> (StepContinue, s, w)
                | Some seat \<Rightarrow>
                    if too_short env (game_lasted now seat s (w_node w)) then (StepContinue, s, w)
                    else
                      let slot = find_index (\<lambda>n. eq_nocase n (na_name a)) ns;
                          out = Option.bind (Option.bind slot (nth_opt results)) outcome_from_code;
                          lg = league_from_code game_type
                      in (StepContinue,
                          (case (out, slot) of
                             (Some o', Some i) \<Rightarrow>
                               if lg = LeagueNormal then normal_result env a (fourcc_text product) out s w
                               else ladder_game_result env now a (fourcc_text product) lg i results ns o' s w
                           | _ \<Rightarrow> normal_result env a (fourcc_text product) out s w))))
      | _ \<Rightarrow> (StepContinue, s, w))"

section \<open>The ladder\<close>

definition LADDER_PAGE :: nat where "LADDER_PAGE = 20"

text \<open>The addition and the multiplication wrap; the code's would panic in a debug build (\<open>filetime_exact\<close>).\<close>

definition filetime :: "u64 \<Rightarrow> u64" where
  "filetime unix_secs = (if unix_secs = 0 then 0 else (unix_secs + 11644473600) * 10000000)"

definition ladder_entry :: "nat \<times> ladder_row \<Rightarrow> (writer \<Rightarrow> writer) list" where
  "ladder_entry e =
     (case e of (rank, row) \<Rightarrow>
      [w_u32 (lr_wins row), w_u32 (lr_losses row), w_u32 (lr_disconnects row), w_u32 (lr_rating row),
       w_u32 (word_of_nat rank), w_u32 0, w_u32 0, w_u32 0, w_u32 0, w_u32 0, w_u32 0xFFFFFFFF, w_u32 0,
       w_u32 0, w_u32 (lr_high_rating row), w_u32 0, w_u32 0, w_u64 (filetime (lr_last_game row)), w_u64 0,
       w_cstr (lr_name row)])"

definition ladder_data_body :: "u32 \<Rightarrow> u32 \<Rightarrow> u32 \<Rightarrow> u32 \<Rightarrow> u32 \<Rightarrow> ladder_row list \<Rightarrow> bytes" where
  "ladder_data_body product lg how start cnt rows =
     (let page = take (min (unat cnt) LADDER_PAGE) (drop (unat start) (enumerate 0 rows)) in
      w_chain ([w_u32 product, w_u32 lg, w_u32 how, w_u32 start, w_u32 (word_of_nat (length page))] @
        (if page = [] then [w_u32 0] else []) @ concat (map ladder_entry page)))"

definition ladder_standings :: "'s env \<Rightarrow> u32 \<Rightarrow> u32 \<Rightarrow> u32 \<Rightarrow> 's \<Rightarrow> ladder_row list \<times> 's" where
  "ladder_standings env product lg how st =
     (let (rows, st) = ladder_rows env (fourcc_text (FourCc product)) (league_from_code lg) st in
      (standings rows (sort_from_code how), st))"

definition ladder_data_fields :: "(u32 \<times> u32 \<times> u32 \<times> u32 \<times> u32) rd" where
  "ladder_data_fields =
     rd_bind rd_u32 (\<lambda>p. rd_bind rd_u32 (\<lambda>l. rd_bind rd_u32 (\<lambda>h. rd_bind rd_u32 (\<lambda>b. rd_bind rd_u32 (\<lambda>c.
     rd_return (p, l, h, b, c))))))"

definition ladder_data :: "'s env \<Rightarrow> bytes \<Rightarrow> session \<Rightarrow> 's world \<Rightarrow> 's run" where
  "ladder_data env body s w =
     (case parse ladder_data_fields body of
        None \<Rightarrow> (StepContinue, s, w)
      | Some (product, lg, how, start, cnt) \<Rightarrow>
          let (rows, st) = ladder_standings env product lg how (w_store w) in
          reply (frame SID_GETLADDERDATA (ladder_data_body product lg how start cnt rows)) s
            (w\<lparr>w_store := st\<rparr>))"

definition find_ladder_fields :: "(u32 \<times> u32 \<times> u32 \<times> bytes) rd" where
  "find_ladder_fields =
     rd_bind rd_u32 (\<lambda>p. rd_bind rd_u32 (\<lambda>l. rd_bind rd_u32 (\<lambda>h. rd_bind (rd_cstr 64) (\<lambda>name.
     rd_return (p, l, h, utf8_lossy name)))))"

definition find_ladder_user :: "'s env \<Rightarrow> bytes \<Rightarrow> session \<Rightarrow> 's world \<Rightarrow> 's run" where
  "find_ladder_user env body s w =
     (case parse find_ladder_fields body of
        None \<Rightarrow> (StepContinue, s, w)
      | Some (product, lg, how, name) \<Rightarrow>
          let (rows, st) = ladder_standings env product lg how (w_store w);
              rank = (case rank_of rows (account_base name) of Some r \<Rightarrow> word_of_nat r | None \<Rightarrow> 0xFFFFFFFF)
          in reply (frame SID_FINDLADDERUSER (w_chain [w_u32 rank])) s (w\<lparr>w_store := st\<rparr>))"

section \<open>Facts\<close>

lemma filetime_exact:
  assumes "0 < t" and "unat t < 2 ^ 40"
  shows "unat (filetime t) = (unat t + 11644473600) * 10000000"
proof -
  have a: "unat (t + 11644473600) = unat t + 11644473600"
    using assms(2) by (subst unat_add_lem [THEN iffD1]) auto
  have "unat (t + 11644473600) * unat (10000000 :: u64) < 2 ^ LENGTH(64)" using assms(2) by (simp add: a)
  then have "unat ((t + 11644473600) * 10000000) = unat (t + 11644473600) * unat (10000000 :: u64)"
    by (rule unat_mult_lem [THEN iffD1])
  with a assms(1) show ?thesis by (auto simp: filetime_def)
qed

lemma average_between:
  assumes "rs \<noteq> []" and "\<And>r. r \<in> set rs \<Longrightarrow> lo \<le> r \<and> r \<le> hi"
  shows "lo \<le> average_rating rs \<and> average_rating rs \<le> hi"
proof -
  have lo: "length rs * unat lo \<le> sum_list (map unat rs)" and hi: "sum_list (map unat rs) \<le> length rs * unat hi"
    using assms(2) by (induction rs) (auto simp: word_le_nat_alt add_mono)
  have n: "0 < length rs" using assms(1) by simp
  have "unat lo \<le> sum_list (map unat rs) div length rs"
    using lo n by (simp add: less_eq_div_iff_mult_less_eq mult.commute)
  moreover have "sum_list (map unat rs) div length rs \<le> unat hi"
    using hi n by (metis div_le_mono nonzero_mult_div_cancel_left less_numeral_extra(3))
  moreover have "unat (word_of_nat (sum_list (map unat rs) div length rs) :: u32) = sum_list (map unat rs) div length rs"
    using le_less_trans [OF calculation(2) unsigned_less [of hi, where ?'a = nat]] by (simp add: unat_of_nat)
  ultimately show ?thesis using assms(1) by (simp add: average_rating_def word_le_nat_alt)
qed

end
