(* ===== verification/Session_Handle.thy ===== *)
theory Session_Handle
  imports Session_Logon Session_Games
begin

text \<open>
  \<open>bnetccd/src/session.rs\<close>, the driver of a BNCS connection: which handler a packet goes to, how
  the session's state advances, and the loop that reads, decodes and handles until the session
  closes. How a connection is accepted and its socket written is not modelled.
\<close>

section \<open>One packet\<close>

definition dispatch :: "'s env \<Rightarrow> tick \<Rightarrow> bncs_frame \<Rightarrow> session \<Rightarrow> 's world \<Rightarrow> 's run" where
  "dispatch env t f s w =
     (let i = fr_id f; body = fr_body f; now = tk_now t in
      if i = SID_AUTH_INFO then auth_info env body s w
      else if i = SID_AUTH_CHECK then auth_check env now body s w
      else if i = SID_STARTVERSIONING then start_versioning env body s w
      else if i = SID_REPORTVERSION then report_version env s w
      else if i = SID_LOGONRESPONSE then logon env now SID_LOGONRESPONSE body s w
      else if i = SID_LOGONRESPONSE2 then logon env now SID_LOGONRESPONSE2 body s w
      else if i = SID_AUTH_ACCOUNTCREATE then auth_account_create env now body s w
      else if i = SID_AUTH_ACCOUNTLOGON then auth_account_logon env (tk_b t) body s w
      else if i = SID_AUTH_ACCOUNTLOGONPROOF then auth_account_logon_proof env now body s w
      else if i = SID_CREATEACCOUNT then create_account_legacy env now body s w
      else if i = SID_CREATEACCOUNT2 then create_account2 env now body s w
      else if i = SID_ENTERCHAT then enter_chat env body s w
      else if i = SID_QUERYREALMS2 then query_realms env s w
      else if i = SID_LOGONREALMEX then logon_realm env t body s w
      else if i = SID_JOINCHANNEL then session_join env body s w
      else if i = SID_LEAVECHAT then leave_chat s w
      else if i = SID_CHATCOMMAND then chat_command env now body s w
      else if i = SID_GETCHANNELLIST then channel_list env s w
      else if i = SID_GETADVLISTEX then game_list env now body s w
      else if i = SID_CHECKAD then check_ad env body s w
      else if i = SID_STARTADVEX3 then advertise env now body s w
      else if i = SID_STOPADV then stop_advertising now True s w
      else if i = SID_LEAVEGAME then stop_advertising now False s w
      else if i = SID_NOTIFYJOIN then notify_join now body s w
      else if i = SID_NETGAMEPORT then net_game_port body s w
      else if i = SID_CHECKDATAFILE2 then check_data_file2 s w
      else if i = SID_GAMERESULT then game_result env now body s w
      else if i = SID_GETLADDERDATA then ladder_data env body s w
      else if i = SID_FINDLADDERUSER then find_ladder_user env body s w
      else if i = SID_CDKEY then cd_key_reply SID_CDKEY s w
      else if i = SID_CDKEY2 then cd_key_reply SID_CDKEY2 s w
      else if i = SID_GETFILETIME then get_filetime env body s w
      else if i = SID_GETICONDATA then get_icon_data env s w
      else if i = SID_READUSERDATA then read_user_data env body s w
      else if i = SID_FRIENDSLIST then friends_list s w
      else if i = SID_NEWS_INFO then news_info s w
      else if i = SID_WARCRAFTGENERAL then warcraft_general body s w
      else (StepContinue, s, w))"

text \<open>The end of \<open>handle\<close>: the state advances when the handler continued.\<close>

definition advance_state :: "bncs_frame \<Rightarrow> 's run \<Rightarrow> 's run" where
  "advance_state f r =
     (case r of (st, s, w) \<Rightarrow>
      if st = StepContinue
      then (case next_on_success (ss_state s) (fr_id f) of
              Some t \<Rightarrow> if t \<noteq> LoggedIn \<or> ss_account s \<noteq> None then (st, s\<lparr>ss_state := t\<rparr>, w) else (st, s, w)
            | None \<Rightarrow> (st, s, w))
      else (st, s, w))"

text \<open>
  One decoded frame in the loop: a packet the state does not accept ends a session that has not
  logged on and is ignored in one that has; a handler that closes ends it too.
\<close>

definition serve :: "'s env \<Rightarrow> tick \<Rightarrow> bncs_frame \<Rightarrow> session \<times> 's world \<Rightarrow> session \<times> 's world" where
  "serve env t f c =
     (case c of (s, w) \<Rightarrow>
      if \<not> accepts (ss_state s) (fr_id f)
      then (if authenticated (ss_state s) then (s, w) else (s\<lparr>ss_state := Closing\<rparr>, w))
      else (case advance_state f (dispatch env t f s w) of
              (StepContinue, s, w) \<Rightarrow> (s, w)
            | (StepClose, s, w) \<Rightarrow> (s\<lparr>ss_state := Closing\<rparr>, w)))"

section \<open>The read loop\<close>

text \<open>
  A connection: its receive buffer, the packets handled so far (\<open>ticks\<close> gives what each reads of the
  clock and of random numbers), the session and the world. Fuel bounds the frames of one chunk;
  running out of it is \<open>None\<close>.
\<close>

type_synonym 's conn = "recv_buf \<times> nat \<times> session \<times> 's world"

fun drain_session :: "'s env \<Rightarrow> nat \<Rightarrow> (nat \<Rightarrow> tick) \<Rightarrow> nat \<Rightarrow> 's conn \<Rightarrow> 's conn option" where
  "drain_session env max_len ticks 0 c = None"
| "drain_session env max_len ticks (Suc fuel) (q, i, s, w) =
     (case decode_frame max_len q of
        Ok (None, q) \<Rightarrow> Some (q, i, s, w)
      | Ok (Some f, q) \<Rightarrow>
          (case serve env (ticks i) f (s, w) of (s, w) \<Rightarrow>
           if ss_state s = Closing then Some (q, i + 1, s, w)
           else drain_session env max_len ticks fuel (q, i + 1, s, w))
      | _ \<Rightarrow> Some (q, i, s\<lparr>ss_state := Closing\<rparr>, w))"

fun read_session :: "'s env \<Rightarrow> nat \<Rightarrow> (nat \<Rightarrow> tick) \<Rightarrow> nat \<Rightarrow> bytes list \<Rightarrow> 's conn \<Rightarrow> 's conn option" where
  "read_session env max_len ticks fuel [] c = Some c"
| "read_session env max_len ticks fuel (chunk # chunks) (q, i, s, w) =
     (case drain_session env max_len ticks fuel (rb_extend chunk q, i, s, w) of
        None \<Rightarrow> None
      | Some (q, i, s, w) \<Rightarrow>
          if ss_state s = Closing then Some (q, i, s, w)
          else read_session env max_len ticks fuel chunks (q, i, s, w))"

text \<open>
  A whole connection: the greeting with the cookie, the chunks until the socket ends (or its
  deadline passes, or staff force it off), and the cleanup.
\<close>

definition ping_frame :: "session \<Rightarrow> bncs_frame" where
  "ping_frame s = frame SID_PING (w_chain [w_u32 (ss_server_token s)])"

definition bncs_session :: "'s env \<Rightarrow> nat \<Rightarrow> (nat \<Rightarrow> tick) \<Rightarrow> nat \<Rightarrow> bytes list \<Rightarrow> u64 \<Rightarrow> session \<Rightarrow> 's world \<Rightarrow>
    (session \<times> 's world) option" where
  "bncs_session env max_len ticks fuel chunks end_time s w =
     (case reply (ping_frame s) s w of
        (StepClose, s, w) \<Rightarrow> Some (s, w)
      | (StepContinue, s, w) \<Rightarrow>
          (case read_session env max_len ticks fuel chunks (rb_new, 0, s, w) of
             None \<Rightarrow> None
           | Some (q, i, s, w) \<Rightarrow> Some (cleanup end_time s w)))"

text \<open>How long a read may take, in seconds: the idle timeout counts from a day.\<close>

definition read_deadline :: "nat \<Rightarrow> nat \<Rightarrow> session_state \<Rightarrow> nat" where
  "read_deadline handshake idle st =
     (if in_automated_handshake st then handshake
      else if \<not> authenticated st then 180 else max idle (24 * 3600))"

section \<open>The session sees frames, not chunks\<close>

text \<open>The frames one after the other, until the session closes.\<close>

fun serve_all :: "'s env \<Rightarrow> (nat \<Rightarrow> tick) \<Rightarrow> bncs_frame list \<Rightarrow> nat \<times> session \<times> 's world \<Rightarrow> nat \<times> session \<times> 's world" where
  "serve_all env ticks [] c = c"
| "serve_all env ticks (f # fs) (i, s, w) =
     (case serve env (ticks i) f (s, w) of (s, w) \<Rightarrow>
      if ss_state s = Closing then (i + 1, s, w) else serve_all env ticks fs (i + 1, s, w))"

abbreviation closed :: "nat \<times> session \<times> 's world \<Rightarrow> bool" where
  "closed c \<equiv> ss_state (fst (snd c)) = Closing"

lemma serve_all_append:
  "\<not> closed (serve_all env ticks fs c) \<Longrightarrow>
   serve_all env ticks (fs @ gs) c = serve_all env ticks gs (serve_all env ticks fs c)"
  by (induction fs c rule: serve_all.induct [where ?a0.0 = env and ?a1.0 = ticks]) (auto split: prod.splits)

lemma serve_all_closed:
  "closed (serve_all env ticks fs c) \<Longrightarrow> \<not> closed c \<Longrightarrow>
   serve_all env ticks (fs @ gs) c = serve_all env ticks fs c"
  by (induction fs c rule: serve_all.induct [where ?a0.0 = env and ?a1.0 = ticks])
    (auto split: prod.splits if_splits)

lemma drain_session_drain:
  assumes "drain (decode_frame m) n q = Some (fs, Ok q')"
  shows "\<exists>q''. drain_session env m ticks n (q, c) = Some (q'', serve_all env ticks fs c) \<and>
    (\<not> closed (serve_all env ticks fs c) \<longrightarrow> q'' = q')"
  using assms
proof (induction n arbitrary: q fs c)
  case (Suc n)
  obtain i s w where c: "c = (i, s, w)" by (cases c) auto
  show ?case
  proof (cases "decode_frame m q")
    case (Ok r)
    obtain g q1 where r: "r = (g, q1)" by fastforce
    show ?thesis
    proof (cases g)
      case None
      with Suc.prems Ok r c show ?thesis by auto
    next
      case (Some f)
      with Suc.prems Ok r obtain gs where gs: "drain (decode_frame m) n q1 = Some (gs, Ok q')" "fs = f # gs"
        by (auto split: option.splits)
      obtain t v where t: "serve env (ticks i) f (s, w) = (t, v)" by fastforce
      from Suc.IH [OF gs(1), of "(i + 1, t, v)"] Some Ok r c gs(2) t show ?thesis by auto
    qed
  qed (use Suc.prems in simp_all)
qed simp

lemma read_session_receive:
  assumes "receive (decode_frame m) rb_extend n q cs = Some (fs, Ok q')" and "\<not> closed c"
  shows "\<exists>q''. read_session env m ticks n cs (q, c) = Some (q'', serve_all env ticks fs c)"
  using assms
proof (induction cs arbitrary: q fs c)
  case (Cons chunk cs)
  then obtain fs1 q1 fs2 where d: "drain (decode_frame m) n (rb_extend chunk q) = Some (fs1, Ok q1)"
    and r: "receive (decode_frame m) rb_extend n q1 cs = Some (fs2, Ok q')" and fs: "fs = fs1 @ fs2"
    by (auto split: option.splits prod.splits outcome.splits)
  obtain q2 where q2: "drain_session env m ticks n (rb_extend chunk q, c) = Some (q2, serve_all env ticks fs1 c)"
    "\<not> closed (serve_all env ticks fs1 c) \<longrightarrow> q2 = q1"
    using drain_session_drain [OF d, of env ticks c] by blast
  obtain i s w where c: "c = (i, s, w)" by (cases c) auto
  obtain j t v where j: "serve_all env ticks fs1 c = (j, t, v)" by (cases "serve_all env ticks fs1 c") auto
  show ?case
  proof (cases "closed (serve_all env ticks fs1 c)")
    case True
    with serve_all_closed [OF True Cons.prems(2)] q2 c j fs show ?thesis by auto
  next
    case False
    with Cons.IH [OF r False] serve_all_append [OF False] q2 c j fs show ?thesis by auto
  qed
qed (cases c, simp)

end
