(* ===== verification/Session_Keeps.thy ===== *)
theory Session_Keeps
  imports Session_Handle
begin

text \<open>
  What the handlers of \<open>session.rs\<close> leave alone in the session they serve. Only the three packets
  that log on set the account, only the challenge sets the pending one, and no handler but these
  changes a session's staff privilege.
\<close>

section \<open>What a handler keeps\<close>

definition kept :: "session \<Rightarrow> session \<Rightarrow> bool" where
  "kept s t \<longleftrightarrow> ss_state t = ss_state s \<and> ss_account t = ss_account s \<and> ss_srp t = ss_srp s \<and>
     ss_out t = ss_out s \<and> ss_ip t = ss_ip s \<and> ss_server_token t = ss_server_token s \<and>
     ss_local t = ss_local s \<and> ss_class t = ss_class s \<and> require_staff t = require_staff s \<and>
     (d2_is_safe (ss_statstring s) \<longrightarrow> d2_is_safe (ss_statstring t))"

abbreviation keeps :: "session \<Rightarrow> 's run \<Rightarrow> bool" where
  "keeps s r \<equiv> kept s (fst (snd r))"

lemma kept_refl [simp, intro!]: "kept s s"
  by (simp add: kept_def)

lemma kept_trans: "kept s t \<Longrightarrow> kept t u \<Longrightarrow> kept s u"
  by (simp add: kept_def)

lemma kept_update [simp]:
  "kept s (t\<lparr>ss_product := p\<rparr>) = kept s t"
  "kept s (t\<lparr>ss_platform := p\<rparr>) = kept s t" "kept s (t\<lparr>ss_version_byte := v\<rparr>) = kept s t"
  "kept s (t\<lparr>ss_claimed_keys := ks\<rparr>) = kept s t" "kept s (t\<lparr>ss_display_name := d\<rparr>) = kept s t"
  "kept s (t\<lparr>ss_channel := ch\<rparr>) = kept s t" "kept s (t\<lparr>ss_game_port := gp\<rparr>) = kept s t"
  "kept s (t\<lparr>ss_flood := fl\<rparr>) = kept s t" "kept s (t\<lparr>ss_muted_until := m\<rparr>) = kept s t"
  "kept s (t\<lparr>ss_hosting := h\<rparr>) = kept s t" "kept s (t\<lparr>ss_seat := seat\<rparr>) = kept s t"
  "kept s (t\<lparr>ss_tickets := ts\<rparr>) = kept s t"
  by (simp_all add: kept_def require_staff_def)

lemma kept_flags: "f AND UF_ADMIN = ss_flags t AND UF_ADMIN \<Longrightarrow> kept s (t\<lparr>ss_flags := f\<rparr>) = kept s t"
  by (simp add: kept_def require_staff_def)

lemma kept_statstring [simp]: "kept s t \<Longrightarrow> kept s (set_statstring st t)"
  using set_statstring_safe [of st t] by (auto simp: kept_def set_statstring_def require_staff_def)

lemma admin_bits: "(x OR UF_NO_UDP) AND UF_ADMIN = x AND UF_ADMIN" "(x OR UF_OPERATOR) AND UF_ADMIN = x AND UF_ADMIN"
  "(x AND NOT UF_OPERATOR) AND UF_ADMIN = x AND UF_ADMIN"
proof -
  have "UF_NO_UDP AND UF_ADMIN = 0" "UF_OPERATOR AND UF_ADMIN = 0" "NOT UF_OPERATOR AND UF_ADMIN = UF_ADMIN"
    by (simp_all add: UF_NO_UDP_def UF_ADMIN_def UF_OPERATOR_def)
  then show "(x OR UF_NO_UDP) AND UF_ADMIN = x AND UF_ADMIN" "(x OR UF_OPERATOR) AND UF_ADMIN = x AND UF_ADMIN"
    "(x AND NOT UF_OPERATOR) AND UF_ADMIN = x AND UF_ADMIN"
    by (simp_all add: word_ao_dist and.assoc)
qed

section \<open>The opening handlers\<close>

text \<open>All that \<open>auth_info\<close> may change besides is the class the connection is admitted under.\<close>

definition opened :: "session \<Rightarrow> session \<Rightarrow> bool" where
  "opened s t \<longleftrightarrow> kept (s\<lparr>ss_class := ss_class t\<rparr>) t"

lemma kept_opened: "kept s t \<Longrightarrow> opened s t"
  by (simp add: opened_def kept_def require_staff_def)

lemma opened_refl [simp, intro!]: "opened s s"
  by (simp add: kept_opened)

lemma opened_update [simp]:
  "opened s (t\<lparr>ss_class := c\<rparr>) = opened s t" "opened s (t\<lparr>ss_product := p\<rparr>) = opened s t"
  "opened s (t\<lparr>ss_platform := p\<rparr>) = opened s t" "opened s (t\<lparr>ss_version_byte := v\<rparr>) = opened s t"
  by (simp_all add: opened_def kept_def require_staff_def)

lemma opened_flags: "f AND UF_ADMIN = ss_flags t AND UF_ADMIN \<Longrightarrow> opened s (t\<lparr>ss_flags := f\<rparr>) = opened s t"
  by (simp add: opened_def kept_def require_staff_def)

lemma opened_statstring [simp]: "opened s t \<Longrightarrow> opened s (set_statstring st t)"
  using set_statstring_safe [of st t] by (auto simp: opened_def kept_def set_statstring_def require_staff_def)

lemma auth_info_opens [simp]: "opened s (fst (snd (auth_info env body s w)))"
  by (auto simp: auth_info_def Let_def opened_flags admin_bits split: option.splits outcome.splits prod.splits)

lemma start_versioning_keeps [simp]: "keeps s (start_versioning env body s w)"
  by (auto simp: start_versioning_def Let_def kept_flags admin_bits split: option.splits prod.splits)

lemma auth_check_keeps [simp]: "keeps s (auth_check env now body s w)"
  by (auto simp: auth_check_def Let_def split: option.splits prod.splits keys_outcome.splits)

lemma report_version_keeps [simp]: "keeps s (report_version env s w)"
  by (simp add: report_version_def)

lemma auth_account_create_keeps [simp]: "keeps s (auth_account_create env now body s w)"
  by (auto simp: auth_account_create_def Let_def
    split: option.splits prod.splits outcome.splits create_account_error.splits)

lemma create_account_keeps [simp]:
  "keeps s (create_account_legacy env now body s w)" "keeps s (create_account2 env now body s w)"
  by (auto simp: create_account_legacy_def create_account2_def Let_def split: option.splits prod.splits)

lemma query_keeps [simp]:
  "keeps s (check_ad env body s w)" "keeps s (cd_key_reply i s w)" "keeps s (get_filetime env body s w)"
  "keeps s (get_icon_data env s w)" "keeps s (read_user_data env body s w)"
  by (auto simp: check_ad_def cd_key_reply_def get_filetime_def get_icon_data_def read_user_data_def Let_def
    split: option.splits prod.splits)

lemma stop_advertising_keeps [simp]: "keeps s (stop_advertising now starts s w)"
  by (auto simp: stop_advertising_def Let_def split: option.splits prod.splits)

section \<open>Chat\<close>

lemma list_keeps [simp]:
  "fst (snd (query_realms env s w)) = s" "fst (snd (channel_list env s w)) = s"
  "fst (snd (friends_list s w)) = s" "fst (snd (news_info s w)) = s"
  "fst (snd (warcraft_general body s w)) = s"
  by (simp_all add: query_realms_def channel_list_def friends_list_def news_info_def warcraft_general_def
    split: option.split)

lemma logon_realm_keeps [simp]: "keeps s (logon_realm env t body s w)"
  by (auto simp: logon_realm_def Let_def split: option.splits prod.splits)

lemma join_channel_flags:
  assumes "join_channel cfg raw a name fl product st out n = (Ok (j, ex), m)"
  shows "jo_flags (jc_outcome j) AND UF_ADMIN = fl AND UF_ADMIN"
  using assms
  by (auto simp: join_channel_def join_def Let_def admin_bits split: if_splits option.splits outcome.splits prod.splits)

lemma enter_channel_keeps [simp]: "keeps s (enter_channel env req a s w)"
  by (auto simp: enter_channel_def Let_def kept_flags dest!: join_channel_flags
    split: option.splits prod.splits outcome.splits)

lemma enter_channel_keeps_after [simp]: "kept s t \<Longrightarrow> keeps s (enter_channel env req a t w)"
  by (rule kept_trans [OF _ enter_channel_keeps])

lemma do_join_keeps [simp]: "keeps s (do_join env req a s w)"
  by (simp add: do_join_def Let_def split: option.split)

lemma session_join_keeps [simp]: "keeps s (session_join env body s w)" "keeps s (leave_chat s w)"
  by (auto simp: session_join_def leave_chat_def split: option.split)

lemma show_record_keeps [simp]: "kept s (fst (show_record env a s w))"
  by (auto simp: show_record_def Let_def split: option.split prod.split)

lemma rename_session_keeps: "kept s t \<Longrightarrow> kept s (fst (rename_session chat_name t w))"
  by (simp add: rename_session_def Let_def split: prod.split)

lemma adopt_keeps [simp]: "kept s (fst (adopt_realm_character env body a s w))"
  by (auto simp: adopt_realm_character_def Let_def intro!: rename_session_keeps split: option.split prod.split)

lemma enter_chat_keeps [simp]: "keeps s (enter_chat env body s w)"
proof (cases "ss_account s")
  case (Some a)
  obtain t v where t: "adopt_realm_character env body a s w = (t, v)" by fastforce
  obtain u x where u: "show_record env a t v = (u, x)" by fastforce
  obtain st y z where r: "reply (enter_chat_reply u) u x = (st, y, z)" by (cases "reply (enter_chat_reply u) u x") auto
  have "kept s t" "kept t u" "y = u"
    using adopt_keeps [of s env body a w] show_record_keeps [of t env a v] reply_same [of "enter_chat_reply u" u x] t u r
    by simp_all
  with Some t u r show ?thesis by (cases st) (auto simp: enter_chat_def Let_def intro: kept_trans)
qed (simp add: enter_chat_def)

lemma ensure_member_keeps [simp]: "kept s (fst (snd (ensure_member key s w)))"
  by (simp add: ensure_member_def)

lemma line_keeps [simp]: "keeps s (emote now arg a key s w)" "keeps s (talk now text a key s w)"
proof -
  obtain b t v where e: "ensure_member key s w = (b, t, v)" by (cases "ensure_member key s w") auto
  then have "kept s t" using ensure_member_keeps [of s key w] by simp
  with e show "keeps s (emote now arg a key s w)" "keeps s (talk now text a key s w)"
    by (simp_all add: emote_def talk_def split: bool.split)
qed

lemma penalty_keeps [simp]: "keeps s (apply_flood_penalty pen now s w)"
  by (auto simp: apply_flood_penalty_def split: flood_penalty.split)

lemma op_keeps [simp]:
  "fst (snd (op_kick target a key s w)) = s" "fst (snd (op_ban target a key s w)) = s"
  "fst (snd (op_unban env target a key s w)) = s" "fst (snd (op_designate target a key s w)) = s"
  "fst (snd (squelch arg s w)) = s" "fst (snd (unsquelch arg s w)) = s"
  by (auto simp: op_kick_def op_ban_def op_unban_def op_designate_def squelch_def unsquelch_def Let_def
    split: mod_result.split prod.split option.split)

lemma staff_keeps [simp]:
  "fst (snd (staff_tagban arg s w)) = s" "fst (snd (staff_tagunban arg s w)) = s"
  "fst (snd (staff_ipban now arg s w)) = s" "fst (snd (staff_ipunban now arg s w)) = s"
  "fst (snd (staff_mute now arg s w)) = s" "fst (snd (staff_unmute now arg s w)) = s"
  "fst (snd (staff_bans now s w)) = s"
  by (auto simp: staff_tagban_def staff_tagunban_def staff_ipban_def staff_ipunban_def staff_mute_def
    staff_unmute_def staff_bans_def staff_denied_def Let_def split: prod.split option.split list.split)

lemma run_command_keeps [simp]: "keeps s (run_command env now cmd arg a key s w)"
  by (simp add: run_command_def who_is_here_def Let_def)

lemma after_flood_keeps [simp]:
  "kept s t \<Longrightarrow> keeps s (apply_flood_penalty pen now t w)"
  "kept s t \<Longrightarrow> keeps s (run_command env now cmd arg a key t w)"
  "kept s t \<Longrightarrow> keeps s (talk now text a key t w)"
  by (rule kept_trans, assumption, simp)+

lemma chat_command_keeps [simp]: "keeps s (chat_command env now body s w)"
  by (simp add: chat_command_def slash_command_def Let_def split: option.split prod.split flood_verdict.split)

section \<open>Games\<close>

lemma game_keeps [simp]:
  "fst (snd (game_list env now body s w)) = s" "fst (snd (check_data_file2 s w)) = s"
  "fst (snd (ladder_data env body s w)) = s" "fst (snd (find_ladder_user env body s w)) = s"
  "keeps s (notify_join now body s w)" "keeps s (net_game_port body s w)"
  by (auto simp: game_list_def check_data_file2_def ladder_data_def find_ladder_user_def notify_join_def
    net_game_port_def Let_def split: option.split prod.split)

lemma advertise_keeps [simp]: "keeps s (advertise env now body s w)"
  by (auto simp: advertise_def first_advertised_def Let_def split: option.split prod.split)

lemma game_result_keeps [simp]: "keeps s (game_result env now body s w)"
  by (auto simp: game_result_def normal_result_def ladder_game_result_def Let_def split: option.split prod.split)

section \<open>All packets\<close>

text \<open>Only three handlers, of seven packets, are left.\<close>

lemma dispatch_keeps:
  assumes "fr_id f \<notin> logon_ids" and "fr_id f \<noteq> SID_AUTH_ACCOUNTLOGON" and "fr_id f \<noteq> SID_AUTH_INFO"
  shows "keeps s (dispatch env tk f s w)"
  using assms by (simp add: dispatch_def Let_def logon_ids_def)

lemma dispatch_opens:
  assumes "fr_id f \<notin> logon_ids" and "fr_id f \<noteq> SID_AUTH_ACCOUNTLOGON"
  shows "opened s (fst (snd (dispatch env tk f s w)))"
proof (cases "fr_id f = SID_AUTH_INFO")
  case True
  then have "dispatch env tk f s w = auth_info env (fr_body f) s w" by (simp add: dispatch_def Let_def)
  then show ?thesis by (simp add: auth_info_opens)
qed (use dispatch_keeps [OF assms] kept_opened in blast)

end
