(* ===== verification/Session_Rules.thy ===== *)
theory Session_Rules
  imports Session_Keeps Node_Rules
begin

text \<open>
  What a connection can bring about: an account only from a proof of its credential, which then
  stays, a profile only of public values, and nothing left in the shared node once it is gone.
\<close>

section \<open>Logging on takes a proof\<close>

text \<open>
  The packet \<open>f\<close> carries a proof of account \<open>a\<close>'s stored credential: the account the packet names
  and the digest of its password under both tokens, or the answer to the challenge issued to this
  session for the stored salt and verifier.
\<close>

definition proof_shown :: "'s env \<Rightarrow> bncs_frame \<Rightarrow> session \<Rightarrow> 's world \<Rightarrow> node_account \<Rightarrow> bool" where
  "proof_shown env f s w a \<longleftrightarrow>
     (\<exists>ct st shown user digest. parse logon_fields (fr_body f) = Some (ct, st, shown, user) \<and>
        fst (act_account_by_name (en_ops env) (utf8_lossy user) (w_store w)) = Some a \<and>
        na_credential a = CredXsha1 digest \<and>
        proofs_match shown (logon_proof ct
          (if fr_id f = SID_LOGONRESPONSE then st else ss_server_token s) digest)) \<or>
     (\<exists>p shown. ss_srp s = Some p \<and> sp_account p = a \<and>
        na_credential a = CredSrp (sp_salt p) (sp_verifier p) \<and>
        parse (rd_bytes 20) (fr_body f) = Some shown \<and>
        server_verify (en_sha1 env) (sp_bare_name p) (sp_salt p) (sp_verifier p) (sp_b p)
          (sp_client_public p) (server_public (sp_verifier p) (sp_b p)) shown \<noteq> None)"

text \<open>A pending challenge belongs to the credential of its account.\<close>

definition challenge_ok :: "srp_pending \<Rightarrow> bool" where
  "challenge_ok p \<longleftrightarrow> na_credential (sp_account p) = CredSrp (sp_salt p) (sp_verifier p) \<and>
     sp_server_public p = server_public (sp_verifier p) (sp_b p)"

definition login_inv :: "session \<Rightarrow> bool" where
  "login_inv s \<longleftrightarrow> d2_is_safe (ss_statstring s) \<and> pred_option challenge_ok (ss_srp s) \<and>
     (authenticated (ss_state s) \<longrightarrow> ss_account s \<noteq> None) \<and>
     (ss_account s \<noteq> None \<longrightarrow> authenticated (ss_state s) \<or> ss_state s = Closing)"

lemma session_new_inv: "login_inv (session_new h ip tk fl now lp)"
  by (simp add: login_inv_def session_new_def authenticated_def d2_is_safe_def)

lemma finish_logonD:
  "finish_logon env now a s w = (t, v) \<Longrightarrow>
   ss_account t = Some a \<and> ss_state t = ss_state s \<and> ss_srp t = ss_srp s \<and> ss_statstring t = ss_statstring s"
  by (auto simp: finish_logon_def Let_def split: prod.splits)

text \<open>
  What a logon handler can do to the session: nothing to the account, or the account of a shown
  proof, which is not banned.
\<close>

definition logs_on :: "'s env \<Rightarrow> bncs_frame \<Rightarrow> session \<Rightarrow> 's world \<Rightarrow> 's run \<Rightarrow> bool" where
  "logs_on env f s w r \<longleftrightarrow>
     (let t = fst (snd r) in
      ss_state t = ss_state s \<and> ss_statstring t = ss_statstring s \<and> (ss_srp t = ss_srp s \<or> ss_srp t = None) \<and>
      (ss_account t = ss_account s \<or>
       (\<exists>a. ss_account t = Some a \<and> proof_shown env f s w a \<and> \<not> is_tag_banned (na_name a) (w_bans w))))"

lemma logon_logs_on:
  "fr_id f = i \<Longrightarrow> logs_on env f s w (logon env now i (fr_body f) s w)"
  by (auto simp: logs_on_def logon_def Let_def proof_shown_def dest!: finish_logonD
      split: option.splits prod.splits credential.splits)

lemma logon_proof_logs_on:
  assumes "pred_option challenge_ok (ss_srp s)"
  shows "logs_on env f s w (auth_account_logon_proof env now (fr_body f) s w)"
  using assms
  by (auto simp: logs_on_def auth_account_logon_proof_def Let_def proof_shown_def verify_pending_def
      challenge_ok_def dest!: finish_logonD split: option.splits prod.splits)

lemma challenge_inv:
  assumes "login_inv s"
  shows "login_inv (fst (snd (auth_account_logon env b body s w)))"
  using assms
  by (auto simp: auth_account_logon_def Let_def login_inv_def challenge_ok_def
      split: option.splits prod.splits credential.splits)

section \<open>A connection\<close>

text \<open>
  Any frames, at any times, with any private values, in a world that other sessions change between
  two frames.
\<close>

inductive connecting :: "'s env \<Rightarrow> session \<Rightarrow> bool" for env :: "'s env" where
  opened: "connecting env (session_new h ip tk fl now lp)"
| framed: "connecting env s \<Longrightarrow> connecting env (fst (serve env tk f (s, w)))"

lemma accepts_logon_ids: "accepts st i \<Longrightarrow> i \<in> logon_ids \<Longrightarrow> st = Authenticating"
  by (cases st) (auto simp: accepts_def always_accepted_def logon_ids_def chat_accepted_def sid_defs)

lemma dispatch_logs_on:
  assumes "login_inv s" and "fr_id f \<in> logon_ids"
  shows "logs_on env f s w (dispatch env tk f s w)"
  using assms logon_proof_logs_on [of s env f w "tk_now tk"] logon_logs_on [of f _ env s w "tk_now tk"]
  by (auto simp: dispatch_def logon_ids_def login_inv_def sid_defs)

lemma dispatch_challenge:
  assumes "fr_id f = SID_AUTH_ACCOUNTLOGON"
  shows "dispatch env tk f s w = auth_account_logon env (tk_b tk) (fr_body f) s w"
  using assms by (simp add: dispatch_def sid_defs)

lemma challenge_frame:
  "ss_state (fst (snd (auth_account_logon env b body s w))) = ss_state s"
  "ss_account (fst (snd (auth_account_logon env b body s w))) = ss_account s"
  by (auto simp: auth_account_logon_def Let_def split: option.splits prod.splits credential.splits)

text \<open>A handler that leaves the state alone, and what its packet then does to the state.\<close>

lemma serve_cases:
  obtains "fst (serve env tk f (s, w)) = s\<lparr>ss_state := Closing\<rparr>" "\<not> accepts (ss_state s) (fr_id f)" "\<not> authenticated (ss_state s)"
  | "fst (serve env tk f (s, w)) = s" "authenticated (ss_state s)"
  | t where "accepts (ss_state s) (fr_id f)" "t = fst (snd (dispatch env tk f s w))"
      "fst (serve env tk f (s, w)) = t\<lparr>ss_state := Closing\<rparr>
       \<or> fst (serve env tk f (s, w)) = t \<and>
         (next_on_success (ss_state t) (fr_id f) = Some LoggedIn \<longrightarrow> ss_account t = None)
       \<or> (\<exists>u. next_on_success (ss_state t) (fr_id f) = Some u \<and> (u \<noteq> LoggedIn \<or> ss_account t \<noteq> None) \<and>
           fst (serve env tk f (s, w)) = t\<lparr>ss_state := u\<rparr>)"
proof (cases "accepts (ss_state s) (fr_id f)")
  case True
  obtain st t v where d: "dispatch env tk f s w = (st, t, v)"
    by (cases "dispatch env tk f s w") auto
  show thesis
    by (rule that(3) [OF True]) (use True d in \<open>auto simp: serve_def advance_state_def
      split: step.splits option.splits if_splits\<close>)
next
  case False
  then show thesis using that(1,2) by (cases "authenticated (ss_state s)") (simp_all add: serve_def)
qed

lemma dispatch_frame:
  assumes "login_inv s" and "ss_account s = None" and t: "t = fst (snd (dispatch env tk f s w))"
  shows "ss_state t = ss_state s \<and> d2_is_safe (ss_statstring t) \<and> pred_option challenge_ok (ss_srp t) \<and>
    (ss_account t = None \<or> fr_id f \<in> logon_ids \<and>
      (\<exists>a. ss_account t = Some a \<and> proof_shown env f s w a \<and> \<not> is_tag_banned (na_name a) (w_bans w)))"
proof -
  have safe: "d2_is_safe (ss_statstring s)" "pred_option challenge_ok (ss_srp s)"
    using assms(1) by (simp_all add: login_inv_def)
  consider "fr_id f \<in> logon_ids" | "fr_id f = SID_AUTH_ACCOUNTLOGON"
    | "fr_id f \<notin> logon_ids" "fr_id f \<noteq> SID_AUTH_ACCOUNTLOGON" by blast
  then show ?thesis
  proof cases
    case 1
    with dispatch_logs_on [OF assms(1), of f env w tk] safe assms(2) show ?thesis
      unfolding t by (auto simp: logs_on_def Let_def)
  next
    case 2
    with challenge_inv [OF assms(1), of env "tk_b tk" "fr_body f" w] safe assms(2) show ?thesis
      unfolding t by (simp add: dispatch_challenge challenge_frame login_inv_def)
  next
    case 3
    with dispatch_opens [of f s env tk w] safe assms(2) show ?thesis
      unfolding t by (simp add: opened_def kept_def)
  qed
qed

lemma inv_no_account: "login_inv s \<Longrightarrow> \<not> authenticated (ss_state s) \<Longrightarrow> ss_state s \<noteq> Closing \<Longrightarrow> ss_account s = None"
  by (auto simp: login_inv_def)

lemma next_not_authenticated:
  "next_on_success u i = Some v \<Longrightarrow> \<not> authenticated u \<Longrightarrow> authenticated v \<longleftrightarrow> v = LoggedIn"
  by (auto simp: next_on_success_def authenticated_def split: session_state.splits if_splits)

text \<open>One frame, in a session that has not logged on.\<close>

lemma serve_step:
  assumes "login_inv s" and "\<not> authenticated (ss_state s)" and t: "t = fst (serve env tk f (s, w))"
  shows "login_inv t \<and> (authenticated (ss_state t) \<longrightarrow>
    (\<exists>a. ss_account t = Some a \<and> proof_shown env f s w a \<and> \<not> is_tag_banned (na_name a) (w_bans w)))"
proof (cases rule: serve_cases [of env tk f s w])
  case 1
  with assms show ?thesis by (auto simp: login_inv_def authenticated_def)
next
  case 2
  with assms show ?thesis by simp
next
  case (3 u)
  have "ss_account s = None" using inv_no_account assms(1,2) 3(1) by (auto simp: accepts_def)
  note u = dispatch_frame [OF assms(1) this 3(2)]
  note nxt = next_not_authenticated [OF _ assms(2), of "fr_id f"]
  from 3(3) show ?thesis
  proof (elim disjE exE)
    assume "fst (serve env tk f (s, w)) = u\<lparr>ss_state := Closing\<rparr>"
    with u t show ?thesis by (auto simp: login_inv_def authenticated_def)
  next
    assume a: "fst (serve env tk f (s, w)) = u \<and>
      (next_on_success (ss_state u) (fr_id f) = Some LoggedIn \<longrightarrow> ss_account u = None)"
    have "ss_account u = None"
      using a u accepts_logon_ids [OF 3(1)] by (auto simp: next_on_success_def logon_ids_def)
    with a u t assms(2) show ?thesis by (auto simp: login_inv_def)
  next
    fix v
    assume a: "next_on_success (ss_state u) (fr_id f) = Some v \<and> (v \<noteq> LoggedIn \<or> ss_account u \<noteq> None) \<and>
      fst (serve env tk f (s, w)) = u\<lparr>ss_state := v\<rparr>"
    have "v = LoggedIn" if "fr_id f \<in> logon_ids"
      using that a u accepts_logon_ids [OF 3(1) that] by (auto simp: next_on_success_def logon_ids_def split: if_splits)
    with a u t nxt [of v] show ?thesis by (auto simp: login_inv_def)
  qed
qed

text \<open>One frame, in a session that has logged on: the account stays.\<close>

lemma logged_on_packets:
  "accepts st i \<Longrightarrow> authenticated st \<Longrightarrow> i \<notin> logon_ids \<and> i \<noteq> SID_AUTH_ACCOUNTLOGON \<and> i \<noteq> SID_AUTH_INFO"
  by (cases st) (auto simp: accepts_def always_accepted_def logon_ids_def chat_accepted_def authenticated_def sid_defs)

lemma next_stays_authenticated: "next_on_success u i = Some v \<Longrightarrow> authenticated u \<Longrightarrow> authenticated v"
  by (auto simp: next_on_success_def authenticated_def split: session_state.splits if_splits)

lemma serve_logged_on:
  assumes "authenticated (ss_state s)" and t: "t = fst (serve env tk f (s, w))"
  shows "kept (s\<lparr>ss_state := ss_state t\<rparr>) t \<and> (authenticated (ss_state t) \<or> ss_state t = Closing)"
proof (cases rule: serve_cases [of env tk f s w])
  case (3 u)
  have "kept s u" using logged_on_packets [OF 3(1) assms(1)] dispatch_keeps [of f s env tk w] 3(2) by simp
  then have "kept (s\<lparr>ss_state := x\<rparr>) (u\<lparr>ss_state := x\<rparr>)" "ss_state u = ss_state s" for x
    by (simp_all add: kept_def require_staff_def)
  moreover from this have "next_on_success (ss_state u) (fr_id f) = Some x \<Longrightarrow> authenticated x" for x
    using next_stays_authenticated assms(1) by metis
  ultimately show ?thesis using 3(3) assms \<open>kept s u\<close> by auto
qed (use assms in simp_all)

lemma serve_inv: "login_inv s \<Longrightarrow> login_inv (fst (serve env tk f (s, w)))"
proof (cases "authenticated (ss_state s)")
  case True
  assume "login_inv s"
  with serve_logged_on [OF True refl, of env tk f w] True show ?thesis
    by (auto simp: login_inv_def kept_def)
qed (use serve_step in blast)

lemma connecting_inv: "connecting env s \<Longrightarrow> login_inv s"
  by (induction rule: connecting.induct) (simp_all add: session_new_inv serve_inv)

lemma serve_continue:
  assumes "accepts (ss_state s) (fr_id f)" and "fst (dispatch env tk f s w) = StepContinue"
    and "t = fst (snd (dispatch env tk f s w))"
    and "next_on_success (ss_state t) (fr_id f) = Some u" and "u \<noteq> LoggedIn \<or> ss_account t \<noteq> None"
  shows "fst (serve env tk f (s, w)) = t\<lparr>ss_state := u\<rparr>"
  using assms by (cases "dispatch env tk f s w") (auto simp: serve_def advance_state_def)

text \<open>
  A refused version check or CD key does not keep a connection from logging on: the refusal is a
  reply like any other, after which the state advances.
\<close>

lemma refused_version_can_still_log_on:
  assumes "version_refused env s" and "ss_state s = Versioning" and "fr_id f = SID_AUTH_CHECK"
    and "fst (reply (check_reply CHECK_OLD_VERSION []) s w) = StepContinue"
  shows "fst (serve env tk f (s, w)) = s\<lparr>ss_state := Authenticating\<rparr>"
  using assms
  by (intro serve_continue)
    (simp_all add: dispatch_def auth_check_def accepts_def next_on_success_def sid_defs)

section \<open>One logon, frame by frame\<close>

definition bob_storage :: memory_storage where
  "bob_storage = snd (so_create_account memory_ops \<lparr>n_name = ascii ''bob'',
     n_credential = CredXsha1 [1, 2, 3], n_created_at = 0, n_attrs = fmempty\<rparr> memory_new)"

definition bob_env :: "memory_storage env" where
  "bob_env = \<lparr>en_cfg = quiet_config, en_ops = memory_ops, en_sha1 = (\<lambda>x. x), en_files = (\<lambda>_. None),
     en_ads = [], en_name = [], en_version = [], en_realm = None, en_rating = (\<lambda>r _ _. r),
     en_pages = 9, en_min_game = 0, en_lookup = (\<lambda>_. None)\<rparr>"

definition bob_tick :: tick where
  "bob_tick = \<lparr>tk_now = 0, tk_b = [], tk_cookie = 0, tk_draws = []\<rparr>"

definition bob_world :: "memory_storage world" where
  "bob_world = \<lparr>w_node = node_new [] (\<lambda>_. idle_queue), w_store = bob_storage, w_bans = bans_load [] fmempty fmempty\<rparr>"

definition bob_flood :: flood_policy where
  "bob_flood = game_flood (for_mode Both)"

lemma bob_answered:
  assumes "length (fr_body f) \<le> 60000" and "nd_outbounds (w_node w) (ss_out s) = idle_queue"
  shows "fst (reply f s w) = StepContinue"
  using assms by (simp add: reply_def send_frame_def encode_frame_def send_to_def ob_send_def
    idle_queue_def wire_len_def HEADER_LEN_def)

lemma bob_mpq: "served_version_mpq (version_mpq_name None None None) has = ascii ''IX86'' @ ascii ''ver1.mpq''"
proof -
  have "\<not> starts_with (ascii ''IX86'' @ ascii ''ver1.mpq'') (ascii ''ver-'')" by code_simp
  then show ?thesis by (simp add: served_version_mpq_def version_mpq_name_def is_w3_def is_d2_def)
qed

lemma bob_opening: "parse start_versioning_fields [] = None"
  by (simp add: parse_def start_versioning_fields_def rd_fourcc_def rd_new_def rd_bind_def rd_map_def
      rd_take_def rd_remaining_def)

lemma short_filter: "length (filter P (ascii s)) \<le> length s"
  using length_filter_le [of P "ascii s"] by (simp add: ascii_def del: length_filter_le)

definition bob_new :: session where "bob_new = session_new 0 (V4 [1]) 77 bob_flood 0 None"

lemma bob_opens:
  "fst (start_versioning bob_env [] bob_new bob_world) = StepContinue"
  "fst (snd (start_versioning bob_env [] bob_new bob_world)) = bob_new"
proof -
  show "fst (start_versioning bob_env [] bob_new bob_world) = StepContinue"
    unfolding start_versioning_def bob_opening Let_def option.case version_mpq_def
    by (rule bob_answered) (use short_filter [of "\<lambda>b. b \<noteq> 0" "''IX86''"] short_filter [of "\<lambda>b. b \<noteq> 0" "''ver1.mpq''"]
      short_filter [of "\<lambda>b. b \<noteq> 0" "''A=1 B=1 C=1 4 A=A^S B=B^C C=C^A A=A^B''"] in
      \<open>simp_all add: bob_new_def session_new_def bob_mpq bob_world_def node_new_def frame_def w_chain_def w_u64_def w_cstr_def w_new_def neutral_formula_def\<close>)
  show "fst (snd (start_versioning bob_env [] bob_new bob_world)) = bob_new"
    by (simp add: start_versioning_def bob_opening Let_def)
qed

lemma bob_versioning:
  "fst (serve bob_env bob_tick (frame SID_STARTVERSIONING []) (bob_new, bob_world)) = bob_new\<lparr>ss_state := Versioning\<rparr>"
proof -
  have "dispatch bob_env bob_tick (frame SID_STARTVERSIONING []) bob_new bob_world = start_versioning bob_env [] bob_new bob_world"
    by (simp add: dispatch_def frame_def sid_defs)
  then show ?thesis
    by (subst serve_continue [where t = bob_new and u = Versioning])
      (simp_all add: bob_opens, simp_all add: bob_new_def session_new_def accepts_def frame_def next_on_success_def)
qed

definition bob_checked :: session where "bob_checked = bob_new\<lparr>ss_state := Authenticating\<rparr>"

lemma bob_reports:
  "fst (serve bob_env bob_tick (frame SID_REPORTVERSION []) (bob_new\<lparr>ss_state := Versioning\<rparr>, bob_world)) = bob_checked"
proof -
  let ?s = "bob_new\<lparr>ss_state := Versioning\<rparr>"
  have "dispatch bob_env bob_tick (frame SID_REPORTVERSION []) ?s bob_world = report_version bob_env ?s bob_world"
    by (simp add: dispatch_def frame_def sid_defs)
  moreover have "fst (report_version bob_env ?s bob_world) = StepContinue"
    unfolding report_version_def
    by (rule bob_answered) (simp_all add: report_version_reply_def bob_world_def node_new_def frame_def w_chain_def w_u32_def w_u8_def w_cstr_def w_new_def)
  moreover have "fst (snd (report_version bob_env ?s bob_world)) = ?s" by (simp add: report_version_def)
  ultimately show ?thesis
    by (subst serve_continue [where t = ?s and u = Authenticating])
      (simp_all add: accepts_def frame_def next_on_success_def bob_checked_def)
qed

lemma bob_connecting: "connecting bob_env bob_checked"
  using opened [of bob_env 0 "V4 [1]" 77 bob_flood 0 None]
    framed [of bob_env bob_new bob_tick "frame SID_STARTVERSIONING []" bob_world]
    framed [of bob_env "bob_new\<lparr>ss_state := Versioning\<rparr>" bob_tick "frame SID_REPORTVERSION []" bob_world]
  by (simp add: bob_versioning bob_reports flip: bob_new_def)

definition bob_shows :: bncs_frame where
  "bob_shows = frame SID_LOGONRESPONSE2 (le32 5 @ le32 0 @ logon_proof 5 77 [1, 2, 3] @ ascii ''bob'' @ [0])"

lemma logon_fields_of:
  assumes "length p = 20" and "0 \<notin> set name" and "length name \<le> USERNAME_MAX" and "USERNAME_MAX \<le> READ_LIMIT"
  shows "parse logon_fields (le32 ct @ le32 st @ p @ name @ [0]) = Some (ct, st, p, name)"
proof -
  have "rd_cstr READ_LIMIT (rd_at q (name @ [0])) = Ok (name, rd_at (q @ name @ [0]) [])" for q
    using rd_cstr_app [of name READ_LIMIT q "[]"] assms by simp
  with assms(1,3) show ?thesis
    by (simp add: parse_def logon_fields_def rd_new_at rd_bind_simps rd_return_def rd_bytes_def read_username_def
      rd_map_def)
qed

lemma bob_fields: "parse logon_fields (fr_body bob_shows) = Some (5, 0, logon_proof 5 77 [1, 2, 3], ascii ''bob'')"
  unfolding bob_shows_def frame_def bncs_frame.simps
  by (rule logon_fields_of) (simp_all add: READ_LIMIT_def USERNAME_MAX_def ascii_def)

definition bob_account :: node_account where
  "bob_account = \<lparr>na_id = 1, na_name = ascii ''bob'', na_credential = CredXsha1 [1, 2, 3]\<rparr>"

lemma bob_stored: "act_account_by_name memory_ops (utf8_lossy (ascii ''bob'')) bob_storage = (Some bob_account, bob_storage)"
  by (simp add: bob_storage_def memory_ops_def act_account_by_name_def bob_account_def) code_simp

definition bob_on :: session where
  "bob_on = fst (serve bob_env bob_tick bob_shows (bob_checked, bob_world))"

lemma bob_flags: "fst (act_user_flags memory_ops 1 bob_storage) = 0"
  by (simp add: bob_storage_def act_user_flags_def memory_ops_def) code_simp

lemma bob_logged_on:
  "authenticated (ss_state bob_on) \<and> ss_account bob_on = Some bob_account \<and> \<not> require_staff bob_on"
proof -
  let ?r = "logon bob_env 0 SID_LOGONRESPONSE2 (fr_body bob_shows) bob_checked bob_world"
  have d: "dispatch bob_env bob_tick bob_shows bob_checked bob_world = ?r"
    by (simp add: dispatch_def bob_shows_def frame_def bob_tick_def sid_defs)
  have bans: "\<not> is_tag_banned x (w_bans bob_world)" for x
    by (simp add: bob_world_def bans_load_def refresh_flags_def is_tag_banned_def)
  have r: "?r = (case finish_logon bob_env 0 bob_account bob_checked (bob_world\<lparr>w_store := bob_storage\<rparr>) of
      (s, w) \<Rightarrow> reply (logon_reply SID_LOGONRESPONSE2 LOGON_SUCCESS) s w)"
    using bans [of "na_name bob_account"]
    by (simp add: logon_def bob_fields bob_stored bob_env_def bob_world_def sid_defs bob_checked_def bob_new_def
      session_new_def bob_account_def proofs_match_refl)
  obtain t v where tv: "finish_logon bob_env 0 bob_account bob_checked (bob_world\<lparr>w_store := bob_storage\<rparr>) = (t, v)"
    by fastforce
  have "nd_outbounds (w_node v) (ss_out t) = idle_queue"
    using tv by (auto simp: finish_logon_def Let_def bob_checked_def bob_new_def session_new_def bob_world_def
      register_session_def node_new_def claim_name_def split: prod.splits)
  then have "fst ?r = StepContinue"
    unfolding r tv by (simp add: bob_answered logon_reply_def frame_def w_chain_def w_u32_def w_new_def)
  moreover have "fst (snd ?r) = t" by (simp add: r tv)
  ultimately have on: "bob_on = t\<lparr>ss_state := LoggedIn\<rparr>"
    using finish_logonD [OF tv] serve_continue [of bob_checked bob_shows bob_env bob_tick bob_world t LoggedIn]
    by (simp add: d bob_on_def) (simp add: bob_checked_def accepts_def next_on_success_def bob_shows_def frame_def)
  have "ss_flags t = 0"
    using tv bob_flags by (auto simp: finish_logon_def Let_def bob_env_def quiet_config_def is_admin_def
      bob_account_def bob_checked_def bob_new_def session_new_def split: prod.splits)
  with finish_logonD [OF tv] show ?thesis by (simp add: on authenticated_def require_staff_def)
qed

lemma bob_logs_on:
  "authenticated (ss_state (fst (serve bob_env bob_tick bob_shows (bob_checked, bob_world))))"
  using bob_logged_on by (simp add: bob_on_def)

text \<open>C23
  Nobody is logged on without a proof. When a connection, after any frames it was sent before,
  becomes authenticated by one more frame, it holds the account whose stored credential that frame
  proves: the packet's 20 bytes match the X-SHA-1 proof of the stored digest under both tokens, or
  they verify against the challenge this server issued for the stored salt and verifier. And the
  account is not banned.
\<close>

theorem logon_needs_proof:
  assumes "connecting env s" and "\<not> authenticated (ss_state s)"
    and "authenticated (ss_state (fst (serve env tk f (s, w))))"
  shows "\<exists>a. ss_account (fst (serve env tk f (s, w))) = Some a \<and> proof_shown env f s w a \<and>
    \<not> is_tag_banned (na_name a) (w_bans w)"
  using serve_step [OF connecting_inv [OF assms(1)] assms(2) refl] assms(3) by blast

lemma logon_needs_proof_witness:
  "\<exists>a. ss_account (fst (serve bob_env bob_tick bob_shows (bob_checked, bob_world))) = Some a \<and>
    proof_shown bob_env bob_shows bob_checked bob_world a \<and> \<not> is_tag_banned (na_name a) (w_bans bob_world)"
  by (rule logon_needs_proof [OF bob_connecting _ bob_logs_on])
    (simp add: bob_checked_def authenticated_def)


section \<open>Profiles\<close>

lemma rd_strings_length: "rd_strings limit n r = Ok (xs, r') \<Longrightarrow> length xs = n"
  by (induction n arbitrary: r xs r') (auto simp: rd_return_def rd_bind_def obind_Ok_conv)

lemma user_data_counts:
  assumes "parse user_data_fields body = Some (na, nk, rid, users, key_names)"
  shows "length users = na \<and> length key_names = nk \<and> na \<le> 64 \<and> nk \<le> 64"
  using assms
  by (auto simp: parse_def user_data_fields_def rd_bind_def Let_def rd_return_def rd_strings_length obind_Ok_conv
      split: outcome.splits)

definition public_key :: "attr_key \<Rightarrow> bool" where
  "public_key k \<longleftrightarrow> acl_read (acl_of schema_default k) = LevelAny"

lemma readable_by_others: "can_read schema_default k ActorOther i \<longleftrightarrow> public_key k"
  by (cases "acl_read (acl_of schema_default k)") (simp_all add: can_read_def public_key_def)

lemma readable_attrs_public:
  "fmlookup (fst (act_read_readable_attrs ops name ks st)) k = Some v \<Longrightarrow> public_key k"
  by (auto simp: act_read_readable_attrs_def filter_readable_def readable_by_others Let_def
      split: prod.splits outcome.splits option.splits if_splits)

lemma profile_values_length: "length (fst (profile_values ops ks users st)) = length users * length ks"
  by (induction users arbitrary: st) (simp_all add: Let_def split: prod.splits, metis fst_conv)

lemma profile_values_public:
  "\<lbrakk>i < length users; j < length ks; \<not> public_key (ks ! j)\<rbrakk> \<Longrightarrow>
   fst (profile_values ops ks users st) ! (i * length ks + j) = []"
proof (induction users arbitrary: st i)
  case (Cons u us)
  obtain m st1 where m: "act_read_readable_attrs ops u ks st = (m, st1)" by fastforce
  have no: "fmlookup m (ks ! j) = None"
    using readable_attrs_public [of ops u ks st "ks ! j"] Cons.prems(3) m by (metis fst_conv option.exhaust)
  obtain vs st2 where vs: "profile_values ops ks us st1 = (vs, st2)" by fastforce
  show ?case
  proof (cases i)
    case 0
    with Cons.prems(2) m no vs show ?thesis by (simp add: nth_append)
  next
    case (Suc i')
    with Cons.IH [of i' st1] Cons.prems vs m show ?thesis
      by (simp add: nth_append_right add.assoc)
  qed
qed simp

text \<open>C30
  A profile read, before or after the logon, gives away public values only. The answer to the
  packet has one value for each requested account and key, in order, at most 64 of each, and where
  the default schema does not let everyone read a key, its value in the answer is empty, whatever
  the storage backend returned for it.
\<close>

theorem profile_reads_are_public:
  assumes "parse user_data_fields body = Some (na, nk, rid, users, key_names)"
  shows "\<exists>vs st. read_user_data env body s w =
      reply (frame SID_READUSERDATA (w_chain ([w_u32 (word_of_nat na), w_u32 (word_of_nat nk), w_u32 rid] @
        map w_cstr vs))) s (w\<lparr>w_store := st\<rparr>) \<and>
    length vs = na * nk \<and>
    (\<forall>i < na. \<forall>j < nk. acl_read (acl_of schema_default (key_new (key_names ! j))) \<noteq> LevelAny \<longrightarrow>
       vs ! (i * nk + j) = [])"
proof -
  note n = user_data_counts [OF assms]
  obtain vs st where vs: "profile_values (en_ops env) (map key_new key_names) users (w_store w) = (vs, st)" by fastforce
  have "vs ! (i * nk + j) = []" if "i < na" "j < nk" "acl_read (acl_of schema_default (key_new (key_names ! j))) \<noteq> LevelAny" for i j
    using profile_values_public [of i users j "map key_new key_names" "en_ops env" "w_store w"] that n vs
    by (simp add: public_key_def)
  moreover have "length vs = na * nk"
    using profile_values_length [of "en_ops env" "map key_new key_names" users "w_store w"] n vs by simp
  moreover have "read_user_data env body s w =
      reply (frame SID_READUSERDATA (w_chain ([w_u32 (word_of_nat na), w_u32 (word_of_nat nk), w_u32 rid] @
        map w_cstr vs))) s (w\<lparr>w_store := st\<rparr>)"
    using assms vs by (simp add: read_user_data_def)
  ultimately show ?thesis by blast
qed
definition digest_request :: bytes where
  "digest_request = le32 1 @ le32 1 @ le32 9 @ ascii ''bob'' @ [0] @ KEY_PASSWORD_DIGEST @ [0]"

lemma profile_reads_are_public_witness:
  "\<exists>vs st. read_user_data bob_env digest_request bob_checked bob_world =
      reply (frame SID_READUSERDATA (w_chain ([w_u32 1, w_u32 1, w_u32 9] @ map w_cstr vs)))
        bob_checked (bob_world\<lparr>w_store := st\<rparr>) \<and> vs = [[]]"
proof -
  have zero: "0 \<notin> set (ascii ''bob'')" "0 \<notin> set KEY_PASSWORD_DIGEST" by code_simp+
  have short: "length (ascii ''bob'') \<le> 64" "length KEY_PASSWORD_DIGEST \<le> 256"
    by (simp_all add: key_lengths) (simp add: ascii_def)
  have plain: "utf8_lossy (ascii ''bob'') = ascii ''bob''" "utf8_lossy KEY_PASSWORD_DIGEST = KEY_PASSWORD_DIGEST"
    by (rule utf8_lossy_ascii; code_simp)+
  have fields: "parse user_data_fields digest_request = Some (1, 1, 9, [ascii ''bob''], [KEY_PASSWORD_DIGEST])"
    using rd_cstr_app [OF zero(1) short(1)] rd_cstr_app [OF zero(2) short(2), of _ "[]"] rd_u32_app [of _ 1] rd_u32_app [of _ 9]
    by (simp add: parse_def user_data_fields_def digest_request_def rd_new_at rd_bind_simps rd_return_def Let_def plain)
  have "key_str (key_new KEY_PASSWORD_DIGEST) = lowercase KEY_PASSWORD_DIGEST" by code_simp
  then have "secret_key (key_new KEY_PASSWORD_DIGEST)" by (simp add: secret_key_def covers_def)
  then have "acl_read (acl_of schema_default (key_new KEY_PASSWORD_DIGEST)) \<noteq> LevelAny"
    by (simp add: acl_secret ACL_SECRET_def)
  with profile_reads_are_public [OF fields, of bob_env bob_checked bob_world] show ?thesis
    by (auto simp: length_Suc_conv)
qed

section \<open>The end\<close>

definition other_tables :: "node \<Rightarrow> node \<Rightarrow> bool" where
  "other_tables m n \<longleftrightarrow> nd_keys n = nd_keys m \<and> nd_key_holders n = nd_key_holders m \<and>
     nd_tickets n = nd_tickets m \<and> nd_games n = nd_games m"

lemma other_tables_leave: "other_tables n (snd (leave_channel key name n))"
  by (auto simp: other_tables_def leave_channel_def destroy_if_def Let_def split: option.splits prod.splits)

lemma other_tables_enqueue: "other_tables n (enqueue_leave key fr n)"
  by (simp add: other_tables_def enqueue_leave_def)

lemma other_tables_trans: "other_tables a b \<Longrightarrow> other_tables b c \<Longrightarrow> other_tables a c"
  by (simp add: other_tables_def)

lemma release_keys:
  "same_tables n (fold (\<lambda>k. release_key k now) ks n) \<and>
   (\<forall>k. k \<in> set ks \<or> fmlookup (kr_active (nd_keys n)) k = None \<longrightarrow>
      fmlookup (kr_active (nd_keys (fold (\<lambda>k. release_key k now) ks n))) k = None) \<and>
   (\<forall>k. k \<in> set ks \<or> fmlookup (nd_key_holders n) k = None \<longrightarrow>
      fmlookup (nd_key_holders (fold (\<lambda>k. release_key k now) ks n)) k = None)"
proof (induction ks arbitrary: n)
  case (Cons k ks)
  have "same_tables n (release_key k now n)"
    "\<And>j. j = k \<or> fmlookup (kr_active (nd_keys n)) j = None \<Longrightarrow> fmlookup (kr_active (nd_keys (release_key k now n))) j = None"
    "\<And>j. j = k \<or> fmlookup (nd_key_holders n) j = None \<Longrightarrow> fmlookup (nd_key_holders (release_key k now n)) j = None"
    by (auto simp: release_key_def same_tables_def key_release_def split: option.splits)
  with Cons [of "release_key k now n"] show ?case by (auto intro: same_tables_trans)
qed simp

lemma revoke_tickets:
  "same_tables n (fold revoke_realm_ticket is n) \<and>
   nd_keys (fold revoke_realm_ticket is n) = nd_keys n \<and>
   nd_key_holders (fold revoke_realm_ticket is n) = nd_key_holders n \<and>
   (\<forall>i. i \<in> set is \<or> fmlookup (nd_tickets n) i = None \<longrightarrow>
      fmlookup (nd_tickets (fold revoke_realm_ticket is n)) i = None)"
proof (induction "is" arbitrary: n)
  case (Cons i "is")
  have "same_tables n (revoke_realm_ticket i n)" "nd_keys (revoke_realm_ticket i n) = nd_keys n"
    "nd_key_holders (revoke_realm_ticket i n) = nd_key_holders n"
    "\<And>j. j = i \<or> fmlookup (nd_tickets n) j = None \<Longrightarrow> fmlookup (nd_tickets (revoke_realm_ticket i n)) j = None"
    by (auto simp: revoke_realm_ticket_def same_tables_def)
  with Cons [of "revoke_realm_ticket i n"] show ?case by (auto intro: same_tables_trans)
qed simp

lemma withdrawn:
  "same_tables n (withdraw_game a n)" "nd_keys (withdraw_game a n) = nd_keys n"
  "nd_key_holders (withdraw_game a n) = nd_key_holders n" "nd_tickets (withdraw_game a n) = nd_tickets n"
  "fmlookup (nd_games (withdraw_game a n)) k = Some g \<Longrightarrow> ga_host g \<noteq> a"
  by (auto simp: withdraw_game_def same_tables_def split: if_splits option.splits)

lemma left_channel:
  assumes "node_inv n"
  shows "\<not> is_member key name (snd (leave_channel key name n))"
proof -
  let ?n = "snd (leave_channel key name n)"
  have inv: "node_inv ?n" using assms by (rule node_inv_leave)
  show ?thesis
  proof (cases "fmlookup (nd_channels ?n) key")
    case (Some c)
    obtain subs where subs: "fmlookup (nd_subscribers ?n) key = Some subs" "chan_ok key c subs"
      using node_inv_subs [OF inv Some] .
    have "\<not> eq_nocase (fst x) name" if "x \<in> set subs" for x
      using that subs(1) Some node_inv_dom [OF assms, of key]
      by (auto simp: leave_channel_def destroy_if_def Let_def split: option.splits prod.splits if_splits)
    then have "\<forall>x \<in> set subs. lowercase (fst x) \<noteq> lowercase name" by (simp add: eq_nocase_def)
    then have "lowercase name \<notin> set (sub_names subs)" by force
    then have "lowercase name \<notin> set (names c)" using subs(2) unfolding chan_ok_def by metis
    then show ?thesis using Some by (force simp: is_member_def list_ex_iff names_def eq_nocase_def)
  qed (simp add: is_member_def)
qed

lemma is_member_enqueue [simp]: "is_member key name (enqueue_leave k f n) = is_member key name n"
  by (simp add: is_member_def enqueue_leave_def)

text \<open>C31
  A session that ends leaves nothing behind in the shared tables. Afterwards its CD keys are no
  longer active or attributed, its realm tickets are void, no game is advertised by its account, it
  is not a member of the channel it was in, its display name is free and not listed among the
  sessions, and the channel tables still agree.
\<close>

theorem cleanup_leaves_nothing:
  assumes "node_inv (w_node w)"
  shows "let n = w_node (snd (cleanup now s w)) in
    node_inv n \<and>
    (\<forall>k \<in> set (ss_claimed_keys s). fmlookup (kr_active (nd_keys n)) k = None \<and> fmlookup (nd_key_holders n) k = None) \<and>
    (\<forall>i \<in> set (ss_tickets s). fmlookup (nd_tickets n) i = None) \<and>
    (\<forall>a k g. ss_account s = Some a \<longrightarrow> fmlookup (nd_games n) k = Some g \<longrightarrow> ga_host g \<noteq> na_id a) \<and>
    (\<forall>key. ss_channel s = Some key \<longrightarrow> \<not> is_member key (ss_display_name s) n) \<and>
    (ss_display_name s \<noteq> [] \<longrightarrow> lowercase (ss_display_name s) |\<notin>| nd_names n \<and>
       fmlookup (nd_sessions n) (lowercase (ss_display_name s)) = None)"
proof -
  define n1 where "n1 = fold (\<lambda>k. release_key k now) (ss_claimed_keys s) (w_node w)"
  define n2 where "n2 = fold revoke_realm_ticket (ss_tickets s) n1"
  define n3 where "n3 = (case ss_account s of Some a \<Rightarrow> withdraw_game (na_id a) n2 | None \<Rightarrow> n2)"
  define n4 where "n4 = (case ss_channel s of None \<Rightarrow> n3
    | Some key \<Rightarrow> let (_, n) = leave_channel key (ss_display_name s) n3 in
        (case encode_frame (chat_event EvLeave (ss_flags s) 0 (ss_display_name s) []) [] of
           Ok bytes \<Rightarrow> enqueue_leave key bytes n | _ \<Rightarrow> n))"
  let ?n = "w_node (snd (cleanup now s w))"
  have n: "?n = (if ss_display_name s \<noteq> [] then release_name (ss_display_name s) (unregister_session (ss_display_name s) n4) else n4)"
    unfolding cleanup_def n4_def n3_def n2_def n1_def Let_def by simp
  have n3: "same_tables (w_node w) n3" "fmlookup (nd_games n3) k = Some g \<Longrightarrow> ss_account s = Some a \<Longrightarrow> ga_host g \<noteq> na_id a"
    "i \<in> set (ss_tickets s) \<Longrightarrow> fmlookup (nd_tickets n3) i = None"
    "c \<in> set (ss_claimed_keys s) \<Longrightarrow> fmlookup (kr_active (nd_keys n3)) c = None \<and> fmlookup (nd_key_holders n3) c = None" for k g i c a
    using release_keys [where now = now and ks = "ss_claimed_keys s" and n = "w_node w", folded n1_def]
      revoke_tickets [of n1 "ss_tickets s", folded n2_def] withdrawn [where n = n2]
    by (auto simp: n3_def withdrawn intro: same_tables_trans split: option.splits)
  have inv3: "node_inv n3" using node_inv_same [OF assms n3(1)] .
  have n4: "other_tables n3 n4 \<and> node_inv n4 \<and> (\<forall>key. ss_channel s = Some key \<longrightarrow> \<not> is_member key (ss_display_name s) n4)"
  proof (cases "ss_channel s")
    case (Some key)
    obtain lo m where m: "leave_channel key (ss_display_name s) n3 = (lo, m)" by fastforce
    have "other_tables n3 m" "node_inv m" "\<not> is_member key (ss_display_name s) m"
      using other_tables_leave [of n3 key "ss_display_name s"] node_inv_leave [OF inv3, of key "ss_display_name s"]
        left_channel [OF inv3, of key "ss_display_name s"] by (simp_all add: m)
    with Some m other_tables_trans [OF _ other_tables_enqueue] show ?thesis
      by (auto simp: n4_def node_inv_enqueue split: outcome.split)
  qed (simp add: n4_def other_tables_def inv3)
  have "same_tables n4 ?n" "other_tables n4 ?n"
    by (auto simp: n same_tables_def other_tables_def release_name_def unregister_session_def)
  moreover from this have "node_inv ?n" "is_member key name ?n = is_member key name n4" for key name
    using n4 node_inv_same by (auto simp: is_member_def same_tables_def)
  moreover have "ss_display_name s \<noteq> [] \<longrightarrow> lowercase (ss_display_name s) |\<notin>| nd_names ?n \<and>
       fmlookup (nd_sessions ?n) (lowercase (ss_display_name s)) = None"
    by (simp add: n release_name_def unregister_session_def)
  ultimately show ?thesis using n3(2,3,4) n4
    by (simp add: Let_def other_tables_def)
qed
lemma cleanup_leaves_nothing_witness:
  "\<not> is_member [0x78] [0x61] (w_node (snd (cleanup 0
      (bob_new\<lparr>ss_display_name := [0x61], ss_channel := Some [0x78]\<rparr>)
      (bob_world\<lparr>w_node := node_exec quiet_config (NodeJoin [0x58] 7 [0x61] 0 None [] 3) (node_new [] (\<lambda>_. idle_queue))\<rparr>)))) \<and>
   is_member [0x78] [0x61] (node_exec quiet_config (NodeJoin [0x58] 7 [0x61] 0 None [] 3) (node_new [] (\<lambda>_. idle_queue)))"
proof -
  let ?n = "node_exec quiet_config (NodeJoin [0x58] 7 [0x61] 0 None [] 3) (node_new [] (\<lambda>_. idle_queue))"
  have "node_inv ?n"
    by (rule node_inv_reached, rule node_step, rule node_start)
  then have inv: "node_inv (w_node (bob_world\<lparr>w_node := ?n\<rparr>))" by simp
  have "is_member [0x78] [0x61] ?n" by code_simp
  with cleanup_leaves_nothing [OF inv, of 0 "bob_new\<lparr>ss_display_name := [0x61], ss_channel := Some [0x78]\<rparr>"]
  show ?thesis by (simp add: Let_def)
qed

end
