(* ===== verification/Line.thy ===== *)
theory Line
  imports Framing Text
begin

text \<open>
  \<open>bnetcc-proto/src/line.rs\<close>: the line framing of the chat gateway, and the one operation the
  gateway session has: it answers every line that is not empty with that line in a message. An
  error of the decoder ends the connection; the buffer it clears is not read again.
\<close>

section \<open>Lines\<close>

definition DEFAULT_MAX_LINE :: nat where "DEFAULT_MAX_LINE = 1024"

definition CR :: u8 where "CR = 13"
definition LF :: u8 where "LF = 10"

definition decode_line :: "nat \<Rightarrow> recv_buf \<Rightarrow> (bytes option \<times> recv_buf) proto_result" where
  "decode_line max_line src =
     obind (rb_as_slice src) (\<lambda>buf.
     case find_index (\<lambda>b. b = LF) buf of
       Some idx \<Rightarrow>
         if idx > max_line then Err (LineTooLong max_line)
         else
           obind (if idx > 0 then obind (index buf (idx - 1)) (\<lambda>b. Ok (if b = CR then idx - 1 else idx))
                  else Ok idx)
             (\<lambda>end.
           obind (slice 0 end buf) (\<lambda>line. Ok (Some line, rb_consume (idx + 1) src)))
     | None \<Rightarrow>
         if length buf > max_line then Err (LineTooLong max_line) else Ok (None, src))"

definition encode_line :: "bytes \<Rightarrow> bytes \<Rightarrow> bytes" where
  "encode_line line dst = dst @ line @ [CR, LF]"

text \<open>\<open>{id:04}\<close> and \<open>{flags:04X}\<close>: padded with zeros to four digits, longer where the number is.\<close>

definition pad4 :: "bytes \<Rightarrow> bytes" where
  "pad4 s = replicate (4 - length s) 0x30 @ s"

definition gateway_message :: "u16 \<Rightarrow> bytes \<Rightarrow> bytes option \<Rightarrow> bytes" where
  "gateway_message i name data =
     (case data of
        Some d \<Rightarrow> pad4 (decimal (unat i)) @ [0x20] @ name @ [0x20] @ d
      | None \<Rightarrow> pad4 (decimal (unat i)) @ [0x20] @ name)"

definition upper_hex :: "nat \<Rightarrow> u8" where
  "upper_hex n = word_of_nat (if n < 10 then 0x30 + n else 0x37 + n)"

fun hex_upper :: "nat \<Rightarrow> bytes" where
  "hex_upper n = (if n < 16 then [upper_hex n] else hex_upper (n div 16) @ [upper_hex (n mod 16)])"

declare hex_upper.simps [simp del]

definition gateway_flags :: "u32 \<Rightarrow> bytes" where
  "gateway_flags flags = pad4 (hex_upper (unat flags))"

section \<open>The gateway session\<close>

definition gateway_greeting :: "bytes \<Rightarrow> bytes" where
  "gateway_greeting node_name =
     encode_line (gateway_message 1001 node_name (Some (ascii ''Command Center chat gateway''))) []"

definition gateway_reply :: "bytes \<Rightarrow> bytes" where
  "gateway_reply line = encode_line (gateway_message 1018 (ascii ''INFO'') (Some (utf8_lossy line))) []"

text \<open>The replies to the lines of one batch; an empty line is skipped.\<close>

definition gateway_replies :: "bytes list \<Rightarrow> bytes list" where
  "gateway_replies lines = map gateway_reply (filter (\<lambda>l. l \<noteq> []) lines)"

section \<open>Lines are a framing\<close>

definition line_of :: "nat \<Rightarrow> bytes \<Rightarrow> (bytes \<times> nat) option proto_result" where
  "line_of m buf =
     (case find_index (\<lambda>b. b = LF) buf of
        Some idx \<Rightarrow>
          if idx > m then Err (LineTooLong m)
          else Ok (Some (if idx > 0 \<and> buf ! (idx - 1) = CR then take (idx - 1) buf else take idx buf, idx + 1))
      | None \<Rightarrow> if length buf > m then Err (LineTooLong m) else Ok None)"

lemma decode_line_of:
  "rb_wf src \<Longrightarrow> decode_line m src =
     (case line_of m (unread src) of
        Ok None \<Rightarrow> Ok (None, src)
      | Ok (Some (l, n)) \<Rightarrow> Ok (Some l, rb_consume n src)
      | Err e \<Rightarrow> Err e
      | Panic \<Rightarrow> Panic)"
  by (auto simp: decode_line_def line_of_def index_def slice_def split: option.split
      dest!: find_index_Some)

definition legal_line :: "nat \<Rightarrow> bytes \<Rightarrow> bool" where
  "legal_line m l \<longleftrightarrow> LF \<notin> set l \<and> length l < m"

lemma line_of_encoded:
  assumes "legal_line m l"
  shows "line_of m (encode_line l [] @ r) = Ok (Some (l, length l + 2))"
proof -
  have "find_index (\<lambda>b. b = LF) l = None" "CR \<noteq> LF"
    using assms by (auto simp: find_index_None legal_line_def LF_def CR_def)
  then have "find_index (\<lambda>b. b = LF) (l @ CR # LF # r) = Some (length l + 1)"
    by (simp add: find_index_append)
  then show ?thesis using assms by (simp add: line_of_def encode_line_def legal_line_def nth_append)
qed

lemma line_of_partial:
  assumes "legal_line m l" and "encode_line l [] = p @ s" and "s \<noteq> []"
  shows "line_of m p = Ok None"
proof -
  obtain s' where s: "s = s' @ [LF]"
    using assms(2,3) by (cases s rule: rev_cases) (auto simp: encode_line_def)
  with assms(2) have ps: "l @ [CR] = p @ s'" by (simp add: encode_line_def)
  have "LF \<notin> set (l @ [CR])" using assms(1) by (auto simp: legal_line_def LF_def CR_def)
  then have "LF \<notin> set p" unfolding ps by simp
  moreover have "length p \<le> m"
    using arg_cong [OF ps, of length] assms(1) by (simp add: legal_line_def)
  moreover have "find_index (\<lambda>b. b = LF) p = None"
    using \<open>LF \<notin> set p\<close> by (auto simp: find_index_None)
  ultimately show ?thesis by (simp add: line_of_def)
qed

interpretation lines: framing rb_wf unread rb_new rb_extend rb_consume
  "\<lambda>l. encode_line l []" "legal_line m" "decode_line m" for m
proof unfold_locales
  fix q :: recv_buf assume "rb_wf q" "unread q = []"
  then show "decode_line m q = Ok (None, q)" by (simp add: decode_line_of line_of_def)
next
  fix q f r assume "rb_wf q" "legal_line m f" "unread q = encode_line f [] @ r"
  then show "\<exists>q'. decode_line m q = Ok (Some f, q') \<and> rb_wf q' \<and> unread q' = r"
    by (simp add: decode_line_of line_of_encoded) (simp add: encode_line_def)
next
  fix q f s assume "rb_wf q" "legal_line m f" "encode_line f [] = unread q @ s" "s \<noteq> []"
  then show "decode_line m q = Ok (None, q)" by (simp add: decode_line_of line_of_partial)
qed

text \<open>
  The lines of a bot arrive, in order and whole, however the stream is cut; and the gateway never
  holds more than a line of the limit.
\<close>

lemma lines_any_chunks:
  assumes "\<forall>l \<in> set ls. legal_line m l" and "concat chunks = concat (map (\<lambda>l. encode_line l []) ls)"
    and "chunks \<noteq> []" and "length ls < fuel"
  shows "\<exists>rb. receive (decode_line m) rb_extend fuel rb_new chunks = Some (ls, Ok rb) \<and> unread rb = []"
  using assms by (intro lines.receive_any_chunks) auto

lemma decode_line_bounded:
  assumes "rb_wf src"
  shows "decode_line m src \<noteq> Panic" and "decode_line m src = Ok (None, src') \<Longrightarrow> src' = src \<and> rb_len src \<le> m"
    and "decode_line m src = Ok (Some l, src') \<Longrightarrow> LF \<notin> set l \<and> length l \<le> m"
proof -
  show "decode_line m src \<noteq> Panic"
    using assms by (auto simp: decode_line_of line_of_def split: option.splits)
  show "decode_line m src = Ok (None, src') \<Longrightarrow> src' = src \<and> rb_len src \<le> m"
    using assms by (auto simp: decode_line_of line_of_def rb_len_unread split: option.splits if_splits)
  show "LF \<notin> set l \<and> length l \<le> m" if d: "decode_line m src = Ok (Some l, src')"
  proof -
    from d assms obtain idx where i: "find_index (\<lambda>b. b = LF) (unread src) = Some idx" "idx \<le> m"
      and l: "l = take (idx - 1) (unread src) \<or> l = take idx (unread src)"
      by (auto simp: decode_line_of line_of_def split: option.splits if_splits)
    have "\<forall>x \<in> set (take idx (unread src)). x \<noteq> LF"
      using find_index_Some [OF i(1)] by (auto simp: in_set_conv_nth)
    then have "LF \<notin> set (take idx (unread src))" by auto
    moreover have "set (take (idx - 1) (unread src)) \<subseteq> set (take idx (unread src))"
      by (rule set_take_subset_set_take) simp
    ultimately show ?thesis using l i(2) by auto
  qed
qed

end
