(* ===== verification/Mcp.thy ===== *)
theory Mcp
  imports Framing
begin

text \<open>
  \<open>bnetcc-proto/src/mcp.rs\<close>: the frames of the Diablo II realm protocol, its identifiers and result
  codes, and the bodies of the game list and game details replies.
\<close>

section \<open>Frames\<close>

definition MCP_HEADER_LEN :: nat where "MCP_HEADER_LEN = 3"
definition MCP_DEFAULT_MAX_FRAME :: nat where "MCP_DEFAULT_MAX_FRAME = 8192"

record mcp_frame =
  mf_id :: u8
  mf_body :: bytes

definition mcp_wire_len :: "mcp_frame \<Rightarrow> nat" where
  "mcp_wire_len f = MCP_HEADER_LEN + length (mf_body f)"

definition mcp_decode_frame :: "nat \<Rightarrow> recv_buf \<Rightarrow> (mcp_frame option \<times> recv_buf) proto_result" where
  "mcp_decode_frame max_frame src =
     obind (rb_as_slice src) (\<lambda>buf.
     if length buf < MCP_HEADER_LEN then Ok (None, src)
     else
     obind (index buf 0) (\<lambda>l0.
     obind (index buf 1) (\<lambda>l1.
     obind (index buf 2) (\<lambda>i.
     let len = unat (of_le [l0, l1] :: u16) in
     if len < MCP_HEADER_LEN then Err (ShortFrame len MCP_HEADER_LEN)
     else if len > max_frame then Err (FrameTooLarge len max_frame)
     else if length buf < len then Ok (None, src)
     else
     obind (slice MCP_HEADER_LEN len buf) (\<lambda>body.
     Ok (Some \<lparr>mf_id = i, mf_body = body\<rparr>, rb_consume len src))))))"

definition mcp_encode_frame :: "mcp_frame \<Rightarrow> bytes \<Rightarrow> bytes proto_result" where
  "mcp_encode_frame f dst =
     (let len = mcp_wire_len f in
      if len > 65535 then Err (FrameTooLarge len 65535)
      else Ok (dst @ le16 (word_of_nat len) @ [mf_id f] @ mf_body f))"

section \<open>Identifiers and results\<close>

definition MCP_STARTUP :: u8 where "MCP_STARTUP = 0x01"
definition MCP_CHARCREATE :: u8 where "MCP_CHARCREATE = 0x02"
definition MCP_CREATEGAME :: u8 where "MCP_CREATEGAME = 0x03"
definition MCP_JOINGAME :: u8 where "MCP_JOINGAME = 0x04"
definition MCP_GAMELIST :: u8 where "MCP_GAMELIST = 0x05"
definition MCP_GAMEINFO :: u8 where "MCP_GAMEINFO = 0x06"
definition MCP_CHARLOGON :: u8 where "MCP_CHARLOGON = 0x07"
definition MCP_CHARDELETE :: u8 where "MCP_CHARDELETE = 0x0A"
definition MCP_REQUESTLADDERDATA :: u8 where "MCP_REQUESTLADDERDATA = 0x11"
definition MCP_MOTD :: u8 where "MCP_MOTD = 0x12"
definition MCP_CANCELGAMECREATE :: u8 where "MCP_CANCELGAMECREATE = 0x13"
definition MCP_CREATEQUEUE :: u8 where "MCP_CREATEQUEUE = 0x14"
definition MCP_CHARRANK :: u8 where "MCP_CHARRANK = 0x16"
definition MCP_CHARLIST :: u8 where "MCP_CHARLIST = 0x17"
definition MCP_CHARUPGRADE :: u8 where "MCP_CHARUPGRADE = 0x18"
definition MCP_CHARLIST2 :: u8 where "MCP_CHARLIST2 = 0x19"

lemmas mcp_ids = MCP_STARTUP_def MCP_CHARCREATE_def MCP_CREATEGAME_def MCP_JOINGAME_def MCP_GAMELIST_def
  MCP_GAMEINFO_def MCP_CHARLOGON_def MCP_CHARDELETE_def MCP_REQUESTLADDERDATA_def MCP_MOTD_def
  MCP_CANCELGAMECREATE_def MCP_CREATEQUEUE_def MCP_CHARRANK_def MCP_CHARLIST_def MCP_CHARUPGRADE_def
  MCP_CHARLIST2_def

definition STARTUP_OK :: u32 where "STARTUP_OK = 0x00"
definition STARTUP_UNAVAILABLE :: u32 where "STARTUP_UNAVAILABLE = 0x0A"
definition CHAR_CREATE_OK :: u32 where "CHAR_CREATE_OK = 0x00"
definition CHAR_CREATE_NAME_TAKEN :: u32 where "CHAR_CREATE_NAME_TAKEN = 0x14"
definition CHAR_CREATE_INVALID :: u32 where "CHAR_CREATE_INVALID = 0x15"
definition CHAR_LOGON_OK :: u32 where "CHAR_LOGON_OK = 0x00"
definition CHAR_LOGON_NOT_FOUND :: u32 where "CHAR_LOGON_NOT_FOUND = 0x46"
definition CHAR_DELETE_OK :: u32 where "CHAR_DELETE_OK = 0x00"
definition CHAR_DELETE_NOT_FOUND :: u32 where "CHAR_DELETE_NOT_FOUND = 0x49"
definition CREATE_GAME_OK :: u32 where "CREATE_GAME_OK = 0x00"
definition CREATE_GAME_INVALID_NAME :: u32 where "CREATE_GAME_INVALID_NAME = 0x1E"
definition CREATE_GAME_NAME_TAKEN :: u32 where "CREATE_GAME_NAME_TAKEN = 0x1F"
definition CREATE_GAME_SERVERS_DOWN :: u32 where "CREATE_GAME_SERVERS_DOWN = 0x20"
definition CREATE_GAME_DEAD_HARDCORE :: u32 where "CREATE_GAME_DEAD_HARDCORE = 0x6E"
definition GAME_STATUS_NONE :: u32 where "GAME_STATUS_NONE = 0xFFFFFFFF"
definition GAME_STATUS_END :: u32 where "GAME_STATUS_END = 0xFFFFFFFE"
definition JOIN_OK :: u32 where "JOIN_OK = 0x00"
definition JOIN_BAD_PASSWORD :: u32 where "JOIN_BAD_PASSWORD = 0x29"
definition JOIN_NO_SUCH_GAME :: u32 where "JOIN_NO_SUCH_GAME = 0x2A"
definition JOIN_FULL :: u32 where "JOIN_FULL = 0x2B"
definition JOIN_LEVEL_REQUIREMENT :: u32 where "JOIN_LEVEL_REQUIREMENT = 0x2C"
definition JOIN_DEAD_HARDCORE :: u32 where "JOIN_DEAD_HARDCORE = 0x6E"
definition JOIN_NOT_HARDCORE :: u32 where "JOIN_NOT_HARDCORE = 0x71"
definition JOIN_NO_NIGHTMARE :: u32 where "JOIN_NO_NIGHTMARE = 0x73"
definition JOIN_NO_HELL :: u32 where "JOIN_NO_HELL = 0x74"
definition JOIN_NOT_EXPANSION :: u32 where "JOIN_NOT_EXPANSION = 0x78"
definition JOIN_NOT_CLASSIC :: u32 where "JOIN_NOT_CLASSIC = 0x79"
definition JOIN_NOT_LADDER :: u32 where "JOIN_NOT_LADDER = 0x7D"

section \<open>Game list and details\<close>

definition game_flags :: "u8 \<Rightarrow> bool \<Rightarrow> bool \<Rightarrow> bool \<Rightarrow> u32" where
  "game_flags difficulty hardcore expansion ladder =
     (let fl = 0x04 OR push_bit 12 (ucast (min difficulty 2));
          fl = (if hardcore then fl OR 0x800 else fl);
          fl = (if expansion then fl OR 0x100000 else fl)
      in if ladder then fl OR 0x200000 else fl)"

definition GAME_NAME_MAX :: nat where "GAME_NAME_MAX = 15"
definition GAME_DESCRIPTION_MAX :: nat where "GAME_DESCRIPTION_MAX = 31"
definition CHARACTER_NAME_MAX :: nat where "CHARACTER_NAME_MAX = 15"
definition GAMEINFO_CHARACTERS :: nat where "GAMEINFO_CHARACTERS = 16"

text \<open>\<open>clipped\<close>: up to the first zero byte, then to the limit.\<close>

definition clipped :: "bytes \<Rightarrow> nat \<Rightarrow> bytes" where
  "clipped s mx = take mx (takeWhile (\<lambda>b. b \<noteq> 0) s)"

definition gamelist_entry :: "u16 \<Rightarrow> u32 \<Rightarrow> u8 \<Rightarrow> u32 \<Rightarrow> bytes \<Rightarrow> bytes \<Rightarrow> bytes" where
  "gamelist_entry request_id token players status name description =
     w_chain [w_u16 request_id, w_u32 token, w_u8 players, w_u32 status,
       w_cstr (clipped name GAME_NAME_MAX), w_cstr (clipped description GAME_DESCRIPTION_MAX)]"

definition gamelist_end :: "u16 \<Rightarrow> bytes" where
  "gamelist_end request_id = w_chain [w_u16 request_id, w_u32 0, w_u8 0, w_u32 GAME_STATUS_END]"

record game_info_character =
  gic_class :: u8
  gic_level :: u8
  gic_name :: bytes

record game_info =
  gi_status :: u32
  gi_uptime_secs :: u32
  gi_creator_level :: u8
  gi_level_difference :: u8
  gi_max_players :: u8
  gi_description :: bytes
  gi_characters :: "game_info_character list"

definition gameinfo_reply :: "u16 \<Rightarrow> game_info \<Rightarrow> bytes" where
  "gameinfo_reply request_id info =
     (let cs = take GAMEINFO_CHARACTERS (gi_characters info);
          pad = replicate (GAMEINFO_CHARACTERS - length cs) 0
      in w_chain ([w_u16 request_id, w_u32 (gi_status info), w_u32 (gi_uptime_secs info),
           w_u8 (gi_creator_level info), w_u8 (gi_level_difference info), w_u8 (gi_max_players info),
           w_u8 (word_of_nat (length cs)), w_bytes (map gic_class cs @ pad), w_bytes (map gic_level cs @ pad),
           w_cstr (clipped (gi_description info) GAME_DESCRIPTION_MAX)] @
           map (\<lambda>c. w_cstr (clipped (gic_name c) CHARACTER_NAME_MAX)) cs))"

definition gameinfo_none :: "u16 \<Rightarrow> bytes" where
  "gameinfo_none request_id =
     w_chain [w_u16 request_id, w_u32 GAME_STATUS_NONE, w_u32 0, w_u8 0, w_u8 0xFF, w_u8 0, w_u8 0]"

section \<open>MCP is a framing\<close>

definition mcp_frame_of :: "nat \<Rightarrow> bytes \<Rightarrow> (mcp_frame \<times> nat) option proto_result" where
  "mcp_frame_of m buf =
     (if length buf < 3 then Ok None
      else let len = le_val [buf ! 0, buf ! 1] in
        if len < 3 then Err (ShortFrame len 3)
        else if len > m then Err (FrameTooLarge len m)
        else if length buf < len then Ok None
        else Ok (Some (\<lparr>mf_id = buf ! 2, mf_body = take (len - 3) (drop 3 buf)\<rparr>, len)))"

lemma unat_of_le_pair: "unat (of_le [a, b] :: u16) = le_val [a, b]"
  by (rule unat_of_le) simp

lemma mcp_decode_frame_of:
  "rb_wf src \<Longrightarrow> mcp_decode_frame m src =
     (case mcp_frame_of m (unread src) of
        Ok None \<Rightarrow> Ok (None, src)
      | Ok (Some (f, n)) \<Rightarrow> Ok (Some f, rb_consume n src)
      | Err e \<Rightarrow> Err e
      | Panic \<Rightarrow> Panic)"
  by (simp add: mcp_decode_frame_def mcp_frame_of_def MCP_HEADER_LEN_def index_def slice_def Let_def
      unat_of_le_pair del: le_val.simps)

definition mcp_legal :: "nat \<Rightarrow> mcp_frame \<Rightarrow> bool" where
  "mcp_legal m f \<longleftrightarrow> mcp_wire_len f \<le> m \<and> mcp_wire_len f \<le> 65535"

definition mcp_bytes :: "mcp_frame \<Rightarrow> bytes" where
  "mcp_bytes f = le_bytes 2 (mcp_wire_len f) @ [mf_id f] @ mf_body f"

lemma mcp_encode_bytes: "mcp_wire_len f \<le> 65535 \<Longrightarrow> mcp_encode_frame f dst = Ok (dst @ mcp_bytes f)"
  by (simp add: mcp_encode_frame_def mcp_bytes_def unat_of_nat)

lemma mcp_header:
  assumes "mcp_legal m f"
  obtains a b where "mcp_bytes f = a # b # mf_id f # mf_body f" and "le_val [a, b] = mcp_wire_len f"
proof -
  have "length (le_bytes 2 (mcp_wire_len f)) = 2" by simp
  then obtain a b where ab: "le_bytes 2 (mcp_wire_len f) = [a, b]"
    by (auto simp: length_Suc_conv numeral_2_eq_2)
  have "le_val [a, b] = mcp_wire_len f"
    using le_val_le_bytes [of 2 "mcp_wire_len f"] assms unfolding ab by (simp add: mcp_legal_def del: le_val.simps)
  with ab show thesis by (intro that [of a b]) (simp_all add: mcp_bytes_def del: le_val.simps)
qed

lemma mcp_frame_of_bytes:
  assumes "mcp_legal m f"
  shows "mcp_frame_of m (mcp_bytes f @ r) = Ok (Some (f, length (mcp_bytes f)))"
proof -
  obtain a b where ab: "mcp_bytes f = a # b # mf_id f # mf_body f" "le_val [a, b] = mcp_wire_len f"
    using mcp_header [OF assms] .
  have "mcp_wire_len f = 3 + length (mf_body f)" by (simp add: mcp_wire_len_def MCP_HEADER_LEN_def)
  with assms ab show ?thesis
    by (simp add: mcp_frame_of_def mcp_legal_def Let_def numeral_3_eq_3 del: le_val.simps)
qed

lemma mcp_frame_of_partial:
  assumes "mcp_legal m f" and "mcp_bytes f = p @ s" and "s \<noteq> []"
  shows "mcp_frame_of m p = Ok None"
proof (cases "length p < 3")
  case False
  obtain a b where ab: "mcp_bytes f = a # b # mf_id f # mf_body f" "le_val [a, b] = mcp_wire_len f"
    using mcp_header [OF assms(1)] .
  have len: "mcp_wire_len f = 3 + length (mf_body f)" by (simp add: mcp_wire_len_def MCP_HEADER_LEN_def)
  then have "length (mcp_bytes f) = mcp_wire_len f" by (simp add: ab(1))
  with assms(2,3) have "length p < mcp_wire_len f"
    by (metis length_append length_greater_0_conv less_add_same_cancel1)
  moreover have "p ! i = mcp_bytes f ! i" if "i < 2" for i
    using that False assms(2) by (simp add: nth_append)
  then have "p ! 0 = a" "p ! 1 = b" by (simp_all add: ab(1))
  ultimately show ?thesis using False assms(1) ab(2) len
    by (simp add: mcp_frame_of_def mcp_legal_def Let_def del: le_val.simps)
qed (simp add: mcp_frame_of_def)

interpretation mcp: framing rb_wf unread rb_new rb_extend rb_consume
  mcp_bytes "mcp_legal m" "mcp_decode_frame m" for m
proof unfold_locales
  fix q :: recv_buf assume "rb_wf q" "unread q = []"
  then show "mcp_decode_frame m q = Ok (None, q)" by (simp add: mcp_decode_frame_of mcp_frame_of_def)
next
  fix q f r assume "rb_wf q" "mcp_legal m f" "unread q = mcp_bytes f @ r"
  then show "\<exists>q'. mcp_decode_frame m q = Ok (Some f, q') \<and> rb_wf q' \<and> unread q' = r"
    by (simp add: mcp_decode_frame_of mcp_frame_of_bytes)
next
  fix q f s assume "rb_wf q" "mcp_legal m f" "mcp_bytes f = unread q @ s" "s \<noteq> []"
  then show "mcp_decode_frame m q = Ok (None, q)" by (simp add: mcp_decode_frame_of mcp_frame_of_partial)
qed

text \<open>The replies of the realm, encoded one after the other, arrive however the stream is cut.\<close>

lemma mcp_stream_any_chunks:
  assumes "\<forall>f \<in> set fs. mcp_wire_len f \<le> m \<and> mcp_wire_len f \<le> 65535"
    and "concat chunks = concat (map mcp_bytes fs)" and "chunks \<noteq> []" and "length fs < fuel"
  shows "\<exists>rb. receive (mcp_decode_frame m) rb_extend fuel rb_new chunks = Some (fs, Ok rb) \<and> unread rb = []"
  using assms by (intro mcp.receive_any_chunks) (auto simp: mcp_legal_def)

text \<open>The client copies these texts into buffers of 16 and 32 bytes, with no bound of its own.\<close>

lemma clipped_fits: "length (clipped s mx) \<le> mx" "0 \<notin> set (clipped s mx)"
  by (auto simp: clipped_def dest!: in_set_takeD set_takeWhileD)

lemma game_flags_plain: "game_flags d h e l \<noteq> GAME_STATUS_NONE \<and> game_flags d h e l \<noteq> GAME_STATUS_END"
proof -
  have off: "\<not> bit (game_flags d h e l) 31"
  proof -
    have "\<not> bit (push_bit 12 (ucast (min d 2) :: u32)) 31"
      using bit_imp_le_length [of "min d 2" 19] by (auto simp: bit_push_bit_iff bit_ucast_iff)
    then show ?thesis
      by (simp add: game_flags_def Let_def bit_or_iff)
  qed
  moreover have "bit GAME_STATUS_NONE 31" "bit GAME_STATUS_END 31"
    by (simp_all add: GAME_STATUS_NONE_def GAME_STATUS_END_def)
  ultimately show ?thesis by metis
qed

end
