(* ===== verification/Session_Effects.thy ===== *)
theory Session_Effects
  imports Session_Keeps Node_Rules
begin

text \<open>
  What the handlers of \<open>session.rs\<close> do to the world, as an interface. The locale \<open>world_inv\<close> lists
  the primitive effects a session may have: what it sends, its channel and name operations (under
  its own name), its games, and the storage commands for its own account; bans and forcing others
  off only for staff.
  Whatever a predicate of the world is that each of these preserves, every handler of a logged-on
  session preserves. \<open>world_inv_logon\<close> adds what handlers before the logon and the end of a session
  do, \<open>world_inv_login\<close> the change of class of the first packet, and covers every packet.
\<close>

text \<open>The packets that open a connection, log on or create an account.\<close>

definition entry_ids :: "u8 set" where
  "entry_ids = {SID_AUTH_INFO, SID_AUTH_CHECK, SID_LOGONRESPONSE, SID_LOGONRESPONSE2,
     SID_AUTH_ACCOUNTCREATE, SID_AUTH_ACCOUNTLOGONPROOF, SID_CREATEACCOUNT, SID_CREATEACCOUNT2}"

lemma logged_on_no_entry: "accepts st i \<Longrightarrow> authenticated st \<Longrightarrow> i \<notin> entry_ids"
  by (cases st) (auto simp: accepts_def always_accepted_def entry_ids_def chat_accepted_def authenticated_def sid_defs)

locale world_inv =
  fixes P :: "node \<Rightarrow> 's \<Rightarrow> ban_store \<Rightarrow> bool"
    and env :: "'s env" and me :: account_id and own :: "bytes \<Rightarrow> bool" and joining :: bool and staff :: bool
  assumes send: "P n st b \<Longrightarrow> P (snd (send_to h x n)) st b"
    and leaves: "P n st b \<Longrightarrow> P (snd (leave_channel key name n)) st b"
    and enqueued: "P n st b \<Longrightarrow> P (enqueue_leave key x n) st b"
    and broadcasts: "P n st b \<Longrightarrow> P (snd (broadcast key x ex sb n)) st b"
    and joins: "P n st b \<Longrightarrow> joining \<Longrightarrow> own name \<Longrightarrow> d2_is_safe stat \<Longrightarrow>
      P (snd (join_channel (en_cfg env) raw me name fl product stat h n)) st b"
    and kicks: "P n st b \<Longrightarrow> P (snd (channel_kick key me target n)) st b"
    and bans: "P n st b \<Longrightarrow> P (snd (channel_ban key me target n)) st b"
    and designates: "P n st b \<Longrightarrow> P (snd (channel_designate key me target n)) st b"
    and unbans: "P n st b \<Longrightarrow> P (snd (channel_unban key me other n)) st b"
    and claims: "P n st b \<Longrightarrow> P (snd (claim_name name n)) st b"
    and releases: "P n st b \<Longrightarrow> own name \<Longrightarrow> P (release_name name n) st b"
    and registers: "P n st b \<Longrightarrow> P (register_session name ip h client n) st b"
    and unregisters: "P n st b \<Longrightarrow> P (unregister_session name n) st b"
    and ignores: "P n st b \<Longrightarrow>
      P (n\<lparr>nd_outbounds := (nd_outbounds n)(h := (nd_outbounds n h)\<lparr>ob_ignores := ig\<rparr>)\<rparr>) st b"
    and advertises: "P n st b \<Longrightarrow> ga_host ad = me \<Longrightarrow> P (snd (advertise_game ad n)) st b"
    and withdraws: "P n st b \<Longrightarrow> P (withdraw_game me n) st b"
    and starts: "P n st b \<Longrightarrow> P (mark_game_started client name now n) st b"
    and hosts: "P n st b \<Longrightarrow> P (record_hosted_game tag now n) st b"
    and mints: "P n st b \<Longrightarrow> na_id a = me \<Longrightarrow> mint_realm_ticket a code cookie ids n = Some (r, m) \<Longrightarrow> P m st b"
    and recents: "P n st b \<Longrightarrow> P (n\<lparr>nd_recent := rs\<rparr>) st b"
    and reads: "P n st b \<Longrightarrow> P n (snd (act_read_readable_attrs (en_ops env) name ks st)) b"
    and finds: "P n st b \<Longrightarrow> P n (snd (act_account_by_name (en_ops env) name st)) b"
    and draws: "P n st b \<Longrightarrow> P n (snd (act_character_by_name (en_ops env) name st)) b"
    and walks: "P n st b \<Longrightarrow> P n (snd (act_ladder_rows (en_pages env) (en_ops env) tag lg st)) b"
    and records: "P n st b \<Longrightarrow> P n (snd (act_record_game (en_ops env) me tag out st)) b"
    and rates: "P n st b \<Longrightarrow>
      P n (snd (act_record_ladder_game (en_ops env) (en_rating env) me tag lg out opponent now st)) b"
    and moderates: "P n st b \<Longrightarrow> staff \<Longrightarrow> P n st b'"
    and forces: "P n st b \<Longrightarrow> staff \<Longrightarrow> P (snd (force_off hit notice n)) st b"
begin

definition holds :: "'s world \<Rightarrow> bool" where
  "holds w \<longleftrightarrow> P (w_node w) (w_store w) (w_bans w)"

definition good :: "'s run \<Rightarrow> bool" where
  "good r \<longleftrightarrow> holds (snd (snd r))"

lemma holds_update [simp]:
  "holds (w\<lparr>w_node := n\<rparr>) = P n (w_store w) (w_bans w)"
  "holds (w\<lparr>w_store := st\<rparr>) = P (w_node w) st (w_bans w)"
  "holds (w\<lparr>w_bans := b\<rparr>) = P (w_node w) (w_store w) b"
  by (simp_all add: holds_def)

lemma holds_parts [simp]: "holds w \<Longrightarrow> P (w_node w) (w_store w) (w_bans w)"
  by (simp add: holds_def)

lemma good_step [simp]: "good (r, p) = holds (snd p)"
  by (simp add: good_def)

text \<open>The session of account \<open>me\<close>, or of nobody yet.\<close>

definition mine :: "session \<Rightarrow> bool" where
  "mine s \<longleftrightarrow> (\<forall>a. ss_account s = Some a \<longrightarrow> na_id a = me) \<and> (require_staff s \<longrightarrow> staff) \<and>
     d2_is_safe (ss_statstring s) \<and> own (ss_display_name s)"

lemma mine_account: "mine s \<Longrightarrow> ss_account s = Some a \<Longrightarrow> na_id a = me"
  by (simp add: mine_def)

declare send [simp] leaves [simp] enqueued [simp] broadcasts [simp] joins [simp] kicks [simp] bans [simp]
  designates [simp] unbans [simp] claims [simp] releases [simp] registers [simp] unregisters [simp]
  ignores [simp] advertises [simp] withdraws [simp] starts [simp] hosts [simp] recents [simp] reads [simp]
  finds [simp] draws [simp] walks [simp] records [simp] rates [simp] forces [simp]

section \<open>Replies and channels\<close>

lemma send_frame_holds [simp]: "P n st b \<Longrightarrow> P (snd (send_frame h f n)) st b"
  by (simp add: send_frame_def split: outcome.split)

lemma reply_holds [simp]: "holds w \<Longrightarrow> good (reply f s w)"
  by (simp add: reply_def Let_def case_prod_unfold)

lemma say_holds [simp]:
  "holds w \<Longrightarrow> good (say ev text s w)" "holds w \<Longrightarrow> good (tell text s w)"
  "holds w \<Longrightarrow> good (op_error text s w)"
  by (simp_all add: say_def tell_def op_error_def)

lemma good_next [simp]: "good r \<Longrightarrow> holds (snd (snd r))"
  by (simp add: good_def)

lemma send_lines_holds [simp]: "holds w \<Longrightarrow> good (send_lines ls s w)"
proof (induction ls arbitrary: s w)
  case (Cons l ls)
  obtain r t v where l: "tell l s w = (r, t, v)" by (cases "tell l s w") auto
  with say_holds(2) [OF Cons.prems, of l s] have "holds v" by simp
  with l Cons.IH show ?case by (cases r) auto
qed simp

lemma leave_current_holds [simp]: "holds w \<Longrightarrow> holds (leave_current key s w)"
  by (simp add: leave_current_def Let_def case_prod_unfold split: option.split)

lemma announce_holds [simp]: "P n st b \<Longrightarrow> P (announce_join s j n) st b"
  by (simp add: announce_join_def split: option.split)

lemma enter_channel_holds [simp]:
  "\<lbrakk>holds w; joining; na_id a = me; own (ss_display_name s); d2_is_safe (ss_statstring s)\<rbrakk> \<Longrightarrow> good (enter_channel env req a s w)"
  by (simp add: enter_channel_def Let_def case_prod_unfold split: outcome.split option.split)

lemma do_join_holds [simp]:
  "\<lbrakk>holds w; joining; na_id a = me; own (ss_display_name s); d2_is_safe (ss_statstring s)\<rbrakk> \<Longrightarrow> good (do_join env req a s w)"
  by (simp add: do_join_def Let_def split: option.split)

lemma channel_handlers_hold:
  "holds w \<Longrightarrow> joining \<Longrightarrow> mine s \<Longrightarrow> good (session_join env body s w)"
  "holds w \<Longrightarrow> good (leave_chat s w)"
  by (simp_all add: session_join_def leave_chat_def mine_def split: option.split)

section \<open>Entering chat\<close>

lemma ladder_rows_holds [simp]: "P n st b \<Longrightarrow> P n (snd (ladder_rows env name lg st)) b"
  by (simp add: ladder_rows_def Let_def case_prod_unfold)

lemma league_part_holds [simp]: "P n st b \<Longrightarrow> P n (snd (league_part env name player lg r st)) b"
  by (simp add: league_part_def Let_def case_prod_unfold split: option.split)

lemma show_record_holds [simp]: "holds w \<Longrightarrow> holds (snd (show_record env a s w))"
  by (simp add: show_record_def Let_def case_prod_unfold split: option.split)

lemma rename_holds [simp]: "holds w \<Longrightarrow> own (ss_display_name s) \<Longrightarrow> holds (snd (rename_session name s w))"
  by (simp add: rename_session_def Let_def case_prod_unfold split: option.split)

lemma set_statstring_name [simp]: "ss_display_name (set_statstring t s) = ss_display_name s"
  by (simp add: set_statstring_def)

lemma adopt_holds [simp]: "holds w \<Longrightarrow> own (ss_display_name s) \<Longrightarrow> holds (snd (adopt_realm_character env body a s w))"
  by (simp add: adopt_realm_character_def Let_def case_prod_unfold split: option.split)

lemma enter_chat_holds: "holds w \<Longrightarrow> mine s \<Longrightarrow> good (enter_chat env body s w)"
  by (auto simp: enter_chat_def mine_def Let_def case_prod_unfold split: option.split step.split)

section \<open>Talk and commands\<close>

lemma ensure_member_holds [simp]: "holds w \<Longrightarrow> holds (snd (snd (ensure_member key s w)))"
  by (simp add: ensure_member_def good_next)

lemma broadcast_line_holds [simp]: "holds w \<Longrightarrow> holds (broadcast_line ev ex key text a s w)"
  by (simp add: broadcast_line_def split: option.split)

lemma line_holds [simp]:
  "holds w \<Longrightarrow> good (emote now arg a key s w)"
  "holds w \<Longrightarrow> good (talk now text a key s w)"
  by (simp_all add: emote_def talk_def case_prod_unfold split: bool.split)

lemma penalty_holds [simp]: "holds w \<Longrightarrow> good (apply_flood_penalty pen now s w)"
  by (simp add: apply_flood_penalty_def split: flood_penalty.split)

lemma after_removal_holds [simp]: "holds w \<Longrightarrow> holds (after_removal key target out verb s w)"
  by (simp add: after_removal_def Let_def split: option.split)

lemma op_holds [simp]:
  assumes "holds w" and [simp]: "na_id a = me"
  shows "good (op_kick target a key s w)" "good (op_ban target a key s w)"
    "good (op_unban env target a key s w)" "good (op_designate target a key s w)"
  using assms(1)
  by (simp_all add: op_kick_def op_ban_def op_unban_def op_designate_def Let_def case_prod_unfold
    split: mod_result.split option.split)

lemma squelch_holds [simp]:
  "holds w \<Longrightarrow> good (squelch arg s w)" "holds w \<Longrightarrow> good (unsquelch arg s w)"
  by (simp_all add: squelch_def unsquelch_def with_ignores_def ignore_add_def ignore_remove_def Let_def)

lemma moderated [simp]: "holds w \<Longrightarrow> staff \<Longrightarrow> P (w_node w) (w_store w) b"
  by (rule moderates [OF holds_parts])

lemma disconnect_holds [simp]:
  "P n st b \<Longrightarrow> staff \<Longrightarrow> P (snd (disconnect_ip ip notice n)) st b"
  "P n st b \<Longrightarrow> staff \<Longrightarrow> P (snd (disconnect_name_matches sub notice n)) st b"
  by (simp_all add: disconnect_ip_def disconnect_name_matches_def)

lemma moderated_off [simp]:
  "holds w \<Longrightarrow> staff \<Longrightarrow> P (snd (disconnect_ip ip notice (w_node w))) (w_store w) b"
  "holds w \<Longrightarrow> staff \<Longrightarrow> P (snd (disconnect_name_matches sub notice (w_node w))) (w_store w) b"
  by simp_all

lemma staff_holds [simp]:
  assumes "holds w" and "require_staff s \<longrightarrow> staff"
  shows "good (staff_tagban arg s w)" "good (staff_tagunban arg s w)"
    "good (staff_ipban now arg s w)" "good (staff_ipunban now arg s w)"
    "good (staff_mute now arg s w)" "good (staff_unmute now arg s w)"
    "good (staff_bans now s w)"
  using assms
  by (simp_all add: staff_tagban_def staff_tagunban_def staff_ipban_def staff_ipunban_def staff_mute_def
    staff_unmute_def staff_bans_def staff_denied_def Let_def case_prod_unfold split: option.split list.split)

lemma run_command_holds [simp]:
  assumes "holds w" and "na_id a = me" and "require_staff s \<longrightarrow> staff" and "d2_is_safe (ss_statstring s)"
    and "own (ss_display_name s)" and "cmd = ascii ''join'' \<or> cmd = ascii ''j'' \<longrightarrow> joining"
  shows "good (run_command env now cmd arg a key s w)"
  using assms by (simp add: run_command_def who_is_here_def Let_def)

lemma flooded [simp]:
  "require_staff (s\<lparr>ss_flood := fl\<rparr>) = require_staff s"
  by (simp add: require_staff_def)

lemma chat_command_holds: "holds w \<Longrightarrow> joining \<Longrightarrow> mine s \<Longrightarrow> good (chat_command env now body s w)"
  by (simp add: chat_command_def slash_command_def mine_def Let_def case_prod_unfold
    split: option.split flood_verdict.split)

section \<open>Lists, realms and games\<close>

lemma list_holds:
  "holds w \<Longrightarrow> good (query_realms env s w)" "holds w \<Longrightarrow> good (channel_list env s w)"
  "holds w \<Longrightarrow> good (friends_list s w)" "holds w \<Longrightarrow> good (news_info s w)"
  "holds w \<Longrightarrow> good (warcraft_general body s w)"
  "holds w \<Longrightarrow> good (game_list env now body s w)"
  "holds w \<Longrightarrow> good (check_data_file2 s w)"
  "holds w \<Longrightarrow> good (notify_join now body s w)"
  "holds w \<Longrightarrow> good (net_game_port body s w)"
  by (simp_all add: query_realms_def channel_list_def friends_list_def news_info_def warcraft_general_def
    game_list_def check_data_file2_def notify_join_def net_game_port_def Let_def case_prod_unfold split: option.split)

lemma logon_realm_holds:
  assumes "holds w" and "mine s"
  shows "good (logon_realm env t body s w)"
proof -
  have mint: "P (snd y) (w_store w) (w_bans w)"
    if "mint_realm_ticket a code (tk_cookie t) (tk_draws t) (w_node w) = Some y" "ss_account s = Some a" for a code y
    using mints [OF holds_parts [OF assms(1)], of a code "tk_cookie t" "tk_draws t" "fst y" "snd y"] that mine_account [OF assms(2)] by simp
  show ?thesis
    using assms(1) mint by (auto simp: logon_realm_def Let_def case_prod_unfold split: option.split)
qed

lemma normal_wins_holds [simp]: "P n st b \<Longrightarrow> P n (snd (normal_wins env name s st)) b"
  by (simp add: normal_wins_def Let_def case_prod_unfold split: option.split)

lemma advertise_holds: "holds w \<Longrightarrow> mine s \<Longrightarrow> good (advertise env now body s w)"
  by (simp add: advertise_def first_advertised_def advertised_ad_def mine_def Let_def case_prod_unfold split: option.split)

lemma stop_advertising_holds: "holds w \<Longrightarrow> mine s \<Longrightarrow> good (stop_advertising now sts s w)"
  by (simp add: stop_advertising_def mine_def Let_def case_prod_unfold split: option.split)

lemma opponent_ratings_holds [simp]:
  "P n st b \<Longrightarrow> P n (snd (opponent_ratings (en_ops env) key slot results ns st)) b"
proof (induction ns arbitrary: st)
  case (Cons x ns)
  then show ?case by (cases x) (simp add: Let_def case_prod_unfold)
qed simp

lemma record_ladder_game_holds [simp]:
  "holds w \<Longrightarrow> na_id a = me \<Longrightarrow> holds (snd (record_ladder_game env now a name lg out opponent w))"
  by (simp add: record_ladder_game_def Let_def case_prod_unfold split: option.split)

lemma game_result_holds: "holds w \<Longrightarrow> mine s \<Longrightarrow> good (game_result env now body s w)"
  by (simp add: game_result_def normal_result_def ladder_game_result_def mine_def Let_def case_prod_unfold
    split: option.split)

lemma ladder_holds:
  "holds w \<Longrightarrow> good (ladder_data env body s w)"
  "holds w \<Longrightarrow> good (find_ladder_user env body s w)"
  by (simp_all add: ladder_data_def find_ladder_user_def ladder_standings_def Let_def case_prod_unfold split: option.split)

section \<open>Files and profiles\<close>

lemma profile_values_holds [simp]: "P n st b \<Longrightarrow> P n (snd (profile_values (en_ops env) ks ns st)) b"
  by (induction ns arbitrary: st) (simp_all add: Let_def case_prod_unfold)

lemma query_holds:
  "holds w \<Longrightarrow> good (check_ad env body s w)" "holds w \<Longrightarrow> good (cd_key_reply i s w)"
  "holds w \<Longrightarrow> good (get_filetime env body s w)" "holds w \<Longrightarrow> good (get_icon_data env s w)"
  "holds w \<Longrightarrow> good (read_user_data env body s w)"
  by (simp_all add: check_ad_def cd_key_reply_def get_filetime_def get_icon_data_def read_user_data_def Let_def
    case_prod_unfold split: option.split)

section \<open>Every packet of a logged-on session\<close>

lemma opening_holds:
  "holds w \<Longrightarrow> good (start_versioning env body s w)" "holds w \<Longrightarrow> good (report_version env s w)"
  "holds w \<Longrightarrow> good (auth_account_logon env k body s w)"
  by (simp_all add: start_versioning_def report_version_def auth_account_logon_def Let_def case_prod_unfold
    split: option.split credential.split)

lemmas handlers_hold = channel_handlers_hold enter_chat_holds chat_command_holds list_holds logon_realm_holds
  advertise_holds stop_advertising_holds game_result_holds ladder_holds query_holds opening_holds

lemma dispatch_holds:
  assumes "holds w" and "joining" and "mine s" and "fr_id f \<notin> entry_ids"
  shows "good (dispatch env tk f s w)"
  using assms(4) handlers_hold assms(1,2,3) by (simp add: dispatch_def Let_def entry_ids_def)

lemma serve_logged_on_holds:
  assumes "holds w" and "joining" and "mine s" and "authenticated (ss_state s)"
  shows "holds (snd (serve env tk f (s, w)))"
proof (cases "accepts (ss_state s) (fr_id f)")
  case True
  obtain r t v where d: "dispatch env tk f s w = (r, t, v)" by (cases "dispatch env tk f s w") auto
  with dispatch_holds [OF assms(1,2,3) logged_on_no_entry [OF True assms(4)], of tk] have "holds v" by simp
  with True d show ?thesis by (simp add: serve_def advance_state_def split: step.split option.split)
qed (use assms in \<open>simp add: serve_def\<close>)

end

section \<open>Every packet\<close>

locale world_inv_logon = world_inv P env me own joining staff
  for P :: "node \<Rightarrow> 's \<Rightarrow> ban_store \<Rightarrow> bool" and env :: "'s env" and me :: account_id
    and own :: "bytes \<Rightarrow> bool" and joining :: bool and staff :: bool +
  assumes claims_key: "P n st b \<Longrightarrow> P (snd (claim_key k now n)) st b"
    and releases_key: "P n st b \<Longrightarrow> P (release_key k now n) st b"
    and holders: "P n st b \<Longrightarrow> P (record_key_holder_name k name n) st b"
    and logins: "P n st b \<Longrightarrow> P (n\<lparr>nd_total_logins := so_far\<rparr>) st b"
    and revokes: "P n st b \<Longrightarrow> P (revoke_realm_ticket i n) st b"
    and creates: "P n st b \<Longrightarrow> P n (snd (act_create_account (en_ops env) name cred now st)) b"
    and flags_read: "P n st b \<Longrightarrow> P n (snd (act_user_flags (en_ops env) who st)) b"
    and logins_recorded: "P n st b \<Longrightarrow> P n (act_record_login (en_ops env) who now st) b"
begin

declare claims_key [simp] releases_key [simp] holders [simp] logins [simp] revokes [simp]
  creates [simp] flags_read [simp] logins_recorded [simp]

lemma folds [simp]:
  "P n st b \<Longrightarrow> P (fold (\<lambda>k. release_key k now) ks n) st b"
  "P n st b \<Longrightarrow> P (fold (\<lambda>k. record_key_holder_name k name) ks n) st b"
  "P n st b \<Longrightarrow> P (fold revoke_realm_ticket is n) st b"
proof -
  show "P n st b \<Longrightarrow> P (fold (\<lambda>k. release_key k now) ks n) st b" by (induction ks arbitrary: n) simp_all
  show "P n st b \<Longrightarrow> P (fold (\<lambda>k. record_key_holder_name k name) ks n) st b" by (induction ks arbitrary: n) simp_all
  show "P n st b \<Longrightarrow> P (fold revoke_realm_ticket is n) st b" by (induction "is" arbitrary: n) simp_all
qed

lemma claim_keys_holds [simp]: "P n st b \<Longrightarrow> P (snd (claim_keys now got ks n)) st b"
proof (induction ks arbitrary: got n)
  case (Cons k ks)
  obtain r m where c: "claim_key k now n = (r, m)" by fastforce
  then have "P m st b" using claims_key [OF Cons.prems, of k now] by simp
  with Cons.IH c show ?case by (simp split: key_claim_result.split)
qed simp

lemma auth_check_holds: "holds w \<Longrightarrow> good (auth_check env now body s w)"
  by (simp add: auth_check_def Let_def case_prod_unfold split: option.split keys_outcome.split)

lemma finish_logon_holds [simp]: "holds w \<Longrightarrow> holds (snd (finish_logon env now a s w))"
  by (simp add: finish_logon_def Let_def case_prod_unfold)

lemma logon_holds:
  "holds w \<Longrightarrow> good (logon env now i body s w)" "holds w \<Longrightarrow> good (auth_account_logon_proof env now body s w)"
  by (simp_all add: logon_def auth_account_logon_proof_def Let_def case_prod_unfold split: option.split credential.split)

lemma create_holds:
  "holds w \<Longrightarrow> good (auth_account_create env now body s w)"
  "holds w \<Longrightarrow> good (create_account_legacy env now body s w)" "holds w \<Longrightarrow> good (create_account2 env now body s w)"
proof -
  assume w: "holds w"
  have made: "P (w_node w) st (w_bans w)" if "act_create_account (en_ops env) name cred t (w_store w) = (r, st)" for name cred t r st
    using creates [OF holds_parts [OF w], of name cred t] that by simp
  have "holds (snd (do_create_account env now body w))"
    using w made by (auto simp: do_create_account_def Let_def split: option.split prod.split)
  then show "good (create_account_legacy env now body s w)" "good (create_account2 env now body s w)"
    by (auto simp: create_account_legacy_def create_account2_def Let_def split: option.split prod.split)
  show "good (auth_account_create env now body s w)"
    using w made by (auto simp: auth_account_create_def Let_def
      split: option.split prod.split outcome.split create_account_error.split)
qed

lemma dispatch_others_hold:
  assumes "holds w" and "joining" and "mine s" and "fr_id f \<noteq> SID_AUTH_INFO"
  shows "good (dispatch env tk f s w)"
  using handlers_hold auth_check_holds logon_holds create_holds assms
  by (simp add: dispatch_def Let_def)

lemma serve_dispatched:
  assumes "holds w" and "good (dispatch env tk f s w)"
  shows "holds (snd (serve env tk f (s, w)))"
proof (cases "accepts (ss_state s) (fr_id f)")
  case True
  obtain r t v where d: "dispatch env tk f s w = (r, t, v)" by (cases "dispatch env tk f s w") auto
  with assms(2) have "holds v" by simp
  with True d show ?thesis by (simp add: serve_def advance_state_def split: step.split option.split)
qed (use assms in \<open>simp add: serve_def\<close>)

lemma cleanup_holds:
  assumes "holds w" and "mine s"
  shows "holds (snd (cleanup now s w))"
proof -
  define n1 where "n1 = fold (\<lambda>k. release_key k now) (ss_claimed_keys s) (w_node w)"
  define n2 where "n2 = fold revoke_realm_ticket (ss_tickets s) n1"
  define n3 where "n3 = (case ss_account s of Some a \<Rightarrow> withdraw_game (na_id a) n2 | None \<Rightarrow> n2)"
  define n4 where "n4 = (case ss_channel s of None \<Rightarrow> n3
    | Some key \<Rightarrow> let (_, n) = leave_channel key (ss_display_name s) n3 in
        (case encode_frame (chat_event EvLeave (ss_flags s) 0 (ss_display_name s) []) [] of
           Ok bytes \<Rightarrow> enqueue_leave key bytes n | _ \<Rightarrow> n))"
  have "P n2 (w_store w) (w_bans w)" using assms(1) by (simp add: n1_def n2_def)
  then have "P n3 (w_store w) (w_bans w)" using mine_account [OF assms(2)] by (simp add: n3_def split: option.split)
  then have "P n4 (w_store w) (w_bans w)"
    by (simp add: n4_def case_prod_unfold Let_def split: option.split outcome.split)
  moreover have "w_node (snd (cleanup now s w)) = (if ss_display_name s \<noteq> []
      then release_name (ss_display_name s) (unregister_session (ss_display_name s) n4) else n4)"
    "w_store (snd (cleanup now s w)) = w_store w" "w_bans (snd (cleanup now s w)) = w_bans w"
    unfolding cleanup_def n4_def n3_def n2_def n1_def Let_def by simp_all
  ultimately show ?thesis using assms(2) by (simp add: holds_def mine_def)
qed

end

text \<open>\<open>world_inv_login\<close> adds the change of the class a connection is admitted under.\<close>

locale world_inv_login = world_inv_logon P env me own joining staff
  for P :: "node \<Rightarrow> 's \<Rightarrow> ban_store \<Rightarrow> bool" and env :: "'s env" and me :: account_id
    and own :: "bytes \<Rightarrow> bool" and joining :: bool and staff :: bool +
  assumes reclassifies: "P n st b \<Longrightarrow> P (snd (node_reclassify (en_cfg env) ip old new n)) st b"
begin

declare reclassifies [simp]

lemma auth_info_holds: "holds w \<Longrightarrow> good (auth_info env body s w)"
proof -
  assume w: "holds w"
  have "P m (w_store w) (w_bans w)" if "node_reclassify (en_cfg env) ip old new (w_node w) = (r, m)" for ip old new r m
    using reclassifies [OF holds_parts [OF w], of ip old new] that by simp
  with w show ?thesis
    by (auto simp: auth_info_def Let_def split: option.split prod.split outcome.split)
qed

lemma dispatch_all_holds:
  assumes "holds w" and "joining" and "mine s"
  shows "good (dispatch env tk f s w)"
proof (cases "fr_id f = SID_AUTH_INFO")
  case True
  then have "dispatch env tk f s w = auth_info env (fr_body f) s w" by (simp add: dispatch_def Let_def)
  then show ?thesis using auth_info_holds [OF assms(1)] by simp
qed (rule dispatch_others_hold [OF assms])

lemma serve_holds:
  assumes "holds w" and "joining" and "mine s"
  shows "holds (snd (serve env tk f (s, w)))"
  using assms by (intro serve_dispatched dispatch_all_holds)

end

end
