(* ===== verification/Session_System.thy ===== *)
theory Session_System
  imports Session_Effects Session_Rules
begin

text \<open>
  All game connections of one daemon together: sessions come, send packets in any order and go,
  each packet handled as a whole on the shared node, backend and ban store. The invariants of the
  shared state are interpretations of \<open>world_inv_login\<close>.
\<close>

section \<open>The system\<close>

type_synonym 's system = "(handle \<Rightarrow> session option) \<times> 's world"

inductive running :: "'s env \<Rightarrow> 's system \<Rightarrow> bool" for env :: "'s env" where
  boots: "running env (\<lambda>_. None,
    \<lparr>w_node = node_new allowlist outs, w_store = st, w_bans = bans_load tags ips mutes\<rparr>)"
| connects: "running env (ss, w) \<Longrightarrow> ss h = None \<Longrightarrow>
    running env (ss(h \<mapsto> session_new h ip token flood now local_addr), w)"
| packet: "running env (ss, w) \<Longrightarrow> ss h = Some s \<Longrightarrow>
    running env (ss(h \<mapsto> fst (serve env tk f (s, w))), snd (serve env tk f (s, w)))"
| ends: "running env (ss, w) \<Longrightarrow> ss h = Some s \<Longrightarrow>
    running env (ss(h := None), snd (cleanup now s w))"
| flushes: "running env (ss, w) \<Longrightarrow> running env (ss, w\<lparr>w_node := flush_pending (w_node w)\<rparr>)"

lemma running_sessions: "running env (ss, w) \<Longrightarrow> ss h = Some s \<Longrightarrow> connecting env s"
  by (induction "(ss, w)" arbitrary: ss w h s rule: running.induct)
    (auto intro: connecting.intros split: if_splits)

section \<open>The channel tables\<close>

lemma same_tables_claim_key: "same_tables n (snd (claim_key k now n))"
  using same_tables_exec [of "NodeClaimKey k now" n undefined] by simp

interpretation tables: world_inv_login "\<lambda>n _ _. node_inv n" env me "\<lambda>_. True" True True for env :: "'s env" and me
proof
  fix n :: node assume n: "node_inv n"
  note same = node_inv_same [OF n]
  show "node_inv (snd (send_to h x n))" for h x by (rule same) simp
  show "node_inv (snd (leave_channel key name n))" for key name using n by (rule node_inv_leave)
  show "node_inv (enqueue_leave key x n)" for key x using n by (rule node_inv_enqueue)
  show "node_inv (snd (broadcast key x ex sb n))" for key x ex sb using n by (rule node_inv_broadcast)
  show "node_inv (snd (join_channel (en_cfg env) raw me name fl p stat h n))" for raw name fl p stat h
    using n by (rule node_inv_join)
  show "node_inv (snd (channel_kick key me t n))" for key t using n by (rule node_inv_kick)
  show "node_inv (snd (channel_ban key me t n))" for key t using n by (rule node_inv_ban)
  show "node_inv (snd (channel_designate key me t n))" for key t using n by (rule node_inv_designate)
  show "node_inv (snd (channel_unban key me t n))" for key t using n by (rule node_inv_unban)
  show "node_inv (snd (force_off hit notice n))" for hit notice by (rule same [OF same_tables_force_off])
  show "node_inv (snd (claim_key k now n))" for k now by (rule same [OF same_tables_claim_key])
qed (auto elim!: node_inv_same simp: same_tables_defs Let_def split: option.splits prod.splits outcome.splits)

section \<open>Statstrings shown in channels\<close>

text \<open>
  A predicate of roster entries that survives a change of flags holds in all channels, if it holds
  of those who join.
\<close>

definition rosters :: "(member \<Rightarrow> bool) \<Rightarrow> node \<Rightarrow> bool" where
  "rosters Q n \<longleftrightarrow> (\<forall>key c. fmlookup (nd_channels n) key = Some c \<longrightarrow> list_all Q (ch_members c))"

lemma rosters_upd: "rosters Q n \<Longrightarrow> list_all Q (ch_members c) \<Longrightarrow> rosters Q (n\<lparr>nd_channels := fmupd key c (nd_channels n)\<rparr>)"
  by (auto simp: rosters_def)

lemma rosters_lookup: "rosters Q n \<Longrightarrow> fmlookup (nd_channels n) key = Some c \<Longrightarrow> list_all Q (ch_members c)"
  by (simp add: rosters_def)

lemma rosters_same: "rosters Q n \<Longrightarrow> nd_channels m = nd_channels n \<Longrightarrow> rosters Q m"
  by (simp add: rosters_def)

lemma rosters_frame [simp]:
  "rosters Q (n\<lparr>nd_subscribers := x1\<rparr>) = rosters Q n" "rosters Q (n\<lparr>nd_pending := x2\<rparr>) = rosters Q n"
  "rosters Q (n\<lparr>nd_outbounds := x3\<rparr>) = rosters Q n" "rosters Q (n\<lparr>nd_recent := x4\<rparr>) = rosters Q n"
  "rosters Q (n\<lparr>nd_total_logins := x5\<rparr>) = rosters Q n"
  by (simp_all add: rosters_def)

definition flag_blind :: "(member \<Rightarrow> bool) \<Rightarrow> bool" where
  "flag_blind Q \<longleftrightarrow> (\<forall>m fl. Q (m\<lparr>m_flags := fl\<rparr>) = Q m)"

lemma list_all_promote: "flag_blind Q \<Longrightarrow> list_all Q (ch_members c) \<Longrightarrow> list_all Q (ch_members (promote h c))"
  by (auto simp: promote_def flag_blind_def list_all_length nth_list_update dest!: position_by_account_Some
    split: option.split)

lemma remove_at_members:
  assumes "flag_blind Q" and "list_all Q (ch_members c)"
  shows "list_all Q (ch_members (snd (remove_at i c)))"
proof -
  have d: "list_all Q (ch_members (without i c))"
    using assms(2) by (auto simp: list_all_iff remove_nth_def dest: in_set_takeD in_set_dropD)
  obtain hs where "\<And>x. list_all Q (ch_members (without i c\<lparr>ch_heirs := x\<rparr>))" using d by simp
  with d show ?thesis
    using list_all_promote [OF assms(1)] by (simp add: remove_at_unfold Let_def split: option.split)
qed

lemma leave_members: "flag_blind Q \<Longrightarrow> list_all Q (ch_members c) \<Longrightarrow> list_all Q (ch_members (snd (leave name c)))"
  by (simp add: leave_def remove_at_members split: option.split)

lemma rosters_destroy: "rosters Q n \<Longrightarrow> rosters Q (destroy_if lo key n)"
  by (auto simp: destroy_if_def rosters_def)

lemma rosters_after_mod:
  "rosters Q n \<Longrightarrow> list_all Q (ch_members c) \<Longrightarrow> rosters Q (snd (after_mod key name lo c n))"
proof -
  assume a: "rosters Q n" "list_all Q (ch_members c)"
  have "rosters Q (snd (pull_subscriber key name (n\<lparr>nd_channels := fmupd key c (nd_channels n)\<rparr>)))"
    using rosters_upd [OF a] by (auto simp: pull_subscriber_def split: option.split)
  then show ?thesis by (simp add: after_mod_def Let_def case_prod_unfold rosters_destroy)
qed

lemma rosters_leave:
  assumes "flag_blind Q" and "rosters Q n"
  shows "rosters Q (snd (leave_channel key name n))"
proof (cases "fmlookup (nd_channels n) key")
  case (Some c)
  define n1 where "n1 = n\<lparr>nd_channels := fmupd key (snd (leave name c)) (nd_channels n)\<rparr>"
  have "rosters Q n1"
    unfolding n1_def by (intro rosters_upd assms leave_members rosters_lookup [OF assms(2) Some])
  with Some show ?thesis
    by (simp add: leave_channel_def Let_def case_prod_unfold rosters_destroy flip: n1_def split: option.split)
qed (use assms in \<open>simp add: leave_channel_def\<close>)

lemma kick_members:
  assumes "flag_blind Q" and "list_all Q (ch_members c)"
  shows "kick_by_name a name c = Ok (lo, c') \<Longrightarrow> list_all Q (ch_members c')"
    "ban_by_name a name c = Ok (v, lo, c') \<Longrightarrow> list_all Q (ch_members c')"
    "designate_by_name a name c = Ok (v, c') \<Longrightarrow> list_all Q (ch_members c')"
    "unban a t c = Ok (u, c') \<Longrightarrow> list_all Q (ch_members c')"
proof -
  have r: "list_all Q (ch_members d) \<Longrightarrow> remove_at i d = (lo, c') \<Longrightarrow> list_all Q (ch_members c')" for i d
    using remove_at_members [OF assms(1), of d i] by simp
  show "kick_by_name a name c = Ok (lo, c') \<Longrightarrow> list_all Q (ch_members c')"
    "ban_by_name a name c = Ok (v, lo, c') \<Longrightarrow> list_all Q (ch_members c')"
    "designate_by_name a name c = Ok (v, c') \<Longrightarrow> list_all Q (ch_members c')"
    "unban a t c = Ok (u, c') \<Longrightarrow> list_all Q (ch_members c')"
    using assms(2) by (auto simp: kick_by_name_def ban_by_name_def designate_by_name_def unban_def Let_def
      split: if_splits option.splits intro: r [rotated])
qed

lemma rosters_mods:
  assumes "flag_blind Q" and "rosters Q n"
  shows "rosters Q (snd (channel_kick key a name n))" "rosters Q (snd (channel_ban key a name n))"
    "rosters Q (snd (channel_designate key a name n))" "rosters Q (snd (channel_unban key a t n))"
proof -
  note c = rosters_lookup [OF assms(2), of key]
  show "rosters Q (snd (channel_kick key a name n))" "rosters Q (snd (channel_ban key a name n))"
    "rosters Q (snd (channel_designate key a name n))" "rosters Q (snd (channel_unban key a t n))"
    using assms(2) kick_members [OF assms(1) c]
    by (auto simp: channel_kick_def channel_ban_def channel_designate_def channel_unban_def
      intro!: rosters_after_mod rosters_upd split: option.split outcome.split)
qed

lemma rosters_join:
  assumes "rosters Q n" and "\<And>fl. Q \<lparr>m_account = a, m_name = name, m_flags = fl, m_statstring = stat\<rparr>"
  shows "rosters Q (snd (join_channel cfg raw a name fl p stat h n))"
proof -
  define key where "key = normalize_channel_name raw"
  define rule where "rule = rules_get (nc_rules cfg) key"
  define found :: "(join_denial, channel) outcome" where "found = (case fmlookup (nd_channels n) key of
    Some c \<Rightarrow> Ok c | None \<Rightarrow> make_channel cfg rule key (trim (utf8_lossy raw)))"
  have c: "list_all Q (ch_members c)" if "found = Ok c" for c
    using that rosters_lookup [OF assms(1), of key] by (auto simp: found_def make_channel_ok(4) split: option.splits)
  have j: "list_all Q (ch_members c')" if "join a name fl stat c = Ok (lo, c')" "found = Ok c" for c c' lo
    using that c [OF that(2)] assms(2) by (auto simp: join_Ok)
  have "rosters Q (n\<lparr>nd_channels := fmupd key c (nd_channels n)\<rparr>)" if "found = Ok c" for c
    by (rule rosters_upd [OF assms(1) c [OF that]])
  moreover have "rosters Q (n\<lparr>nd_channels := fmupd key c' (nd_channels n)\<rparr>)" if "join a name fl stat c = Ok (lo, c')" "found = Ok c" for c c' lo
    by (rule rosters_upd [OF assms(1) j [OF that]])
  ultimately show ?thesis
    using assms(1)
    unfolding join_channel_def Let_def key_def [symmetric] rule_def [symmetric] found_def [symmetric]
    by (auto simp: fmupd_twice split: outcome.split)
qed

lemma rosters_tables: "rosters Q n \<Longrightarrow> same_tables n m \<Longrightarrow> rosters Q m"
  by (simp add: rosters_def same_tables_def)

lemma flush_channels: "nd_channels (flush_leaves key n) = nd_channels n"
proof -
  let ?m = "n\<lparr>nd_pending := fmdrop key (nd_pending n)\<rparr>"
  have "nd_channels (fold (\<lambda>(_, h) n. snd (send_to h w n)) subs ?m) = nd_channels n" for w subs
    using same_tables_sends [of ?m w subs] by (simp add: same_tables_def)
  then show ?thesis by (auto simp: flush_leaves_def Let_def split: option.split)
qed

lemma rosters_flush [simp]: "rosters Q (flush_leaves key n) = rosters Q n"
  by (simp add: rosters_def flush_channels)

lemma rosters_flush_pending [simp]: "rosters Q (flush_pending n) = rosters Q n"
proof -
  have "rosters Q (fold flush_leaves ks m) = rosters Q m" for ks m
    by (induction ks arbitrary: m) simp_all
  then show ?thesis by (simp add: flush_pending_def)
qed

lemma rosters_broadcast: "rosters Q n \<Longrightarrow> rosters Q (snd (broadcast key x ex sb n))"
  using rosters_tables [OF _ same_tables_deliver, of Q "([], flush_leaves key n)"]
  by (simp add: broadcast_def Let_def split: option.split)

text \<open>A channel user's statstring is one a session had, and every session keeps its own safe.\<close>

definition safe_member :: "member \<Rightarrow> bool" where
  "safe_member m \<longleftrightarrow> d2_is_safe (m_statstring m)"

lemma safe_flag_blind [simp]: "flag_blind safe_member"
  by (simp add: flag_blind_def safe_member_def)

interpretation portraits: world_inv_login "\<lambda>n _ _. rosters safe_member n" env me "\<lambda>_. True" True True
  for env :: "'s env" and me
proof
  fix n :: node assume n: "rosters safe_member n"
  note same = rosters_tables [OF n]
  show "rosters safe_member (snd (send_to h x n))" for h x by (rule same) simp
  show "rosters safe_member (snd (leave_channel key name n))" for key name by (rule rosters_leave [OF _ n]) simp
  show "rosters safe_member (enqueue_leave key x n)" for key x using n by (simp add: enqueue_leave_def)
  show "rosters safe_member (snd (broadcast key x ex sb n))" for key x ex sb using n by (rule rosters_broadcast)
  show "d2_is_safe stat \<Longrightarrow> rosters safe_member (snd (join_channel (en_cfg env) raw me name fl p stat h n))"
    for raw name fl p stat h by (rule rosters_join [OF n]) (simp add: safe_member_def)
  show "rosters safe_member (snd (channel_kick key me t n))" "rosters safe_member (snd (channel_ban key me t n))"
    "rosters safe_member (snd (channel_designate key me t n))" for key t
    using rosters_mods(1,2,3) [OF safe_flag_blind n] by simp_all
  show "rosters safe_member (snd (channel_unban key me t n))" for key t
    using rosters_mods(4) [OF safe_flag_blind n] by simp
  show "rosters safe_member (snd (force_off hit notice n))" for hit notice by (rule same [OF same_tables_force_off])
  show "rosters safe_member (snd (claim_key k now n))" for k now by (rule same [OF same_tables_claim_key])
qed (auto elim!: rosters_tables simp: same_tables_defs Let_def split: option.splits prod.splits outcome.splits)

section \<open>Any interleaving\<close>

lemma login_inv_mine:
  assumes "login_inv s"
  shows "tables.mine (case ss_account s of Some a \<Rightarrow> na_id a | None \<Rightarrow> 0) s"
    "portraits.mine (case ss_account s of Some a \<Rightarrow> na_id a | None \<Rightarrow> 0) s"
  using assms by (simp_all add: tables.mine_def portraits.mine_def login_inv_def split: option.split)

lemma running_world:
  "running env c \<Longrightarrow> tables.holds (snd c) \<and> portraits.holds (snd c)"
proof (induction rule: running.induct)
  case (boots allowlist outs st tags ips mutes)
  have "node_inv (node_new allowlist outs)" "rosters safe_member (node_new allowlist outs)"
    by (simp_all add: node_new_def node_inv_def rosters_def)
  then show ?case by (simp add: tables.holds_def portraits.holds_def)
next
  case (packet ss w h s tk f)
  have s: "login_inv s" using running_sessions [OF packet(1,2)] by (rule connecting_inv)
  with packet(3) show ?case
    by (simp add: tables.serve_holds [OF _ _ login_inv_mine(1)] portraits.serve_holds [OF _ _ login_inv_mine(2)])
next
  case (ends ss w h s now)
  have s: "login_inv s" using running_sessions [OF ends(1,2)] by (rule connecting_inv)
  with ends(3) show ?case
    by (simp add: tables.cleanup_holds [OF _ login_inv_mine(1)] portraits.cleanup_holds [OF _ login_inv_mine(2)])
qed (simp_all add: node_inv_flush_pending)

end
