(* ===== verification/Session_Promises.thy ===== *)
theory Session_Promises
  imports Session_System
begin

text \<open>
  What holds of a logged-on session over everything it may send: its account and its privilege stay,
  without the privilege it bans nobody and forces nobody off, and it writes to no record but its
  own. Each is an interpretation of \<open>world_inv\<close> whose invariant compares with the world before.
\<close>

section \<open>Any number of packets\<close>

definition settled :: "session \<Rightarrow> session \<Rightarrow> bool" where
  "settled s t \<longleftrightarrow> ss_account t = ss_account s \<and> require_staff t = require_staff s \<and>
     (d2_is_safe (ss_statstring s) \<longrightarrow> d2_is_safe (ss_statstring t))"

lemma settled_refl [simp]: "settled s s"
  by (simp add: settled_def)

lemma settled_trans: "settled s t \<Longrightarrow> settled t u \<Longrightarrow> settled s u"
  by (simp add: settled_def)

lemma serve_settled:
  assumes "authenticated (ss_state s)"
  shows "settled s (fst (serve env tk f (s, w)))"
    "authenticated (ss_state (fst (serve env tk f (s, w)))) \<or> ss_state (fst (serve env tk f (s, w))) = Closing"
  using serve_logged_on [OF assms refl, of env tk f w] by (auto simp: settled_def kept_def require_staff_def)

lemma serve_all_settled:
  assumes "authenticated (ss_state s)"
  shows "settled s (fst (snd (serve_all env ticks fs (i, s, w))))"
  using assms
proof (induction fs arbitrary: i s w)
  case (Cons f fs)
  obtain t v where t: "serve env (ticks i) f (s, w) = (t, v)" by fastforce
  note st = serve_settled [OF Cons.prems, of env "ticks i" f w]
  with t Cons.IH [of t "i + 1" v] show ?case by (auto intro: settled_trans)
qed simp

context world_inv
begin

lemma settled_mine: "settled s t \<Longrightarrow> mine s \<Longrightarrow> (\<And>x. own x) \<Longrightarrow> mine t"
  by (simp add: settled_def mine_def)

lemma serve_all_holds:
  assumes "holds w" and "joining" and "mine s" and "authenticated (ss_state s)" and own: "\<And>x. own x"
  shows "holds (snd (snd (serve_all env ticks fs (i, s, w))))"
  using assms(1,3,4)
proof (induction fs arbitrary: i s w)
  case (Cons f fs)
  obtain t v where t: "serve env (ticks i) f (s, w) = (t, v)" by fastforce
  have v: "holds v" using serve_logged_on_holds [OF Cons.prems(1) assms(2) Cons.prems(2,3), of "ticks i" f] t by simp
  have m: "mine t" using settled_mine [OF serve_settled(1) [OF Cons.prems(3)] Cons.prems(2) own] t by (metis fst_conv)
  show ?case
    using serve_settled(2) [OF Cons.prems(3), of env "ticks i" f w] t Cons.IH [OF v m, of "i + 1"] v by auto
qed simp

end

section \<open>Staff powers\<close>

text \<open>
  What no channel, name or game operation touches: the connections forced off, and the admission
  table with the number of connections.
\<close>

definition out_of_reach :: "node \<Rightarrow> handle fset \<times> admission_table \<times> u64" where
  "out_of_reach n = (nd_killed n, nd_admission n, nd_connections n)"

lemma reach_fields [simp]:
  "out_of_reach (n\<lparr>nd_channels := cs\<rparr>) = out_of_reach n" "out_of_reach (n\<lparr>nd_pending := ps\<rparr>) = out_of_reach n"
  "out_of_reach (n\<lparr>nd_subscribers := subs\<rparr>) = out_of_reach n" "out_of_reach (n\<lparr>nd_outbounds := obs\<rparr>) = out_of_reach n"
  "out_of_reach (n\<lparr>nd_recent := rs\<rparr>) = out_of_reach n"
  by (simp_all add: out_of_reach_def)

lemma reach_frame [simp]:
  "out_of_reach (snd (send_to h x n)) = out_of_reach n"
  "out_of_reach (snd (leave_channel key name n)) = out_of_reach n"
  "out_of_reach (enqueue_leave key x n) = out_of_reach n"
  "out_of_reach (snd (join_channel cfg raw a name fl p stat h n)) = out_of_reach n"
  "out_of_reach (snd (after_mod key name lo c n)) = out_of_reach n"
  "out_of_reach (snd (claim_name name n)) = out_of_reach n"
  "out_of_reach (release_name name n) = out_of_reach n"
  "out_of_reach (register_session name ip h client n) = out_of_reach n"
  "out_of_reach (unregister_session name n) = out_of_reach n"
  "out_of_reach (snd (advertise_game ad n)) = out_of_reach n"
  "out_of_reach (withdraw_game a n) = out_of_reach n"
  "out_of_reach (mark_game_started client name now n) = out_of_reach n"
  "out_of_reach (record_hosted_game tag now n) = out_of_reach n"
  by (simp_all add: out_of_reach_def send_to_def leave_channel_def destroy_if_def enqueue_leave_def join_channel_def after_mod_def
    pull_subscriber_def claim_name_def release_name_def register_session_def unregister_session_def
    advertise_game_def withdraw_game_def mark_game_started_def record_hosted_game_def Let_def case_prod_unfold
    split: option.split outcome.split)

lemma reach_mods [simp]:
  "out_of_reach (snd (channel_kick key a t n)) = out_of_reach n"
  "out_of_reach (snd (channel_ban key a t n)) = out_of_reach n"
  "out_of_reach (snd (channel_designate key a t n)) = out_of_reach n"
  "out_of_reach (snd (channel_unban key a i n)) = out_of_reach n"
  by (simp_all add: channel_kick_def channel_ban_def channel_designate_def channel_unban_def case_prod_unfold
    split: option.split outcome.split)

lemma reach_flush [simp]: "out_of_reach (flush_leaves key n) = out_of_reach n"
proof -
  have "out_of_reach (fold (\<lambda>(_, h) n. snd (send_to h w n)) subs m) = out_of_reach m"
    for w and subs :: "(bytes \<times> handle) list" and m
    by (induction subs arbitrary: m) (simp_all add: case_prod_unfold)
  then show ?thesis by (simp add: flush_leaves_def Let_def split: option.split)
qed

lemma reach_broadcast [simp]: "out_of_reach (snd (broadcast key x ex sb n)) = out_of_reach n"
proof -
  have "out_of_reach (snd (fold (deliver ex sl x) subs acc)) = out_of_reach (snd acc)" for sl subs acc
  proof (induction subs arbitrary: acc)
    case (Cons sub subs)
    then show ?case by (cases acc) (simp add: deliver_def Let_def case_prod_unfold)
  qed simp
  then show ?thesis by (simp add: broadcast_def Let_def split: option.split)
qed

lemma reach_mint: "mint_realm_ticket a p cookie ids n = Some (r, m) \<Longrightarrow> out_of_reach m = out_of_reach n"
  by (auto simp: out_of_reach_def mint_realm_ticket_def split: option.splits)

definition unharmed :: "'s world \<Rightarrow> node \<Rightarrow> 's \<Rightarrow> ban_store \<Rightarrow> bool" where
  "unharmed w n st b \<longleftrightarrow> b = w_bans w \<and> out_of_reach n = out_of_reach (w_node w)"

interpretation calm: world_inv "unharmed w0" env me "\<lambda>_. True" True False
  for env :: "'s env" and me and w0
  by unfold_locales (auto simp: unharmed_def dest: reach_mint)

section \<open>Storage\<close>

text \<open>What a change of one account's attributes leaves alone, on the reference backend.\<close>

definition only_attributes_of :: "account_id \<Rightarrow> memory_storage \<Rightarrow> memory_storage \<Rightarrow> bool" where
  "only_attributes_of i a b \<longleftrightarrow> ms_accounts b = ms_accounts a \<and> ms_by_name b = ms_by_name a \<and>
     ms_bans b = ms_bans a \<and> ms_characters b = ms_characters a \<and> ms_next_id b = ms_next_id a \<and>
     (\<forall>j. j \<noteq> i \<longrightarrow> fmlookup (ms_attrs b) j = fmlookup (ms_attrs a) j)"

lemma only_attributes_refl [simp]: "only_attributes_of i a a"
  by (simp add: only_attributes_of_def)

lemma memory_reads [simp]:
  "snd (so_account_by_name memory_ops name st) = st" "snd (so_attrs_get memory_ops i ks st) = st"
  "snd (so_character_by_name memory_ops name st) = st" "snd (so_list_accounts memory_ops off lim st) = st"
  by (simp_all add: memory_ops_def mem_account_by_name_def mem_attrs_get_def mem_character_by_name_def
    mem_list_accounts_def Let_def)

lemma memory_put: "only_attributes_of i a st \<Longrightarrow> only_attributes_of i a (snd (so_attrs_put memory_ops i m st))"
  by (simp add: only_attributes_of_def memory_ops_def mem_attrs_put_def Let_def)

lemma visit_pure: "(\<And>a st. snd (f a st) = st) \<Longrightarrow> snd (visit_page f as st) = st"
  by (induction as arbitrary: st) (simp_all add: Let_def case_prod_unfold)

lemma walk_pure: "(\<And>a st. snd (f a st) = st) \<Longrightarrow> snd (walk_accounts n memory_ops f off st) = st"
  by (induction n arbitrary: off st)
    (simp_all add: walk_accounts.simps Let_def case_prod_unfold visit_pure split: outcome.split)

lemma memory_commands [simp]:
  "snd (act_read_readable_attrs memory_ops name ks st) = st"
  "snd (act_account_by_name memory_ops name st) = st"
  "snd (act_character_by_name memory_ops name st) = st"
  "snd (act_ladder_rows n memory_ops tag lg st) = st"
  by (simp_all add: act_read_readable_attrs_def act_account_by_name_def act_character_by_name_def act_ladder_rows_def
    ladder_visit_def walk_pure Let_def case_prod_unfold split: outcome.split option.split)

lemma memory_records:
  assumes "only_attributes_of i a st"
  shows "only_attributes_of i a (snd (act_record_game memory_ops i tag out st))"
    "only_attributes_of i a (snd (act_record_ladder_game memory_ops f i tag lg out' opponent now st))"
  using assms by (simp_all add: act_record_game_def act_record_ladder_game_def Let_def case_prod_unfold memory_put
    split: outcome.split option.split)

definition own_writes :: "account_id \<Rightarrow> memory_storage \<Rightarrow> node \<Rightarrow> memory_storage \<Rightarrow> ban_store \<Rightarrow> bool" where
  "own_writes i a n st b \<longleftrightarrow> only_attributes_of i a st"

interpretation own_record: world_inv "own_writes me st0" "env\<lparr>en_ops := memory_ops\<rparr>" me
    "\<lambda>_. True" True True for env :: "memory_storage env" and me and st0
  by unfold_locales (simp_all add: own_writes_def memory_records)

section \<open>What a logged-on user can and cannot do\<close>

lemma connecting_mine:
  assumes "connecting env s" and "ss_account s = Some a"
  shows "\<not> require_staff s \<Longrightarrow> calm.mine (na_id a) s" and "own_record.mine (na_id a) s"
proof -
  have "d2_is_safe (ss_statstring s)" using connecting_inv [OF assms(1)] by (simp add: login_inv_def)
  with assms(2) show "\<not> require_staff s \<Longrightarrow> calm.mine (na_id a) s" "own_record.mine (na_id a) s"
    by (simp_all add: calm.mine_def own_record.mine_def)
qed

lemma connecting_account: "connecting env s \<Longrightarrow> authenticated (ss_state s) \<Longrightarrow> \<exists>a. ss_account s = Some a"
  using connecting_inv [of env s] by (auto simp: login_inv_def)

text \<open>C26
  Who a session is and what it may do is settled at the logon: whatever packets it sends
  afterwards, it acts for the same account, and it gains or loses no staff privilege.
\<close>

theorem identity_is_settled:
  assumes "authenticated (ss_state s)"
    and "serve_all env ticks fs (i, s, w) = (j, t, v)"
  shows "ss_account t = ss_account s \<and> (require_staff t \<longleftrightarrow> require_staff s)"
  using serve_all_settled [OF assms(1), of env ticks fs i w] assms(2) by (simp add: settled_def)

corollary identity_is_settled_witness:
  "ss_account (fst (snd (serve_all bob_env (\<lambda>_. bob_tick) [frame SID_LEAVECHAT [], bob_shows] (0, bob_on, bob_world)))) = Some bob_account"
proof -
  obtain j t v where t: "serve_all bob_env (\<lambda>_. bob_tick) [frame SID_LEAVECHAT [], bob_shows] (0, bob_on, bob_world) = (j, t, v)"
    by (rule prod_cases3)
  have "ss_account t = Some bob_account"
    using conjunct1 [OF identity_is_settled [OF conjunct1 [OF bob_logged_on] t]]
      conjunct1 [OF conjunct2 [OF bob_logged_on]] by (rule trans)
  then show ?thesis by (simp only: t fst_conv snd_conv)
qed

text \<open>C27
  A session without the staff privilege has no staff power. Whatever packets it sends after its
  logon, the tag bans, address bans and mutes stay as they were, and no connection is forced off.
\<close>

theorem powerless_without_privilege:
  assumes "connecting env s" and "authenticated (ss_state s)" and "\<not> require_staff s"
    and "serve_all env ticks fs (i, s, w) = (j, t, v)"
  shows "w_bans v = w_bans w \<and> nd_killed (w_node v) = nd_killed (w_node w)"
proof -
  obtain a where a: "ss_account s = Some a" using connecting_account [OF assms(1,2)] ..
  have "calm.holds w w" by (simp add: calm.holds_def unharmed_def out_of_reach_def)
  from calm.serve_all_holds [OF this TrueI connecting_mine(1) [OF assms(1) a assms(3)] assms(2) TrueI, of env ticks fs i]
  have "calm.holds w v" by (simp only: assms(4) snd_conv)
  then show ?thesis by (simp add: calm.holds_def unharmed_def out_of_reach_def)
qed

text \<open>C28
  With the in-memory backend, what a session writes to the store after its logon is attributes of
  its own account: accounts, credentials, names, bans and characters stay as they were, and so do
  the attributes of every other account.
\<close>

theorem writes_only_its_own_record:
  assumes "connecting env s" and "authenticated (ss_state s)" and "ss_account s = Some a"
    and "en_ops env = memory_ops"
    and "serve_all env ticks fs (i, s, w) = (j, t, v)"
  shows "only_attributes_of (na_id a) (w_store w) (w_store v)"
proof -
  have env: "env\<lparr>en_ops := memory_ops\<rparr> = env" using assms(4) by simp
  have "own_record.holds (na_id a) (w_store w) w" by (simp add: own_record.holds_def own_writes_def)
  from own_record.serve_all_holds [OF this TrueI connecting_mine(2) [OF assms(1,3)] assms(2) TrueI, of env ticks fs i]
  have "own_record.holds (na_id a) (w_store w) v" by (simp only: env assms(5) snd_conv)
  then show ?thesis by (simp add: own_record.holds_def own_writes_def)
qed

text \<open>The same at work: what follows bob's logon.\<close>

lemma bob_on_connecting: "connecting bob_env bob_on"
  unfolding bob_on_def by (rule framed [OF bob_connecting])

abbreviation bob_goes_on :: "nat \<times> session \<times> memory_storage world" where
  "bob_goes_on \<equiv> serve_all bob_env (\<lambda>_. bob_tick) [frame SID_LEAVECHAT [], bob_shows] (0, bob_on, bob_world)"

lemma powerless_without_privilege_witness:
  "w_bans (snd (snd bob_goes_on)) = w_bans bob_world \<and>
   nd_killed (w_node (snd (snd bob_goes_on))) = nd_killed (w_node bob_world)"
proof -
  obtain j t v where t: "bob_goes_on = (j, t, v)" by (rule prod_cases3)
  from powerless_without_privilege [OF bob_on_connecting conjunct1 [OF bob_logged_on] _ t] bob_logged_on
  have "w_bans v = w_bans bob_world \<and> nd_killed (w_node v) = nd_killed (w_node bob_world)" by blast
  then show ?thesis by (simp only: t snd_conv)
qed

lemma writes_only_its_own_record_witness:
  "only_attributes_of 1 bob_storage (w_store (snd (snd bob_goes_on)))"
proof -
  obtain j t v where t: "bob_goes_on = (j, t, v)" by (rule prod_cases3)
  have ops: "en_ops bob_env = memory_ops" by (simp add: bob_env_def)
  from writes_only_its_own_record [OF bob_on_connecting conjunct1 [OF bob_logged_on] _ ops t, of bob_account] bob_logged_on
  have "only_attributes_of 1 bob_storage (w_store v)" by (simp add: bob_account_def bob_world_def)
  then show ?thesis by (simp only: t snd_conv)
qed

section \<open>Who is heard\<close>

text \<open>What reaches nobody but the sender.\<close>

definition others_hear_nothing :: "handle \<Rightarrow> 's world \<Rightarrow> 's world \<Rightarrow> bool" where
  "others_hear_nothing me w v \<longleftrightarrow>
     (\<forall>h. h \<noteq> me \<longrightarrow> nd_outbounds (w_node v) h = nd_outbounds (w_node w) h)"

lemma hear_refl [simp]: "others_hear_nothing me w w"
  by (simp add: others_hear_nothing_def)

lemma hear_reply [simp]: "ss_out s = h \<Longrightarrow> others_hear_nothing h w (snd (snd (reply f s w)))"
  by (auto simp: others_hear_nothing_def reply_def send_frame_def send_to_def Let_def case_prod_unfold split: outcome.split)

lemma hear_say [simp]: "ss_out s = h \<Longrightarrow> others_hear_nothing h w (snd (snd (say ev text s w)))"
  by (simp add: say_def)

lemma hear_penalty [simp]: "ss_out s = h \<Longrightarrow> others_hear_nothing h w (snd (snd (apply_flood_penalty pen now s w)))"
  by (simp add: apply_flood_penalty_def split: flood_penalty.split)

lemma hear_silent_talk:
  "ss_out s = h \<Longrightarrow> is_muted (na_name a) now (w_bans w) \<or> \<not> is_member key (ss_display_name s) (w_node w) \<Longrightarrow>
   others_hear_nothing h w (snd (snd (talk now text a key s w)))"
  by (auto simp: talk_def ensure_member_def case_prod_unfold)

text \<open>
  Who is silenced: muted by the flood control or sending too fast; and for plain talk, muted by
  staff or no longer in the channel (kicked or banned from it).
\<close>

definition silenced :: "u64 \<Rightarrow> bytes \<Rightarrow> node_account \<Rightarrow> bytes \<Rightarrow> session \<Rightarrow> 's world \<Rightarrow> bool" where
  "silenced now text a key s w \<longleftrightarrow> now < ss_muted_until s \<or> fst (flood_check now (ss_flood s)) \<noteq> AllowMessage \<or>
     (text \<noteq> [] \<longrightarrow> hd text \<noteq> 0x2F) \<and>
     (is_muted (na_name a) now (w_bans w) \<or> \<not> is_member key (ss_display_name s) (w_node w))"

text \<open>C29
  Who is silenced is not heard. A line of a session that the flood control holds back reaches no
  other connection, command or not; nor does the talk of one that staff have muted or that is no
  longer a member of its channel.
\<close>

theorem silenced_not_heard:
  assumes "ss_account s = Some a" and "ss_channel s = Some key"
    and "parse (rd_cstr CHAT_TEXT_MAX) body = Some raw"
    and "silenced now (sanitize_chat_text raw) a key s w"
  shows "others_hear_nothing (ss_out s) w (snd (snd (chat_command env now body s w)))"
proof -
  obtain verdict fl where v: "flood_check now (ss_flood s) = (verdict, fl)" by fastforce
  show ?thesis
    using assms hear_silent_talk [of "s\<lparr>ss_flood := fl\<rparr>" "ss_out s" a now w key "sanitize_chat_text raw"]
    by (auto simp: chat_command_def silenced_def v Let_def split: flood_verdict.split)
qed

lemma silenced_not_heard_witness:
  "others_hear_nothing (ss_out bob_on) bob_world
     (snd (snd (chat_command bob_env 0 (ascii ''hi'' @ [0]) (bob_on\<lparr>ss_channel := Some (ascii ''x'')\<rparr>) bob_world)))"
proof -
  have "parse (rd_cstr CHAT_TEXT_MAX) (ascii ''hi'' @ [0]) = Some (ascii ''hi'')"
    using rd_cstr_app [of "ascii ''hi''" CHAT_TEXT_MAX "[]" "[]"]
    by (simp add: parse_def rd_new_at CHAT_TEXT_MAX_def ascii_def)
  moreover have "sanitize_chat_text (ascii ''hi'') \<noteq> [] \<longrightarrow> hd (sanitize_chat_text (ascii ''hi'')) \<noteq> 0x2F"
    by code_simp
  then have "silenced 0 (sanitize_chat_text (ascii ''hi'')) bob_account (ascii ''x'')
      (bob_on\<lparr>ss_channel := Some (ascii ''x'')\<rparr>) bob_world"
    by (simp add: silenced_def is_member_def bob_world_def node_new_def)
  ultimately show ?thesis
    using silenced_not_heard [of "bob_on\<lparr>ss_channel := Some (ascii ''x'')\<rparr>" bob_account "ascii ''x''"] bob_logged_on
    by simp
qed

section \<open>The daemon\<close>

text \<open>C24
  However connections open, send packets, end and interleave, the channels, their fan-out lists and
  the pending notices agree with one another, and every portrait text a channel shows is one that
  Diablo II clients can read.
\<close>

theorem running_channels_sound:
  assumes "running env (ss, w)"
  shows "node_inv (w_node w) \<and> rosters safe_member (w_node w)"
  using running_world [OF assms] tables.holds_parts [of w] portraits.holds_parts [of w] by (simp only: snd_conv)

lemma running_channels_sound_witness:
  "node_inv (w_node (snd (serve bob_env bob_tick bob_shows (bob_new, bob_world)))) \<and>
   rosters safe_member (w_node (snd (serve bob_env bob_tick bob_shows (bob_new, bob_world))))"
proof -
  have boot: "running bob_env (\<lambda>_. None, bob_world)"
    unfolding bob_world_def by (rule boots)
  have "running bob_env ((\<lambda>_. None)(0 \<mapsto> bob_new), bob_world)"
    unfolding bob_new_def by (rule connects [OF boot refl])
  from packet [OF this fun_upd_same] show ?thesis by (rule running_channels_sound)
qed

text \<open>C25
  A session sees packets, not reads. However the stream of encoded packets is cut into what the
  socket delivers, the session and the shared state end as if each packet had been handed over in
  turn, up to the first that closes the session.
\<close>

theorem session_sees_frames:
  assumes "encode_all fs [] = Ok stream" and "\<forall>f \<in> set fs. wire_len f \<le> m"
    and "concat chunks = stream" and "chunks \<noteq> []" and "length fs < fuel" and "ss_state s \<noteq> Closing"
  shows "\<exists>q. read_session env m ticks fuel chunks (rb_new, i, s, w) = Some (q, serve_all env ticks fs (i, s, w))"
proof -
  obtain rb where "receive (decode_frame m) rb_extend fuel rb_new chunks = Some (fs, Ok rb)"
    using bncs.receive_any_chunks [of fs m chunks fuel] assms by (auto simp: encode_all_Ok legal_frame_def)
  with read_session_receive [of m fuel rb_new chunks fs rb "(i, s, w)" env ticks] assms(6) show ?thesis by simp
qed

lemma session_sees_frames_witness:
  "\<exists>q. read_session bob_env 8192 (\<lambda>_. bob_tick) 3 [[0xFF], [0x25, 8, 0, 1, 2], [3, 4, 0xFF, 0, 4], [0]] (rb_new, 0, bob_new, bob_world) =
     Some (q, serve_all bob_env (\<lambda>_. bob_tick) [\<lparr>fr_id = 0x25, fr_body = [1, 2, 3, 4]\<rparr>, frame_empty 0] (0, bob_new, bob_world))"
  by (rule session_sees_frames)
    (simp_all add: encode_frame_def wire_len_def HEADER_LEN_def frame_empty_def le_bytes_numeral MAGIC_def
      bob_new_def session_new_def)

end
