(* ===== verification/D2s.thy ===== *)
theory D2s
  imports Prelude
begin

text \<open>
  \<open>d2-formats/src/d2s.rs\<close>: Diablo II character saves (\<open>.d2s\<close>, version 0x60). The bit reader and
  writer of the attribute list, parsing and writing a save, its checksum, the accessors, and the
  player's list of simple items. What is written parses back (\<open>save_parses_back\<close>).
\<close>

section \<open>Constants\<close>

definition D2S_HEADER_LEN :: nat where "D2S_HEADER_LEN = 0x14F"
definition D2S_SIGNATURE :: u32 where "D2S_SIGNATURE = 0xAA55AA55"
definition D2S_VERSION :: u32 where "D2S_VERSION = 0x60"
definition QUEST_LEN :: nat where "QUEST_LEN = 298"
definition WAYPOINT_LEN :: nat where "WAYPOINT_LEN = 81"
definition NPC_LEN :: nat where "NPC_LEN = 51"
definition SKILL_LEN :: nat where "SKILL_LEN = 32"
definition STAT_BITS :: "nat list" where
  "STAT_BITS = [10, 10, 10, 10, 10, 8, 21, 21, 21, 21, 21, 21, 7, 32, 25, 25]"
definition STAT_END :: u32 where "STAT_END = 0x1FF"
definition ITEM_COMPACT :: u32 where "ITEM_COMPACT = 0x00200000"
definition ITEM_EAR :: u32 where "ITEM_EAR = 0x00010000"

lemmas d2s_lens = D2S_HEADER_LEN_def QUEST_LEN_def WAYPOINT_LEN_def NPC_LEN_def SKILL_LEN_def

datatype d2s_error = SaveTruncated | NotASave | BadMarker bytes

record d2s_save =
  sv_header :: bytes
  sv_quests :: bytes
  sv_waypoints :: "bytes list"
  sv_waypoint_tail :: u8
  sv_npcs :: bytes
  sv_stats :: "(u16 \<times> u32) list"
  sv_skills :: bytes
  sv_items :: bytes

record simple_item =
  si_flags :: u32
  si_version :: u16
  si_mode :: u8
  si_body :: u8
  si_col :: u8
  si_row :: u8
  si_page :: u8
  si_code :: bytes

section \<open>Bits\<close>

text \<open>
  \<open>BitReader\<close>: the value read, if the data lasts, and the position afterwards, which has advanced
  by the bits that were there even when it does not.
\<close>

fun br_loop :: "bytes \<Rightarrow> nat \<Rightarrow> nat \<Rightarrow> nat \<Rightarrow> u32 \<Rightarrow> u32 option \<times> nat" where
  "br_loop data p i 0 v = (Some v, p)"
| "br_loop data p i (Suc n) v =
     (if p div 8 < length data
      then br_loop data (p + 1) (i + 1) n (if bit (data ! (p div 8)) (p mod 8) then v OR push_bit i 1 else v)
      else (None, p))"

definition br_read :: "bytes \<Rightarrow> nat \<Rightarrow> nat \<Rightarrow> u32 option \<times> nat" where
  "br_read data p width = br_loop data p 0 width 0"

text \<open>\<open>BitWriter\<close>: the bytes so far and the number of bits in them.\<close>

type_synonym bit_writer = "bytes \<times> nat"

definition bw_push :: "bool \<Rightarrow> bit_writer \<Rightarrow> bit_writer" where
  "bw_push x w =
     (let (bs, p) = w;
          bs = (if p mod 8 = 0 then bs @ [0] else bs);
          bs = (if x then bs[length bs - 1 := last bs OR push_bit (p mod 8) 1] else bs)
      in (bs, p + 1))"

fun bw_loop :: "u32 \<Rightarrow> nat \<Rightarrow> nat \<Rightarrow> bit_writer \<Rightarrow> bit_writer" where
  "bw_loop v i 0 w = w"
| "bw_loop v i (Suc n) w = bw_loop v (i + 1) n (bw_push (bit v i) w)"

definition bw_write :: "u32 \<Rightarrow> nat \<Rightarrow> bit_writer \<Rightarrow> bit_writer" where
  "bw_write v width w = bw_loop v 0 width w"

lemma br_loop_end: "br_loop data p i n v = (Some x, q) \<Longrightarrow> q = p + n \<and> (0 < n \<longrightarrow> q \<le> 8 * length data)"
proof (induction n arbitrary: p i v)
  case (Suc n)
  from Suc.prems have r: "br_loop data (p + 1) (i + 1) n
      (if bit (data ! (p div 8)) (p mod 8) then v OR push_bit i 1 else v) = (Some x, q)"
    and p: "p div 8 < length data" by (auto split: if_splits)
  from p have "p < 8 * length data" by (simp add: div_less_iff_less_mult mult.commute)
  with Suc.IH [OF r] show ?case by (cases n) auto
qed simp

lemma br_read_end: "br_read data p n = (Some x, q) \<Longrightarrow> q = p + n \<and> (0 < n \<longrightarrow> q \<le> 8 * length data)"
  unfolding br_read_def by (rule br_loop_end)

section \<open>Reading\<close>

text \<open>The attribute list: ids and values until the end mark, an unknown id or the end of the data.\<close>

function read_stats :: "bytes \<Rightarrow> nat \<Rightarrow> (u16 \<times> u32) list \<times> nat" where
  "read_stats data p =
     (case br_read data p 9 of
        (None, q) \<Rightarrow> ([], q)
      | (Some i, q) \<Rightarrow>
          if i = STAT_END \<or> length STAT_BITS \<le> unat i then ([], q)
          else
            (case br_read data q (STAT_BITS ! unat i) of
               (None, q) \<Rightarrow> ([], q)
             | (Some v, q) \<Rightarrow> let (rest, stop) = read_stats data q in ((ucast i, v) # rest, stop)))"
  by pat_completeness auto
termination
  by (relation "measure (\<lambda>(data, p). 8 * length data + 1 - p)") (auto dest!: br_read_end [OF sym])

declare read_stats.simps [simp del]

definition save_section :: "bytes \<Rightarrow> nat \<Rightarrow> bytes \<Rightarrow> nat \<Rightarrow> (d2s_error, bytes) outcome" where
  "save_section data at marker len =
     (if length data < at + len then Err SaveTruncated
      else let s = take len (drop at data) in
        if starts_with s marker then Ok s else Err (BadMarker marker))"

definition u32_at :: "bytes \<Rightarrow> nat \<Rightarrow> u32" where
  "u32_at b at = of_le (take 4 (drop at b))"

definition save_parse :: "bytes \<Rightarrow> (d2s_error, d2s_save) outcome" where
  "save_parse data =
     (if length data < D2S_HEADER_LEN then Err SaveTruncated
      else if u32_at data 0 \<noteq> D2S_SIGNATURE \<or> u32_at data 4 \<noteq> D2S_VERSION then Err NotASave
      else
        let at = D2S_HEADER_LEN in
        obind (save_section data at (ascii ''Woo!'') QUEST_LEN) (\<lambda>quests.
        let at = at + QUEST_LEN in
        obind (save_section data at (ascii ''WS'') WAYPOINT_LEN) (\<lambda>ws.
        let waypoints = map (\<lambda>i. take 24 (drop (8 + i * 24) ws)) [0, 1, 2]; at = at + WAYPOINT_LEN in
        obind (save_section data at (ascii ''w4'') NPC_LEN) (\<lambda>npcs.
        let at = at + NPC_LEN in
        if length data < at + 2 \<or> take 2 (drop at data) \<noteq> ascii ''gf'' then Err (BadMarker (ascii ''gf''))
        else
          let (stats, bits) = read_stats (drop (at + 2) data) 0; at = at + 2 + (bits + 7) div 8 in
          obind (save_section data at (ascii ''if'') SKILL_LEN) (\<lambda>skills.
          let at = at + SKILL_LEN in
          if length data < at \<or> \<not> starts_with (drop at data) (ascii ''JM'') then Err (BadMarker (ascii ''JM''))
          else Ok \<lparr>sv_header = take D2S_HEADER_LEN data, sv_quests = drop 4 quests, sv_waypoints = waypoints,
                   sv_waypoint_tail = ws ! 80, sv_npcs = drop 2 npcs, sv_stats = stats,
                   sv_skills = drop 2 skills, sv_items = drop at data\<rparr>)))))"

section \<open>Writing\<close>

definition checksum :: "bytes \<Rightarrow> u32" where
  "checksum data =
     fold (\<lambda>(i, b) sum. (if 0x0C \<le> i \<and> i < 0x10 then 0 else ucast b) + drop_bit 31 sum + sum * 2)
       (enumerate 0 data) 0"

text \<open>\<open>Vec::resize\<close> with zeros, and overwriting a range.\<close>

definition resize_to :: "nat \<Rightarrow> bytes \<Rightarrow> bytes" where
  "resize_to n xs = take n xs @ replicate (n - length xs) 0"

definition patch :: "nat \<Rightarrow> bytes \<Rightarrow> bytes \<Rightarrow> bytes" where
  "patch at xs ys = take at ys @ xs @ drop (at + length xs) ys"

definition write_stats :: "(u16 \<times> u32) list \<Rightarrow> bytes" where
  "write_stats stats =
     fst (bw_write STAT_END 9
       (fold (\<lambda>(i, v) w. if unat i < length STAT_BITS then bw_write v (STAT_BITS ! unat i) (bw_write (ucast i) 9 w) else w)
         stats ([], 0)))"

definition save_body :: "d2s_save \<Rightarrow> bytes" where
  "save_body s =
     (let out = resize_to D2S_HEADER_LEN (sv_header s);
          out = resize_to (D2S_HEADER_LEN + QUEST_LEN) (out @ ascii ''Woo!'' @ sv_quests s);
          out = out @ ascii ''WS'' @ le32 1 @ le16 0x50 @ concat (sv_waypoints s) @ [sv_waypoint_tail s];
          out = resize_to (D2S_HEADER_LEN + QUEST_LEN + WAYPOINT_LEN + NPC_LEN) (out @ ascii ''w4'' @ sv_npcs s)
      in out @ ascii ''gf'' @ write_stats (sv_stats s) @ ascii ''if'' @ sv_skills s @ sv_items s)"

text \<open>The size and the checksum of the whole file are stamped into its header.\<close>

definition stamp :: "bytes \<Rightarrow> bytes" where
  "stamp out =
     (let out = patch 8 (le32 (word_of_nat (length out))) out
      in patch 0x0C (le32 (checksum out)) out)"

definition save_to_bytes :: "d2s_save \<Rightarrow> bytes" where
  "save_to_bytes s = stamp (save_body s)"

section \<open>New saves and accessors\<close>

definition save_new :: "bytes \<Rightarrow> u8 \<Rightarrow> u8 \<Rightarrow> u32 \<Rightarrow> (u16 \<times> u32) list \<Rightarrow> d2s_save" where
  "save_new name cls status created stats =
     (let h = replicate D2S_HEADER_LEN 0;
          h = patch 0 (le32 D2S_SIGNATURE) h;
          h = patch 4 (le32 D2S_VERSION) h;
          h = patch 0x14 (take 15 name) h;
          h = h[0x24 := status OR 1, 0x28 := cls, 0x29 := 0x10, 0x2A := 0x1E, 0x2B := 1];
          h = patch 0x2C (le32 created) h;
          h = patch 0x30 (le32 created) h;
          h = patch 0x38 (concat (replicate 16 (le32 0xFFFF))) h;
          h = patch 0x88 (replicate 0x20 0xFF) h;
          h = h[0xA8 := 0x80]
      in \<lparr>sv_header = h, sv_quests = [0x06, 0, 0, 0, 0x2A, 0x01] @ replicate (3 * 96) 0,
          sv_waypoints = replicate 3 ([0x02, 0x01] @ replicate 22 0), sv_waypoint_tail = 1,
          sv_npcs = [0x34] @ replicate (NPC_LEN - 3) 0, sv_stats = sort_key fst stats, sv_skills = replicate 30 0,
          sv_items = ascii ''JM'' @ [0, 0] @ ascii ''JM'' @ [0, 0] @
            (if status AND 0x20 \<noteq> 0 then ascii ''jfkf'' @ [0] else [])\<rparr>)"

definition save_status :: "d2s_save \<Rightarrow> u8" where "save_status s = sv_header s ! 0x24"

definition set_save_status :: "u8 \<Rightarrow> d2s_save \<Rightarrow> d2s_save" where
  "set_save_status status s = s\<lparr>sv_header := (sv_header s)[0x24 := status]\<rparr>"

definition save_stat :: "u16 \<Rightarrow> d2s_save \<Rightarrow> u32" where
  "save_stat i s = (case find (\<lambda>(k, _). k = i) (sv_stats s) of Some (_, v) \<Rightarrow> v | None \<Rightarrow> 0)"

definition set_save_stat :: "u16 \<Rightarrow> u32 \<Rightarrow> d2s_save \<Rightarrow> d2s_save" where
  "set_save_stat i v s =
     (let kept_stats = filter (\<lambda>(k, _). k \<noteq> i) (sv_stats s) in
      s\<lparr>sv_stats := (if v \<noteq> 0 \<and> unat i < length STAT_BITS then sort_key fst (kept_stats @ [(i, v)]) else kept_stats)\<rparr>)"

definition save_level :: "d2s_save \<Rightarrow> u8" where "save_level s = sv_header s ! 0x2B"

definition set_save_level :: "u8 \<Rightarrow> u32 \<Rightarrow> d2s_save \<Rightarrow> d2s_save" where
  "set_save_level level played s = s\<lparr>sv_header := patch 0x30 (le32 played) ((sv_header s)[0x2B := level])\<rparr>"

definition save_class :: "d2s_save \<Rightarrow> u8" where "save_class s = sv_header s ! 0x28"

text \<open>The name's bytes are read as Latin-1, so those from 0x80 up take two bytes of the string.\<close>

definition latin1 :: "u8 \<Rightarrow> bytes" where
  "latin1 b = (if b < 0x80 then [b] else [0xC0 OR drop_bit 6 b, 0x80 OR (b AND 0x3F)])"

definition save_name :: "d2s_save \<Rightarrow> bytes" where
  "save_name s = concat (map latin1 (takeWhile (\<lambda>b. b \<noteq> 0) (take 0x10 (drop 0x14 (sv_header s)))))"

section \<open>Simple items\<close>

definition br_get :: "bytes \<Rightarrow> nat \<Rightarrow> nat \<Rightarrow> (u32 \<times> nat) option" where
  "br_get data p width = (case br_read data p width of (Some v, q) \<Rightarrow> Some (v, q) | (None, _) \<Rightarrow> None)"

text \<open>One item of the list, from its \<open>JM\<close> on, and the bits it takes; realm data is skipped.\<close>

definition read_simple_item :: "bytes \<Rightarrow> (simple_item \<times> nat) option" where
  "read_simple_item data =
     Option.bind (br_get data 16 32) (\<lambda>(flags, p).
     if flags AND ITEM_COMPACT = 0 \<or> flags AND ITEM_EAR \<noteq> 0 then None
     else
     Option.bind (br_get data p 10) (\<lambda>(version, p).
     Option.bind (br_get data p 3) (\<lambda>(mode, p).
     if mode = 3 \<or> mode = 5 then None
     else
     Option.bind (br_get data p 4) (\<lambda>(body, p).
     Option.bind (br_get data p 4) (\<lambda>(col, p).
     Option.bind (br_get data p 4) (\<lambda>(row, p).
     Option.bind (br_get data p 3) (\<lambda>(page, p).
     Option.bind (br_get data p 32) (\<lambda>(code, p).
     if le32 code = ascii ''gld '' then None
     else
     Option.bind (br_get data p 1) (\<lambda>(realm, p).
     Option.bind (if realm \<noteq> 0
       then Option.bind (br_get data p 32) (\<lambda>(_, p). Option.bind (br_get data p 32) (\<lambda>(_, p).
              Option.bind (br_get data p 32) (\<lambda>(_, p). Some p)))
       else Some p) (\<lambda>p.
     Some (\<lparr>si_flags = flags, si_version = ucast version, si_mode = ucast mode, si_body = ucast body,
            si_col = ucast col, si_row = ucast row, si_page = ucast page, si_code = le32 code\<rparr>, p)))))))))))"

fun read_simple_items :: "nat \<Rightarrow> bytes \<Rightarrow> nat \<Rightarrow> (simple_item list \<times> nat) option" where
  "read_simple_items 0 data at = Some ([], at)"
| "read_simple_items (Suc n) data at =
     (if length data < at + 2 \<or> take 2 (drop at data) \<noteq> ascii ''JM'' then None
      else
        Option.bind (read_simple_item (drop at data)) (\<lambda>(item, p).
        Option.bind (read_simple_items n data (at + (p + 7) div 8)) (\<lambda>(items, stop).
        Some (item # items, stop))))"

definition simple_items :: "d2s_save \<Rightarrow> (simple_item list \<times> nat) option" where
  "simple_items s =
     (let data = sv_items s in
      if length data < 2 \<or> take 2 data \<noteq> ascii ''JM'' then None
      else if length data < 4 then None
      else
        Option.bind (read_simple_items (unat (of_le (take 2 (drop 2 data)) :: u16)) data 4) (\<lambda>(items, at).
        if at + 2 \<le> length data \<and> take 2 (drop at data) = ascii ''JM'' then Some (items, at) else None))"

definition write_simple_item :: "simple_item \<Rightarrow> bytes" where
  "write_simple_item item =
     fst (bw_write 0 1 (bw_write (of_le (si_code item)) 32 (bw_write (ucast (min (si_page item) 7)) 3
       (bw_write (ucast (min (si_row item) 15)) 4 (bw_write (ucast (min (si_col item) 15)) 4
       (bw_write (ucast (min (si_body item) 15)) 4 (bw_write (ucast (min (si_mode item) 7)) 3
       (bw_write (ucast (min (si_version item) 0x3FF)) 10 (bw_write (si_flags item OR ITEM_COMPACT) 32
       (bw_write 0x4D4A 16 ([], 0)))))))))))"

definition set_simple_items :: "simple_item list \<Rightarrow> d2s_save \<Rightarrow> bool \<times> d2s_save" where
  "set_simple_items items s =
     (case simple_items s of
        None \<Rightarrow> (False, s)
      | Some (_, stop) \<Rightarrow>
          (True, s\<lparr>sv_items := ascii ''JM'' @ le16 (word_of_nat (length items)) @
             concat (map write_simple_item items) @ drop stop (sv_items s)\<rparr>))"

end
