(* ===== verification/D2s_Rules.thy ===== *)
theory D2s_Rules
  imports D2s
begin

text \<open>
  Diablo II saves: what the bit writer writes the bit reader reads, the attribute list comes back
  as it was written, and so does a whole save.
\<close>

section \<open>Bits\<close>

definition bits_of :: "bytes \<Rightarrow> bool list" where
  "bits_of bs = concat (map (\<lambda>b. map (bit b) [0..<8]) bs)"

lemma bits_of_simps [simp]: "bits_of [] = []" "bits_of (b # bs) = map (bit b) [0..<8] @ bits_of bs"
  "bits_of (xs @ ys) = bits_of xs @ bits_of ys"
  by (simp_all add: bits_of_def)

lemma length_bits_of [simp]: "length (bits_of bs) = 8 * length bs"
  by (induction bs) simp_all

lemma nth_bits_of: "i < 8 * length bs \<Longrightarrow> bits_of bs ! i = bit (bs ! (i div 8)) (i mod 8)"
proof (induction bs arbitrary: i)
  case (Cons b bs)
  show ?case
  proof (cases "i < 8")
    case False
    then have i: "i div 8 = Suc ((i - 8) div 8)" "i mod 8 = (i - 8) mod 8"
      by (simp_all add: le_div_geq le_mod_geq)
    show ?thesis using False Cons by (simp add: i nth_append)
  qed (simp add: nth_append)
qed simp

lemma bits_of_set:
  assumes "k < length bs" and "m < 8"
  shows "bits_of (bs[k := bs ! k OR push_bit m 1]) = (bits_of bs)[8 * k + m := True]"
proof (rule nth_equalityI)
  fix i assume "i < length (bits_of (bs[k := bs ! k OR push_bit m 1]))"
  then have i: "i < 8 * length bs" by simp
  have "8 * k + m = i \<longleftrightarrow> k = i div 8 \<and> m = i mod 8" using assms(2) by auto
  with i assms show "bits_of (bs[k := bs ! k OR push_bit m 1]) ! i = (bits_of bs)[8 * k + m := True] ! i"
    by (auto simp: nth_bits_of nth_list_update bit_or_iff bit_exp_iff)
qed simp

lemma br_loop_bits:
  "p + n \<le> 8 * length data \<Longrightarrow>
   \<exists>x. br_loop data p i n v = (Some x, p + n) \<and>
     (\<forall>j < 32. bit x j \<longleftrightarrow> bit v j \<or> i \<le> j \<and> j < i + n \<and> bits_of data ! (p + j - i))"
proof (induction n arbitrary: p i v)
  case (Suc n)
  let ?v = "if bit (data ! (p div 8)) (p mod 8) then v OR push_bit i 1 else v"
  have p: "p div 8 < length data" using Suc.prems by (simp add: div_less_iff_less_mult)
  obtain x where x: "br_loop data (p + 1) (i + 1) n ?v = (Some x, p + 1 + n)"
    "\<forall>j < 32. bit x j \<longleftrightarrow> bit ?v j \<or> i + 1 \<le> j \<and> j < i + 1 + n \<and> bits_of data ! (p + 1 + j - (i + 1))"
    using Suc.IH [of "p + 1" "i + 1" ?v] Suc.prems by auto
  have "bit ?v j \<longleftrightarrow> bit v j \<or> j = i \<and> bits_of data ! p" if "j < 32" for j
    using that Suc.prems by (auto simp: nth_bits_of bit_or_iff bit_exp_iff)
  with x(2) have "\<forall>j < 32. bit x j \<longleftrightarrow> bit v j \<or> i \<le> j \<and> j < i + Suc n \<and> bits_of data ! (p + j - i)"
    by (auto simp: le_Suc_eq not_le less_Suc_eq_le)
  with x(1) p show ?case by (intro exI [of _ x]) simp
qed auto

text \<open>A value that the data holds at the position is the one that is read.\<close>

definition value_bits :: "nat \<Rightarrow> u32 \<Rightarrow> bool list" where
  "value_bits w v = map (bit v) [0..<w]"

lemma length_value_bits [simp]: "length (value_bits w v) = w"
  by (simp add: value_bits_def)

lemma high_bits: "unat v < 2 ^ w \<Longrightarrow> bit v j \<Longrightarrow> j < w" for v :: u32
proof -
  assume v: "unat v < 2 ^ w" "bit v j"
  then have "bit (unat v) j" by (simp add: bit_unsigned_iff)
  then have "odd (unat v div 2 ^ j)" by (simp add: bit_iff_odd)
  then have "2 ^ j \<le> unat v" by (metis div_less even_zero not_le)
  from le_less_trans [OF this v(1)] show "j < w" by simp
qed

lemma br_read_value:
  assumes "bits_of data = pre @ value_bits w v @ post" and "unat v < 2 ^ w" and "w \<le> 32"
  shows "br_read data (length pre) w = (Some v, length pre + w)"
proof -
  have len: "length pre + w \<le> 8 * length data"
    using arg_cong [OF assms(1), of length] by simp
  obtain x where x: "br_loop data (length pre) 0 w 0 = (Some x, length pre + w)"
    "\<forall>j < 32. bit x j \<longleftrightarrow> j < w \<and> bits_of data ! (length pre + j)"
    using br_loop_bits [OF len, of 0 0] by auto
  have "bits_of data ! (length pre + j) = bit v j" if "j < w" for j
    using that by (simp add: assms(1) nth_append value_bits_def)
  then have "x = v"
    using x(2) high_bits [OF assms(2)] by (auto intro!: bit_word_eqI)
  with x(1) show ?thesis by (simp add: br_read_def)
qed

text \<open>The writer's state: the bits written, then zeros to the end of the last byte.\<close>

definition written :: "bit_writer \<Rightarrow> bool list \<Rightarrow> bool" where
  "written w ws \<longleftrightarrow> snd w = length ws \<and> length (fst w) = (length ws + 7) div 8 \<and>
     bits_of (fst w) = ws @ replicate (8 * length (fst w) - length ws) False"

lemma written_Nil [simp]: "written ([], 0) []"
  by (simp add: written_def)

lemma byte_count: "(n + 7) div 8 = (if n mod 8 = 0 then n div 8 else n div 8 + 1)" for n :: nat
  by presburger

lemma byte_count_Suc: "(Suc n + 7) div 8 = n div 8 + 1" for n :: nat
  by presburger

lemma bw_step:
  assumes "written w ws"
  shows "written (bw_push x w) (ws @ [x])"
proof -
  obtain bs p where w: "w = (bs, p)" by fastforce
  define bs' where "bs' = (if p mod 8 = 0 then bs @ [0] else bs)"
  have p: "p = length ws" and len: "length bs = (if p mod 8 = 0 then p div 8 else p div 8 + 1)"
    and bits: "bits_of bs = ws @ replicate (8 * length bs - p) False"
    using assms by (auto simp: w written_def byte_count)
  have len': "length bs' = p div 8 + 1" using len by (simp add: bs'_def)
  have full: "8 * (p div 8) = p" if "p mod 8 = 0" using that mult_div_mod_eq [of 8 p] by simp
  have zeros: "map (bit (0 :: u8)) [0..<8] = replicate 8 False" by (rule nth_equalityI) simp_all
  have bits': "bits_of bs' = ws @ replicate (8 * length bs' - p) False"
  proof (cases "p mod 8 = 0")
    case True
    then have "bits_of bs = ws" "8 * length bs' - p = 8" using bits len len' full by simp_all
    with True zeros show ?thesis by (simp add: bs'_def)
  qed (use bits in \<open>simp add: bs'_def\<close>)
  define m where "m = p mod 8"
  have pos: "8 * (length bs' - 1) + m = p" using len' by (simp add: m_def)
  have m: "m < 8" by (simp add: m_def)
  have room: "8 * length bs' - p = Suc (8 * length bs' - (p + 1))" using pos m len' by linarith
  have "last bs' = bs' ! (length bs' - 1)" using len' by (intro last_conv_nth) auto
  then have "bits_of (bs'[length bs' - 1 := last bs' OR push_bit m 1]) = (bits_of bs')[p := True]"
    using bits_of_set [of "length bs' - 1" bs' m] len' pos m by (simp del: push_bit_of_1)
  then have set: "bits_of (bs'[length bs' - 1 := last bs' OR push_bit m 1]) = (ws @ [True]) @ replicate (8 * length bs' - (p + 1)) False"
    unfolding bits' room by (simp add: p list_update_append)
  have len'': "length bs' = (Suc (length ws) + 7) div 8" unfolding byte_count_Suc using len' p by simp
  have push: "bw_push x w = (if x then bs'[length bs' - 1 := last bs' OR push_bit m 1] else bs', p + 1)"
    by (simp add: bw_push_def w bs'_def m_def Let_def)
  show ?thesis
    unfolding push written_def using set bits' room p len'' by (cases x) (simp_all del: push_bit_of_1)
qed

lemma written_ex: "written w ws \<Longrightarrow> \<exists>n. written (fst w, n) ws"
  by (cases w) auto

lemma bw_loop_written:
  "written w ws \<Longrightarrow> written (bw_loop v i n w) (ws @ map (bit v) [i..<i + n])"
proof (induction n arbitrary: i w ws)
  case (Suc n)
  have "[i..<i + Suc n] = i # [i + 1..<i + 1 + n]" by (simp add: upt_conv_Cons del: upt_Suc)
  with Suc.IH [OF bw_step [OF Suc.prems], of "i + 1" "bit v i"] show ?case by (simp del: upt_Suc)
qed simp

lemma bw_write_written: "written w ws \<Longrightarrow> written (bw_write v n w) (ws @ value_bits n v)"
  unfolding bw_write_def value_bits_def using bw_loop_written [of w ws v 0 n] by simp

section \<open>The attribute list\<close>

definition stat_ok :: "u16 \<times> u32 \<Rightarrow> bool" where
  "stat_ok e \<longleftrightarrow> unat (fst e) < length STAT_BITS \<and> unat (snd e) < 2 ^ (STAT_BITS ! unat (fst e))"

definition stat_bits :: "(u16 \<times> u32) list \<Rightarrow> bool list" where
  "stat_bits stats = concat (map (\<lambda>(i, v). value_bits 9 (ucast i) @ value_bits (STAT_BITS ! unat i) v) stats)"

lemma length_STAT_BITS [simp]: "length STAT_BITS = 16"
  by (simp add: STAT_BITS_def)

lemma stat_width: "i < 16 \<Longrightarrow> 0 < STAT_BITS ! i \<and> STAT_BITS ! i \<le> 32"
proof -
  have "\<forall>w \<in> set STAT_BITS. 0 < w \<and> w \<le> 32" by (simp add: STAT_BITS_def)
  then show "i < 16 \<Longrightarrow> 0 < STAT_BITS ! i \<and> STAT_BITS ! i \<le> 32" by (simp add: set_conv_nth) blast
qed

lemma write_stats_written:
  assumes "list_all stat_ok stats"
  shows "\<exists>n. written (write_stats stats, n) (stat_bits stats @ value_bits 9 STAT_END)"
proof -
  have "written (fold (\<lambda>(i, v) w. if unat i < length STAT_BITS
      then bw_write v (STAT_BITS ! unat i) (bw_write (ucast i) 9 w) else w) stats w) (ws @ stat_bits stats)"
    if "written w ws" for w ws
    using assms that
  proof (induction stats arbitrary: w ws)
    case (Cons e es)
    obtain i v where e: "e = (i, v)" by fastforce
    from Cons.prems have "unat i < 16" by (simp add: e stat_ok_def)
    with Cons.IH [OF _ bw_write_written [OF bw_write_written [OF Cons.prems(2)]]] Cons.prems(1) show ?case
      by (simp add: e stat_bits_def)
  qed (simp add: stat_bits_def)
  from written_ex [OF bw_write_written [OF this [OF written_Nil], of STAT_END 9]] show ?thesis
    by (simp add: write_stats_def)
qed

lemma id_value: "unat (ucast i :: u32) = unat i" for i :: u16
  using unsigned_less [of i, where ?'a = nat] by (simp add: unsigned_ucast_eq take_bit_nat_eq_self)

lemma read_stats_back:
  assumes "list_all stat_ok stats" and "bits_of data = pre @ stat_bits stats @ value_bits 9 STAT_END @ post"
  shows "read_stats data (length pre) = (stats, length pre + length (stat_bits stats) + 9)"
  using assms
proof (induction stats arbitrary: pre)
  case Nil
  then have "bits_of data = pre @ value_bits 9 STAT_END @ post" by (simp add: stat_bits_def)
  from br_read_value [OF this] show ?case
    by (subst read_stats.simps) (simp add: STAT_END_def stat_bits_def)
next
  case (Cons e es)
  obtain i v where e: "e = (i, v)" by fastforce
  from Cons.prems(1) have i: "unat i < 16" and v: "unat v < 2 ^ (STAT_BITS ! unat i)" by (simp_all add: e stat_ok_def)
  let ?w = "STAT_BITS ! unat i" and ?id = "ucast i :: u32"
  have data: "bits_of data = pre @ value_bits 9 ?id @ value_bits ?w v @ stat_bits es @ value_bits 9 STAT_END @ post"
    using Cons.prems(2) by (simp add: e stat_bits_def)
  have 1: "br_read data (length pre) 9 = (Some ?id, length pre + 9)"
    using br_read_value [OF data] i by (simp add: id_value)
  have 2: "br_read data (length pre + 9) ?w = (Some v, length pre + 9 + ?w)"
    using br_read_value [of data "pre @ value_bits 9 ?id" ?w v] data v stat_width [OF i] by simp
  have 3: "read_stats data (length pre + 9 + ?w) = (es, length pre + 9 + ?w + length (stat_bits es) + 9)"
    using Cons.IH [of "pre @ value_bits 9 ?id @ value_bits ?w v"] Cons.prems(1) data by (simp add: add.assoc)
  have "?id \<noteq> STAT_END" using i by (auto simp: STAT_END_def word_unat_eq_iff id_value)
  moreover have "ucast ?id = i" by (simp add: ucast_down_ucast_id is_down)
  moreover have "length (stat_bits (e # es)) = 9 + ?w + length (stat_bits es)" by (simp add: e stat_bits_def)
  ultimately show ?case
    using 1 2 3 i by (subst read_stats.simps) (simp add: id_value e)
qed

lemma read_write_stats:
  assumes "list_all stat_ok stats"
  shows "\<exists>p. read_stats (write_stats stats @ rest) 0 = (stats, p) \<and> (p + 7) div 8 = length (write_stats stats)"
proof -
  obtain n where w: "written (write_stats stats, n) (stat_bits stats @ value_bits 9 STAT_END)"
    using write_stats_written [OF assms] ..
  then obtain pad where "bits_of (write_stats stats) = stat_bits stats @ value_bits 9 STAT_END @ pad"
    by (auto simp: written_def)
  then have "bits_of (write_stats stats @ rest) = [] @ stat_bits stats @ value_bits 9 STAT_END @ (pad @ bits_of rest)"
    by simp
  from read_stats_back [OF assms this] w show ?thesis by (auto simp: written_def)
qed

section \<open>A whole save\<close>

text \<open>A save whose parts have the sizes of the format.\<close>

definition save_wf :: "d2s_save \<Rightarrow> bool" where
  "save_wf s \<longleftrightarrow> length (sv_header s) = D2S_HEADER_LEN \<and>
     u32_at (sv_header s) 0 = D2S_SIGNATURE \<and> u32_at (sv_header s) 4 = D2S_VERSION \<and>
     length (sv_quests s) = QUEST_LEN - 4 \<and> length (sv_waypoints s) = 3 \<and>
     list_all (\<lambda>b. length b = 24) (sv_waypoints s) \<and> length (sv_npcs s) = NPC_LEN - 2 \<and>
     list_all stat_ok (sv_stats s) \<and> length (sv_skills s) = 30 \<and> starts_with (sv_items s) (ascii ''JM'')"

lemma length_ascii [simp]: "length (ascii x) = length x"
  by (simp add: ascii_def)

lemma resize_exact: "length xs = n \<Longrightarrow> resize_to n xs = xs"
  by (simp add: resize_to_def)

definition save_tail :: "d2s_save \<Rightarrow> bytes" where
  "save_tail s = ascii ''gf'' @ write_stats (sv_stats s) @ ascii ''if'' @ sv_skills s @ sv_items s"

text \<open>The sections one after the other.\<close>

lemma save_body_wf:
  assumes "save_wf s"
  shows "save_body s = sv_header s @ (ascii ''Woo!'' @ sv_quests s) @
    (ascii ''WS'' @ le32 1 @ le16 0x50 @ concat (sv_waypoints s) @ [sv_waypoint_tail s]) @
    (ascii ''w4'' @ sv_npcs s) @ save_tail s"
proof -
  obtain a b c where w: "sv_waypoints s = [a, b, c]" "length a = 24" "length b = 24" "length c = 24"
    using assms by (auto simp: save_wf_def length_Suc_conv numeral_3_eq_3)
  have h: "length (sv_header s) = 335" "length (sv_quests s) = 294" "length (sv_npcs s) = 49"
    using assms by (simp_all add: save_wf_def d2s_lens)
  show ?thesis using h w by (simp add: save_body_def save_tail_def Let_def resize_exact d2s_lens)
qed

lemma stamp_parts:
  assumes "length h = D2S_HEADER_LEN"
  shows "\<exists>x y. stamp (h @ r) = patch 0x0C (le32 x) (patch 8 (le32 y) h) @ r"
proof -
  have p: "patch at ys (h @ r) = patch at ys h @ r" if "at + length ys \<le> length h" for at ys and h :: bytes
    using that by (simp add: patch_def)
  have "patch 8 (le32 y) (h @ r) = patch 8 (le32 y) h @ r" for y
    using assms by (intro p) (simp add: d2s_lens)
  moreover have "patch 0x0C (le32 x) (patch 8 (le32 y) h @ r) = patch 0x0C (le32 x) (patch 8 (le32 y) h) @ r" for x y
    using assms by (intro p) (simp add: d2s_lens patch_def)
  ultimately show ?thesis unfolding stamp_def Let_def by metis
qed

lemma patch_length: "at + length xs \<le> length ys \<Longrightarrow> length (patch at xs ys) = length ys"
  by (simp add: patch_def)

lemma patch_before: "n \<le> at \<Longrightarrow> at \<le> length ys \<Longrightarrow> take n (patch at xs ys) = take n ys"
  by (simp add: patch_def)

lemma save_section_at:
  assumes "length pre = at" and "length s = len" and "starts_with s marker"
  shows "save_section (pre @ s @ post) at marker len = Ok s"
  using assms by (simp add: save_section_def)

text \<open>The checksum does not look at its own field.\<close>

lemma checksum_skips:
  assumes "length xs = length ys" and "\<And>i. i < length xs \<Longrightarrow> \<not> (0x0C \<le> i \<and> i < 0x10) \<Longrightarrow> xs ! i = ys ! i"
  shows "checksum xs = checksum ys"
proof -
  let ?f = "\<lambda>(i, b) sum. (if 0x0C \<le> i \<and> i < 0x10 then 0 else ucast b) + drop_bit 31 sum + sum * 2 :: u32"
  have "fold ?f (enumerate n xs) v = fold ?f (enumerate n ys) v"
    if "length xs = length ys" "\<And>i. i < length xs \<Longrightarrow> \<not> (0x0C \<le> n + i \<and> n + i < 0x10) \<Longrightarrow> xs ! i = ys ! i"
    for n v and xs ys :: bytes
    using that
  proof (induction xs ys arbitrary: n v rule: list_induct2)
    case (Cons x xs y ys)
    have "?f (n, x) v = ?f (n, y) v" using Cons.prems [of 0] by auto
    moreover have "fold ?f (enumerate (Suc n) xs) v' = fold ?f (enumerate (Suc n) ys) v'" for v'
      using Cons.prems [of "Suc i" for i] by (intro Cons.IH) simp
    ultimately show ?case by simp
  qed simp
  from this [of xs ys 0 0] assms show ?thesis by (simp add: checksum_def)
qed

lemma nth_patch: "at + length xs \<le> length ys \<Longrightarrow> i < length ys \<Longrightarrow>
    patch at xs ys ! i = (if at \<le> i \<and> i < at + length xs then xs ! (i - at) else ys ! i)"
  by (auto simp: patch_def nth_append min_def)

lemma patch_twice: "length xs = length zs \<Longrightarrow> at + length xs \<le> length ys \<Longrightarrow> patch at xs (patch at zs ys) = patch at xs ys"
  by (simp add: patch_def)

lemma stamp_again:
  assumes "0x10 \<le> length out"
  shows "stamp (stamp out) = stamp out"
proof -
  define n where "n = le32 (word_of_nat (length out))"
  define a where "a = patch 8 n out"
  have a: "length a = length out" "length n = 4" using assms by (simp_all add: a_def n_def patch_length)
  define b where "b = patch 0x0C (le32 (checksum a)) a"
  have b: "length b = length out" using a assms by (simp add: b_def patch_length)
  have st: "stamp out = b" by (simp add: stamp_def Let_def b_def a_def n_def)
  have nb: "patch 8 n b = b"
  proof (rule nth_equalityI)
    fix i assume i: "i < length (patch 8 n b)"
    then have i: "i < length out" using a b assms by (simp add: patch_length)
    then show "patch 8 n b ! i = b ! i"
      using a b assms by (auto simp: nth_patch b_def) (auto simp: a_def nth_patch)
  qed (use a b assms in \<open>simp add: patch_length\<close>)
  have "checksum b = checksum a"
    by (rule checksum_skips) (use a b assms in \<open>auto simp: b_def nth_patch\<close>)
  moreover have "patch 0x0C (le32 v) b = patch 0x0C (le32 v) a" for v
    using a assms by (simp add: b_def patch_twice)
  ultimately have "stamp b = b" using nb b by (simp add: stamp_def Let_def n_def b_def)
  then show ?thesis by (simp only: st)
qed

text \<open>Saving and loading again.\<close>

lemma save_reads_back:
  assumes "save_wf s"
  shows "\<exists>h. save_parse (save_to_bytes s) = Ok (s\<lparr>sv_header := h\<rparr>) \<and>
    take 8 h = take 8 (sv_header s) \<and> drop 16 h = drop 16 (sv_header s) \<and>
    save_to_bytes (s\<lparr>sv_header := h\<rparr>) = save_to_bytes s"
proof -
  have len: "length (sv_header s) = 335" "length (sv_quests s) = 294" "length (sv_npcs s) = 49"
      "length (sv_skills s) = 30"
    and stats: "list_all stat_ok (sv_stats s)" and jm: "starts_with (sv_items s) (ascii ''JM'')"
    using assms by (simp_all add: save_wf_def d2s_lens)
  obtain a b c where w: "sv_waypoints s = [a, b, c]" "length a = 24" "length b = 24" "length c = 24"
    using assms by (auto simp: save_wf_def length_Suc_conv numeral_3_eq_3)
  let ?q = "ascii ''Woo!'' @ sv_quests s"
  let ?w = "ascii ''WS'' @ le32 1 @ le16 0x50 @ (a @ b @ c) @ [sv_waypoint_tail s]"
  let ?n = "ascii ''w4'' @ sv_npcs s" and ?k = "ascii ''if'' @ sv_skills s"
  let ?t = "save_tail s"
  obtain x y where st: "save_to_bytes s = patch 0x0C (le32 x) (patch 8 (le32 y) (sv_header s)) @ ?q @ ?w @ ?n @ ?t"
    using stamp_parts [of "sv_header s" "?q @ ?w @ ?n @ ?t"] len w
    by (auto simp: save_to_bytes_def save_body_wf [OF assms] d2s_lens)
  define h where "h = patch 0x0C (le32 x) (patch 8 (le32 y) (sv_header s))"
  have h: "length h = 335" using len by (simp add: h_def patch_length)
  have h8: "take 8 h = take 8 (sv_header s)" using len by (simp add: h_def patch_def)
  have h16: "drop 16 h = drop 16 (sv_header s)" using len by (simp add: h_def patch_def)
  have data: "save_to_bytes s = h @ ?q @ ?w @ ?n @ ?t" unfolding st h_def ..
  have ids: "u32_at (save_to_bytes s) 0 = D2S_SIGNATURE" "u32_at (save_to_bytes s) 4 = D2S_VERSION"
  proof -
    have "take 4 h = take 4 (sv_header s)" "take 4 (drop 4 h) = take 4 (drop 4 (sv_header s))"
      using arg_cong [OF h8, of "take 4"] arg_cong [OF h8, of "drop 4"] by (simp_all add: drop_take)
    with assms h show "u32_at (save_to_bytes s) 0 = D2S_SIGNATURE" "u32_at (save_to_bytes s) 4 = D2S_VERSION"
      by (simp_all add: data u32_at_def save_wf_def)
  qed
  have q: "save_section (save_to_bytes s) 335 (ascii ''Woo!'') 298 = Ok ?q"
    unfolding data by (rule save_section_at) (use h len in \<open>simp_all add: starts_with_def\<close>)
  have ws: "save_section (save_to_bytes s) 633 (ascii ''WS'') 81 = Ok ?w"
    using save_section_at [of "h @ ?q" 633 ?w 81 "ascii ''WS''" "?n @ ?t"] h len w by (simp add: data starts_with_def)
  have n: "save_section (save_to_bytes s) 714 (ascii ''w4'') 51 = Ok ?n"
    using save_section_at [of "h @ ?q @ ?w" 714 ?n 51 "ascii ''w4''" ?t] h len w by (simp add: data starts_with_def)
  let ?r = "write_stats (sv_stats s)"
  have at765: "drop 765 (save_to_bytes s) = ascii ''gf'' @ ?r @ ?k @ sv_items s"
    using h len w by (simp add: data save_tail_def)
  then have gf: "take 2 (drop 765 (save_to_bytes s)) = ascii ''gf''" by simp
  have at767: "drop 767 (save_to_bytes s) = ?r @ ?k @ sv_items s"
    using h len w by (simp add: data save_tail_def)
  obtain p where p: "read_stats (?r @ ?k @ sv_items s) 0 = (sv_stats s, p)" "(p + 7) div 8 = length ?r"
    using read_write_stats [OF stats] by blast
  have pre: "save_to_bytes s = (h @ ?q @ ?w @ ?n @ ascii ''gf'' @ ?r) @ ?k @ sv_items s"
    by (simp add: data save_tail_def)
  have k: "save_section (save_to_bytes s) (767 + length ?r) (ascii ''if'') 32 = Ok ?k"
    unfolding pre by (rule save_section_at) (use h len w in \<open>simp_all add: starts_with_def\<close>)
  define front where "front = h @ ?q @ ?w @ ?n @ ascii ''gf'' @ ?r @ ?k"
  have front: "save_to_bytes s = front @ sv_items s" "length front = 767 + length ?r + 32"
    using h len w by (simp_all add: pre front_def)
  then have items: "drop (767 + length ?r + 32) (save_to_bytes s) = sv_items s"
    and total: "length (save_to_bytes s) = 767 + length ?r + 32 + length (sv_items s)"
    by (simp_all del: add_Suc_right)
  have whole: "take 335 (save_to_bytes s) = h" using h by (simp add: data)
  have blocks: "map (\<lambda>i. take 24 (drop (8 + i * 24) ?w)) [0, 1, 2] = sv_waypoints s" "?w ! 80 = sv_waypoint_tail s"
    using w by (simp_all add: nth_append)
  have tails: "drop 4 ?q = sv_quests s" "drop 2 ?n = sv_npcs s" "drop 2 ?k = sv_skills s" by simp_all
  define D where "D = save_to_bytes s"
  define W where "W = ?w"
  have parsed: "save_parse D = Ok (s\<lparr>sv_header := h\<rparr>)"
    unfolding save_parse_def d2s_lens
    using ids q ws n gf at767 p k items total whole blocks tails jm
    unfolding D_def [symmetric] W_def [symmetric]
    by (simp add: Let_def del: map_append drop_append take_append append_assoc)
  have "save_to_bytes (s\<lparr>sv_header := h\<rparr>) = save_to_bytes s"
  proof -
    have "save_wf (s\<lparr>sv_header := h\<rparr>)"
      using assms h ids by (simp add: save_wf_def d2s_lens data u32_at_def)
    then have "save_body (s\<lparr>sv_header := h\<rparr>) = save_to_bytes s"
      by (simp add: save_body_wf data w save_tail_def)
    moreover have "16 \<le> length (save_body s)" using len by (simp add: save_body_wf [OF assms])
    ultimately show ?thesis by (simp add: save_to_bytes_def stamp_again)
  qed
  with h8 h16 parsed [unfolded D_def] show ?thesis by blast
qed

text \<open>C22
  A character save is not changed by saving and loading. What is written of any save with parts of
  the right sizes parses back to the same save, except for the eight header bytes that hold the
  size and the checksum; and written again, it gives the same bytes.
\<close>

theorem save_parses_back:
  assumes "save_wf s"
  shows "\<exists>h. save_parse (save_to_bytes s) = Ok (s\<lparr>sv_header := h\<rparr>) \<and>
    take 8 h = take 8 (sv_header s) \<and> drop 16 h = drop 16 (sv_header s) \<and>
    save_to_bytes (s\<lparr>sv_header := h\<rparr>) = save_to_bytes s"
  by (rule save_reads_back [OF assms])

text \<open>New saves have the sizes, and so does whatever parses.\<close>

lemma take_update_before: "n \<le> i \<Longrightarrow> take n (xs[i := x]) = take n xs"
  by simp

lemma save_new_wf:
  assumes "list_all stat_ok stats"
  shows "save_wf (save_new name cls status created stats)"
proof -
  define h0 where "h0 = patch 4 (le32 D2S_VERSION) (patch 0 (le32 D2S_SIGNATURE) (replicate D2S_HEADER_LEN 0))"
  have h0: "length h0 = 335" by (simp add: h0_def patch_length d2s_lens)
  have sig: "u32_at h0 0 = D2S_SIGNATURE" "u32_at h0 4 = D2S_VERSION"
    by (simp_all add: h0_def u32_at_def patch_def d2s_lens)
  define h where "h = sv_header (save_new name cls status created stats)"
  have len: "length h = 335" and same: "take 8 h = take 8 h0"
    using h0 by (simp_all add: h_def save_new_def Let_def patch_length patch_before h0_def [symmetric]
      length_concat sum_list_replicate map_replicate)
  have "take 4 (drop 0 h) = take 4 (drop 0 h0)" "take 4 (drop 4 h) = take 4 (drop 4 h0)"
    using arg_cong [OF same, of "take 4"] arg_cong [OF same, of "drop 4"] by (simp_all add: drop_take)
  with sig have "u32_at h 0 = D2S_SIGNATURE" "u32_at h 4 = D2S_VERSION" by (simp_all add: u32_at_def)
  moreover have "list_all stat_ok (sort_key fst stats)" using assms by (simp add: list_all_iff)
  ultimately show ?thesis
    using len unfolding save_wf_def h_def [symmetric]
    by (simp add: save_new_def Let_def d2s_lens starts_with_def numeral_3_eq_3)
qed

lemma br_loop_small:
  "br_loop data p i n v = (Some x, q) \<Longrightarrow> unat v < 2 ^ i \<Longrightarrow> i + n \<le> 32 \<Longrightarrow> unat x < 2 ^ (i + n)"
proof (induction n arbitrary: p i v)
  case (Suc n)
  let ?v = "if bit (data ! (p div 8)) (p mod 8) then v OR push_bit i 1 else v"
  have "take_bit (Suc i) ?v = ?v"
  proof (rule bit_word_eqI)
    fix j assume "j < LENGTH(32)"
    then show "bit (take_bit (Suc i) ?v) j = bit ?v j"
      using high_bits [OF Suc.prems(2), of j] by (auto simp: bit_take_bit_iff bit_or_iff bit_exp_iff)
  qed
  from arg_cong [OF this, of unat] have "take_bit (Suc i) (unat ?v) = unat ?v" by (simp only: unsigned_take_bit_eq)
  then have "unat ?v < 2 ^ Suc i" by (simp only: take_bit_nat_eq_self_iff)
  with Suc.IH [of "p + 1" "i + 1" ?v] Suc.prems show ?case by (auto split: if_splits)
qed simp

lemma br_read_small: "br_read data p n = (Some x, q) \<Longrightarrow> n \<le> 32 \<Longrightarrow> unat x < 2 ^ n"
  using br_loop_small [of data p 0 n 0 x q] by (simp add: br_read_def)

lemma read_stats_ok: "list_all stat_ok (fst (read_stats data p))"
proof (induction data p rule: read_stats.induct)
  case (1 data p)
  show ?case
  proof (cases "br_read data p 9")
    case (Pair r q)
    show ?thesis
    proof (cases r)
      case (Some i)
      show ?thesis
      proof (cases "i = STAT_END \<or> 16 \<le> unat i")
        case False
        obtain r' q' where r': "br_read data q (STAT_BITS ! unat i) = (r', q')" by fastforce
        show ?thesis
        proof (cases r')
          case (Some v)
          have i: "unat (ucast i :: u16) = unat i" using False by (simp add: unsigned_ucast_eq take_bit_nat_eq_self)
          have "stat_ok (ucast i, v)"
            using br_read_small [OF r' [unfolded Some]] stat_width [of "unat i"] False by (simp add: stat_ok_def i)
          with "1.IH" [OF Pair [symmetric] \<open>r = Some i\<close>] False r' Some Pair \<open>r = Some i\<close> show ?thesis
            by (subst read_stats.simps) (auto split: prod.split)
        qed (use False r' Pair Some in \<open>subst read_stats.simps; simp\<close>)
      qed (use Pair Some in \<open>subst read_stats.simps; simp\<close>)
    qed (use Pair in \<open>subst read_stats.simps; simp\<close>)
  qed
qed

lemma save_section_Ok: "save_section data at m len = Ok s \<Longrightarrow> length s = len \<and> at + len \<le> length data"
  by (auto simp: save_section_def Let_def split: if_splits)

lemma save_parse_wf:
  assumes "save_parse data = Ok s"
  shows "save_wf s"
proof -
  have "list_all stat_ok (sv_stats s)"
    using assms read_stats_ok [of "drop (D2S_HEADER_LEN + QUEST_LEN + WAYPOINT_LEN + NPC_LEN + 2) data" 0]
    by (auto simp: save_parse_def Let_def obind_Ok_conv add.assoc split: if_splits prod.splits)
  moreover have "save_wf (s\<lparr>sv_stats := []\<rparr>)"
    using assms by (auto simp: save_parse_def save_wf_def Let_def obind_Ok_conv u32_at_def d2s_lens drop_take
      split: if_splits prod.splits dest!: save_section_Ok)
  ultimately show ?thesis by (simp add: save_wf_def)
qed

lemma save_parses_back_witness:
  "\<exists>h. save_parse (save_to_bytes (save_new (ascii ''Tester'') 4 0x20 1000 [(0, 30), (13, 1234)])) =
     Ok (save_new (ascii ''Tester'') 4 0x20 1000 [(0, 30), (13, 1234)]\<lparr>sv_header := h\<rparr>)"
proof -
  have "list_all stat_ok [(0, 30), (13, 1234)]" by (simp add: stat_ok_def STAT_BITS_def)
  from save_parses_back [OF save_new_wf [OF this]] show ?thesis by blast
qed

end
