(* ===== verification/Gslink.thy ===== *)
theory Gslink
  imports Buf
begin

text \<open>
  \<open>bnetcc-gslink/src/lib.rs\<close> and \<open>bnetccd/src/gslink.rs\<close>: the link between the realm and its Diablo II
  game server. The messages and their framing (the JSON coder of serde is a parameter), the realm's
  table of the current connection and the requests waiting on it, and the requests the realm makes.
\<close>

section \<open>Messages\<close>

definition MAX_MESSAGE :: nat where "MAX_MESSAGE = 16777216"
definition LINK_VERSION :: u32 where "LINK_VERSION = 2"
definition MIN_VERSION :: u32 where "MIN_VERSION = 1"
definition LOBBY_VERSION :: u32 where "LOBBY_VERSION = 2"

record game_settings =
  gt_description :: bytes
  gt_max_players :: u8
  gt_level_difference :: "u8 option"
  gt_creator_level :: u8
  gt_expansion :: bool
  gt_hardcore :: bool
  gt_ladder :: bool

record lobby_player =
  lp_name :: bytes
  lp_class :: u8
  lp_level :: u8

record lobby_game =
  lg_token :: u16
  lg_name :: bytes
  lg_private :: bool
  lg_difficulty :: u8
  lg_settings :: "game_settings option"
  lg_players :: "lobby_player list"
  lg_age_secs :: u64

datatype game_create_error = GameNameTaken | GamesFull
datatype game_join_error = NoSuchGame | BadPassword | GameFull | NoSuchCharacter

record joined_game =
  jg_token :: u16
  jg_hash :: u32

record public_game =
  pg_name :: bytes
  pg_private :: bool
  pg_difficulty :: u8
  pg_players :: nat
  pg_age_secs :: u64

datatype to_game_server =
    Welcome | Refused bytes
  | ToCreate u64 bytes bytes u8
  | ToCreateGame u64 bytes bytes u8 game_settings
  | ToJoin u64 bytes bytes u64 bytes
  | ToListGames u64 | ToGameInfo u64 bytes
  | ToMapGames u64 | ToMapLevel u64 u16 int | ToMapLive u64 u16 int

datatype from_game_server =
    Hello bytes u32
  | Created u64 "(game_create_error, u16) outcome"
  | Joined u64 "(game_join_error, joined_game) outcome"
  | MapReply u64 "bytes option"
  | GamesPushed "public_game list"
  | GameList u64 "lobby_game list"
  | GameInfo u64 "lobby_game option"

section \<open>Framing\<close>

text \<open>
  A message over a stream: what the stream still holds, to its end. \<open>Ok None\<close> is the clean end; an
  I/O error of the socket itself is not modelled.
\<close>

datatype link_io_error = MessageTooLarge nat | MessageCut | NotTheMessage

definition read_message :: "(bytes \<Rightarrow> 'm option) \<Rightarrow> bytes \<Rightarrow> (link_io_error, 'm option \<times> bytes) outcome" where
  "read_message of_json stream =
     (if length stream < 4 then Ok (None, [])
      else
        let len = unat (of_le (take 4 stream) :: u32); rest = drop 4 stream in
        if len > MAX_MESSAGE then Err (MessageTooLarge len)
        else if length rest < len then Err MessageCut
        else case of_json (take len rest) of
          None \<Rightarrow> Err NotTheMessage
        | Some m \<Rightarrow> Ok (Some m, drop len rest))"

definition write_message :: "('m \<Rightarrow> bytes) \<Rightarrow> 'm \<Rightarrow> (link_io_error, bytes) outcome" where
  "write_message to_json m =
     (let body = to_json m in
      if length body > MAX_MESSAGE then Err (MessageTooLarge (length body))
      else Ok (le32 (word_of_nat (length body)) @ body))"

definition token_matches :: "bytes \<Rightarrow> bytes \<Rightarrow> bool" where
  "token_matches expected offered \<longleftrightarrow>
     \<not> (expected = [] \<or> length expected \<noteq> length offered) \<and>
     fold (\<lambda>(x, y) acc. acc OR (x XOR y)) (zip expected offered) 0 = 0"

section \<open>The realm's end\<close>

text \<open>
  The current connection (its generation and the version it said hello with), the counters, the
  ids of the requests that wait for a reply, the replies handed to their waiters, and the list of
  games last pushed.
\<close>

record game_server_link =
  gk_token :: bytes
  gk_current :: "(u64 \<times> u32) option"
  gk_generation :: u64
  gk_next_id :: u64
  gk_pending :: "u64 fset"
  gk_answered :: "(u64, from_game_server) fmap"
  gk_games :: "public_game list"

definition link_new :: "bytes \<Rightarrow> game_server_link" where
  "link_new token = \<lparr>gk_token = token, gk_current = None, gk_generation = 0, gk_next_id = 0,
     gk_pending = {||}, gk_answered = fmempty, gk_games = []\<rparr>"

definition link_connected :: "game_server_link \<Rightarrow> bool" where
  "link_connected k \<longleftrightarrow> gk_current k \<noteq> None"

definition link_version :: "game_server_link \<Rightarrow> u32 option" where
  "link_version k = map_option snd (gk_current k)"

definition link_public_games :: "game_server_link \<Rightarrow> public_game list" where
  "link_public_games k = (if \<not> link_connected k then [] else gk_games k)"

text \<open>What a connection's first message makes of it.\<close>

datatype hello_result = HelloAccepted u32 | HelloRefused bytes | HelloMissing

definition check_hello :: "game_server_link \<Rightarrow> from_game_server option \<Rightarrow> hello_result" where
  "check_hello k m =
     (case m of
        Some (Hello token version) \<Rightarrow>
          if \<not> token_matches (gk_token k) token then HelloRefused (ascii ''wrong token'')
          else if version < MIN_VERSION \<or> LINK_VERSION < version
          then HelloRefused (ascii ''the realm speaks link versions '' @ decimal (unat MIN_VERSION) @ ascii '' to '' @
            decimal (unat LINK_VERSION))
          else HelloAccepted version
      | _ \<Rightarrow> HelloMissing)"

text \<open>An accepted connection replaces the one before; its generation is the result.\<close>

definition link_install :: "u32 \<Rightarrow> game_server_link \<Rightarrow> u64 \<times> game_server_link" where
  "link_install version k =
     (let g = gk_generation k + 1 in (g, k\<lparr>gk_generation := g, gk_current := Some (g, version)\<rparr>))"

fun reply_id :: "from_game_server \<Rightarrow> u64 option" where
  "reply_id (Created i _) = Some i"
| "reply_id (Joined i _) = Some i"
| "reply_id (MapReply i _) = Some i"
| "reply_id (GameList i _) = Some i"
| "reply_id (GameInfo i _) = Some i"
| "reply_id _ = None"

text \<open>A message from a game server: its reply wakes the request that waits for it, once.\<close>

definition link_receive :: "from_game_server \<Rightarrow> game_server_link \<Rightarrow> game_server_link" where
  "link_receive m k =
     (case m of
        GamesPushed games \<Rightarrow> k\<lparr>gk_games := games\<rparr>
      | _ \<Rightarrow>
          (case reply_id m of
             None \<Rightarrow> k
           | Some i \<Rightarrow>
               if i |\<in>| gk_pending k
               then k\<lparr>gk_pending := gk_pending k |-| {|i|}, gk_answered := fmupd i m (gk_answered k)\<rparr>
               else k))"

text \<open>The end of the connection of a generation.\<close>

definition link_closed :: "u64 \<Rightarrow> game_server_link \<Rightarrow> game_server_link" where
  "link_closed g k =
     (case gk_current k of
        Some (h, _) \<Rightarrow> if h = g then k\<lparr>gk_current := None, gk_games := []\<rparr> else k
      | None \<Rightarrow> k)"

text \<open>
  A request: it starts with a new id and a waiter; it ends with the reply its waiter was handed, or
  without one when the deadline passes, and the waiter is gone either way.
\<close>

definition request_start :: "(u64 \<Rightarrow> to_game_server) \<Rightarrow> game_server_link \<Rightarrow>
    (u64 \<times> to_game_server) option \<times> game_server_link" where
  "request_start ask k =
     (if gk_current k = None then (None, k)
      else
        let i = gk_next_id k in
        (Some (i, ask i), k\<lparr>gk_next_id := i + 1, gk_pending := finsert i (gk_pending k)\<rparr>))"

definition request_end :: "u64 \<Rightarrow> game_server_link \<Rightarrow> from_game_server option \<times> game_server_link" where
  "request_end i k =
     (fmlookup (gk_answered k) i,
      k\<lparr>gk_pending := gk_pending k |-| {|i|}, gk_answered := fmdrop i (gk_answered k)\<rparr>)"

section \<open>The realm's requests\<close>

text \<open>
  What the realm sees of the link when it makes a request: the version linked, and what comes back
  (nothing stands for \<open>LinkError::Down\<close>).
\<close>

record linked =
  ln_version :: "u32 option"
  ln_request :: "(u64 \<Rightarrow> to_game_server) \<Rightarrow> from_game_server option"

datatype link_error = LinkDown

definition has_lobby :: "linked \<Rightarrow> bool" where
  "has_lobby k \<longleftrightarrow> (case ln_version k of Some v \<Rightarrow> LOBBY_VERSION \<le> v | None \<Rightarrow> False)"

definition link_create :: "linked \<Rightarrow> bytes \<Rightarrow> bytes \<Rightarrow> u8 \<Rightarrow> game_settings \<Rightarrow>
    (link_error, (game_create_error, u16) outcome) outcome" where
  "link_create k name password difficulty settings =
     (case ln_request k (if has_lobby k then (\<lambda>i. ToCreateGame i name password difficulty settings)
                         else (\<lambda>i. ToCreate i name password difficulty)) of
        Some (Created _ r) \<Rightarrow> Ok r | _ \<Rightarrow> Err LinkDown)"

definition link_list_games :: "linked \<Rightarrow> (link_error, lobby_game list) outcome" where
  "link_list_games k =
     (if ln_version k = None then Err LinkDown
      else if \<not> has_lobby k then Ok []
      else case ln_request k ToListGames of Some (GameList _ games) \<Rightarrow> Ok games | _ \<Rightarrow> Err LinkDown)"

definition link_game_info :: "linked \<Rightarrow> bytes \<Rightarrow> (link_error, lobby_game option) outcome" where
  "link_game_info k name =
     (if ln_version k = None then Err LinkDown
      else if \<not> has_lobby k then Ok None
      else case ln_request k (\<lambda>i. ToGameInfo i name) of Some (GameInfo _ game) \<Rightarrow> Ok game | _ \<Rightarrow> Err LinkDown)"

definition link_join :: "linked \<Rightarrow> bytes \<Rightarrow> bytes \<Rightarrow> u64 \<Rightarrow> bytes \<Rightarrow>
    (link_error, (game_join_error, joined_game) outcome) outcome" where
  "link_join k name password account character =
     (case ln_request k (\<lambda>i. ToJoin i name password account character) of
        Some (Joined _ r) \<Rightarrow> Ok r | _ \<Rightarrow> Err LinkDown)"

definition link_map :: "linked \<Rightarrow> (u64 \<Rightarrow> to_game_server) \<Rightarrow> bytes option" where
  "link_map k ask = (case ln_request k ask of Some (MapReply _ json) \<Rightarrow> json | _ \<Rightarrow> None)"

end
