(* ===== verification/Gslink_Rules.thy ===== *)
theory Gslink_Rules
  imports Gslink
begin

text \<open>
  What the link to the game server promises: a message read is the one written, for any coder that
  reads back what it writes; and in every state the realm's end can reach, a request is woken only
  by a reply with its own id, at most once, and the end of an old connection leaves its successor
  alone.
\<close>

lemma link_message_arrives:
  assumes json: "of_json (to_json m) = Some m" and w: "write_message to_json m = Ok bs"
  shows "read_message of_json (bs @ rest) = Ok (Some m, rest)"
proof -
  define body where "body = to_json m"
  have len: "length body \<le> MAX_MESSAGE" and bs: "bs = le32 (word_of_nat (length body)) @ body"
    using w by (auto simp: write_message_def Let_def body_def split: if_splits)
  have "length body mod 2 ^ 32 = length body" using len by (simp add: MAX_MESSAGE_def)
  then have u: "unat (word_of_nat (length body) :: u32) = length body" by (simp only: unat_of_nat) simp
  have t4: "take 4 (bs @ rest) = le32 (word_of_nat (length body))" and d4: "drop 4 (bs @ rest) = body @ rest"
    by (simp_all add: bs)
  have "unat (of_le (take 4 (bs @ rest)) :: u32) = length body" unfolding t4 of_le32 by (rule u)
  moreover note d4
  moreover have "\<not> length (bs @ rest) < 4" by (simp add: bs)
  ultimately show ?thesis
    using len json by (simp add: read_message_def Let_def body_def [symmetric])
qed

text \<open>The steps of the realm's end, and the states they reach from a new link.\<close>

inductive link_step :: "game_server_link \<Rightarrow> game_server_link \<Rightarrow> bool" where
  step_install: "link_step k (snd (link_install v k))"
| step_receive: "link_step k (link_receive m k)"
| step_closed: "link_step k (link_closed g k)"
| step_start: "link_step k (snd (request_start ask k))"
| step_end: "link_step k (snd (request_end i k))"

inductive link_reached :: "bytes \<Rightarrow> game_server_link \<Rightarrow> bool" for token where
  reached_new: "link_reached token (link_new token)"
| reached_step: "link_reached token k \<Longrightarrow> link_step k k' \<Longrightarrow> link_reached token k'"

definition answers_own :: "game_server_link \<Rightarrow> bool" where
  "answers_own k \<longleftrightarrow> fmpred (\<lambda>i m. reply_id m = Some i) (gk_answered k)"

lemma answers_own_step: "link_step k k' \<Longrightarrow> answers_own k \<Longrightarrow> answers_own k'"
  by (induction rule: link_step.induct)
    (auto simp: answers_own_def link_install_def link_receive_def link_closed_def request_start_def request_end_def
      Let_def split: from_game_server.split option.splits intro: fmpred_upd fmpred_drop)

lemma answers_own_reached: "link_reached token k \<Longrightarrow> answers_own k"
  by (induction rule: link_reached.induct) (auto simp: link_new_def answers_own_def dest: answers_own_step [unfolded answers_own_def])

text \<open>
  A request that ends has its own reply or none, and its waiter and the reply are gone: a second end
  with the id finds nothing.
\<close>

theorem reply_reaches_its_request:
  assumes "link_reached token k" and "request_end i k = (r, k')"
  shows "(case r of Some m \<Rightarrow> reply_id m = Some i | None \<Rightarrow> True) \<and> i |\<notin>| gk_pending k' \<and> fst (request_end i k') = None"
  using answers_own_reached [OF assms(1)] assms(2)
  by (auto simp: request_end_def answers_own_def split: option.split dest: fmpredD)

text \<open>A connection that ends after another took its place changes nothing of the link.\<close>

theorem stale_end_is_harmless:
  assumes "link_install v k = (g, k1)" and "g' \<noteq> g"
  shows "link_closed g' k1 = k1 \<and> link_version k1 = Some v"
  using assms by (auto simp: link_install_def link_closed_def link_version_def Let_def)

text \<open>A version outside the range, or a token that is not the realm's, is refused.\<close>

theorem hello_accepted_exactly:
  "check_hello k (Some (Hello token v)) = HelloAccepted u \<longleftrightarrow>
     u = v \<and> token_matches (gk_token k) token \<and> MIN_VERSION \<le> v \<and> v \<le> LINK_VERSION"
  by (auto simp: check_hello_def not_less split: if_splits)

end
