(* ===== verification/Realm.thy ===== *)
theory Realm
  imports Session Mcp Gslink D2s "HOL-Library.Product_Lexorder"
begin

text \<open>
  \<open>bnetccd/src/realm.rs\<close>: the Diablo II closed realm. A realm connection's state, the ticket that
  starts it, a character's creation, selection, deletion and upgrade, the game lobby over the link
  of \<open>Gslink\<close>, and the ladder. Each handler takes the session and the world and returns its replies
  and whether the connection stays open. \<open>to_lowercase\<close> of Unicode text is a parameter.
\<close>

section \<open>State\<close>

definition STR_MAX :: nat where "STR_MAX = 64"
definition UPGRADE_FAILED :: u32 where "UPGRADE_FAILED = 0x7A"
definition GAMELIST_MAX :: nat where "GAMELIST_MAX = 1000"
definition NO_LEVEL_DIFFERENCE :: u8 where "NO_LEVEL_DIFFERENCE = 100"

record mcp_session =
  mc_ip :: ip_addr
  mc_local :: "(ip_addr \<times> u16) option"
  mc_ticket :: "realm_ticket option"
  mc_selected :: "bytes option"

text \<open>What a realm connection reads and no handler changes.\<close>

record 's realm_env =
  rl_env :: "'s env"
  rl_realm :: d2_realm
  rl_link :: "linked option"
  rl_lower :: "bytes \<Rightarrow> bytes"

type_synonym 's realm_run = "(mcp_frame list \<times> bool) \<times> mcp_session \<times> 's world"

abbreviation realm_ops :: "'s realm_env \<Rightarrow> 's storage_ops" where
  "realm_ops e \<equiv> en_ops (rl_env e)"

definition mcp_frame_new :: "u8 \<Rightarrow> bytes \<Rightarrow> mcp_frame" where
  "mcp_frame_new i body = \<lparr>mf_id = i, mf_body = body\<rparr>"

text \<open>\<open>unwrap_or\<close> of a read: a failed read leaves the reader where it was.\<close>

definition rd_or :: "'a \<Rightarrow> 'a rd \<Rightarrow> reader \<Rightarrow> 'a \<times> reader" where
  "rd_or d m r = (case m r of Ok p \<Rightarrow> p | _ \<Rightarrow> (d, r))"

definition rd_text :: "reader \<Rightarrow> bytes \<times> reader" where
  "rd_text r = (let (s, r) = rd_or [] (rd_cstr STR_MAX) r in (utf8_lossy s, r))"

definition mcp_account :: "mcp_session \<Rightarrow> account_id" where
  "mcp_account s = (case mc_ticket s of Some t \<Rightarrow> na_id (rt_account t) | None \<Rightarrow> 0)"

definition expansion_client :: "mcp_session \<Rightarrow> bool" where
  "expansion_client s \<longleftrightarrow> (case mc_ticket s of Some t \<Rightarrow> rt_product t = D2XP | None \<Rightarrow> False)"

definition has_status :: "d2_character \<Rightarrow> u8 \<Rightarrow> bool" where
  "has_status c b \<longleftrightarrow> c_status c AND b \<noteq> 0"

section \<open>Starting\<close>

definition startup_fields :: "(u32 \<times> u64) rd" where
  "startup_fields =
     rd_bind rd_u32 (\<lambda>cookie. rd_bind rd_u32 (\<lambda>_. rd_bind rd_u32 (\<lambda>lo. rd_bind rd_u32 (\<lambda>hi.
     rd_return (cookie, ucast lo OR push_bit 32 (ucast hi))))))"

definition startup :: "bytes \<Rightarrow> mcp_session \<Rightarrow> 's world \<Rightarrow> 's realm_run" where
  "startup body s w =
     (let ticket = Option.bind (parse startup_fields body) (\<lambda>(cookie, i). realm_ticket_of i cookie (w_node w));
          result = (if ticket \<noteq> None then STARTUP_OK else STARTUP_UNAVAILABLE);
          s = (case ticket of Some t \<Rightarrow> s\<lparr>mc_ticket := Some t\<rparr> | None \<Rightarrow> s)
      in (([mcp_frame_new MCP_STARTUP (w_chain [w_u32 result])], result = STARTUP_OK), s, w))"

section \<open>Characters\<close>

definition visible_characters :: "'s realm_env \<Rightarrow> mcp_session \<Rightarrow> 's \<Rightarrow> d2_character list \<times> 's" where
  "visible_characters e s st =
     (let (cs, st) = act_characters (realm_ops e) (mcp_account s) st in
      (case cs of
         Some cs \<Rightarrow> filter (\<lambda>c. expansion_client s \<or> \<not> has_status c D2_EXPANSION) cs
       | None \<Rightarrow> [], st))"

definition char_list :: "'s realm_env \<Rightarrow> mcp_frame \<Rightarrow> bool \<Rightarrow> mcp_session \<Rightarrow> 's world \<Rightarrow> mcp_frame \<times> 's world" where
  "char_list e f with_expiry s w =
     (let (requested, _) = rd_or 8 rd_u32 (rd_new (mf_body f));
          (chars, st) = visible_characters e s (w_store w);
          total = word_of_nat (length chars);
          returned = min (length chars) (unat requested)
      in (mcp_frame_new (mf_id f) (w_chain ([w_u16 (ucast (min requested 0xFFFF)), w_u32 total, w_u16 (word_of_nat returned)] @
            concat (map (\<lambda>c. (if with_expiry then [w_u32 0xFFFFFFFF] else []) @
              [w_cstr (c_name c), w_cstr (charlist_bytes (portrait_of c) total)]) (take returned chars)))),
          w\<lparr>w_store := st\<rparr>))"

definition char_create_fields :: "(u32 \<times> u16 \<times> bytes) rd" where
  "char_create_fields =
     rd_bind rd_u32 (\<lambda>cls. rd_bind rd_u16 (\<lambda>status. rd_bind (rd_cstr STR_MAX) (\<lambda>name.
     rd_return (cls, status, utf8_lossy name))))"

definition char_create_reply :: "u32 \<Rightarrow> mcp_frame" where
  "char_create_reply result = mcp_frame_new MCP_CHARCREATE (w_chain [w_u32 result])"

text \<open>The class and the status asked for are ones this client can create.\<close>

definition may_create :: "u32 \<Rightarrow> u8 \<Rightarrow> bytes \<Rightarrow> mcp_session \<Rightarrow> bool" where
  "may_create cls status name s \<longleftrightarrow>
     valid_character_name name \<and>
     cls < 256 \<and> class_is_valid (ucast cls) \<and> (status AND D2_EXPANSION \<noteq> 0 \<or> \<not> class_expansion_only (ucast cls)) \<and>
     (status AND D2_EXPANSION \<noteq> 0 \<longrightarrow> expansion_client s)"

definition char_create :: "'s realm_env \<Rightarrow> u64 \<Rightarrow> mcp_frame \<Rightarrow> mcp_session \<Rightarrow> 's world \<Rightarrow>
    mcp_frame \<times> mcp_session \<times> 's world" where
  "char_create e now f s w =
     (case parse char_create_fields (mf_body f) of
        None \<Rightarrow> (char_create_reply CHAR_CREATE_INVALID, s, w)
      | Some (cls, status_word, name) \<Rightarrow>
          let status = ucast (status_word AND 0xFF) AND D2_CREATABLE in
          if \<not> may_create cls status name s then (char_create_reply CHAR_CREATE_INVALID, s, w)
          else
            let (owned, st) = act_characters (realm_ops e) (mcp_account s) (w_store w) in
            if dr_max_characters (rl_realm e) \<le> (case owned of Some cs \<Rightarrow> length cs | None \<Rightarrow> 0)
            then (char_create_reply CHAR_CREATE_INVALID, s, w\<lparr>w_store := st\<rparr>)
            else
              let c = \<lparr>c_account = mcp_account s, c_name = name, c_class = ucast cls, c_status = status,
                    c_level = 1, c_progression = 0, c_created_at = now, c_last_played = now, c_save = None\<rparr>;
                  (r, st) = act_create_character (realm_ops e) c st;
                  w = w\<lparr>w_store := st\<rparr>
              in (case r of
                    Ok _ \<Rightarrow> (char_create_reply CHAR_CREATE_OK, s\<lparr>mc_selected := Some name\<rparr>, w)
                  | Err CcNameTaken \<Rightarrow> (char_create_reply CHAR_CREATE_NAME_TAKEN, s, w)
                  | _ \<Rightarrow> (char_create_reply CHAR_CREATE_INVALID, s, w)))"

text \<open>One of the account's characters that this client can use, by name.\<close>

definition usable :: "mcp_session \<Rightarrow> d2_character \<Rightarrow> bool" where
  "usable s c \<longleftrightarrow> c_account c = mcp_account s \<and> (expansion_client s \<or> \<not> has_status c D2_EXPANSION)"

definition own_character :: "'s realm_env \<Rightarrow> bytes \<Rightarrow> mcp_session \<Rightarrow> 's \<Rightarrow> d2_character option \<times> 's" where
  "own_character e name s st =
     (let (found, st) = act_character_by_name (realm_ops e) name st in
      (case found of Some c \<Rightarrow> if usable s c then Some c else None | None \<Rightarrow> None, st))"

definition is_dead_hardcore :: "d2_character \<Rightarrow> bool" where
  "is_dead_hardcore c \<longleftrightarrow> has_status c D2_HARDCORE \<and> has_status c D2_DEAD"

definition playing :: "'s realm_env \<Rightarrow> mcp_session \<Rightarrow> 's \<Rightarrow> d2_character option \<times> 's" where
  "playing e s st = (case mc_selected s of Some name \<Rightarrow> own_character e name s st | None \<Rightarrow> (None, st))"

definition selected_is_dead :: "'s realm_env \<Rightarrow> mcp_session \<Rightarrow> 's \<Rightarrow> bool \<times> 's" where
  "selected_is_dead e s st =
     (case mc_selected s of
        Some name \<Rightarrow>
          let (c, st) = own_character e name s st in
          (case c of Some c \<Rightarrow> is_dead_hardcore c | None \<Rightarrow> False, st)
      | None \<Rightarrow> (False, st))"

definition char_logon :: "'s realm_env \<Rightarrow> u64 \<Rightarrow> mcp_frame \<Rightarrow> mcp_session \<Rightarrow> 's world \<Rightarrow>
    mcp_frame \<times> mcp_session \<times> 's world" where
  "char_logon e now f s w =
     (let (name, _) = rd_text (rd_new (mf_body f));
          (found, st) = own_character e name s (w_store w);
          (result, s, st) = (case found of
             Some c \<Rightarrow>
               let (_, st) = act_update_character (realm_ops e) (c\<lparr>c_last_played := now\<rparr>) st
               in (CHAR_LOGON_OK, s\<lparr>mc_selected := Some (c_name c)\<rparr>, st)
           | None \<Rightarrow> (CHAR_LOGON_NOT_FOUND, s, st))
      in (mcp_frame_new MCP_CHARLOGON (w_chain [w_u32 result]), s, w\<lparr>w_store := st\<rparr>))"

definition char_delete :: "'s realm_env \<Rightarrow> mcp_frame \<Rightarrow> mcp_session \<Rightarrow> 's world \<Rightarrow>
    mcp_frame \<times> mcp_session \<times> 's world" where
  "char_delete e f s w =
     (let (request_id, r) = rd_or 0 rd_u16 (rd_new (mf_body f));
          (name, _) = rd_text r;
          (d, st) = act_delete_character (realm_ops e) (mcp_account s) name (w_store w);
          deleted = (d = Some True);
          s = (if deleted \<and> (case mc_selected s of Some n \<Rightarrow> eq_nocase n name | None \<Rightarrow> False)
               then s\<lparr>mc_selected := None\<rparr> else s)
      in (mcp_frame_new MCP_CHARDELETE (w_chain [w_u16 request_id,
            w_u32 (if deleted then CHAR_DELETE_OK else CHAR_DELETE_NOT_FOUND)]), s, w\<lparr>w_store := st\<rparr>))"

definition char_upgrade :: "'s realm_env \<Rightarrow> mcp_frame \<Rightarrow> mcp_session \<Rightarrow> 's world \<Rightarrow> mcp_frame \<times> 's world" where
  "char_upgrade e f s w =
     (let (name, _) = rd_text (rd_new (mf_body f));
          (found, st) = act_character_by_name (realm_ops e) name (w_store w);
          (result, st) = (case found of
             Some c \<Rightarrow>
               if c_account c = mcp_account s \<and> expansion_client s
               then if has_status c D2_EXPANSION then (0, st)
                    else let (u, st) = act_update_character (realm_ops e) (c\<lparr>c_status := c_status c OR D2_EXPANSION\<rparr>) st
                         in (if u = Some True then 0 else UPGRADE_FAILED, st)
               else (UPGRADE_FAILED, st)
           | None \<Rightarrow> (CHAR_LOGON_NOT_FOUND, st))
      in (mcp_frame_new MCP_CHARUPGRADE (w_chain [w_u32 result]), w\<lparr>w_store := st\<rparr>))"

section \<open>Which games a character may join\<close>

definition highest_difficulty :: "d2_character \<Rightarrow> u8" where
  "highest_difficulty c = min (c_progression c div (if has_status c D2_EXPANSION then 5 else 4)) 2"

definition abs_diff :: "u8 \<Rightarrow> u8 \<Rightarrow> u8" where
  "abs_diff a b = (if a < b then b - a else a - b)"

text \<open>The pairs of the game's and the character's kinds that do not go together.\<close>

definition kind_refusal :: "d2_character \<Rightarrow> game_settings \<Rightarrow> u32 option" where
  "kind_refusal c t =
     (if gt_hardcore t \<and> \<not> has_status c D2_HARDCORE then Some JOIN_NOT_HARDCORE
      else if \<not> gt_hardcore t \<and> has_status c D2_HARDCORE then Some JOIN_NO_SUCH_GAME
      else if gt_expansion t \<and> \<not> has_status c D2_EXPANSION then Some JOIN_NOT_EXPANSION
      else if \<not> gt_expansion t \<and> has_status c D2_EXPANSION then Some JOIN_NOT_CLASSIC
      else if gt_ladder t \<and> \<not> has_status c D2_LADDER then Some JOIN_NOT_LADDER
      else if \<not> gt_ladder t \<and> has_status c D2_LADDER then Some JOIN_NO_SUCH_GAME
      else None)"

definition room_refusal :: "d2_character \<Rightarrow> lobby_game \<Rightarrow> game_settings \<Rightarrow> u32 option" where
  "room_refusal c game t =
     (if (case gt_level_difference t of
            Some d \<Rightarrow> d < abs_diff (c_level c) (gt_creator_level t) | None \<Rightarrow> False)
      then Some JOIN_LEVEL_REQUIREMENT
      else if unat (max 1 (min 8 (gt_max_players t))) \<le> length (lg_players game) then Some JOIN_FULL
      else None)"

definition join_refusal :: "d2_character \<Rightarrow> lobby_game \<Rightarrow> u32 option" where
  "join_refusal c game =
     (case Option.bind (lg_settings game) (kind_refusal c) of
        Some r \<Rightarrow> Some r
      | None \<Rightarrow>
          if highest_difficulty c < lg_difficulty game
          then Some (if 2 \<le> lg_difficulty game then JOIN_NO_HELL else JOIN_NO_NIGHTMARE)
          else Option.bind (lg_settings game) (room_refusal c game))"

definition listable :: "(bytes \<Rightarrow> bytes) \<Rightarrow> d2_character \<Rightarrow> lobby_game \<Rightarrow> bytes \<Rightarrow> bool" where
  "listable lower_text c game filt \<longleftrightarrow>
     join_refusal c game = None \<and> (filt = [] \<or> has_sub (lower_text (lg_name game)) (lower_text filt))"

section \<open>The lobby\<close>

definition status_of :: "lobby_game \<Rightarrow> u32" where
  "status_of game =
     (case lg_settings game of
        Some t \<Rightarrow> game_flags (lg_difficulty game) (gt_hardcore t) (gt_expansion t) (gt_ladder t)
      | None \<Rightarrow> game_flags (lg_difficulty game) False False False)"

definition listed_frame :: "u16 \<Rightarrow> lobby_game \<Rightarrow> mcp_frame" where
  "listed_frame request_id g =
     (let description = (case lg_settings g of Some t \<Rightarrow> gt_description t | None \<Rightarrow> []);
          players = (if length (lg_players g) < 256 then word_of_nat (length (lg_players g)) else 255)
      in mcp_frame_new MCP_GAMELIST
           (gamelist_entry request_id (ucast (lg_token g)) players (status_of g) (lg_name g) description))"

definition realm_game_list :: "'s realm_env \<Rightarrow> mcp_frame \<Rightarrow> mcp_session \<Rightarrow> 's world \<Rightarrow> mcp_frame list \<times> 's world" where
  "realm_game_list e f s w =
     (let (request_id, r) = rd_or 0 rd_u16 (rd_new (mf_body f));
          (_, r) = rd_or 0 rd_u32 r;
          (filt, _) = rd_text r;
          (c, st) = playing e s (w_store w);
          games = (case (rl_link e, c) of
             (Some k, Some c) \<Rightarrow>
               filter (\<lambda>g. listable (rl_lower e) c g filt) (case link_list_games k of Ok gs \<Rightarrow> gs | _ \<Rightarrow> [])
           | _ \<Rightarrow> [])
      in (map (listed_frame request_id) (take GAMELIST_MAX games) @ [mcp_frame_new MCP_GAMELIST (gamelist_end request_id)],
          w\<lparr>w_store := st\<rparr>))"

definition gameinfo_body :: "u16 \<Rightarrow> lobby_game \<Rightarrow> bytes" where
  "gameinfo_body request_id game =
     gameinfo_reply request_id
       \<lparr>gi_status = status_of game,
        gi_uptime_secs = (if unat (lg_age_secs game) < 2 ^ 32 then ucast (lg_age_secs game) else 0xFFFFFFFF),
        gi_creator_level = (case lg_settings game of Some t \<Rightarrow> gt_creator_level t | None \<Rightarrow> 0),
        gi_level_difference = (case Option.bind (lg_settings game) gt_level_difference of Some d \<Rightarrow> d | None \<Rightarrow> 0xFF),
        gi_max_players = (case lg_settings game of Some t \<Rightarrow> gt_max_players t | None \<Rightarrow> 8),
        gi_description = (case lg_settings game of Some t \<Rightarrow> gt_description t | None \<Rightarrow> []),
        gi_characters = map (\<lambda>p. \<lparr>gic_class = lp_class p, gic_level = lp_level p, gic_name = lp_name p\<rparr>) (lg_players game)\<rparr>"

definition realm_game_info :: "'s realm_env \<Rightarrow> mcp_frame \<Rightarrow> mcp_frame" where
  "realm_game_info e f =
     (let (request_id, r) = rd_or 0 rd_u16 (rd_new (mf_body f));
          (name, _) = rd_text r;
          game = (case rl_link e of
             Some k \<Rightarrow> (case link_game_info k name of Ok g \<Rightarrow> g | _ \<Rightarrow> None)
           | None \<Rightarrow> None)
      in mcp_frame_new MCP_GAMEINFO (case game of Some g \<Rightarrow> gameinfo_body request_id g | None \<Rightarrow> gameinfo_none request_id))"

text \<open>\<open>clip\<close>: at most so many bytes, cut where a character ends.\<close>

definition char_boundary :: "bytes \<Rightarrow> nat \<Rightarrow> bool" where
  "char_boundary s n \<longleftrightarrow> n = 0 \<or> n = length s \<or> n < length s \<and> \<not> is_cont (s ! n)"

fun clip_end :: "bytes \<Rightarrow> nat \<Rightarrow> nat" where
  "clip_end s 0 = 0"
| "clip_end s (Suc n) = (if char_boundary s (Suc n) then Suc n else clip_end s n)"

definition clip :: "bytes \<Rightarrow> nat \<Rightarrow> bytes" where
  "clip s mx = take (clip_end s (min (length s) mx)) s"

text \<open>
  The fixed fields and the name of a create request: when they are cut short the reader stays where
  it got to, and the defaults stand for all of them.
\<close>

definition rd_part :: "'a rd \<Rightarrow> ('a \<Rightarrow> reader \<Rightarrow> 'b option \<times> reader) \<Rightarrow> reader \<Rightarrow> 'b option \<times> reader" where
  "rd_part m f r = (case m r of Ok (a, r) \<Rightarrow> f a r | _ \<Rightarrow> (None, r))"

definition create_game_fields :: "reader \<Rightarrow> (u32 \<times> u8 \<times> u8 \<times> bytes) \<times> reader" where
  "create_game_fields r =
     (case rd_part rd_u32 (\<lambda>flags. rd_part rd_u8 (\<lambda>_. rd_part rd_u8 (\<lambda>level. rd_part rd_u8 (\<lambda>mx.
           rd_part (rd_cstr STR_MAX) (\<lambda>name r. (Some (flags, level, mx, utf8_lossy name), r)))))) r of
        (Some x, r) \<Rightarrow> (x, r)
      | (None, r) \<Rightarrow> ((0, 0xFF, 8, []), r))"

definition settings_of :: "mcp_session \<Rightarrow> d2_character option \<Rightarrow> u8 \<Rightarrow> u8 \<Rightarrow> bytes \<Rightarrow> game_settings" where
  "settings_of s creator level_difference max_players description =
     \<lparr>gt_description = clip description GAME_DESCRIPTION_MAX,
      gt_max_players = (if 1 \<le> max_players \<and> max_players \<le> 8 then max_players else 8),
      gt_level_difference = (if level_difference < NO_LEVEL_DIFFERENCE then Some level_difference else None),
      gt_creator_level = (case creator of Some c \<Rightarrow> max (c_level c) 1 | None \<Rightarrow> 1),
      gt_expansion = (case creator of Some c \<Rightarrow> has_status c D2_EXPANSION | None \<Rightarrow> expansion_client s),
      gt_hardcore = (case creator of Some c \<Rightarrow> has_status c D2_HARDCORE | None \<Rightarrow> False),
      gt_ladder = (case creator of Some c \<Rightarrow> has_status c D2_LADDER | None \<Rightarrow> False)\<rparr>"

definition create_result :: "(link_error, (game_create_error, u16) outcome) outcome \<Rightarrow> u16 \<times> u32" where
  "create_result r =
     (case r of
        Ok (Ok i) \<Rightarrow> (i, CREATE_GAME_OK)
      | Ok (Err GameNameTaken) \<Rightarrow> (0, CREATE_GAME_NAME_TAKEN)
      | _ \<Rightarrow> (0, CREATE_GAME_SERVERS_DOWN))"

definition create_game :: "'s realm_env \<Rightarrow> mcp_frame \<Rightarrow> mcp_session \<Rightarrow> 's world \<Rightarrow> mcp_frame \<times> 's world" where
  "create_game e f s w =
     (let (request_id, r) = rd_or 0 rd_u16 (rd_new (mf_body f));
          ((flags, level_difference, max_players, name), r) = create_game_fields r;
          (password, r) = rd_text r;
          (description, _) = rd_text r;
          (creator, st) = playing e s (w_store w);
          settings = settings_of s creator level_difference max_players description;
          ((token, result), st) =
            (if name = [] \<or> 15 < length name then ((0, CREATE_GAME_INVALID_NAME), st)
             else
               let (dead, st) = selected_is_dead e s st in
               (if dead then (0, CREATE_GAME_DEAD_HARDCORE)
                else case rl_link e of
                  Some k \<Rightarrow> create_result (link_create k name password (ucast (drop_bit 12 flags AND 3)) settings)
                | None \<Rightarrow> (0, CREATE_GAME_SERVERS_DOWN), st))
      in (mcp_frame_new MCP_CREATEGAME (w_chain [w_u16 request_id, w_u16 token, w_u16 0, w_u32 result]),
          w\<lparr>w_store := st\<rparr>))"

fun join_error_code :: "game_join_error \<Rightarrow> u32" where
  "join_error_code NoSuchGame = JOIN_NO_SUCH_GAME"
| "join_error_code NoSuchCharacter = JOIN_NO_SUCH_GAME"
| "join_error_code BadPassword = JOIN_BAD_PASSWORD"
| "join_error_code GameFull = JOIN_FULL"

text \<open>Whether the game lets the character in, asked only for one that is alive.\<close>

definition lobby_refusal :: "linked option \<Rightarrow> d2_character option \<Rightarrow> bytes \<Rightarrow> u32 option" where
  "lobby_refusal link c name =
     (case (link, c) of
        (Some k, Some c) \<Rightarrow>
          if is_dead_hardcore c then None
          else (case link_game_info k name of Ok (Some game) \<Rightarrow> join_refusal c game | _ \<Rightarrow> None)
      | _ \<Rightarrow> None)"

definition staged_join :: "linked option \<Rightarrow> d2_character option \<Rightarrow> bytes option \<Rightarrow> bytes \<Rightarrow> bytes \<Rightarrow>
    (u32, u16 \<times> u32 \<times> bytes) outcome" where
  "staged_join link c ip name password =
     (case c of
        None \<Rightarrow> Err JOIN_NO_SUCH_GAME
      | Some c \<Rightarrow>
          if is_dead_hardcore c then Err JOIN_DEAD_HARDCORE
          else
            (case lobby_refusal link (Some c) name of
               Some r \<Rightarrow> Err r
             | None \<Rightarrow>
                 (case (link, ip) of
                    (Some k, Some ip) \<Rightarrow>
                      (case link_join k name password (c_account c) (c_name c) of
                         Ok (Ok j) \<Rightarrow> Ok (jg_token j, jg_hash j, ip)
                       | Ok (Err x) \<Rightarrow> Err (join_error_code x)
                       | _ \<Rightarrow> Err JOIN_NO_SUCH_GAME)
                  | _ \<Rightarrow> Err JOIN_NO_SUCH_GAME)))"

definition join_reply :: "u16 \<Rightarrow> (u32, u16 \<times> u32 \<times> bytes) outcome \<Rightarrow> mcp_frame" where
  "join_reply request_id staged =
     mcp_frame_new MCP_JOINGAME (w_chain (case staged of
        Ok (token, hash, ip) \<Rightarrow> [w_u16 request_id, w_u16 token, w_u16 0, w_bytes ip, w_u32 hash, w_u32 JOIN_OK]
      | Err result \<Rightarrow> [w_u16 request_id, w_u16 0, w_u16 0, w_u32 0, w_u32 0, w_u32 result]
      | Panic \<Rightarrow> []))"

definition join_game :: "'s realm_env \<Rightarrow> mcp_frame \<Rightarrow> mcp_session \<Rightarrow> 's world \<Rightarrow> mcp_frame \<times> 's world" where
  "join_game e f s w =
     (let (request_id, r) = rd_or 0 rd_u16 (rd_new (mf_body f));
          (name, r) = rd_text r;
          (password, _) = rd_text r;
          ip = client_facing_ipv4 (en_lookup (rl_env e)) (mc_ip s) (mc_local s) (rl_realm e);
          (c, st) = playing e s (w_store w)
      in (join_reply request_id (staged_join (rl_link e) c ip name password), w\<lparr>w_store := st\<rparr>))"

section \<open>The ladder\<close>

definition ladder_filter :: "u8 \<Rightarrow> (bool \<times> bool \<times> u8 option) option" where
  "ladder_filter ladder =
     (let found = (\<lambda>hardcore expansion base classes.
            let offset = ladder - base in
            if offset \<le> classes then Some (hardcore, expansion, if 1 \<le> offset then Some (offset - 1) else None) else None)
      in if ladder \<le> 0x05 then found True False 0 5
         else if 0x09 \<le> ladder \<and> ladder \<le> 0x0E then found False False 0x09 5
         else if 0x13 \<le> ladder \<and> ladder \<le> 0x1A then found True True 0x13 7
         else if 0x1B \<le> ladder \<and> ladder \<le> 0x22 then found False True 0x1B 7
         else None)"

definition experience_of :: "d2_character \<Rightarrow> u32" where
  "experience_of c =
     (case c_save c of
        Some b \<Rightarrow> (case save_parse b of Ok s \<Rightarrow> save_stat 13 s | _ \<Rightarrow> 0)
      | None \<Rightarrow> 0)"

definition on_ladder :: "bool \<times> bool \<times> u8 option \<Rightarrow> d2_character \<Rightarrow> bool" where
  "on_ladder k c =
     (case k of (hardcore, expansion, cls) \<Rightarrow>
      has_status c D2_LADDER \<and> has_status c D2_HARDCORE = hardcore \<and> has_status c D2_EXPANSION = expansion \<and>
      (case cls of Some x \<Rightarrow> c_class c = x | None \<Rightarrow> True))"

text \<open>Most experienced first, then the higher level, then the name; the sort is stable.\<close>

definition ladder_key :: "d2_character \<Rightarrow> nat \<times> nat \<times> bytes" where
  "ladder_key c = (2 ^ 32 - unat (experience_of c), 256 - unat (c_level c), c_name c)"

definition ladder_listed :: "d2_character list \<Rightarrow> u8 \<Rightarrow> d2_character list" where
  "ladder_listed cs ladder =
     (case ladder_filter ladder of
        Some k \<Rightarrow> take MAX_RANK (sort_key ladder_key (filter (on_ladder k) cs))
      | None \<Rightarrow> [])"

definition ladder_flags :: "account_id \<Rightarrow> d2_character \<Rightarrow> u8" where
  "ladder_flags asker c =
     (let fl = c_class c AND 7;
          fl = (if c_account c = asker then fl OR 0x08 else fl);
          fl = (if has_status c D2_HARDCORE
                then let fl = fl OR 0x20 in if has_status c 0x08 then fl OR 0x10 else fl else fl)
      in if has_status c D2_EXPANSION then fl OR 0x40 else fl)"

definition ladder_name :: "bytes \<Rightarrow> bytes" where
  "ladder_name name = (let n = min (length name) 15 in take n name @ replicate (16 - n) 0)"

definition character_entry :: "account_id \<Rightarrow> d2_character \<Rightarrow> (writer \<Rightarrow> writer) list" where
  "character_entry asker c =
     [w_u32 (experience_of c), w_u32 0, w_u8 (ladder_flags asker c), w_u8 (c_progression c),
      w_u16 (ucast (c_level c)), w_bytes (ladder_name (c_name c))]"

definition ladder_reply :: "d2_character list \<Rightarrow> u8 \<Rightarrow> u16 \<Rightarrow> account_id \<Rightarrow> bytes" where
  "ladder_reply cs ladder start asker =
     (let page = take 16 (drop (unat start) (ladder_listed cs ladder));
          payload = w_chain ([w_u32 (ucast start), w_u32 (word_of_nat (length page)), w_u32 16] @
            concat (map (character_entry asker) page));
          size = word_of_nat (length payload)
      in w_chain [w_u8 ladder, w_u16 size, w_u16 size, w_u16 0, w_bytes payload])"

text \<open>An account walk that runs out of pages (\<open>en_pages\<close>) counts as empty, as in \<open>ladder_rows\<close>.\<close>

definition realm_ladder_data :: "'s realm_env \<Rightarrow> mcp_frame \<Rightarrow> mcp_session \<Rightarrow> 's world \<Rightarrow> mcp_frame \<times> 's world" where
  "realm_ladder_data e f s w =
     (let (ladder, r) = rd_or 0 rd_u8 (rd_new (mf_body f));
          (start, _) = rd_or 0 rd_u16 r;
          (cs, st) = act_all_characters (en_pages (rl_env e)) (realm_ops e) (w_store w)
      in (mcp_frame_new MCP_REQUESTLADDERDATA
            (ladder_reply (case cs of Some cs \<Rightarrow> cs | None \<Rightarrow> []) ladder start (mcp_account s)),
          w\<lparr>w_store := st\<rparr>))"

section \<open>The connection\<close>

definition motd_frame :: "'s realm_env \<Rightarrow> mcp_frame" where
  "motd_frame e = mcp_frame_new MCP_MOTD (w_chain [w_u8 0, w_cstr (nc_motd (en_cfg (rl_env e)))])"

definition mcp_handle :: "'s realm_env \<Rightarrow> u64 \<Rightarrow> mcp_frame \<Rightarrow> mcp_session \<Rightarrow> 's world \<Rightarrow> 's realm_run" where
  "mcp_handle e now f s w =
     (let i = mf_id f; one = (\<lambda>(reply, s, w). (([reply], True), s, w)) in
      if i = MCP_STARTUP then startup (mf_body f) s w
      else if i = MCP_CHARLIST2 then let (x, w) = char_list e f True s w in one (x, s, w)
      else if i = MCP_CHARLIST then let (x, w) = char_list e f False s w in one (x, s, w)
      else if i = MCP_CHARCREATE then one (char_create e now f s w)
      else if i = MCP_CHARLOGON then one (char_logon e now f s w)
      else if i = MCP_CHARDELETE then one (char_delete e f s w)
      else if i = MCP_CHARUPGRADE then let (x, w) = char_upgrade e f s w in one (x, s, w)
      else if i = MCP_MOTD then one (motd_frame e, s, w)
      else if i = MCP_GAMELIST then let (xs, w) = realm_game_list e f s w in ((xs, True), s, w)
      else if i = MCP_GAMEINFO then one (realm_game_info e f, s, w)
      else if i = MCP_CREATEGAME then let (x, w) = create_game e f s w in one (x, s, w)
      else if i = MCP_JOINGAME then let (x, w) = join_game e f s w in one (x, s, w)
      else if i = MCP_REQUESTLADDERDATA then let (x, w) = realm_ladder_data e f s w in one (x, s, w)
      else (([], True), s, w))"

text \<open>
  One decoded frame: before the ticket nothing but the startup, which ends the connection when it
  is refused. A reply too large to encode is left out.
\<close>

definition append_reply :: "mcp_frame \<Rightarrow> bytes \<Rightarrow> bytes" where
  "append_reply f out = (case mcp_encode_frame f out of Ok o' \<Rightarrow> o' | _ \<Rightarrow> out)"

definition mcp_serve :: "'s realm_env \<Rightarrow> u64 \<Rightarrow> mcp_frame \<Rightarrow> bytes \<times> mcp_session \<times> 's world \<Rightarrow>
    bool \<times> bytes \<times> mcp_session \<times> 's world" where
  "mcp_serve e now f c =
     (case c of (out, s, w) \<Rightarrow>
      if mc_ticket s = None \<and> mf_id f \<noteq> MCP_STARTUP then (False, out, s, w)
      else case mcp_handle e now f s w of
        ((replies, keep_open), s, w) \<Rightarrow> (keep_open, fold append_reply replies out, s, w))"

text \<open>
  The frames one chunk completes, and the chunks of a connection; what was written to the socket is
  the result. Running out of fuel is \<open>None\<close>; \<open>ticks\<close> is the clock, by packets handled.
\<close>

fun mcp_drain :: "'s realm_env \<Rightarrow> nat \<Rightarrow> (nat \<Rightarrow> u64) \<Rightarrow> nat \<Rightarrow> recv_buf \<Rightarrow> nat \<times> bytes \<times> mcp_session \<times> 's world \<Rightarrow>
    (bool \<times> recv_buf \<times> nat \<times> bytes \<times> mcp_session \<times> 's world) option" where
  "mcp_drain e mx ticks 0 q c = None"
| "mcp_drain e mx ticks (Suc fuel) q (i, c) =
     (case mcp_decode_frame mx q of
        Ok (None, q) \<Rightarrow> Some (True, q, i, c)
      | Ok (Some f, q) \<Rightarrow>
          (case mcp_serve e (ticks i) f c of (keep_open, c) \<Rightarrow>
           if keep_open then mcp_drain e mx ticks fuel q (i + 1, c) else Some (False, q, i + 1, c))
      | _ \<Rightarrow> Some (False, q, i, c))"

fun mcp_session_loop :: "'s realm_env \<Rightarrow> nat \<Rightarrow> (nat \<Rightarrow> u64) \<Rightarrow> nat \<Rightarrow> bytes list \<Rightarrow> recv_buf \<Rightarrow>
    nat \<times> bytes \<times> mcp_session \<times> 's world \<Rightarrow> (nat \<times> bytes \<times> mcp_session \<times> 's world) option" where
  "mcp_session_loop e mx ticks fuel [] q c = Some c"
| "mcp_session_loop e mx ticks fuel (chunk # chunks) q c =
     (if chunk = [] then Some c
      else case mcp_drain e mx ticks fuel (rb_extend chunk q) c of
        None \<Rightarrow> None
      | Some (keep_open, q, c) \<Rightarrow>
          if keep_open then mcp_session_loop e mx ticks fuel chunks q c else Some c)"

definition mcp_connection :: "'s realm_env \<Rightarrow> nat \<Rightarrow> (nat \<Rightarrow> u64) \<Rightarrow> nat \<Rightarrow> bytes list \<Rightarrow> ip_addr \<Rightarrow>
    (ip_addr \<times> u16) option \<Rightarrow> 's world \<Rightarrow> (nat \<times> bytes \<times> mcp_session \<times> 's world) option" where
  "mcp_connection e max_frame ticks fuel chunks ip local_addr w =
     mcp_session_loop e (max max_frame MCP_DEFAULT_MAX_FRAME) ticks fuel chunks rb_new
       (0, [], \<lparr>mc_ip = ip, mc_local = local_addr, mc_ticket = None, mc_selected = None\<rparr>, w)"

end
