(* ===== verification/Connection.thy ===== *)
theory Connection
  imports Session_Handle Line Bnftp Realm
begin

text \<open>
  \<open>bnetccd/src/session.rs\<close>, the connections of the daemon: the limits one is given, the file
  transfer and chat gateway sessions, and \<open>handle\<close>, which reads the protocol selector, admits the
  connection under its class, serves it and gives its place back. What a socket delivers is the list
  of its chunks; it ends (or its deadline passes) after the last.
\<close>

section \<open>Limits and tokens\<close>

text \<open>Frame and line sizes in bytes, the queue in frames, the deadlines in seconds.\<close>

record session_limits =
  sl_max_frame :: nat
  sl_max_line :: nat
  sl_outbound_queue :: nat
  sl_handshake :: nat
  sl_idle :: nat

definition default_session_limits :: session_limits where
  "default_session_limits = \<lparr>sl_max_frame = DEFAULT_MAX_FRAME, sl_max_line = DEFAULT_MAX_LINE,
     sl_outbound_queue = 64, sl_handshake = 30, sl_idle = 1200\<rparr>"

text \<open>\<open>next_server_token\<close>, of the clock in nanoseconds and the process-wide counter.\<close>

definition next_server_token :: "u64 \<Rightarrow> u64 \<Rightarrow> u32" where
  "next_server_token now n =
     (let x = now XOR (n * 0x9E3779B97F4A7C15);
          x = x XOR drop_bit 33 x;
          x = x * 0xFF51AFD7ED558CCD;
          x = x XOR drop_bit 29 x
      in ucast (x AND 0xFFFFFFFF))"

section \<open>File transfer\<close>

text \<open>
  Reading until a decoder has its message: what it decoded and the chunks not yet read. An error,
  more bytes than \<open>MAX_REQUEST\<close> without a message, and the end of the stream are \<open>None\<close>; bytes
  read past the message are not seen again.
\<close>

fun ftp_gather :: "(bytes \<Rightarrow> 'a option proto_result) \<Rightarrow> bytes list \<Rightarrow> bytes \<Rightarrow> ('a \<times> bytes list) option" where
  "ftp_gather dec [] buf = (case dec buf of Ok (Some x) \<Rightarrow> Some (x, []) | _ \<Rightarrow> None)"
| "ftp_gather dec (c # cs) buf =
     (case dec buf of
        Ok (Some x) \<Rightarrow> Some (x, c # cs)
      | Ok None \<Rightarrow> if length buf > MAX_REQUEST \<or> c = [] then None else ftp_gather dec cs (buf @ c)
      | _ \<Rightarrow> None)"

text \<open>The served directory: a file's bytes and its FILETIME (0 where the system tells none).\<close>

type_synonym served_files = "bytes \<Rightarrow> (bytes \<times> u64) option"

definition ftp_wanted :: "(bytes \<Rightarrow> bool) \<Rightarrow> ftp_request \<Rightarrow> bytes \<Rightarrow> bytes" where
  "ftp_wanted has req requested =
     (if fq_version req = VERSION_2 \<and> requested = []
      then served_version_mpq (version_mpq_name (Some (fq_platform req)) (Some (fq_product req)) None) has
      else requested)"

definition ftp_deliver :: "served_files \<Rightarrow> (bytes \<Rightarrow> bool) \<Rightarrow> ftp_request \<Rightarrow> bytes \<Rightarrow> bytes" where
  "ftp_deliver files has req requested =
     (case sanitize_filename (ftp_wanted has req requested) of
        None \<Rightarrow> []
      | Some name \<Rightarrow>
          (case files name of
             None \<Rightarrow> []
           | Some (content, ft) \<Rightarrow>
               let header = \<lparr>fh_kind = 0,
                     fh_file_size = (if length content < 2 ^ 32 then word_of_nat (length content) else - 1),
                     fh_ad_id = fq_ad_id req, fh_ad_extension = fq_ad_extension req,
                     fh_filetime = ft, fh_filename = name\<rparr>
               in (if fq_version req = VERSION_2 then encode_response_header_v2 header
                   else encode_response_header header) @ content))"

text \<open>What is written to the socket. The challenge of a version 2 request is drawn at random.\<close>

definition bnftp_session :: "served_files option \<Rightarrow> (bytes \<Rightarrow> bool) \<Rightarrow> u32 \<Rightarrow> bytes list \<Rightarrow> bytes" where
  "bnftp_session dir has challenge chunks =
     (case (ftp_gather decode_request chunks [], dir) of
        (Some (req, rest), Some files) \<Rightarrow>
          if fq_version req = VERSION_2
          then le32 challenge @
            (case ftp_gather decode_v2_challenge_filename rest [] of
               Some (name, _) \<Rightarrow> ftp_deliver files has req name
             | None \<Rightarrow> [])
          else ftp_deliver files has req (fq_filename req)
      | _ \<Rightarrow> [])"

section \<open>The chat gateway\<close>

text \<open>
  The gateway's reader and its writer task share the outbound queue. A chunk is read, or the writer
  writes the oldest message of the queue, in any order.
\<close>

datatype gateway_event = GatewayRead bytes | GatewayWrote

text \<open>
  The lines one chunk completes. A full queue leaves the inner loop only (the log line says
  ``closing''); an error of the decoder ends the session (\<open>None\<close> in place of the buffer).
\<close>

fun gateway_lines :: "nat \<Rightarrow> nat \<Rightarrow> recv_buf \<Rightarrow> outbound \<Rightarrow> (recv_buf option \<times> outbound) option" where
  "gateway_lines mx 0 q ob = None"
| "gateway_lines mx (Suc fuel) q ob =
     (case decode_line mx q of
        Ok (Some line, q) \<Rightarrow>
          if line = [] then gateway_lines mx fuel q ob
          else (case ob_send (gateway_reply line) ob of
                  (True, ob) \<Rightarrow> gateway_lines mx fuel q ob
                | (False, ob) \<Rightarrow> Some (Some q, ob))
      | Ok (None, q) \<Rightarrow> Some (Some q, ob)
      | _ \<Rightarrow> Some (None, ob))"

fun gateway_loop :: "nat \<Rightarrow> nat \<Rightarrow> gateway_event list \<Rightarrow> recv_buf \<Rightarrow> outbound \<Rightarrow> bytes \<Rightarrow> bytes option" where
  "gateway_loop mx fuel [] q ob written = Some (written @ concat (ob_queue ob))"
| "gateway_loop mx fuel (GatewayWrote # es) q ob written =
     (case ob_queue ob of
        [] \<Rightarrow> gateway_loop mx fuel es q ob written
      | m # ms \<Rightarrow> gateway_loop mx fuel es q (ob\<lparr>ob_queue := ms\<rparr>) (written @ m))"
| "gateway_loop mx fuel (GatewayRead chunk # es) q ob written =
     (if chunk = [] then Some (written @ concat (ob_queue ob))
      else case gateway_lines mx fuel (rb_extend chunk q) ob of
        None \<Rightarrow> None
      | Some (None, ob) \<Rightarrow> Some (written @ concat (ob_queue ob))
      | Some (Some q, ob) \<Rightarrow> gateway_loop mx fuel es q ob written)"

definition gateway_session :: "bytes \<Rightarrow> session_limits \<Rightarrow> nat \<Rightarrow> gateway_event list \<Rightarrow> bytes option" where
  "gateway_session node_name limits fuel es =
     (let ob = \<lparr>ob_capacity = sl_outbound_queue limits, ob_queue = [], ob_open = True, ob_ignores = {||}\<rparr>;
          (_, ob) = ob_send (gateway_greeting node_name) ob
      in gateway_loop (sl_max_line limits) fuel es rb_new ob [])"

section \<open>One accepted connection\<close>

text \<open>
  What arrives: the protocol selector, if one does in time; the byte after it, as the realm's peek
  sees it; the chunks that follow. The handle, clock readings and random draws of the connection are
  part of it.
\<close>

record arrival =
  ar_handle :: handle
  ar_ip :: ip_addr
  ar_local :: "(ip_addr \<times> u16) option"
  ar_selector :: "u8 option"
  ar_next :: "u8 option"
  ar_chunks :: "bytes list"
  ar_now :: u64
  ar_end :: u64
  ar_nanos :: u64
  ar_counter :: u64
  ar_ticks :: "nat \<Rightarrow> tick"
  ar_secs :: "nat \<Rightarrow> u64"
  ar_challenge :: u32
  ar_gateway :: "gateway_event list"

text \<open>\<open>is_realm_connection\<close>.\<close>

definition begins_realm :: "arrival \<Rightarrow> bool" where
  "begins_realm a \<longleftrightarrow> (case ar_next a of Some b \<Rightarrow> b \<noteq> MAGIC | None \<Rightarrow> False)"

text \<open>
  A game connection: the realm's, when it is offered and the next byte begins no BNCS frame, or a
  BNCS session; with the class it holds at its end. What is written is part of the result, but for a
  BNCS session, whose frames go through its outbound queue in the node.
\<close>

type_synonym 's served = "(client_class \<times> bytes \<times> 's world) option"

definition serve_bncs :: "'s env \<Rightarrow> session_limits \<Rightarrow> nat \<Rightarrow> arrival \<Rightarrow> 's world \<Rightarrow> 's served" where
  "serve_bncs env limits fuel a w =
     (case bncs_session env (sl_max_frame limits) (ar_ticks a) fuel (ar_chunks a) (ar_end a)
             (session_new (ar_handle a) (ar_ip a) (next_server_token (ar_nanos a) (ar_counter a))
               (game_flood (nc_policy (en_cfg env))) (ar_now a) (ar_local a)) w of
        Some (s, w) \<Rightarrow> Some (ss_class s, [], w)
      | None \<Rightarrow> None)"

definition serve_game :: "'s realm_env \<Rightarrow> session_limits \<Rightarrow> nat \<Rightarrow> arrival \<Rightarrow> 's world \<Rightarrow> 's served" where
  "serve_game e limits fuel a w =
     (case en_realm (rl_env e) of
        Some r \<Rightarrow>
          if begins_realm a
          then (case mcp_connection (e\<lparr>rl_realm := r\<rparr>) (sl_max_frame limits) (ar_secs a) fuel (ar_chunks a)
                      (ar_ip a) (ar_local a) w of
                  Some (_, out, _, w) \<Rightarrow> Some (GamePending, out, w) | None \<Rightarrow> None)
          else serve_bncs (rl_env e) limits fuel a w
      | None \<Rightarrow> serve_bncs (rl_env e) limits fuel a w)"

definition serve_gateway :: "'s env \<Rightarrow> session_limits \<Rightarrow> nat \<Rightarrow> arrival \<Rightarrow> 's world \<Rightarrow> 's served" where
  "serve_gateway env limits fuel a w =
     (case gateway_session (en_name env) limits fuel (ar_gateway a) of
        Some out \<Rightarrow> Some (GatewayClient, out, w) | None \<Rightarrow> None)"

definition serve_bnftp :: "'s env \<Rightarrow> served_files option \<Rightarrow> arrival \<Rightarrow> 's world \<Rightarrow> 's served" where
  "serve_bnftp env dir a w =
     Some (BnftpClient, bnftp_session dir (\<lambda>n. en_files env n \<noteq> None) (ar_challenge a) (ar_chunks a), w)"

text \<open>
  \<open>admitted\<close>: a connection that is refused leaves no trace; one that is served gives back the place
  of the class it ended in.
\<close>

definition admitted :: "node_config \<Rightarrow> client_class \<Rightarrow> ip_addr \<Rightarrow> ('s world \<Rightarrow> 's served) \<Rightarrow> 's world \<Rightarrow>
    (bytes \<times> 's world) option" where
  "admitted cfg k ip serve_it w =
     (case node_admit cfg k ip (w_node w) of
        (Ok _, n) \<Rightarrow>
          (case serve_it (w\<lparr>w_node := n\<rparr>) of
             Some (k, out, w) \<Rightarrow> Some (out, w\<lparr>w_node := node_release k ip (w_node w)\<rparr>)
           | None \<Rightarrow> None)
      | _ \<Rightarrow> Some ([], w))"

definition handle_connection :: "'s realm_env \<Rightarrow> session_limits \<Rightarrow> served_files option \<Rightarrow> nat \<Rightarrow> arrival \<Rightarrow> 's world \<Rightarrow>
    (bytes \<times> 's world) option" where
  "handle_connection e limits dir fuel a w =
     (let cfg = en_cfg (rl_env e); ip = ar_ip a in
      case Option.bind (ar_selector a) selector_from_byte of
        Some Game \<Rightarrow> admitted cfg GamePending ip (serve_game e limits fuel a) w
      | Some Chat_Sel \<Rightarrow> admitted cfg GatewayClient ip (serve_gateway (rl_env e) limits fuel a) w
      | Some Bnftp_Sel \<Rightarrow> admitted cfg BnftpClient ip (serve_bnftp (rl_env e) dir a) w
      | None \<Rightarrow> Some ([], w))"

end
