(* ===== verification/Session_Place.thy ===== *)
theory Session_Place
  imports Session_Promises Limits_Rules
begin

text \<open>
  The place a game connection holds in the admission table. Every packet leaves the table and the
  number of connections alone but \<open>SID_AUTH_INFO\<close>, which moves the connection from one class to
  another; the cleanup leaves both alone, so what \<open>handle\<close> releases at the end is what the connection
  then holds.
\<close>

section \<open>The class a session holds\<close>

abbreviation same_place :: "session \<Rightarrow> session \<Rightarrow> bool" where
  "same_place s t \<equiv> ss_class t = ss_class s \<and> ss_ip t = ss_ip s"

lemma finish_logon_place: "finish_logon env now a s w = (t, v) \<Longrightarrow> same_place s t"
  by (auto simp: finish_logon_def Let_def split: prod.splits)

lemma logon_place: "same_place s (fst (snd (logon env now i body s w)))"
  by (auto simp: logon_def Let_def dest!: finish_logon_place split: option.splits prod.splits credential.splits)

lemma logon_proof_place: "same_place s (fst (snd (auth_account_logon_proof env now body s w)))"
  by (auto simp: auth_account_logon_proof_def Let_def dest!: finish_logon_place split: option.splits prod.splits)

lemma challenge_place: "same_place s (fst (snd (auth_account_logon env b body s w)))"
  by (auto simp: auth_account_logon_def Let_def split: option.splits prod.splits credential.splits)

lemma dispatch_place:
  assumes "fr_id f \<noteq> SID_AUTH_INFO"
  shows "same_place s (fst (snd (dispatch env tk f s w)))"
proof (cases "fr_id f \<in> logon_ids \<or> fr_id f = SID_AUTH_ACCOUNTLOGON")
  case True
  then show ?thesis
    using logon_place [of env "tk_now tk" SID_LOGONRESPONSE "fr_body f" s w] logon_proof_place [of env "tk_now tk" "fr_body f" s w]
      logon_place [of env "tk_now tk" SID_LOGONRESPONSE2 "fr_body f" s w] challenge_place [of env "tk_b tk" "fr_body f" s w]
    by (auto simp: dispatch_def logon_ids_def sid_defs)
qed (use dispatch_keeps [of f s env tk w] assms in \<open>simp add: kept_def\<close>)

section \<open>Who touches the admission table\<close>

definition places :: "admission_table \<times> u64 \<Rightarrow> node \<Rightarrow> bool" where
  "places tc n \<longleftrightarrow> (nd_admission n, nd_connections n) = tc"

lemma places_reach: "out_of_reach m = out_of_reach n \<Longrightarrow> places tc n \<Longrightarrow> places tc m"
  by (simp add: places_def out_of_reach_def)

lemma places_force_off: "places tc (snd (force_off hit notice n)) = places tc n"
proof -
  have "places tc (snd (fold (\<lambda>k (count, n). case fmlookup (nd_sessions n) k of
      None \<Rightarrow> (count, n)
    | Some e \<Rightarrow>
        if hit k e
        then (count + 1, (snd (send_to (se_out e) notice n))\<lparr>nd_killed := finsert (se_out e) (nd_killed n)\<rparr>)
        else (count, n)) ks (c, n))) = places tc n" for ks c and n :: node
    by (induction ks arbitrary: c n) (auto simp: places_def send_to_def Let_def case_prod_unfold split: option.split)
  then show ?thesis by (simp add: force_off_def)
qed

text \<open>The same as a predicate of the world's parts.\<close>

definition placed :: "admission_table \<times> u64 \<Rightarrow> node \<Rightarrow> 's \<Rightarrow> ban_store \<Rightarrow> bool" where
  "placed tc n st b \<longleftrightarrow> places tc n"

interpretation place: world_inv_logon "placed tc" env me "\<lambda>_. True" True True
  for env :: "'s env" and me and tc
proof (unfold_locales, unfold placed_def)
  fix n :: node assume n: "places tc n"
  note same = places_reach [OF _ n]
  show "places tc (snd (force_off hit notice n))" for hit notice using n by (simp add: places_force_off)
  show "places tc m" if "mint_realm_ticket a code cookie ids n = Some (r, m)" for a code cookie ids r m
    by (rule same [OF reach_mint [OF that]])
  show "places tc (snd (claim_key k now n))" for k now
    using n by (auto simp: places_def claim_key_def Let_def split: prod.split key_verdict.split)
  show "places tc (release_key k now n)" for k now using n by (simp add: places_def release_key_def Let_def)
  show "places tc (record_key_holder_name k name n)" for k name using n by (simp add: places_def record_key_holder_name_def Let_def)
  show "places tc (n\<lparr>nd_total_logins := so_far\<rparr>)" for so_far using n by (simp add: places_def)
  show "places tc (revoke_realm_ticket i n)" for i using n by (simp add: places_def revoke_realm_ticket_def)
qed (auto intro: places_reach)

text \<open>The connections open besides this one are \<open>M\<close>.\<close>

definition holds_place :: "connection multiset \<Rightarrow> u64 \<Rightarrow> session \<Rightarrow> 's world \<Rightarrow> bool" where
  "holds_place M c s w \<longleftrightarrow> counts (nd_admission (w_node w)) (add_mset (ss_class s, ss_ip s) M) \<and>
     nd_connections (w_node w) = c"

lemma holds_place_same:
  "holds_place M c s w \<Longrightarrow> same_place s t \<Longrightarrow>
   places (nd_admission (w_node w), nd_connections (w_node w)) (w_node v) \<Longrightarrow> holds_place M c t v"
  by (simp add: holds_place_def places_def)

lemma counts_reclassify:
  assumes "counts t (add_mset (old, ip) M)" and "size M < 2 ^ 32 - 1" and "reclassify ip old new l t = Ok t'"
  shows "counts t' (add_mset (new, ip) M)"
proof -
  have "counts (at_remove old ip t) M" using counts_remove [OF assms(1), of old ip] by simp
  from counts_add [OF this assms(2), of new ip] assms(1,3) show ?thesis by (auto simp: reclassify_Ok split: if_splits)
qed

abbreviation place_of :: "'s world \<Rightarrow> admission_table \<times> u64" where
  "place_of w \<equiv> (nd_admission (w_node w), nd_connections (w_node w))"

lemma place_holds: "place.holds tc w = places tc (w_node w)"
  by (simp add: place.holds_def placed_def)

lemma reply_place: "places tc (w_node w) \<Longrightarrow> places tc (w_node (snd (snd (reply f s w))))"
  using place.reply_holds [of tc w f s] by (simp add: place.good_def place_holds)

lemma auth_info_place:
  assumes "holds_place M c s w" and "size M < 2 ^ 32 - 1" and "auth_info env body s w = (r, t, v)"
  shows "holds_place M c t v \<and> ss_ip t = ss_ip s"
proof (cases "parse auth_info_fields body")
  case None
  with assms show ?thesis by (simp add: auth_info_def)
next
  case (Some x)
  obtain platform product vb where x: "x = (platform, product, vb)" by (cases x)
  let ?l = "for_class (clients (nc_policy (en_cfg env))) (GameClient product)"
  let ?R = "reclassify (ss_ip s) (ss_class s) (GameClient product) ?l (nd_admission (w_node w))"
  have fields: "ss_ip (set_statstring st u) = ss_ip u" "ss_class (set_statstring st u) = ss_class u" for st u
    by (simp_all add: set_statstring_def)
  show ?thesis
  proof (cases "\<exists>tb. ?R = Ok tb")
    case True
    then obtain tb where tb: "?R = Ok tb" by blast
    have "counts tb (add_mset (GameClient product, ss_ip s) M)"
      using counts_reclassify [OF _ assms(2) tb] assms(1) by (simp add: holds_place_def)
    moreover obtain F S where fs: "auth_info env body s w = reply F S (w\<lparr>w_node := (w_node w)\<lparr>nd_admission := tb\<rparr>\<rparr>)"
      "ss_ip S = ss_ip s" "ss_class S = GameClient product"
    proof -
      define S0 where "S0 = set_statstring (build_default product)
        (s\<lparr>ss_product := Some product, ss_platform := Some platform, ss_version_byte := Some vb\<rparr>)"
      have S0: "ss_ip S0 = ss_ip s" "ss_class S0 = ss_class s" by (simp_all add: S0_def fields)
      have R: "node_reclassify (en_cfg env) (ss_ip S0) (ss_class S0) (GameClient product) (w_node w) =
          (Ok (), (w_node w)\<lparr>nd_admission := tb\<rparr>)"
        unfolding S0 node_reclassify_def tb outcome.case ..
      show thesis
        by (rule that) (unfold auth_info_def Let_def Some x option.case prod.case, fold S0_def,
          unfold R prod.case outcome.case, rule refl, simp_all add: S0)
    qed
    moreover have "t = S" using fs(1) assms(3) reply_same [of F S] by (metis fst_conv snd_conv)
    moreover have v: "v = snd (snd (reply F S (w\<lparr>w_node := (w_node w)\<lparr>nd_admission := tb\<rparr>\<rparr>)))"
      using fs(1) assms(3) by (metis snd_conv)
    have "places (tb, nd_connections (w_node w)) (w_node v)"
      unfolding v by (rule reply_place) (simp add: places_def)
    ultimately show ?thesis using assms(1) by (simp add: holds_place_def places_def)
  next
    case False
    then have "node_reclassify (en_cfg env) (ss_ip s) (ss_class s) (GameClient product) (w_node w) =
        (case ?R of Err e \<Rightarrow> (Err e, w_node w) | _ \<Rightarrow> (Panic, w_node w))"
      by (auto simp: node_reclassify_def split: outcome.split)
    with False assms Some x show ?thesis
      by (auto simp: auth_info_def Let_def fields holds_place_def split: outcome.splits)
  qed
qed


section \<open>From packets to the connection\<close>

lemma serve_place:
  assumes "holds_place M c s w" and "size M < 2 ^ 32 - 1" and "d2_is_safe (ss_statstring s)"
    and "serve env tk f (s, w) = (t, v)"
  shows "holds_place M c t v \<and> ss_ip t = ss_ip s"
proof (cases "accepts (ss_state s) (fr_id f)")
  case True
  obtain r t0 v0 where d: "dispatch env tk f s w = (r, t0, v0)" by (cases "dispatch env tk f s w") auto
  have "holds_place M c t0 v0 \<and> ss_ip t0 = ss_ip s"
  proof (cases "fr_id f = SID_AUTH_INFO")
    case True
    then have "auth_info env (fr_body f) s w = (r, t0, v0)" using d by (simp add: dispatch_def Let_def)
    then show ?thesis using auth_info_place [OF assms(1,2)] by blast
  next
    case False
    define me where "me = (case ss_account s of Some a \<Rightarrow> na_id a | None \<Rightarrow> 0)"
    have "place.mine me s" using assms(3) by (auto simp: place.mine_def me_def)
    with place.dispatch_others_hold [of "place_of w" w me s f env tk] False d
    have "places (place_of w) (w_node v0)"
      by (simp add: place_holds place.good_def places_def)
    with holds_place_same [OF assms(1)] dispatch_place [OF False, of env tk s w] d show ?thesis by simp
  qed
  moreover have "v = v0" "same_place t0 t"
    using assms(4) True d by (auto simp: serve_def advance_state_def split: step.splits option.splits if_splits)
  ultimately show ?thesis by (auto simp: holds_place_def)
qed (use assms in \<open>auto simp: serve_def holds_place_def split: if_splits\<close>)

text \<open>What the loops keep: the place, and a safe statstring.\<close>

definition placed_session :: "connection multiset \<Rightarrow> u64 \<Rightarrow> ip_addr \<Rightarrow> session \<times> 's world \<Rightarrow> bool" where
  "placed_session M c ip x \<longleftrightarrow> holds_place M c (fst x) (snd x) \<and> ss_ip (fst x) = ip \<and> login_inv (fst x)"

lemma placed_serve:
  assumes "placed_session M c ip x" and "size M < 2 ^ 32 - 1"
  shows "placed_session M c ip (serve env tk f x)"
proof -
  obtain s w t v where x: "x = (s, w)" and s: "serve env tk f (s, w) = (t, v)" by (metis surj_pair)
  have "d2_is_safe (ss_statstring s)" using assms(1) x by (simp add: placed_session_def login_inv_def)
  from serve_place [OF _ assms(2) this s, of c] serve_inv [of s env tk f w] assms(1) x s
  show ?thesis by (simp add: placed_session_def)
qed

lemma placed_closing: "placed_session M c ip (s, w) \<Longrightarrow> placed_session M c ip (s\<lparr>ss_state := Closing\<rparr>, w)"
  by (auto simp: placed_session_def holds_place_def login_inv_def authenticated_def)

lemma frame_of_length: "frame_of mx buf = Ok (Some (f, n)) \<Longrightarrow> 4 \<le> n \<and> n \<le> length buf"
  by (auto simp: frame_of_def Let_def split: if_splits)

lemma drain_session_place:
  assumes "rb_wf q" and "length (unread q) < fuel" and "placed_session M c ip (s, w)" and "size M < 2 ^ 32 - 1"
  shows "\<exists>q' j t v. drain_session env mx ticks fuel (q, i, s, w) = Some (q', j, t, v) \<and> rb_wf q' \<and>
    length (unread q') \<le> length (unread q) \<and> placed_session M c ip (t, v)"
  using assms(1-3)
proof (induction fuel arbitrary: q i s w)
  case (Suc fuel)
  show ?case
  proof (cases "\<exists>f n. frame_of mx (unread q) = Ok (Some (f, n))")
    case True
    then obtain f n where f: "frame_of mx (unread q) = Ok (Some (f, n))" by blast
    note n = frame_of_length [OF f]
    obtain t v where s: "serve env (ticks i) f (s, w) = (t, v)" by (rule prod.exhaust)
    have p: "placed_session M c ip (t, v)" using placed_serve [OF Suc.prems(3) assms(4), of env "ticks i" f] s by simp
    have wf: "rb_wf (rb_consume n q)" "length (unread (rb_consume n q)) < fuel"
      "length (unread (rb_consume n q)) \<le> length (unread q)" using Suc.prems n by (simp_all, linarith)
    show ?thesis
    proof (cases "ss_state t = Closing")
      case False
      from Suc.IH [OF wf(1,2) p, of "i + 1"] wf(3) show ?thesis
        using False f s Suc.prems(1) by (fastforce simp: decode_frame_of)
    qed (use p wf f s Suc.prems(1) in \<open>simp add: decode_frame_of\<close>)
  next
    case False
    then show ?thesis using Suc.prems placed_closing [OF Suc.prems(3)]
      by (cases "frame_of mx (unread q)") (auto simp: decode_frame_of split: option.splits)
  qed
qed simp

lemma read_session_place:
  assumes "size M < 2 ^ 32 - 1"
  shows "rb_wf q \<Longrightarrow> length (unread q) + length (concat chunks) < fuel \<Longrightarrow> placed_session M c ip (s, w) \<Longrightarrow>
    \<exists>q' j t v. read_session env mx ticks fuel chunks (q, i, s, w) = Some (q', j, t, v) \<and> placed_session M c ip (t, v)"
proof (induction chunks arbitrary: q i s w)
  case (Cons chunk chunks)
  have "length (unread (rb_extend chunk q)) < fuel" using Cons.prems by simp
  from drain_session_place [OF _ this Cons.prems(3) assms, of env mx ticks i] Cons.prems(1) obtain q1 j t v where
    d: "drain_session env mx ticks fuel (rb_extend chunk q, i, s, w) = Some (q1, j, t, v)" "rb_wf q1"
       "length (unread q1) \<le> length (unread q) + length chunk" "placed_session M c ip (t, v)"
    by auto
  then have "length (unread q1) + length (concat chunks) < fuel" using Cons.prems(2) by simp
  from Cons.IH [OF d(2) this d(4), of j] d show ?case by auto
qed simp

lemma cleanup_place:
  assumes "placed_session M c ip (s, w)" and "cleanup now s w = (t, v)"
  shows "holds_place M c t v \<and> ss_ip t = ip"
proof -
  define me where "me = (case ss_account s of Some a \<Rightarrow> na_id a | None \<Rightarrow> 0)"
  have "place.mine me s" using assms(1) by (auto simp: place.mine_def me_def placed_session_def login_inv_def)
  with place.cleanup_holds [of "place_of w" w me s now] assms(2) have "places (place_of w) (w_node v)"
    by (simp add: place_holds places_def)
  moreover have same: "same_place s t" using assms(2) by (auto simp: cleanup_def Let_def)
  moreover have h: "holds_place M c s w" "ss_ip s = ip" using assms(1) by (simp_all add: placed_session_def)
  ultimately have "holds_place M c t v" by (intro holds_place_same [OF h(1)])
  with same h(2) show ?thesis by simp
qed

text \<open>
  A whole BNCS connection: served to its end with fuel for every byte it sends, it leaves in the
  table exactly the place of the class it ends in.
\<close>

lemma bncs_session_place:
  assumes "counts (nd_admission (w_node w)) (add_mset (GamePending, ip) M)" and "size M < 2 ^ 32 - 1"
    and "length (concat chunks) < fuel"
  shows "\<exists>t v. bncs_session env mx ticks fuel chunks over (session_new h ip token flood now l) w = Some (t, v) \<and>
    counts (nd_admission (w_node v)) (add_mset (ss_class t, ip) M) \<and>
    nd_connections (w_node v) = nd_connections (w_node w)"
proof -
  let ?s = "session_new h ip token flood now l" and ?c = "nd_connections (w_node w)"
  obtain r s1 w1 where r: "reply (ping_frame ?s) ?s w = (r, s1, w1)" by (metis surj_pair)
  have s1: "s1 = ?s" using reply_same [of "ping_frame ?s" ?s w] r by simp
  have "places (place_of w) (w_node w1)" using reply_place [of "place_of w" w "ping_frame ?s" ?s] r by (simp add: places_def)
  then have p: "placed_session M ?c ip (?s, w1)"
    using assms(1) session_new_inv by (simp add: placed_session_def holds_place_def places_def session_new_def)
  show ?thesis
  proof (cases r)
    case StepClose
    have "ss_ip ?s = ip" by (simp add: session_new_def)
    with StepClose show ?thesis using p r s1 by (simp add: bncs_session_def placed_session_def holds_place_def)
  next
    case StepContinue
    from read_session_place [OF assms(2) _ _ p, of rb_new chunks fuel env mx ticks 0] assms(3)
    obtain q j t v where d: "read_session env mx ticks fuel chunks (rb_new, 0, ?s, w1) = Some (q, j, t, v)"
      "placed_session M ?c ip (t, v)" by auto
    obtain t' v' where "cleanup over t v = (t', v')" by (rule prod.exhaust)
    with cleanup_place [OF d(2) this] d(1) r s1 StepContinue show ?thesis
      by (auto simp: bncs_session_def holds_place_def)
  qed
qed

end
