(* ===== verification/Realm_Rules.thy ===== *)
theory Realm_Rules
  imports Realm Session_Rules
begin

text \<open>
  What the Diablo II realm promises. The locale \<open>realm_invariant\<close> carries a fact about the output,
  the session and the world from one request to a whole connection, given what frames the
  peer may send; it is interpreted for the frame that shows a session's ticket, for the characters of
  other accounts, and for the shape of the characters stored. The rules of the lobby follow.
\<close>

section \<open>The frames a peer sends\<close>

text \<open>
  The frames at the front of a byte string, one after the other, up to the first that is not whole or
  is malformed: what a connection can ever decode of the bytes it is sent, however they are cut.
\<close>

lemma mcp_frame_of_length: "mcp_frame_of m buf = Ok (Some (f, n)) \<Longrightarrow> 3 \<le> n \<and> n \<le> length buf"
  by (auto simp: mcp_frame_of_def Let_def split: if_splits)

lemma mcp_frame_of_more: "mcp_frame_of m buf = Ok (Some (f, n)) \<Longrightarrow> mcp_frame_of m (buf @ ys) = Ok (Some (f, n))"
  by (auto simp: mcp_frame_of_def Let_def nth_append split: if_splits)

function sent_frames :: "nat \<Rightarrow> bytes \<Rightarrow> mcp_frame list" where
  "sent_frames m bs =
     (case mcp_frame_of m bs of
        Ok (Some (f, n)) \<Rightarrow> f # sent_frames m (drop n bs)
      | _ \<Rightarrow> [])"
  by pat_completeness auto
termination
  by (relation "measure (\<lambda>(m, bs). length bs)") (auto dest: mcp_frame_of_length)

declare sent_frames.simps [simp del]

lemma sent_frames_next: "mcp_frame_of m bs = Ok (Some (f, n)) \<Longrightarrow>
    sent_frames m (bs @ ys) = f # sent_frames m (drop n bs @ ys)"
  using mcp_frame_of_length [of m bs f n] mcp_frame_of_more [of m bs f n ys]
  by (simp add: sent_frames.simps [of m "bs @ ys"])

section \<open>From one request to a connection\<close>

text \<open>What every request keeps that comes in a frame the peer may send.\<close>

locale realm_invariant =
  fixes e :: "'s realm_env"
    and may :: "mcp_frame \<Rightarrow> bool"
    and holds :: "bytes \<times> mcp_session \<times> 's world \<Rightarrow> bool"
  assumes serve_keeps: "holds c \<Longrightarrow> may f \<Longrightarrow> holds (snd (mcp_serve e now f c))"
begin

definition may_all :: "nat \<Rightarrow> bytes \<Rightarrow> bool" where
  "may_all mx bs \<longleftrightarrow> (\<forall>f \<in> set (sent_frames mx bs). may f)"

lemma drain_keeps: "holds c \<Longrightarrow> rb_wf q \<Longrightarrow> may_all mx (unread q @ rest) \<Longrightarrow>
   mcp_drain e mx ticks fuel q (i, c) = Some (b, q', j, c') \<Longrightarrow>
   holds c' \<and> rb_wf q' \<and> may_all mx (unread q' @ rest)"
proof (induction fuel arbitrary: q i c)
  case (Suc fuel)
  show ?case
  proof (cases "\<exists>f n. mcp_frame_of mx (unread q) = Ok (Some (f, n))")
    case True
    then obtain f n where f: "mcp_frame_of mx (unread q) = Ok (Some (f, n))" by blast
    then have d: "mcp_decode_frame mx q = Ok (Some f, rb_consume n q)"
      using Suc.prems(2) by (simp add: mcp_decode_frame_of)
    have n: "n \<le> length (unread q)" using mcp_frame_of_length [OF f] by simp
    have may: "may f" "may_all mx (drop n (unread q) @ rest)"
      using Suc.prems(3) sent_frames_next [OF f, of rest] by (simp_all add: may_all_def)
    obtain k c1 where s: "mcp_serve e (ticks i) f c = (k, c1)" by (rule prod.exhaust)
    have "holds c1" using serve_keeps [OF Suc.prems(1) may(1), of "ticks i"] s by simp
    moreover have "rb_wf (rb_consume n q)" "unread (rb_consume n q) = drop n (unread q)"
      using Suc.prems(2) n by simp_all
    ultimately show ?thesis
      using Suc.IH [of c1 "rb_consume n q" "i + 1"] Suc.prems(4) d s may(2) by (cases k) simp_all
  qed (use Suc.prems in \<open>auto simp: mcp_decode_frame_of split: outcome.splits option.splits prod.splits\<close>)
qed simp

lemma loop_keeps: "holds c \<Longrightarrow> rb_wf q \<Longrightarrow> may_all mx (unread q @ concat chunks) \<Longrightarrow>
   mcp_session_loop e mx ticks fuel chunks q (i, c) = Some (j, c') \<Longrightarrow> holds c'"
proof (induction chunks arbitrary: q i c)
  case (Cons chunk chunks)
  show ?case
  proof (cases "chunk = []")
    case False
    with Cons.prems(4) obtain b q1 i1 c1 where
      d: "mcp_drain e mx ticks fuel (rb_extend chunk q) (i, c) = Some (b, q1, i1, c1)"
      by (auto split: option.splits prod.splits)
    have "rb_wf (rb_extend chunk q)" "may_all mx (unread (rb_extend chunk q) @ concat chunks)"
      using Cons.prems(2,3) by simp_all
    from drain_keeps [OF Cons.prems(1) this d] Cons.IH [of c1 q1 i1] Cons.prems(4) d False
    show ?thesis by (cases b) simp_all
  qed (use Cons.prems in simp)
qed simp

lemma connection_keeps:
  assumes "holds ([], \<lparr>mc_ip = ip, mc_local = l, mc_ticket = None, mc_selected = None\<rparr>, w)"
    and "\<And>f. f \<in> set (sent_frames (max mx MCP_DEFAULT_MAX_FRAME) (concat chunks)) \<Longrightarrow> may f"
    and "mcp_connection e mx ticks fuel chunks ip l w = Some (n, out, s, w')"
  shows "holds (out, s, w')"
  using assms(3) unfolding mcp_connection_def
  by (rule loop_keeps [OF assms(1), rotated -1]) (simp_all add: may_all_def assms(2))

end

section \<open>Enough fuel\<close>

lemma mcp_drain_total:
  assumes "rb_wf q" and "length (unread q) < fuel"
  shows "\<exists>b q' c'. mcp_drain e mx ticks fuel q (i, c) = Some (b, q', c') \<and> rb_wf q' \<and>
    length (unread q') \<le> length (unread q)"
  using assms
proof (induction fuel arbitrary: q i c)
  case (Suc fuel)
  show ?case
  proof (cases "mcp_frame_of mx (unread q)")
    case (Ok x)
    show ?thesis
    proof (cases x)
      case (Some fn)
      obtain f n where fn: "fn = (f, n)" by (cases fn)
      obtain k c1 where s: "mcp_serve e (ticks i) f c = (k, c1)" by (cases "mcp_serve e (ticks i) f c")
      have n: "3 \<le> n" "n \<le> length (unread q)" using mcp_frame_of_length Ok Some fn by auto
      then have "length (unread (rb_consume n q)) < fuel" using Suc.prems by simp
      from Suc.IH [OF _ this, of "i + 1" c1] obtain b q' c' where
        "mcp_drain e mx ticks fuel (rb_consume n q) (i + 1, c1) = Some (b, q', c')" "rb_wf q'"
        "length (unread q') \<le> length (unread q)"
        using Suc.prems by auto
      then show ?thesis using Suc.prems Ok Some fn s
        by (cases k) (auto simp: mcp_decode_frame_of simp del: split_paired_Ex)
    qed (use Suc.prems Ok in \<open>auto simp: mcp_decode_frame_of simp del: split_paired_Ex\<close>)
  qed (use Suc.prems in \<open>auto simp: mcp_decode_frame_of simp del: split_paired_Ex\<close>)
qed simp

lemma mcp_loop_total:
  "rb_wf q \<Longrightarrow> length (unread q) + length (concat chunks) < fuel \<Longrightarrow>
   \<exists>r. mcp_session_loop e mx ticks fuel chunks q c = Some r"
proof (induction chunks arbitrary: q c)
  case (Cons chunk chunks)
  obtain i d where c: "c = (i, d)" by (cases c)
  have "length (unread (rb_extend chunk q)) < fuel" using Cons.prems by simp
  from mcp_drain_total [OF _ this, of e mx ticks i d] obtain b q' c' where
    d: "mcp_drain e mx ticks fuel (rb_extend chunk q) (i, d) = Some (b, q', c')" "rb_wf q'"
       "length (unread q') \<le> length (unread q) + length chunk"
    using Cons.prems by auto
  then have "length (unread q') + length (concat chunks) < fuel" using Cons.prems by simp
  from Cons.IH [OF d(2) this, of c'] show ?case using d(1) c
    by (cases "chunk = []"; cases b) (auto simp del: split_paired_Ex)
qed (simp del: split_paired_Ex)

lemma mcp_connection_total:
  "length (concat chunks) < fuel \<Longrightarrow> \<exists>r. mcp_connection e mx ticks fuel chunks ip l w = Some r"
  unfolding mcp_connection_def by (rule mcp_loop_total) simp_all

section \<open>The roster\<close>

text \<open>
  What a request of an account may do to the characters stored: nothing, add one of its own whose
  name nobody has, change the progress of one of its own (never back from the expansion), or remove
  its character of a name.
\<close>

definition char_wf :: "d2_character \<Rightarrow> bool" where
  "char_wf c \<longleftrightarrow> valid_character_name (c_name c) \<and> class_is_valid (c_class c) \<and>
     (class_expansion_only (c_class c) \<longrightarrow> has_status c D2_EXPANSION)"

inductive roster_step :: "account_id \<Rightarrow> d2_character list \<Rightarrow> d2_character list \<Rightarrow> bool" for i where
  roster_same: "roster_step i cs cs"
| roster_made: "c_account c = i \<Longrightarrow> char_wf c \<Longrightarrow> \<not> list_ex (\<lambda>d. eq_nocase (c_name d) (c_name c)) cs \<Longrightarrow>
    roster_step i cs (cs @ [c])"
| roster_touched: "p < length cs \<Longrightarrow> c_account (cs ! p) = i \<Longrightarrow>
    c_account c = i \<Longrightarrow> c_name c = c_name (cs ! p) \<Longrightarrow> c_class c = c_class (cs ! p) \<Longrightarrow>
    (has_status (cs ! p) D2_EXPANSION \<longrightarrow> has_status c D2_EXPANSION) \<Longrightarrow>
    roster_step i cs (cs[p := c])"
| roster_removed: "roster_step i cs (filter (\<lambda>c. \<not> (c_account c = i \<and> eq_nocase (c_name c) name)) cs)"

definition roster_wf :: "d2_character list \<Rightarrow> bool" where
  "roster_wf cs \<longleftrightarrow> list_all char_wf cs \<and> distinct (map (\<lambda>c. lowercase (c_name c)) cs)"

lemma roster_step_others:
  "roster_step i cs cs' \<Longrightarrow> a \<noteq> i \<Longrightarrow> filter (\<lambda>c. c_account c = a) cs' = filter (\<lambda>c. c_account c = a) cs"
proof (induction rule: roster_step.induct)
  case (roster_touched p cs c)
  have "filter (\<lambda>c. c_account c = a) (take p cs @ cs ! p # drop (Suc p) cs) =
      filter (\<lambda>c. c_account c = a) (take p cs @ c # drop (Suc p) cs)"
    using roster_touched by simp
  then show ?case using roster_touched(1) by (simp only: id_take_nth_drop [symmetric] upd_conv_take_nth_drop)
qed (auto simp: filter_filter intro: filter_cong)

lemma roster_step_wf: "roster_step i cs cs' \<Longrightarrow> roster_wf cs \<Longrightarrow> roster_wf cs'"
proof (induction rule: roster_step.induct)
  case (roster_made c cs)
  then show ?case by (auto simp: roster_wf_def list_ex_iff eq_nocase_def)
next
  case (roster_touched p cs c)
  have "map (\<lambda>c. lowercase (c_name c)) (cs[p := c]) = map (\<lambda>c. lowercase (c_name c)) cs"
    using roster_touched by (simp add: map_update list_update_same_conv)
  moreover have "list_all char_wf (cs[p := c])"
  proof -
    have "char_wf (cs ! p)" using roster_touched by (simp add: roster_wf_def list_all_length)
    then have "char_wf c" using roster_touched by (auto simp: char_wf_def)
    then show ?thesis using roster_touched
      by (auto simp: roster_wf_def list_all_iff dest!: set_update_subset_insert [THEN subsetD])
  qed
  ultimately show ?case using roster_touched by (simp add: roster_wf_def)
next
  case (roster_removed cs name)
  then show ?case by (auto simp: roster_wf_def list_all_iff distinct_map intro: inj_on_subset)
qed simp

section \<open>The requests on the reference backend\<close>

lemma act_characters_mem: "act_characters memory_ops i st = (Some (filter (\<lambda>c. c_account c = i) (ms_characters st)), st)"
  by (simp add: act_characters_def memory_ops_simps mem_characters_def)

lemma act_by_name_mem:
  "act_character_by_name memory_ops name st = (find (\<lambda>c. eq_nocase (c_name c) name) (ms_characters st), st)"
  by (simp add: act_character_by_name_def memory_ops_simps mem_character_by_name_def)

lemma own_character_mem:
  "realm_ops e = memory_ops \<Longrightarrow> own_character e name s st =
     (case find (\<lambda>c. eq_nocase (c_name c) name) (ms_characters st) of
        Some c \<Rightarrow> if usable s c then Some c else None | None \<Rightarrow> None, st)"
  by (simp add: own_character_def act_by_name_mem)

lemma playing_mem: "realm_ops e = memory_ops \<Longrightarrow> snd (playing e s st) = st"
  by (simp add: playing_def own_character_mem split: option.split)

lemma selected_is_dead_mem: "realm_ops e = memory_ops \<Longrightarrow> snd (selected_is_dead e s st) = st"
  by (simp add: selected_is_dead_def own_character_mem split: option.split)

lemma visible_characters_mem: "realm_ops e = memory_ops \<Longrightarrow> snd (visible_characters e s st) = st"
  by (simp add: visible_characters_def act_characters_mem)

lemma walk_keeps_store:
  assumes "\<And>a. snd (f a s) = s"
  shows "snd (walk_accounts n memory_ops f off s) = s"
proof (induction n arbitrary: off)
  case (Suc n)
  define w where "w = walk_accounts n memory_ops f (off + word_of_nat (length (take 500 (drop (unat off) (all_accounts s))))) s"
  have "w = (fst w, s)" using Suc by (simp add: w_def prod_eq_iff)
  then obtain rest where "w = (rest, s)" by blast
  then show ?case unfolding walk_step [of f s, OF assms] Let_def w_def [symmetric] by simp
qed (simp add: walk_accounts.simps)

lemma act_all_characters_mem: "snd (act_all_characters n memory_ops st) = st"
  unfolding act_all_characters_def
  by (rule walk_keeps_store) (simp add: memory_ops_simps mem_characters_def)

text \<open>The outcome of a request: the session keeps its ticket, and the store changes by a roster step.\<close>

definition request_ok :: "mcp_session \<Rightarrow> memory_storage world \<Rightarrow> mcp_session \<Rightarrow> memory_storage world \<Rightarrow> bool" where
  "request_ok s w s' w' \<longleftrightarrow> mc_ticket s' = mc_ticket s \<and>
     (\<exists>cs. roster_step (mcp_account s) (ms_characters (w_store w)) cs \<and>
           w' = w\<lparr>w_store := (w_store w)\<lparr>ms_characters := cs\<rparr>\<rparr>)"

lemma request_ok_same [simp]: "mc_ticket s' = mc_ticket s \<Longrightarrow> request_ok s w s' w"
  unfolding request_ok_def by (intro conjI exI [of _ "ms_characters (w_store w)"] roster_same) simp_all

lemma request_ok_store [simp]: "st = w_store w \<Longrightarrow> mc_ticket s' = mc_ticket s \<Longrightarrow> request_ok s w s' (w\<lparr>w_store := st\<rparr>)"
  by simp

lemma request_okI:
  "mc_ticket s' = mc_ticket s \<Longrightarrow> roster_step (mcp_account s) (ms_characters (w_store w)) cs \<Longrightarrow>
   st = (w_store w)\<lparr>ms_characters := cs\<rparr> \<Longrightarrow> request_ok s w s' (w\<lparr>w_store := st\<rparr>)"
  unfolding request_ok_def by blast

lemma find_then_update:
  assumes "find (\<lambda>c. eq_nocase (c_name c) name) cs = Some c"
  obtains p where "find_index (\<lambda>d. c_account d = c_account c \<and> eq_nocase (c_name d) (c_name c)) cs = Some p"
    and "p < length cs" and "cs ! p = c"
proof -
  obtain p where p: "p < length cs" "eq_nocase (c_name (cs ! p)) name" "c = cs ! p"
    "\<forall>j < p. \<not> eq_nocase (c_name (cs ! j)) name"
    using assms by (auto simp: find_Some_iff)
  then have "find_index (\<lambda>d. c_account d = c_account c \<and> eq_nocase (c_name d) (c_name c)) cs = Some p"
    by (auto simp: find_index_Some_iff eq_nocase_def)
  with p show thesis by (intro that) simp_all
qed

lemma update_is_a_step:
  assumes "find (\<lambda>c. eq_nocase (c_name c) name) (ms_characters st) = Some c" and "c_account c = i"
    and "c_account d = c_account c" "c_name d = c_name c"
    and "has_status c D2_EXPANSION \<Longrightarrow> has_status d D2_EXPANSION"
  shows "\<exists>cs. roster_step i (ms_characters st) cs \<and>
    act_update_character memory_ops d st = (Some True, st\<lparr>ms_characters := cs\<rparr>)"
proof -
  obtain p where p: "find_index (\<lambda>x. c_account x = c_account c \<and> eq_nocase (c_name x) (c_name c)) (ms_characters st) = Some p"
    "p < length (ms_characters st)" "ms_characters st ! p = c"
    using find_then_update [OF assms(1)] .
  let ?d = "c\<lparr>c_status := c_status d, c_level := c_level d, c_progression := c_progression d,
              c_last_played := c_last_played d, c_save := c_save d\<rparr>"
  have "roster_step i (ms_characters st) ((ms_characters st)[p := ?d])"
    using p assms by (intro roster_touched) (auto simp: has_status_def)
  with p assms(3,4) show ?thesis
    by (auto simp: act_update_character_def memory_ops_simps mem_update_character_def)
qed

lemma create_is_a_step:
  assumes "c_account c = i" and "char_wf c"
  shows "\<exists>cs. roster_step i (ms_characters st) cs \<and>
    snd (act_create_character memory_ops c st) = st\<lparr>ms_characters := cs\<rparr>"
proof (cases "fmlookup (ms_accounts st) (c_account c) \<noteq> None \<and>
    \<not> list_ex (\<lambda>d. eq_nocase (c_name d) (c_name c)) (ms_characters st)")
  case True
  then have "roster_step i (ms_characters st) (ms_characters st @ [c])" using assms by (intro roster_made) simp_all
  with True show ?thesis by (auto simp: act_create_character_def memory_ops_simps mem_create_character_def)
next
  case False
  then have "snd (act_create_character memory_ops c st) = st\<lparr>ms_characters := ms_characters st\<rparr>"
    by (auto simp: act_create_character_def memory_ops_simps mem_create_character_def)
  with roster_same show ?thesis by blast
qed

lemma char_create_ok:
  assumes "realm_ops e = memory_ops" and "char_create e now f s w = (r, s', w')"
  shows "request_ok s w s' w'"
proof (cases "parse char_create_fields (mf_body f)")
  case (Some x)
  obtain cls word name where x: "x = (cls, word, name)" by (cases x)
  let ?status = "ucast (word AND 0xFF) AND D2_CREATABLE :: u8"
  let ?c = "\<lparr>c_account = mcp_account s, c_name = name, c_class = ucast cls, c_status = ?status,
      c_level = 1, c_progression = 0, c_created_at = now, c_last_played = now, c_save = None\<rparr>"
  show ?thesis
  proof (cases "may_create cls ?status name s")
    case True
    then have "char_wf ?c" by (auto simp: char_wf_def may_create_def has_status_def)
    from create_is_a_step [OF _ this] obtain cs where
      cs: "roster_step (mcp_account s) (ms_characters (w_store w)) cs"
        "snd (act_create_character memory_ops ?c (w_store w)) = (w_store w)\<lparr>ms_characters := cs\<rparr>"
      by fastforce
    with True assms Some x show ?thesis
      by (auto simp: char_create_def Let_def act_characters_mem split: prod.splits if_splits outcome.splits
          create_character_error.splits intro: request_okI)
  qed (use assms Some x in \<open>auto simp: char_create_def Let_def\<close>)
qed (use assms in \<open>auto simp: char_create_def\<close>)

lemma char_logon_ok:
  assumes "realm_ops e = memory_ops" and "char_logon e now f s w = (r, s', w')"
  shows "request_ok s w s' w'"
proof -
  obtain name r where n: "rd_text (rd_new (mf_body f)) = (name, r)" by (rule prod.exhaust)
  show ?thesis
  proof (cases "find (\<lambda>c. eq_nocase (c_name c) name) (ms_characters (w_store w))")
    case (Some c)
    show ?thesis
    proof (cases "usable s c")
      case True
      from update_is_a_step [OF Some, of "mcp_account s" "c\<lparr>c_last_played := now\<rparr>"] obtain cs where
        cs: "roster_step (mcp_account s) (ms_characters (w_store w)) cs"
          "act_update_character memory_ops (c\<lparr>c_last_played := now\<rparr>) (w_store w) = (Some True, (w_store w)\<lparr>ms_characters := cs\<rparr>)"
        using True by (auto simp: has_status_def usable_def)
      with True Some n assms show ?thesis
        by (auto simp: char_logon_def own_character_mem intro: request_okI)
    qed (use n Some assms in \<open>auto simp: char_logon_def own_character_mem\<close>)
  qed (use n assms in \<open>auto simp: char_logon_def own_character_mem\<close>)
qed

lemma char_delete_ok:
  assumes "realm_ops e = memory_ops" and "char_delete e f s w = (r, s', w')"
  shows "request_ok s w s' w'"
  using assms
  by (auto simp: char_delete_def Let_def act_delete_character_def memory_ops_simps mem_delete_character_def
      split: prod.splits if_splits intro!: request_okI [OF _ roster_removed])

lemma char_upgrade_ok:
  assumes "realm_ops e = memory_ops" and "char_upgrade e f s w = (r, w')"
  shows "request_ok s w s w'"
proof -
  obtain name r where n: "rd_text (rd_new (mf_body f)) = (name, r)" by (rule prod.exhaust)
  show ?thesis
  proof (cases "find (\<lambda>c. eq_nocase (c_name c) name) (ms_characters (w_store w))")
    case (Some c)
    let ?d = "c\<lparr>c_status := c_status c OR D2_EXPANSION\<rparr>"
    show ?thesis
    proof (cases "c_account c = mcp_account s")
      case True
      have "has_status ?d D2_EXPANSION" by (simp add: has_status_def D2_EXPANSION_def bit.conj_disj_distrib2)
      with update_is_a_step [OF Some True, of ?d] obtain cs where
        cs: "roster_step (mcp_account s) (ms_characters (w_store w)) cs"
          "act_update_character memory_ops ?d (w_store w) = (Some True, (w_store w)\<lparr>ms_characters := cs\<rparr>)"
        by auto
      with True Some n assms show ?thesis
        by (auto simp: char_upgrade_def act_by_name_mem split: if_splits intro: request_okI)
    qed (use n Some assms in \<open>auto simp: char_upgrade_def act_by_name_mem\<close>)
  qed (use n assms in \<open>auto simp: char_upgrade_def act_by_name_mem\<close>)
qed

text \<open>The requests that only read.\<close>

lemma char_list_ok: "realm_ops e = memory_ops \<Longrightarrow> snd (char_list e f x s w) = w"
  using visible_characters_mem [of e s "w_store w"]
  by (auto simp: char_list_def Let_def split: prod.splits)

lemma game_list_ok: "realm_ops e = memory_ops \<Longrightarrow> snd (realm_game_list e f s w) = w"
  using playing_mem [of e s "w_store w"]
  by (auto simp: realm_game_list_def Let_def split: prod.splits)

lemma create_game_ok: "realm_ops e = memory_ops \<Longrightarrow> snd (create_game e f s w) = w"
  using playing_mem [of e s "w_store w"] selected_is_dead_mem [of e s "w_store w"]
  by (auto simp: create_game_def Let_def split: prod.splits if_splits)

lemma join_game_ok: "realm_ops e = memory_ops \<Longrightarrow> snd (join_game e f s w) = w"
  using playing_mem [of e s "w_store w"]
  by (auto simp: join_game_def Let_def split: prod.splits)

lemma ladder_data_ok: "realm_ops e = memory_ops \<Longrightarrow> snd (realm_ladder_data e f s w) = w"
  using act_all_characters_mem [of "en_pages (rl_env e)" "w_store w"]
  by (auto simp: realm_ladder_data_def Let_def split: prod.splits)

lemmas read_requests = game_list_ok create_game_ok join_game_ok ladder_data_ok

text \<open>Every request of a connection that holds a ticket.\<close>

lemma mcp_handle_ok:
  assumes "realm_ops e = memory_ops" and "mf_id f \<noteq> MCP_STARTUP" and "mcp_handle e now f s w = ((rs, k), s', w')"
  shows "request_ok s w s' w'"
  using assms(2,3) read_requests [OF assms(1), of f, where s = s and w = w]
    char_list_ok [OF assms(1), of f True s w] char_list_ok [OF assms(1), of f False s w]
  unfolding mcp_handle_def
  by (auto simp: Let_def split: if_splits prod.splits intro: char_create_ok [OF assms(1)] char_logon_ok [OF assms(1)]
      char_delete_ok [OF assms(1)] char_upgrade_ok [OF assms(1)])


section \<open>What holds of a whole connection\<close>

definition start_session :: "ip_addr \<Rightarrow> (ip_addr \<times> u16) option \<Rightarrow> mcp_session" where
  "start_session ip l = \<lparr>mc_ip = ip, mc_local = l, mc_ticket = None, mc_selected = None\<rparr>"

text \<open>The bytes of a refused startup.\<close>

definition refusal :: bytes where
  "refusal = append_reply (mcp_frame_new MCP_STARTUP (w_chain [w_u32 STARTUP_UNAVAILABLE])) []"

text \<open>A frame that shows a ticket: a startup with its id in the node's table and its cookie.\<close>

definition shows_ticket :: "node \<Rightarrow> realm_ticket \<Rightarrow> mcp_frame \<Rightarrow> bool" where
  "shows_ticket n t f \<longleftrightarrow> mf_id f = MCP_STARTUP \<and>
     (\<exists>i. parse startup_fields (mf_body f) = Some (rt_cookie t, i) \<and> fmlookup (nd_tickets n) i = Some t)"

text \<open>
  A session has only a ticket that one of the frames \<open>S\<close> sent has shown; without one nothing is changed
  and nothing answered but refusals.
\<close>

definition gated :: "mcp_frame set \<Rightarrow> 's world \<Rightarrow> bytes \<times> mcp_session \<times> 's world \<Rightarrow> bool" where
  "gated S w0 c \<longleftrightarrow> (case c of (out, s, w) \<Rightarrow> w_node w = w_node w0 \<and>
     (case mc_ticket s of
        None \<Rightarrow> w = w0 \<and> (\<exists>k. out = concat (replicate k refusal))
      | Some t \<Rightarrow> \<exists>f \<in> S. shows_ticket (w_node w0) t f))"

lemma handle_node: "mf_id f \<noteq> MCP_STARTUP \<Longrightarrow> mcp_handle e now f s w = ((rs, k), s', w') \<Longrightarrow>
   w_node w' = w_node w \<and> mc_ticket s' = mc_ticket s"
  unfolding mcp_handle_def
  by (auto simp: Let_def char_list_def char_create_def char_logon_def char_delete_def char_upgrade_def
      realm_game_list_def create_game_def join_game_def realm_ladder_data_def
      split: if_splits prod.splits option.splits outcome.splits create_character_error.splits)

lemma append_refusal: "append_reply (mcp_frame_new MCP_STARTUP (w_chain [w_u32 STARTUP_UNAVAILABLE])) out = out @ refusal"
  by (simp add: append_reply_def refusal_def mcp_encode_frame_def mcp_wire_len_def mcp_frame_new_def
      MCP_HEADER_LEN_def w_chain_def w_new_def w_u32_def)

lemma startup_cases:
  "startup body s w = ((rs, k), s', w') \<Longrightarrow> w' = w \<and>
     (k \<and> (\<exists>t i. mc_ticket s' = Some t \<and> parse startup_fields body = Some (rt_cookie t, i) \<and>
          fmlookup (nd_tickets (w_node w)) i = Some t) \<or>
      \<not> k \<and> s' = s \<and> rs = [mcp_frame_new MCP_STARTUP (w_chain [w_u32 STARTUP_UNAVAILABLE])])"
  by (auto simp: startup_def Let_def realm_ticket_of_def STARTUP_OK_def STARTUP_UNAVAILABLE_def bind_eq_Some_conv
      split: option.splits if_splits prod.splits)

lemma gated_serve: "gated S w0 c \<Longrightarrow> f \<in> S \<Longrightarrow> gated S w0 (snd (mcp_serve e now f c))"
proof -
  assume g: "gated S w0 c" and f: "f \<in> S"
  obtain out s w where c: "c = (out, s, w)" by (rule prod_cases3)
  obtain rs k s' w' where h: "mcp_handle e now f s w = ((rs, k), s', w')" by (metis prod.exhaust)
  show ?thesis
  proof (cases "mf_id f = MCP_STARTUP")
    case True
    then have "startup (mf_body f) s w = ((rs, k), s', w')" using h by (simp add: mcp_handle_def)
    from startup_cases [OF this] g f h True c show ?thesis
      by (auto simp: gated_def shows_ticket_def mcp_serve_def append_refusal replicate_append_same [symmetric]
          split: option.splits intro: exI [of _ "Suc k" for k])
  next
    case False
    from handle_node [OF False h] g h False c show ?thesis
      by (auto simp: gated_def mcp_serve_def split: option.splits)
  qed
qed

interpretation gated: realm_invariant e "\<lambda>f. f \<in> S" "gated S w0" for e S w0
  by unfold_locales (rule gated_serve)

lemma gated_start: "gated S w ([], \<lparr>mc_ip = ip, mc_local = l, mc_ticket = None, mc_selected = None\<rparr>, w)"
  by (auto simp: gated_def intro: exI [of _ 0])

text \<open>On the reference backend: only characters change, and only by steps of ticket holders.\<close>

definition ticket_accounts :: "node \<Rightarrow> account_id set" where
  "ticket_accounts n = {na_id (rt_account t) | t i. fmlookup (nd_tickets n) i = Some t}"

inductive roster_run :: "account_id set \<Rightarrow> d2_character list \<Rightarrow> d2_character list \<Rightarrow> bool" for A where
  roster_stop: "roster_run A cs cs"
| roster_next: "roster_run A cs cs' \<Longrightarrow> i \<in> A \<Longrightarrow> roster_step i cs' cs'' \<Longrightarrow> roster_run A cs cs''"

lemma roster_run_others:
  "roster_run A cs cs' \<Longrightarrow> a \<notin> A \<Longrightarrow> filter (\<lambda>c. c_account c = a) cs' = filter (\<lambda>c. c_account c = a) cs"
  by (induction rule: roster_run.induct) (simp, metis roster_step_others)

lemma roster_run_wf: "roster_run A cs cs' \<Longrightarrow> roster_wf cs \<Longrightarrow> roster_wf cs'"
  by (induction rule: roster_run.induct) (auto dest: roster_step_wf)

definition rostered :: "memory_storage realm_env \<Rightarrow> memory_storage world \<Rightarrow> bytes \<times> mcp_session \<times> memory_storage world \<Rightarrow> bool" where
  "rostered e w0 c \<longleftrightarrow> realm_ops e = memory_ops \<longrightarrow> gated UNIV w0 c \<and> (case c of (out, s, w) \<Rightarrow>
     \<exists>cs. roster_run (ticket_accounts (w_node w0)) (ms_characters (w_store w0)) cs \<and>
          w = w0\<lparr>w_store := (w_store w0)\<lparr>ms_characters := cs\<rparr>\<rparr>)"

lemma rostered_serve: "rostered e w0 c \<Longrightarrow> rostered e w0 (snd (mcp_serve e now f c))"
proof (cases "realm_ops e = memory_ops")
  case True
  assume r: "rostered e w0 c"
  obtain out s w where c: "c = (out, s, w)" by (rule prod_cases3)
  obtain rs k s' w' where h: "mcp_handle e now f s w = ((rs, k), s', w')" by (metis prod.exhaust)
  have g: "gated UNIV w0 c" using r True by (simp add: rostered_def)
  from r True c obtain cs where
    cs: "roster_run (ticket_accounts (w_node w0)) (ms_characters (w_store w0)) cs"
      "w = w0\<lparr>w_store := (w_store w0)\<lparr>ms_characters := cs\<rparr>\<rparr>"
    by (auto simp: rostered_def)
  have same: "\<exists>cs. roster_run (ticket_accounts (w_node w0)) (ms_characters (w_store w0)) cs \<and>
      w' = w0\<lparr>w_store := (w_store w0)\<lparr>ms_characters := cs\<rparr>\<rparr>" if "w' = w" using that cs by blast
  have next_cs: "\<exists>cs. roster_run (ticket_accounts (w_node w0)) (ms_characters (w_store w0)) cs \<and>
      w' = w0\<lparr>w_store := (w_store w0)\<lparr>ms_characters := cs\<rparr>\<rparr>"
    if no: "mf_id f \<noteq> MCP_STARTUP" and some: "mc_ticket s \<noteq> None"
  proof -
    have "mcp_account s \<in> ticket_accounts (w_node w0)"
      using some g c by (auto simp: gated_def shows_ticket_def mcp_account_def ticket_accounts_def split: option.splits)
    moreover obtain cs' where "roster_step (mcp_account s) cs cs'"
      "w' = w\<lparr>w_store := (w_store w)\<lparr>ms_characters := cs'\<rparr>\<rparr>"
      using mcp_handle_ok [OF True no h] cs(2) by (auto simp: request_ok_def)
    ultimately show ?thesis using roster_next [OF cs(1)] cs(2) by auto
  qed
  have "w' = w" if "mf_id f = MCP_STARTUP"
    using startup_cases [of "mf_body f" s w rs k s' w'] h that by (simp add: mcp_handle_def)
  note same = same [OF this]
  show ?thesis
  proof (cases "mc_ticket s = None \<and> mf_id f \<noteq> MCP_STARTUP")
    case False
    then have "snd (mcp_serve e now f c) = (fold append_reply rs out, s', w')"
      using h c by (auto simp: mcp_serve_def)
    with gated_serve [OF g UNIV_I, of e now f] False same next_cs show ?thesis by (auto simp: rostered_def)
  qed (use r c in \<open>simp add: mcp_serve_def\<close>)
qed (simp add: rostered_def)

interpretation rostered: realm_invariant e "\<lambda>_. True" "rostered e w0" for e w0
  by unfold_locales (rule rostered_serve)

lemma rostered_start: "rostered e w ([], \<lparr>mc_ip = ip, mc_local = l, mc_ticket = None, mc_selected = None\<rparr>, w)"
  using roster_stop gated_start by (auto simp: rostered_def intro!: exI [of _ "ms_characters (w_store w)"])

lemma mcp_connection_some:
  assumes "length (concat chunks) < fuel"
  obtains n out s w' where "mcp_connection e mx ticks fuel chunks ip l w = Some (n, out, s, w')"
  using mcp_connection_total [OF assms] by (metis prod.exhaust)

section \<open>An example world\<close>

text \<open>Bob (account 1) holds a ticket; the hardcore Druid Lia of account 2 is stored, and is dead.\<close>

definition lia :: d2_character where
  "lia = \<lparr>c_account = 2, c_name = ascii ''Lia'', c_class = 5, c_status = 0x2C, c_level = 20, c_progression = 0,
     c_created_at = 0, c_last_played = 0, c_save = None\<rparr>"

definition lia_realm :: "memory_storage realm_env" where
  "lia_realm = \<lparr>rl_env = bob_env, rl_realm = \<lparr>dr_name = [], dr_description = [], dr_address = None, dr_max_characters = 8\<rparr>,
     rl_link = None, rl_lower = (\<lambda>x. x)\<rparr>"

definition lia_world :: "memory_storage world" where
  "lia_world = bob_world\<lparr>
     w_node := (w_node bob_world)\<lparr>nd_tickets := fmupd 7 \<lparr>rt_cookie = 3, rt_account = bob_account, rt_product = D2XP\<rparr> fmempty\<rparr>,
     w_store := (w_store bob_world)\<lparr>ms_characters := [lia]\<rparr>\<rparr>"

lemma lia_ops: "realm_ops lia_realm = memory_ops"
  by (simp add: lia_realm_def bob_env_def)

lemma lia_tickets: "2 \<notin> ticket_accounts (w_node lia_world)"
  by (auto simp: ticket_accounts_def lia_world_def bob_account_def split: if_splits)

lemma lia_wf: "roster_wf (ms_characters (w_store lia_world))"
proof -
  have "valid_character_name (ascii ''Lia'')" by code_simp
  then show ?thesis
    by (simp add: roster_wf_def lia_world_def lia_def char_wf_def class_is_valid_def ASSASSIN_def has_status_def D2_EXPANSION_def)
qed

section \<open>Properties\<close>

text \<open>
  C32: A realm connection that shows no live ticket achieves nothing. Whatever bytes it sends, in
  whatever chunks, the connection is served to its end and the node's tables are untouched. Either
  the session holds a ticket of the node's table, and then one of the frames in the bytes it sent was
  a \<open>MCP_STARTUP\<close> with that ticket's id and its cookie; or it holds none, the world is as it was
  and the only bytes ever written are refusals of \<open>MCP_STARTUP\<close>.
\<close>

theorem realm_needs_a_ticket:
  assumes "length (concat chunks) < fuel"
  shows "\<exists>n out s w'. mcp_connection e mx ticks fuel chunks ip l w = Some (n, out, s, w') \<and>
    w_node w' = w_node w \<and>
    (case mc_ticket s of
       None \<Rightarrow> w' = w \<and> (\<exists>k. out = concat (replicate k refusal))
     | Some t \<Rightarrow> \<exists>f \<in> set (sent_frames (max mx MCP_DEFAULT_MAX_FRAME) (concat chunks)). mf_id f = MCP_STARTUP \<and>
         (\<exists>i. parse startup_fields (mf_body f) = Some (rt_cookie t, i) \<and> fmlookup (nd_tickets (w_node w)) i = Some t))"
proof -
  let ?S = "set (sent_frames (max mx MCP_DEFAULT_MAX_FRAME) (concat chunks))"
  obtain n out s w' where r: "mcp_connection e mx ticks fuel chunks ip l w = Some (n, out, s, w')"
    using mcp_connection_some [OF assms] .
  have "gated ?S w (out, s, w')" using gated.connection_keeps [OF gated_start _ r] by blast
  with r show ?thesis
    by (cases "mc_ticket s") (simp_all add: gated_def shows_ticket_def)
qed

text \<open>
  C33: Over any realm connection on the reference backend the stored characters change only by
  roster steps of accounts that hold a ticket (a new character of a free, valid name; progress of an
  own one; the removal of an own one); accounts, credentials, attributes and bans stay as they are,
  and the characters of an account without a ticket are the same afterwards.
\<close>

theorem realm_touches_only_ticket_holders:
  assumes "length (concat chunks) < fuel" and "realm_ops e = memory_ops" and "a \<notin> ticket_accounts (w_node w)"
  shows "\<exists>n out s cs. mcp_connection e mx ticks fuel chunks ip l w =
      Some (n, out, s, w\<lparr>w_store := (w_store w)\<lparr>ms_characters := cs\<rparr>\<rparr>) \<and>
    roster_run (ticket_accounts (w_node w)) (ms_characters (w_store w)) cs \<and>
    filter (\<lambda>c. c_account c = a) cs = filter (\<lambda>c. c_account c = a) (ms_characters (w_store w))"
proof -
  obtain n out s w' where r: "mcp_connection e mx ticks fuel chunks ip l w = Some (n, out, s, w')"
    using mcp_connection_some [OF assms(1)] .
  from rostered.connection_keeps [OF rostered_start TrueI r] assms(2,3) r show ?thesis
    by (auto simp: rostered_def dest: roster_run_others)
qed

text \<open>
  C34: On the reference backend the characters the realm stores stay well formed, whatever a realm
  connection sends: every name is one the game accepts, every class is one of the seven and the Druid
  and the Assassin are expansion characters, and no two characters have the same name in any case.
\<close>

theorem realm_characters_well_formed:
  assumes "length (concat chunks) < fuel" and "realm_ops e = memory_ops" and "roster_wf (ms_characters (w_store w))"
  shows "\<exists>n out s w'. mcp_connection e mx ticks fuel chunks ip l w = Some (n, out, s, w') \<and>
    roster_wf (ms_characters (w_store w'))"
proof -
  obtain n out s w' where r: "mcp_connection e mx ticks fuel chunks ip l w = Some (n, out, s, w')"
    using mcp_connection_some [OF assms(1)] .
  from rostered.connection_keeps [OF rostered_start TrueI r] assms(2,3) r show ?thesis
    by (auto simp: rostered_def dest: roster_run_wf)
qed


text \<open>A startup for Bob's ticket with the right id and the wrong cookie.\<close>

definition guess :: bytes where
  "guess = [19, 0, MCP_STARTUP] @ le32 4 @ le32 0 @ le32 7 @ le32 0"

corollary realm_needs_a_ticket_witness:
  "\<exists>n out s. mcp_connection lia_realm 8192 (\<lambda>_. 0) 30 [take 5 guess, drop 5 guess] (V4 [1]) None lia_world =
     Some (n, out, s, lia_world) \<and> mc_ticket s = None \<and> (\<exists>k. out = concat (replicate k refusal))"
proof -
  have sent: "sent_frames (max 8192 MCP_DEFAULT_MAX_FRAME) guess = [\<lparr>mf_id = MCP_STARTUP, mf_body = drop 3 guess\<rparr>]"
    by code_simp
  have wrong: "parse startup_fields (drop 3 guess) = Some (4, 7)" by code_simp
  have "concat [take 5 guess, drop 5 guess] = guess" by simp
  moreover have "length guess < 30" by (simp add: guess_def)
  moreover have "rt_cookie t = 3" if "fmlookup (nd_tickets (w_node lia_world)) 7 = Some t" for t
    using that by (auto simp: lia_world_def)
  ultimately obtain n out s w' where
    r: "mcp_connection lia_realm 8192 (\<lambda>_. 0) 30 [take 5 guess, drop 5 guess] (V4 [1]) None lia_world = Some (n, out, s, w')"
      "mc_ticket s = None" "w' = lia_world" "\<exists>k. out = concat (replicate k refusal)"
    using realm_needs_a_ticket [of "[take 5 guess, drop 5 guess]" 30 lia_realm 8192 "\<lambda>_. 0" "V4 [1]" None lia_world]
    by (fastforce simp: sent wrong split: option.splits)
  then show ?thesis by blast
qed

corollary realm_touches_only_ticket_holders_witness:
  "\<exists>n out s cs. mcp_connection lia_realm 8192 (\<lambda>_. 0) 9 [[3, 0], [5], [3, 0, 0x12]] (V4 [1]) None lia_world =
      Some (n, out, s, lia_world\<lparr>w_store := (w_store lia_world)\<lparr>ms_characters := cs\<rparr>\<rparr>) \<and>
    roster_run (ticket_accounts (w_node lia_world)) (ms_characters (w_store lia_world)) cs \<and>
    filter (\<lambda>c. c_account c = 2) cs = filter (\<lambda>c. c_account c = 2) (ms_characters (w_store lia_world))"
  by (rule realm_touches_only_ticket_holders [OF _ lia_ops lia_tickets]) simp

corollary realm_characters_well_formed_witness:
  "\<exists>n out s w'. mcp_connection lia_realm 8192 (\<lambda>_. 0) 9 [[3, 0], [5], [3, 0, 0x12]] (V4 [1]) None lia_world =
      Some (n, out, s, w') \<and> roster_wf (ms_characters (w_store w'))"
  by (rule realm_characters_well_formed [OF _ lia_ops lia_wf]) simp

text \<open>
  Which games a character fits, in the words of the game: of its kind (hardcore, expansion, ladder);
  of a difficulty it has reached, one for each full round of acts it has behind it, five to a
  difficulty in the expansion and four in the classic game; within the level difference the creator
  chose, either way; and with room for one more of at most eight. A game created over link version 1
  has no settings and is known by its difficulty alone.
\<close>

definition fits_game :: "d2_character \<Rightarrow> lobby_game \<Rightarrow> bool" where
  "fits_game c g \<longleftrightarrow>
     unat (lg_difficulty g) \<le> 2 \<and>
     unat (lg_difficulty g) * (if has_status c D2_EXPANSION then 5 else 4) \<le> unat (c_progression c) \<and>
     (case lg_settings g of
        None \<Rightarrow> True
      | Some t \<Rightarrow>
          gt_hardcore t = has_status c D2_HARDCORE \<and> gt_expansion t = has_status c D2_EXPANSION \<and>
          gt_ladder t = has_status c D2_LADDER \<and>
          (case gt_level_difference t of
             None \<Rightarrow> True
           | Some d \<Rightarrow> \<bar>uint (c_level c) - uint (gt_creator_level t)\<bar> \<le> uint d) \<and>
          length (lg_players g) < max 1 (min 8 (unat (gt_max_players t))))"

lemma difficulty_reached:
  "lg_difficulty g \<le> highest_difficulty c \<longleftrightarrow> unat (lg_difficulty g) \<le> 2 \<and>
     unat (lg_difficulty g) * (if has_status c D2_EXPANSION then 5 else 4) \<le> unat (c_progression c)"
proof -
  have "unat (highest_difficulty c) = min (unat (c_progression c) div (if has_status c D2_EXPANSION then 5 else 4)) 2"
    by (simp add: highest_difficulty_def min_def word_le_nat_alt unat_div)
  moreover have "d \<le> min (p div a) 2 \<longleftrightarrow> d \<le> 2 \<and> d * a \<le> p" if "0 < a" for d p a :: nat
    using that by (auto simp: less_eq_div_iff_mult_less_eq)
  ultimately show ?thesis by (simp add: word_le_nat_alt)
qed

lemma level_apart: "abs_diff a b \<le> d \<longleftrightarrow> \<bar>uint a - uint b\<bar> \<le> uint d"
proof -
  have "uint (abs_diff a b) = \<bar>uint a - uint b\<bar>"
    by (auto simp: abs_diff_def uint_sub_if' word_less_def word_le_def not_less)
  then show ?thesis by (simp add: word_le_def)
qed

lemma room_left: "unat (max 1 (min 8 n)) = max 1 (min 8 (unat n))" for n :: u8
  by (auto simp: max_def min_def word_le_nat_alt)

lemma join_refusal_None: "join_refusal c g = None \<longleftrightarrow> fits_game c g"
proof -
  have "join_refusal c g = None \<longleftrightarrow> lg_difficulty g \<le> highest_difficulty c \<and>
     (case lg_settings g of
        None \<Rightarrow> True
      | Some t \<Rightarrow> kind_refusal c t = None \<and> room_refusal c g t = None)"
    by (cases "lg_settings g") (auto simp: join_refusal_def not_le not_less split: option.splits if_splits)
  moreover have "kind_refusal c t = None \<longleftrightarrow> gt_hardcore t = has_status c D2_HARDCORE \<and>
      gt_expansion t = has_status c D2_EXPANSION \<and> gt_ladder t = has_status c D2_LADDER" for t
    by (auto simp: kind_refusal_def)
  moreover have "room_refusal c g t = None \<longleftrightarrow>
      (case gt_level_difference t of None \<Rightarrow> True | Some d \<Rightarrow> \<bar>uint (c_level c) - uint (gt_creator_level t)\<bar> \<le> uint d) \<and>
      length (lg_players g) < max 1 (min 8 (unat (gt_max_players t)))" for t
    unfolding room_left [symmetric]
    by (auto simp: room_refusal_def not_less not_le level_apart [symmetric] split: option.splits)
  ultimately show ?thesis
    unfolding fits_game_def difficulty_reached by (auto split: option.splits)
qed

lemma join_refusal_code: "join_refusal c g = Some r \<Longrightarrow> r \<noteq> JOIN_OK"
  by (auto simp: join_refusal_def kind_refusal_def room_refusal_def JOIN_OK_def JOIN_NOT_HARDCORE_def JOIN_NO_SUCH_GAME_def
      JOIN_NOT_EXPANSION_def JOIN_NOT_CLASSIC_def JOIN_NOT_LADDER_def JOIN_NO_HELL_def JOIN_NO_NIGHTMARE_def
      JOIN_LEVEL_REQUIREMENT_def JOIN_FULL_def bind_eq_Some_conv split: option.splits if_splits)

text \<open>
  C35: Which games the lobby lets a living character into. A game the game server describes is shown
  in the list, and a request to join it goes on to the game server, exactly when the character fits
  it (\<open>fits_game\<close>); then the answer is the game server's own. Otherwise the answer is a refusal: a
  code that is not that of success, and neither a token, nor an address, nor a hash.
\<close>

theorem join_refused_exactly_when:
  assumes "link_game_info k name = Ok (Some g)" and "\<not> is_dead_hardcore c"
  shows "listable low c g [] = fits_game c g \<and>
    (if fits_game c g
     then staged_join (Some k) (Some c) (Some ip) name password =
       (case link_join k name password (c_account c) (c_name c) of
          Ok (Ok j) \<Rightarrow> Ok (jg_token j, jg_hash j, ip)
        | Ok (Err x) \<Rightarrow> Err (join_error_code x)
        | _ \<Rightarrow> Err JOIN_NO_SUCH_GAME)
     else \<exists>r. r \<noteq> JOIN_OK \<and> staged_join (Some k) (Some c) (Some ip) name password = Err r \<and>
       mf_body (join_reply i (staged_join (Some k) (Some c) (Some ip) name password)) = le16 i @ replicate 12 0 @ le32 r)"
proof (cases "join_refusal c g")
  case None
  then have "fits_game c g" by (simp add: join_refusal_None)
  with None assms show ?thesis by (simp add: staged_join_def lobby_refusal_def listable_def)
next
  case (Some r)
  then have "\<not> fits_game c g" by (simp flip: join_refusal_None)
  moreover have "staged_join (Some k) (Some c) (Some ip) name password = Err r"
    using Some assms by (simp add: staged_join_def lobby_refusal_def)
  moreover have "mf_body (join_reply i (Err r)) = le16 i @ replicate 12 0 @ le32 r"
  proof -
    have zeros: "replicate 12 0 = le16 0 @ le16 0 @ le32 0 @ (le32 0 :: bytes)" by code_simp
    show ?thesis unfolding zeros
      by (simp add: join_reply_def mcp_frame_new_def w_chain_def w_new_def w_u16_def w_u32_def del: replicate.simps)
  qed
  ultimately show ?thesis using Some join_refusal_code [OF Some] by (simp add: listable_def)
qed

text \<open>
  A game the list offers a living character is refused by no rule of the lobby when that
  character asks to join it: what it then gets is the game server's own answer, word for word.
\<close>

theorem listed_game_is_left_to_the_server:
  assumes "listable low c g filt" and "link_game_info k (lg_name g) = Ok (Some g)" and "\<not> is_dead_hardcore c"
  shows "staged_join (Some k) (Some c) (Some ip) (lg_name g) password =
    (case link_join k (lg_name g) password (c_account c) (c_name c) of
       Ok (Ok j) \<Rightarrow> Ok (jg_token j, jg_hash j, ip)
     | Ok (Err x) \<Rightarrow> Err (join_error_code x)
     | _ \<Rightarrow> Err JOIN_NO_SUCH_GAME)"
  using assms by (simp add: staged_join_def lobby_refusal_def listable_def)

text \<open>
  A hardcore character that has died plays no more. While it is the one selected, every request
  to join a game, whatever the game, is answered with the dead-hardcore code, and every request to
  create one with that code or the bad-name code and no game id; neither changes anything.
\<close>

theorem dead_hardcore_plays_no_more:
  assumes "mc_selected s = Some name" and "own_character e name s (w_store w) = (Some c, w_store w)"
    and "is_dead_hardcore c"
  shows "(\<exists>i. join_game e f s w = (join_reply i (Err JOIN_DEAD_HARDCORE), w)) \<and>
    (\<exists>i. create_game e f s w \<in> (\<lambda>r. (mcp_frame_new MCP_CREATEGAME (w_chain [w_u16 i, w_u16 0, w_u16 0, w_u32 r]), w)) `
      {CREATE_GAME_INVALID_NAME, CREATE_GAME_DEAD_HARDCORE})"
proof
  have p: "playing e s (w_store w) = (Some c, w_store w)" using assms by (simp add: playing_def)
  have d: "selected_is_dead e s (w_store w) = (True, w_store w)" using assms by (simp add: selected_is_dead_def)
  show "\<exists>i. join_game e f s w = (join_reply i (Err JOIN_DEAD_HARDCORE), w)"
    using p assms(3) by (auto simp: join_game_def staged_join_def split: prod.splits)
  show "\<exists>i. create_game e f s w \<in> (\<lambda>r. (mcp_frame_new MCP_CREATEGAME (w_chain [w_u16 i, w_u16 0, w_u16 0, w_u32 r]), w)) `
      {CREATE_GAME_INVALID_NAME, CREATE_GAME_DEAD_HARDCORE}"
    using p d by (auto simp: create_game_def image_iff split: prod.splits)
qed


text \<open>A game the server lists, and a character it lets in.\<close>

definition cow_game :: lobby_game where
  "cow_game = \<lparr>lg_token = 4, lg_name = ascii ''cows'', lg_private = False, lg_difficulty = 0,
     lg_settings = Some \<lparr>gt_description = [], gt_max_players = 8, gt_level_difference = Some 5, gt_creator_level = 18,
       gt_expansion = True, gt_hardcore = False, gt_ladder = False\<rparr>, lg_players = [], lg_age_secs = 0\<rparr>"

definition cow_link :: linked where
  "cow_link = \<lparr>ln_version = Some 2, ln_request = (\<lambda>ask. case ask 0 of
     ToGameInfo i _ \<Rightarrow> Some (GameInfo i (Some cow_game))
   | ToJoin i _ _ _ _ \<Rightarrow> Some (Joined i (Ok \<lparr>jg_token = 4, jg_hash = 99\<rparr>))
   | _ \<Rightarrow> None)\<rparr>"

corollary listed_game_is_left_to_the_server_witness:
  "staged_join (Some cow_link) (Some (lia\<lparr>c_status := 0x20\<rparr>)) (Some [127, 0, 0, 1]) (ascii ''cows'') [] = Ok (4, 99, [127, 0, 0, 1])"
proof -
  have k: "link_game_info cow_link (lg_name cow_game) = Ok (Some cow_game)"
    by (simp add: link_game_info_def cow_link_def has_lobby_def LOBBY_VERSION_def)
  have l: "listable (\<lambda>x. x) (lia\<lparr>c_status := 0x20\<rparr>) cow_game []"
    by (simp add: listable_def join_refusal_def kind_refusal_def room_refusal_def cow_game_def lia_def has_status_def
        D2_HARDCORE_def D2_EXPANSION_def D2_LADDER_def highest_difficulty_def abs_diff_def)
  have "\<not> is_dead_hardcore (lia\<lparr>c_status := 0x20\<rparr>)"
    by (simp add: is_dead_hardcore_def has_status_def lia_def D2_HARDCORE_def)
  from listed_game_is_left_to_the_server [OF l k this, of "[127, 0, 0, 1]" "[]"] show ?thesis
    by (simp add: link_join_def cow_link_def cow_game_def)
qed

corollary join_refused_exactly_when_witness:
  "staged_join (Some cow_link) (Some (lia\<lparr>c_status := 0x20\<rparr>)) (Some [127, 0, 0, 1]) (ascii ''cows'') [] = Ok (4, 99, [127, 0, 0, 1]) \<and>
   (\<exists>r. r \<noteq> JOIN_OK \<and> staged_join (Some cow_link) (Some (lia\<lparr>c_status := 0x20, c_level := 30\<rparr>)) (Some [127, 0, 0, 1])
     (ascii ''cows'') [] = Err r)"
proof -
  have k: "link_game_info cow_link (ascii ''cows'') = Ok (Some cow_game)"
    by (simp add: link_game_info_def cow_link_def has_lobby_def LOBBY_VERSION_def)
  have alive: "\<not> is_dead_hardcore (lia\<lparr>c_status := 0x20\<rparr>)" "\<not> is_dead_hardcore (lia\<lparr>c_status := 0x20, c_level := 30\<rparr>)"
    by (simp_all add: is_dead_hardcore_def has_status_def lia_def D2_HARDCORE_def)
  have fits: "fits_game (lia\<lparr>c_status := 0x20\<rparr>) cow_game" "\<not> fits_game (lia\<lparr>c_status := 0x20, c_level := 30\<rparr>) cow_game"
    by (simp_all add: fits_game_def cow_game_def lia_def has_status_def D2_HARDCORE_def D2_EXPANSION_def D2_LADDER_def)
  show ?thesis
    using join_refused_exactly_when [OF k alive(1), of "\<lambda>x. x" "[127, 0, 0, 1]" "[]" 0] fits(1)
      join_refused_exactly_when [OF k alive(2), of "\<lambda>x. x" "[127, 0, 0, 1]" "[]" 0] fits(2)
    by (auto simp: link_join_def cow_link_def)
qed

corollary dead_hardcore_plays_no_more_witness:
  "\<exists>i. join_game lia_realm (mcp_frame_new MCP_JOINGAME [])
     \<lparr>mc_ip = V4 [1], mc_local = None, mc_ticket = Some \<lparr>rt_cookie = 3, rt_account = bob_account\<lparr>na_id := 2\<rparr>, rt_product = D2XP\<rparr>,
      mc_selected = Some (ascii ''Lia'')\<rparr> lia_world = (join_reply i (Err JOIN_DEAD_HARDCORE), lia_world)"
proof -
  let ?s = "\<lparr>mc_ip = V4 [1], mc_local = None, mc_ticket = Some \<lparr>rt_cookie = 3, rt_account = bob_account\<lparr>na_id := 2\<rparr>, rt_product = D2XP\<rparr>,
      mc_selected = Some (ascii ''Lia'')\<rparr> :: mcp_session"
  have "own_character lia_realm (ascii ''Lia'') ?s (w_store lia_world) = (Some lia, w_store lia_world)"
    by (simp add: own_character_mem [OF lia_ops] lia_world_def usable_def lia_def mcp_account_def expansion_client_def)
  moreover have "is_dead_hardcore lia"
    by (simp add: is_dead_hardcore_def has_status_def lia_def D2_HARDCORE_def D2_DEAD_def)
  ultimately show ?thesis
    using dead_hardcore_plays_no_more [of ?s "ascii ''Lia''" lia_realm lia_world lia] by simp
qed

text \<open>
  The ladder screen. The characters listed are ladder characters of the stored ones, at most 500,
  best experience first, and a page's bytes are its header and 28 bytes for each of at most sixteen
  entries, so the two 16-bit sizes in the header are exact.
\<close>

theorem ladder_page_layout:
  "sorted_wrt (\<lambda>a b. ladder_key a \<le> ladder_key b) (ladder_listed cs ladder) \<and>
   set (ladder_listed cs ladder) \<subseteq> {c \<in> set cs. has_status c D2_LADDER} \<and> length (ladder_listed cs ladder) \<le> 500 \<and>
   (let n = min 16 (length (ladder_listed cs ladder) - unat start); r = ladder_reply cs ladder start asker
    in length r = 19 + 28 * n \<and> unat (of_le (take 2 (drop 1 r)) :: u16) = 12 + 28 * n)"
  (is "?sorted \<and> ?sub \<and> ?short \<and> ?layout")
proof (intro conjI)
  show ?sorted
    by (auto simp: ladder_listed_def split: option.split intro: sorted_wrt_take sorted_sort_key [unfolded sorted_map])
  show ?sub by (auto simp: ladder_listed_def on_ladder_def split: option.splits dest!: in_set_takeD)
  show ?short by (simp add: ladder_listed_def MAX_RANK_def split: option.split)
  have entries: "length (fold (\<lambda>f. f) (concat (map (character_entry asker) xs)) w) = length w + 28 * length xs" for xs w
    by (induction xs arbitrary: w)
      (simp_all add: character_entry_def w_u32_def w_u8_def w_u16_def w_bytes_def ladder_name_def Let_def)
  define page where "page = take 16 (drop (unat start) (ladder_listed cs ladder))"
  define payload where "payload = w_chain ([w_u32 (ucast start), w_u32 (word_of_nat (length page)), w_u32 16] @
      concat (map (character_entry asker) page))"
  have len: "length page = min 16 (length (ladder_listed cs ladder) - unat start)" by (simp add: page_def min.commute)
  have p: "length payload = 12 + 28 * length page"
    by (simp add: payload_def w_chain_def entries w_u32_def w_new_def)
  define m where "m = length payload"
  have m: "m = 12 + 28 * min 16 (length (ladder_listed cs ladder) - unat start)" using p len by (simp add: m_def)
  then have "m mod 2 ^ 16 = m" by simp
  then have u: "unat (word_of_nat m :: u16) = m" by (simp only: unat_of_nat) simp
  have "ladder_reply cs ladder start asker = [ladder] @ le16 (word_of_nat m) @ le16 (word_of_nat m) @ [0, 0] @ payload"
    unfolding ladder_reply_def Let_def page_def [symmetric] payload_def [symmetric] m_def [symmetric]
    by (simp add: w_chain_def w_u8_def w_u16_def w_bytes_def w_new_def le_bytes_numeral)
  then have r: "length (ladder_reply cs ladder start asker) = 7 + m"
      "take 2 (drop 1 (ladder_reply cs ladder start asker)) = le16 (word_of_nat m)"
    by (simp_all add: m_def)
  have "unat (of_le (take 2 (drop 1 (ladder_reply cs ladder start asker))) :: u16) = m"
    unfolding r(2) of_le16 by (rule u)
  with r(1) m show ?layout by (simp add: Let_def)
qed

end
