(* ===== verification/Connection_Rules.thy ===== *)
theory Connection_Rules
  imports Connection Session_Place Realm_Rules
begin

text \<open>
  What \<open>handle\<close> promises of every accepted connection, of any kind: it is served to an end, and the
  admission table and the number of connections are afterwards what they were, so that a class or an
  address can run out of places only by connections that are open.
\<close>

section \<open>The gateway ends\<close>

lemma line_of_length: "line_of m buf = Ok (Some (l, n)) \<Longrightarrow> 1 \<le> n \<and> n \<le> length buf"
  by (auto simp: line_of_def Suc_le_eq dest!: find_index_Some split: option.splits if_splits)

lemma gateway_lines_total:
  "rb_wf q \<Longrightarrow> length (unread q) < fuel \<Longrightarrow>
   \<exists>q' ob'. gateway_lines mx fuel q ob = Some (q', ob') \<and>
     (\<forall>q''. q' = Some q'' \<longrightarrow> rb_wf q'' \<and> length (unread q'') \<le> length (unread q))"
proof (induction fuel arbitrary: q ob)
  case (Suc fuel)
  show ?case
  proof (cases "\<exists>l n. line_of mx (unread q) = Ok (Some (l, n))")
    case True
    then obtain l n where l: "line_of mx (unread q) = Ok (Some (l, n))" by blast
    note n = line_of_length [OF l]
    have wf: "rb_wf (rb_consume n q)" "length (unread (rb_consume n q)) < fuel"
      "length (unread (rb_consume n q)) \<le> length (unread q)" using Suc.prems n by (simp_all, linarith)
    note IH = Suc.IH [OF wf(1,2)]
    obtain ok ob1 where s: "ob_send (gateway_reply l) ob = (ok, ob1)" by (rule prod.exhaust)
    show ?thesis
      using IH [of ob] IH [of ob1] wf l s Suc.prems(1)
      by (cases "l = []"; cases ok) (fastforce simp: decode_line_of)+
  next
    case False
    then show ?thesis using Suc.prems
      by (cases "line_of mx (unread q)") (auto simp: decode_line_of split: option.splits)
  qed
qed simp

fun event_bytes :: "gateway_event \<Rightarrow> bytes" where
  "event_bytes (GatewayRead c) = c"
| "event_bytes GatewayWrote = []"

lemma gateway_loop_total:
  "rb_wf q \<Longrightarrow> length (unread q) + length (concat (map event_bytes es)) < fuel \<Longrightarrow>
   \<exists>out. gateway_loop mx fuel es q ob written = Some out"
proof (induction es arbitrary: q ob written)
  case (Cons e es)
  show ?case
  proof (cases e)
    case (GatewayRead c)
    have "length (unread (rb_extend c q)) < fuel" using Cons.prems GatewayRead by simp
    from gateway_lines_total [OF _ this, of mx ob] Cons.prems(1) obtain q' ob' where
      g: "gateway_lines mx fuel (rb_extend c q) ob = Some (q', ob')"
        "\<forall>q''. q' = Some q'' \<longrightarrow> rb_wf q'' \<and> length (unread q'') \<le> length (unread q) + length c"
      by auto
    show ?thesis
    proof (cases q')
      case (Some q1)
      then have "rb_wf q1" "length (unread q1) + length (concat (map event_bytes es)) < fuel"
        using g(2) Cons.prems(2) GatewayRead by auto
      from Cons.IH [OF this] g(1) Some GatewayRead show ?thesis by simp
    qed (use g GatewayRead in simp)
  qed (use Cons in \<open>simp split: list.split\<close>)
qed simp

section \<open>Every connection gives its place back\<close>

lemma admit_counts:
  assumes "counts t M" and "size M < 2 ^ 32 - 1" and "admit k ip l t = Ok t'"
  shows "counts t' (add_mset (k, ip) M)"
  using assms counts_add by (auto simp: admit_Ok)

lemma release_counts: "counts t (add_mset (k, ip) M) \<Longrightarrow> counts (at_release k ip t) M"
  using counts_remove [of t "add_mset (k, ip) M" k ip] by (simp add: at_release_def)

lemma admitted_balance:
  assumes "counts (nd_admission (w_node w)) M" and "size M < 2 ^ 32 - 1"
    and served: "\<And>w1. counts (nd_admission (w_node w1)) (add_mset (k, ip) M) \<Longrightarrow>
      \<exists>k' out v. serve_it w1 = Some (k', out, v) \<and> counts (nd_admission (w_node v)) (add_mset (k', ip) M) \<and>
        nd_connections (w_node v) = nd_connections (w_node w1)"
  shows "\<exists>out v. admitted cfg k ip serve_it w = Some (out, v) \<and> counts (nd_admission (w_node v)) M \<and>
    nd_connections (w_node v) = nd_connections (w_node w)"
proof (cases "admit k ip (for_class (clients (nc_policy cfg)) k) (nd_admission (w_node w))")
  case (Ok t)
  define n where "n = (w_node w)\<lparr>nd_admission := t, nd_connections := nd_connections (w_node w) + 1,
      nd_peak := max (nd_peak (w_node w)) (nd_connections (w_node w) + 1)\<rparr>"
  have n: "node_admit cfg k ip (w_node w) = (Ok (), n)" unfolding node_admit_def Ok n_def by (simp add: Let_def)
  have "counts (nd_admission (w_node (w\<lparr>w_node := n\<rparr>))) (add_mset (k, ip) M)"
    using admit_counts [OF assms(1,2) Ok] by (simp add: n_def)
  from served [OF this] obtain k' out v where
    "serve_it (w\<lparr>w_node := n\<rparr>) = Some (k', out, v)" "counts (nd_admission (w_node v)) (add_mset (k', ip) M)"
    "nd_connections (w_node v) = nd_connections (w_node w) + 1" by (auto simp: n_def)
  with n release_counts show ?thesis by (simp add: admitted_def node_release_def)
qed (use assms in \<open>simp_all add: admitted_def node_admit_def\<close>)

text \<open>
  C36: No connection leaks its place. Whatever a peer sends, to whichever service its selector names,
  the connection is served to an end (with fuel for every byte sent), and afterwards the admission
  table counts exactly the connections it counted before, per class and address, and the number of
  open connections is the same: a game session that changed class on the way gives back the place of
  the class it ended in, and one that was refused took none.
\<close>

theorem connection_gives_its_place_back:
  assumes "counts (nd_admission (w_node w)) M" and "size M < 2 ^ 32 - 1"
    and "length (concat (ar_chunks a)) + length (concat (map event_bytes (ar_gateway a))) < fuel"
  shows "\<exists>out v. handle_connection e limits dir fuel a w = Some (out, v) \<and>
    counts (nd_admission (w_node v)) M \<and> nd_connections (w_node v) = nd_connections (w_node w)"
proof -
  have chunks: "length (concat (ar_chunks a)) < fuel" and gw: "length (concat (map event_bytes (ar_gateway a))) < fuel"
    using assms(3) by simp_all
  let ?cfg = "en_cfg (rl_env e)" and ?ip = "ar_ip a"
  note balance = admitted_balance [OF assms(1,2), where ip = ?ip and cfg = ?cfg]
  have bncs: "\<exists>k' out v. serve_bncs (rl_env e) limits fuel a w1 = Some (k', out, v) \<and>
      counts (nd_admission (w_node v)) (add_mset (k', ?ip) M) \<and> nd_connections (w_node v) = nd_connections (w_node w1)"
    if "counts (nd_admission (w_node w1)) (add_mset (GamePending, ?ip) M)" for w1
    using bncs_session_place [OF that assms(2) chunks, of "rl_env e" "sl_max_frame limits" "ar_ticks a" "ar_end a"
        "ar_handle a" "next_server_token (ar_nanos a) (ar_counter a)" "game_flood (nc_policy ?cfg)" "ar_now a" "ar_local a"]
    by (auto simp: serve_bncs_def)
  have game: "\<exists>k' out v. serve_game e limits fuel a w1 = Some (k', out, v) \<and>
      counts (nd_admission (w_node v)) (add_mset (k', ?ip) M) \<and> nd_connections (w_node v) = nd_connections (w_node w1)"
    if c: "counts (nd_admission (w_node w1)) (add_mset (GamePending, ?ip) M)" for w1
  proof -
    have realm: "\<exists>n out s v. mcp_connection e' mx ticks fuel (ar_chunks a) ip l w1 = Some (n, out, s, v) \<and> w_node v = w_node w1"
      for e' mx ticks ip l
    proof -
      obtain n out s v where r: "mcp_connection e' mx ticks fuel (ar_chunks a) ip l w1 = Some (n, out, s, v)"
        using mcp_connection_some [OF chunks] .
      from gated.connection_keeps [OF gated_start [where S = UNIV] UNIV_I r] r show ?thesis by (auto simp: gated_def)
    qed
    show ?thesis
    proof (cases "\<exists>r. en_realm (rl_env e) = Some r \<and> begins_realm a")
      case True
      then obtain r where r: "en_realm (rl_env e) = Some r" "begins_realm a" by blast
      obtain n out s v where "mcp_connection (e\<lparr>rl_realm := r\<rparr>) (sl_max_frame limits) (ar_secs a) fuel (ar_chunks a)
          (ar_ip a) (ar_local a) w1 = Some (n, out, s, v)" "w_node v = w_node w1"
        using realm by blast
      with r c show ?thesis by (simp add: serve_game_def)
    qed (use bncs [OF c] in \<open>auto simp: serve_game_def split: option.splits\<close>)
  qed
  have gateway: "\<exists>k' out v. serve_gateway (rl_env e) limits fuel a w1 = Some (k', out, v) \<and>
      counts (nd_admission (w_node v)) (add_mset (k', ?ip) M) \<and> nd_connections (w_node v) = nd_connections (w_node w1)"
    if "counts (nd_admission (w_node w1)) (add_mset (GatewayClient, ?ip) M)" for w1
  proof -
    have "\<exists>out. gateway_session (en_name (rl_env e)) limits fuel (ar_gateway a) = Some out"
      unfolding gateway_session_def Let_def case_prod_unfold by (rule gateway_loop_total) (simp_all add: gw)
    with that show ?thesis by (auto simp: serve_gateway_def)
  qed
  have bnftp: "\<exists>k' out v. serve_bnftp (rl_env e) dir a w1 = Some (k', out, v) \<and>
      counts (nd_admission (w_node v)) (add_mset (k', ?ip) M) \<and> nd_connections (w_node v) = nd_connections (w_node w1)"
    if "counts (nd_admission (w_node w1)) (add_mset (BnftpClient, ?ip) M)" for w1
    using that by (simp add: serve_bnftp_def)
  show ?thesis
    using balance [OF game] balance [OF gateway] balance [OF bnftp] assms(1)
    unfolding handle_connection_def Let_def
    by (cases "Option.bind (ar_selector a) selector_from_byte") (auto split: protocol_selector.split)
qed


text \<open>A game connection that opens, asks for its class and closes, on a node with no other.\<close>

definition a_visit :: arrival where
  "a_visit = \<lparr>ar_handle = 0, ar_ip = V4 [1], ar_local = None, ar_selector = Some 1, ar_next = Some MAGIC,
     ar_chunks = [[MAGIC, SID_AUTH_INFO], [4, 0]], ar_now = 0, ar_end = 9, ar_nanos = 5, ar_counter = 0,
     ar_ticks = (\<lambda>_. bob_tick), ar_secs = (\<lambda>_. 0), ar_challenge = 0, ar_gateway = []\<rparr>"

lemma lia_counts: "counts (nd_admission (w_node lia_world)) {#}"
  by (simp add: counts_def lia_world_def bob_world_def node_new_def admission_new_def set_allowlist_def ip_count_def
      class_count_def count_of_def tidy_def of_class_def)

corollary connection_gives_its_place_back_witness:
  "\<exists>out v. handle_connection lia_realm default_session_limits None 9 a_visit lia_world = Some (out, v) \<and>
    counts (nd_admission (w_node v)) {#} \<and> nd_connections (w_node v) = nd_connections (w_node lia_world)"
  by (rule connection_gives_its_place_back [OF lia_counts]) (simp_all add: a_visit_def)

end
