(* ===== verification/War3.thy ===== *)
theory War3
  imports Ladder
begin

text \<open>
  \<open>bnetcc-core/src/ladder/war3.rs\<close>: the WarCraft III ladder's levels, its experience per game, and
  the settling of a game from its players' reports. The two places that round a floating-point number
  are given in exact arithmetic: a loss times a factor of whole hundredths, and an average of bytes,
  each rounded to nearest with halves up; for every entry of the charts and every list of levels of
  fewer than a million players the double comes out the same.
\<close>

section \<open>Levels\<close>

definition MAX_LEVEL :: u8 where "MAX_LEVEL = 50"
definition MAX_DIFFERENCE :: u8 where "MAX_DIFFERENCE = 6"

definition FIRST_TEN :: "u32 list" where
  "FIRST_TEN = [0, 100, 200, 400, 600, 900, 1200, 1600, 2000, 2500]"

definition level_start :: "u8 \<Rightarrow> u32" where
  "level_start level =
     (if level \<le> 1 then 0
      else if level \<le> 10 then FIRST_TEN ! (unat level - 1)
      else 2500 + 500 * (ucast (min level MAX_LEVEL) - 10))"

definition level_for :: "u32 \<Rightarrow> u8" where
  "level_for xp =
     (case find (\<lambda>l. level_start l \<le> xp) (rev (map word_of_nat [1..<51])) of Some l \<Rightarrow> l | None \<Rightarrow> 1)"

text \<open>In hundredths.\<close>

definition loss_factor :: "u8 \<Rightarrow> nat" where
  "loss_factor level =
     (if level \<le> 1 then 10 else if level \<le> 3 then 11 else if level \<le> 5 then 25 else if level \<le> 7 then 43
      else if level \<le> 9 then 67 else 100)"

definition weekly_minimum :: "u8 \<Rightarrow> u32" where
  "weekly_minimum level =
     (if level \<le> 10 then 0 else if level \<le> 21 then 1 else if level \<le> 30 then 2 else if level \<le> 40 then 3 else 4)"

section \<open>Experience per game\<close>

datatype chart = ChartTwo | ChartThree | ChartFour

definition for_top_level :: "u8 \<Rightarrow> chart" where
  "for_top_level highest = (if highest \<le> 25 then ChartTwo else if highest \<le> 35 then ChartThree else ChartFour)"

definition TWO_THREE :: "(u32 \<times> u32 \<times> u32 \<times> u32) list" where
  "TWO_THREE = [(100, 100, 100, 100), (95, 105, 140, 60), (90, 110, 152, 48), (85, 115, 163, 37),
     (80, 120, 172, 28), (75, 125, 178, 22), (70, 130, 184, 16)]"

definition FOUR :: "(u32 \<times> u32 \<times> u32 \<times> u32) list" where
  "FOUR = [(100, 100, 100, 100), (85, 115, 115, 85), (70, 130, 130, 70), (55, 145, 145, 55),
     (45, 155, 155, 45), (35, 165, 165, 35), (25, 175, 175, 25)]"

definition chart_row :: "chart \<Rightarrow> u8 \<Rightarrow> u32 \<times> u32 \<times> u32 \<times> u32" where
  "chart_row c difference =
     (let d = unat (min difference MAX_DIFFERENCE)
      in case c of ChartTwo \<Rightarrow> TWO_THREE ! d | ChartThree \<Rightarrow> TWO_THREE ! d | ChartFour \<Rightarrow> FOUR ! d)"

definition abs_diff :: "u8 \<Rightarrow> u8 \<Rightarrow> u8" where
  "abs_diff a b = (if a < b then b - a else a - b)"

text \<open>\<open>round\<close> of a number of hundredths.\<close>

definition rounded :: "nat \<Rightarrow> nat" where
  "rounded hundredths = (hundredths + 50) div 100"

definition xp_change :: "chart \<Rightarrow> u8 \<Rightarrow> u8 \<Rightarrow> played \<Rightarrow> int" where
  "xp_change c level opponent outcome =
     (case chart_row c (abs_diff level opponent) of (higher_wins, higher_loses, lower_wins, lower_loses) \<Rightarrow>
      let higher = level > opponent;
          lost = - int (rounded (unat (if higher then higher_loses else lower_loses) * loss_factor level))
      in case outcome of
        PlayedDraw \<Rightarrow> 0
      | PlayedWin \<Rightarrow> uint (if higher then higher_wins else lower_wins)
      | PlayedLoss \<Rightarrow> lost
      | PlayedDisconnect \<Rightarrow> lost)"

definition xp_apply :: "u32 \<Rightarrow> int \<Rightarrow> u32" where
  "xp_apply xp change = word_of_int (max 0 (min (2 ^ 32 - 1) (uint xp + change)))"

definition team_level :: "u8 list \<Rightarrow> u8" where
  "team_level levels =
     (if levels = [] then 1
      else max 1 (word_of_nat (min 255 ((2 * sum_list (map unat levels) + length levels) div (2 * length levels)))))"

definition inactivity_change :: "chart \<Rightarrow> u8 \<Rightarrow> u32 \<Rightarrow> int" where
  "inactivity_change c level games =
     (if games \<ge> weekly_minimum level then 0
      else xp_change c level (max 1 (if level = 0 then 0 else level - 1)) PlayedLoss)"

section \<open>Settling a game\<close>

record report =
  rp_reporter :: u8
  rp_subject :: u8
  rp_outcome :: played

text \<open>The order candidates are listed in, which is the order of \<open>rank\<close>.\<close>

definition VOTE_ORDER :: "played list" where
  "VOTE_ORDER = [PlayedLoss, PlayedDisconnect, PlayedDraw, PlayedWin]"

fun vote_rank :: "played \<Rightarrow> nat" where
  "vote_rank PlayedLoss = 0"
| "vote_rank PlayedDisconnect = 1"
| "vote_rank PlayedDraw = 2"
| "vote_rank PlayedWin = 3"

definition votes_for :: "report list \<Rightarrow> played \<Rightarrow> nat" where
  "votes_for votes o' = length (filter (\<lambda>r. rp_outcome r = o') votes)"

text \<open>\<open>max_by\<close>: a later candidate takes the place of an earlier one that is not greater.\<close>

definition votes_max :: "report list \<Rightarrow> played" where
  "votes_max votes =
     fold (\<lambda>b a.
       let ca = votes_for votes a; cb = votes_for votes b
       in if ca > cb \<or> ca = cb \<and> vote_rank b > vote_rank a then a else b)
       (tl VOTE_ORDER) (hd VOTE_ORDER)"

definition votes_on :: "report list \<Rightarrow> u8 \<Rightarrow> report list" where
  "votes_on reports player =
     (let about = filter (\<lambda>r. rp_subject r = player) reports;
          others = filter (\<lambda>r. rp_reporter r \<noteq> player) about
      in if others = [] then about else others)"

definition settled_as :: "report list \<Rightarrow> u8 \<Rightarrow> played" where
  "settled_as reports player =
     (let votes = votes_on reports player; o' = votes_max votes
      in if votes_for votes o' > 0 then o' else PlayedDisconnect)"

definition settle :: "u8 list \<Rightarrow> report list \<Rightarrow> (u8 \<times> played) list option" where
  "settle players reports =
     (let settled = map (\<lambda>p. (p, settled_as reports p)) players
      in if list_ex (\<lambda>(_, o'). o' = PlayedWin) settled then Some settled else None)"

section \<open>What the rules give\<close>

text \<open>The levels are the starts in order, and a player is at the last level started.\<close>

lemma level_start_steps: "list_all (\<lambda>n. level_start (word_of_nat n) < level_start (word_of_nat (n + 1))) [1..<50]"
  by (code_simp)

lemma level_start_mono:
  assumes "1 \<le> m" and "m < n" and "n \<le> 50"
  shows "level_start (word_of_nat m) < level_start (word_of_nat n)"
  using assms(2,3)
proof (induction n)
  case (Suc k)
  have step: "level_start (word_of_nat k) < level_start (word_of_nat (Suc k))"
    using level_start_steps assms(1) Suc.prems by (auto simp: list_all_iff)
  show ?case
  proof (cases "m = k")
    case False
    with Suc show ?thesis by (intro less_trans [OF _ step]) simp
  qed (use step in simp)
qed simp

lemma find_rev_last:
  assumes "find P (rev xs) = Some x"
  shows "\<exists>as bs. xs = as @ x # bs \<and> P x \<and> (\<forall>y \<in> set bs. \<not> P y)"
proof -
  from assms obtain as bs where "rev xs = as @ x # bs" "P x" "\<forall>y \<in> set as. \<not> P y"
    unfolding find_Some_iff by (metis (no_types, lifting) append_take_drop_id Cons_nth_drop_Suc in_set_conv_nth
      length_take min.absorb4 nth_take)
  then have "xs = rev bs @ x # rev as" "\<forall>y \<in> set (rev as). \<not> P y"
    by (metis rev_append rev_rev_ident rev.simps(2) append_assoc append_Cons append_Nil, simp)
  with \<open>P x\<close> show ?thesis by blast
qed

lemma level_for_spec:
  "\<exists>n. level_for xp = word_of_nat n \<and> 1 \<le> n \<and> n \<le> 50 \<and> level_start (word_of_nat n) \<le> xp \<and>
     (\<forall>k. n < k \<and> k \<le> 50 \<longrightarrow> xp < level_start (word_of_nat k))"
proof -
  have one: "level_start (word_of_nat 1) \<le> xp" by (simp add: level_start_def)
  have "find (\<lambda>l. level_start l \<le> xp) (rev (map word_of_nat [1..<51])) \<noteq> None"
    unfolding find_None_iff using one by (auto intro!: bexI [of _ 1])
  then obtain l where l: "find (\<lambda>l. level_start l \<le> xp) (rev (map word_of_nat [1..<51])) = Some l" by blast
  from find_rev_last [OF this] obtain as bs where
    ab: "map word_of_nat [1..<51] = as @ l # bs" "level_start l \<le> xp" "\<forall>y \<in> set bs. \<not> level_start y \<le> xp" by blast
  define i where "i = length as"
  have len: "length (map (word_of_nat :: nat \<Rightarrow> u8) [1..<51]) = 50" by simp
  have i: "i < 50" using arg_cong [OF ab(1), of length] unfolding len by (simp add: i_def)
  have nth: "(as @ l # bs) ! j = word_of_nat (Suc j)" if "j < 50" for j
    unfolding ab(1) [symmetric] using that by (simp add: nth_append)
  have "l = word_of_nat (Suc i)" using nth [OF i] by (simp add: i_def)
  moreover have "xp < level_start (word_of_nat k)" if "Suc i < k" "k \<le> 50" for k
  proof -
    have "k - 1 - Suc i < length bs" using that arg_cong [OF ab(1), of length] unfolding len by (simp add: i_def)
    then have "bs ! (k - 1 - Suc i) \<in> set bs" by simp
    moreover have "bs ! (k - 1 - Suc i) = word_of_nat k"
    proof -
      have "k - 1 = i + Suc (k - 1 - Suc i)" using that by simp
      then have "(as @ l # bs) ! (k - 1) = bs ! (k - 1 - Suc i)" by (metis i_def nth_Cons_Suc nth_append_length_plus)
      with nth [of "k - 1"] that show ?thesis by simp
    qed
    ultimately show ?thesis using ab(3) by (metis not_le)
  qed
  ultimately show ?thesis using ab(2) i l by (intro exI [of _ "Suc i"]) (simp add: level_for_def)
qed

text \<open>A level starts where it says.\<close>

theorem level_for_start:
  assumes "1 \<le> n" and "n \<le> 50"
  shows "level_for (level_start (word_of_nat n)) = word_of_nat n"
proof -
  obtain m where m: "level_for (level_start (word_of_nat n)) = word_of_nat m" "1 \<le> m" "m \<le> 50"
      "level_start (word_of_nat m) \<le> level_start (word_of_nat n)"
      "\<forall>k. m < k \<and> k \<le> 50 \<longrightarrow> level_start (word_of_nat n) < level_start (word_of_nat k)"
    using level_for_spec by blast
  have "\<not> n < m" using level_start_mono [OF assms(1) _ m(3)] m(4) by auto
  moreover have "\<not> m < n" using m(5) assms(2) by blast
  ultimately show ?thesis using m(1) by simp
qed

section \<open>What settling decides\<close>

text \<open>The candidate chosen has the most votes, and among these the lowest rank.\<close>

lemma votes_max_best:
  "votes_for votes x \<le> votes_for votes (votes_max votes)"
  "votes_for votes x = votes_for votes (votes_max votes) \<Longrightarrow> vote_rank (votes_max votes) \<le> vote_rank x"
  by (cases x; auto simp: votes_max_def VOTE_ORDER_def Let_def split: if_splits)+

lemma settled_win_iff:
  "settled_as reports p = PlayedWin \<longleftrightarrow>
     (\<forall>x. x \<noteq> PlayedWin \<longrightarrow> votes_for (votes_on reports p) x < votes_for (votes_on reports p) PlayedWin)"
  (is "_ = (\<forall>x. x \<noteq> PlayedWin \<longrightarrow> ?v x < ?v PlayedWin)")
proof
  assume "settled_as reports p = PlayedWin"
  then have w: "votes_max (votes_on reports p) = PlayedWin" "0 < ?v PlayedWin"
    by (auto simp: settled_as_def Let_def split: if_splits)
  show "\<forall>x. x \<noteq> PlayedWin \<longrightarrow> ?v x < ?v PlayedWin"
  proof (intro allI impI)
    fix x assume "x \<noteq> PlayedWin"
    then have "vote_rank x < vote_rank PlayedWin" by (cases x) auto
    with votes_max_best [where votes = "votes_on reports p" and x = x] w(1) show "?v x < ?v PlayedWin" by force
  qed
next
  assume most: "\<forall>x. x \<noteq> PlayedWin \<longrightarrow> ?v x < ?v PlayedWin"
  then have "0 < ?v PlayedWin" by (metis gr_zeroI not_less_zero played.distinct(1))
  moreover have "votes_max (votes_on reports p) = PlayedWin"
    using votes_max_best(1) [of "votes_on reports p" PlayedWin] most by (metis not_le)
  ultimately show "settled_as reports p = PlayedWin" by (simp add: settled_as_def Let_def)
qed

definition own_claim :: "u8 \<Rightarrow> report \<Rightarrow> bool" where
  "own_claim p r \<longleftrightarrow> rp_reporter r = p \<and> rp_subject r = p"

lemma votes_on_without_own:
  assumes "r \<in> set reports" and "rp_subject r = p" and "rp_reporter r \<noteq> p"
  shows "votes_on (filter (\<lambda>r. \<not> own_claim p r) reports) p = votes_on reports p"
proof -
  have "filter (\<lambda>r. rp_reporter r \<noteq> p) (filter (\<lambda>r. rp_subject r = p) reports) \<noteq> []"
    using assms by (auto simp: filter_empty_conv)
  moreover have "filter (\<lambda>r. rp_subject r = p) (filter (\<lambda>r. \<not> own_claim p r) reports) =
      filter (\<lambda>r. rp_reporter r \<noteq> p) (filter (\<lambda>r. rp_subject r = p) reports)"
    by (auto simp: own_claim_def intro: filter_cong)
  moreover have "filter (\<lambda>r. rp_reporter r \<noteq> p) (filter (\<lambda>r. rp_reporter r \<noteq> p)
      (filter (\<lambda>r. rp_subject r = p) reports)) = filter (\<lambda>r. rp_reporter r \<noteq> p) (filter (\<lambda>r. rp_subject r = p) reports)"
    by simp
  ultimately show ?thesis by (simp add: votes_on_def Let_def)
qed

text \<open>Whose votes count: the others' when there are any, else the player's own.\<close>

lemma votes_on_others:
  assumes "r \<in> set reports" and "rp_subject r = p" and "rp_reporter r \<noteq> p"
  shows "votes_on reports p = filter (\<lambda>r. rp_subject r = p \<and> rp_reporter r \<noteq> p) reports"
  using assms by (auto simp: votes_on_def Let_def filter_empty_conv intro: filter_cong)

lemma votes_on_own:
  assumes "\<forall>r \<in> set reports. rp_subject r = p \<longrightarrow> rp_reporter r = p"
  shows "votes_on reports p = filter (own_claim p) reports"
proof -
  have "filter (\<lambda>r. rp_reporter r \<noteq> p) (filter (\<lambda>r. rp_subject r = p) reports) = []"
    using assms by (auto simp: filter_empty_conv)
  moreover have "filter (\<lambda>r. rp_subject r = p) reports = filter (own_claim p) reports"
    using assms by (intro filter_cong) (auto simp: own_claim_def)
  ultimately show ?thesis by (simp add: votes_on_def)
qed

lemma settled_alone:
  assumes "votes_on reports p = [r]"
  shows "settled_as reports p = rp_outcome r"
proof -
  have "votes_for [r] (rp_outcome r) \<le> votes_for [r] (votes_max [r])" by (rule votes_max_best)
  then have "votes_max [r] = rp_outcome r" by (simp add: votes_for_def split: if_splits)
  then show ?thesis by (simp add: settled_as_def assms votes_for_def)
qed

text \<open>
  C40: A game of WarCraft III counts exactly when somebody wins it. A player wins exactly when strictly
  more of the votes on them say so than say any one other thing. As soon as anybody else has reported
  on a player, the votes are those of the others: nothing the player says of themselves changes their
  outcome. When nobody else has, the votes are their own, so that a player alone in reporting on
  themselves gets what they say, a win included; and a player nobody reported on is disconnected.
\<close>

theorem settled_by_the_others:
  "(settle players reports = None \<longleftrightarrow> (\<forall>p \<in> set players. settled_as reports p \<noteq> PlayedWin)) \<and>
   (settle players reports = Some s \<longrightarrow> s = map (\<lambda>p. (p, settled_as reports p)) players) \<and>
   (settled_as reports p = PlayedWin \<longleftrightarrow>
     (\<forall>x. x \<noteq> PlayedWin \<longrightarrow> votes_for (votes_on reports p) x < votes_for (votes_on reports p) PlayedWin)) \<and>
   ((\<exists>r \<in> set reports. rp_subject r = p \<and> rp_reporter r \<noteq> p) \<longrightarrow>
     votes_on reports p = filter (\<lambda>r. rp_subject r = p \<and> rp_reporter r \<noteq> p) reports \<and>
     settled_as (filter (\<lambda>r. \<not> own_claim p r) reports) p = settled_as reports p) \<and>
   ((\<forall>r \<in> set reports. rp_subject r = p \<longrightarrow> rp_reporter r = p) \<longrightarrow>
     votes_on reports p = filter (own_claim p) reports \<and>
     (\<forall>r. filter (own_claim p) reports = [r] \<longrightarrow> settled_as reports p = rp_outcome r)) \<and>
   ((\<forall>r \<in> set reports. rp_subject r \<noteq> p) \<longrightarrow> settled_as reports p = PlayedDisconnect)"
proof (intro conjI)
  show "settle players reports = None \<longleftrightarrow> (\<forall>p \<in> set players. settled_as reports p \<noteq> PlayedWin)"
    by (auto simp: settle_def Let_def list_ex_iff)
  show "settle players reports = Some s \<longrightarrow> s = map (\<lambda>p. (p, settled_as reports p)) players"
    by (simp add: settle_def Let_def)
  show "settled_as reports p = PlayedWin \<longleftrightarrow>
     (\<forall>x. x \<noteq> PlayedWin \<longrightarrow> votes_for (votes_on reports p) x < votes_for (votes_on reports p) PlayedWin)"
    by (rule settled_win_iff)
  show "(\<exists>r \<in> set reports. rp_subject r = p \<and> rp_reporter r \<noteq> p) \<longrightarrow>
     votes_on reports p = filter (\<lambda>r. rp_subject r = p \<and> rp_reporter r \<noteq> p) reports \<and>
     settled_as (filter (\<lambda>r. \<not> own_claim p r) reports) p = settled_as reports p"
    by (auto simp: settled_as_def votes_on_without_own votes_on_others)
  show "(\<forall>r \<in> set reports. rp_subject r = p \<longrightarrow> rp_reporter r = p) \<longrightarrow>
     votes_on reports p = filter (own_claim p) reports \<and>
     (\<forall>r. filter (own_claim p) reports = [r] \<longrightarrow> settled_as reports p = rp_outcome r)"
    using settled_alone votes_on_own by (metis (no_types, lifting))
  show "(\<forall>r \<in> set reports. rp_subject r \<noteq> p) \<longrightarrow> settled_as reports p = PlayedDisconnect"
    by (simp add: settled_as_def votes_on_def votes_for_def filter_empty_conv Let_def)
qed

definition disputed :: "report list" where
  "disputed =
     [\<lparr>rp_reporter = 1, rp_subject = 1, rp_outcome = PlayedWin\<rparr>, \<lparr>rp_reporter = 2, rp_subject = 1, rp_outcome = PlayedLoss\<rparr>,
      \<lparr>rp_reporter = 1, rp_subject = 2, rp_outcome = PlayedWin\<rparr>, \<lparr>rp_reporter = 4, rp_subject = 4, rp_outcome = PlayedWin\<rparr>]"

theorem settled_by_the_others_witness:
  "settled_as disputed 1 = PlayedLoss \<and> settled_as (filter (\<lambda>r. \<not> own_claim 1 r) disputed) 1 = PlayedLoss \<and>
   settle [1, 2, 3, 4] disputed = Some [(1, PlayedLoss), (2, PlayedWin), (3, PlayedDisconnect), (4, PlayedWin)] \<and>
   settled_as disputed 3 = PlayedDisconnect"
proof -
  have vs: "settled_as disputed 1 = PlayedLoss" "settled_as disputed 2 = PlayedWin"
    by (simp_all add: settled_as_def votes_on_def votes_max_def votes_for_def disputed_def VOTE_ORDER_def Let_def)
  note all = settled_by_the_others [of "[]" disputed "[]", THEN conjunct2, THEN conjunct2, THEN conjunct2]
  have "settled_as (filter (\<lambda>r. \<not> own_claim 1 r) disputed) 1 = settled_as disputed 1"
    using all [of 1, THEN conjunct1] by (simp add: disputed_def)
  moreover have "settled_as disputed 4 = PlayedWin"
    using all [of 4, THEN conjunct2, THEN conjunct1] by (simp add: disputed_def own_claim_def)
  moreover have "settled_as disputed 3 = PlayedDisconnect"
    using all [of 3, THEN conjunct2, THEN conjunct2] by (simp add: disputed_def)
  ultimately show ?thesis using vs by (simp add: settle_def Let_def)
qed

section \<open>Bounds on experience\<close>

text \<open>A win never costs, a loss never gives, and no game moves more than 184 points.\<close>

lemma chart_row_bounds:
  "case chart_row c difference of (hw, hl, lw, ll) \<Rightarrow>
     25 \<le> unat hw \<and> unat hw \<le> 184 \<and> 16 \<le> unat hl \<and> unat hl \<le> 175 \<and>
     25 \<le> unat lw \<and> unat lw \<le> 184 \<and> 16 \<le> unat ll \<and> unat ll \<le> 175"
proof -
  define d where "d = unat (min difference MAX_DIFFERENCE)"
  have "d \<le> 6" by (simp add: d_def MAX_DIFFERENCE_def min_def word_le_nat_alt)
  then have d: "d = 0 \<or> d = 1 \<or> d = 2 \<or> d = 3 \<or> d = 4 \<or> d = 5 \<or> d = 6" by arith
  have "chart_row c difference =
      (case c of ChartTwo \<Rightarrow> TWO_THREE ! d | ChartThree \<Rightarrow> TWO_THREE ! d | ChartFour \<Rightarrow> FOUR ! d)"
    by (simp only: chart_row_def Let_def d_def)
  with d show ?thesis by (elim disjE; cases c; simp add: TWO_THREE_def FOUR_def)
qed

lemma rounded_bounds:
  assumes "16 \<le> l" and "l \<le> 175" and "10 \<le> f" and "f \<le> 100"
  shows "0 < rounded (l * f)" and "rounded (l * f) \<le> 175"
proof -
  have "16 * 10 \<le> l * f" "l * f \<le> 175 * 100" 
    using mult_le_mono [OF assms(1,3)] mult_le_mono [OF assms(2,4)] by simp_all
  then show "0 < rounded (l * f)" "rounded (l * f) \<le> 175" by (simp_all add: rounded_def div_greater_zero_iff)
qed

theorem xp_change_bounds:
  "(case outcome of
      PlayedWin \<Rightarrow> 25 \<le> xp_change c level opponent outcome \<and> xp_change c level opponent outcome \<le> 184
    | PlayedDraw \<Rightarrow> xp_change c level opponent outcome = 0
    | _ \<Rightarrow> - 175 \<le> xp_change c level opponent outcome \<and> xp_change c level opponent outcome < 0)"
proof -
  obtain hw hl lw ll where row: "chart_row c (abs_diff level opponent) = (hw, hl, lw, ll)"
    by (metis prod_cases4)
  note b = chart_row_bounds [of c "abs_diff level opponent", unfolded row, simplified]
  have f: "10 \<le> loss_factor level" "loss_factor level \<le> 100" by (simp_all add: loss_factor_def)
  define lost where "lost = rounded (unat (if level > opponent then hl else ll) * loss_factor level)"
  have lost: "0 < lost" "lost \<le> 175" unfolding lost_def
    using b by (auto intro!: rounded_bounds f)
  define won where "won = unat (if level > opponent then hw else lw)"
  have won: "25 \<le> won" "won \<le> 184" unfolding won_def using b by auto
  have "xp_change c level opponent outcome =
      (case outcome of PlayedDraw \<Rightarrow> 0 | PlayedWin \<Rightarrow> int won | _ \<Rightarrow> - int lost)"
    by (cases outcome) (simp_all add: xp_change_def row Let_def lost_def won_def)
  with won lost show ?thesis by (cases outcome) auto
qed

text \<open>Experience never goes below zero nor wraps.\<close>

lemma xp_apply_value: "uint (xp_apply xp change) = max 0 (min (2 ^ 32 - 1) (uint xp + change))"
  unfolding xp_apply_def uint_word_of_int by (subst mod_pos_pos_trivial) auto

end
