(* ===== verification/Federation.thy ===== *)
theory Federation
  imports Framing
begin

text \<open>
  \<open>bnetcc-federation\<close>: what a node and its hub say to each other (\<open>lib.rs\<close>), how one message is marked
  off from the next (\<open>frame.rs\<close>), and the connection with the greeting that opens it (\<open>link.rs\<close>). The
  JSON coder of serde is a parameter: the writer \<open>to_json\<close> and the reader \<open>of_json\<close>. What a stream
  delivers is the list of its chunks, and it is closed after the last; a write does not fail.
\<close>

section \<open>Messages\<close>

definition PROTOCOL_VERSION :: u32 where "PROTOCOL_VERSION = 1"

type_synonym cookie = u64
type_synonym sequence = u64

record hello =
  he_protocol :: u32
  he_software :: bytes
  he_version :: bytes
  he_capabilities :: "bytes list"

record welcome_terms =
  we_protocol :: u32
  we_node :: bytes
  we_official_channels :: "bytes list"
  we_heartbeat_secs :: u64

datatype refusal = RefusedProtocol u32 | RefusedUnknown | RefusedNotWelcome bytes

record auth_verify =
  av_cookie :: cookie
  av_account :: bytes
  av_client_token :: u32
  av_server_token :: u32
  av_proof :: bytes

datatype channel_what =
    WhatTalk bytes | WhatEmote bytes | WhatJoined | WhatLeft | WhatOperator bool | WhatKicked bytes

record channel_event =
  ce_channel :: bytes
  ce_account :: bytes
  ce_what :: channel_what
  ce_sequence :: "sequence option"

record game_ad =
  ga_name :: bytes
  ga_product :: bytes
  ga_host :: bytes
  ga_statstring :: bytes
  ga_reachable :: "bool option"

datatype message =
    MsgHello hello
  | MsgWelcome welcome_terms
  | MsgRefused refusal
  | MsgPing cookie
  | MsgPong cookie
  | MsgAuthVerify auth_verify
  | MsgAuthVerdict cookie bool
  | MsgSessionOpened bytes bytes
  | MsgSessionClosed bytes
  | MsgChannelJoin cookie bytes bytes
  | MsgChannelLeave bytes bytes
  | MsgChannelEvent channel_event
  | MsgChannelRoster bytes "bytes list" sequence
  | MsgGameAdvertise game_ad
  | MsgGameWithdraw bytes
  | MsgGameListQuery cookie "bytes option"
  | MsgGameList cookie "game_ad list"

definition is_greeting :: "message \<Rightarrow> bool" where
  "is_greeting m = (case m of MsgHello _ \<Rightarrow> True | _ \<Rightarrow> False)"

definition message_cookie :: "message \<Rightarrow> cookie option" where
  "message_cookie m =
     (case m of
        MsgPing c \<Rightarrow> Some c
      | MsgPong c \<Rightarrow> Some c
      | MsgAuthVerdict c _ \<Rightarrow> Some c
      | MsgChannelJoin c _ _ \<Rightarrow> Some c
      | MsgGameListQuery c _ \<Rightarrow> Some c
      | MsgGameList c _ \<Rightarrow> Some c
      | MsgAuthVerify a \<Rightarrow> Some (av_cookie a)
      | _ \<Rightarrow> None)"

section \<open>Frames\<close>

definition FED_MAX_FRAME :: nat where "FED_MAX_FRAME = 1048576"

datatype frame_error = FrameTooLarge nat | FrameMalformed

text \<open>A big-endian length, and \<open>u32::try_from(len).unwrap_or(u32::MAX)\<close>.\<close>

definition len_be :: "u32 \<Rightarrow> bytes" where "len_be v = rev (le32 v)"

definition fed_encode :: "('m \<Rightarrow> bytes) \<Rightarrow> 'm \<Rightarrow> bytes" where
  "fed_encode to_json m =
     (let body = to_json m
      in len_be (if length body < 2 ^ 32 then word_of_nat (length body) else - 1) @ body)"

definition fed_decode :: "(bytes \<Rightarrow> 'm option) \<Rightarrow> bytes \<Rightarrow> (frame_error, ('m \<times> nat) option) outcome" where
  "fed_decode of_json buf =
     (if length buf < 4 then Ok None
      else
        let len = unat (of_le (rev (take 4 buf)) :: u32) in
        if len > FED_MAX_FRAME then Err (FrameTooLarge len)
        else if length buf < 4 + len then Ok None
        else case of_json (take len (drop 4 buf)) of
          None \<Rightarrow> Err FrameMalformed
        | Some m \<Rightarrow> Ok (Some (m, 4 + len)))"

section \<open>The connection\<close>

datatype link_error = LinkClosed | LinkProtocol frame_error | OutOfTurn | LinkRefused refusal

text \<open>The bytes read but not yet a message, the chunks the stream has still to deliver, and what was written.\<close>

record fed_link =
  fl_pending :: bytes
  fl_incoming :: "bytes list"
  fl_written :: bytes

definition fed_link_new :: "bytes list \<Rightarrow> fed_link" where
  "fed_link_new incoming = \<lparr>fl_pending = [], fl_incoming = incoming, fl_written = []\<rparr>"

definition fed_send :: "('m \<Rightarrow> bytes) \<Rightarrow> 'm \<Rightarrow> fed_link \<Rightarrow> fed_link" where
  "fed_send to_json m l = l\<lparr>fl_written := fl_written l @ fed_encode to_json m\<rparr>"

text \<open>A read that gives no bytes is the end of the stream.\<close>

fun recv_from :: "(bytes \<Rightarrow> 'm option) \<Rightarrow> bytes list \<Rightarrow> bytes \<Rightarrow> (link_error, 'm \<times> bytes \<times> bytes list) outcome" where
  "recv_from of_json chunks pending =
     (case fed_decode of_json pending of
        Err e \<Rightarrow> Err (LinkProtocol e)
      | Panic \<Rightarrow> Panic
      | Ok (Some (m, used)) \<Rightarrow> Ok (m, drop used pending, chunks)
      | Ok None \<Rightarrow>
          (case chunks of
             [] \<Rightarrow> Err LinkClosed
           | chunk # rest \<Rightarrow>
               if chunk = [] then Err LinkClosed
               else if length pending + length chunk > FED_MAX_FRAME + 4
               then Err (LinkProtocol (FrameTooLarge (length pending + length chunk)))
               else recv_from of_json rest (pending @ chunk)))"

declare recv_from.simps [simp del]

definition fed_recv :: "(bytes \<Rightarrow> 'm option) \<Rightarrow> fed_link \<Rightarrow> (link_error, 'm \<times> fed_link) outcome" where
  "fed_recv of_json l =
     obind (recv_from of_json (fl_incoming l) (fl_pending l)) (\<lambda>(m, pending, rest).
     Ok (m, l\<lparr>fl_pending := pending, fl_incoming := rest\<rparr>))"

text \<open>The coder of messages.\<close>

record coder =
  cd_write :: "message \<Rightarrow> bytes"
  cd_read :: "bytes \<Rightarrow> message option"

text \<open>The node's side, before and after the hub's answer, and the hub's side.\<close>

definition greet_start :: "coder \<Rightarrow> hello \<Rightarrow> fed_link \<Rightarrow> fed_link" where
  "greet_start c h = fed_send (cd_write c) (MsgHello h)"

definition greet_end :: "coder \<Rightarrow> fed_link \<Rightarrow> (link_error, welcome_terms \<times> fed_link) outcome" where
  "greet_end c l =
     obind (fed_recv (cd_read c) l) (\<lambda>(m, l).
     case m of
       MsgWelcome w \<Rightarrow> Ok (w, l)
     | MsgRefused why \<Rightarrow> Err (LinkRefused why)
     | _ \<Rightarrow> Err OutOfTurn)"

definition welcome_of :: "u32 \<Rightarrow> bytes \<Rightarrow> bytes list \<Rightarrow> u64 \<Rightarrow> welcome_terms" where
  "welcome_of version node official_channels heartbeat_secs =
     \<lparr>we_protocol = version, we_node = node, we_official_channels = official_channels,
      we_heartbeat_secs = heartbeat_secs\<rparr>"

text \<open>The link is returned with the refusal too: what was written reaches the node.\<close>

definition fed_accept :: "coder \<Rightarrow> bytes \<Rightarrow> bytes list \<Rightarrow> u64 \<Rightarrow> fed_link \<Rightarrow> (link_error, hello) outcome \<times> fed_link" where
  "fed_accept c node official_channels heartbeat_secs l =
     (case fed_recv (cd_read c) l of
        Err e \<Rightarrow> (Err e, l)
      | Panic \<Rightarrow> (Panic, l)
      | Ok (MsgHello h, l) \<Rightarrow>
          if he_protocol h > PROTOCOL_VERSION
          then (Ok h, fed_send (cd_write c) (MsgWelcome (welcome_of PROTOCOL_VERSION node official_channels heartbeat_secs)) l)
          else if he_protocol h < 1
          then
            let refusal = RefusedProtocol PROTOCOL_VERSION
            in (Err (LinkRefused refusal), fed_send (cd_write c) (MsgRefused refusal) l)
          else (Ok h, fed_send (cd_write c)
            (MsgWelcome (welcome_of (min (he_protocol h) PROTOCOL_VERSION) node official_channels heartbeat_secs)) l)
      | Ok (_, l) \<Rightarrow> (Err OutOfTurn, l))"

definition refuse :: "coder \<Rightarrow> refusal \<Rightarrow> fed_link \<Rightarrow> fed_link" where
  "refuse c why = fed_send (cd_write c) (MsgRefused why)"

text \<open>\<open>1u64.checked_shl(attempt.min(6)).unwrap_or(CEILING).min(CEILING)\<close>: the shift is below 64.\<close>

definition retry_delay_secs :: "u32 \<Rightarrow> u64" where
  "retry_delay_secs attempt = min (push_bit (unat (min attempt 6)) 1) 60"

section \<open>Streams of messages\<close>

text \<open>A byte string with its front dropped is a queue.\<close>

interpretation pending: byte_queue "\<lambda>_. True" id "[]" "\<lambda>d q. q @ d" drop
  by unfold_locales auto

text \<open>The decoder as the loops of \<open>Framing\<close> use one.\<close>

definition fed_take :: "(bytes \<Rightarrow> 'm option) \<Rightarrow> bytes \<Rightarrow> (frame_error, 'm option \<times> bytes) outcome" where
  "fed_take of_json q =
     (case fed_decode of_json q of
        Ok None \<Rightarrow> Ok (None, q)
      | Ok (Some (m, used)) \<Rightarrow> Ok (Some m, drop used q)
      | Err e \<Rightarrow> Err e
      | Panic \<Rightarrow> Panic)"

text \<open>A message that fits a frame, and that the reader gives back.\<close>

definition legal_message :: "('m \<Rightarrow> bytes) \<Rightarrow> (bytes \<Rightarrow> 'm option) \<Rightarrow> 'm \<Rightarrow> bool" where
  "legal_message to_json of_json m \<longleftrightarrow> length (to_json m) \<le> FED_MAX_FRAME \<and> of_json (to_json m) = Some m"

lemma length_len_be [simp]: "length (len_be v) = 4"
  by (simp add: len_be_def)

lemma of_le_len_be [simp]: "of_le (rev (len_be v)) = v"
  by (simp add: len_be_def)

lemma fed_encode_legal:
  assumes "legal_message to_json of_json m"
  shows "fed_encode to_json m = len_be (word_of_nat (length (to_json m))) @ to_json m"
    and "unat (word_of_nat (length (to_json m)) :: u32) = length (to_json m)"
  using assms by (simp_all add: legal_message_def fed_encode_def FED_MAX_FRAME_def unat_of_nat Let_def)

lemma fed_decode_encoded:
  assumes "legal_message to_json of_json m"
  shows "fed_decode of_json (fed_encode to_json m @ r) = Ok (Some (m, length (fed_encode to_json m)))"
  using assms fed_encode_legal [OF assms]
  by (auto simp: fed_decode_def Let_def legal_message_def)

lemma fed_decode_partial:
  assumes "legal_message to_json of_json m" and "fed_encode to_json m = p @ s" and "s \<noteq> []"
  shows "fed_decode of_json p = Ok None"
proof (cases "length p < 4")
  case False
  note e = fed_encode_legal [OF assms(1)]
  from False assms(2) e(1) have "take 4 p = len_be (word_of_nat (length (to_json m)))"
    by (metis append_eq_conv_conj append_take_drop_id length_len_be not_less take_append take_take min_def
        diff_is_0_eq take_0 append_Nil2)
  moreover have "length p < 4 + length (to_json m)"
    using arg_cong [OF assms(2), of length] assms(3) e(1) by (cases s) auto
  ultimately show ?thesis using assms(1) e(2) False
    by (simp add: fed_decode_def Let_def legal_message_def)
qed (simp add: fed_decode_def)

interpretation fed: framing "\<lambda>_. True" id "[]" "\<lambda>d q. q @ d" drop
  "fed_encode to_json" "legal_message to_json of_json" "fed_take of_json" for to_json of_json
proof unfold_locales
  fix q :: bytes assume "id q = []"
  then show "fed_take of_json q = Ok (None, q)" by (simp add: fed_take_def fed_decode_def)
next
  fix q f r assume "legal_message to_json of_json f" "id q = fed_encode to_json f @ r"
  then show "\<exists>q'. fed_take of_json q = Ok (Some f, q') \<and> True \<and> id q' = r"
    by (simp add: fed_take_def fed_decode_encoded)
next
  fix q f s assume "legal_message to_json of_json f" "fed_encode to_json f = id q @ s" "s \<noteq> []"
  then show "fed_take of_json q = Ok (None, q)"
    using fed_decode_partial [of to_json of_json f q s] by (simp add: fed_take_def)
qed

end
