(* ===== verification/Federation_Rules.thy ===== *)
theory Federation_Rules
  imports Federation
begin

text \<open>
  What a federation connection promises, for any coder that reads back what it writes: messages arrive
  whole and in order however the stream is cut, as long as no more than one frame's worth is waiting;
  and a node and a hub that greet agree on a version both speak and on the name the hub gives.
\<close>

section \<open>One message\<close>

lemma recv_from_frame:
  assumes "legal_message to_json of_json f" and "pending @ concat chunks = fed_encode to_json f @ r"
    and "\<forall>c \<in> set chunks. c \<noteq> []" and "length (pending @ concat chunks) \<le> FED_MAX_FRAME + 4"
  shows "\<exists>p cs. recv_from of_json chunks pending = Ok (f, p, cs) \<and> p @ concat cs = r \<and> (\<forall>c \<in> set cs. c \<noteq> [])"
  using assms(2-4)
proof (induction chunks arbitrary: pending)
  case Nil
  then show ?case using fed_decode_encoded [OF assms(1), of r] by (simp add: recv_from.simps [of _ "[]"])
next
  case (Cons c cs)
  show ?case
  proof (cases "length (fed_encode to_json f) \<le> length pending")
    case True
    have "take (length (fed_encode to_json f)) (pending @ concat (c # cs)) = fed_encode to_json f"
      using Cons.prems(1) by simp
    with True have "take (length (fed_encode to_json f)) pending = fed_encode to_json f" by simp
    then obtain p where p: "pending = fed_encode to_json f @ p" by (metis append_take_drop_id)
    with Cons.prems(1) have "p @ concat (c # cs) = r" by simp
    with p Cons.prems(2) show ?thesis
      using fed_decode_encoded [OF assms(1), of p] by (simp add: recv_from.simps [of _ "c # cs"])
  next
    case False
    have "take (length pending) (fed_encode to_json f @ r) = pending"
      using arg_cong [OF Cons.prems(1), of "take (length pending)"] by simp
    with False have "fed_encode to_json f = pending @ drop (length pending) (fed_encode to_json f)"
      by (metis append_take_drop_id take_append diff_is_0_eq nat_le_linear take_0 append_Nil2)
    with fed_decode_partial [OF assms(1)] False have "fed_decode of_json pending = Ok None" by auto
    then have "recv_from of_json (c # cs) pending = recv_from of_json cs (pending @ c)"
      using Cons.prems(2,3) by (simp add: recv_from.simps [of _ "c # cs"])
    with Cons.IH [of "pending @ c"] Cons.prems show ?thesis by simp
  qed
qed

lemma fed_encode_short: "legal_message to_json of_json m \<Longrightarrow> length (fed_encode to_json m) \<le> FED_MAX_FRAME + 4"
  using fed_encode_legal(1) [of to_json of_json m] by (simp add: legal_message_def)

lemma fed_recv_frame:
  assumes "legal_message to_json of_json f"
    and "fl_pending l @ concat (fl_incoming l) = fed_encode to_json f @ r"
    and "\<forall>c \<in> set (fl_incoming l). c \<noteq> []"
    and "length (fl_pending l @ concat (fl_incoming l)) \<le> FED_MAX_FRAME + 4"
  shows "\<exists>l'. fed_recv of_json l = Ok (f, l') \<and> fl_pending l' @ concat (fl_incoming l') = r \<and>
    (\<forall>c \<in> set (fl_incoming l'). c \<noteq> []) \<and> fl_written l' = fl_written l"
  using recv_from_frame [OF assms] by (auto simp: fed_recv_def)

section \<open>Many messages\<close>

fun recv_all :: "(bytes \<Rightarrow> 'm option) \<Rightarrow> nat \<Rightarrow> fed_link \<Rightarrow> (link_error, 'm list \<times> fed_link) outcome" where
  "recv_all of_json 0 l = Ok ([], l)"
| "recv_all of_json (Suc n) l =
     obind (fed_recv of_json l) (\<lambda>(m, l). obind (recv_all of_json n l) (\<lambda>(ms, l). Ok (m # ms, l)))"

lemma recv_all_frames:
  assumes "\<forall>m \<in> set ms. legal_message to_json of_json m"
    and "fl_pending l @ concat (fl_incoming l) = concat (map (fed_encode to_json) ms)"
    and "\<forall>c \<in> set (fl_incoming l). c \<noteq> []"
    and "length (concat (map (fed_encode to_json) ms)) \<le> FED_MAX_FRAME + 4"
  shows "\<exists>l'. recv_all of_json (length ms) l = Ok (ms, l') \<and> fl_pending l' = [] \<and> concat (fl_incoming l') = []"
  using assms
proof (induction ms arbitrary: l)
  case (Cons m ms)
  obtain l1 where l1: "fed_recv of_json l = Ok (m, l1)"
      "fl_pending l1 @ concat (fl_incoming l1) = concat (map (fed_encode to_json) ms)"
      "\<forall>c \<in> set (fl_incoming l1). c \<noteq> []"
    using fed_recv_frame [of to_json of_json m l "concat (map (fed_encode to_json) ms)"] Cons.prems by auto
  with Cons.IH [of l1] Cons.prems show ?case by auto
qed simp

text \<open>
  Messages sent over one connection come out of the other end as sent, however the bytes are cut into
  reads, as long as they fit one frame together.
\<close>

theorem federation_stream_arrives:
  assumes "\<forall>m \<in> set ms. legal_message to_json of_json m"
    and "concat chunks = fl_written (fold (fed_send to_json) ms (fed_link_new []))"
    and "\<forall>c \<in> set chunks. c \<noteq> []" and "length (concat chunks) \<le> FED_MAX_FRAME + 4"
  shows "\<exists>l. recv_all of_json (length ms) (fed_link_new chunks) = Ok (ms, l) \<and> fl_pending l = []"
proof -
  have "fl_written (fold (fed_send to_json) ms l) = fl_written l @ concat (map (fed_encode to_json) ms)" for l
    by (induction ms arbitrary: l) (simp_all add: fed_send_def)
  then have "concat chunks = concat (map (fed_encode to_json) ms)" using assms(2) by (simp add: fed_link_new_def)
  with recv_all_frames [OF assms(1), of "fed_link_new chunks"] assms(3,4) show ?thesis
    by (auto simp: fed_link_new_def)
qed

text \<open>
  The limit counts what is waiting and the chunk read, not the frame: a legal message whose last
  byte arrives together with a message sent after it is refused when the two are longer than a frame.
\<close>

theorem pipelined_message_refused:
  assumes "legal_message to_json of_json m" and "fed_encode to_json m = p @ [b]"
    and "length p + length (b # rest) > FED_MAX_FRAME + 4"
  shows "fed_recv of_json \<lparr>fl_pending = p, fl_incoming = [b # rest], fl_written = []\<rparr> =
    Err (LinkProtocol (FrameTooLarge (length p + length (b # rest))))"
  using fed_decode_partial [OF assms(1,2)] assms(3)
  by (simp add: fed_recv_def recv_from.simps)

section \<open>The greeting\<close>

abbreviation speaks :: "coder \<Rightarrow> message \<Rightarrow> bool" where
  "speaks c \<equiv> legal_message (cd_write c) (cd_read c)"

lemma recv_only:
  assumes "speaks c m" and "concat chunks = fed_encode (cd_write c) m" and "\<forall>x \<in> set chunks. x \<noteq> []"
  shows "\<exists>l. fed_recv (cd_read c) (fed_link_new chunks) = Ok (m, l) \<and> fl_pending l = [] \<and> fl_written l = []"
  using fed_recv_frame [OF assms(1), of "fed_link_new chunks" "[]"] assms fed_encode_short [OF assms(1)]
  by (auto simp: fed_link_new_def)

text \<open>The terms the hub offers a node of a given version.\<close>

definition terms :: "u32 \<Rightarrow> bytes \<Rightarrow> bytes list \<Rightarrow> u64 \<Rightarrow> welcome_terms" where
  "terms version = welcome_of (min version PROTOCOL_VERSION)"

text \<open>
  C37: a node of version 1 or later that greets is let in, whatever it says of itself and however either
  stream is cut: the hub takes its greeting as it was sent, and the node takes the terms the hub gave,
  in the lower of the two versions and under the name the hub chose. A node of an earlier version is
  told the hub's version and refused on both sides.
\<close>

theorem greeting_agrees:
  assumes "speaks c (MsgHello h)"
    and "speaks c (MsgWelcome (terms (he_protocol h) node channels secs))"
    and "speaks c (MsgRefused (RefusedProtocol PROTOCOL_VERSION))"
    and "concat up = fl_written (greet_start c h (fed_link_new []))" and "\<forall>x \<in> set up. x \<noteq> []"
    and "fed_accept c node channels secs (fed_link_new up) = (verdict, hub)"
    and "concat down = fl_written hub" and "\<forall>x \<in> set down. x \<noteq> []"
  shows "if 1 \<le> he_protocol h
    then verdict = Ok h \<and> (\<exists>l. greet_end c (fed_link_new down) = Ok (terms (he_protocol h) node channels secs, l))
    else verdict = Err (LinkRefused (RefusedProtocol PROTOCOL_VERSION)) \<and>
      greet_end c (fed_link_new down) = Err (LinkRefused (RefusedProtocol PROTOCOL_VERSION))"
proof -
  have "concat up = fed_encode (cd_write c) (MsgHello h)"
    using assms(4) by (simp add: greet_start_def fed_send_def fed_link_new_def)
  from recv_only [OF assms(1) this assms(5)] obtain l where
    l: "fed_recv (cd_read c) (fed_link_new up) = Ok (MsgHello h, l)" "fl_written l = []" by auto
  show ?thesis
  proof (cases "1 \<le> he_protocol h")
    case True
    have "PROTOCOL_VERSION < he_protocol h \<Longrightarrow> min (he_protocol h) PROTOCOL_VERSION = PROTOCOL_VERSION" by simp
    with True assms(6) l have v: "verdict = Ok h"
      "hub = fed_send (cd_write c) (MsgWelcome (terms (he_protocol h) node channels secs)) l"
      by (auto simp: fed_accept_def terms_def not_less [symmetric] split: if_splits)
    with assms(7) l(2) have "concat down = fed_encode (cd_write c) (MsgWelcome (terms (he_protocol h) node channels secs))"
      by (simp add: fed_send_def)
    from recv_only [OF assms(2) this assms(8)] v(1) True show ?thesis by (auto simp: greet_end_def)
  next
    case False
    then have "he_protocol h < 1" "\<not> PROTOCOL_VERSION < he_protocol h"
      by (simp_all add: not_le PROTOCOL_VERSION_def less_imp_le not_less)
    with assms(6) l have v: "verdict = Err (LinkRefused (RefusedProtocol PROTOCOL_VERSION))"
      "hub = fed_send (cd_write c) (MsgRefused (RefusedProtocol PROTOCOL_VERSION)) l"
      by (auto simp: fed_accept_def Let_def)
    with assms(7) l(2) have "concat down = fed_encode (cd_write c) (MsgRefused (RefusedProtocol PROTOCOL_VERSION))"
      by (simp add: fed_send_def)
    from recv_only [OF assms(3) this assms(8)] v(1) False show ?thesis by (auto simp: greet_end_def)
  qed
qed

text \<open>A coder of three messages, a byte each, and a node of version 3.\<close>

definition hello3 :: hello where
  "hello3 = \<lparr>he_protocol = 3, he_software = ascii ''cc'', he_version = ascii ''9'', he_capabilities = []\<rparr>"

definition terms3 :: welcome_terms where "terms3 = terms 3 (ascii ''eu'') [] 30"

definition refusal3 :: refusal where "refusal3 = RefusedProtocol PROTOCOL_VERSION"

definition coder3 :: coder where
  "coder3 =
     \<lparr>cd_write = (\<lambda>m. if m = MsgHello hello3 then [1] else if m = MsgWelcome terms3 then [2]
        else if m = MsgRefused refusal3 then [3] else []),
      cd_read = (\<lambda>b. if b = [1] then Some (MsgHello hello3) else if b = [2] then Some (MsgWelcome terms3)
        else if b = [3] then Some (MsgRefused refusal3) else None)\<rparr>"

lemma coder3_speaks: "speaks coder3 (MsgHello hello3)" "speaks coder3 (MsgWelcome terms3)"
    "speaks coder3 (MsgRefused refusal3)"
  by (simp_all add: legal_message_def coder3_def FED_MAX_FRAME_def)

theorem greeting_agrees_witness:
  "\<exists>up down hub l. fed_accept coder3 (ascii ''eu'') [] 30 (fed_link_new up) = (Ok hello3, hub) \<and>
     concat down = fl_written hub \<and> greet_end coder3 (fed_link_new down) = Ok (terms3, l) \<and>
     length up = 2 \<and> we_protocol terms3 = 1"
proof -
  have w: "cd_write coder3 (MsgHello hello3) = [1]" "cd_write coder3 (MsgWelcome terms3) = [2]"
    by (simp_all add: coder3_def)
  have p: "he_protocol hello3 = 3" by (simp add: hello3_def)
  define up where "up = [[0], [0, 0, 1, 1]::bytes]"
  have up: "concat up = fl_written (greet_start coder3 hello3 (fed_link_new []))" "\<forall>x \<in> set up. x \<noteq> []"
    by (simp_all add: up_def greet_start_def fed_send_def fed_link_new_def fed_encode_def w len_be_def
        le_bytes_numeral)
  obtain verdict hub where v: "fed_accept coder3 (ascii ''eu'') [] 30 (fed_link_new up) = (verdict, hub)"
    by (cases "fed_accept coder3 (ascii ''eu'') [] 30 (fed_link_new up)")
  have d: "concat (if fl_written hub = [] then [] else [fl_written hub]) = fl_written hub"
    "\<forall>x \<in> set (if fl_written hub = [] then [] else [fl_written hub]). x \<noteq> []" by auto
  have "verdict = Ok hello3 \<and> (\<exists>l. greet_end coder3
      (fed_link_new (if fl_written hub = [] then [] else [fl_written hub])) = Ok (terms3, l))"
    using greeting_agrees [of coder3 hello3 "ascii ''eu''" "[]" 30 up, OF coder3_speaks(1) _ _ up v d] p coder3_speaks
    by (simp add: terms3_def refusal3_def)
  with v d(1) show ?thesis
    by (intro exI [of _ up] exI [of _ "if fl_written hub = [] then [] else [fl_written hub]"])
       (auto simp: up_def terms3_def terms_def welcome_of_def PROTOCOL_VERSION_def)
qed

end
