(* ===== verification/Bni.thy ===== *)
theory Bni
  imports Buf
begin

text \<open>
  \<open>bnetcc-proto/src/bni.rs\<close>: the icon file of the classic clients, an index of entries before one image
  that stacks all icons. Parsing and building, the checks of a pack, and the choice of an icon. Building
  is the inverse of parsing up to the two padding bytes of the header.
\<close>

section \<open>The file\<close>

definition BNI_HEADER_LEN :: nat where "BNI_HEADER_LEN = 16"
definition BNI_VERSION :: u16 where "BNI_VERSION = 1"
definition MAX_CODES :: nat where "MAX_CODES = 31"
definition TGA_RLE_TRUECOLOR :: u8 where "TGA_RLE_TRUECOLOR = 10"

datatype bni_error =
    IsMpqArchive
  | TooShort
  | BadHeaderSize u32
  | UnsupportedVersion u16
  | BadDataOffset u32 nat
  | ImplausibleIconCount u32
  | TableOverrun nat nat
  | TruncatedEntry nat
  | TooManyCodes nat

record bni_icon =
  bi_flags :: u32
  bi_width :: u32
  bi_height :: u32
  bi_codes :: "four_cc list"

record bni_file =
  bf_version :: u16
  bf_icons :: "bni_icon list"
  bf_image :: bytes

record tga_header =
  th_image_type :: u8
  th_width :: u16
  th_height :: u16
  th_depth :: u8

definition tga_parse :: "bytes \<Rightarrow> tga_header option" where
  "tga_parse b =
     (if length b < 18 then None
      else Some \<lparr>th_image_type = b ! 2, th_width = of_le [b ! 12, b ! 13], th_height = of_le [b ! 14, b ! 15],
        th_depth = b ! 16\<rparr>)"

definition is_mpq :: "bytes \<Rightarrow> bool" where
  "is_mpq b \<longleftrightarrow> 4 \<le> length b \<and> take 3 b = ascii ''MPQ'' \<and> (b ! 3 = 0x1A \<or> b ! 3 = 0x1B)"

section \<open>Parsing\<close>

definition entry_u32 :: "nat \<Rightarrow> reader \<Rightarrow> (bni_error, u32 \<times> reader) outcome" where
  "entry_u32 i r = omap_err (\<lambda>_. TruncatedEntry i) (rd_u32 r)"

text \<open>The codes of an entry, to the zero; \<open>left\<close> more are allowed.\<close>

fun bni_codes :: "nat \<Rightarrow> nat \<Rightarrow> reader \<Rightarrow> (bni_error, four_cc list \<times> reader) outcome" where
  "bni_codes i 0 r =
     obind (entry_u32 i r) (\<lambda>(raw, r). if raw = 0 then Ok ([], r) else Err (TooManyCodes i))"
| "bni_codes i (Suc left) r =
     obind (entry_u32 i r) (\<lambda>(raw, r).
       if raw = 0 then Ok ([], r)
       else obind (bni_codes i left r) (\<lambda>(codes, r).
         Ok (FourCc (of_be (rev (le32 raw))) # codes, r)))"

definition bni_entry :: "nat \<Rightarrow> reader \<Rightarrow> (bni_error, bni_icon \<times> reader) outcome" where
  "bni_entry i r =
     obind (entry_u32 i r) (\<lambda>(flags, r).
     obind (entry_u32 i r) (\<lambda>(width, r).
     obind (entry_u32 i r) (\<lambda>(height, r).
     obind (bni_codes i MAX_CODES r) (\<lambda>(codes, r).
     Ok (\<lparr>bi_flags = flags, bi_width = width, bi_height = height, bi_codes = codes\<rparr>, r)))))"

text \<open>The length of an entry in the table.\<close>

definition icon_len :: "bni_icon \<Rightarrow> nat" where
  "icon_len icon = 12 + (length (bi_codes icon) + 1) * 4"

fun bni_entries :: "bytes \<Rightarrow> nat \<Rightarrow> nat \<Rightarrow> nat \<Rightarrow> nat \<Rightarrow> (bni_error, bni_icon list \<times> nat) outcome" where
  "bni_entries b data_offset 0 i pos = Ok ([], pos)"
| "bni_entries b data_offset (Suc n) i pos =
     obind (slice pos data_offset b) (\<lambda>part.
     obind (bni_entry i (rd_new part)) (\<lambda>(icon, _).
     obind (bni_entries b data_offset n (i + 1) (pos + icon_len icon)) (\<lambda>(icons, pos).
     Ok (icon # icons, pos))))"

definition short :: "'a proto_result \<Rightarrow> (bni_error, 'a) outcome" where
  "short = omap_err (\<lambda>_. TooShort)"

definition bni_parse :: "bytes \<Rightarrow> (bni_error, bni_file) outcome" where
  "bni_parse b =
     (if is_mpq b then Err IsMpqArchive
      else if length b < BNI_HEADER_LEN then Err TooShort
      else
        obind (short (rd_u32 (rd_new b))) (\<lambda>(header_size, r).
        if header_size \<noteq> word_of_nat BNI_HEADER_LEN then Err (BadHeaderSize header_size)
        else obind (short (rd_u16 r)) (\<lambda>(version, r).
        if version \<noteq> BNI_VERSION then Err (UnsupportedVersion version)
        else obind (short (rd_u16 r)) (\<lambda>(_, r).
        obind (short (rd_u32 r)) (\<lambda>(icon_count, r).
        obind (short (rd_u32 r)) (\<lambda>(data_offset, r).
        let offset = unat data_offset in
        if unat icon_count * 16 > length b then Err (ImplausibleIconCount icon_count)
        else if offset > length b \<or> offset < BNI_HEADER_LEN then Err (BadDataOffset data_offset (length b))
        else obind (bni_entries b offset (unat icon_count) 0 BNI_HEADER_LEN) (\<lambda>(icons, pos).
        if pos \<noteq> offset then Err (TableOverrun pos offset)
        else Ok \<lparr>bf_version = version, bf_icons = icons, bf_image = drop offset b\<rparr>)))))))"

section \<open>Building\<close>

definition icon_bytes :: "bni_icon \<Rightarrow> bytes" where
  "icon_bytes icon =
     le32 (bi_flags icon) @ le32 (bi_width icon) @ le32 (bi_height icon) @
     concat (map (\<lambda>c. rev (as_ascii c)) (bi_codes icon)) @ le32 0"

definition bni_build :: "bni_file \<Rightarrow> bytes" where
  "bni_build f =
     (let data_offset = BNI_HEADER_LEN + sum_list (map icon_len (bf_icons f))
      in le32 (word_of_nat BNI_HEADER_LEN) @ le16 (bf_version f) @ le16 0 @
        le32 (word_of_nat (length (bf_icons f))) @ le32 (word_of_nat data_offset) @
        concat (map icon_bytes (bf_icons f)) @ bf_image f)"

section \<open>Checking and choosing\<close>

datatype bni_warning =
    ImageNotTga
  | UnexpectedImageType u8
  | UnexpectedDepth u8
  | WidthMismatch u16 u32
  | HeightMismatch u16 u32
  | UnreachableIcon nat

definition bni_validate :: "bni_file \<Rightarrow> bni_warning list" where
  "bni_validate f =
     (let unreachable = map (\<lambda>(i, _). UnreachableIcon i)
        (filter (\<lambda>(_, icon). bi_flags icon = 0 \<and> bi_codes icon = []) (zip [0..<length (bf_icons f)] (bf_icons f)))
      in case tga_parse (bf_image f) of
        None \<Rightarrow> unreachable @ [ImageNotTga]
      | Some tga \<Rightarrow>
          let widest = fold max (map bi_width (bf_icons f)) 0;
              total_height = sum_list (map bi_height (bf_icons f))
          in unreachable @
            (if th_image_type tga \<noteq> TGA_RLE_TRUECOLOR then [UnexpectedImageType (th_image_type tga)] else []) @
            (if th_depth tga \<noteq> 24 \<and> th_depth tga \<noteq> 32 then [UnexpectedDepth (th_depth tga)] else []) @
            (if ucast (th_width tga) \<noteq> widest then [WidthMismatch (th_width tga) widest] else []) @
            (if ucast (th_height tga) \<noteq> total_height then [HeightMismatch (th_height tga) total_height] else []))"

definition icon_matches :: "u32 \<Rightarrow> four_cc option \<Rightarrow> bni_icon \<Rightarrow> bool" where
  "icon_matches user_flags code icon \<longleftrightarrow>
     (if bi_flags icon \<noteq> 0 then bi_flags icon AND user_flags \<noteq> 0
      else (case code of Some c \<Rightarrow> c \<in> set (bi_codes icon) | None \<Rightarrow> False))"

definition select_icon :: "bni_file \<Rightarrow> u32 \<Rightarrow> four_cc option \<Rightarrow> nat option" where
  "select_icon f user_flags code = find_index (icon_matches user_flags code) (bf_icons f)"

definition icon_y_offset :: "bni_file \<Rightarrow> nat \<Rightarrow> u32" where
  "icon_y_offset f i = sum_list (map bi_height (take i (bf_icons f)))"

section \<open>Codes and entries on the wire\<close>

lemma of_be_le32 [simp]: "of_be (rev (le32 v)) = v"
  by (simp add: of_be_def)

lemma rev_as_ascii: "rev (as_ascii c) = le32 (fcc_val c)"
  by (simp add: as_ascii_def be32_def)

lemma rd_u32_Ok:
  "rd_u32 (rd_at p s) = Ok (v, r) \<longleftrightarrow> (\<exists>s'. s = le32 v @ s' \<and> r = rd_at (p @ le32 v) s')"
proof
  assume "rd_u32 (rd_at p s) = Ok (v, r)"
  then have "4 \<le> length s" "v = of_le (take 4 s)" "r = rd_at (p @ take 4 s) (drop 4 s)"
    by (auto simp: rd_u32_def rd_map_def rd_bind_def rd_return_def split: if_splits)
  moreover from this have "le32 v = take 4 s" using le_bytes_of_le [of "take 4 s", where 'w = 32] by simp
  ultimately show "\<exists>s'. s = le32 v @ s' \<and> r = rd_at (p @ le32 v) s'"
    by (metis append_take_drop_id)
qed auto

lemma entry_u32_app [simp]: "entry_u32 i (rd_at p (le32 v @ r)) = Ok (v, rd_at (p @ le32 v) r)"
  by (simp add: entry_u32_def)

lemma entry_u32_zero [simp]: "entry_u32 i (rd_at p (le_bytes 4 0 @ r)) = Ok (0, rd_at (p @ le_bytes 4 0) r)"
  using entry_u32_app [of i p 0 r] by simp

lemma entry_u32_Ok:
  "entry_u32 i (rd_at p s) = Ok (v, r) \<longleftrightarrow> (\<exists>s'. s = le32 v @ s' \<and> r = rd_at (p @ le32 v) s')"
  by (simp add: entry_u32_def rd_u32_Ok)

lemma bni_codes_app:
  assumes "\<forall>c \<in> set cs. fcc_val c \<noteq> 0" and "length cs \<le> left"
  shows "\<exists>p'. bni_codes i left (rd_at p (concat (map (\<lambda>c. rev (as_ascii c)) cs) @ le32 0 @ r)) = Ok (cs, rd_at p' r)"
  using assms
proof (induction cs arbitrary: left p)
  case Nil
  then show ?case by (cases left) auto
next
  case (Cons c cs)
  then obtain l where l: "left = Suc l" "length cs \<le> l" by (cases left) auto
  from Cons.IH [of l "p @ le32 (fcc_val c)"] Cons.prems l obtain p' where
    "bni_codes i l (rd_at (p @ le32 (fcc_val c)) (concat (map (\<lambda>c. rev (as_ascii c)) cs) @ le32 0 @ r)) = Ok (cs, rd_at p' r)"
    by auto
  with Cons.prems l(1) show ?case by (auto simp: rev_as_ascii)
qed

lemma bni_codes_Ok:
  assumes "bni_codes i left (rd_at p s) = Ok (cs, r)"
  shows "\<exists>p' s'. s = concat (map (\<lambda>c. rev (as_ascii c)) cs) @ le32 0 @ s' \<and> r = rd_at p' s' \<and>
    (\<forall>c \<in> set cs. fcc_val c \<noteq> 0) \<and> length cs \<le> left"
  using assms
proof (induction left arbitrary: p s cs r)
  case 0
  then show ?case by (auto simp: obind_Ok_conv entry_u32_Ok split: if_splits)
next
  case (Suc l)
  then obtain raw s1 where e: "s = le32 raw @ s1" "entry_u32 i (rd_at p s) = Ok (raw, rd_at (p @ le32 raw) s1)"
    by (auto simp: obind_Ok_conv entry_u32_Ok)
  show ?case
  proof (cases "raw = 0")
    case True
    with Suc.prems e show ?thesis by auto
  next
    case False
    with Suc.prems e(2) obtain cs' where
      c: "bni_codes i l (rd_at (p @ le32 raw) s1) = Ok (cs', r)" "cs = FourCc raw # cs'"
      by (auto simp: obind_Ok_conv)
    from Suc.IH [OF c(1)] c(2) e(1) False show ?thesis by (auto simp: rev_as_ascii)
  qed
qed

text \<open>An entry that can be written and read back.\<close>

definition icon_ok :: "bni_icon \<Rightarrow> bool" where
  "icon_ok icon \<longleftrightarrow> length (bi_codes icon) \<le> MAX_CODES \<and> (\<forall>c \<in> set (bi_codes icon). fcc_val c \<noteq> 0)"

lemma length_icon_bytes [simp]: "length (icon_bytes icon) = icon_len icon"
proof -
  have "length (concat (map (\<lambda>c. rev (as_ascii c)) cs)) = 4 * length cs" for cs
    by (induction cs) simp_all
  then show ?thesis by (simp add: icon_bytes_def icon_len_def)
qed

lemma bni_entry_app:
  assumes "icon_ok icon"
  shows "\<exists>p'. bni_entry i (rd_at p (icon_bytes icon @ r)) = Ok (icon, rd_at p' r)"
proof -
  define q where "q = p @ le32 (bi_flags icon) @ le32 (bi_width icon) @ le32 (bi_height icon)"
  obtain p' where "bni_codes i MAX_CODES (rd_at q (concat (map (\<lambda>c. rev (as_ascii c)) (bi_codes icon)) @ le32 0 @ r)) =
      Ok (bi_codes icon, rd_at p' r)"
    using bni_codes_app [of "bi_codes icon" MAX_CODES i q r] assms by (auto simp: icon_ok_def)
  then show ?thesis by (auto simp: bni_entry_def icon_bytes_def q_def)
qed

lemma bni_entry_Ok:
  assumes "bni_entry i (rd_at p s) = Ok (icon, r)"
  shows "\<exists>s'. s = icon_bytes icon @ s' \<and> icon_ok icon"
  using assms
  by (auto simp: bni_entry_def obind_Ok_conv entry_u32_Ok icon_bytes_def icon_ok_def dest!: bni_codes_Ok)

section \<open>The table\<close>

lemma bni_entries_app:
  assumes "\<forall>icon \<in> set icons. icon_ok icon"
    and "b = front @ concat (map icon_bytes icons) @ rest"
  shows "bni_entries b (length front + sum_list (map icon_len icons)) (length icons) i (length front) =
    Ok (icons, length front + sum_list (map icon_len icons))"
  using assms
proof (induction icons arbitrary: front i)
  case (Cons icon icons)
  let ?off = "length front + sum_list (map icon_len (icon # icons))"
  have len: "length (concat (map icon_bytes icons)) = sum_list (map icon_len icons)" for icons
    by (induction icons) simp_all
  have part: "slice (length front) ?off b = (Ok (icon_bytes icon @ concat (map icon_bytes icons)) :: (bni_error, bytes) outcome)"
    using Cons.prems(2) len [of icons] by simp
  obtain p' where e: "bni_entry i (rd_at [] (icon_bytes icon @ concat (map icon_bytes icons))) =
      Ok (icon, rd_at p' (concat (map icon_bytes icons)))"
    using bni_entry_app [of icon i "[]"] Cons.prems(1) by auto
  have "bni_entries b (length (front @ icon_bytes icon) + sum_list (map icon_len icons)) (length icons) (i + 1)
      (length (front @ icon_bytes icon)) = Ok (icons, length (front @ icon_bytes icon) + sum_list (map icon_len icons))"
    using Cons.prems by (intro Cons.IH) simp_all
  then have "bni_entries b ?off (length icons) (i + 1) (length front + icon_len icon) = Ok (icons, ?off)"
    by (simp add: add.assoc)
  then show ?case
    using part e by (simp add: rd_new_at del: slice_Ok)
qed simp

lemma bni_entries_Ok:
  assumes "bni_entries b off n i pos = Ok (icons, pos')" and "pos \<le> off" and "off \<le> length b"
  shows "pos' = pos + sum_list (map icon_len icons) \<and> pos' \<le> off \<and> length icons = n \<and>
    take (pos' - pos) (drop pos b) = concat (map icon_bytes icons) \<and> (\<forall>icon \<in> set icons. icon_ok icon)"
  using assms
proof (induction n arbitrary: i pos icons)
  case (Suc n)
  define part where "part = take (off - pos) (drop pos b)"
  from Suc.prems obtain icon r rest where
    e: "bni_entry i (rd_at [] part) = Ok (icon, r)"
      "bni_entries b off n (i + 1) (pos + icon_len icon) = Ok (rest, pos')" "icons = icon # rest"
    by (auto simp: obind_Ok_conv rd_new_at part_def)
  from bni_entry_Ok [OF e(1)] obtain s' where s': "part = icon_bytes icon @ s'" "icon_ok icon" by blast
  have le: "pos + icon_len icon \<le> off"
    using arg_cong [OF s'(1), of length] Suc.prems(2,3) by (simp add: part_def)
  have first: "take (icon_len icon) (drop pos b) = icon_bytes icon"
  proof -
    have "take (icon_len icon) part = icon_bytes icon" using s'(1) by simp
    moreover have "icon_len icon \<le> off - pos" using le by simp
    ultimately show ?thesis by (simp add: part_def min.absorb1)
  qed
  from Suc.IH [OF e(2) le Suc.prems(3)] have ih:
    "pos' = pos + icon_len icon + sum_list (map icon_len rest)" "pos' \<le> off" "length rest = n"
    "take (pos' - (pos + icon_len icon)) (drop (pos + icon_len icon) b) = concat (map icon_bytes rest)"
    "\<forall>icon \<in> set rest. icon_ok icon" by auto
  have "take (pos' - pos) (drop pos b) =
      take (icon_len icon) (drop pos b) @ take (pos' - (pos + icon_len icon)) (drop (pos + icon_len icon) b)"
    using take_add [of "icon_len icon" "pos' - (pos + icon_len icon)" "drop pos b"] ih(1)
    by (simp add: add.commute)
  with ih first e(3) s'(2) show ?case by simp
qed simp

section \<open>Parsing and building\<close>

text \<open>A file that can be written: the table ends below \<open>2\<^sup>3\<^sup>2\<close>.\<close>

definition bni_ok :: "bni_file \<Rightarrow> bool" where
  "bni_ok f \<longleftrightarrow> bf_version f = BNI_VERSION \<and> (\<forall>icon \<in> set (bf_icons f). icon_ok icon) \<and>
     BNI_HEADER_LEN + sum_list (map icon_len (bf_icons f)) < 2 ^ 32"

lemma icon_lens: "length icons * 16 \<le> sum_list (map icon_len icons)"
  by (induction icons) (simp_all add: icon_len_def)

lemma length_table: "length (concat (map icon_bytes icons)) = sum_list (map icon_len icons)"
  by (induction icons) simp_all

lemma bni_build_layout:
  assumes "bni_ok f"
  defines "off \<equiv> BNI_HEADER_LEN + sum_list (map icon_len (bf_icons f))"
  shows "bni_build f = le32 16 @ le16 1 @ le16 0 @ le32 (word_of_nat (length (bf_icons f))) @
      le32 (word_of_nat off) @ concat (map icon_bytes (bf_icons f)) @ bf_image f"
    and "unat (word_of_nat off :: u32) = off"
    and "unat (word_of_nat (length (bf_icons f)) :: u32) = length (bf_icons f)"
proof -
  have "off < 2 ^ 32" and v: "bf_version f = 1" using assms(1) by (simp_all add: bni_ok_def off_def BNI_VERSION_def)
  moreover have "length (bf_icons f) \<le> off" using icon_lens [of "bf_icons f"] by (simp add: off_def)
  ultimately show "unat (word_of_nat off :: u32) = off"
    "unat (word_of_nat (length (bf_icons f)) :: u32) = length (bf_icons f)"
    by (simp_all add: unat_of_nat)
  show "bni_build f = le32 16 @ le16 1 @ le16 0 @ le32 (word_of_nat (length (bf_icons f))) @
      le32 (word_of_nat off) @ concat (map icon_bytes (bf_icons f)) @ bf_image f"
    unfolding bni_build_def v Let_def off_def by (simp add: BNI_HEADER_LEN_def)
qed

lemma not_mpq: "\<not> is_mpq (le32 16 @ r)"
  by (simp add: is_mpq_def ascii_def le_bytes_numeral)

lemma bni_parse_build:
  assumes "bni_ok f"
  shows "bni_parse (bni_build f) = Ok f"
proof -
  define icons where "icons = bf_icons f"
  define off where "off = BNI_HEADER_LEN + sum_list (map icon_len icons)"
  define n :: u32 where "n = word_of_nat (length icons)"
  define o' :: u32 where "o' = word_of_nat off"
  define b where "b = bni_build f"
  define front where "front = le32 16 @ le16 1 @ le16 0 @ le32 n @ le32 o'"
  note l = bni_build_layout [OF assms, folded icons_def, folded off_def, folded n_def o'_def b_def]
  have b: "b = front @ concat (map icon_bytes icons) @ bf_image f" using l(1) by (simp add: front_def)
  have front: "length front = 16" by (simp add: front_def)
  have len: "length b = off + length (bf_image f)"
    unfolding b by (simp add: front length_table off_def BNI_HEADER_LEN_def)
  have table: "bni_entries b off (length icons) 0 16 = Ok (icons, off)"
    using bni_entries_app [of icons b front "bf_image f" 0] assms b front
    by (simp add: bni_ok_def icons_def off_def BNI_HEADER_LEN_def)
  have image: "drop off b = bf_image f"
    unfolding b by (simp add: front length_table off_def BNI_HEADER_LEN_def)
  have fits: "length icons * 16 \<le> length b" "16 \<le> length b" "off \<le> length b" "16 \<le> off"
    using icon_lens [of icons] len by (simp_all add: off_def BNI_HEADER_LEN_def)
  have nm: "\<not> is_mpq b" unfolding l(1) by (rule not_mpq)
  have r1: "rd_u32 (rd_new b) = Ok (16, rd_at (le32 16) (le16 1 @ le16 0 @ le32 n @ le32 o' @ concat (map icon_bytes icons) @ bf_image f))"
    unfolding rd_new_at l(1) using rd_u32_app [of "[]" 16] by (simp del: le_bytes.simps)
  have "bf_version f = 1" using assms by (simp add: bni_ok_def BNI_VERSION_def)
  then have f: "\<lparr>bf_version = 1, bf_icons = icons, bf_image = bf_image f\<rparr> = f" by (simp add: icons_def)
  show ?thesis
    unfolding b_def [symmetric] bni_parse_def r1 short_def BNI_HEADER_LEN_def BNI_VERSION_def Let_def
    using nm fits table image f l(2,3) rd_u16_app [of _ 1] rd_u16_app [of _ 0] rd_u32_app [of _ n] rd_u32_app [of _ o']
    by simp
qed

text \<open>Nothing in a file makes the parser panic: an entry is read from what is left of the table.\<close>

lemma entry_u32_no_panic: "entry_u32 i (rd_at p s) \<noteq> Panic"
  by (simp add: entry_u32_def rd_u32_def rd_map_def rd_bind_def rd_return_def)

lemma bni_codes_no_panic: "bni_codes i left (rd_at p s) \<noteq> Panic"
  by (induction left arbitrary: p s)
     (auto simp: obind_Panic_conv entry_u32_Ok entry_u32_no_panic split: if_splits)

lemma bni_entry_no_panic: "bni_entry i (rd_at p s) \<noteq> Panic"
  by (auto simp: bni_entry_def obind_Panic_conv entry_u32_Ok entry_u32_no_panic bni_codes_no_panic)

lemma bni_entries_no_panic:
  assumes "pos \<le> off" and "off \<le> length b"
  shows "bni_entries b off n i pos \<noteq> Panic"
  using assms
proof (induction n arbitrary: i pos)
  case (Suc n)
  have "pos + icon_len icon \<le> off"
    if e: "bni_entry i (rd_at [] (take (off - pos) (drop pos b))) = Ok (icon, r)" for icon r
  proof -
    from bni_entry_Ok [OF e] obtain s' where "take (off - pos) (drop pos b) = icon_bytes icon @ s'" by blast
    from arg_cong [OF this, of length] Suc.prems show ?thesis by simp
  qed
  then have "bni_entries b off n (i + 1) (pos + icon_len icon) \<noteq> Panic"
    if "bni_entry i (rd_at [] (take (off - pos) (drop pos b))) = Ok (icon, r)" for icon r
    using Suc.IH [of "pos + icon_len icon" "i + 1"] Suc.prems(2) that by simp
  moreover have "slice pos off b = (Ok (take (off - pos) (drop pos b)) :: (bni_error, bytes) outcome)"
    using Suc.prems by simp
  ultimately show ?case
    by (auto simp: obind_Panic_conv rd_new_at bni_entry_no_panic simp del: slice_Ok)
qed simp

lemma rd_u16_Ok:
  "rd_u16 (rd_at p s) = Ok (v, r) \<longleftrightarrow> (\<exists>s'. s = le16 v @ s' \<and> r = rd_at (p @ le16 v) s')"
proof
  assume "rd_u16 (rd_at p s) = Ok (v, r)"
  then have "2 \<le> length s" "v = of_le (take 2 s)" "r = rd_at (p @ take 2 s) (drop 2 s)"
    by (auto simp: rd_u16_def rd_map_def rd_bind_def rd_return_def split: if_splits)
  moreover from this have "le16 v = take 2 s" using le_bytes_of_le [of "take 2 s", where 'w = 16] by simp
  ultimately show "\<exists>s'. s = le16 v @ s' \<and> r = rd_at (p @ le16 v) s'"
    by (metis append_take_drop_id)
qed auto

lemma short_conv:
  "short x = Ok a \<longleftrightarrow> x = Ok a" "short x = Panic \<longleftrightarrow> x = Panic"
  by (simp_all add: short_def)

lemma rd_u32_no_panic: "rd_u32 (rd_at p s) \<noteq> Panic" and rd_u16_no_panic: "rd_u16 (rd_at p s) \<noteq> Panic"
  by (simp_all add: rd_u32_def rd_u16_def rd_map_def rd_bind_def rd_return_def)

lemma bni_parse_no_panic: "bni_parse b \<noteq> Panic"
  unfolding bni_parse_def
  by (auto simp: obind_Panic_conv short_conv rd_new_at rd_u32_Ok rd_u16_Ok rd_u32_no_panic rd_u16_no_panic
      bni_entries_no_panic Let_def split: if_splits)

lemma bni_build_parse:
  assumes "bni_parse b = Ok f"
  shows "bni_ok f \<and> bni_build f = take 6 b @ [0, 0] @ drop 8 b"
proof -
  from assms obtain pad n off s icons where
    b: "b = le32 16 @ le16 1 @ le16 pad @ le32 n @ le32 off @ s"
    and off: "unat off \<le> length b" "16 \<le> unat off"
    and table: "bni_entries b (unat off) (unat n) 0 16 = Ok (icons, unat off)"
    and f: "f = \<lparr>bf_version = 1, bf_icons = icons, bf_image = drop (unat off) b\<rparr>"
    unfolding bni_parse_def short_conv obind_Ok_conv rd_new_at
    by (auto simp: rd_u32_Ok rd_u16_Ok short_conv obind_Ok_conv BNI_HEADER_LEN_def BNI_VERSION_def Let_def split: if_splits)
  from bni_entries_Ok [OF table off(2,1)] have t: "unat off = 16 + sum_list (map icon_len icons)"
    "length icons = unat n" "take (unat off - 16) (drop 16 b) = concat (map icon_bytes icons)"
    "\<forall>icon \<in> set icons. icon_ok icon" by auto
  have "unat off < 2 ^ LENGTH(32)" by (rule unsigned_less)
  with t f have ok: "bni_ok f" by (simp add: bni_ok_def BNI_VERSION_def BNI_HEADER_LEN_def)
  have words: "word_of_nat (length icons) = n" "word_of_nat (16 + sum_list (map icon_len icons)) = off"
    unfolding t(2) t(1) [symmetric] by simp_all
  have "drop 16 b = concat (map icon_bytes icons) @ drop (unat off) b"
  proof -
    have "drop 16 b = take (unat off - 16) (drop 16 b) @ drop (unat off - 16) (drop 16 b)"
      by (rule append_take_drop_id [symmetric])
    then show ?thesis unfolding t(3) using off(2) by simp
  qed
  moreover have "drop 16 b = s" unfolding b by simp
  ultimately have s: "s = concat (map icon_bytes icons) @ drop (unat off) b" by simp
  have "bni_build f = le32 16 @ le16 1 @ le16 0 @ le32 n @ le32 off @ s"
  proof -
    have fields: "bf_icons f = icons" "bf_image f = drop (unat off) b" by (simp_all add: f)
    show ?thesis unfolding bni_build_layout(1) [OF ok] fields s BNI_HEADER_LEN_def words ..
  qed
  moreover have "take 6 b = le32 16 @ le16 1" "drop 8 b = le32 n @ le32 off @ s" unfolding b by simp_all
  moreover have "le16 0 = [0, 0]" by (simp add: le_bytes_numeral)
  ultimately show ?thesis using ok by simp
qed

text \<open>
  C39: an icon file whose codes are not zero, with at most 31 of them an entry, comes back from its bytes
  as it was; what parses is such a file, and building it again gives the same bytes but for the two
  padding bytes of the header, which become zero; and no bytes make the parser panic.
\<close>

theorem icon_file_round_trip:
  "(bni_ok f \<longrightarrow> bni_parse (bni_build f) = Ok f) \<and>
   (bni_parse b = Ok g \<longrightarrow> bni_ok g \<and> bni_build g = take 6 b @ [0, 0] @ drop 8 b) \<and>
   bni_parse b \<noteq> Panic"
  using bni_parse_build bni_build_parse bni_parse_no_panic by blast

definition op_icon :: bni_file where
  "op_icon = \<lparr>bf_version = 1, bf_icons = [\<lparr>bi_flags = 2, bi_width = 28, bi_height = 14, bi_codes = [STAR]\<rparr>], bf_image = [7]\<rparr>"

theorem icon_file_round_trip_witness:
  "bni_parse (bni_build op_icon) = Ok op_icon \<and> length (bni_build op_icon) = 37 \<and> bni_build op_icon ! 6 = 0"
proof -
  have ok: "bni_ok op_icon"
    by (simp add: bni_ok_def op_icon_def icon_ok_def BNI_VERSION_def MAX_CODES_def BNI_HEADER_LEN_def icon_len_def product_values)
  with icon_file_round_trip [of op_icon "bni_build op_icon" op_icon] have
    p: "bni_parse (bni_build op_icon) = Ok op_icon"
    "bni_build op_icon = take 6 (bni_build op_icon) @ [0, 0] @ drop 8 (bni_build op_icon)" by auto
  have len: "length (bni_build op_icon) = 37"
    by (simp add: bni_build_def op_icon_def Let_def icon_len_def)
  have "bni_build op_icon ! 6 = (take 6 (bni_build op_icon) @ [0, 0] @ drop 8 (bni_build op_icon)) ! 6"
    using p(2) by simp
  also have "\<dots> = 0" using len by (simp add: nth_append)
  finally show ?thesis using p(1) len by simp
qed

end
