(* ===== verification/Excel.thy ===== *)
theory Excel
  imports Text
begin

text \<open>
  \<open>d2-formats/src/excel.rs\<close>: the tab-separated data tables of Diablo II. The first line names the
  columns, every later line is a row; blank lines and the \<open>Expansion\<close> markers are dropped.
\<close>

section \<open>Integers of a cell\<close>

text \<open>\<open>str::parse::<i64>\<close>: an optional sign and digits, within 64 bits.\<close>

definition parse_i64 :: "bytes \<Rightarrow> int option" where
  "parse_i64 s =
     (case s of
        [] \<Rightarrow> None
      | b # r \<Rightarrow>
          let neg = (b = 0x2D); d = (if b = 0x2D \<or> b = 0x2B then r else s);
              v = (if neg then - int (digits_val d) else int (digits_val d))
          in if d \<noteq> [] \<and> list_all is_digit d \<and> - (2 ^ 63) \<le> v \<and> v < 2 ^ 63 then Some v else None)"

section \<open>Tables\<close>

record table =
  tb_columns :: "bytes list"
  tb_rows :: "bytes list list"

fun split_at :: "u8 \<Rightarrow> bytes \<Rightarrow> bytes list" where
  "split_at c [] = [[]]"
| "split_at c (b # bs) =
     (case split_at c bs of
        x # xs \<Rightarrow> if b = c then [] # x # xs else (b # x) # xs
      | [] \<Rightarrow> [])"

definition strip_cr :: "bytes \<Rightarrow> bytes" where
  "strip_cr l = (if ends_with l [13] then butlast l else l)"

definition table_parse :: "bytes \<Rightarrow> table" where
  "table_parse raw =
     (let lines = map strip_cr (split_at 10 (utf8_lossy raw));
          cells = map (split_at 9) (filter (\<lambda>l. trim l \<noteq> []) (tl lines))
      in \<lparr>tb_columns = split_at 9 (hd lines),
          tb_rows = filter (\<lambda>r. \<not> (r \<noteq> [] \<and> eq_nocase (hd r) (ascii ''Expansion''))) cells\<rparr>)"

definition table_column :: "table \<Rightarrow> bytes \<Rightarrow> nat option" where
  "table_column t name = find_index (\<lambda>c. eq_nocase c name) (tb_columns t)"

definition cell :: "table \<Rightarrow> bytes list \<Rightarrow> bytes \<Rightarrow> bytes option" where
  "cell t r name =
     (case table_column t name of
        Some k \<Rightarrow> if k < length r \<and> r ! k \<noteq> [] then Some (r ! k) else None
      | None \<Rightarrow> None)"

text \<open>An empty cell of a column there is counts as 0.\<close>

definition cell_int :: "table \<Rightarrow> bytes list \<Rightarrow> bytes \<Rightarrow> int option" where
  "cell_int t r name =
     (case cell t r name of
        None \<Rightarrow> map_option (\<lambda>_. 0) (table_column t name)
      | Some s \<Rightarrow> parse_i64 (trim s))"

text \<open>\<open>row.int(c).unwrap_or(0) as i32\<close>, and the text of a cell.\<close>

type_synonym i32 = "32 word"

definition cell_i32 :: "table \<Rightarrow> bytes list \<Rightarrow> string \<Rightarrow> i32" where
  "cell_i32 t r name = word_of_int (case cell_int t r (ascii name) of Some v \<Rightarrow> v | None \<Rightarrow> 0)"

definition cell_text :: "table \<Rightarrow> bytes list \<Rightarrow> string \<Rightarrow> bytes" where
  "cell_text t r name = (case cell t r (ascii name) of Some s \<Rightarrow> s | None \<Rightarrow> [])"

definition cell_flag :: "table \<Rightarrow> bytes list \<Rightarrow> string \<Rightarrow> bool" where
  "cell_flag t r name \<longleftrightarrow> cell_i32 t r name \<noteq> 0"

lemma split_at_ne: "split_at c s \<noteq> []"
  by (induction s) (auto split: list.split)

text \<open>Splitting loses nothing: joined with the separator the pieces are the text again.\<close>

fun join_with :: "u8 \<Rightarrow> bytes list \<Rightarrow> bytes" where
  "join_with c [] = []"
| "join_with c [x] = x"
| "join_with c (x # y # xs) = x @ c # join_with c (y # xs)"

lemma join_split: "join_with c (split_at c s) = s"
proof (induction s)
  case (Cons b s)
  obtain x xs where x: "split_at c s = x # xs" using split_at_ne [of c s] by (cases "split_at c s") auto
  with Cons show ?case by (cases xs) auto
qed simp

end
