(* ===== verification/Items.thy ===== *)
theory Items
  imports Excel "HOL-Library.Signed_Division"
begin

text \<open>
  \<open>d2-data/src/items.rs\<close> and \<open>item_stats.rs\<close>: the item tables of Diablo II. Item types with the types
  each one ``is a'', the item rows of the three tables in class id order, and how each stat is written
  into an item's bits. Type and class ids, which the code keeps as \<open>i32\<close> with -1 for none, are
  optional numbers here.
\<close>

section \<open>Codes\<close>

type_synonym code = bytes

definition BLANK_CODE :: code where "BLANK_CODE = [0x20, 0x20, 0x20, 0x20]"

definition item_code :: "bytes \<Rightarrow> code" where
  "item_code s = take 4 (take 4 s @ BLANK_CODE)"

definition code_str :: "code \<Rightarrow> bytes" where
  "code_str c = rev (strip_front (map rev white_space) (rev (utf8_lossy c)))"

definition class_index :: "bytes \<Rightarrow> u8 option" where
  "class_index c = map_option word_of_nat (find_index (\<lambda>x. x = c)
     (map ascii [''ama'', ''sor'', ''nec'', ''pal'', ''bar'', ''dru'', ''ass'']))"

section \<open>Item types\<close>

record item_type =
  it_name :: bytes
  it_code :: bytes
  it_body_locations :: "bytes list"
  it_beltable :: bool
  it_throwable :: bool
  it_reload :: bool
  it_re_equip :: bool
  it_staff_mods :: "u8 option"
  it_class :: "u8 option"
  it_always_magic :: bool
  it_can_be_rare :: bool
  it_always_normal :: bool
  it_treasure_class :: bool
  it_rarity :: i32
  it_max_sockets :: "i32 list"
  it_var_inv_gfx :: i32
  it_quiver :: bool
  it_store_page :: "u8 option"
  it_ancestors :: "nat list"

definition STORE_PAGES :: "bytes list" where
  "STORE_PAGES = map ascii [''armo'', ''weap'', ''mag'', ''misc'']"

datatype table_error = BadTable string string

definition needs_columns :: "string \<Rightarrow> string list \<Rightarrow> table \<Rightarrow> table_error option" where
  "needs_columns table_name columns t =
     (case find (\<lambda>c. table_column t (ascii c) = None) columns of
        Some c \<Rightarrow> Some (BadTable table_name (''no '' @ c @ '' column'')) | None \<Rightarrow> None)"

definition type_of_row :: "table \<Rightarrow> bytes list \<Rightarrow> item_type" where
  "type_of_row t r =
     \<lparr>it_name = cell_text t r ''ItemType'', it_code = cell_text t r ''Code'',
      it_body_locations = filter (\<lambda>s. s \<noteq> []) (map (cell_text t r) [''BodyLoc1'', ''BodyLoc2'']),
      it_beltable = cell_flag t r ''Beltable'', it_throwable = cell_flag t r ''Throwable'',
      it_reload = cell_flag t r ''Reload'', it_re_equip = cell_flag t r ''ReEquip'',
      it_staff_mods = Option.bind (cell t r (ascii ''StaffMods'')) class_index,
      it_class = Option.bind (cell t r (ascii ''Class'')) class_index,
      it_always_magic = cell_flag t r ''Magic'', it_can_be_rare = cell_flag t r ''Rare'',
      it_always_normal = cell_flag t r ''Normal'', it_treasure_class = cell_flag t r ''TreasureClass'',
      it_rarity = cell_i32 t r ''Rarity'',
      it_max_sockets = map (cell_i32 t r) [''MaxSock1'', ''MaxSock25'', ''MaxSock40''],
      it_var_inv_gfx = cell_i32 t r ''VarInvGfx'',
      it_quiver = (cell t r (ascii ''Quiver'') \<noteq> None),
      it_store_page = Option.bind (cell t r (ascii ''StorePage''))
        (\<lambda>p. map_option word_of_nat (find_index (\<lambda>c. c = p) STORE_PAGES)),
      it_ancestors = []\<rparr>"

definition type_id :: "item_type list \<Rightarrow> bytes \<Rightarrow> nat option" where
  "type_id rows c = find_index (\<lambda>r. c \<noteq> [] \<and> it_code r = c) rows"

text \<open>The types a row names in \<open>Equiv1\<close> and \<open>Equiv2\<close>.\<close>

definition type_parents :: "table \<Rightarrow> nat \<Rightarrow> nat list" where
  "type_parents t k =
     (let types = map (type_of_row t) (tb_rows t); r = tb_rows t ! k
      in List.map_filter (type_id types) [cell_text t r ''Equiv1'', cell_text t r ''Equiv2''])"

fun add_new :: "nat list \<Rightarrow> nat list \<Rightarrow> nat list" where
  "add_new anc [] = anc"
| "add_new anc (p # ps) = add_new (if p \<in> set anc then anc else anc @ [p]) ps"

text \<open>
  The worklist of a type's ancestors. A type is added once, so as many rounds as there are types are
  enough.
\<close>

fun ancestors_from :: "(nat \<Rightarrow> nat list) \<Rightarrow> nat \<Rightarrow> nat \<Rightarrow> nat list \<Rightarrow> nat list" where
  "ancestors_from parents 0 at_pos anc = anc"
| "ancestors_from parents (Suc fuel) at_pos anc =
     (if at_pos < length anc then ancestors_from parents fuel (at_pos + 1) (add_new anc (parents (anc ! at_pos)))
      else anc)"

definition types_from_table :: "table \<Rightarrow> (table_error, item_type list) outcome" where
  "types_from_table t =
     (case needs_columns ''itemtypes.txt'' [''Code'', ''Equiv1''] t of
        Some e \<Rightarrow> Err e
      | None \<Rightarrow>
          let n = length (tb_rows t)
          in Ok (map (\<lambda>k. (type_of_row t (tb_rows t ! k))\<lparr>it_ancestors := ancestors_from (type_parents t) n 0 [k]\<rparr>) [0..<n]))"

definition type_get :: "item_type list \<Rightarrow> nat option \<Rightarrow> item_type option" where
  "type_get types i = (case i of Some k \<Rightarrow> if k < length types then Some (types ! k) else None | None \<Rightarrow> None)"

definition type_is_a :: "item_type list \<Rightarrow> nat option \<Rightarrow> nat \<Rightarrow> bool" where
  "type_is_a types i parent \<longleftrightarrow> (case type_get types i of Some t \<Rightarrow> parent \<in> set (it_ancestors t) | None \<Rightarrow> False)"

definition type_is :: "item_type list \<Rightarrow> nat option \<Rightarrow> bytes \<Rightarrow> bool" where
  "type_is types i parent \<longleftrightarrow> (case type_id types parent of Some p \<Rightarrow> type_is_a types i p | None \<Rightarrow> False)"

section \<open>Items\<close>

datatype item_file = Weapons | Armor | Misc

record vendor_stock =
  vs_min :: u8
  vs_max :: u8
  vs_magic_min :: u8
  vs_magic_max :: u8
  vs_magic_level :: u8

definition VENDORS :: "string list" where
  "VENDORS = [''Akara'', ''Gheed'', ''Charsi'', ''Fara'', ''Lysander'', ''Drognan'', ''Hralti'', ''Alkor'', ''Ormus'',
     ''Elzix'', ''Asheara'', ''Cain'', ''Halbu'', ''Jamella'', ''Malah'', ''Larzuk'', ''Drehya'']"

text \<open>How an item looks and is worn; how it is used; its rules; its trade. The code has one struct of them all.\<close>

record item_look =
  id_name :: bytes
  id_name_key :: bytes
  id_code :: code
  id_alternate_gfx :: "code option"
  id_item_type :: "nat option"
  id_item_type2 :: "nat option"
  id_component :: i32
  id_armor_pieces :: "u8 list"
  id_weapon_class :: "code option"
  id_two_handed_class :: "code option"
  id_transform :: i32
  id_file :: item_file
  id_inv_size :: "u8 \<times> u8"

record item_use = item_look +
  id_compact :: bool
  id_auto_belt :: bool
  id_stackable :: bool
  id_useable :: bool
  id_quest :: bool
  id_quest_diff_check :: bool
  id_spell :: i32
  id_duration :: i32
  id_effects :: "(bytes \<times> i32) list"

record item_rules = item_use +
  id_level :: i32
  id_level_req :: i32
  id_version :: i32
  id_spawnable :: bool
  id_unique_only :: bool
  id_durability :: i32
  id_no_durability :: bool
  id_defense :: "i32 \<times> i32"
  id_block :: i32
  id_speed :: i32
  id_damage :: "i32 \<times> i32"
  id_two_hand_damage :: "i32 \<times> i32"
  id_missile_damage :: "i32 \<times> i32"
  id_range_adder :: i32
  id_missile_type :: i32
  id_requirements :: "i32 \<times> i32"
  id_gem_sockets :: i32
  id_stack :: "i32 \<times> i32 \<times> i32"
  id_tiers :: "code list"

record item_def = item_rules +
  id_auto_prefix :: i32
  id_two_handed :: bool
  id_belt :: i32
  id_gem_apply_type :: i32
  id_has_inv :: bool
  id_magic_level :: i32
  id_str_bonus :: i32
  id_dex_bonus :: i32
  id_cost :: i32
  id_gamble_cost :: i32
  id_bitfield1 :: i32
  id_vendors :: "vendor_stock list"
  id_perm_store_item :: bool
  id_upgrades :: "code option list"

record items =
  is_types :: "item_type list"
  is_rows :: "item_def list"

text \<open>\<open>clamp(lo, hi) as u8\<close> of a cell.\<close>

definition clamp_u8 :: "int \<Rightarrow> int \<Rightarrow> int \<Rightarrow> u8" where
  "clamp_u8 lo hi v = word_of_int (max lo (min hi v))"

definition piece_size :: "int option \<Rightarrow> u8" where
  "piece_size v = clamp_u8 1 15 (case v of Some x \<Rightarrow> x | None \<Rightarrow> 1)"

definition cell_piece :: "table \<Rightarrow> bytes list \<Rightarrow> string \<Rightarrow> u8" where
  "cell_piece t r name = clamp_u8 0 2 (case cell_int t r (ascii name) of Some v \<Rightarrow> v | None \<Rightarrow> 0)"

definition cell_byte :: "table \<Rightarrow> bytes list \<Rightarrow> string \<Rightarrow> u8" where
  "cell_byte t r name = clamp_u8 0 255 (case cell_int t r (ascii name) of Some v \<Rightarrow> v | None \<Rightarrow> 0)"

definition cell_code :: "table \<Rightarrow> bytes list \<Rightarrow> string \<Rightarrow> code option" where
  "cell_code t r name = map_option item_code (cell t r (ascii name))"

definition cell_pair :: "table \<Rightarrow> bytes list \<Rightarrow> string \<Rightarrow> string \<Rightarrow> i32 \<times> i32" where
  "cell_pair t r a b = (cell_i32 t r a, cell_i32 t r b)"

text \<open>\<open>calc\<close> is parsed as an \<open>i32\<close>.\<close>

definition parse_i32 :: "bytes \<Rightarrow> i32 option" where
  "parse_i32 s = (case parse_i64 s of
     Some v \<Rightarrow> if - (2 ^ 31) \<le> v \<and> v < 2 ^ 31 then Some (word_of_int v) else None | None \<Rightarrow> None)"

definition effect_of :: "table \<Rightarrow> bytes list \<Rightarrow> string \<times> string \<Rightarrow> (bytes \<times> i32) option" where
  "effect_of t r k =
     (case (cell t r (ascii (fst k)), cell t r (ascii (snd k))) of
        (Some stat, Some calc) \<Rightarrow> map_option (\<lambda>v. (stat, v)) (parse_i32 (trim calc))
      | _ \<Rightarrow> None)"

definition vendor_of :: "table \<Rightarrow> bytes list \<Rightarrow> string \<Rightarrow> vendor_stock" where
  "vendor_of t r v =
     \<lparr>vs_min = cell_byte t r (v @ ''Min''), vs_max = cell_byte t r (v @ ''Max''),
      vs_magic_min = cell_byte t r (v @ ''MagicMin''), vs_magic_max = cell_byte t r (v @ ''MagicMax''),
      vs_magic_level = cell_byte t r (v @ ''MagicLvl'')\<rparr>"

definition upgrade_of :: "table \<Rightarrow> bytes list \<Rightarrow> string \<Rightarrow> code option" where
  "upgrade_of t r name =
     (case cell t r (ascii name) of
        Some u \<Rightarrow> if u = ascii ''xxx'' then None else Some (item_code u) | None \<Rightarrow> None)"

definition item_of_row :: "item_type list \<Rightarrow> table \<Rightarrow> item_file \<Rightarrow> bytes list \<Rightarrow> item_def" where
  "item_of_row types t file r =
     (let n = cell_i32 t r; flag = cell_flag t r; pair = cell_pair t r in
      \<lparr>id_name = trim (cell_text t r ''name''), id_name_key = cell_text t r ''namestr'',
       id_code = item_code (cell_text t r ''code''), id_alternate_gfx = cell_code t r ''alternategfx'',
       id_item_type = type_id types (cell_text t r ''type''), id_item_type2 = type_id types (cell_text t r ''type2''),
       id_component = (if cell t r (ascii ''component'') = None then 16 else n ''component''),
       id_armor_pieces = map (cell_piece t r) [''rArm'', ''lArm'', ''Torso'', ''Legs'', ''rSPad'', ''lSPad''],
       id_weapon_class = cell_code t r ''wclass'', id_two_handed_class = cell_code t r ''2handedwclass'',
       id_transform = n ''Transform'', id_file = file,
       id_inv_size = (piece_size (cell_int t r (ascii ''invwidth'')), piece_size (cell_int t r (ascii ''invheight''))),
       id_compact = flag ''compactsave'', id_auto_belt = flag ''autobelt'', id_stackable = flag ''stackable'',
       id_useable = flag ''useable'', id_quest = flag ''quest'', id_quest_diff_check = flag ''questdiffcheck'',
       id_spell = n ''pSpell'', id_duration = n ''len'',
       id_effects = List.map_filter (effect_of t r) [(''stat1'', ''calc1''), (''stat2'', ''calc2''), (''stat3'', ''calc3'')],
       id_level = n ''level'', id_level_req = n ''levelreq'', id_version = n ''version'',
       id_spawnable = flag ''spawnable'', id_unique_only = flag ''unique'', id_durability = n ''durability'',
       id_no_durability = flag ''nodurability'', id_defense = pair ''minac'' ''maxac'', id_block = n ''block'',
       id_speed = n ''speed'', id_damage = pair ''mindam'' ''maxdam'',
       id_two_hand_damage = pair ''2handmindam'' ''2handmaxdam'', id_missile_damage = pair ''minmisdam'' ''maxmisdam'',
       id_range_adder = n ''rangeadder'', id_missile_type = n ''missiletype'',
       id_requirements = pair ''reqstr'' ''reqdex'', id_gem_sockets = n ''gemsockets'',
       id_stack = (n ''minstack'', n ''maxstack'', n ''spawnstack''),
       id_tiers = map (\<lambda>c. item_code (cell_text t r c)) [''normcode'', ''ubercode'', ''ultracode''],
       id_auto_prefix = n ''auto prefix'', id_two_handed = flag ''2handed'', id_belt = n ''belt'',
       id_gem_apply_type = n ''gemapplytype'', id_has_inv = flag ''hasinv'', id_magic_level = n ''magic lvl'',
       id_str_bonus = n ''StrBonus'', id_dex_bonus = n ''DexBonus'', id_cost = n ''cost'',
       id_gamble_cost = n ''gamble cost'', id_bitfield1 = n ''bitfield1'', id_vendors = map (vendor_of t r) VENDORS,
       id_perm_store_item = flag ''PermStoreItem'', id_upgrades = map (upgrade_of t r) [''NightmareUpgrade'', ''HellUpgrade'']\<rparr>)"

definition items_of_table :: "item_type list \<Rightarrow> table \<Rightarrow> item_file \<Rightarrow> string \<Rightarrow> (table_error, item_def list) outcome" where
  "items_of_table types t file table_name =
     (case needs_columns table_name [''code'', ''type''] t of
        Some e \<Rightarrow> Err e
      | None \<Rightarrow> Ok (map (item_of_row types t file) (tb_rows t)))"

definition items_from_tables :: "table \<Rightarrow> table \<Rightarrow> table \<Rightarrow> table \<Rightarrow> (table_error, items) outcome" where
  "items_from_tables itemtypes weapons armor misc =
     obind (types_from_table itemtypes) (\<lambda>types.
     obind (items_of_table types weapons Weapons ''weapons.txt'') (\<lambda>w.
     obind (items_of_table types armor Armor ''armor.txt'') (\<lambda>a.
     obind (items_of_table types misc Misc ''misc.txt'') (\<lambda>m.
     Ok \<lparr>is_types = types, is_rows = w @ a @ m\<rparr>))))"

definition item_get :: "items \<Rightarrow> nat \<Rightarrow> item_def option" where
  "item_get is k = (if k < length (is_rows is) then Some (is_rows is ! k) else None)"

definition class_of :: "items \<Rightarrow> code \<Rightarrow> nat option" where
  "class_of is c = find_index (\<lambda>r. id_code r = c) (is_rows is)"

definition item_is_type :: "items \<Rightarrow> nat \<Rightarrow> nat \<Rightarrow> bool" where
  "item_is_type is k parent \<longleftrightarrow>
     (case item_get is k of
        Some d \<Rightarrow> type_is_a (is_types is) (id_item_type d) parent \<or> type_is_a (is_types is) (id_item_type2 d) parent
      | None \<Rightarrow> False)"

definition item_is :: "items \<Rightarrow> nat \<Rightarrow> bytes \<Rightarrow> bool" where
  "item_is is k parent \<longleftrightarrow> (case type_id (is_types is) parent of Some p \<Rightarrow> item_is_type is k p | None \<Rightarrow> False)"

definition is_uber :: "items \<Rightarrow> nat \<Rightarrow> bool" where
  "is_uber is k \<longleftrightarrow>
     (case item_get is k of Some d \<Rightarrow> id_tiers d ! 0 \<noteq> BLANK_CODE \<and> id_code d \<noteq> id_tiers d ! 0 | None \<Rightarrow> False)"

definition BELT_FAMILIES :: "code list list" where
  "BELT_FAMILIES = map (map (item_code \<circ> ascii))
     [[''hp1'', ''hp2'', ''hp3'', ''hp4'', ''hp5''], [''mp1'', ''mp2'', ''mp3'', ''mp4'', ''mp5''], [''rvs'', ''rvl'']]"

definition same_belt_kind :: "items \<Rightarrow> nat \<Rightarrow> nat \<Rightarrow> bool" where
  "same_belt_kind is new belted \<longleftrightarrow> new = belted \<or>
     (case (item_get is new, item_get is belted) of
        (Some a, Some b) \<Rightarrow> list_ex (\<lambda>family. id_code a \<in> set family \<and> id_code b \<in> set family) BELT_FAMILIES
      | _ \<Rightarrow> False)"

definition item_beltable :: "items \<Rightarrow> nat \<Rightarrow> bool" where
  "item_beltable is k \<longleftrightarrow>
     (case Option.bind (item_get is k) (\<lambda>d. type_get (is_types is) (id_item_type d)) of
        Some t \<Rightarrow> it_beltable t | None \<Rightarrow> False)"

section \<open>Stats\<close>

record stat_cost =
  sc_name :: bytes
  sc_save_bits :: u8
  sc_save_add :: i32
  sc_param_bits :: u8
  sc_val_shift :: u8
  sc_cost_multiply :: i32
  sc_cost_add :: i32
  sc_encode :: u8
  sc_send_bits :: u8
  sc_send_param_bits :: u8

record item_stats =
  st_by_id :: "stat_cost option list"
  st_by_name :: "(bytes \<times> u16) list"

text \<open>\<open>u8::try_from(..).unwrap_or(0)\<close>.\<close>

definition cell_u8 :: "table \<Rightarrow> bytes list \<Rightarrow> string \<Rightarrow> u8" where
  "cell_u8 t r name =
     (case cell_int t r (ascii name) of Some v \<Rightarrow> if 0 \<le> v \<and> v < 256 then word_of_int v else 0 | None \<Rightarrow> 0)"

definition stat_of_row :: "table \<Rightarrow> bytes list \<Rightarrow> stat_cost" where
  "stat_of_row t r =
     \<lparr>sc_name = cell_text t r ''Stat'', sc_save_bits = cell_u8 t r ''Save Bits'', sc_save_add = cell_i32 t r ''Save Add'',
      sc_param_bits = cell_u8 t r ''Save Param Bits'', sc_val_shift = cell_u8 t r ''ValShift'',
      sc_cost_multiply = cell_i32 t r ''Multiply'', sc_cost_add = cell_i32 t r ''Add'', sc_encode = cell_u8 t r ''Encode'',
      sc_send_bits = cell_u8 t r ''Send Bits'', sc_send_param_bits = cell_u8 t r ''Send Param Bits''\<rparr>"

definition stat_row :: "table \<Rightarrow> bytes list \<Rightarrow> item_stats \<Rightarrow> item_stats" where
  "stat_row t r ss =
     (case cell_int t r (ascii ''ID'') of
        Some v \<Rightarrow>
          if 0 \<le> v \<and> v < 65536
          then
            let k = nat v; cost = stat_of_row t r; grown = st_by_id ss @ replicate (k + 1 - length (st_by_id ss)) None
            in \<lparr>st_by_id = grown[k := Some cost], st_by_name = (lowercase (sc_name cost), word_of_nat k) # st_by_name ss\<rparr>
          else ss
      | None \<Rightarrow> ss)"

definition stats_from_table :: "table \<Rightarrow> (table_error, item_stats) outcome" where
  "stats_from_table t =
     (if table_column t (ascii ''ID'') = None then Err (BadTable ''itemstatcost.txt'' ''no ID column'')
      else Ok (fold (stat_row t) (tb_rows t) \<lparr>st_by_id = [], st_by_name = []\<rparr>))"

definition stat_get :: "item_stats \<Rightarrow> nat \<Rightarrow> stat_cost option" where
  "stat_get ss i = (if i < length (st_by_id ss) then st_by_id ss ! i else None)"

definition stat_id :: "item_stats \<Rightarrow> bytes \<Rightarrow> u16 option" where
  "stat_id ss name = map_of (st_by_name ss) (lowercase name)"

section \<open>Quality odds\<close>

record odds =
  od_ratio :: i32
  od_divisor :: i32
  od_min :: i32

text \<open>\<open>i32\<close> division truncates, and the divisor is at least 1.\<close>

definition odds_chance :: "odds \<Rightarrow> i32 \<Rightarrow> i32" where
  "odds_chance o' levels =
     (od_ratio o' - word_of_int (sint levels sdiv max 1 (sint (od_divisor o')))) * 128"

record item_ratio =
  ra_version :: i32
  ra_uber :: bool
  ra_class_specific :: bool
  ra_unique :: odds
  ra_rare :: odds
  ra_set :: odds
  ra_magic :: odds
  ra_superior :: odds
  ra_normal :: odds

definition odds_of :: "table \<Rightarrow> bytes list \<Rightarrow> string \<Rightarrow> bool \<Rightarrow> odds" where
  "odds_of t r name has_min =
     \<lparr>od_ratio = cell_i32 t r name, od_divisor = cell_i32 t r (name @ ''Divisor''),
      od_min = (if has_min then cell_i32 t r (name @ ''Min'') else 0)\<rparr>"

definition ratios_from_table :: "table \<Rightarrow> item_ratio list" where
  "ratios_from_table t = map (\<lambda>r.
     \<lparr>ra_version = cell_i32 t r ''Version'', ra_uber = cell_flag t r ''Uber'',
      ra_class_specific = cell_flag t r ''Class Specific'',
      ra_unique = odds_of t r ''Unique'' True, ra_rare = odds_of t r ''Rare'' True, ra_set = odds_of t r ''Set'' True,
      ra_magic = odds_of t r ''Magic'' True, ra_superior = odds_of t r ''HiQuality'' False,
      ra_normal = odds_of t r ''Normal'' False\<rparr>) (tb_rows t)"

text \<open>\<open>max_by_key\<close> keeps the last of equal rows.\<close>

definition ratio_for_item :: "item_ratio list \<Rightarrow> bool \<Rightarrow> bool \<Rightarrow> item_ratio option" where
  "ratio_for_item rs uber class_specific =
     fold (\<lambda>r best. case best of
         None \<Rightarrow> Some r
       | Some b \<Rightarrow> if ra_version r <s ra_version b then best else Some r)
       (filter (\<lambda>r. ra_uber r = uber \<and> ra_class_specific r = class_specific) rs) None"

end
