(* ===== verification/Item_Bits.thy ===== *)
theory Item_Bits
  imports Items D2s "HOL-Library.Product_Lexorder"
begin

text \<open>
  \<open>d2-data/src/item_bits.rs\<close>: an item's bits, as \<open>Game.exe\<close> writes them into packets and saves and
  reads them back. The bit writer is the one of \<open>D2s\<close>; the reader fails when the bits run out. An
  item's own fields are a record, and an item is these with the items in its sockets.
\<close>

section \<open>Flags and items\<close>

definition IF_IN_SOCKET :: u32 where "IF_IN_SOCKET = 0x8"
definition IF_IDENTIFIED :: u32 where "IF_IDENTIFIED = 0x10"
definition IF_USED :: u32 where "IF_USED = 0x20"
definition IF_BROKEN :: u32 where "IF_BROKEN = 0x100"
definition IF_SLID_IN_BELT :: u32 where "IF_SLID_IN_BELT = 0x400"
definition IF_SOCKETED :: u32 where "IF_SOCKETED = 0x800"
definition IF_DROPPED :: u32 where "IF_DROPPED = 0x2000"
definition IF_HARDCORE_EAR :: u32 where "IF_HARDCORE_EAR = 0x8000"
definition IF_EAR :: u32 where "IF_EAR = 0x10000"
definition IF_STARTER :: u32 where "IF_STARTER = 0x20000"
definition IF_INIT :: u32 where "IF_INIT = 0x80000"
definition IF_COMPACT :: u32 where "IF_COMPACT = 0x200000"
definition IF_ETHEREAL :: u32 where "IF_ETHEREAL = 0x400000"
definition IF_WRITTEN :: u32 where "IF_WRITTEN = 0x800000"
definition IF_PERSONALIZED :: u32 where "IF_PERSONALIZED = 0x1000000"
definition IF_RUNEWORD :: u32 where "IF_RUNEWORD = 0x4000000"

definition EAR_CODE :: code where "EAR_CODE = ascii ''ear ''"
definition EAR_NAME_MAX :: nat where "EAR_NAME_MAX = 15"
definition QUEST_DIFFICULTY :: nat where "QUEST_DIFFICULTY = 356"

datatype item_location =
    Stored u8 u8 u8
  | Equipped u8
  | Belt u8
  | Ground u16 u16
  | Cursor u8 u8 u8 "u8 option"
  | Dropping u16 u16
  | Socketed u8

fun location_mode :: "item_location \<Rightarrow> u8" where
  "location_mode (Stored _ _ _) = 0"
| "location_mode (Equipped _) = 1"
| "location_mode (Belt _) = 2"
| "location_mode (Ground _ _) = 3"
| "location_mode (Cursor _ _ _ _) = 4"
| "location_mode (Dropping _ _) = 5"
| "location_mode (Socketed _) = 6"

record rare_ids =
  ri_names :: "u8 \<times> u8"
  ri_prefixes :: "u16 list"
  ri_suffixes :: "u16 list"

datatype item_quality =
    QInferior u8 | QNormal | QSuperior u8 | QMagic u16 u16 | QSet u16 | QRare rare_ids | QUnique u16
  | QCrafted rare_ids | QTempered u8 u8

fun quality_number :: "item_quality \<Rightarrow> u8" where
  "quality_number (QInferior _) = 1"
| "quality_number QNormal = 2"
| "quality_number (QSuperior _) = 3"
| "quality_number (QMagic _ _) = 4"
| "quality_number (QSet _) = 5"
| "quality_number (QRare _) = 6"
| "quality_number (QUnique _) = 7"
| "quality_number (QCrafted _) = 8"
| "quality_number (QTempered _ _) = 9"

record item_stat =
  is_id :: u16
  is_param :: u16
  is_value :: i32

record item_fields =
  im_flags :: u32
  im_version :: u16
  im_location :: item_location
  im_code :: code
  im_socketed :: u8
  im_seed :: u32
  im_level :: u8
  im_quality :: item_quality
  im_picture :: "u8 option"
  im_auto_affix :: u16
  im_type_extra :: u16
  im_book :: u8
  im_runeword :: u16
  im_name :: bytes
  im_ear_class :: u8
  im_ear_level :: u8
  im_realm :: "(u32 \<times> u32) option"
  im_defense :: i32
  im_max_durability :: i32
  im_durability :: i32
  im_gold :: u32
  im_quantity :: u16
  im_sockets :: u8
  im_stats :: "item_stat list"
  im_set_stats :: "item_stat list list"
  im_runeword_stats :: "item_stat list"
  im_unit :: u32

datatype item = Item (own: item_fields) (filled: "item list")

definition item_new :: "code \<Rightarrow> u16 \<Rightarrow> u8 \<Rightarrow> item_location \<Rightarrow> item_fields" where
  "item_new c version level place =
     \<lparr>im_flags = IF_IDENTIFIED, im_version = version, im_location = place, im_code = c, im_socketed = 0, im_seed = 0,
      im_level = level, im_quality = QNormal, im_picture = None, im_auto_affix = 0, im_type_extra = 0, im_book = 0,
      im_runeword = 0, im_name = [], im_ear_class = 0, im_ear_level = 0, im_realm = None, im_defense = 0,
      im_max_durability = 0, im_durability = 0, im_gold = 0, im_quantity = 0, im_sockets = 0, im_stats = [],
      im_set_stats = replicate 5 [], im_runeword_stats = [], im_unit = 0\<rparr>"

definition item_ear :: "u16 \<Rightarrow> u8 \<Rightarrow> u8 \<Rightarrow> bytes \<Rightarrow> bool \<Rightarrow> item_location \<Rightarrow> item_fields" where
  "item_ear version cls level victim hardcore place =
     (item_new EAR_CODE version level place)
       \<lparr>im_flags := IF_IDENTIFIED OR IF_EAR OR IF_COMPACT OR (if hardcore then IF_HARDCORE_EAR else 0),
        im_ear_class := cls, im_ear_level := level, im_name := take EAR_NAME_MAX (filter (\<lambda>b. b < 0x80) victim)\<rparr>"

definition has_flag :: "u32 \<Rightarrow> u32 \<Rightarrow> bool" where
  "has_flag fl b \<longleftrightarrow> fl AND b \<noteq> 0"

datatype bits_target = Network | SaveFile

datatype bits_error = BitsTruncated | NoMarker | UnknownCode code | UnknownStat nat

section \<open>Writing\<close>

abbreviation put :: "u32 \<Rightarrow> nat \<Rightarrow> bit_writer \<Rightarrow> bit_writer" where
  "put \<equiv> bw_write"

definition clamped :: "u32 \<Rightarrow> nat \<Rightarrow> bit_writer \<Rightarrow> bit_writer" where
  "clamped v n = put (min v (if 32 \<le> n then - 1 else mask n)) n"

definition put_flag :: "bool \<Rightarrow> bit_writer \<Rightarrow> bit_writer" where
  "put_flag b = put (if b then 1 else 0) 1"

record item_kind =
  ik_compact :: bool
  ik_armor :: bool
  ik_weapon :: bool
  ik_gold :: bool
  ik_stackable :: bool
  ik_book :: bool
  ik_charm :: bool
  ik_body_part :: bool
  ik_pictures :: bool
  ik_quest_difficulty :: bool

definition kind_of :: "items \<Rightarrow> code \<Rightarrow> item_kind option" where
  "kind_of tb c =
     Option.bind (class_of tb c) (\<lambda>k. Option.bind (item_get tb k) (\<lambda>d.
       let is = (\<lambda>t. item_is tb k (ascii t)) in
       Some \<lparr>ik_compact = id_compact d, ik_armor = is ''armo'', ik_weapon = is ''weap'', ik_gold = is ''gold'',
         ik_stackable = id_stackable d, ik_book = is ''scro'' \<or> is ''book'', ik_charm = is ''char'',
         ik_body_part = is ''body'' \<and> \<not> is ''play'',
         ik_pictures = (case type_get (is_types tb) (id_item_type d) of Some t \<Rightarrow> 0 <s it_var_inv_gfx t | None \<Rightarrow> False),
         ik_quest_difficulty = id_quest d \<and> id_quest_diff_check d\<rparr>))"

definition STAT_GROUPS :: "(nat \<times> nat list) list" where
  "STAT_GROUPS = [(17, [18]), (48, [49]), (50, [51]), (52, [53]), (54, [55, 56]), (57, [58, 59])]"

text \<open>A shift by 32 or more takes the low five bits of its count.\<close>

definition stored_value :: "stat_cost \<Rightarrow> i32 \<Rightarrow> i32" where
  "stored_value c v = signed_drop_bit (unat (sc_val_shift c) mod 32) v"

definition write_value :: "item_stats \<Rightarrow> nat \<Rightarrow> i32 \<Rightarrow> bit_writer \<Rightarrow> bit_writer" where
  "write_value ss i v w =
     (case stat_get ss i of
        None \<Rightarrow> w
      | Some c \<Rightarrow> clamped (stored_value c v + sc_save_add c) (unat (sc_save_bits c)) w)"

definition value_of :: "item_stat list \<Rightarrow> nat \<Rightarrow> i32" where
  "value_of ss i = (case find (\<lambda>s. unat (is_id s) = i) ss of Some s \<Rightarrow> is_value s | None \<Rightarrow> 0)"

definition write_stat :: "item_stats \<Rightarrow> item_stat list \<Rightarrow> item_stat \<Rightarrow> bit_writer \<times> nat list \<Rightarrow> bit_writer \<times> nat list" where
  "write_stat ss ordered s acc =
     (case acc of (w, written) \<Rightarrow>
      let i = unat (is_id s) in
      case stat_get ss i of
        None \<Rightarrow> (w, written)
      | Some c \<Rightarrow>
          if sc_save_bits c = 0 \<or> stored_value c (is_value s) = 0 \<or> i \<in> set written then (w, written)
          else
            let w = put (ucast (is_id s)) 9 w in
            case map_of STAT_GROUPS i of
              Some partners \<Rightarrow>
                (fold (\<lambda>p. write_value ss p (value_of ordered p)) partners (write_value ss i (is_value s) w),
                 rev partners @ written)
            | None \<Rightarrow>
                (write_value ss i (is_value s)
                   (if 0 < sc_param_bits c then clamped (ucast (is_param s)) (unat (sc_param_bits c)) w else w), written))"

definition stat_order :: "item_stat \<Rightarrow> nat \<times> nat \<times> int" where
  "stat_order s = (unat (is_id s), unat (is_param s), sint (is_value s))"

definition write_list :: "item_stats \<Rightarrow> item_stat list \<Rightarrow> bit_writer \<Rightarrow> bit_writer" where
  "write_list ss list w =
     (let ordered = sort_key stat_order list
      in put 0x1FF 9 (fst (fold (write_stat ss ordered) ordered (w, []))))"

definition write_realm :: "(u32 \<times> u32) option \<Rightarrow> bit_writer \<Rightarrow> bit_writer" where
  "write_realm r =
     (case r of
        Some (a, b) \<Rightarrow> put 0 32 \<circ> put b 32 \<circ> put a 32 \<circ> put 1 1
      | None \<Rightarrow> put 0 1)"

definition write_gold :: "u32 \<Rightarrow> bit_writer \<Rightarrow> bit_writer" where
  "write_gold g = put g (if 0xFFF < g then 32 else 12) \<circ> put_flag (0xFFF < g)"

definition place_bits :: "item_location \<Rightarrow> (bit_writer \<Rightarrow> bit_writer) list" where
  "place_bits l =
     (let grid = (\<lambda>body col row page. [clamped (ucast body) 4, clamped (ucast col) 4, clamped (ucast row) 4, clamped (ucast page) 3])
      in case l of
        Ground x y \<Rightarrow> [put (ucast x) 16, put (ucast y) 16]
      | Dropping x y \<Rightarrow> [put (ucast x) 16, put (ucast y) 16]
      | Stored col row page \<Rightarrow> grid (0 :: u8) col row (page + 1)
      | Equipped body \<Rightarrow> grid body 0 0 0
      | Belt slot \<Rightarrow> grid 0 slot 0 0
      | Socketed slot \<Rightarrow> grid 0 slot 0 0
      | Cursor body col row page \<Rightarrow> grid body col row (case page of Some p \<Rightarrow> p + 1 | None \<Rightarrow> 0))"

definition name_bits :: "bytes \<Rightarrow> (bit_writer \<Rightarrow> bit_writer) list" where
  "name_bits name = map (\<lambda>c. clamped (ucast c) 7) (name @ [0])"

definition optional_id :: "u16 \<Rightarrow> (bit_writer \<Rightarrow> bit_writer) list" where
  "optional_id i = put_flag (i \<noteq> 0) # (if i \<noteq> 0 then [clamped (ucast i) 11] else [])"

definition quality_bits :: "item_kind \<Rightarrow> bool \<Rightarrow> item_fields \<Rightarrow> (bit_writer \<Rightarrow> bit_writer) list" where
  "quality_bits k identified m =
     (let rare = (\<lambda>ids. (if identified then [put (ucast (fst (ri_names ids))) 8, put (ucast (snd (ri_names ids))) 8] else []) @
            concat (map (\<lambda>(p, s). optional_id p @ optional_id s) (zip (ri_prefixes ids) (ri_suffixes ids))));
          set = (\<lambda>i. if identified then [clamped (ucast (i :: u16)) 12] else [])
      in case im_quality m of
        QInferior i \<Rightarrow> [clamped (ucast i) 3]
      | QSuperior i \<Rightarrow> [clamped (ucast i) 3]
      | QNormal \<Rightarrow>
          (if ik_charm k \<and> identified then [put_flag (im_type_extra m \<noteq> 0), clamped (ucast (im_type_extra m)) 11] else []) @
          (if ik_body_part k then [clamped (ucast (im_type_extra m)) 10] else []) @
          (if ik_book k then [clamped (ucast (im_book m)) 5] else [])
      | QMagic p s \<Rightarrow> (if identified then [clamped (ucast p) 11, clamped (ucast s) 11] else [])
      | QSet i \<Rightarrow> set i
      | QUnique i \<Rightarrow> set i
      | QRare ids \<Rightarrow> rare ids
      | QCrafted ids \<Rightarrow> rare ids
      | QTempered a b \<Rightarrow> (if identified then [put (ucast a) 8, put (ucast b) 8] else []))"

definition stat_list_bits :: "item_stats \<Rightarrow> u32 \<Rightarrow> item_fields \<Rightarrow> (bit_writer \<Rightarrow> bit_writer) list" where
  "stat_list_bits ss fl m =
     (let is_set = (case im_quality m of QSet _ \<Rightarrow> True | _ \<Rightarrow> False);
          marked = zip [0..<length (im_set_stats m)] (im_set_stats m);
          mask_word = fold (\<lambda>(i, l) x. if l \<noteq> [] then x OR push_bit i 1 else x) marked 0
      in (if is_set then [put mask_word 5] else []) @
         [write_list ss (im_stats m)] @
         (if is_set then map (write_list ss) (filter (\<lambda>l. l \<noteq> []) (im_set_stats m)) else []) @
         (if has_flag fl IF_RUNEWORD then [write_list ss (im_runeword_stats m)] else []))"

text \<open>What follows the code of a simple item, and of a full one.\<close>

definition compact_bits :: "item_stats \<Rightarrow> bool \<Rightarrow> item_kind \<Rightarrow> item_fields \<Rightarrow> (bit_writer \<Rightarrow> bit_writer) list" where
  "compact_bits ss save k m =
     (if ik_gold k then [write_gold (im_gold m)] else []) @
     (if ik_quest_difficulty k
      then [write_value ss QUEST_DIFFICULTY (value_of (im_stats m) QUEST_DIFFICULTY)] else []) @
     (if save then [write_realm (im_realm m)] else [])"

definition full_bits :: "item_stats \<Rightarrow> bool \<Rightarrow> item_kind \<Rightarrow> u32 \<Rightarrow> nat \<Rightarrow> item_fields \<Rightarrow> (bit_writer \<Rightarrow> bit_writer) list" where
  "full_bits ss save k fl in_sockets m =
     (let identified = save \<or> has_flag (im_flags m) IF_IDENTIFIED;
          socketed = (if in_sockets = 0 then im_socketed m else if in_sockets < 256 then word_of_nat in_sockets else 255)
      in [clamped (ucast socketed) 3] @
         (if save then [put (im_seed m) 32] else []) @
         [clamped (ucast (max 1 (min 99 (im_level m)))) 7, put (ucast (quality_number (im_quality m))) 4,
          put_flag (ik_pictures k)] @
         (if ik_pictures k then [clamped (case im_picture m of Some p \<Rightarrow> ucast p | None \<Rightarrow> 0) 3] else []) @
         optional_id (im_auto_affix m) @ quality_bits k identified m @
         (if has_flag fl IF_RUNEWORD then [put (ucast (im_runeword m)) 16] else []) @
         (if has_flag fl IF_PERSONALIZED then name_bits (im_name m) else []) @
         (if save then [write_realm (im_realm m)] else []) @
         (if ik_armor k then [write_value ss 31 (im_defense m)] else []) @
         (if ik_armor k \<or> ik_weapon k
          then [write_value ss 73 (im_max_durability m)] @
            (if im_max_durability m \<noteq> 0 then [write_value ss 72 (im_durability m)] else [])
          else if ik_gold k then [write_gold (im_gold m)] else []) @
         (if ik_stackable k then [clamped (ucast (im_quantity m)) 9] else []) @
         (if has_flag fl IF_SOCKETED
          then (case stat_get ss 194 of Some c \<Rightarrow> [clamped (ucast (im_sockets m)) (unat (sc_save_bits c))] | None \<Rightarrow> [])
          else []) @
         (if identified then stat_list_bits ss fl m else []))"

definition written_flags :: "bool \<Rightarrow> bool \<Rightarrow> bool \<Rightarrow> u32 \<Rightarrow> u32" where
  "written_flags save compact gamble fl =
     (let fl = (fl AND NOT IF_INIT) OR IF_WRITTEN;
          fl = (if compact then fl OR IF_COMPACT else fl AND NOT IF_COMPACT);
          fl = (if \<not> save \<and> fl AND IF_IDENTIFIED = 0 then fl AND NOT IF_SOCKETED else fl)
      in if gamble then (fl AND NOT IF_ETHEREAL) OR 0x02000000 else fl)"

definition normal_tier :: "items \<Rightarrow> code \<Rightarrow> code" where
  "normal_tier tb c =
     (let n = (case Option.bind (class_of tb c) (item_get tb) of Some d \<Rightarrow> id_tiers d ! 0 | None \<Rightarrow> c)
      in if n = BLANK_CODE then c else n)"

definition item_parts :: "item \<Rightarrow> items \<Rightarrow> item_stats \<Rightarrow> bits_target \<Rightarrow> bool \<Rightarrow> (bit_writer \<Rightarrow> bit_writer) list" where
  "item_parts it tb ss target gamble =
     (let m = own it; save = (target = SaveFile); q = quality_number (im_quality m);
          gamble = (gamble \<and> \<not> save \<and> im_flags m AND IF_IDENTIFIED = 0 \<and> 4 \<le> q \<and> q \<le> 9);
          ear = has_flag (im_flags m) IF_EAR;
          kind = kind_of tb (if ear then EAR_CODE else im_code m);
          compact = (ear \<or> (case kind of Some k \<Rightarrow> ik_compact k | None \<Rightarrow> False));
          fl = written_flags save compact gamble (im_flags m);
          head = (if save then [put 0x4D4A 16] else []) @ [put fl 32, clamped (ucast (im_version m)) 10,
            put (ucast (location_mode (im_location m))) 3] @ place_bits (im_location m)
      in if gamble then head @ [put (of_le (normal_tier tb (im_code m))) 32]
         else head @
           (if ear then [clamped (ucast (im_ear_class m)) 3, clamped (ucast (im_ear_level m)) 7] @
              name_bits (take EAR_NAME_MAX (im_name m))
            else [put (of_le (im_code m)) 32]) @
           (case kind of
              None \<Rightarrow> []
            | Some k \<Rightarrow>
                if compact then compact_bits ss save k m else full_bits ss save k fl (length (filled it)) m))"

definition run_bits :: "(bit_writer \<Rightarrow> bit_writer) list \<Rightarrow> bytes" where
  "run_bits ps = fst (fold (\<lambda>p. p) ps ([], 0))"

definition write_item :: "item \<Rightarrow> items \<Rightarrow> item_stats \<Rightarrow> bits_target \<Rightarrow> bytes" where
  "write_item it tb ss target = run_bits (item_parts it tb ss target False)"

definition write_gamble :: "item \<Rightarrow> items \<Rightarrow> item_stats \<Rightarrow> bytes" where
  "write_gamble it tb ss = run_bits (item_parts it tb ss Network True)"

definition write_save_list :: "item list \<Rightarrow> items \<Rightarrow> item_stats \<Rightarrow> bytes" where
  "write_save_list list tb ss =
     ascii ''JM'' @ le16 (word_of_nat (length list)) @
     concat (map (\<lambda>it. write_item it tb ss SaveFile @
       concat (map (\<lambda>(slot, inside). write_item (Item ((own inside)\<lparr>im_location := Socketed (word_of_nat slot)\<rparr>) (filled inside))
           tb ss SaveFile)
         (zip [0..<length (filled it)] (filled it)))) list)"

section \<open>Reading\<close>

text \<open>A read at a bit position gives its value and the position after it.\<close>

type_synonym 'a bits_rd = "nat \<Rightarrow> (bits_error, 'a \<times> nat) outcome"

definition get_bits :: "bytes \<Rightarrow> nat \<Rightarrow> u32 bits_rd" where
  "get_bits data n p = (case br_read data p n of (Some v, q) \<Rightarrow> Ok (v, q) | (None, _) \<Rightarrow> Err BitsTruncated)"

lemma get_bits_end: "get_bits data n p = Ok (v, q) \<Longrightarrow> q = p + n \<and> (0 < n \<longrightarrow> q \<le> 8 * length data)"
  by (auto simp: get_bits_def split: prod.splits option.splits dest: br_read_end)

definition read_value :: "bytes \<Rightarrow> item_stats \<Rightarrow> nat \<Rightarrow> i32 bits_rd" where
  "read_value data ss i p =
     (case stat_get ss i of
        None \<Rightarrow> Err (UnknownStat i)
      | Some c \<Rightarrow>
          obind (get_bits data (unat (sc_save_bits c)) p) (\<lambda>(raw, p).
          Ok (push_bit (unat (sc_val_shift c) mod 32) (raw - sc_save_add c), p)))"

fun read_partners :: "bytes \<Rightarrow> item_stats \<Rightarrow> nat list \<Rightarrow> item_stat list bits_rd" where
  "read_partners data ss [] p = Ok ([], p)"
| "read_partners data ss (i # is) p =
     obind (read_value data ss i p) (\<lambda>(v, p).
     obind (read_partners data ss is p) (\<lambda>(rest, p).
     Ok (\<lparr>is_id = word_of_nat i, is_param = 0, is_value = v\<rparr> # rest, p)))"

definition read_param :: "bytes \<Rightarrow> stat_cost \<Rightarrow> u32 bits_rd" where
  "read_param data c p = (if 0 < sc_param_bits c then get_bits data (unat (sc_param_bits c)) p else Ok (0, p))"

text \<open>One round of the loop: the stats an id stands for, or the end of the list.\<close>

definition read_entry :: "bytes \<Rightarrow> item_stats \<Rightarrow> item_stat list option bits_rd" where
  "read_entry data ss p =
     obind (get_bits data 9 p) (\<lambda>(i, p).
     if i = 0x1FF then Ok (None, p)
     else case map_of STAT_GROUPS (unat i) of
       Some partners \<Rightarrow> obind (read_partners data ss (unat i # partners) p) (\<lambda>(xs, p). Ok (Some xs, p))
     | None \<Rightarrow>
         (case stat_get ss (unat i) of
            None \<Rightarrow> Err (UnknownStat (unat i))
          | Some c \<Rightarrow>
              obind (read_param data c p) (\<lambda>(param, p).
              obind (read_value data ss (unat i) p) (\<lambda>(v, p).
              Ok (Some [\<lparr>is_id = ucast i, is_param = ucast param, is_value = v\<rparr>], p)))))"

lemma get_bits_le: "get_bits data n p = Ok (v, q) \<Longrightarrow> p \<le> 8 * length data \<Longrightarrow> p \<le> q \<and> q \<le> 8 * length data"
  by (cases "n = 0") (auto dest: get_bits_end)

lemma read_value_end:
  "read_value data ss i p = Ok (v, q) \<Longrightarrow> p \<le> 8 * length data \<Longrightarrow> p \<le> q \<and> q \<le> 8 * length data"
  by (auto simp: read_value_def obind_Ok_conv split: option.splits dest: get_bits_le)

lemma read_partners_end:
  "read_partners data ss is p = Ok (xs, q) \<Longrightarrow> p \<le> 8 * length data \<Longrightarrow> p \<le> q \<and> q \<le> 8 * length data"
  by (induction "is" arbitrary: p xs)
     (fastforce simp: obind_Ok_conv dest: read_value_end)+

lemma read_entry_end:
  assumes "read_entry data ss p = Ok (Some xs, q)"
  shows "p < q \<and> q \<le> 8 * length data"
proof -
  from assms obtain i p0 where "get_bits data 9 p = Ok (i, p0)"
    by (auto simp: read_entry_def obind_Ok_conv)
  with get_bits_end [OF this] have i: "get_bits data 9 p = Ok (i, p + 9)" "p + 9 \<le> 8 * length data" by auto
  show ?thesis
  proof (cases "map_of STAT_GROUPS (unat i)")
    case (Some partners)
    with assms i have "read_partners data ss (unat i # partners) (p + 9) = Ok (xs, q)"
      by (auto simp: read_entry_def obind_Ok_conv split: if_splits)
    from read_partners_end [OF this i(2)] show ?thesis by simp
  next
    case None
    with assms i obtain c param p1 v where "read_param data c (p + 9) = Ok (param, p1)"
      "read_value data ss (unat i) p1 = Ok (v, q)"
      by (auto simp: read_entry_def obind_Ok_conv split: if_splits option.splits)
    moreover from this(1) i(2) have "p + 9 \<le> p1 \<and> p1 \<le> 8 * length data"
      by (auto simp: read_param_def dest: get_bits_le split: if_splits)
    ultimately show ?thesis using read_value_end [of data ss "unat i" p1 v q] by simp
  qed
qed

function read_list :: "bytes \<Rightarrow> item_stats \<Rightarrow> item_stat list bits_rd" where
  "read_list data ss p =
     (case read_entry data ss p of
        Err e \<Rightarrow> Err e
      | Panic \<Rightarrow> Panic
      | Ok (None, q) \<Rightarrow> Ok ([], q)
      | Ok (Some xs, q) \<Rightarrow>
          (case read_list data ss q of
             Ok (rest, q) \<Rightarrow> Ok (xs @ rest, q) | Err e \<Rightarrow> Err e | Panic \<Rightarrow> Panic))"
  by pat_completeness auto

termination
  by (relation "measure (\<lambda>(data, ss, p). 8 * length data - p)") (auto dest: read_entry_end)

declare read_list.simps [simp del]

text \<open>A name, to its zero.\<close>

function read_name :: "bytes \<Rightarrow> bytes bits_rd" where
  "read_name data p =
     (case get_bits data 7 p of
        Err e \<Rightarrow> Err e
      | Panic \<Rightarrow> Panic
      | Ok (c, q) \<Rightarrow>
          if c = 0 then Ok ([], q)
          else case read_name data q of
            Ok (rest, q) \<Rightarrow> Ok (ucast c # rest, q) | Err e \<Rightarrow> Err e | Panic \<Rightarrow> Panic)"
  by pat_completeness auto

termination
  by (relation "measure (\<lambda>(data, p). 8 * length data - p)") (auto dest!: get_bits_end)

declare read_name.simps [simp del]

definition read_realm :: "bytes \<Rightarrow> (u32 \<times> u32) option bits_rd" where
  "read_realm data p =
     obind (get_bits data 1 p) (\<lambda>(there, p).
     if there = 0 then Ok (None, p)
     else
       obind (get_bits data 32 p) (\<lambda>(a, p).
       obind (get_bits data 32 p) (\<lambda>(b, p).
       obind (get_bits data 32 p) (\<lambda>(_, p).
       Ok (Some (a, b), p)))))"

definition read_gold :: "bytes \<Rightarrow> u32 bits_rd" where
  "read_gold data p = obind (get_bits data 1 p) (\<lambda>(big, p). get_bits data (if big \<noteq> 0 then 32 else 12) p)"

definition read_place :: "bytes \<Rightarrow> item_location bits_rd" where
  "read_place data p =
     obind (get_bits data 3 p) (\<lambda>(mode, p).
     if mode = 3 \<or> mode = 5 then
       obind (get_bits data 16 p) (\<lambda>(x, p).
       obind (get_bits data 16 p) (\<lambda>(y, p).
       Ok (if mode = 3 then Ground (ucast x) (ucast y) else Dropping (ucast x) (ucast y), p)))
     else
       obind (get_bits data 4 p) (\<lambda>(body, p).
       obind (get_bits data 4 p) (\<lambda>(col, p).
       obind (get_bits data 4 p) (\<lambda>(row, p).
       obind (get_bits data 3 p) (\<lambda>(page, p).
       Ok (if mode = 0 then Stored (ucast col) (ucast row) (ucast (if page = 0 then 0 else page - 1))
           else if mode = 1 then Equipped (ucast body)
           else if mode = 2 then Belt (ucast col)
           else if mode = 4
           then Cursor (ucast body) (ucast col) (ucast row) (if page = 0 then None else Some (ucast (page - 1)))
           else Socketed (ucast col), p))))))"

text \<open>An id of eleven bits behind its present bit: nothing when it is not there.\<close>

definition read_optional :: "bytes \<Rightarrow> u32 \<Rightarrow> nat \<Rightarrow> u32 bits_rd" where
  "read_optional data absent n p =
     obind (get_bits data 1 p) (\<lambda>(there, p). if there \<noteq> 0 then get_bits data n p else Ok (absent, p))"

fun read_affixes :: "bytes \<Rightarrow> nat \<Rightarrow> (u16 list \<times> u16 list) bits_rd" where
  "read_affixes data 0 p = Ok (([], []), p)"
| "read_affixes data (Suc n) p =
     obind (read_optional data 0 11 p) (\<lambda>(a, p).
     obind (read_optional data 0 11 p) (\<lambda>(b, p).
     obind (read_affixes data n p) (\<lambda>((as, bs), p).
     Ok ((ucast a # as, ucast b # bs), p))))"

definition read_rare :: "bytes \<Rightarrow> bool \<Rightarrow> rare_ids bits_rd" where
  "read_rare data identified p =
     obind (if identified
            then obind (get_bits data 8 p) (\<lambda>(a, p). obind (get_bits data 8 p) (\<lambda>(b, p). Ok ((ucast a, ucast b), p)))
            else Ok ((0, 0), p)) (\<lambda>(names, p).
     obind (read_affixes data 3 p) (\<lambda>((prefixes, suffixes), p).
     Ok (\<lparr>ri_names = names, ri_prefixes = prefixes, ri_suffixes = suffixes\<rparr>, p)))"

text \<open>The quality's ids, and the extra fields of a normal item.\<close>

definition read_normal :: "bytes \<Rightarrow> item_kind \<Rightarrow> bool \<Rightarrow> item_fields \<Rightarrow> item_fields bits_rd" where
  "read_normal data k identified m p =
     obind (if ik_charm k \<and> identified then read_optional data (ucast (im_type_extra m)) 11 p
            else Ok (ucast (im_type_extra m), p)) (\<lambda>(extra, p).
     obind (if ik_body_part k then get_bits data 10 p else Ok (extra, p)) (\<lambda>(extra, p).
     obind (if ik_book k then get_bits data 5 p else Ok (ucast (im_book m), p)) (\<lambda>(book, p).
     Ok (m\<lparr>im_type_extra := ucast extra, im_book := ucast book, im_quality := QNormal\<rparr>, p))))"

definition read_quality :: "bytes \<Rightarrow> item_kind \<Rightarrow> bool \<Rightarrow> u32 \<Rightarrow> item_fields \<Rightarrow> item_fields bits_rd" where
  "read_quality data k identified q m p =
     (let put = (\<lambda>f p. obind (f p) (\<lambda>(x, p). Ok (m\<lparr>im_quality := x\<rparr>, p))) in
      if q = 1 then put (\<lambda>p. obind (get_bits data 3 p) (\<lambda>(i, p). Ok (QInferior (ucast i), p))) p
      else if q = 3 then put (\<lambda>p. obind (get_bits data 3 p) (\<lambda>(i, p). Ok (QSuperior (ucast i), p))) p
      else if q = 4 then
        (if identified
         then put (\<lambda>p. obind (get_bits data 11 p) (\<lambda>(a, p). obind (get_bits data 11 p) (\<lambda>(b, p).
                Ok (QMagic (ucast a) (ucast b), p)))) p
         else put (\<lambda>p. Ok (QMagic 0 0, p)) p)
      else if q = 5 \<or> q = 7 then
        put (\<lambda>p. obind (if identified then get_bits data 12 p else Ok (0, p)) (\<lambda>(i, p).
              Ok (if q = 5 then QSet (ucast i) else QUnique (ucast i), p))) p
      else if q = 6 \<or> q = 8 then
        put (\<lambda>p. obind (read_rare data identified p) (\<lambda>(ids, p). Ok (if q = 6 then QRare ids else QCrafted ids, p))) p
      else if q = 9 then
        (if identified
         then put (\<lambda>p. obind (get_bits data 8 p) (\<lambda>(a, p). obind (get_bits data 8 p) (\<lambda>(b, p).
                Ok (QTempered (ucast a) (ucast b), p)))) p
         else put (\<lambda>p. Ok (QTempered 0 0, p)) p)
      else read_normal data k identified m p)"

fun read_set_lists :: "bytes \<Rightarrow> item_stats \<Rightarrow> u32 \<Rightarrow> nat \<Rightarrow> nat \<Rightarrow> item_stat list list bits_rd" where
  "read_set_lists data ss marks i 0 p = Ok ([], p)"
| "read_set_lists data ss marks i (Suc n) p =
     obind (if bit marks i then read_list data ss p else Ok ([], p)) (\<lambda>(l, p).
     obind (read_set_lists data ss marks (i + 1) n p) (\<lambda>(ls, p). Ok (l # ls, p)))"

definition read_compact :: "bytes \<Rightarrow> item_stats \<Rightarrow> bool \<Rightarrow> item_kind \<Rightarrow> item_fields \<Rightarrow> item_fields bits_rd" where
  "read_compact data ss save k m p =
     obind (if ik_gold k then read_gold data p else Ok (im_gold m, p)) (\<lambda>(gold, p).
     obind (if ik_quest_difficulty k then read_value data ss QUEST_DIFFICULTY p else Ok (0, p)) (\<lambda>(made_in, p).
     obind (if save then read_realm data p else Ok (im_realm m, p)) (\<lambda>(realm, p).
     Ok (m\<lparr>im_quality := QNormal, im_realm := realm, im_gold := gold,
           im_stats := (if made_in \<noteq> 0
             then [\<lparr>is_id = word_of_nat QUEST_DIFFICULTY, is_param = 0, is_value = made_in\<rparr>] else im_stats m)\<rparr>, p))))"

text \<open>A full item up to its quality, from there to the stat lists, and the lists.\<close>

definition read_full_head :: "bytes \<Rightarrow> bool \<Rightarrow> item_kind \<Rightarrow> u32 \<Rightarrow> item_fields \<Rightarrow> item_fields bits_rd" where
  "read_full_head data save k fl m p =
     (let identified = save \<or> has_flag fl IF_IDENTIFIED in
      obind (get_bits data 3 p) (\<lambda>(socketed, p).
      obind (if save then get_bits data 32 p else Ok (im_seed m, p)) (\<lambda>(seed, p).
      obind (get_bits data 7 p) (\<lambda>(level, p).
      obind (get_bits data 4 p) (\<lambda>(q, p).
      obind (get_bits data 1 p) (\<lambda>(drawn, p).
      obind (if drawn \<noteq> 0 then obind (get_bits data 3 p) (\<lambda>(i, p). Ok (Some (ucast i), p)) else Ok (im_picture m, p))
        (\<lambda>(picture, p).
      obind (read_optional data (ucast (im_auto_affix m)) 11 p) (\<lambda>(auto_affix, p).
      read_quality data k identified q
        (m\<lparr>im_socketed := ucast socketed, im_seed := seed, im_level := ucast (max 1 level), im_picture := picture,
           im_auto_affix := ucast auto_affix\<rparr>) p))))))))"

definition read_full_body :: "bytes \<Rightarrow> item_stats \<Rightarrow> bool \<Rightarrow> item_kind \<Rightarrow> u32 \<Rightarrow> item_fields \<Rightarrow> item_fields bits_rd" where
  "read_full_body data ss save k fl m p =
     obind (if has_flag fl IF_RUNEWORD then get_bits data 16 p else Ok (ucast (im_runeword m), p)) (\<lambda>(runeword, p).
     obind (if has_flag fl IF_PERSONALIZED then read_name data p else Ok ([], p)) (\<lambda>(name, p).
     obind (if save then read_realm data p else Ok (im_realm m, p)) (\<lambda>(realm, p).
     obind (if ik_armor k then read_value data ss 31 p else Ok (im_defense m, p)) (\<lambda>(defense, p).
     obind (if ik_armor k \<or> ik_weapon k then read_value data ss 73 p else Ok (im_max_durability m, p)) (\<lambda>(max_dur, p).
     obind (if (ik_armor k \<or> ik_weapon k) \<and> max_dur \<noteq> 0 then read_value data ss 72 p else Ok (im_durability m, p))
       (\<lambda>(dur, p).
     obind (if \<not> (ik_armor k \<or> ik_weapon k) \<and> ik_gold k then read_gold data p else Ok (im_gold m, p)) (\<lambda>(gold, p).
     obind (if ik_stackable k then get_bits data 9 p else Ok (ucast (im_quantity m), p)) (\<lambda>(quantity, p).
     obind (if has_flag fl IF_SOCKETED
            then (case stat_get ss 194 of
                    None \<Rightarrow> Err (UnknownStat 194) | Some c \<Rightarrow> get_bits data (unat (sc_save_bits c)) p)
            else Ok (ucast (im_sockets m), p)) (\<lambda>(sockets, p).
     Ok (m\<lparr>im_runeword := ucast runeword, im_name := im_name m @ name, im_realm := realm, im_defense := defense,
           im_max_durability := max_dur, im_durability := dur, im_gold := gold, im_quantity := ucast quantity,
           im_sockets := ucast sockets\<rparr>, p))))))))))"

definition read_full_lists :: "bytes \<Rightarrow> item_stats \<Rightarrow> u32 \<Rightarrow> item_fields \<Rightarrow> item_fields bits_rd" where
  "read_full_lists data ss fl m p =
     obind (case im_quality m of QSet _ \<Rightarrow> get_bits data 5 p | _ \<Rightarrow> Ok (0, p)) (\<lambda>(marks, p).
     obind (read_list data ss p) (\<lambda>(stats, p).
     obind (read_set_lists data ss marks 0 5 p) (\<lambda>(set_stats, p).
     obind (if has_flag fl IF_RUNEWORD then read_list data ss p else Ok (im_runeword_stats m, p)) (\<lambda>(runeword_stats, p).
     Ok (m\<lparr>im_stats := stats, im_set_stats := set_stats, im_runeword_stats := runeword_stats\<rparr>, p)))))"

definition read_code :: "bytes \<Rightarrow> bool \<Rightarrow> (code \<times> u8 \<times> u8 \<times> bytes) bits_rd" where
  "read_code data ear p =
     (if ear then
        obind (get_bits data 3 p) (\<lambda>(cls, p).
        obind (get_bits data 7 p) (\<lambda>(level, p).
        obind (read_name data p) (\<lambda>(name, p).
        Ok ((EAR_CODE, ucast cls, ucast level, name), p))))
      else obind (get_bits data 32 p) (\<lambda>(c, p). Ok ((le32 c, 0, 0, []), p)))"

definition read_item :: "bytes \<Rightarrow> items \<Rightarrow> item_stats \<Rightarrow> bits_target \<Rightarrow> (bits_error, item \<times> nat) outcome" where
  "read_item data tb ss target =
     (let save = (target = SaveFile) in
      obind (if save then get_bits data 16 0 else Ok (0x4D4A, 0)) (\<lambda>(marker, p).
      if marker \<noteq> 0x4D4A then Err NoMarker
      else
        obind (get_bits data 32 p) (\<lambda>(fl, p).
        obind (get_bits data 10 p) (\<lambda>(version, p).
        obind (read_place data p) (\<lambda>(place, p).
        let ear = has_flag fl IF_EAR in
        obind (read_code data ear p) (\<lambda>((c, ear_class, ear_level, name), p).
        case kind_of tb c of
          None \<Rightarrow> Err (UnknownCode c)
        | Some k \<Rightarrow>
            let m = (item_new c (ucast version) 1 place)
              \<lparr>im_flags := fl, im_name := name, im_ear_class := ear_class, im_ear_level := ear_level\<rparr> in
            obind
              (if ear \<or> has_flag fl IF_COMPACT then read_compact data ss save k m p
               else
                 obind (read_full_head data save k fl m p) (\<lambda>(m, p).
                 obind (read_full_body data ss save k fl m p) (\<lambda>(m, p).
                 if save \<or> has_flag fl IF_IDENTIFIED then read_full_lists data ss fl m p else Ok (m, p))))
              (\<lambda>(m, p). Ok (Item m [], (p + 7) div 8))))))))"

fun read_items :: "bytes \<Rightarrow> items \<Rightarrow> item_stats \<Rightarrow> nat \<Rightarrow> nat \<Rightarrow> (bits_error, item list \<times> nat) outcome" where
  "read_items data tb ss 0 at_pos = Ok ([], at_pos)"
| "read_items data tb ss (Suc n) at_pos =
     obind (read_item (drop at_pos data) tb ss SaveFile) (\<lambda>(it, used).
     obind (read_items data tb ss n (at_pos + used)) (\<lambda>(rest, at_pos).
     Ok (it # rest, at_pos)))"

text \<open>An item's items in sockets follow it.\<close>

fun read_filled_items :: "bytes \<Rightarrow> items \<Rightarrow> item_stats \<Rightarrow> nat \<Rightarrow> nat \<Rightarrow> (bits_error, item list \<times> nat) outcome" where
  "read_filled_items data tb ss 0 at_pos = Ok ([], at_pos)"
| "read_filled_items data tb ss (Suc n) at_pos =
     obind (read_item (drop at_pos data) tb ss SaveFile) (\<lambda>(it, used).
     obind (read_items data tb ss (unat (im_socketed (own it))) (at_pos + used)) (\<lambda>(inside, at_pos).
     obind (read_filled_items data tb ss n at_pos) (\<lambda>(rest, at_pos).
     Ok (Item (own it) (filled it @ inside) # rest, at_pos))))"

definition read_save_list :: "bytes \<Rightarrow> items \<Rightarrow> item_stats \<Rightarrow> (bits_error, item list \<times> nat) outcome" where
  "read_save_list data tb ss =
     (if take 2 data \<noteq> ascii ''JM'' then Err NoMarker
      else if length data < 4 then Err BitsTruncated
      else read_filled_items data tb ss (unat (of_le (take 2 (drop 2 data)) :: u16)) 4)"

end
