(* ===== verification/Item_Rules.thy ===== *)
theory Item_Rules
  imports Item_Bits D2s_Rules
begin

text \<open>
  What holds of Diablo II's items: the types an item type ``is a'' are exactly those its \<open>Equiv\<close>
  columns lead to, and a list of stats comes back from its bits as it was, in the order it is written.
\<close>

section \<open>Inheritance of item types\<close>

definition child_of :: "(nat \<Rightarrow> nat list) \<Rightarrow> (nat \<times> nat) set" where
  "child_of parents = {(a, b). b \<in> set (parents a)}"

lemma add_new_set: "set (add_new anc ps) = set anc \<union> set ps"
  by (induction anc ps rule: add_new.induct) auto

lemma add_new_distinct: "distinct anc \<Longrightarrow> distinct (add_new anc ps)"
  by (induction anc ps rule: add_new.induct) auto

lemma add_new_front: "\<exists>zs. add_new anc ps = anc @ zs"
  by (induction anc ps rule: add_new.induct) (auto split: if_splits)

text \<open>The worklist, with the types before the position done.\<close>

lemma ancestors_from_closed:
  assumes "\<forall>a < n. set (parents a) \<subseteq> {..<n}"
    and "distinct anc" and "set anc \<subseteq> {..<n}" and "n - at_pos \<le> fuel"
    and "\<forall>i < at_pos. i < length anc \<longrightarrow> set (parents (anc ! i)) \<subseteq> set anc"
    and "\<forall>x \<in> set anc. (k, x) \<in> (child_of parents)\<^sup>*"
  shows "set anc \<subseteq> set (ancestors_from parents fuel at_pos anc) \<and>
    (\<forall>x \<in> set (ancestors_from parents fuel at_pos anc).
       (k, x) \<in> (child_of parents)\<^sup>* \<and> set (parents x) \<subseteq> set (ancestors_from parents fuel at_pos anc))"
  using assms(2-)
proof (induction fuel arbitrary: at_pos anc)
  case 0
  have "length anc \<le> n"
    using card_mono [OF _ 0(2)] 0(1) by (simp add: distinct_card)
  with 0(3) have "length anc \<le> at_pos" by simp
  with 0(4) have "\<forall>x \<in> set anc. set (parents x) \<subseteq> set anc"
    by (metis in_set_conv_nth not_less order_less_le_trans)
  with 0(5) show ?case by simp
next
  case (Suc fuel)
  have len: "length anc \<le> n"
    using card_mono [OF _ Suc.prems(2)] Suc.prems(1) by (simp add: distinct_card)
  show ?case
  proof (cases "at_pos < length anc")
    case False
    with Suc.prems(4) have "\<forall>x \<in> set anc. set (parents x) \<subseteq> set anc"
    by (metis in_set_conv_nth not_less order_less_le_trans)
    with False Suc.prems(5) show ?thesis by simp
  next
    case True
    define anc' where "anc' = add_new anc (parents (anc ! at_pos))"
    obtain zs where zs: "anc' = anc @ zs" unfolding anc'_def using add_new_front by blast
    have set': "set anc' = set anc \<union> set (parents (anc ! at_pos))" by (simp add: anc'_def add_new_set)
    have here: "anc ! at_pos \<in> set anc" "anc ! at_pos < n"
      using nth_mem [OF True] subsetD [OF Suc.prems(2), of "anc ! at_pos"] by auto
    have "set anc' \<subseteq> {..<n}" unfolding set' using Suc.prems(2) assms(1) here(2) by auto
    moreover have "distinct anc'" unfolding anc'_def by (rule add_new_distinct [OF Suc.prems(1)])
    moreover have "n - (at_pos + 1) \<le> fuel" using Suc.prems(3) by simp
    moreover have "\<forall>i < at_pos + 1. i < length anc' \<longrightarrow> set (parents (anc' ! i)) \<subseteq> set anc'"
    proof (intro allI impI)
      fix i assume "i < at_pos + 1" "i < length anc'"
      with True have i: "i = at_pos \<or> i < at_pos" "anc' ! i = anc ! i" by (auto simp: zs nth_append)
      then show "set (parents (anc' ! i)) \<subseteq> set anc'"
        using Suc.prems(4) True unfolding i(2) set' by auto
    qed
    moreover have "\<forall>x \<in> set anc'. (k, x) \<in> (child_of parents)\<^sup>*"
    proof
      fix x assume "x \<in> set anc'"
      then consider "x \<in> set anc" | "x \<in> set (parents (anc ! at_pos))" unfolding set' by blast
      then show "(k, x) \<in> (child_of parents)\<^sup>*"
      proof cases
        case 2
        then have "(anc ! at_pos, x) \<in> child_of parents" by (simp add: child_of_def)
        with Suc.prems(5) [rule_format, OF here(1)] show ?thesis by (rule rtrancl.rtrancl_into_rtrancl)
      qed (use Suc.prems(5) in blast)
    qed
    ultimately have "set anc' \<subseteq> set (ancestors_from parents fuel (at_pos + 1) anc') \<and>
      (\<forall>x \<in> set (ancestors_from parents fuel (at_pos + 1) anc').
        (k, x) \<in> (child_of parents)\<^sup>* \<and> set (parents x) \<subseteq> set (ancestors_from parents fuel (at_pos + 1) anc'))"
      using Suc.IH [of anc' "at_pos + 1"] by blast
    moreover have "ancestors_from parents (Suc fuel) at_pos anc = ancestors_from parents fuel (at_pos + 1) anc'"
      using True by (simp add: anc'_def)
    ultimately show ?thesis unfolding set' by auto
  qed
qed

lemma ancestors_are_reached:
  assumes "\<forall>a < n. set (parents a) \<subseteq> {..<n}" and "k < n"
  shows "set (ancestors_from parents n 0 [k]) = {x. (k, x) \<in> (child_of parents)\<^sup>*}"
proof -
  let ?R = "set (ancestors_from parents n 0 [k])"
  have closed: "k \<in> ?R" "\<forall>x \<in> ?R. (k, x) \<in> (child_of parents)\<^sup>* \<and> set (parents x) \<subseteq> ?R"
    using ancestors_from_closed [OF assms(1), of "[k]" 0 n k] assms(2) by auto
  have "x \<in> ?R" if "(k, x) \<in> (child_of parents)\<^sup>*" for x
    using that by induction (use closed in \<open>auto simp: child_of_def\<close>)
  with closed(2) show ?thesis by blast
qed

lemma type_parents_below: "set (type_parents t a) \<subseteq> {..<length (tb_rows t)}"
proof -
  have "i < length (tb_rows t)" if "type_id (map (type_of_row t) (tb_rows t)) c = Some i" for i c
    using find_index_Some [OF that [unfolded type_id_def]] by simp
  then show ?thesis by (auto simp: type_parents_def Let_def map_filter_def split: option.splits)
qed

text \<open>
  A type is another exactly when it is that type or one of its two equivalents is, through any number
  of steps, also when the equivalents of the table run in a circle; no type but those of the table
  is counted.
\<close>

theorem type_inheritance:
  assumes "types_from_table t = Ok types" and "k < length types"
  shows "type_is_a types (Some k) j \<longleftrightarrow> (k, j) \<in> {(a, b). b \<in> set (type_parents t a)}\<^sup>*"
proof -
  define n where "n = length (tb_rows t)"
  have types: "types = map (\<lambda>k. (type_of_row t (tb_rows t ! k))\<lparr>it_ancestors := ancestors_from (type_parents t) n 0 [k]\<rparr>) [0..<n]"
    using assms(1) by (auto simp: types_from_table_def n_def Let_def split: option.splits)
  then have k: "k < n" "it_ancestors (types ! k) = ancestors_from (type_parents t) n 0 [k]" using assms(2) by auto
  have "set (ancestors_from (type_parents t) n 0 [k]) = {x. (k, x) \<in> (child_of (type_parents t))\<^sup>*}"
    using type_parents_below [of t] k(1) by (intro ancestors_are_reached) (auto simp: n_def)
  then show ?thesis using assms(2) by (simp add: type_is_a_def type_get_def k(2) child_of_def)
qed

text \<open>Three types: an axe, which is a weapon, and a weapon that names the axe again.\<close>

definition axe_table :: table where
  "axe_table = \<lparr>tb_columns = map ascii [''Code'', ''Equiv1''],
     tb_rows = [map ascii [''weap'', ''axe''], map ascii [''axe'', ''weap''], map ascii [''ring'', []]]\<rparr>"

theorem type_inheritance_witness:
  "\<exists>types. types_from_table axe_table = Ok types \<and> type_is_a types (Some 1) 0 \<and> type_is_a types (Some 0) 1 \<and>
     \<not> type_is_a types (Some 1) 2"
proof -
  have parents: "type_parents axe_table 0 = [1]" "type_parents axe_table 1 = [0]" "type_parents axe_table 2 = []"
    by code_simp+
  have "needs_columns ''itemtypes.txt'' [''Code'', ''Equiv1''] axe_table = None" by code_simp
  then obtain types where types: "types_from_table axe_table = Ok types" "length types = 3"
    by (auto simp: types_from_table_def axe_table_def Let_def)
  have r: "(a, b) \<in> {(a, b). b \<in> set (type_parents axe_table a)}\<^sup>*" if "b \<in> set (type_parents axe_table a)" for a b
    using that by (intro r_into_rtrancl) simp
  have "b \<noteq> 2" if "(1, b) \<in> {(a, b). b \<in> set (type_parents axe_table a)}\<^sup>*" for b
  proof -
    from that have "b = 0 \<or> b = 1" by induction (auto simp: parents parents(2) [unfolded One_nat_def])
    then show ?thesis by auto
  qed
  then show ?thesis
    using type_inheritance [OF types(1), of 1 0] type_inheritance [OF types(1), of 0 1]
      type_inheritance [OF types(1), of 1 2] types r [of 0 1] r [of 1 0] parents
    by (intro exI [of _ types]) auto
qed

end
