(* ===== verification/Item_Bits_Rules.thy ===== *)
theory Item_Bits_Rules
  imports Item_Bits D2s_Rules
begin

text \<open>
  The stat lists of Diablo II's items: what \<open>write_list\<close> writes \<open>read_list\<close> reads, in the order it is
  written, with the stats that carry their partners' values straight after them.
\<close>

section \<open>One value\<close>

definition value_width :: "item_stats \<Rightarrow> nat \<Rightarrow> nat" where
  "value_width ss i = (case stat_get ss i of Some c \<Rightarrow> unat (sc_save_bits c) | None \<Rightarrow> 0)"

definition raw_value :: "item_stats \<Rightarrow> nat \<Rightarrow> i32 \<Rightarrow> u32" where
  "raw_value ss i v = (case stat_get ss i of Some c \<Rightarrow> stored_value c v + sc_save_add c | None \<Rightarrow> 0)"

text \<open>A value its columns can hold: in range once shifted and moved, and shifted without loss.\<close>

definition value_fits :: "item_stats \<Rightarrow> nat \<Rightarrow> i32 \<Rightarrow> bool" where
  "value_fits ss i v \<longleftrightarrow>
     (case stat_get ss i of
        None \<Rightarrow> False
      | Some c \<Rightarrow> unat (sc_save_bits c) \<le> 32 \<and>
          unat (stored_value c v + sc_save_add c) < 2 ^ unat (sc_save_bits c) \<and>
          push_bit (unat (sc_val_shift c) mod 32) (stored_value c v) = v)"

lemma clamped_fits:
  assumes "unat v < 2 ^ n" and "n \<le> 32"
  shows "clamped v n = put v n"
proof (cases "n = 32")
  case False
  have "2 ^ n \<le> (2 ^ 32 :: nat)" using assms(2) by (intro power_increasing) auto
  then have "(2 ^ n - 1 :: nat) mod 2 ^ 32 = 2 ^ n - 1" by (intro mod_less) simp
  then have "unat (word_of_nat (mask n) :: u32) = 2 ^ n - 1"
    unfolding unat_of_nat mask_eq_exp_minus_1 by simp
  then have "unat (mask n :: u32) = 2 ^ n - 1" by (simp only: of_nat_mask_eq)
  then have "v \<le> mask n"
    using assms(1) by (simp add: word_le_nat_alt)
  with False assms(2) show ?thesis by (simp add: clamped_def min_absorb1)
qed (simp add: clamped_def min_absorb1)

lemma write_value_written:
  assumes "value_fits ss i v" and "written w ws"
  shows "written (write_value ss i v w) (ws @ value_bits (value_width ss i) (raw_value ss i v))"
  using assms bw_write_written
  by (auto simp: value_fits_def write_value_def value_width_def raw_value_def clamped_fits split: option.splits)

lemma get_bits_value:
  assumes "bits_of data = pre @ value_bits n v @ post" and "unat v < 2 ^ n" and "n \<le> 32"
  shows "get_bits data n (length pre) = Ok (v, length pre + n)"
  using br_read_value [OF assms] by (simp add: get_bits_def)

lemma read_value_back:
  assumes "value_fits ss i v" and "bits_of data = pre @ value_bits (value_width ss i) (raw_value ss i v) @ post"
  shows "read_value data ss i (length pre) = Ok (v, length pre + value_width ss i)"
proof -
  from assms(1) obtain c where c: "stat_get ss i = Some c" "unat (sc_save_bits c) \<le> 32"
    "unat (stored_value c v + sc_save_add c) < 2 ^ unat (sc_save_bits c)"
    "push_bit (unat (sc_val_shift c) mod 32) (stored_value c v) = v"
    by (auto simp: value_fits_def split: option.splits)
  with assms(2) have "bits_of data = pre @ value_bits (unat (sc_save_bits c)) (stored_value c v + sc_save_add c) @ post"
    by (simp add: value_width_def raw_value_def)
  from get_bits_value [OF this c(3,2)] c(1,4) show ?thesis by (simp add: read_value_def value_width_def)
qed

section \<open>Blocks\<close>

text \<open>
  A written list falls into blocks: a stat of its own, with its parameter, or a leading stat with
  the values of its partners behind it.
\<close>

abbreviation num :: "item_stat \<Rightarrow> nat" where
  "num s \<equiv> unat (is_id s)"

text \<open>A stat that is written: it has bits, and is not zero once shifted.\<close>

definition worth_writing :: "item_stats \<Rightarrow> item_stat \<Rightarrow> bool" where
  "worth_writing ss s \<longleftrightarrow>
     (case stat_get ss (num s) of
        None \<Rightarrow> False | Some c \<Rightarrow> sc_save_bits c \<noteq> 0 \<and> stored_value c (is_value s) \<noteq> 0)"

definition param_fits :: "item_stats \<Rightarrow> item_stat \<Rightarrow> bool" where
  "param_fits ss s \<longleftrightarrow>
     (case stat_get ss (num s) of
        None \<Rightarrow> False
      | Some c \<Rightarrow> unat (sc_param_bits c) \<le> 32 \<and> unat (is_param s) < 2 ^ unat (sc_param_bits c))"

fun block_ok :: "item_stats \<Rightarrow> item_stat list \<Rightarrow> bool" where
  "block_ok ss [] = False"
| "block_ok ss (s # ps) =
     (num s < 511 \<and> worth_writing ss s \<and> list_all (\<lambda>x. value_fits ss (num x) (is_value x)) (s # ps) \<and>
      (case map_of STAT_GROUPS (num s) of
         None \<Rightarrow> ps = [] \<and> param_fits ss s
       | Some partners \<Rightarrow> map num ps = partners \<and> list_all (\<lambda>x. is_param x = 0) (s # ps)))"

definition val_bits :: "item_stats \<Rightarrow> item_stat \<Rightarrow> bool list" where
  "val_bits ss s = value_bits (value_width ss (num s)) (raw_value ss (num s) (is_value s))"

lemma length_val_bits [simp]: "length (val_bits ss s) = value_width ss (num s)"
  by (simp add: val_bits_def)

definition par_bits :: "item_stats \<Rightarrow> item_stat \<Rightarrow> bool list" where
  "par_bits ss s =
     (case stat_get ss (num s) of Some c \<Rightarrow> value_bits (unat (sc_param_bits c)) (ucast (is_param s)) | None \<Rightarrow> [])"

fun block_bits :: "item_stats \<Rightarrow> item_stat list \<Rightarrow> bool list" where
  "block_bits ss [] = []"
| "block_bits ss (s # ps) =
     value_bits 9 (ucast (is_id s)) @ (if map_of STAT_GROUPS (num s) = None then par_bits ss s else []) @
     concat (map (val_bits ss) (s # ps))"

text \<open>The stats with an id of a group, each id once.\<close>

definition grouped :: "nat \<Rightarrow> bool" where
  "grouped i \<longleftrightarrow> (\<exists>(a, ps) \<in> set STAT_GROUPS. i \<in> set (a # ps))"

definition groups_once :: "item_stat list \<Rightarrow> bool" where
  "groups_once l \<longleftrightarrow> distinct (map is_id (filter (\<lambda>s. grouped (num s)) l))"

lemma partner_grouped: "map_of STAT_GROUPS i = Some ps \<Longrightarrow> p \<in> set ps \<Longrightarrow> grouped p"
  by (auto simp: grouped_def dest!: map_of_SomeD)

lemma value_of_once:
  assumes "groups_once l" and "x \<in> set l" and "grouped (num x)"
  shows "value_of l (num x) = is_value x"
proof -
  obtain y where y: "find (\<lambda>s. num s = num x) l = Some y"
    using assms(2) by (cases "find (\<lambda>s. num s = num x) l") (auto simp: find_None_iff)
  then have "y \<in> set l" "num y = num x" by (auto simp: find_Some_iff)
  then have "y \<in> set (filter (\<lambda>s. grouped (num s)) l)" "is_id y = is_id x" using assms(3) by (auto simp: word_unat_eq_iff)
  with assms have "y = x" by (auto simp: groups_once_def distinct_map dest: inj_onD)
  with y show ?thesis by (simp add: value_of_def)
qed

section \<open>Writing blocks\<close>

lemma write_skipped:
  "\<forall>x \<in> set ps. num x \<in> set dn \<Longrightarrow> fold (write_stat ss ordered) ps (w, dn) = (w, dn)"
  by (induction ps) (auto simp: write_stat_def Let_def split: option.split)

lemma write_partners:
  assumes "list_all (\<lambda>x. value_fits ss (num x) (is_value x)) ps"
    and "\<forall>x \<in> set ps. value_of ordered (num x) = is_value x" and "written w ws"
  shows "written (fold (\<lambda>p. write_value ss p (value_of ordered p)) (map num ps) w) (ws @ concat (map (val_bits ss) ps))"
  using assms
proof (induction ps arbitrary: w ws)
  case (Cons x ps)
  then have "written (write_value ss (num x) (value_of ordered (num x)) w) (ws @ val_bits ss x)"
    by (simp add: val_bits_def write_value_written)
  from Cons.IH [OF _ _ this] Cons.prems show ?case by simp
qed simp

lemma write_block:
  assumes "block_ok ss b" and "\<forall>x \<in> set b. num x \<notin> set dn"
    and "\<forall>x \<in> set (tl b). value_of ordered (num x) = is_value x" and "written w ws"
  shows "\<exists>w' dn'. fold (write_stat ss ordered) b (w, dn) = (w', dn') \<and> written w' (ws @ block_bits ss b) \<and>
    set dn' = set dn \<union> num ` set (tl b)"
proof -
  obtain s ps where b: "b = s # ps" using assms(1) by (cases b) auto
  obtain c where c: "stat_get ss (num s) = Some c" "sc_save_bits c \<noteq> 0" "stored_value c (is_value s) \<noteq> 0"
    using assms(1) by (auto simp: b worth_writing_def split: option.splits)
  have id_bits: "written (put (ucast (is_id s)) 9 w) (ws @ value_bits 9 (ucast (is_id s)))"
    by (rule bw_write_written [OF assms(4)])
  have fits: "value_fits ss (num s) (is_value s)" "list_all (\<lambda>x. value_fits ss (num x) (is_value x)) ps"
    using assms(1) by (simp_all add: b)
  show ?thesis
  proof (cases "map_of STAT_GROUPS (num s)")
    case None
    with assms(1) c(1) have ps: "ps = []" and p: "unat (sc_param_bits c) \<le> 32" "unat (is_param s) < 2 ^ unat (sc_param_bits c)"
      by (auto simp: b param_fits_def)
    let ?w = "if 0 < sc_param_bits c then clamped (ucast (is_param s)) (unat (sc_param_bits c)) (put (ucast (is_id s)) 9 w)
      else put (ucast (is_id s)) 9 w"
    have "written ?w ((ws @ value_bits 9 (ucast (is_id s))) @ par_bits ss s)"
    proof (cases "0 < sc_param_bits c")
      case True
      with p c(1) bw_write_written [OF id_bits] show ?thesis by (simp add: clamped_fits id_value par_bits_def)
    next
      case False
      then have "sc_param_bits c = 0" by (simp add: word_gt_0)
      with id_bits c(1) show ?thesis by (simp add: par_bits_def value_bits_def)
    qed
    from write_value_written [OF fits(1) this] None c assms(2) show ?thesis
      by (simp add: b ps write_stat_def Let_def val_bits_def)
  next
    case (Some partners)
    with assms(1) have partners: "partners = map num ps" by (auto simp: b)
    define w1 where "w1 = write_value ss (num s) (is_value s) (put (ucast (is_id s)) 9 w)"
    have "written w1 ((ws @ value_bits 9 (ucast (is_id s))) @ val_bits ss s)"
      unfolding w1_def val_bits_def by (rule write_value_written [OF fits(1) id_bits])
    from write_partners [OF fits(2) _ this] assms(3)
    have w2: "written (fold (\<lambda>p. write_value ss p (value_of ordered p)) partners w1) (ws @ block_bits ss b)"
      using Some by (simp add: b partners)
    have "write_stat ss ordered s (w, dn) =
        (fold (\<lambda>p. write_value ss p (value_of ordered p)) partners w1, rev partners @ dn)"
      using Some c assms(2) by (simp add: b write_stat_def Let_def w1_def)
    moreover have "fold (write_stat ss ordered) ps (w', rev partners @ dn) = (w', rev partners @ dn)" for w'
      by (rule write_skipped) (simp add: partners)
    ultimately show ?thesis using w2 by (auto simp: b partners)
  qed
qed

lemma write_blocks:
  assumes "list_all (block_ok ss) bs" and "groups_once (concat bs)" and "\<forall>x \<in> set (concat bs). num x \<notin> set dn"
    and "\<forall>x \<in> set (concat bs). grouped (num x) \<longrightarrow> value_of ordered (num x) = is_value x" and "written w ws"
  shows "\<exists>w' dn'. fold (write_stat ss ordered) (concat bs) (w, dn) = (w', dn') \<and>
    written w' (ws @ concat (map (block_bits ss) bs))"
  using assms
proof (induction bs arbitrary: w dn ws)
  case (Cons b bs)
  have tl_grouped: "grouped (num x)" if "x \<in> set (tl b)" for x
  proof -
    obtain s ps where b: "b = s # ps" using Cons.prems(1) by (cases b) auto
    with that Cons.prems(1) have "map_of STAT_GROUPS (num s) = Some (map num ps)" "x \<in> set ps"
      by (auto split: option.splits)
    then show ?thesis using partner_grouped [of "num s" "map num ps"] by simp
  qed
  have sub: "set (tl b) \<subseteq> set b" by (cases b) auto
  obtain w1 dn1 where w1: "fold (write_stat ss ordered) b (w, dn) = (w1, dn1)" "written w1 (ws @ block_bits ss b)"
      "set dn1 = set dn \<union> num ` set (tl b)"
    using write_block [of ss b dn ordered w ws] Cons.prems tl_grouped sub by fastforce
  have "num x \<notin> set dn1" if x: "x \<in> set (concat bs)" for x
  proof
    assume "num x \<in> set dn1"
    with w1(3) Cons.prems(3) x obtain y where y: "y \<in> set (tl b)" "num x = num y" by auto
    then have "x \<in> set (filter (\<lambda>s. grouped (num s)) (concat bs))" "y \<in> set (filter (\<lambda>s. grouped (num s)) b)"
      using x tl_grouped [OF y(1)] sub by auto
    moreover have "is_id x = is_id y" using y(2) by (simp add: word_unat_eq_iff)
    ultimately have "is_id y \<in> is_id ` set (filter (\<lambda>s. grouped (num s)) (concat bs))"
      "is_id y \<in> is_id ` set (filter (\<lambda>s. grouped (num s)) b)" by (metis imageI)+
    moreover have "set (map is_id (filter (\<lambda>s. grouped (num s)) b)) \<inter>
        set (map is_id (filter (\<lambda>s. grouped (num s)) (concat bs))) = {}"
      using Cons.prems(2) unfolding groups_once_def by (simp only: concat.simps filter_append map_append distinct_append)
    ultimately show False unfolding set_map by blast
  qed
  moreover have "groups_once (concat bs)" using Cons.prems(2) by (simp add: groups_once_def)
  ultimately show ?case
    using Cons.IH [of dn1 w1 "ws @ block_bits ss b"] Cons.prems w1(1,2) by simp
qed simp

section \<open>Reading blocks\<close>

lemma read_partners_back:
  assumes "list_all (\<lambda>x. value_fits ss (num x) (is_value x)) xs" and "list_all (\<lambda>x. is_param x = 0) xs"
    and "bits_of data = pre @ concat (map (val_bits ss) xs) @ post"
  shows "read_partners data ss (map num xs) (length pre) = Ok (xs, length pre + length (concat (map (val_bits ss) xs)))"
  using assms
proof (induction xs arbitrary: pre)
  case (Cons x xs)
  from Cons.prems have "read_value data ss (num x) (length pre) = Ok (is_value x, length pre + value_width ss (num x))"
    by (intro read_value_back) (simp_all add: val_bits_def)
  moreover have "read_partners data ss (map num xs) (length (pre @ val_bits ss x)) =
      Ok (xs, length (pre @ val_bits ss x) + length (concat (map (val_bits ss) xs)))"
    using Cons.prems by (intro Cons.IH) simp_all
  moreover have "x = \<lparr>is_id = is_id x, is_param = 0, is_value = is_value x\<rparr>" using Cons.prems(2) by simp
  ultimately show ?case by (simp add: add.assoc)
qed simp

lemma read_block:
  assumes "block_ok ss b" and "bits_of data = pre @ block_bits ss b @ post"
  shows "read_entry data ss (length pre) = Ok (Some b, length pre + length (block_bits ss b))"
proof -
  obtain s ps where b: "b = s # ps" using assms(1) by (cases b) auto
  define i where "i = (ucast (is_id s) :: u32)"
  have small: "num s < 511" using assms(1) by (simp add: b)
  have i: "unat i = num s" "ucast i = is_id s" unfolding i_def by (rule id_value) (simp add: ucast_down_ucast_id is_down)
  have ne: "i \<noteq> 0x1FF" using small i(1) by auto
  have "get_bits data 9 (length pre) = Ok (i, length pre + 9)"
    using assms(2) small by (intro get_bits_value) (simp_all add: b i(1) flip: i_def)
  then have head: "read_entry data ss (length pre) =
      (case map_of STAT_GROUPS (num s) of
         Some partners \<Rightarrow> obind (read_partners data ss (num s # partners) (length pre + 9)) (\<lambda>(xs, p). Ok (Some xs, p))
       | None \<Rightarrow>
           (case stat_get ss (num s) of
              None \<Rightarrow> Err (UnknownStat (num s))
            | Some c \<Rightarrow>
                obind (read_param data c (length pre + 9)) (\<lambda>(param, p).
                obind (read_value data ss (num s) p) (\<lambda>(v, p).
                Ok (Some [\<lparr>is_id = is_id s, is_param = ucast param, is_value = v\<rparr>], p)))))"
    using ne unfolding read_entry_def i(1) [symmetric] unfolding i(2) [symmetric] by simp
  show ?thesis
  proof (cases "map_of STAT_GROUPS (num s)")
    case None
    with assms(1) obtain c where c: "stat_get ss (num s) = Some c" "unat (sc_param_bits c) \<le> 32"
        "unat (is_param s) < 2 ^ unat (sc_param_bits c)" and ps: "ps = []" and fits: "value_fits ss (num s) (is_value s)"
      by (auto simp: b param_fits_def split: option.splits)
    let ?n = "unat (sc_param_bits c)"
    have bits: "bits_of data = (pre @ value_bits 9 i) @ value_bits ?n (ucast (is_param s)) @ val_bits ss s @ post"
      using assms(2) None c(1) by (simp add: b ps par_bits_def flip: i_def)
    have "read_param data c (length pre + 9) = Ok (ucast (is_param s), length pre + 9 + ?n)"
    proof (cases "0 < sc_param_bits c")
      case True
      with get_bits_value [OF bits] c(2,3) show ?thesis by (simp add: read_param_def id_value)
    next
      case False
      then have z: "sc_param_bits c = 0" by (simp add: word_gt_0)
      with c(3) have "is_param s = 0" by (simp add: word_unat_eq_iff)
      with z show ?thesis by (simp add: read_param_def)
    qed
    moreover have "read_value data ss (num s) (length (pre @ value_bits 9 i @ value_bits ?n (ucast (is_param s)))) =
        Ok (is_value s, length (pre @ value_bits 9 i @ value_bits ?n (ucast (is_param s))) + value_width ss (num s))"
      using bits by (intro read_value_back [OF fits]) (simp add: val_bits_def)
    ultimately show ?thesis
      unfolding head using None c(1)
      by (simp add: b ps par_bits_def ucast_down_ucast_id is_down add.assoc)
  next
    case (Some partners)
    with assms(1) have partners: "partners = map num ps" and ok: "list_all (\<lambda>x. value_fits ss (num x) (is_value x)) (s # ps)"
        "list_all (\<lambda>x. is_param x = 0) (s # ps)" by (auto simp: b)
    have "bits_of data = (pre @ value_bits 9 i) @ concat (map (val_bits ss) (s # ps)) @ post"
      using assms(2) Some by (simp add: b flip: i_def)
    from read_partners_back [OF ok this] Some show ?thesis
      unfolding head by (simp add: b partners add.assoc)
  qed
qed

lemma read_blocks:
  assumes "list_all (block_ok ss) bs"
    and "bits_of data = pre @ concat (map (block_bits ss) bs) @ value_bits 9 0x1FF @ post"
  shows "read_list data ss (length pre) = Ok (concat bs, length pre + length (concat (map (block_bits ss) bs)) + 9)"
  using assms
proof (induction bs arbitrary: pre)
  case Nil
  then have "get_bits data 9 (length pre) = Ok (0x1FF, length pre + 9)" by (intro get_bits_value) simp_all
  then show ?case by (simp add: read_list.simps [of data] read_entry_def)
next
  case (Cons b bs)
  have "read_entry data ss (length pre) = Ok (Some b, length pre + length (block_bits ss b))"
    using Cons.prems by (intro read_block [of ss b data pre]) simp_all
  moreover have "read_list data ss (length (pre @ block_bits ss b)) =
      Ok (concat bs, length (pre @ block_bits ss b) + length (concat (map (block_bits ss) bs)) + 9)"
    using Cons.prems by (intro Cons.IH) simp_all
  ultimately show ?case by (subst read_list.simps) (simp add: add.assoc)
qed

section \<open>A list\<close>

text \<open>
  C38: a list of stats comes back as the code sorts it before writing: stats of their own, and leading
  stats with all their partners, every value in the range of its columns, each id of a group once.
  It is read where the writer stood, whatever was written before and whatever bytes come after, and
  reading ends where writing ended.
\<close>

theorem stat_list_reads_back:
  assumes "sort_key stat_order l = concat bs" and "list_all (block_ok ss) bs" and "groups_once (concat bs)"
    and "written w ws"
  shows "read_list (fst (write_list ss l w) @ after) ss (snd w) = Ok (sort_key stat_order l, snd (write_list ss l w))"
proof -
  define ordered where "ordered = concat bs"
  have "\<forall>x \<in> set (concat bs). grouped (num x) \<longrightarrow> value_of ordered (num x) = is_value x"
    using value_of_once assms(3) by (auto simp: ordered_def)
  from write_blocks [OF assms(2,3) _ this assms(4), of "[]"] obtain w1 dn where
    "fold (write_stat ss ordered) (concat bs) (w, []) = (w1, dn)" "written w1 (ws @ concat (map (block_bits ss) bs))"
    by auto
  moreover from this(1) have "write_list ss l w = put 0x1FF 9 w1"
    by (simp add: write_list_def assms(1) ordered_def Let_def)
  ultimately have w: "written (write_list ss l w) (ws @ concat (map (block_bits ss) bs) @ value_bits 9 0x1FF)"
    using bw_write_written [of w1 "ws @ concat (map (block_bits ss) bs)" "0x1FF" 9] by simp
  then obtain pad where "bits_of (fst (write_list ss l w) @ after) =
      ws @ concat (map (block_bits ss) bs) @ value_bits 9 0x1FF @ (pad @ bits_of after)"
    by (auto simp: written_def)
  from read_blocks [OF assms(2) this] have "read_list (fst (write_list ss l w) @ after) ss (length ws) =
      Ok (concat bs, length ws + length (concat (map (block_bits ss) bs)) + 9)" .
  moreover have "snd w = length ws" "snd (write_list ss l w) = length ws + length (concat (map (block_bits ss) bs)) + 9"
    using assms(4) w by (simp_all add: written_def)
  ultimately show ?thesis using assms(1) by simp
qed

text \<open>Strength, and minimum with maximum damage.\<close>

definition few_stats :: item_stats where
  "few_stats =
     (let cost = (\<lambda>bits add. Some \<lparr>sc_name = [], sc_save_bits = bits, sc_save_add = add, sc_param_bits = 0, sc_val_shift = 0,
        sc_cost_multiply = 0, sc_cost_add = 0, sc_encode = 0, sc_send_bits = 0, sc_send_param_bits = 0\<rparr>)
      in \<lparr>st_by_id = cost 8 32 # replicate 16 None @ [cost 9 0, cost 9 0], st_by_name = []\<rparr>)"

definition three_stats :: "item_stat list" where
  "three_stats =
     [\<lparr>is_id = 18, is_param = 0, is_value = 40\<rparr>, \<lparr>is_id = 17, is_param = 0, is_value = 60\<rparr>,
      \<lparr>is_id = 0, is_param = 0, is_value = - 5\<rparr>]"

theorem stat_list_reads_back_witness:
  "read_list (fst (write_list few_stats three_stats ([], 0)) @ [7]) few_stats 0 =
     Ok (rev three_stats, snd (write_list few_stats three_stats ([], 0)))"
proof -
  have order: "sort_key stat_order three_stats =
      concat [[three_stats ! 2], [three_stats ! 1, three_stats ! 0]]" by code_simp
  have "list_all (block_ok few_stats) [[three_stats ! 2], [three_stats ! 1, three_stats ! 0]]" by code_simp
  moreover have "groups_once (concat [[three_stats ! 2], [three_stats ! 1, three_stats ! 0]])"
    by (simp add: groups_once_def three_stats_def)
  ultimately have "read_list (fst (write_list few_stats three_stats ([], 0)) @ [7]) few_stats (snd (([], 0) :: bit_writer)) =
      Ok (sort_key stat_order three_stats, snd (write_list few_stats three_stats ([], 0)))"
    by (rule stat_list_reads_back [OF order _ _ written_Nil])
  then show ?thesis unfolding order by (simp add: three_stats_def)
qed

section \<open>Charms\<close>

text \<open>
  A normal charm without an affix is written with an eleven bit id behind a bit that says there is none,
  and read without it: the reader goes on eleven bits early.
\<close>

theorem charm_without_affix_shifts:
  assumes "written w ws" and "ik_charm k" and "\<not> ik_body_part k" and "\<not> ik_book k"
    and "im_quality m = QNormal" and "im_type_extra m = 0"
  shows "snd (fold (\<lambda>p. p) (quality_bits k True m) w) = snd w + 12"
    and "read_normal (fst (fold (\<lambda>p. p) (quality_bits k True m) w)) k True m (snd w) = Ok (m, snd w + 1)"
proof -
  define w' where "w' = fold (\<lambda>p. p) (quality_bits k True m) w"
  have "w' = clamped 0 11 (put 0 1 w)" using assms by (simp add: w'_def quality_bits_def put_flag_def)
  then have w': "written w' ((ws @ value_bits 1 0) @ value_bits 11 0)"
    using bw_write_written [OF bw_write_written [OF assms(1), of 0 1], of 0 11] by (simp add: clamped_def)
  then show "snd (fold (\<lambda>p. p) (quality_bits k True m) w) = snd w + 12"
    using assms(1) by (simp add: written_def flip: w'_def)
  from w' obtain pad where "bits_of (fst w') = ws @ value_bits 1 0 @ (value_bits 11 0 @ pad)" by (auto simp: written_def)
  from get_bits_value [OF this] have "get_bits (fst w') 1 (snd w) = Ok (0, snd w + 1)"
    using assms(1) by (simp add: written_def)
  moreover have "m\<lparr>im_type_extra := 0, im_book := im_book m, im_quality := QNormal\<rparr> = m"
    using assms(5,6) by (cases m) simp
  ultimately show "read_normal (fst (fold (\<lambda>p. p) (quality_bits k True m) w)) k True m (snd w) = Ok (m, snd w + 1)"
    using assms(2-6) by (simp add: read_normal_def read_optional_def ucast_down_ucast_id is_down flip: w'_def)
qed

end
