(* ===== verification/Pkware.thy ===== *)
theory Pkware
  imports Prelude
begin

text \<open>
  \<open>d2-formats/src/pkware.rs\<close>: the decoder of PKWARE's ``implode'' compression, as Diablo II's archives
  use it. The canonical Huffman tables built from their run lists, the bit reader and the loop of
  literals and back-references. An index out of a table and a subtraction below zero are panics; the
  theorem at the end is that no input reaches one.
\<close>

datatype pk_error = BadHeader | PkTruncated | BadCode | DistanceTooFar

definition MAX_BITS :: nat where "MAX_BITS = 13"

definition LIT_LEN :: "nat list" where
  "LIT_LEN = [
     11, 124, 8, 7, 28, 7, 188, 13, 76, 4, 10, 8, 12, 10, 12, 10, 8, 23, 8, 9, 7, 6, 7, 8, 7, 6, 55,
     8, 23, 24, 12, 11, 7, 9, 11, 12, 6, 7, 22, 5, 7, 24, 6, 11, 9, 6, 7, 22, 7, 11, 38, 7, 9, 8, 25,
     11, 8, 11, 9, 12, 8, 12, 5, 38, 5, 38, 5, 11, 7, 5, 6, 21, 6, 10, 53, 8, 7, 24, 10, 27, 44, 253,
     253, 253, 252, 252, 252, 13, 12, 45, 12, 45, 12, 61, 12, 45, 44, 173]"

definition LEN_LEN :: "nat list" where "LEN_LEN = [2, 35, 36, 53, 38, 23]"
definition DIST_LEN :: "nat list" where "DIST_LEN = [2, 20, 53, 230, 247, 151, 248]"
definition LEN_BASE :: "nat list" where
  "LEN_BASE = [3, 2, 4, 5, 6, 7, 8, 9, 10, 12, 16, 24, 40, 72, 136, 264]"
definition LEN_EXTRA :: "nat list" where
  "LEN_EXTRA = [0, 0, 0, 0, 0, 0, 0, 0, 1, 2, 3, 4, 5, 6, 7, 8]"
definition END_OF_STREAM :: nat where "END_OF_STREAM = 519"

section \<open>Huffman tables\<close>

record huffman =
  hf_count :: "nat list"
  hf_symbol :: "nat list"

text \<open>The run list expanded; how many codes each length has; the symbols placed by length, then value.\<close>

definition code_lengths :: "nat list \<Rightarrow> nat list" where
  "code_lengths rep = concat (map (\<lambda>r. replicate (r div 16 + 1) (r mod 16)) rep)"

definition count_lengths :: "nat list \<Rightarrow> nat list" where
  "count_lengths lengths = fold (\<lambda>l c. c[l := c ! l + 1]) lengths (replicate (MAX_BITS + 1) 0)"

definition first_slots :: "nat list \<Rightarrow> nat list" where
  "first_slots count = fold (\<lambda>l o'. o'[l + 1 := o' ! l + count ! l]) [1..<MAX_BITS + 1] (replicate (MAX_BITS + 2) 0)"

definition place_symbol :: "nat \<times> nat \<Rightarrow> nat list \<times> nat list \<Rightarrow> nat list \<times> nat list" where
  "place_symbol = (\<lambda>(sym, l) (symbol, offs).
     if l \<noteq> 0 then (symbol[offs ! l := sym], offs[l := offs ! l + 1]) else (symbol, offs))"

definition construct :: "nat list \<Rightarrow> huffman" where
  "construct rep =
     (let lengths = code_lengths rep; count = count_lengths lengths
      in \<lparr>hf_count = count,
          hf_symbol = fst (fold place_symbol (zip [0..<length lengths] lengths)
            (replicate 256 0, first_slots count))\<rparr>)"

definition LIT_CODE :: huffman where "LIT_CODE = construct LIT_LEN"
definition LENGTH_CODE :: huffman where "LENGTH_CODE = construct LEN_LEN"
definition DIST_CODE :: huffman where "DIST_CODE = construct DIST_LEN"

section \<open>Bits\<close>

record pk_bits =
  pb_pos :: nat
  pb_buf :: u32
  pb_cnt :: nat

function pk_fill :: "bytes \<Rightarrow> nat \<Rightarrow> pk_bits \<Rightarrow> pk_bits option" where
  "pk_fill src need b =
     (if pb_cnt b < need
      then
        if pb_pos b < length src
        then pk_fill src need \<lparr>pb_pos = pb_pos b + 1, pb_buf = pb_buf b OR push_bit (pb_cnt b) (ucast (src ! pb_pos b)),
          pb_cnt = pb_cnt b + 8\<rparr>
        else None
      else Some b)"
  by pat_completeness auto

termination
  by (relation "measure (\<lambda>(src, need, b). need - pb_cnt b)") auto

declare pk_fill.simps [simp del]

definition pk_take :: "bytes \<Rightarrow> nat \<Rightarrow> pk_bits \<Rightarrow> (pk_error, u32 \<times> pk_bits) outcome" where
  "pk_take src need b =
     (if need = 0 then Ok (0, b)
      else case pk_fill src need b of
        None \<Rightarrow> Err PkTruncated
      | Some b \<Rightarrow> Ok (pb_buf b AND mask need, b\<lparr>pb_buf := drop_bit need (pb_buf b), pb_cnt := pb_cnt b - need\<rparr>))"

text \<open>
  A code, bit by bit, each bit inverted; \<open>lens\<close> are the lengths still to try. The code so far is even,
  so a bit is added where the source writes it with \<open>|=\<close>.
\<close>

fun decode_from :: "bytes \<Rightarrow> huffman \<Rightarrow> nat list \<Rightarrow> nat \<Rightarrow> nat \<Rightarrow> nat \<Rightarrow> pk_bits \<Rightarrow> (pk_error, nat \<times> pk_bits) outcome" where
  "decode_from src h [] code first at_index b = Err BadCode"
| "decode_from src h (len # lens) code first at_index b =
     obind (pk_take src 1 b) (\<lambda>(x, b).
     let code = code + unat (x XOR 1) in
     obind (index (hf_count h) len) (\<lambda>count.
     if code < first + count then
       if code < first then Panic
       else obind (index (hf_symbol h) (at_index + (code - first))) (\<lambda>s. Ok (s, b))
     else decode_from src h lens (2 * code) (2 * (first + count)) (at_index + count) b))"

definition pk_decode :: "bytes \<Rightarrow> huffman \<Rightarrow> pk_bits \<Rightarrow> (pk_error, nat \<times> pk_bits) outcome" where
  "pk_decode src h b = decode_from src h [1..<MAX_BITS + 1] 0 0 0 b"

section \<open>The stream\<close>

text \<open>A copy of \<open>k\<close> bytes, each from \<open>dist\<close> before the end, which may be a byte just copied.\<close>

fun copy_back :: "nat \<Rightarrow> nat \<Rightarrow> bytes \<Rightarrow> bytes" where
  "copy_back dist 0 out = out"
| "copy_back dist (Suc k) out = copy_back dist k (out @ [out ! (length out - dist)])"

text \<open>
  One symbol: the bytes with what it adds, or the end of the stream. \<open>cap\<close> is the length of \<open>dst\<close>, \<open>dict\<close>
  the low bits of a distance.
\<close>

definition pk_match :: "bytes \<Rightarrow> nat \<Rightarrow> nat \<Rightarrow> bytes \<Rightarrow> nat \<Rightarrow> pk_bits \<Rightarrow> (pk_error, (bytes \<times> pk_bits) option) outcome" where
  "pk_match src dict cap out len b =
     (let low = (if len = 2 then 2 else dict) in
      obind (pk_decode src DIST_CODE b) (\<lambda>(high, b).
      obind (pk_take src low b) (\<lambda>(d, b).
      let dist = unat ((push_bit low (word_of_nat high) :: u64) OR ucast d) + 1 in
      if dist > length out then Err DistanceTooFar
      else Ok (Some (copy_back dist (min len (cap - length out)) out, b)))))"

definition pk_step :: "bytes \<Rightarrow> bool \<Rightarrow> nat \<Rightarrow> nat \<Rightarrow> bytes \<Rightarrow> pk_bits \<Rightarrow> (pk_error, (bytes \<times> pk_bits) option) outcome" where
  "pk_step src coded dict cap out b =
     obind (pk_take src 1 b) (\<lambda>(flag, b).
     if flag \<noteq> 0 then
       obind (pk_decode src LENGTH_CODE b) (\<lambda>(sym, b).
       obind (index LEN_BASE sym) (\<lambda>base.
       obind (index LEN_EXTRA sym) (\<lambda>extra.
       obind (pk_take src extra b) (\<lambda>(x, b).
       let len = base + unat x in
       if len = END_OF_STREAM then Ok None else pk_match src dict cap out len b))))
     else if coded then obind (pk_decode src LIT_CODE b) (\<lambda>(s, b). Ok (Some (out @ [word_of_nat s], b)))
     else obind (pk_take src 8 b) (\<lambda>(v, b). Ok (Some (out @ [ucast v], b))))"

lemma length_copy_back [simp]: "length (copy_back dist k out) = length out + k"
  by (induction k arbitrary: out) simp_all

lemma pk_fill_cnt: "pk_fill src need b = Some b' \<Longrightarrow> need \<le> pb_cnt b'"
  by (induction src need b rule: pk_fill.induct) (subst (asm) pk_fill.simps, auto split: if_splits)

lemma pk_match_longer:
  assumes "pk_match src dict cap out len b = Ok (Some (out', b'))" and "length out < cap" and "0 < len"
  shows "length out < length out' \<and> length out' \<le> cap"
  using assms by (auto simp: pk_match_def obind_Ok_conv Let_def split: if_splits)

lemma len_base_pos: "i < length LEN_BASE \<Longrightarrow> 0 < LEN_BASE ! i"
proof -
  have "\<forall>x \<in> set LEN_BASE. 0 < x" by (simp add: LEN_BASE_def)
  then show "i < length LEN_BASE \<Longrightarrow> 0 < LEN_BASE ! i" by (meson nth_mem)
qed

lemma pk_step_longer:
  assumes "pk_step src coded dict cap out b = Ok (Some (out', b'))" and "length out < cap"
  shows "length out < length out' \<and> length out' \<le> cap"
proof -
  obtain flag b1 where flag: "pk_take src 1 b = Ok (flag, b1)"
    using assms(1) by (auto simp: pk_step_def obind_Ok_conv)
  show ?thesis
  proof (cases "flag = 0")
    case True
    with assms flag show ?thesis by (auto simp: pk_step_def obind_Ok_conv split: if_splits)
  next
    case False
    with assms(1) flag obtain sym b3 and x :: u32 where s: "sym < length LEN_BASE"
      "pk_match src dict cap out (LEN_BASE ! sym + unat x) b3 = Ok (Some (out', b'))"
      by (auto simp: pk_step_def obind_Ok_conv Let_def split: if_splits)
    from pk_match_longer [OF s(2) assms(2)] len_base_pos [OF s(1)] show ?thesis by simp
  qed
qed

function pk_loop :: "bytes \<Rightarrow> bool \<Rightarrow> nat \<Rightarrow> nat \<Rightarrow> bytes \<Rightarrow> pk_bits \<Rightarrow> (pk_error, bytes) outcome" where
  "pk_loop src coded dict cap out b =
     (if length out < cap
      then
        case pk_step src coded dict cap out b of
          Err e \<Rightarrow> Err e
        | Panic \<Rightarrow> Panic
        | Ok None \<Rightarrow> Ok out
        | Ok (Some (out, b)) \<Rightarrow> pk_loop src coded dict cap out b
      else Ok out)"
  by pat_completeness auto

termination
  by (relation "measure (\<lambda>(src, coded, dict, cap, out, b). cap - length out)") (auto dest: pk_step_longer)

declare pk_loop.simps [simp del]

text \<open>What is decoded into a \<open>dst\<close> of \<open>cap\<close> bytes.\<close>

definition explode :: "bytes \<Rightarrow> nat \<Rightarrow> (pk_error, bytes) outcome" where
  "explode src cap =
     obind (pk_take src 8 \<lparr>pb_pos = 0, pb_buf = 0, pb_cnt = 0\<rparr>) (\<lambda>(coded_literals, b).
     if coded_literals > 1 then Err BadHeader
     else obind (pk_take src 8 b) (\<lambda>(dict, b).
     if \<not> (4 \<le> dict \<and> dict \<le> 6) then Err BadHeader
     else pk_loop src (coded_literals \<noteq> 0) (unat dict) cap [] b))"

section \<open>No panic\<close>

lemma pk_take_no_panic: "pk_take src n b \<noteq> Panic"
  by (simp add: pk_take_def split: option.split)

text \<open>A table whose counts cover every length and no more symbols than it has.\<close>

definition table_ok :: "huffman \<Rightarrow> bool" where
  "table_ok h \<longleftrightarrow> length (hf_count h) = MAX_BITS + 1 \<and>
     sum_list (map (\<lambda>l. hf_count h ! l) [1..<MAX_BITS + 1]) \<le> length (hf_symbol h)"

lemma decode_from_safe:
  assumes "\<forall>l \<in> set lens. l < length (hf_count h)" and "first \<le> code"
    and "at_index + sum_list (map (\<lambda>l. hf_count h ! l) lens) \<le> length (hf_symbol h)"
  shows "decode_from src h lens code first at_index b \<noteq> Panic \<and>
    (\<forall>s b'. decode_from src h lens code first at_index b = Ok (s, b') \<longrightarrow> s \<in> set (hf_symbol h))"
  using assms
proof (induction lens arbitrary: code first at_index b)
  case (Cons len lens)
  show ?case
  proof (cases "pk_take src 1 b")
    case (Ok v)
    obtain x b1 where v: "v = (x, b1)" by fastforce
    define c where "c = code + unat (x XOR 1)"
    define n where "n = hf_count h ! len"
    have c: "first \<le> c" using Cons.prems(2) by (simp add: c_def)
    have step: "decode_from src h (len # lens) code first at_index b =
        (if c < first + n then obind (index (hf_symbol h) (at_index + (c - first))) (\<lambda>s. Ok (s, b1))
         else decode_from src h lens (2 * c) (2 * (first + n)) (at_index + n) b1)"
      unfolding decode_from.simps Ok v obind.simps prod.case Let_def c_def [symmetric]
      using Cons.prems(1) c by (simp add: index_def n_def)
    have room: "at_index + n + sum_list (map (\<lambda>l. hf_count h ! l) lens) \<le> length (hf_symbol h)"
      using Cons.prems(3) by (simp add: n_def)
    show ?thesis
    proof (cases "c < first + n")
      case True
      with c room have "at_index + (c - first) < length (hf_symbol h)" by simp
      with True show ?thesis unfolding step by (simp add: index_def)
    next
      case False
      then show ?thesis unfolding step
        using Cons.IH [of "2 * (first + n)" "2 * c" "at_index + n" b1] Cons.prems(1) room by simp
    qed
  qed (use pk_take_no_panic in simp_all)
qed simp

lemma pk_decode_safe:
  "table_ok h \<Longrightarrow> pk_decode src h b \<noteq> Panic \<and> (\<forall>s b'. pk_decode src h b = Ok (s, b') \<longrightarrow> s \<in> set (hf_symbol h))"
  unfolding pk_decode_def by (rule decode_from_safe) (auto simp: table_ok_def)

lemma place_length: "length (fst (fold place_symbol xs (sy, offs))) = length sy"
  by (induction xs arbitrary: sy offs) (auto simp: place_symbol_def)

lemma length_symbols: "length (hf_symbol (construct rep)) = 256"
  by (simp add: construct_def Let_def place_length)

lemma counts:
  "count_lengths (code_lengths LIT_LEN) = [0, 0, 0, 0, 1, 11, 20, 21, 16, 7, 5, 10, 91, 74]"
  "count_lengths (code_lengths LEN_LEN) = [0, 0, 1, 3, 3, 4, 3, 2, 0, 0, 0, 0, 0, 0]"
  "count_lengths (code_lengths DIST_LEN) = [0, 0, 1, 0, 2, 4, 15, 26, 16, 0, 0, 0, 0, 0]"
  by code_simp+

lemma tables_ok: "table_ok LIT_CODE" "table_ok LENGTH_CODE" "table_ok DIST_CODE"
proof -
  have "table_ok (construct rep) \<longleftrightarrow> length (count_lengths (code_lengths rep)) = 14 \<and>
      sum_list (tl (count_lengths (code_lengths rep))) \<le> 256"
    if len: "length (count_lengths (code_lengths rep)) = 14" for rep
  proof -
    obtain a c where c: "count_lengths (code_lengths rep) = a # c" using len by (cases "count_lengths (code_lengths rep)") auto
    have "map (\<lambda>l. (a # c) ! l) [1..<14] = c"
      using len c by (intro nth_equalityI) auto
    then show ?thesis
      using c len by (simp add: table_ok_def length_symbols construct_def Let_def MAX_BITS_def place_length del: upt_Suc)
  qed
  then show "table_ok LIT_CODE" "table_ok LENGTH_CODE" "table_ok DIST_CODE"
    by (simp_all add: LIT_CODE_def LENGTH_CODE_def DIST_CODE_def counts)
qed

lemma length_symbols_small: "list_all (\<lambda>s. s < 16) (hf_symbol LENGTH_CODE)"
  by code_simp

lemma pk_step_no_panic: "pk_step src coded dict cap out b \<noteq> Panic"
proof -
  have m: "pk_match src dict cap out len b \<noteq> Panic" for len b
    using pk_decode_safe [OF tables_ok(3)] pk_take_no_panic
    by (auto simp: pk_match_def obind_Panic_conv Let_def split: if_splits)
  have l: "sym < 16" if "pk_decode src LENGTH_CODE b = Ok (sym, b')" for b sym b'
    using pk_decode_safe [OF tables_ok(2)] that length_symbols_small by (auto simp: list_all_iff)
  have "length LEN_BASE = 16" "length LEN_EXTRA = 16" by (simp_all add: LEN_BASE_def LEN_EXTRA_def)
  with m l show ?thesis
    using pk_decode_safe [OF tables_ok(1)] pk_decode_safe [OF tables_ok(2)] pk_take_no_panic
    by (auto simp: pk_step_def obind_Panic_conv index_def Let_def split: if_splits)
qed

text \<open>
  No input makes the decoder panic: every code it finds is a symbol of its table, every copy lies
  in what it has written, and it never writes past the destination.
\<close>

theorem explode_is_safe: "explode src cap \<noteq> Panic \<and> (explode src cap = Ok out \<longrightarrow> length out \<le> cap)"
proof -
  have loop: "pk_loop src coded dict cap o' b \<noteq> Panic \<and>
      (length o' \<le> cap \<longrightarrow> pk_loop src coded dict cap o' b = Ok out \<longrightarrow> length out \<le> cap)" for coded dict o' b
  proof (induction src coded dict cap o' b rule: pk_loop.induct)
    case (1 src coded dict cap o' b)
    show ?case
    proof (cases "length o' < cap")
      case True
      consider "\<exists>e. pk_step src coded dict cap o' b = Err e" | "pk_step src coded dict cap o' b = Ok None"
        | o2 b2 where "pk_step src coded dict cap o' b = Ok (Some (o2, b2))"
        using pk_step_no_panic [of src coded dict cap o' b]
        by (cases "pk_step src coded dict cap o' b") (auto, metis not_None_eq prod.exhaust)
      then show ?thesis
      proof cases
        case 3
        with True 1 [OF True 3 refl refl] pk_step_longer [OF 3 True] show ?thesis
          by (subst (1 2) pk_loop.simps) simp
      qed (use True in \<open>auto simp: pk_loop.simps [of src coded dict cap o' b]\<close>)
    qed (auto simp: pk_loop.simps [of src coded dict cap o' b])
  qed
  have "pk_loop src coded dict cap [] b \<noteq> Panic" for coded dict b using loop by blast
  moreover have "length out \<le> cap" if "pk_loop src coded dict cap [] b = Ok out" for coded dict b
    using loop [of coded dict "[]" b] that by simp
  ultimately show ?thesis
    using pk_take_no_panic by (auto simp: explode_def obind_Panic_conv obind_Ok_conv split: if_splits)
qed

text \<open>Two literals and a copy of eleven bytes from two before.\<close>

theorem explode_is_safe_witness:
  "\<exists>out. explode [0, 4, 0x82, 0x24, 0x25, 0x8F, 0x80, 0x7F] 64 = Ok out \<and> out = ascii ''AIAIAIAIAIAIA'' \<and> length out \<le> 64"
proof -
  have "explode [0, 4, 0x82, 0x24, 0x25, 0x8F, 0x80, 0x7F] 64 = Ok (ascii ''AIAIAIAIAIAIA'')" by code_simp
  with explode_is_safe [of "[0, 4, 0x82, 0x24, 0x25, 0x8F, 0x80, 0x7F]" 64 "ascii ''AIAIAIAIAIAIA''"] show ?thesis by blast
qed

end
