(* ===== verification/Storage_Admin.thy ===== *)
theory Storage_Admin
  imports Storage_Actor D2s_Rules Accounts
begin

text \<open>
  The administrator's commands of the storage actor (\<open>bnetccd/src/storage.rs\<close>): the listing of users
  with what their attributes add up to, and the end of a ladder season, which takes every ladder
  character off the ladder, in its row and in its character file. Last, on the reference backend,
  what the end of a season leaves and what it counts.
\<close>

section \<open>The listing of users\<close>

record user_summary =
  us_id :: account_id
  us_name :: bytes
  us_created_at :: u64
  us_last_login :: "u64 option"
  us_wins :: u64
  us_losses :: u64
  us_flags :: u32

definition sat_add64 :: "u64 \<Rightarrow> u64 \<Rightarrow> u64" where
  "sat_add64 a b = (if a + b < a then - 1 else a + b)"

definition zero_slot :: "string \<Rightarrow> bytes" where
  "zero_slot counter = [BACKSLASH] @ ascii ''0'' @ [BACKSLASH] @ ascii counter"

definition parsed :: "nat \<Rightarrow> bytes \<Rightarrow> 'a::len word option" where
  "parsed w v = map_option word_of_nat (parse_uint w v)"

definition or_zero :: "'a::len word option \<Rightarrow> 'a word" where
  "or_zero r = (case r of Some n \<Rightarrow> n | None \<Rightarrow> 0)"

text \<open>One step of the loop over the attributes, which come in the order of their keys.\<close>

definition summarize_one :: "attr_key \<times> bytes \<Rightarrow> u64 \<times> u64 \<times> u64 option \<times> u32 \<Rightarrow> u64 \<times> u64 \<times> u64 option \<times> u32" where
  "summarize_one = (\<lambda>(k, v) (wins, losses, last_login, flags).
     let key = lowercase (key_str k) in
     if ends_with key (zero_slot ''wins'') then (sat_add64 wins (or_zero (parsed 64 v)), losses, last_login, flags)
     else if ends_with key (zero_slot ''losses'') then (wins, sat_add64 losses (or_zero (parsed 64 v)), last_login, flags)
     else if key = lowercase FLAGS_ATTR then (wins, losses, last_login, or_zero (parsed 32 v))
     else if key = lowercase LAST_LOGIN_ATTR then (wins, losses, parsed 64 v, flags)
     else (wins, losses, last_login, flags))"

definition summarize_attrs :: "attr_map \<Rightarrow> u64 \<times> u64 \<times> u64 option \<times> u32" where
  "summarize_attrs attrs =
     fold summarize_one (map (\<lambda>k. (k, the (fmlookup attrs k))) (sorted_list_of_fset (fmdom attrs))) (0, 0, None, 0)"

definition summary_of :: "account \<Rightarrow> attr_map \<Rightarrow> user_summary" where
  "summary_of a attrs =
     (let (wins, losses, last_login, flags) = summarize_attrs attrs in
      \<lparr>us_id = a_id a, us_name = a_name a, us_created_at = a_created_at a, us_last_login = last_login,
       us_wins = wins, us_losses = losses, us_flags = flags\<rparr>)"

definition act_list_users :: "'s storage_ops \<Rightarrow> u64 \<Rightarrow> u32 \<Rightarrow> 's \<Rightarrow> user_summary list \<times> 's" where
  "act_list_users ops offset limit s =
     (let (r, s) = so_list_accounts ops offset limit s in
      (case r of
         Ok as \<Rightarrow>
           visit_page (\<lambda>a s.
             let (m, s) = so_attrs_all ops (a_id a) s
             in ([summary_of a (case m of Ok attrs \<Rightarrow> attrs | _ \<Rightarrow> fmempty)], s)) as s
       | _ \<Rightarrow> ([], s)))"

section \<open>The end of a ladder season\<close>

text \<open>
  A character loses the ladder bit in its status byte and, when its character file can be read, in
  the file, which is written again.
\<close>

definition off_ladder :: "d2_character \<Rightarrow> d2_character" where
  "off_ladder c =
     (let c = c\<lparr>c_status := c_status c AND NOT D2_LADDER\<rparr> in
      case Option.bind (c_save c) (\<lambda>b. case save_parse b of Ok sv \<Rightarrow> Some sv | _ \<Rightarrow> None) of
        Some sv \<Rightarrow> c\<lparr>c_save := Some (save_to_bytes (set_save_status (save_status sv AND NOT D2_LADDER) sv))\<rparr>
      | None \<Rightarrow> c)"

type_synonym season_count = "u32 \<times> u32"

text \<open>The first error of the backend ends the command: the result is then \<open>None\<close>.\<close>

fun season_characters :: "'s storage_ops \<Rightarrow> d2_character list \<Rightarrow> season_count \<Rightarrow> 's \<Rightarrow> season_count option \<times> 's" where
  "season_characters ops [] n s = (Some n, s)"
| "season_characters ops (c # cs) (softcore, hardcore) s =
     (if c_status c AND D2_LADDER = 0 then season_characters ops cs (softcore, hardcore) s
      else
        let c = off_ladder c; (r, s) = so_update_character ops c s in
        (case r of
           Ok _ \<Rightarrow>
             season_characters ops cs
               (if c_status c AND D2_HARDCORE \<noteq> 0 then (softcore, hardcore + 1) else (softcore + 1, hardcore)) s
         | _ \<Rightarrow> (None, s)))"

fun season_accounts :: "'s storage_ops \<Rightarrow> account list \<Rightarrow> season_count \<Rightarrow> 's \<Rightarrow> season_count option \<times> 's" where
  "season_accounts ops [] n s = (Some n, s)"
| "season_accounts ops (a # as) n s =
     (let (r, s) = so_characters ops (a_id a) s in
      (case r of
         Ok cs \<Rightarrow>
           let (done, s) = season_characters ops cs n s in
           (case done of Some n \<Rightarrow> season_accounts ops as n s | None \<Rightarrow> (None, s))
       | _ \<Rightarrow> (None, s)))"

text \<open>The outer \<open>None\<close> is for want of fuel: one unit for each page of 500 accounts, the empty one included.\<close>

fun season_pages :: "nat \<Rightarrow> 's storage_ops \<Rightarrow> u64 \<Rightarrow> season_count \<Rightarrow> 's \<Rightarrow> season_count option option \<times> 's" where
  "season_pages 0 ops offset n s = (None, s)"
| "season_pages (Suc fuel) ops offset n s =
     (let (r, s) = so_list_accounts ops offset 500 s in
      (case r of
         Ok page \<Rightarrow>
           if page = [] then (Some (Some n), s)
           else
             let (done, s) = season_accounts ops page n s in
             (case done of
                Some n \<Rightarrow> season_pages fuel ops (offset + word_of_nat (length page)) n s
              | None \<Rightarrow> (Some None, s))
       | _ \<Rightarrow> (Some None, s)))"

definition act_end_ladder_season :: "nat \<Rightarrow> 's storage_ops \<Rightarrow> 's \<Rightarrow> season_count option option \<times> 's" where
  "act_end_ladder_season fuel ops s = season_pages fuel ops 0 (0, 0) s"

section \<open>What the end of a season leaves\<close>

definition on_ladder :: "d2_character \<Rightarrow> bool" where
  "on_ladder c \<longleftrightarrow> c_status c AND D2_LADDER \<noteq> 0"

definition hardcore :: "d2_character \<Rightarrow> bool" where
  "hardcore c \<longleftrightarrow> c_status c AND D2_HARDCORE \<noteq> 0"

definition retire :: "d2_character \<Rightarrow> d2_character" where
  "retire c = (if on_ladder c then off_ladder c else c)"

lemma off_ladder_fields [simp]:
  "c_account (off_ladder c) = c_account c" "c_name (off_ladder c) = c_name c"
  "c_class (off_ladder c) = c_class c" "c_created_at (off_ladder c) = c_created_at c"
  "c_level (off_ladder c) = c_level c" "c_progression (off_ladder c) = c_progression c"
  "c_last_played (off_ladder c) = c_last_played c" "c_status (off_ladder c) = c_status c AND NOT D2_LADDER"
  by (simp_all add: off_ladder_def Let_def split: option.split)

lemma off_ladder_bits [simp]:
  "\<not> on_ladder (off_ladder c)" "hardcore (off_ladder c) = hardcore c"
proof -
  show "\<not> on_ladder (off_ladder c)" by (simp add: on_ladder_def bit_eq_iff bit_simps) 
  have "NOT D2_LADDER AND D2_HARDCORE = D2_HARDCORE" by (simp add: D2_LADDER_def D2_HARDCORE_def)
  then show "hardcore (off_ladder c) = hardcore c" by (simp add: hardcore_def and.assoc)
qed

lemma retire_simps [simp]:
  "c_account (retire c) = c_account c" "c_name (retire c) = c_name c"
  "\<not> on_ladder (retire c)" "retire (retire c) = retire c" "\<not> on_ladder c \<Longrightarrow> retire c = c"
  by (simp_all add: retire_def)

lemma names_kept: "map (\<lambda>c. lowercase (c_name c)) (map (\<lambda>d. if P d then retire d else d) xs) =
    map (\<lambda>c. lowercase (c_name c)) xs"
  by (induction xs) simp_all

text \<open>Writing a ladder character back replaces it where it stands.\<close>

abbreviation named_apart :: "memory_storage \<Rightarrow> bool" where
  "named_apart s \<equiv> distinct (map (\<lambda>c. lowercase (c_name c)) (ms_characters s))"

lemma update_retired:
  assumes "named_apart s" and "c \<in> set (ms_characters s)" and "on_ladder c"
  shows "so_update_character memory_ops (off_ladder c) s =
    (Ok True, s\<lparr>ms_characters := map (\<lambda>d. if d = c then retire d else d) (ms_characters s)\<rparr>)"
proof -
  let ?P = "\<lambda>d. c_account d = c_account c \<and> eq_nocase (c_name d) (c_name c)"
  obtain p where p: "p < length (ms_characters s)" "ms_characters s ! p = c"
    using assms(2) by (auto simp: in_set_conv_nth)
  have only: "j = p" if "j < length (ms_characters s)" "lowercase (c_name (ms_characters s ! j)) = lowercase (c_name c)" for j
    using assms(1) p that by (auto simp: distinct_conv_nth)
  have "find_index ?P (ms_characters s) = Some p"
    unfolding find_index_Some_iff
  proof (intro conjI allI impI notI)
    fix j assume j: "j < p" and "c_account (ms_characters s ! j) = c_account c \<and> eq_nocase (c_name (ms_characters s ! j)) (c_name c)"
    then have "j = p" using p by (intro only) (simp_all add: eq_nocase_def)
    with j show False by simp
  qed (use p in simp_all)
  moreover have "c\<lparr>c_status := c_status (off_ladder c), c_level := c_level (off_ladder c),
      c_progression := c_progression (off_ladder c), c_last_played := c_last_played (off_ladder c),
      c_save := c_save (off_ladder c)\<rparr> = retire c"
    using assms(3) by (simp add: retire_def off_ladder_def Let_def split: option.split)
  moreover have "(ms_characters s)[p := retire c] = map (\<lambda>d. if d = c then retire d else d) (ms_characters s)"
  proof (rule nth_equalityI)
    fix i assume "i < length ((ms_characters s)[p := retire c])"
    then have i: "i < length (ms_characters s)" by simp
    have "ms_characters s ! i = c \<longleftrightarrow> i = p" using only [OF i] p(2) by metis
    with i show "(ms_characters s)[p := retire c] ! i = map (\<lambda>d. if d = c then retire d else d) (ms_characters s) ! i"
      by (cases "i = p") simp_all
  qed simp
  ultimately show ?thesis using p by (simp add: memory_ops_simps mem_update_character_def)
qed

abbreviation counted :: "bool \<Rightarrow> d2_character list \<Rightarrow> u32" where
  "counted b cs \<equiv> word_of_nat (length (filter (\<lambda>c. on_ladder c \<and> hardcore c = b) cs))"

lemma retire_again:
  "map (\<lambda>d. if d \<in> set cs then retire d else d) (map (\<lambda>d. if d = c then retire d else d) xs) =
   map (\<lambda>d. if d \<in> set (c # cs) then retire d else d) xs"
  by auto

lemma season_characters_memory:
  "named_apart s \<Longrightarrow> distinct cs \<Longrightarrow> set cs \<subseteq> set (ms_characters s) \<Longrightarrow>
   season_characters memory_ops cs (m, n) s =
     (Some (m + counted False cs, n + counted True cs),
      s\<lparr>ms_characters := map (\<lambda>d. if d \<in> set cs then retire d else d) (ms_characters s)\<rparr>)"
proof (induction cs arbitrary: m n s)
  case (Cons c cs)
  show ?case
  proof (cases "on_ladder c")
    case False
    with Cons have "season_characters memory_ops cs (m, n) s =
     (Some (m + counted False cs, n + counted True cs),
      s\<lparr>ms_characters := map (\<lambda>d. if d \<in> set cs then retire d else d) (ms_characters s)\<rparr>)" by simp
    moreover have "map (\<lambda>d. if d \<in> set (c # cs) then retire d else d) (ms_characters s) =
        map (\<lambda>d. if d \<in> set cs then retire d else d) (ms_characters s)"
      using False by auto
    ultimately show ?thesis using False by (simp add: on_ladder_def)
  next
    case True
    let ?s = "s\<lparr>ms_characters := map (\<lambda>d. if d = c then retire d else d) (ms_characters s)\<rparr>"
    have "named_apart ?s" 
    proof -
      have "ms_characters ?s = map (\<lambda>d. if d = c then retire d else d) (ms_characters s)" by simp
      with Cons.prems(1) show ?thesis by (simp only: names_kept)
    qed
    moreover have "set cs \<subseteq> set (ms_characters ?s)" using Cons.prems by auto
    ultimately have "season_characters memory_ops cs (m', n') ?s =
      (Some (m' + counted False cs, n' + counted True cs),
       ?s\<lparr>ms_characters := map (\<lambda>d. if d \<in> set cs then retire d else d) (ms_characters ?s)\<rparr>)" for m' n'
      using Cons.IH [of ?s m' n'] Cons.prems by simp
    moreover have "so_update_character memory_ops (off_ladder c) s = (Ok True, ?s)"
      using update_retired [of s c] Cons.prems True by simp
    moreover have "(c_status (off_ladder c) AND D2_HARDCORE \<noteq> 0) = hardcore c"
      using off_ladder_bits(2) [of c] by (simp add: hardcore_def)
    moreover note retire_again [of cs c "ms_characters s"]
    ultimately show ?thesis using True
      by (simp only: season_characters.simps Let_def prod.case outcome.case) (simp add: on_ladder_def)
  qed
qed simp

text \<open>The characters of some accounts, taken off the ladder and counted.\<close>

definition retired :: "account_id set \<Rightarrow> d2_character list \<Rightarrow> d2_character list" where
  "retired I cs = map (\<lambda>d. if c_account d \<in> I then retire d else d) cs"

definition tally :: "bool \<Rightarrow> account_id set \<Rightarrow> d2_character list \<Rightarrow> u32" where
  "tally b I cs = counted b (filter (\<lambda>c. c_account c \<in> I) cs)"

lemma retired_simps [simp]:
  "retired {} cs = cs" "retired J (retired I cs) = retired (I \<union> J) cs"
  "map (\<lambda>c. lowercase (c_name c)) (retired I cs) = map (\<lambda>c. lowercase (c_name c)) cs"
  by (simp_all add: retired_def)

lemma tally_Nil [simp]: "tally b {} cs = 0"
  by (simp add: tally_def)

lemma tally_twice: "tally b I cs + tally b J (retired I cs) = tally b (I \<union> J) cs"
  by (induction cs) (auto simp: tally_def retired_def retire_def algebra_simps)

lemma season_accounts_memory:
  "named_apart s \<Longrightarrow> season_accounts memory_ops as (m, n) s =
     (Some (m + tally False (a_id ` set as) (ms_characters s), n + tally True (a_id ` set as) (ms_characters s)),
      s\<lparr>ms_characters := retired (a_id ` set as) (ms_characters s)\<rparr>)"
proof (induction as arbitrary: m n s)
  case (Cons a as)
  let ?I = "{a_id a}" and ?J = "a_id ` set as" and ?cs = "ms_characters s"
  let ?s = "s\<lparr>ms_characters := retired ?I ?cs\<rparr>"
  let ?own = "filter (\<lambda>c. c_account c = a_id a) ?cs"
  have "map (\<lambda>d. if d \<in> set ?own then retire d else d) ?cs = retired ?I ?cs"
    by (auto simp: retired_def)
  moreover have "distinct ?own" using Cons.prems by (simp add: distinct_map)
  ultimately have "season_characters memory_ops ?own (m, n) s = (Some (m + tally False ?I ?cs, n + tally True ?I ?cs), ?s)"
    using season_characters_memory [OF Cons.prems, of ?own m n] by (simp add: tally_def)
  moreover from Cons.prems have "named_apart ?s" by simp
  note Cons.IH [OF this, of "m + tally False ?I ?cs" "n + tally True ?I ?cs"]
  ultimately show ?case
    by (simp add: memory_ops_simps mem_characters_def add.assoc tally_twice)
qed simp

lemma season_pages_memory:
  assumes "length (all_accounts s) < 2 ^ 64"
  shows "named_apart s \<Longrightarrow> k \<le> length (all_accounts s) \<Longrightarrow> length (all_accounts s) \<le> 500 * n + k \<Longrightarrow>
    season_pages (Suc n) memory_ops (word_of_nat k) (x, y) s =
      (let I = a_id ` set (drop k (all_accounts s)) in
       (Some (Some (x + tally False I (ms_characters s), y + tally True I (ms_characters s))),
        s\<lparr>ms_characters := retired I (ms_characters s)\<rparr>))"
  using assms
proof (induction n arbitrary: k x y s)
  case 0
  then have "k = length (all_accounts s)" by simp
  moreover from this 0 have "unat (word_of_nat k :: u64) = k" by (simp add: unat_of_nat)
  ultimately show ?case by (simp add: mem_page)
next
  case (Suc n)
  define as where "as = all_accounts s"
  define page where "page = take 500 (drop k as)"
  have unat: "unat (word_of_nat k :: u64) = k" using Suc.prems by (simp add: unat_of_nat)
  have split: "drop k as = page @ drop (k + length page) as"
    unfolding page_def by (metis append_take_drop_id drop_drop add.commute length_take min.commute take_all_iff nat_le_linear drop_all min_def)
  show ?case
  proof (cases "page = []")
    case True
    with split have "drop k as = []" by (simp add: page_def)
    with True show ?thesis by (simp add: mem_page unat flip: as_def)
  next
    case False
    let ?I = "a_id ` set page"
    let ?s = "s\<lparr>ms_characters := retired ?I (ms_characters s)\<rparr>"
    have same: "all_accounts ?s = as" by (simp add: as_def)
    have "named_apart ?s" using Suc.prems(1) by simp
    moreover have "k + length page \<le> length (all_accounts ?s)"
      and "length (all_accounts ?s) \<le> 500 * n + (k + length page)" and "length (all_accounts ?s) < 2 ^ 64"
      using Suc.prems False unfolding same by (auto simp: page_def as_def min_def)
    ultimately have "season_pages (Suc n) memory_ops (word_of_nat (k + length page)) (x', y') ?s =
      (let I = a_id ` set (drop (k + length page) as) in
       (Some (Some (x' + tally False I (ms_characters ?s), y' + tally True I (ms_characters ?s))),
        ?s\<lparr>ms_characters := retired I (ms_characters ?s)\<rparr>))" for x' y'
      using Suc.IH [of ?s "k + length page" x' y'] unfolding same by blast
    note rest = this
    have I: "a_id ` set (drop k as) = ?I \<union> a_id ` set (drop (k + length page) as)"
      by (subst split) (simp add: image_Un)
    have "so_list_accounts memory_ops (word_of_nat k) 500 s = (Ok page, s)"
      by (simp add: mem_page unat page_def as_def)
    moreover have "word_of_nat k + word_of_nat (length page) = (word_of_nat (k + length page) :: u64)" by simp
    moreover note season_accounts_memory [OF Suc.prems(1), of page x y]
    ultimately have "season_pages (Suc (Suc n)) memory_ops (word_of_nat k) (x, y) s =
        season_pages (Suc n) memory_ops (word_of_nat (k + length page))
          (x + tally False ?I (ms_characters s), y + tally True ?I (ms_characters s)) ?s"
      using False by (simp only: season_pages.simps(2) [of "Suc n"] Let_def prod.case outcome.case option.case if_False)
    then show ?thesis
      unfolding rest as_def [symmetric] I Let_def by (simp add: add.assoc tally_twice)
  qed
qed

text \<open>
  When the command ends on a consistent store, every character is off the ladder, those that were
  on it and no others have changed, and both counts are right. One unit of fuel for each page of
  500 accounts and one for the empty page are enough.
\<close>

theorem season_ends:
  assumes "mem_inv s" and "length (all_accounts s) < 2 ^ 64" and "length (all_accounts s) \<le> 500 * n"
  shows "act_end_ladder_season (Suc n) memory_ops s =
    (Some (Some (counted False (ms_characters s), counted True (ms_characters s))),
     s\<lparr>ms_characters := map retire (ms_characters s)\<rparr>)"
proof -
  let ?I = "a_id ` set (all_accounts s)"
  have known: "c_account c \<in> ?I" if "c \<in> set (ms_characters s)" for c
  proof -
    from mem_invD(4) [OF assms(1) that] obtain a where a: "fmlookup (ms_accounts s) (c_account c) = Some a"
      by (auto simp: fmlookup_dom_iff)
    with mem_invD(1) [OF assms(1) a] show ?thesis
      by (force simp: fmlookup_dom_iff image_iff intro: bexI [of _ "c_account c"])
  qed
  then have own: "filter (\<lambda>c. c_account c \<in> ?I) (ms_characters s) = ms_characters s"
    and ret: "retired ?I (ms_characters s) = map retire (ms_characters s)"
    by (simp_all only: filter_id_conv retired_def map_eq_conv) simp_all
  have tally: "tally b ?I (ms_characters s) = counted b (ms_characters s)" for b
    unfolding tally_def own ..
  have "season_pages (Suc n) memory_ops (word_of_nat 0) (0, 0) s =
      (let I = a_id ` set (drop 0 (all_accounts s)) in
       (Some (Some (0 + tally False I (ms_characters s), 0 + tally True I (ms_characters s))),
        s\<lparr>ms_characters := retired I (ms_characters s)\<rparr>))"
    using assms(3) by (intro season_pages_memory [OF assms(2) mem_invD(3) [OF assms(1)]]) simp_all
  moreover have "word_of_nat 0 = (0 :: u64)" by simp
  ultimately show ?thesis
    unfolding act_end_ladder_season_def Let_def drop_0 ret tally add_0 by metis
qed

text \<open>
  The character file agrees with the row: what is written of a save that can be read, can be read
  again, and shows the status without the ladder bit.
\<close>

theorem retired_file:
  assumes "c_save c = Some b" and "save_parse b = Ok sv"
  obtains b' sv' where "c_save (off_ladder c) = Some b'" and "save_parse b' = Ok sv'"
    and "save_status sv' = save_status sv AND NOT D2_LADDER" and "sv_items sv' = sv_items sv"
    and "sv_stats sv' = sv_stats sv" and "sv_quests sv' = sv_quests sv"
proof -
  let ?sv = "set_save_status (save_status sv AND NOT D2_LADDER) sv"
  have wf: "save_wf sv" using save_parse_wf [OF assms(2)] .
  have len: "length (sv_header sv) = 335" using wf by (simp add: save_wf_def d2s_lens)
  have "save_wf ?sv" using wf
    by (simp add: set_save_status_def save_wf_def u32_at_def take_update_before drop_update_swap)
  from save_reads_back [OF this] obtain h where h: "save_parse (save_to_bytes ?sv) = Ok (?sv\<lparr>sv_header := h\<rparr>)"
    "take 8 h = take 8 (sv_header ?sv)" "drop 16 h = drop 16 (sv_header ?sv)" by blast
  have "h ! 0x24 = drop 16 h ! 20" using arg_cong [OF h(3), of length] len by (simp add: set_save_status_def)
  also have "\<dots> = save_status sv AND NOT D2_LADDER" using len by (simp add: h(3) set_save_status_def)
  finally have status: "save_status (?sv\<lparr>sv_header := h\<rparr>) = save_status sv AND NOT D2_LADDER" by (simp add: save_status_def)
  have "c_save (off_ladder c) = Some (save_to_bytes ?sv)"
    using assms by (simp add: off_ladder_def Let_def)
  from this h(1) status show thesis
    by (rule that [where sv' = "?sv\<lparr>sv_header := h\<rparr>"]) (use h(1) in \<open>simp_all add: set_save_status_def\<close>)
qed

end
