(* ===== verification/Node_Status.thy ===== *)
theory Node_Status
  imports Storage_Admin Node_Ops Ip_Text
begin

text \<open>
  What the node tells the status pages, the trackers and the administrator (\<open>bnetccd/src/node.rs\<close>), and
  the ladder seasons (\<open>bnetccd/src/season.rs\<close>). A hash map lists its keys in an unknown order, which is
  an argument here; the theorems show what does not depend on it. Instants are milliseconds.
\<close>

section \<open>Sorting what a hash map lists\<close>

type_synonym hash_order = "bytes fset \<Rightarrow> bytes list"

definition lists_all :: "hash_order \<Rightarrow> bool" where
  "lists_all order \<longleftrightarrow> (\<forall>ks. distinct (order ks) \<and> set (order ks) = fset ks)"

definition hash_values :: "hash_order \<Rightarrow> (bytes, 'v) fmap \<Rightarrow> 'v list" where
  "hash_values order m = List.map_filter (fmlookup m) (order (fmdom m))"

section \<open>The snapshot\<close>

record channel_info =
  ci_name :: bytes
  ci_user_count :: nat
  ci_users :: "bytes list"
  ci_operator :: "bytes option"

record game_info =
  gi_name :: bytes
  gi_host_ip :: bytes
  gi_port :: u16
  gi_game_type :: u16
  gi_has_password :: bool
  gi_elapsed_secs :: u64

record snapshot =
  sn_server_name :: bytes
  sn_version :: bytes
  sn_uptime_secs :: u64
  sn_connections :: u64
  sn_peak_connections :: u64
  sn_online_users :: nat
  sn_channels :: "channel_info list"
  sn_games :: "game_info list"

definition channel_info_of :: "channel \<Rightarrow> channel_info" where
  "channel_info_of c =
     \<lparr>ci_name = ch_display c, ci_user_count = length (ch_members c), ci_users = map m_name (ch_members c),
      ci_operator = Option.bind (ch_operator c)
        (\<lambda>op. map_option m_name (find (\<lambda>m. m_account m = op) (ch_members c)))\<rparr>"

definition game_info_of :: "u64 \<Rightarrow> game_ad \<Rightarrow> game_info" where
  "game_info_of now g =
     \<lparr>gi_name = utf8_lossy (ga_name g), gi_host_ip = show_v4 (ga_host_ip g), gi_port = ga_port g,
      gi_game_type = ga_game_type g, gi_has_password = (ga_password g \<noteq> []),
      gi_elapsed_secs = sat_sub now (ga_created g) div 1000\<rparr>"

definition uptime_secs :: "u64 \<Rightarrow> u64 \<Rightarrow> u64" where
  "uptime_secs started now = sat_sub now started div 1000"

text \<open>The node's name, the version of the daemon and the instant it started are arguments.\<close>

definition status_snapshot :: "hash_order \<Rightarrow> bytes \<Rightarrow> bytes \<Rightarrow> u64 \<Rightarrow> u64 \<Rightarrow> node \<Rightarrow> snapshot" where
  "status_snapshot order name version started now n =
     (let channels = sort_key ci_name (map channel_info_of (hash_values order (nd_channels n)));
          games = sort_key gi_name (map (game_info_of now) (hash_values order (nd_games n)))
      in \<lparr>sn_server_name = name, sn_version = version, sn_uptime_secs = uptime_secs started now,
          sn_connections = nd_connections n, sn_peak_connections = nd_peak n,
          sn_online_users = sum_list (map ci_user_count channels), sn_channels = channels, sn_games = games\<rparr>)"

text \<open>Which channels may be shown publicly: those the operator defined as public or listed.\<close>

definition channel_occupancy :: "hash_order \<Rightarrow> node_config \<Rightarrow> node \<Rightarrow> (bytes \<times> bytes list \<times> bool) list" where
  "channel_occupancy order cfg n =
     List.map_filter (\<lambda>key. map_option (\<lambda>c. (ch_display c, map m_name (ch_members c),
         case rules_get (nc_rules cfg) key of Some r \<Rightarrow> rc_public r \<or> rc_listed r | None \<Rightarrow> False))
       (fmlookup (nd_channels n) key)) (order (fmdom (nd_channels n)))"

section \<open>Sessions online\<close>

definition online_count :: "node \<Rightarrow> nat" where
  "online_count n = fcard (fmdom (nd_sessions n))"

definition online_sessions :: "hash_order \<Rightarrow> node \<Rightarrow> (bytes \<times> four_cc option) list" where
  "online_sessions order n =
     sort_key (\<lambda>(name, _). lowercase name)
       (map (\<lambda>e. (se_name e, se_product e)) (hash_values order (nd_sessions n)))"

definition online_names :: "hash_order \<Rightarrow> node \<Rightarrow> bytes list" where
  "online_names order n = sort_key lowercase (map se_name (hash_values order (nd_sessions n)))"

text \<open>
  The accounts seen logging in, with the instant of the last time: the part of
  \<open>register_session\<close> that notes one, and the count within a window, which forgets older ones. The
  name noted is that of the account: no \<open>#N\<close>, and of \<open>Character*Account\<close> what follows the star.
\<close>

type_synonym seen = "(bytes, u64) fmap"

definition account_behind :: "bytes \<Rightarrow> bytes" where
  "account_behind display_name =
     (let base = takeWhile (\<lambda>b. b \<noteq> 0x23) display_name in
      lowercase (rev (takeWhile (\<lambda>b. b \<noteq> 0x2A) (rev base))))"

definition note_seen :: "bytes \<Rightarrow> u64 \<Rightarrow> seen \<Rightarrow> seen" where
  "note_seen display_name now sn = fmupd (account_behind display_name) now sn"

definition players_seen_since :: "u64 \<Rightarrow> u64 \<Rightarrow> seen \<Rightarrow> nat \<times> seen" where
  "players_seen_since window now sn =
     (let sn = fmfilter (\<lambda>k. case fmlookup sn k of Some at \<Rightarrow> sat_sub now at < window | None \<Rightarrow> True) sn
      in (fcard (fmdom sn), sn))"

section \<open>Games hosted\<close>

definition games_hosted_since :: "u64 \<Rightarrow> u64 \<Rightarrow> node \<Rightarrow> (bytes \<times> nat) list \<times> node" where
  "games_hosted_since window now n =
     (let log = (if window \<le> now then filter (\<lambda>(_, t). now - window \<le> t) (nd_game_log n) else nd_game_log n)
      in (map (\<lambda>p. (p, count_list (map fst log) p)) (sorted_list_of_set (fst ` set log)), n\<lparr>nd_game_log := log\<rparr>))"

section \<open>Ladder seasons\<close>

record season =
  sea_number :: u32
  sea_started :: u64

text \<open>
  The season file as read at the start: no path, the season it holds (decoded from JSON), a file
  that is malformed, none, or one that cannot be read. The second result is whether it is written.
\<close>

datatype season_file = NoPath | SeasonRead season | Malformed | NotFound | Unreadable

definition seasons_load :: "season_file \<Rightarrow> u64 \<Rightarrow> season \<times> bool" where
  "seasons_load file now_ms =
     (let first = \<lparr>sea_number = 1, sea_started = now_ms div 1000\<rparr> in
      case file of
        NoPath \<Rightarrow> (first, False)
      | SeasonRead s \<Rightarrow> (s, False)
      | Malformed \<Rightarrow> (first, False)
      | NotFound \<Rightarrow> (first, True)
      | Unreadable \<Rightarrow> (first, False))"

definition begin_next :: "u64 \<Rightarrow> season \<Rightarrow> season" where
  "begin_next now_ms current = \<lparr>sea_number = sea_number current + 1, sea_started = now_ms div 1000\<rparr>"

text \<open>Ending a season: the season ended, the one begun and the counts; then the season and the store.\<close>

definition node_end_ladder_season :: "nat \<Rightarrow> 's storage_ops \<Rightarrow> u64 \<Rightarrow> season \<Rightarrow> 's \<Rightarrow>
    (season \<times> season \<times> u32 \<times> u32) option option \<times> season \<times> 's" where
  "node_end_ladder_season fuel ops now_ms ended s =
     (case act_end_ladder_season fuel ops s of
        (Some (Some (soft, hard)), s) \<Rightarrow>
          let begun = begin_next now_ms ended in (Some (Some (ended, begun, soft, hard)), begun, s)
      | (Some None, s) \<Rightarrow> (Some None, ended, s)
      | (None, s) \<Rightarrow> (None, ended, s))"

section \<open>What does not depend on the hash order\<close>

lemma hash_values_mset:
  assumes "lists_all order"
  shows "mset (hash_values order m) = image_mset (\<lambda>k. the (fmlookup m k)) (mset_set (fset (fmdom m)))"
proof -
  have ks: "distinct (order (fmdom m))" "set (order (fmdom m)) = fset (fmdom m)"
    using assms by (simp_all add: lists_all_def)
  then have "hash_values order m = map (\<lambda>k. the (fmlookup m k)) (order (fmdom m))"
    unfolding hash_values_def by (intro map_filter_dom) simp
  moreover have "mset (order (fmdom m)) = mset_set (fset (fmdom m))"
    using ks by (metis mset_set_set)
  ultimately show ?thesis by simp
qed

text \<open>
  Two orders of the keys of the same map can only show equal keys in another order; where the sort
  keys differ, the sorted list is the same.
\<close>

lemma sorted_values_unique:
  assumes "lists_all o1" and "lists_all o2" and "inj_on f (set (hash_values o1 m))"
  shows "sort_key f (hash_values o1 m) = sort_key f (hash_values o2 m)"
proof -
  have "mset (hash_values o1 m) = mset (hash_values o2 m)"
    by (simp add: hash_values_mset assms(1) hash_values_mset assms(2))
  with assms(3) show ?thesis by (metis properties_for_sort_key mset_sort sorted_sort_key set_sort map_sorted_distinct_set_unique
      sort_key_inj_key_eq)
qed

lemma sum_sorted: "sum_list (map f (sort_key g xs)) = sum_list (map f xs)" for f :: "'a \<Rightarrow> nat"
  by (metis mset_map mset_sort sum_mset_sum_list)

lemma online_sum:
  assumes "lists_all order"
  shows "sn_online_users (status_snapshot order name version started now n) =
    (\<Sum>k \<in> fset (fmdom (nd_channels n)). length (ch_members (the (fmlookup (nd_channels n) k))))"
proof -
  have "sn_online_users (status_snapshot order name version started now n) =
      sum_mset (image_mset (\<lambda>c. length (ch_members c)) (mset (hash_values order (nd_channels n))))"
    by (simp add: status_snapshot_def Let_def sum_sorted channel_info_of_def comp_def sum_mset_sum_list flip: mset_map)
  then show ?thesis
    by (simp add: hash_values_mset [OF assms] multiset.map_comp comp_def sum_unfold_sum_mset)
qed

text \<open>Every session that is online is listed once.\<close>

lemma online_names_count:
  assumes "lists_all order"
  shows "length (online_names order n) = online_count n" "length (online_sessions order n) = online_count n"
proof -
  have "length (hash_values order (nd_sessions n)) = online_count n"
    unfolding online_count_def fcard.rep_eq by (simp add: hash_values_mset [OF assms] flip: size_mset)
  then show "length (online_names order n) = online_count n" "length (online_sessions order n) = online_count n"
    by (simp_all add: online_names_def online_sessions_def)
qed

text \<open>Counting hosted games again within the same window at the same time changes nothing.\<close>

lemma games_hosted_again:
  "games_hosted_since window now (snd (games_hosted_since window now n)) = games_hosted_since window now n"
  by (simp add: games_hosted_since_def Let_def)

text \<open>A season moves on only with every character converted; otherwise it stays.\<close>

lemma season_moves_on:
  assumes "node_end_ladder_season fuel ops now_ms ended s = (r, current, s')"
  shows "(\<exists>begun m n. r = Some (Some (ended, begun, m, n)) \<and> current = begun \<and> sea_number begun = sea_number ended + 1) \<or>
    current = ended"
  using assms by (auto simp: node_end_ladder_season_def begin_next_def Let_def split: prod.splits option.splits)

end
