(* ===== verification/Config.thy ===== *)
theory Config
  imports Node Ip_Text Bncs Line
begin

text \<open>
  \<open>bnetccd/src/config.rs\<close>: the settings a daemon is started with, their defaults, the checks they must
  pass, and what is built of them: the policy, the version policy and the channel rules. A setting is
  a record as TOML gives it; the TOML reader is a parameter. Error texts are named values. Left out
  are the settings of the pages, pushes and trackers, which nothing here reads.
\<close>

section \<open>The settings\<close>

record server_config =
  sc_name :: bytes
  sc_mode :: bytes
  sc_motd :: bytes
  sc_realm :: bytes
  sc_wc3_logon :: bytes

record client_limits_config =
  lc_gateway :: conn_limits_patch
  lc_bnftp :: conn_limits_patch
  lc_game_pending :: conn_limits_patch
  lc_game_default :: conn_limits_patch
  lc_products :: "(bytes, conn_limits_patch) fmap"

record limits_config =
  lm_max_connections :: u32
  lm_max_frame_bytes :: nat
  lm_max_line_bytes :: nat
  lm_outbound_queue :: nat
  lm_handshake_timeout_secs :: u64
  lm_idle_timeout_secs :: u64
  lm_gateway_allowlist :: "ip_addr list"
  lm_cd_key_uniqueness :: bool
  lm_clients :: client_limits_config

record federation_config =
  fc_enabled :: bool
  fc_hub :: bytes
  fc_identity_key :: bytes
  fc_offline_login :: bool

record diablo2_config =
  dc_realm :: bool
  dc_description :: bytes
  dc_address :: bytes
  dc_max_characters :: u32
  dc_data_dir :: bytes
  dc_game_server_probe :: bool
  dc_game_server_link :: bytes
  dc_game_server_token :: bytes
  dc_equipment_file :: bytes
  dc_character_pack :: bytes

record versions_config =
  vc_restrict :: bool
  vc_allowed :: "(bytes, (bytes, u32 list) fmap) fmap"

record channel_def =
  cd_name :: bytes
  cd_listed :: "bool option"
  cd_public :: "bool option"
  cd_persist :: "bool option"
  cd_max_users :: "nat option"
  cd_topic :: "bytes option"
  cd_telnet :: "bytes option"
  cd_game_only :: "bool option"
  cd_min_flag :: "bytes option"
  cd_products :: "bytes list option"

record channels_config =
  hc_auto_op_private :: bool
  hc_telnet_access :: bytes
  hc_private_max :: nat
  hc_public_max :: nat
  hc_clan_max :: nat
  hc_defined :: "channel_def list"
  hc_default_channel :: "(bytes, bytes) fmap"

record config =
  cfg_server :: server_config
  cfg_limits :: limits_config
  cfg_federation :: federation_config
  cfg_versions :: versions_config
  cfg_admins :: "bytes list"
  cfg_channels :: channels_config
  cfg_diablo2 :: diablo2_config

text \<open>A \<open>BTreeMap\<close> lists its entries in the order of their keys.\<close>

definition entries :: "(bytes, 'v) fmap \<Rightarrow> (bytes \<times> 'v) list" where
  "entries m = map (\<lambda>k. (k, the (fmlookup m k))) (sorted_list_of_fset (fmdom m))"

section \<open>Defaults\<close>

definition default_motd :: bytes where
  "default_motd = ascii (''Welcome to Command Center, an educational server for older computers. '' @
     ''On a modern computer, buy Diablo II: Resurrected, Warcraft III: Reforged, '' @
     ''StarCraft: Remastered or Warcraft II: Remastered.'')"

definition server_default :: server_config where
  "server_default =
     \<lparr>sc_name = ascii ''Command Center'', sc_mode = ascii ''gaming'', sc_motd = default_motd,
      sc_realm = ascii ''bncc'', sc_wc3_logon = ascii ''nls''\<rparr>"

definition no_patch :: conn_limits_patch where
  "no_patch = \<lparr>p_per_ip = None, p_per_account = None, p_global = None\<rparr>"

definition client_limits_default :: client_limits_config where
  "client_limits_default =
     \<lparr>lc_gateway = no_patch, lc_bnftp = no_patch, lc_game_pending = no_patch, lc_game_default = no_patch,
      lc_products = fmempty\<rparr>"

definition limits_default :: limits_config where
  "limits_default =
     \<lparr>lm_max_connections = 0, lm_max_frame_bytes = DEFAULT_MAX_FRAME, lm_max_line_bytes = DEFAULT_MAX_LINE,
      lm_outbound_queue = 64, lm_handshake_timeout_secs = 30, lm_idle_timeout_secs = 1200,
      lm_gateway_allowlist = [], lm_cd_key_uniqueness = True, lm_clients = client_limits_default\<rparr>"

definition federation_default :: federation_config where
  "federation_default =
     \<lparr>fc_enabled = False, fc_hub = [], fc_identity_key = ascii ''node.key'', fc_offline_login = False\<rparr>"

definition diablo2_default :: diablo2_config where
  "diablo2_default =
     \<lparr>dc_realm = True, dc_description = ascii ''Diablo II closed realm'', dc_address = [],
      dc_max_characters = 18, dc_data_dir = [], dc_game_server_probe = False, dc_game_server_link = [],
      dc_game_server_token = [], dc_equipment_file = ascii ''d2-equipment.json'',
      dc_character_pack = ascii ''d2-characters.zip''\<rparr>"

definition channels_default :: channels_config where
  "channels_default =
     \<lparr>hc_auto_op_private = False, hc_telnet_access = ascii ''public'', hc_private_max = 0,
      hc_public_max = 0, hc_clan_max = 0, hc_defined = [], hc_default_channel = fmempty\<rparr>"

definition config_default :: config where
  "config_default =
     \<lparr>cfg_server = server_default, cfg_limits = limits_default, cfg_federation = federation_default,
      cfg_versions = \<lparr>vc_restrict = False, vc_allowed = fmempty\<rparr>, cfg_admins = [],
      cfg_channels = channels_default, cfg_diablo2 = diablo2_default\<rparr>"

section \<open>Building the policy\<close>

datatype config_error =
    ParseError bytes
  | UnknownMode bytes
  | UnknownLogon bytes
  | BadProductCode bytes
  | NoOutboundQueue
  | FrameLimitTooSmall
  | NoHub
  | BadMaxCharacters
  | BadGameServerLink bytes
  | NoGameServerToken
  | BadVersionCode bytes bytes
  | NoVersionAllowed
  | BadTelnetAccess bytes
  | EmptyChannelName
  | ChannelNameVanishes bytes
  | BadTelnet bytes bytes
  | BadMinFlag bytes bytes
  | ChannelTwice bytes

definition parsed_mode :: "server_config \<Rightarrow> (config_error, server_mode) outcome" where
  "parsed_mode s = omap_err UnknownMode (mode_parse (sc_mode s))"

definition wc3_legacy_logon :: "server_config \<Rightarrow> (config_error, bool) outcome" where
  "wc3_legacy_logon s =
     (let t = lowercase (trim (sc_wc3_logon s)) in
      if t = ascii ''nls'' \<or> t = ascii ''srp'' then Ok False
      else if t = ascii ''legacy'' \<or> t = ascii ''xsha1'' \<or> t = ascii ''old'' then Ok True
      else Err (UnknownLogon t))"

definition is_code :: "bytes \<Rightarrow> bool" where
  "is_code c \<longleftrightarrow> length c = 4 \<and> is_ascii c"

fun patch_products :: "(bytes \<times> conn_limits_patch) list \<Rightarrow> client_limits \<Rightarrow> (config_error, client_limits) outcome" where
  "patch_products [] base = Ok base"
| "patch_products ((code, patch) # rest) base =
     (if \<not> is_code code then Err (BadProductCode code)
      else patch_products rest (patch_product (from_ascii code) patch base))"

definition limits_apply :: "client_limits_config \<Rightarrow> client_limits \<Rightarrow> (config_error, client_limits) outcome" where
  "limits_apply c base =
     patch_products (entries (lc_products c))
       (base\<lparr>l_gateway := patch_apply (lc_gateway c) (l_gateway base),
             l_bnftp := patch_apply (lc_bnftp c) (l_bnftp base),
             l_game_pending := patch_apply (lc_game_pending c) (l_game_pending base),
             l_game_default := patch_apply (lc_game_default c) (l_game_default base)\<rparr>)"

text \<open>The pending class is widened to the loosest product.\<close>

definition widest_per_ip :: "client_limits \<Rightarrow> u32" where
  "widest_per_ip l =
     fold max (map (\<lambda>p. per_ip (the (fmlookup (l_products l) p))) (sorted_list_of_fset (fmdom (l_products l))))
       (per_ip (l_game_default l))"

definition widen_pending :: "client_limits \<Rightarrow> client_limits" where
  "widen_pending l =
     (let widest = widest_per_ip l in
      if per_ip (l_game_pending l) < widest
      then l\<lparr>l_game_pending := (l_game_pending l)\<lparr>per_ip := widest\<rparr>\<rparr> else l)"

definition config_policy :: "config \<Rightarrow> (config_error, policy) outcome" where
  "config_policy c =
     obind (parsed_mode (cfg_server c)) (\<lambda>m.
     let p = for_mode m in
     obind (limits_apply (lm_clients (cfg_limits c)) (clients p)) (\<lambda>l.
     Ok (p\<lparr>clients := widen_pending l\<rparr>)))"

definition effective_max_connections :: "config \<Rightarrow> u64 \<Rightarrow> u32" where
  "effective_max_connections c fd_limit =
     (if 0 < lm_max_connections (cfg_limits c) then lm_max_connections (cfg_limits c)
      else let n = sat_sub fd_limit 64 in if unat n < 2 ^ 32 then ucast n else - 1)"

section \<open>The checks\<close>

text \<open>\<open>SocketAddr::from_str\<close>: an address, an IPv6 one in brackets and with an optional scope, and a port.\<close>

definition read_port :: "nat ip_parser" where
  "read_port s =
     (case given_char 0x3A s of None \<Rightarrow> None | Some (_, s) \<Rightarrow> read_number dec_value 10 65536 (length s) True s)"

definition read_scope :: "nat ip_parser" where
  "read_scope s =
     (case given_char 0x25 s of
        None \<Rightarrow> None | Some (_, s) \<Rightarrow> read_number dec_value 10 (2 ^ 32) (length s) True s)"

definition read_bracketed :: "bytes ip_parser" where
  "read_bracketed s =
     (case given_char 0x5B s of None \<Rightarrow> None | Some (_, s) \<Rightarrow>
     (case read_v6 s of None \<Rightarrow> None | Some (ip, s) \<Rightarrow>
        let s = (case read_scope s of Some (_, s') \<Rightarrow> s' | None \<Rightarrow> s) in
        (case given_char 0x5D s of None \<Rightarrow> None | Some (_, s) \<Rightarrow> Some (ip, s))))"

definition parse_socket_addr :: "bytes \<Rightarrow> (ip_addr \<times> nat) option" where
  "parse_socket_addr =
     whole (\<lambda>s.
       case (case read_v4 s of None \<Rightarrow> None
             | Some (ip, s') \<Rightarrow> map_option (\<lambda>(p, s''). ((V4 ip, p), s'')) (read_port s')) of
         Some r \<Rightarrow> Some r
       | None \<Rightarrow>
           (case read_bracketed s of None \<Rightarrow> None
            | Some (ip, s') \<Rightarrow> map_option (\<lambda>(p, s''). ((V6 ip, p), s'')) (read_port s')))"

definition validate :: "config \<Rightarrow> (config_error, unit) outcome" where
  "validate c =
     obind (parsed_mode (cfg_server c)) (\<lambda>_.
     obind (wc3_legacy_logon (cfg_server c)) (\<lambda>_.
     obind (config_policy c) (\<lambda>_.
     if lm_outbound_queue (cfg_limits c) = 0 then Err NoOutboundQueue
     else if lm_max_frame_bytes (cfg_limits c) < 16 then Err FrameLimitTooSmall
     else if fc_enabled (cfg_federation c) \<and> fc_hub (cfg_federation c) = [] then Err NoHub
     else if \<not> (1 \<le> dc_max_characters (cfg_diablo2 c) \<and> dc_max_characters (cfg_diablo2 c) \<le> 18) then Err BadMaxCharacters
     else
       let link = trim (dc_game_server_link (cfg_diablo2 c)) in
       if link \<noteq> [] then
         if parse_socket_addr link = None then Err (BadGameServerLink (dc_game_server_link (cfg_diablo2 c)))
         else if trim (dc_game_server_token (cfg_diablo2 c)) = [] then Err NoGameServerToken
         else Ok ()
       else Ok ())))"

definition from_toml :: "(bytes \<Rightarrow> (bytes, config) outcome) \<Rightarrow> bytes \<Rightarrow> (config_error, config) outcome" where
  "from_toml toml text =
     obind (omap_err ParseError (toml text)) (\<lambda>cfg. obind (validate cfg) (\<lambda>_. Ok cfg))"

section \<open>Version policy\<close>

fun allowed_platforms :: "four_cc \<Rightarrow> (bytes \<times> u32 list) list \<Rightarrow> (four_cc \<times> four_cc, u32 list) fmap \<Rightarrow>
    (config_error, (four_cc \<times> four_cc, u32 list) fmap) outcome" where
  "allowed_platforms product [] m = Ok m"
| "allowed_platforms product ((platform, bs) # rest) m =
     (if \<not> is_code platform then Err (BadVersionCode (ascii ''platform'') platform)
      else allowed_platforms product rest (fmupd (product, from_ascii platform) bs m))"

fun allowed_products :: "(bytes \<times> (bytes, u32 list) fmap) list \<Rightarrow> (four_cc \<times> four_cc, u32 list) fmap \<Rightarrow>
    (config_error, (four_cc \<times> four_cc, u32 list) fmap) outcome" where
  "allowed_products [] m = Ok m"
| "allowed_products ((product, platforms) # rest) m =
     (if \<not> is_code product then Err (BadVersionCode (ascii ''product'') product)
      else obind (allowed_platforms (from_ascii product) (entries platforms) m) (\<lambda>m. allowed_products rest m))"

definition config_versions :: "config \<Rightarrow> (config_error, version_policy) outcome" where
  "config_versions c =
     obind (allowed_products (entries (vc_allowed (cfg_versions c))) fmempty) (\<lambda>m.
     if vc_restrict (cfg_versions c) \<and> m = fmempty then Err NoVersionAllowed
     else Ok \<lparr>vp_restrict = vc_restrict (cfg_versions c), vp_allowed = m\<rparr>)"

section \<open>Channel rules\<close>

definition telnet_access_of :: "bytes \<Rightarrow> (config_error, telnet_access) outcome" where
  "telnet_access_of s =
     (let t = lowercase s in
      if t = ascii ''none'' then Ok TelnetNone
      else if t = ascii ''public'' \<or> t = [] then Ok TelnetPublic
      else if t = ascii ''all'' then Ok TelnetAll
      else Err (BadTelnetAccess t))"

definition telnet_of :: "bytes \<Rightarrow> bytes option \<Rightarrow> (config_error, bool option) outcome" where
  "telnet_of display setting =
     (case map_option lowercase setting of
        None \<Rightarrow> Ok None
      | Some t \<Rightarrow>
          if t = [] then Ok None
          else if t = ascii ''allow'' then Ok (Some True)
          else if t = ascii ''deny'' then Ok (Some False)
          else Err (BadTelnet display t))"

definition min_flag_of :: "bytes \<Rightarrow> bytes option \<Rightarrow> (config_error, u32) outcome" where
  "min_flag_of display setting =
     (case map_option lowercase setting of
        None \<Rightarrow> Ok 0
      | Some t \<Rightarrow>
          if t = [] \<or> t = ascii ''none'' then Ok 0
          else if t = ascii ''admin'' then Ok UF_ADMIN
          else if t = ascii ''speaker'' then Ok UF_SPEAKER
          else if t = ascii ''operator'' then Ok UF_OPERATOR
          else Err (BadMinFlag display t))"

definition or_else :: "'a \<Rightarrow> 'a option \<Rightarrow> 'a" where
  "or_else d r = (case r of Some x \<Rightarrow> x | None \<Rightarrow> d)"

definition resolve_channel :: "channel_def \<Rightarrow> (config_error, bytes \<times> resolved_channel) outcome" where
  "resolve_channel def =
     (let display = trim (cd_name def) in
      if display = [] then Err EmptyChannelName
      else
        let key = normalize_channel_name display in
        if key = [] then Err (ChannelNameVanishes display)
        else
          obind (telnet_of display (cd_telnet def)) (\<lambda>telnet.
          obind (min_flag_of display (cd_min_flag def)) (\<lambda>min_flag.
          Ok (key,
            \<lparr>rc_display = display, rc_listed = or_else True (cd_listed def),
             rc_public = or_else (classify_name display = PublicName) (cd_public def),
             rc_persist = or_else False (cd_persist def), rc_max_users = cd_max_users def,
             rc_topic = Option.bind (cd_topic def) (\<lambda>t. if t = [] then None else Some t), rc_telnet = telnet,
             rc_game_only = or_else False (cd_game_only def), rc_min_flag = min_flag,
             rc_products = filter (\<lambda>p. p \<noteq> []) (map (\<lambda>p. ascii_upper (trim p)) (or_else [] (cd_products def)))\<rparr>))))"

fun resolve_channels :: "channel_def list \<Rightarrow> (bytes, resolved_channel) fmap \<Rightarrow>
    (config_error, (bytes, resolved_channel) fmap) outcome" where
  "resolve_channels [] m = Ok m"
| "resolve_channels (def # rest) m =
     obind (resolve_channel def) (\<lambda>(key, r).
     if fmlookup m key \<noteq> None then Err (ChannelTwice (rc_display r))
     else resolve_channels rest (fmupd key r m))"

definition resolve_defaults :: "(bytes, bytes) fmap \<Rightarrow> (bytes, bytes) fmap" where
  "resolve_defaults m =
     fold (\<lambda>(product, chan). fmupd (ascii_upper (trim product)) (trim chan))
       (filter (\<lambda>(_, chan). trim chan \<noteq> []) (entries m)) fmempty"

definition config_channel_rules :: "config \<Rightarrow> (config_error, channel_rules) outcome" where
  "config_channel_rules c =
     obind (telnet_access_of (hc_telnet_access (cfg_channels c))) (\<lambda>t.
     obind (resolve_channels (hc_defined (cfg_channels c)) fmempty) (\<lambda>m.
     Ok \<lparr>cr_telnet_access = t, cr_by_key = m,
         cr_default_channel = resolve_defaults (hc_default_channel (cfg_channels c))\<rparr>))"

section \<open>The policy of an accepted configuration\<close>

lemma fold_max_upper:
  fixes d :: "'a::linorder"
  shows "d \<le> fold max xs d \<and> (\<forall>x \<in> set xs. x \<le> fold max xs d)"
proof (induction xs arbitrary: d)
  case (Cons x xs)
  from Cons [of "max x d"] show ?case by (auto intro: order_trans [of _ "max x d"])
qed simp

lemma widest_covers: "per_ip (product_limits l p) \<le> widest_per_ip l"
proof (cases "fmlookup (l_products l) p")
  case None
  then show ?thesis by (simp add: product_limits_def widest_per_ip_def fold_max_upper)
next
  case (Some c)
  then have "per_ip c \<in> set (map (\<lambda>p. per_ip (the (fmlookup (l_products l) p))) (sorted_list_of_fset (fmdom (l_products l))))"
    by (force simp: fmlookup_dom_iff image_iff)
  then have "per_ip c \<le> widest_per_ip l" unfolding widest_per_ip_def using fold_max_upper by blast
  with Some show ?thesis by (simp add: product_limits_def)
qed

lemma widen_pending_covers:
  "widest_per_ip l \<le> per_ip (l_game_pending (widen_pending l))"
  "product_limits (widen_pending l) p = product_limits l p"
  by (auto simp: widen_pending_def Let_def product_limits_def split: option.split)

text \<open>
  A game connection is never turned away for its address before its product is known when the limit
  of that product would have let it in.
\<close>

lemma pending_admits_every_product:
  assumes "config_policy c = Ok p"
  shows "per_ip (for_class (clients p) (GameClient f)) \<le> per_ip (for_class (clients p) GamePending)"
proof -
  from assms obtain l where "clients p = widen_pending l"
    by (auto simp: config_policy_def obind_Ok_conv Let_def)
  moreover have "per_ip (product_limits l f) \<le> per_ip (l_game_pending (widen_pending l))"
    using widest_covers widen_pending_covers(1) by (rule order_trans)
  ultimately show ?thesis by (simp add: widen_pending_covers(2))
qed

lemma for_mode_gates:
  "mode (for_mode m) = m" "game_hosting (for_mode Warnet) = Refuse" "game_listing (for_mode Warnet) = Refuse"
  "realms (for_mode Warnet) = Refuse" "w3_routing (for_mode Warnet) = Refuse"
  by (simp_all add: for_mode_def Let_def)

text \<open>No setting opens a gate the mode shuts.\<close>

lemma policy_of_mode:
  assumes "config_policy c = Ok p"
  shows "\<exists>m. parsed_mode (cfg_server c) = Ok m \<and> p\<lparr>clients := clients (for_mode m)\<rparr> = for_mode m"
  using assms by (auto simp: config_policy_def obind_Ok_conv Let_def)

lemma accepted_config:
  assumes "from_toml toml text = Ok c"
  shows "\<exists>m p. parsed_mode (cfg_server c) = Ok m \<and> config_policy c = Ok p \<and> mode p = m \<and>
    0 < lm_outbound_queue (cfg_limits c) \<and> 16 \<le> lm_max_frame_bytes (cfg_limits c) \<and>
    1 \<le> dc_max_characters (cfg_diablo2 c) \<and> dc_max_characters (cfg_diablo2 c) \<le> 18 \<and>
    (trim (dc_game_server_link (cfg_diablo2 c)) \<noteq> [] \<longrightarrow> trim (dc_game_server_token (cfg_diablo2 c)) \<noteq> [])"
proof -
  from assms have v: "validate c = Ok ()" by (auto simp: from_toml_def obind_Ok_conv)
  then obtain p where p: "config_policy c = Ok p" by (auto simp: validate_def obind_Ok_conv)
  obtain m where m: "parsed_mode (cfg_server c) = Ok m" "p\<lparr>clients := clients (for_mode m)\<rparr> = for_mode m"
    using policy_of_mode [OF p] by blast
  have "mode p = mode (p\<lparr>clients := clients (for_mode m)\<rparr>)" by simp
  also have "\<dots> = m" unfolding m(2) by (rule for_mode_gates)
  finally show ?thesis using v p m(1)
    by (auto simp: validate_def obind_Ok_conv Let_def split: if_splits)
qed

lemma default_is_accepted: "validate config_default = Ok ()"
proof -
  have "parsed_mode server_default = Ok Gaming" and logon: "wc3_legacy_logon server_default = Ok False"
    and link: "trim [] = []"
    by code_simp+
  moreover have "limits_apply client_limits_default l = Ok l" for l
    by (cases l) (simp add: limits_apply_def client_limits_default_def entries_def no_patch_def patch_apply_def
        sorted_list_of_fset.rep_eq)
  ultimately show ?thesis
    by (simp add: validate_def config_default_def config_policy_def limits_default_def
        diablo2_default_def federation_default_def DEFAULT_MAX_FRAME_def Let_def)
qed

section \<open>The channels a configuration defines\<close>

lemma resolve_channels_Ok:
  assumes "resolve_channels defs m = Ok m'"
  shows "(\<forall>def \<in> set defs. \<exists>key r. resolve_channel def = Ok (key, r) \<and> fmlookup m' key = Some r) \<and>
    (\<forall>k r. fmlookup m k = Some r \<longrightarrow> fmlookup m' k = Some r) \<and>
    (\<forall>k r. fmlookup m' k = Some r \<longrightarrow> fmlookup m k = Some r \<or> (\<exists>def \<in> set defs. resolve_channel def = Ok (k, r)))"
  using assms
proof (induction defs arbitrary: m)
  case (Cons def rest)
  then obtain key r where r: "resolve_channel def = Ok (key, r)" "fmlookup m key = None"
    "resolve_channels rest (fmupd key r m) = Ok m'"
    by (auto simp: obind_Ok_conv split: if_splits)
  note IH = Cons.IH [OF r(3)]
  have "fmlookup m' key = Some r" using IH by simp
  moreover have "fmlookup m' k = Some v" if "fmlookup m k = Some v" for k v
    using IH r(2) that by (cases "k = key") simp_all
  moreover have "fmlookup m k = Some v \<or> (\<exists>def \<in> set (def # rest). resolve_channel def = Ok (k, v))"
    if "fmlookup m' k = Some v" for k v
  proof (cases "k = key")
    case True
    with IH r(1) that show ?thesis by auto
  next
    case False
    from IH that have "fmlookup (fmupd key r m) k = Some v \<or> (\<exists>def \<in> set rest. resolve_channel def = Ok (k, v))"
      by blast
    with False show ?thesis by auto
  qed
  ultimately show ?case using IH r(1) by simp
qed simp

text \<open>
  With rules built from a configuration, a channel has a rule exactly when some definition resolves to
  its name, and then it is that one: which definition comes first does not matter.
\<close>

lemma rules_of_config:
  assumes "config_channel_rules c = Ok r"
  shows "rules_get r key = Some rule \<longleftrightarrow>
    (\<exists>def \<in> set (hc_defined (cfg_channels c)). resolve_channel def = Ok (key, rule))"
proof -
  from assms have m: "resolve_channels (hc_defined (cfg_channels c)) fmempty = Ok (cr_by_key r)"
    by (auto simp: config_channel_rules_def obind_Ok_conv)
  show ?thesis using resolve_channels_Ok [OF m] unfolding rules_get_def
    by (metis fmempty_lookup option.distinct(1) option.inject outcome.inject(1) prod.inject)
qed

lemma resolved_key: "resolve_channel def = Ok (key, r) \<Longrightarrow> key = normalize_channel_name (rc_display r) \<and> key \<noteq> []"
  by (auto simp: resolve_channel_def obind_Ok_conv Let_def split: if_splits)

end
