(* ===== verification/Spec2Isabelle.thy ===== *)
theory Spec2Isabelle
  imports Session_Fsm Channel_Rules Limits_Rules Accounts Nls Node_Rules Statstring Moderation
    Storage_Actor Ads Bnftp Session_Rules
    Line Mcp W3general Ip_Text Session_Promises
    D2s_Rules Gslink_Rules Connection_Rules
    War3 Federation_Rules Bni Item_Rules Item_Bits_Rules Pkware Node_Status Config
begin

text \<open>
  \<^bold>\<open>A verification library for the Battle.net command center\<close>

  The program is a Battle.net server in Rust: a daemon (\<open>src/crates/bnetccd\<close>) that speaks the BNCS
  protocol to the classic game clients, the file transfer protocol BNFTP, a line based chat gateway,
  and the Diablo II realm protocol MCP, over library crates for the wire formats
  (\<open>bnetcc-proto\<close>), the rules of channels, sessions, policy and limits (\<open>bnetcc-core\<close>), the password
  arithmetic (\<open>bnetcc-crypto\<close>) and the account storage (\<open>bnetcc-storage\<close>). The theories follow these
  crates; every definition has the name of what it models where Isabelle allows it.

  \<^bold>\<open>How the parts interact.\<close> A socket's chunks go into a receive buffer; a decoder takes frames off
  it; the session machine decides whether a frame is accepted in the state the connection is in; a
  handler acts on the session's own state and on what all connections share (the node's tables, the
  storage backend and the ban store) and answers through outbound queues. Admission, flood control
  and the key registry bound what a peer may take; the realm serves the characters of the accounts
  the chat server gave a ticket; the game-server link carries the realm's requests.

  \<^bold>\<open>Theories and sources.\<close>

  \<^item> \<open>Prelude\<close>, \<open>Text\<close>: machine integers, results that may panic, byte strings, UTF-8, little-endian
    numbers, the operations of Rust's standard library the program calls.
  \<^item> \<open>Proto_Types\<close> (\<open>error.rs\<close>, \<open>lib.rs\<close> of \<open>bnetcc-proto\<close>), \<open>Buf\<close> (\<open>buf.rs\<close>), \<open>Bncs\<close> (\<open>bncs.rs\<close>), \<open>Mcp\<close>
    (\<open>mcp.rs\<close>), \<open>Line\<close> (\<open>line.rs\<close>), \<open>Bnftp\<close> (\<open>bnftp.rs\<close>), \<open>Chat\<close> (\<open>chat.rs\<close>), \<open>Statstring\<close>
    (\<open>statstring.rs\<close>, \<open>d2.rs\<close>), \<open>W3general\<close> (\<open>w3general.rs\<close>), \<open>Bni\<close> (\<open>bni.rs\<close>): the wire formats.
  \<^item> \<open>Framing\<close>: the loops that append, decode and deliver, for any codec.
  \<^item> \<open>Session_Fsm\<close> (\<open>session.rs\<close> of \<open>bnetcc-core\<close>), \<open>Channel\<close>, \<open>Channel_Inv\<close>, \<open>Channel_Rules\<close>
    (\<open>channel.rs\<close>), \<open>Policy\<close> (\<open>policy.rs\<close>), \<open>Limits\<close>, \<open>Limits_Rules\<close> (\<open>limits.rs\<close>), \<open>Bridge\<close>,
    \<open>Bridge_Rules\<close> (\<open>bridge.rs\<close>), \<open>Ladder\<close> (\<open>ladder.rs\<close>), \<open>War3\<close>
    (\<open>ladder/war3.rs\<close>), \<open>Ads\<close> (\<open>ads.rs\<close>): the rules.
  \<^item> \<open>Xsha1\<close>, \<open>Nls\<close>: the two password schemes.
  \<^item> \<open>Attr\<close>, \<open>Storage\<close>, \<open>Write_Behind\<close>, \<open>Storage_Rules\<close>, \<open>Accounts\<close> (\<open>bnetcc-storage\<close>),
    \<open>Storage_Actor\<close>, \<open>Storage_Admin\<close> (\<open>bnetccd/src/storage.rs\<close>): what is stored and who may read and write it.
  \<^item> \<open>Moderation\<close> (\<open>moderation.rs\<close>), \<open>Node\<close>, \<open>Node_Ops\<close>, \<open>Node_Rules\<close>, \<open>Node_Status\<close> (\<open>node.rs\<close>,
    \<open>season.rs\<close>), \<open>Config\<close> (\<open>config.rs\<close>): what the connections
    of the daemon share.
  \<^item> \<open>Session\<close>, \<open>Session_Logon\<close>, \<open>Session_Chat\<close>, \<open>Session_Games\<close>, \<open>Session_Handle\<close>, \<open>Connection\<close>
    (\<open>bnetccd/src/session.rs\<close>): one game connection, from the accepted socket to its cleanup, with a
    definition for each handler; \<open>Session_Effects\<close>, \<open>Session_Keeps\<close>, \<open>Session_Rules\<close>,
    \<open>Session_System\<close>, \<open>Session_Promises\<close>, \<open>Session_Place\<close>, \<open>Connection_Rules\<close>: what holds of them.
  \<^item> \<open>Gslink\<close>, \<open>Gslink_Rules\<close> (\<open>bnetcc-gslink\<close>, \<open>gslink.rs\<close>), \<open>Realm\<close>, \<open>Realm_Rules\<close> (\<open>realm.rs\<close>),
    \<open>Ip_Text\<close> (the addresses of \<open>std::net\<close> these use), \<open>D2s\<close>, \<open>D2s_Rules\<close> (\<open>d2-formats/src/d2s.rs\<close>):
    the Diablo II side.
  \<^item> \<open>Excel\<close> (\<open>excel.rs\<close>), \<open>Items\<close>, \<open>Item_Rules\<close> (\<open>items.rs\<close>, \<open>item_stats.rs\<close>), \<open>Item_Bits\<close>,
    \<open>Item_Bits_Rules\<close> (\<open>item_bits.rs\<close>), \<open>Pkware\<close> (\<open>pkware.rs\<close>): the game's tables, items as bits and
    the decoder of compressed files (\<open>d2-data\<close>, \<open>d2-formats\<close>).
  \<^item> \<open>Federation\<close>, \<open>Federation_Rules\<close> (\<open>bnetcc-federation\<close>): the link between a node and a hub.

  \<^bold>\<open>State and operations.\<close> A struct is a record, an enum a datatype, a method a function from the
  state (and its arguments) to the result and the state afterwards. Handlers of a session are
  functions of \<open>'s env\<close> (what the daemon is configured with, the backend's methods among it), the
  session and the world, and return a step with both afterwards. A method that takes a lock for its
  whole body is one function of the shared state; so the interleavings modelled are those of whole
  packets (\<open>Session_System\<close>), and of the single commands of the storage actor.

  \<^bold>\<open>Interfaces.\<close> \<open>byte_queue\<close> (a receive buffer is a queue of bytes) and \<open>framing\<close> (a codec that waits
  for the rest of a frame; the frames delivered then do not depend on the chunks): interpreted for
  BNCS, MCP, the gateway's lines and the federation link. \<open>attr_backend\<close> (what attribute calls on a backend
  promise): interpreted for the in-memory backend and, by a general lemma, for the write-behind layer
  over any such backend. \<open>total_order_on_rows\<close>: the ladder's orders. \<open>world_inv\<close>, \<open>world_inv_logon\<close>
  and \<open>world_inv_login\<close>: what a session may do to the world, in three growing sets of primitive
  effects; whatever predicate each effect preserves, every handler, every packet and every run of a
  session preserves, proved once; interpreted for the invariant of the shared tables, the safety of
  the portraits shown, the bans and the lines of others, the records of the backend, and the
  connection's place in the admission table. \<open>realm_invariant\<close>: the same for the realm's requests,
  given what frames the peer sends; interpreted for the frame that shows a session's ticket, for the
  characters of other accounts, and for the shape of stored characters.

  \<^bold>\<open>What the lemmas show.\<close> The \<open>_Rules\<close> theories state what a component guarantees over any history of
  its operations (an inductive \<open>reached\<close> relation or a list of calls): channels, admission (also under a
  narrowed policy), flood control and keys, the store and its write-behind layer, the shared tables,
  the realm and its lobby. The wire
  formats have round trips and bounds. The theories on the session compose these: an account only from
  a proof of its credential (\<open>logon_needs_proof\<close>), which then stays (\<open>identity_is_settled\<close>); no
  moderation without the privilege (\<open>powerless_without_privilege\<close>); no writes to the records of others
  (\<open>writes_only_its_own_record\<close>); nothing left behind in the shared tables (\<open>cleanup_leaves_nothing\<close>) or
  in the admission table (\<open>connection_gives_its_place_back\<close>); and the invariants of all running
  sessions together (\<open>running_channels_sound\<close>).

  \<^bold>\<open>Bounds and fuel.\<close> The loops that decode (\<open>drain\<close> and \<open>receive\<close>, \<open>drain_session\<close>, \<open>mcp_drain\<close>,
  \<open>gateway_lines\<close>) take fuel per chunk and give \<open>None\<close> when it runs out. A frame takes at least one byte,
  so more fuel than bytes sent is enough: that is the bound theorems ask for, and
  \<open>connection_gives_its_place_back\<close> proves that with it \<open>handle_connection\<close> comes to an end on every
  input. Claiming a display name is a \<open>function\<close> with its termination proof (\<open>claim_name_free\<close>). A
  \<open>usize\<close> that counts elements in memory is a natural number; every other integer keeps its width and
  wraps as in a release build.

  \<^bold>\<open>Parameters.\<close> Code that is not in the repository is an argument of what uses it: SHA-1 (the crate
  \<open>sha1\<close>), the JSON coder (serde), host lookup, Unicode lower-casing, the clock, random draws, the
  order in which a hash map lists its keys, and the files a server is given. The rating formula of the
  ladder (floating-point powers) is an argument too. Theorems that need something of a parameter say
  so, and their witnesses give one.

  \<^bold>\<open>Not modelled.\<close> Sockets, threads, timers and channels between tasks as such (their order is that of
  the lists of chunks and packets); logging; the TOML reader and the command line (\<open>main.rs\<close>); the status
  page, the public status, trackers, webhooks and pushes with their settings (\<open>status.rs\<close>,
  \<open>public_status.rs\<close>, \<open>tracker.rs\<close>, \<open>admin.rs\<close>, \<open>discord.rs\<close>, \<open>outbound.rs\<close>, \<open>ladder_push.rs\<close>,
  \<open>stats_push.rs\<close>) and \<open>udp.rs\<close>, which report state or do I/O; the SQLite backend, which is SQL; the tools
  (\<open>bnetcc-icons\<close>, \<open>bnetcc-launcher\<close>, \<open>pvpgn-import\<close>, \<open>smoke\<close>); and the rest of \<open>d2-data\<close> and
  \<open>d2-formats\<close> with the game server that uses them (maps, monsters, drops, combat): they simulate the
  game and share no state with the daemon.
\<close>

end
